(* ===== verification/Prelude.thy ===== *)
theory Prelude
  imports Complex_Main "HOL-Library.AList" "HOL-Library.List_Lexorder" "HOL-Library.Char_ord"
begin

text \<open>
  Shared vocabulary of the development. Python dictionaries keep insertion order and update in
  place, so they are association lists with the library's update and delete; this theory names
  those operations, states the interface \<open>record_store\<close> every dictionary-backed table offers,
  and the interface \<open>versioned_machine\<close> that the three explicit lifecycles of the program
  (shards, cluster nodes, migrations) have in common. It also holds the decimal rendering of
  integers and the prefix tests that the code's formatted strings use.
\<close>

named_theorems frame_simps \<open>which fields an operation leaves alone\<close>
named_theorems store_simps \<open>what a table holds after an operation\<close>

type_synonym time = real

subsection \<open>Dictionaries\<close>

type_synonym ('k, 'v) dict = "('k \<times> 'v) list"

abbreviation dict_get :: "('k, 'v) dict \<Rightarrow> 'k \<Rightarrow> 'v option" where
  "dict_get d k \<equiv> map_of d k"

abbreviation dict_put :: "'k \<Rightarrow> 'v \<Rightarrow> ('k, 'v) dict \<Rightarrow> ('k, 'v) dict" where
  "dict_put k v d \<equiv> AList.update k v d"

abbreviation dict_pop :: "'k \<Rightarrow> ('k, 'v) dict \<Rightarrow> ('k, 'v) dict" where
  "dict_pop k d \<equiv> AList.delete k d"

abbreviation dict_values :: "('k, 'v) dict \<Rightarrow> 'v list" where
  "dict_values d \<equiv> map snd d"

abbreviation dict_ok :: "('k, 'v) dict \<Rightarrow> bool" where
  "dict_ok d \<equiv> distinct (map fst d)"

lemma map_of_dict_put [store_simps]: "map_of (dict_put k v d) = (map_of d)(k \<mapsto> v)"
  by (simp add: update_conv')

lemma map_of_dict_pop [store_simps]: "map_of (dict_pop k d) = (map_of d)(k := None)"
  by (simp add: delete_conv')

lemma dict_ok_put [simp, intro]: "dict_ok d \<Longrightarrow> dict_ok (dict_put k v d)"
  by (rule distinct_update)

lemma dict_ok_pop [simp, intro]: "dict_ok d \<Longrightarrow> dict_ok (dict_pop k d)"
  by (rule distinct_delete)

lemma dict_values_iff: "dict_ok d \<Longrightarrow> v \<in> set (dict_values d) \<longleftrightarrow> (\<exists>k. map_of d k = Some v)"
  by (auto simp: image_iff) (metis map_of_SomeD snd_conv)

lemma map_of_filter_some:
  "dict_ok d \<Longrightarrow> map_of (filter P d) k = Some v \<longleftrightarrow> map_of d k = Some v \<and> P (k, v)"
  by (induction d) (auto dest: map_of_SomeD simp: image_iff)

lemma dict_put_keys: "map fst (dict_put k v d) =
    (if k \<in> set (map fst d) then map fst d else map fst d @ [k])"
  by (induction d) auto

lemma dict_put_fresh: "k \<notin> fst ` set d \<Longrightarrow> dict_put k v d = d @ [(k, v)]"
  by (induction d) auto

lemma dict_put_same: "map_of d k = Some v \<Longrightarrow> dict_put k v d = d"
  by (induction d) auto

text \<open>
  The interface of a table whose records carry their own key: what a lookup returns after an
  insertion or a removal, and that the listed values are exactly the stored ones. The node and
  migration tables of the metadata store, the namespace store and the memtable are instances.
\<close>

locale record_store =
  fixes key :: "'v \<Rightarrow> 'k"
    and get :: "'s \<Rightarrow> 'k \<Rightarrow> 'v option"
    and put :: "'v \<Rightarrow> 's \<Rightarrow> 's"
    and remove :: "'k \<Rightarrow> 's \<Rightarrow> 's"
    and listing :: "'s \<Rightarrow> 'v list"
    and inv :: "'s \<Rightarrow> bool"
  assumes get_put: "get (put v s) = (get s)(key v \<mapsto> v)"
    and get_remove: "get (remove k s) = (get s)(k := None)"
    and get_key: "inv s \<Longrightarrow> get s k = Some v \<Longrightarrow> key v = k"
    and listing: "inv s \<Longrightarrow> v \<in> set (listing s) \<longleftrightarrow> get s (key v) = Some v"
    and inv_put: "inv s \<Longrightarrow> inv (put v s)"
    and inv_remove: "inv s \<Longrightarrow> inv (remove k s)"
begin

lemma get_put_same: "get (put v s) (key v) = Some v"
  by (simp add: get_put)

lemma get_put_other: "k \<noteq> key v \<Longrightarrow> get (put v s) k = get s k"
  by (simp add: get_put)

lemma get_remove_put: "get (remove (key v) (put v s)) = (get s)(key v := None)"
  by (simp add: get_put get_remove)

lemma listing_put:
  "inv s \<Longrightarrow> w \<in> set (listing (put v s)) \<longleftrightarrow> w = v \<or> (key w \<noteq> key v \<and> w \<in> set (listing s))"
  by (auto simp: listing inv_put get_put)

lemma listing_remove:
  "inv s \<Longrightarrow> w \<in> set (listing (remove k s)) \<longleftrightarrow> key w \<noteq> k \<and> w \<in> set (listing s)"
  by (auto simp: listing inv_remove get_remove)

lemma listing_get: "inv s \<Longrightarrow> get s k = Some v \<Longrightarrow> v \<in> set (listing s)"
  using get_key [of s k v] by (auto simp: listing)

lemma listing_unique:
  "inv s \<Longrightarrow> v \<in> set (listing s) \<Longrightarrow> w \<in> set (listing s) \<Longrightarrow> key v = key w \<Longrightarrow> v = w"
  by (auto simp: listing)

lemma get_fold_put: "get (fold put vs s) = get s ++ map_of (rev (map (\<lambda>v. (key v, v)) vs))"
  by (induction vs arbitrary: s) (auto simp: get_put map_add_def fun_eq_iff split: option.splits)

lemma inv_fold_put: "inv s \<Longrightarrow> inv (fold put vs s)"
  by (induction vs arbitrary: s) (auto simp: inv_put)

end

text \<open>Every dictionary keyed by a field of its values is such a table.\<close>

definition keyed_dict :: "('v \<Rightarrow> 'k) \<Rightarrow> ('k, 'v) dict \<Rightarrow> bool" where
  "keyed_dict key d \<longleftrightarrow> dict_ok d \<and> (\<forall>(k, v) \<in> set d. key v = k)"

lemma keyed_dict_iff:
  "keyed_dict key d \<longleftrightarrow> dict_ok d \<and> (\<forall>k v. map_of d k = Some v \<longrightarrow> key v = k)"
  by (auto simp: keyed_dict_def dest: map_of_SomeD)

lemma keyed_dict_put: "keyed_dict key d \<Longrightarrow> keyed_dict key (dict_put (key v) v d)"
  by (auto simp: keyed_dict_iff map_of_dict_put)

lemma keyed_dict_pop: "keyed_dict key d \<Longrightarrow> keyed_dict key (dict_pop k d)"
  by (auto simp: keyed_dict_iff map_of_dict_pop split: if_splits)

lemma keyed_dict_values:
  "keyed_dict key d \<Longrightarrow> v \<in> set (dict_values d) \<longleftrightarrow> map_of d (key v) = Some v"
  unfolding keyed_dict_iff using dict_values_iff [of d v] by auto

interpretation dict: record_store key map_of "\<lambda>v. dict_put (key v) v" dict_pop dict_values
    "keyed_dict key" for key
  by unfold_locales
    (simp_all only: map_of_dict_put map_of_dict_pop keyed_dict_put keyed_dict_pop
      keyed_dict_values, auto simp: keyed_dict_iff)

subsection \<open>Versioned state machines\<close>

text \<open>
  Steps of a lifecycle applied one after another; the first refused step stops the run.
\<close>

fun run_steps :: "('o \<Rightarrow> 's \<Rightarrow> 'e + 'o) \<Rightarrow> 'o \<Rightarrow> 's list \<Rightarrow> 'e + 'o" where
  "run_steps step x [] = Inr x"
| "run_steps step x (t # ts) =
     (case step x t of Inl e \<Rightarrow> Inl e | Inr y \<Rightarrow> run_steps step y ts)"

fun legal_path :: "('s \<Rightarrow> 's set) \<Rightarrow> 's \<Rightarrow> 's list \<Rightarrow> bool" where
  "legal_path allowed s [] = True"
| "legal_path allowed s (t # ts) = (t \<in> allowed s \<and> legal_path allowed t ts)"

lemma legal_path_append:
  "legal_path allowed s (xs @ ys) \<longleftrightarrow> legal_path allowed s xs \<and> legal_path allowed (last (s # xs)) ys"
  by (induction xs arbitrary: s) auto

text \<open>
  The contract shared by the three transition tables: a step succeeds exactly on a declared edge,
  moves to its target and counts one version.
\<close>

locale versioned_machine =
  fixes st :: "'o \<Rightarrow> 's"
    and ver :: "'o \<Rightarrow> int"
    and allowed :: "'s \<Rightarrow> 's set"
    and step :: "'o \<Rightarrow> 's \<Rightarrow> 'e + 'o"
  assumes step_ok: "step x t = Inr y \<Longrightarrow> t \<in> allowed (st x) \<and> st y = t \<and> ver y = ver x + 1"
    and step_err: "step x t = Inl e \<Longrightarrow> t \<notin> allowed (st x)"
begin

lemma step_iff: "(\<exists>y. step x t = Inr y) \<longleftrightarrow> t \<in> allowed (st x)"
  by (cases "step x t") (auto dest: step_ok step_err)

lemma step_terminal: "allowed (st x) = {} \<Longrightarrow> \<exists>e. step x t = Inl e"
  using step_iff [of x t] by (cases "step x t") auto

lemma run_legal: "run_steps step x ts = Inr y \<Longrightarrow> legal_path allowed (st x) ts"
  by (induction ts arbitrary: x) (auto split: sum.splits dest: step_ok)

lemma run_state: "run_steps step x ts = Inr y \<Longrightarrow> st y = last (st x # ts)"
proof (induction ts arbitrary: x)
  case (Cons t ts)
  then obtain z where "step x t = Inr z" "run_steps step z ts = Inr y"
    by (auto split: sum.splits)
  with Cons.IH [of z] step_ok [of x t z] show ?case by simp
qed simp

lemma run_version: "run_steps step x ts = Inr y \<Longrightarrow> ver y = ver x + int (length ts)"
  by (induction ts arbitrary: x) (auto split: sum.splits dest: step_ok)

lemma run_complete: "legal_path allowed (st x) ts \<Longrightarrow> \<exists>y. run_steps step x ts = Inr y"
proof (induction ts arbitrary: x)
  case (Cons t ts)
  then obtain y where y: "step x t = Inr y"
    using step_iff [of x t] by auto
  with step_ok [OF y] Cons show ?case by auto
qed simp

lemma run_iff: "(\<exists>y. run_steps step x ts = Inr y) \<longleftrightarrow> legal_path allowed (st x) ts"
  using run_legal run_complete by blast

lemma run_terminal: "allowed (st x) = {} \<Longrightarrow> run_steps step x ts = Inr y \<Longrightarrow> ts = [] \<and> y = x"
  by (cases ts) (auto split: sum.splits dest: step_ok)

end

end
