(* ===== verification/Py_Text.thy ===== *)
theory Py_Text
  imports Prelude
begin

text \<open>
  The pieces of Python's text and JSON handling the program uses: decimal integers, the zero
  padded fields of format strings (\<open>{i:03d}\<close>, \<open>{id:06d}\<close>), \<open>repr\<close> of a string
  (\<open>{x!r}\<close>), prefix tests on keys, and JSON values. Strings are character lists holding the
  UTF-8 bytes of the Python text, so byte order and code point order agree; \<open>repr\<close> escapes the
  ASCII control characters and leaves characters beyond ASCII as they are.
\<close>

subsection \<open>Integers\<close>

definition digit_char :: "nat \<Rightarrow> char" where
  "digit_char d = ''0123456789'' ! d"

fun nat_str :: "nat \<Rightarrow> string" where
  "nat_str n = (if n < 10 then [digit_char n] else nat_str (n div 10) @ [digit_char (n mod 10)])"

declare nat_str.simps [simp del]

definition int_str :: "int \<Rightarrow> string" where
  "int_str i = (if i < 0 then ''-'' @ nat_str (nat (- i)) else nat_str (nat i))"

definition zfill :: "nat \<Rightarrow> nat \<Rightarrow> string" where
  "zfill w n = (let s = nat_str n in replicate (w - length s) (CHR ''0'') @ s)"

lemma digit_char_inj: "d < 10 \<Longrightarrow> e < 10 \<Longrightarrow> digit_char d = digit_char e \<longleftrightarrow> d = e"
proof -
  have "distinct ''0123456789''" by simp
  then show "d < 10 \<Longrightarrow> e < 10 \<Longrightarrow> digit_char d = digit_char e \<longleftrightarrow> d = e"
    unfolding digit_char_def by (subst nth_eq_iff_index_eq) auto
qed

lemma nat_str_nonempty [simp]: "nat_str n \<noteq> []"
  by (subst nat_str.simps) simp

lemma nat_str_inj: "nat_str m = nat_str n \<longleftrightarrow> m = n"
proof (induction m arbitrary: n rule: nat_str.induct)
  case (1 m)
  show ?case
  proof (cases "m < 10"; cases "n < 10")
    assume "m < 10" "n < 10"
    then show ?thesis by (simp add: nat_str.simps [of m] nat_str.simps [of n] digit_char_inj)
  next
    assume "\<not> m < 10" "\<not> n < 10"
    with 1 [of "n div 10"] have "nat_str m = nat_str n \<longleftrightarrow> m div 10 = n div 10 \<and> m mod 10 = n mod 10"
      by (simp add: nat_str.simps [of m] nat_str.simps [of n] digit_char_inj)
    then show ?thesis by (metis div_mult_mod_eq)
  qed (auto simp: nat_str.simps [of m] nat_str.simps [of n] dest: sym [of "[]"])
qed

lemma nat_str_no_dash: "CHR ''-'' \<notin> set (nat_str n)"
proof (induction n rule: nat_str.induct)
  case (1 n)
  have "CHR ''-'' \<noteq> digit_char d" if "d < 10" for d
    using that nth_mem [of d "''0123456789''"] by (auto simp: digit_char_def)
  with 1 show ?case by (subst nat_str.simps) auto
qed

subsection \<open>Prefixes and repr\<close>

definition starts_with :: "string \<Rightarrow> string \<Rightarrow> bool" where
  "starts_with p s = (take (length p) s = p)"

lemma starts_with_append [simp]: "starts_with p (p @ s)"
  by (simp add: starts_with_def)

lemma starts_with_iff: "starts_with p s \<longleftrightarrow> (\<exists>t. s = p @ t)"
  by (metis append_eq_conv_conj append_take_drop_id starts_with_def)

definition repr_char :: "char \<Rightarrow> char \<Rightarrow> string" where
  "repr_char q c =
     (if c = q \<or> c = CHR 0x5C then [CHR 0x5C, c]
      else if c = CHR 0x0A then [CHR 0x5C, CHR ''n'']
      else if c = CHR 0x0D then [CHR 0x5C, CHR ''r'']
      else if c = CHR 0x09 then [CHR 0x5C, CHR ''t'']
      else if of_char c < (32::nat) \<or> of_char c = (127::nat) then
        [CHR 0x5C, CHR ''x'', ''0123456789abcdef'' ! (of_char c div 16),
         ''0123456789abcdef'' ! (of_char c mod 16)]
      else [c])"

definition py_repr :: "string \<Rightarrow> string" where
  "py_repr s =
     (let q = (if CHR 0x27 \<in> set s \<and> CHR 0x22 \<notin> set s then CHR 0x22 else CHR 0x27)
      in q # concat (map (repr_char q) s) @ [q])"

subsection \<open>JSON values\<close>

datatype json =
    JNull
  | JBool bool
  | JInt int
  | JFloat real
  | JStr string
  | JList "json list"
  | JObj "(string \<times> json) list"

text \<open>\<open>d.get(k)\<close> on a decoded object; the outer option is the AttributeError of a non-object.\<close>

fun obj_get :: "json \<Rightarrow> string \<Rightarrow> json option option" where
  "obj_get (JObj kvs) k = Some (map_of kvs k)"
| "obj_get _ k = None"

fun json_is_obj :: "json \<Rightarrow> bool" where
  "json_is_obj (JObj kvs) = True"
| "json_is_obj _ = False"

fun json_truthy :: "json \<Rightarrow> bool" where
  "json_truthy JNull = False"
| "json_truthy (JBool b) = b"
| "json_truthy (JInt i) = (i \<noteq> 0)"
| "json_truthy (JFloat r) = (r \<noteq> 0)"
| "json_truthy (JStr s) = (s \<noteq> [])"
| "json_truthy (JList xs) = (xs \<noteq> [])"
| "json_truthy (JObj kvs) = (kvs \<noteq> [])"

definition opt_json :: "('a \<Rightarrow> json) \<Rightarrow> 'a option \<Rightarrow> json" where
  "opt_json f v = (case v of None \<Rightarrow> JNull | Some x \<Rightarrow> f x)"

fun as_str :: "json \<Rightarrow> string option" where
  "as_str (JStr s) = Some s"
| "as_str _ = None"

fun as_int :: "json \<Rightarrow> int option" where
  "as_int (JInt i) = Some i"
| "as_int _ = None"

fun as_float :: "json \<Rightarrow> real option" where
  "as_float (JFloat r) = Some r"
| "as_float (JInt i) = Some (of_int i)"
| "as_float _ = None"

fun as_str_list :: "json \<Rightarrow> string list option" where
  "as_str_list (JList xs) =
     (if list_all (\<lambda>x. as_str x \<noteq> None) xs then Some (map (\<lambda>x. the (as_str x)) xs) else None)"
| "as_str_list _ = None"

fun as_opt_str :: "json \<Rightarrow> string option option" where
  "as_opt_str JNull = Some None"
| "as_opt_str (JStr s) = Some (Some s)"
| "as_opt_str _ = None"

lemma as_str_list_map [simp]: "as_str_list (JList (map JStr xs)) = Some xs"
  by (auto simp: list_all_iff o_def)

text \<open>
  \<open>d.get(k, default)\<close> followed by the typed use of the value: a missing key gives the default, a
  value of another JSON type is a decoding failure.
\<close>

definition field_or :: "(json \<Rightarrow> 'a option) \<Rightarrow> 'a \<Rightarrow> (string \<times> json) list \<Rightarrow> string \<Rightarrow> 'a option" where
  "field_or dec dflt kvs k = (case map_of kvs k of None \<Rightarrow> Some dflt | Some v \<Rightarrow> dec v)"

end
