(* ===== verification/Errors.thy ===== *)
theory Errors
  imports Py_Text
begin

text \<open>
  The exceptions of the program as values. Each class of \<open>sharding/exceptions.py\<close>,
  \<open>cluster/exceptions.py\<close> and of the error section of \<open>sharding/migration.py\<close> is a
  constructor with the arguments its \<open>__init__\<close> takes; \<open>exn_str\<close> is \<open>str(e)\<close>, the message the
  constructor builds, and \<open>is_ValueError\<close> and its kin are the class hierarchy the handlers
  test. The builtin classes the code raises itself are constructors too, and \<open>OtherError\<close> stands
  for any exception of the environment (an operating system error, a driver error).
\<close>

datatype exn =
    ShardNotFoundError string string
  | ShardCreatingError string string
  | ShardDrainingError string string
  | ShardOfflineError string string string
  | NoPrimaryOwnerError string string
  | OwnershipMismatchError string string string string
  | OwnershipConflictError string string string
  | InvalidLifecycleTransitionError string string string string
  | PlacementError string string
  | ShardUnavailableError string string string
  | RemoteRouteRequiredError string string string string
  | UnknownNodeError string string
  | DuplicateNodeRegistrationError string
  | RemovedNodeError string string
  | InvalidMembershipTransitionError string string string
  | ClusterIdMismatchError string string string
  | MigrationNotFoundError string
  | InvalidMigrationError string
  | MigrationConflictError string string string
  | MigrationStateError string string
  | MigrationSourceError string string
  | MigrationTargetError string string
  | MigrationVerificationError string string string string
  | MigrationCommitError string string string string
  | ReplicaUnavailableError string
  | ValueError string
  | KeyError string
  | RuntimeError string
  | AssertionError string
  | HTTPException nat string
  | OtherError string string

type_synonym 'a res = "exn + 'a"

subsection \<open>The class hierarchy\<close>

fun is_ShardLifecycleError :: "exn \<Rightarrow> bool" where
  "is_ShardLifecycleError (ShardNotFoundError _ _) = True"
| "is_ShardLifecycleError (ShardCreatingError _ _) = True"
| "is_ShardLifecycleError (ShardDrainingError _ _) = True"
| "is_ShardLifecycleError (ShardOfflineError _ _ _) = True"
| "is_ShardLifecycleError (NoPrimaryOwnerError _ _) = True"
| "is_ShardLifecycleError (OwnershipMismatchError _ _ _ _) = True"
| "is_ShardLifecycleError (OwnershipConflictError _ _ _) = True"
| "is_ShardLifecycleError (InvalidLifecycleTransitionError _ _ _ _) = True"
| "is_ShardLifecycleError _ = False"

fun is_RoutingError :: "exn \<Rightarrow> bool" where
  "is_RoutingError (PlacementError _ _) = True"
| "is_RoutingError (ShardUnavailableError _ _ _) = True"
| "is_RoutingError (RemoteRouteRequiredError _ _ _ _) = True"
| "is_RoutingError _ = False"

fun is_ClusterMembershipError :: "exn \<Rightarrow> bool" where
  "is_ClusterMembershipError (UnknownNodeError _ _) = True"
| "is_ClusterMembershipError (DuplicateNodeRegistrationError _) = True"
| "is_ClusterMembershipError (RemovedNodeError _ _) = True"
| "is_ClusterMembershipError (InvalidMembershipTransitionError _ _ _) = True"
| "is_ClusterMembershipError (ClusterIdMismatchError _ _ _) = True"
| "is_ClusterMembershipError _ = False"

fun is_MigrationError :: "exn \<Rightarrow> bool" where
  "is_MigrationError (MigrationNotFoundError _) = True"
| "is_MigrationError (InvalidMigrationError _) = True"
| "is_MigrationError (MigrationConflictError _ _ _) = True"
| "is_MigrationError (MigrationStateError _ _) = True"
| "is_MigrationError (MigrationSourceError _ _) = True"
| "is_MigrationError (MigrationTargetError _ _) = True"
| "is_MigrationError (MigrationVerificationError _ _ _ _) = True"
| "is_MigrationError (MigrationCommitError _ _ _ _) = True"
| "is_MigrationError _ = False"

fun is_MigrationStateError :: "exn \<Rightarrow> bool" where
  "is_MigrationStateError (MigrationStateError _ _) = True"
| "is_MigrationStateError _ = False"

fun is_MigrationVerificationError :: "exn \<Rightarrow> bool" where
  "is_MigrationVerificationError (MigrationVerificationError _ _ _ _) = True"
| "is_MigrationVerificationError _ = False"

text \<open>What \<open>except ValueError\<close> catches; pydantic's and the decoders' errors derive from it too.\<close>

definition is_ValueError :: "exn \<Rightarrow> bool" where
  "is_ValueError e =
     (is_ShardLifecycleError e \<or> is_RoutingError e \<or> is_ClusterMembershipError e \<or>
      is_MigrationError e \<or>
      (case e of ValueError _ \<Rightarrow> True
       | OtherError c m \<Rightarrow> c \<in> {''ValidationError'', ''JSONDecodeError'', ''UnicodeDecodeError''}
       | _ \<Rightarrow> False))"

subsection \<open>Messages\<close>

fun lifecycle_msg :: "exn \<Rightarrow> string" where
  "lifecycle_msg (ShardNotFoundError ns sid) = ''shard not found: '' @ ns @ '':'' @ sid"
| "lifecycle_msg (ShardCreatingError ns sid) =
     ''shard creating: '' @ ns @ '':'' @ sid @ '' is not ready for writes yet (state=CREATING)''"
| "lifecycle_msg (ShardDrainingError ns sid) =
     ''shard draining: '' @ ns @ '':'' @ sid @ '' does not accept new writes (state=DRAINING)''"
| "lifecycle_msg (ShardOfflineError ns sid st) =
     ''shard offline: '' @ ns @ '':'' @ sid @ '' is unavailable (state='' @ st @ '')''"
| "lifecycle_msg (NoPrimaryOwnerError ns sid) =
     ''no primary owner: '' @ ns @ '':'' @ sid @ '' has no primary owner assigned''"
| "lifecycle_msg (OwnershipMismatchError ns sid own loc) =
     ''ownership mismatch: '' @ ns @ '':'' @ sid @ '' primary owner '' @ py_repr own
     @ '' != local node '' @ py_repr loc
     @ ''; writes are refused rather than routed to a non-primary node''"
| "lifecycle_msg (OwnershipConflictError ns sid why) =
     ''ownership conflict: '' @ ns @ '':'' @ sid @ '': '' @ why"
| "lifecycle_msg (InvalidLifecycleTransitionError ns sid cur tgt) =
     ''invalid lifecycle transition: '' @ ns @ '':'' @ sid @ '' cannot move from '' @ cur
     @ '' to '' @ tgt"
| "lifecycle_msg (PlacementError ns why) =
     ''placement error: namespace '' @ py_repr ns @ '': '' @ why"
| "lifecycle_msg (ShardUnavailableError ns sid why) =
     ''shard unavailable: '' @ ns @ '':'' @ sid @ '': '' @ why"
| "lifecycle_msg (RemoteRouteRequiredError ns sid own loc) =
     ''remote route required: '' @ ns @ '':'' @ sid @ '' is owned by '' @ py_repr own
     @ '' (remote from local node '' @ py_repr loc
     @ ''); no local write is performed and cross-node transport is not implemented''"
| "lifecycle_msg _ = []"

definition with_context :: "string \<Rightarrow> string \<Rightarrow> string" where
  "with_context msg ctx = (if ctx = [] then msg else msg @ '' ('' @ ctx @ '')'')"

fun membership_msg :: "exn \<Rightarrow> string" where
  "membership_msg (UnknownNodeError n ctx) =
     with_context (''unknown node: '' @ py_repr n @ '' is not a known cluster member'') ctx"
| "membership_msg (DuplicateNodeRegistrationError n) =
     ''duplicate node registration: '' @ py_repr n @ '' is already a cluster member''"
| "membership_msg (RemovedNodeError n ctx) =
     with_context (''removed node: '' @ py_repr n @ '' has been removed from the cluster'') ctx"
| "membership_msg (InvalidMembershipTransitionError n cur tgt) =
     ''invalid membership transition: '' @ py_repr n @ '' cannot move from '' @ cur @ '' to '' @ tgt"
| "membership_msg (ClusterIdMismatchError n expd act) =
     ''cluster id mismatch: node '' @ py_repr n @ '' belongs to cluster '' @ py_repr act
     @ '', expected '' @ py_repr expd"
| "membership_msg _ = []"

fun migration_msg :: "exn \<Rightarrow> string" where
  "migration_msg (MigrationNotFoundError mid) = ''migration not found: '' @ py_repr mid"
| "migration_msg (InvalidMigrationError why) = ''invalid migration: '' @ why"
| "migration_msg (MigrationConflictError ns sid why) =
     ''migration conflict: '' @ ns @ '':'' @ sid @ '': '' @ why"
| "migration_msg (MigrationStateError mid why) =
     ''migration state error: '' @ py_repr mid @ '': '' @ why"
| "migration_msg (MigrationSourceError n why) =
     ''migration source error: source node '' @ py_repr n @ '' '' @ why"
| "migration_msg (MigrationTargetError n why) =
     ''migration target error: target node '' @ py_repr n @ '' '' @ why"
| "migration_msg (MigrationVerificationError ns sid expd act) =
     ''migration verification failed: '' @ ns @ '':'' @ sid @ '': target digest '' @ take 12 act
     @ '' != source digest '' @ take 12 expd"
| "migration_msg (MigrationCommitError ns sid tgt why) =
     ''migration commit failed: '' @ ns @ '':'' @ sid @ '' -> '' @ py_repr tgt @ '': '' @ why"
| "migration_msg _ = []"

text \<open>\<open>str(e)\<close>; the string of a KeyError is the repr of its argument.\<close>

fun exn_str :: "exn \<Rightarrow> string" where
  "exn_str (ReplicaUnavailableError n) = ''replica unavailable: '' @ n"
| "exn_str (ValueError m) = m"
| "exn_str (KeyError m) = py_repr m"
| "exn_str (RuntimeError m) = m"
| "exn_str (AssertionError m) = m"
| "exn_str (HTTPException c m) = nat_str c @ '': '' @ m"
| "exn_str (OtherError c m) = m"
| "exn_str e =
     (if is_ShardLifecycleError e \<or> is_RoutingError e then lifecycle_msg e
      else if is_ClusterMembershipError e then membership_msg e
      else migration_msg e)"

text \<open>The REST layer maps a ValueError of any of these families to status 400.\<close>

lemma error_families_are_ValueErrors:
  "is_ShardLifecycleError e \<or> is_RoutingError e \<or> is_ClusterMembershipError e \<or> is_MigrationError e
   \<Longrightarrow> is_ValueError e"
  by (auto simp: is_ValueError_def)

lemma error_families_disjoint:
  "\<not> (is_ShardLifecycleError e \<and> is_ClusterMembershipError e)"
  "\<not> (is_ShardLifecycleError e \<and> is_MigrationError e)"
  "\<not> (is_ClusterMembershipError e \<and> is_MigrationError e)"
  by (cases e; simp)+

end
