(* ===== verification/Shard_Core.thy ===== *)
theory Shard_Core
  imports Errors
begin

text \<open>
  \<open>sharding/shard.py\<close>: the shard record, its lifecycle states and transition table, the
  ownership checks and the two snapshots. \<open>shard.node_id\<close> is the primary owner; the fields carry
  the prefix \<open>sh_\<close>. The legacy states \<open>SPLITTING\<close> and \<open>RETIRED\<close> are part of the table.
\<close>

datatype ShardState = CREATING | ACTIVE | DRAINING | OFFLINE | SPLITTING | RETIRED

fun shard_state_value :: "ShardState \<Rightarrow> string" where
  "shard_state_value ShardState.CREATING = ''CREATING''"
| "shard_state_value ShardState.ACTIVE = ''ACTIVE''"
| "shard_state_value ShardState.DRAINING = ''DRAINING''"
| "shard_state_value ShardState.OFFLINE = ''OFFLINE''"
| "shard_state_value ShardState.SPLITTING = ''SPLITTING''"
| "shard_state_value ShardState.RETIRED = ''RETIRED''"

definition all_shard_states :: "ShardState list" where
  "all_shard_states = [ShardState.CREATING, ShardState.ACTIVE, ShardState.DRAINING,
     ShardState.OFFLINE, ShardState.SPLITTING, ShardState.RETIRED]"

text \<open>\<open>ShardState(value)\<close>: the member with that value, a ValueError (\<open>None\<close>) otherwise.\<close>

definition shard_state_of :: "string \<Rightarrow> ShardState option" where
  "shard_state_of v = find (\<lambda>s. shard_state_value s = v) all_shard_states"

lemma shard_state_of_value [simp]: "shard_state_of (shard_state_value s) = Some s"
  by (cases s) (simp_all add: shard_state_of_def all_shard_states_def)

record shard =
  sh_id :: string
  sh_namespace :: string
  sh_node_id :: string
  sh_state :: ShardState
  sh_vector_count :: int
  sh_max_vectors :: int
  sh_replicas :: "string list"
  sh_created_at :: time
  sh_version :: int

text \<open>The dataclass defaults; the id and the creation time come from \<open>uuid4\<close> and the clock.\<close>

definition default_max_vectors :: int where
  "default_max_vectors = 50000000000"

definition new_shard :: "string \<Rightarrow> time \<Rightarrow> string \<Rightarrow> string \<Rightarrow> shard" where
  "new_shard uid now ns node =
     \<lparr>sh_id = uid, sh_namespace = ns, sh_node_id = node, sh_state = ShardState.ACTIVE,
      sh_vector_count = 0, sh_max_vectors = default_max_vectors, sh_replicas = [],
      sh_created_at = now, sh_version = 1\<rparr>"

fun shard_transitions :: "ShardState \<Rightarrow> ShardState set" where
  "shard_transitions ShardState.CREATING = {ShardState.ACTIVE, ShardState.OFFLINE}"
| "shard_transitions ShardState.ACTIVE = {ShardState.DRAINING, ShardState.OFFLINE}"
| "shard_transitions ShardState.DRAINING = {ShardState.ACTIVE, ShardState.OFFLINE}"
| "shard_transitions ShardState.OFFLINE = {}"
| "shard_transitions ShardState.SPLITTING = {ShardState.RETIRED, ShardState.ACTIVE}"
| "shard_transitions ShardState.RETIRED = {}"

definition should_split :: "shard \<Rightarrow> bool" where
  "should_split s = (sh_vector_count s > sh_max_vectors s)"

definition shard_transition :: "shard \<Rightarrow> ShardState \<Rightarrow> shard res" where
  "shard_transition s to =
     (if to \<notin> shard_transitions (sh_state s) then
        Inl (InvalidLifecycleTransitionError (sh_namespace s) (sh_id s)
               (shard_state_value (sh_state s)) (shard_state_value to))
      else Inr (s\<lparr>sh_state := to, sh_version := sh_version s + 1\<rparr>))"

definition require_owner :: "shard \<Rightarrow> string res" where
  "require_owner s =
     (if sh_node_id s = [] then Inl (NoPrimaryOwnerError (sh_namespace s) (sh_id s))
      else Inr (sh_node_id s))"

definition owner_conflict :: "shard \<Rightarrow> string \<Rightarrow> exn" where
  "owner_conflict s owner = OwnershipConflictError (sh_namespace s) (sh_id s)
     (''primary owner '' @ py_repr owner @ '' cannot be a replica of the same shard'')"

definition validate_ownership :: "shard \<Rightarrow> string option \<Rightarrow> string list option \<Rightarrow> shard res" where
  "validate_ownership s owner_arg replicas_arg =
     (let owner = (case owner_arg of None \<Rightarrow> sh_node_id s | Some x \<Rightarrow> x);
          members = (case replicas_arg of None \<Rightarrow> sh_replicas s | Some x \<Rightarrow> x)
      in if owner = [] then Inl (NoPrimaryOwnerError (sh_namespace s) (sh_id s))
         else if owner \<in> set members then Inl (owner_conflict s owner)
         else Inr s)"

definition shard_ownership :: "shard \<Rightarrow> json" where
  "shard_ownership s = JObj
     [(''shard_id'', JStr (sh_id s)),
      (''namespace'', JStr (sh_namespace s)),
      (''state'', JStr (shard_state_value (sh_state s))),
      (''primary_owner'', JStr (sh_node_id s)),
      (''replicas'', JList (map JStr (sh_replicas s)))]"

definition shard_to_dict :: "shard \<Rightarrow> json" where
  "shard_to_dict s = JObj
     [(''id'', JStr (sh_id s)),
      (''namespace'', JStr (sh_namespace s)),
      (''node_id'', JStr (sh_node_id s)),
      (''primary_owner'', JStr (sh_node_id s)),
      (''state'', JStr (shard_state_value (sh_state s))),
      (''vector_count'', JInt (sh_vector_count s)),
      (''max_vectors'', JInt (sh_max_vectors s)),
      (''replicas'', JList (map JStr (sh_replicas s))),
      (''version'', JInt (sh_version s))]"

subsection \<open>Lemmas\<close>

lemma shard_transition_ok:
  "shard_transition s to = Inr s' \<longleftrightarrow>
     to \<in> shard_transitions (sh_state s) \<and> s' = s\<lparr>sh_state := to, sh_version := sh_version s + 1\<rparr>"
  by (auto simp: shard_transition_def)

lemma shard_transition_err:
  "shard_transition s to = Inl e \<longleftrightarrow>
     to \<notin> shard_transitions (sh_state s) \<and>
     e = InvalidLifecycleTransitionError (sh_namespace s) (sh_id s)
           (shard_state_value (sh_state s)) (shard_state_value to)"
  by (auto simp: shard_transition_def)

lemma validate_ownership_ok:
  "validate_ownership s None None = Inr s' \<longleftrightarrow>
     s' = s \<and> sh_node_id s \<noteq> [] \<and> sh_node_id s \<notin> set (sh_replicas s)"
  by (auto simp: validate_ownership_def Let_def split: if_splits)

lemma require_owner_ok: "require_owner s = Inr n \<longleftrightarrow> n = sh_node_id s \<and> n \<noteq> []"
  by (auto simp: require_owner_def)

interpretation shard_machine:
  versioned_machine sh_state sh_version shard_transitions shard_transition
  by unfold_locales (auto simp: shard_transition_ok shard_transition_err)

text \<open>The frame of a run of transitions: only the state and the version move.\<close>

lemma shard_run_frame:
  "run_steps shard_transition s ts = Inr s' \<Longrightarrow>
     s' = s\<lparr>sh_state := last (sh_state s # ts), sh_version := sh_version s + int (length ts)\<rparr>"
proof (induction ts arbitrary: s)
  case (Cons t ts)
  then obtain u where u: "shard_transition s t = Inr u" and r: "run_steps shard_transition u ts = Inr s'"
    by (auto split: sum.splits)
  from Cons.IH [OF r] u show ?case by (auto simp: shard_transition_ok algebra_simps)
qed simp

text \<open>A shard that stops serving never serves again, and no path leads back to \<open>CREATING\<close>.\<close>

lemma shard_terminal: "shard_transitions s = {} \<longleftrightarrow> s \<in> {ShardState.OFFLINE, ShardState.RETIRED}"
  by (cases s) auto

lemma legal_path_no_creating:
  "legal_path shard_transitions s ts \<Longrightarrow> ShardState.CREATING \<notin> set ts"
proof (induction ts arbitrary: s)
  case (Cons t ts)
  then show ?case by (cases s) auto
qed simp

lemma legal_path_to_draining:
  "legal_path shard_transitions s ts \<Longrightarrow> ts \<noteq> [] \<Longrightarrow> last ts = ShardState.DRAINING \<Longrightarrow>
     last (s # butlast ts) = ShardState.ACTIVE"
proof (induction ts arbitrary: s)
  case (Cons t ts)
  show ?case
  proof (cases "ts = []")
    case True
    with Cons.prems show ?thesis by (cases s) auto
  next
    case False
    with Cons show ?thesis by auto
  qed
qed simp

end
