(* ===== verification/Cluster_Node.thy ===== *)
theory Cluster_Node
  imports Errors
begin

text \<open>
  \<open>cluster/node.py\<close>: the membership record of a node, its states and transition table. The
  fields carry the prefix \<open>cn_\<close>.
\<close>

datatype NodeMembershipState = JOINING | ACTIVE | DRAINING | REMOVED

fun node_state_value :: "NodeMembershipState \<Rightarrow> string" where
  "node_state_value NodeMembershipState.JOINING = ''JOINING''"
| "node_state_value NodeMembershipState.ACTIVE = ''ACTIVE''"
| "node_state_value NodeMembershipState.DRAINING = ''DRAINING''"
| "node_state_value NodeMembershipState.REMOVED = ''REMOVED''"

definition all_node_states :: "NodeMembershipState list" where
  "all_node_states = [NodeMembershipState.JOINING, NodeMembershipState.ACTIVE,
     NodeMembershipState.DRAINING, NodeMembershipState.REMOVED]"

definition node_state_of :: "string \<Rightarrow> NodeMembershipState option" where
  "node_state_of v = find (\<lambda>s. node_state_value s = v) all_node_states"

lemma node_state_of_value [simp]: "node_state_of (node_state_value s) = Some s"
  by (cases s) (simp_all add: node_state_of_def all_node_states_def)

record cluster_node =
  cn_node_id :: string
  cn_cluster_id :: string
  cn_state :: NodeMembershipState
  cn_version :: int

fun node_transitions :: "NodeMembershipState \<Rightarrow> NodeMembershipState set" where
  "node_transitions NodeMembershipState.JOINING =
     {NodeMembershipState.ACTIVE, NodeMembershipState.REMOVED}"
| "node_transitions NodeMembershipState.ACTIVE =
     {NodeMembershipState.DRAINING, NodeMembershipState.REMOVED}"
| "node_transitions NodeMembershipState.DRAINING =
     {NodeMembershipState.ACTIVE, NodeMembershipState.REMOVED}"
| "node_transitions NodeMembershipState.REMOVED = {}"

definition node_transition :: "cluster_node \<Rightarrow> NodeMembershipState \<Rightarrow> cluster_node res" where
  "node_transition n to =
     (if to \<notin> node_transitions (cn_state n) then
        Inl (InvalidMembershipTransitionError (cn_node_id n)
               (node_state_value (cn_state n)) (node_state_value to))
      else Inr (n\<lparr>cn_state := to, cn_version := cn_version n + 1\<rparr>))"

definition node_is_available :: "cluster_node \<Rightarrow> bool" where
  "node_is_available n =
     (cn_state n = NodeMembershipState.ACTIVE \<or> cn_state n = NodeMembershipState.DRAINING)"

definition node_to_dict :: "cluster_node \<Rightarrow> json" where
  "node_to_dict n = JObj
     [(''node_id'', JStr (cn_node_id n)),
      (''cluster_id'', JStr (cn_cluster_id n)),
      (''membership_state'', JStr (node_state_value (cn_state n))),
      (''version'', JInt (cn_version n))]"

lemma node_transition_ok:
  "node_transition n to = Inr n' \<longleftrightarrow>
     to \<in> node_transitions (cn_state n) \<and> n' = n\<lparr>cn_state := to, cn_version := cn_version n + 1\<rparr>"
  by (auto simp: node_transition_def)

lemma node_transition_err:
  "node_transition n to = Inl e \<longleftrightarrow>
     to \<notin> node_transitions (cn_state n) \<and>
     e = InvalidMembershipTransitionError (cn_node_id n)
           (node_state_value (cn_state n)) (node_state_value to)"
  by (auto simp: node_transition_def)

interpretation node_machine:
  versioned_machine cn_state cn_version node_transitions node_transition
  by unfold_locales (auto simp: node_transition_ok node_transition_err)

lemma node_terminal: "node_transitions s = {} \<longleftrightarrow> s = NodeMembershipState.REMOVED"
  by (cases s) auto

lemma node_step_keeps_removed:
  "node_transition n to = Inr n' \<Longrightarrow> cn_state n \<noteq> NodeMembershipState.REMOVED"
  by (auto simp: node_transition_ok)

end
