(* ===== verification/Migration_Record.thy ===== *)
theory Migration_Record
  imports Errors
begin

text \<open>
  The first half of \<open>sharding/migration.py\<close>: the durable migration record, its states and its
  transition table. The manager that drives it is in \<open>Migration\<close>; the record stands alone because
  the metadata store persists it. The fields carry the prefix \<open>mg_\<close>.
\<close>

datatype MigrationState =
  PENDING | PREPARING | COPYING | VERIFYING | COMMITTING | COMPLETED | FAILED | CANCELLED

fun migration_state_value :: "MigrationState \<Rightarrow> string" where
  "migration_state_value PENDING = ''PENDING''"
| "migration_state_value PREPARING = ''PREPARING''"
| "migration_state_value COPYING = ''COPYING''"
| "migration_state_value VERIFYING = ''VERIFYING''"
| "migration_state_value COMMITTING = ''COMMITTING''"
| "migration_state_value COMPLETED = ''COMPLETED''"
| "migration_state_value FAILED = ''FAILED''"
| "migration_state_value CANCELLED = ''CANCELLED''"

definition all_migration_states :: "MigrationState list" where
  "all_migration_states =
     [PENDING, PREPARING, COPYING, VERIFYING, COMMITTING, COMPLETED, FAILED, CANCELLED]"

definition migration_state_of :: "string \<Rightarrow> MigrationState option" where
  "migration_state_of v = find (\<lambda>s. migration_state_value s = v) all_migration_states"

lemma migration_state_of_value [simp]: "migration_state_of (migration_state_value s) = Some s"
  by (cases s) (simp_all add: migration_state_of_def all_migration_states_def)

record shard_migration =
  mg_id :: string
  mg_namespace :: string
  mg_shard_id :: string
  mg_source :: string
  mg_target :: string
  mg_state :: MigrationState
  mg_source_version :: int
  mg_cluster_id :: string
  mg_created_at :: time
  mg_updated_at :: time
  mg_error :: "string option"
  mg_version :: int
  mg_source_digest :: "string option"
  mg_target_digest :: "string option"
  mg_finalized :: bool

fun migration_transitions :: "MigrationState \<Rightarrow> MigrationState set" where
  "migration_transitions PENDING = {PREPARING, CANCELLED, FAILED}"
| "migration_transitions PREPARING = {COPYING, CANCELLED, FAILED}"
| "migration_transitions COPYING = {VERIFYING, CANCELLED, FAILED}"
| "migration_transitions VERIFYING = {COMMITTING, CANCELLED, FAILED}"
| "migration_transitions COMMITTING = {COMPLETED, FAILED}"
| "migration_transitions COMPLETED = {}"
| "migration_transitions FAILED = {}"
| "migration_transitions CANCELLED = {}"

text \<open>A successful transition also stamps \<open>updated_at\<close> with the clock, here the argument \<open>now\<close>.\<close>

definition migration_transition ::
    "time \<Rightarrow> shard_migration \<Rightarrow> MigrationState \<Rightarrow> shard_migration res" where
  "migration_transition now m to =
     (if to \<notin> migration_transitions (mg_state m) then
        Inl (MigrationStateError (mg_id m)
               (''cannot move from '' @ migration_state_value (mg_state m) @ '' to ''
                @ migration_state_value to))
      else Inr (m\<lparr>mg_state := to, mg_version := mg_version m + 1, mg_updated_at := now\<rparr>))"

definition is_terminal :: "shard_migration \<Rightarrow> bool" where
  "is_terminal m = (migration_state_value (mg_state m) \<in> {''COMPLETED'', ''FAILED'', ''CANCELLED''})"

definition cancelable :: "shard_migration \<Rightarrow> bool" where
  "cancelable m = (migration_state_value (mg_state m)
     \<in> {''PENDING'', ''PREPARING'', ''COPYING'', ''VERIFYING''})"

definition migration_to_dict :: "shard_migration \<Rightarrow> json" where
  "migration_to_dict m = JObj
     [(''migration_id'', JStr (mg_id m)),
      (''namespace'', JStr (mg_namespace m)),
      (''shard_id'', JStr (mg_shard_id m)),
      (''source_node_id'', JStr (mg_source m)),
      (''target_node_id'', JStr (mg_target m)),
      (''state'', JStr (migration_state_value (mg_state m))),
      (''source_version'', JInt (mg_source_version m)),
      (''cluster_id'', JStr (mg_cluster_id m)),
      (''created_at'', JFloat (mg_created_at m)),
      (''updated_at'', JFloat (mg_updated_at m)),
      (''error'', opt_json JStr (mg_error m)),
      (''version'', JInt (mg_version m)),
      (''source_digest'', opt_json JStr (mg_source_digest m)),
      (''target_digest'', opt_json JStr (mg_target_digest m)),
      (''finalized'', JBool (mg_finalized m))]"

lemma is_terminal_iff: "is_terminal m \<longleftrightarrow> mg_state m \<in> {COMPLETED, FAILED, CANCELLED}"
  by (cases "mg_state m") (simp_all add: is_terminal_def)

lemma cancelable_iff: "cancelable m \<longleftrightarrow> mg_state m \<in> {PENDING, PREPARING, COPYING, VERIFYING}"
  by (cases "mg_state m") (simp_all add: cancelable_def)

lemma is_terminal_transitions: "is_terminal m \<longleftrightarrow> migration_transitions (mg_state m) = {}"
  by (cases "mg_state m") (simp_all add: is_terminal_iff)

lemma nonterminal_can_fail: "\<not> is_terminal m \<Longrightarrow> FAILED \<in> migration_transitions (mg_state m)"
  by (cases "mg_state m") (simp_all add: is_terminal_iff)

lemma cancelable_can_cancel: "cancelable m \<longleftrightarrow> CANCELLED \<in> migration_transitions (mg_state m)"
  by (cases "mg_state m") (simp_all add: cancelable_iff)

lemma migration_transition_ok:
  "migration_transition now m to = Inr m' \<longleftrightarrow>
     to \<in> migration_transitions (mg_state m) \<and>
     m' = m\<lparr>mg_state := to, mg_version := mg_version m + 1, mg_updated_at := now\<rparr>"
  by (auto simp: migration_transition_def)

lemma migration_transition_err:
  "migration_transition now m to = Inl e \<Longrightarrow> to \<notin> migration_transitions (mg_state m)"
  by (auto simp: migration_transition_def split: if_splits)

interpretation migration_machine:
  versioned_machine mg_state mg_version migration_transitions "migration_transition now" for now
  by unfold_locales (auto simp: migration_transition_ok dest: migration_transition_err)

end
