(* ===== verification/Etcd.thy ===== *)
theory Etcd
  imports Shard_Core Cluster_Node Migration_Record "HOL-Library.Monad_Syntax"
begin

text \<open>
  \<open>sharding/etcd.py\<close>: \<open>InMemoryEtcd\<close>, the metadata store that holds shards, cluster nodes and
  migrations, with its JSON durability. The store hands out live references to its shard objects
  (the router's cache, the shard contexts and the migration manager all hold the same object), so
  shards live in a heap of references and the table maps ids to references. Nodes and migrations
  never leave their managers except as fresh copies, so their tables hold values.

  \<open>e_file\<close> is the decoded content of the file at \<open>e_path\<close> (the empty path is Python's falsy
  \<open>path\<close>), and \<open>e_writable\<close> says whether writing it succeeds: a failed write is logged and
  swallowed, as in the code, and leaves the old content. \<open>e_next\<close> numbers new objects.
\<close>

type_synonym sref = nat
type_synonym heap = "sref \<Rightarrow> shard"

record etcd =
  e_heap :: heap
  e_next :: sref
  e_data :: "(string, sref) dict"
  e_nodes :: "(string, cluster_node) dict"
  e_migrations :: "(string, shard_migration) dict"
  e_path :: string
  e_file :: "json option"
  e_writable :: bool

definition cluster_key_prefix :: string where
  "cluster_key_prefix = ''cluster::node::''"

definition migration_key_prefix :: string where
  "migration_key_prefix = ''migration::''"

text \<open>A new object: its reference is the next number.\<close>

definition alloc :: "shard \<Rightarrow> etcd \<Rightarrow> sref \<times> etcd" where
  "alloc s st = (e_next st, st\<lparr>e_heap := (e_heap st)(e_next st := s), e_next := Suc (e_next st)\<rparr>)"

definition assign :: "sref \<Rightarrow> shard \<Rightarrow> etcd \<Rightarrow> etcd" where
  "assign r s st = st\<lparr>e_heap := (e_heap st)(r := s)\<rparr>"

subsection \<open>Persistence\<close>

definition etcd_snapshot :: "etcd \<Rightarrow> (string, json) dict" where
  "etcd_snapshot st =
     fold (\<lambda>m. dict_put (migration_key_prefix @ mg_id m) (migration_to_dict m))
       (dict_values (e_migrations st))
       (fold (\<lambda>n. dict_put (cluster_key_prefix @ cn_node_id n) (node_to_dict n))
          (dict_values (e_nodes st))
          (map (\<lambda>(k, r). (k, shard_to_dict (e_heap st r))) (e_data st)))"

definition etcd_persist :: "etcd \<Rightarrow> etcd" where
  "etcd_persist st =
     (if e_path st = [] then st
      else if e_writable st then st\<lparr>e_file := Some (JObj (etcd_snapshot st))\<rparr>
      else st)"

subsection \<open>The three tables\<close>

definition etcd_put :: "sref \<Rightarrow> etcd \<Rightarrow> etcd" where
  "etcd_put r st = etcd_persist (st\<lparr>e_data := dict_put (sh_id (e_heap st r)) r (e_data st)\<rparr>)"

definition etcd_get :: "etcd \<Rightarrow> string \<Rightarrow> sref option" where
  "etcd_get st sid = dict_get (e_data st) sid"

definition list_by_namespace :: "etcd \<Rightarrow> string \<Rightarrow> sref list" where
  "list_by_namespace st ns =
     filter (\<lambda>r. sh_namespace (e_heap st r) = ns) (dict_values (e_data st))"

definition etcd_delete :: "string \<Rightarrow> etcd \<Rightarrow> etcd" where
  "etcd_delete sid st = etcd_persist (st\<lparr>e_data := dict_pop sid (e_data st)\<rparr>)"

definition etcd_all :: "etcd \<Rightarrow> sref list" where
  "etcd_all st = dict_values (e_data st)"

definition put_node :: "cluster_node \<Rightarrow> etcd \<Rightarrow> etcd" where
  "put_node n st = etcd_persist (st\<lparr>e_nodes := dict_put (cn_node_id n) n (e_nodes st)\<rparr>)"

definition get_node :: "etcd \<Rightarrow> string \<Rightarrow> cluster_node option" where
  "get_node st nid = dict_get (e_nodes st) nid"

definition list_nodes :: "etcd \<Rightarrow> cluster_node list" where
  "list_nodes st = dict_values (e_nodes st)"

definition delete_node :: "string \<Rightarrow> etcd \<Rightarrow> etcd" where
  "delete_node nid st = etcd_persist (st\<lparr>e_nodes := dict_pop nid (e_nodes st)\<rparr>)"

definition put_migration :: "shard_migration \<Rightarrow> etcd \<Rightarrow> etcd" where
  "put_migration m st = etcd_persist (st\<lparr>e_migrations := dict_put (mg_id m) m (e_migrations st)\<rparr>)"

definition get_migration :: "etcd \<Rightarrow> string \<Rightarrow> shard_migration option" where
  "get_migration st mid = dict_get (e_migrations st) mid"

definition list_migrations :: "etcd \<Rightarrow> shard_migration list" where
  "list_migrations st = dict_values (e_migrations st)"

definition delete_migration :: "string \<Rightarrow> etcd \<Rightarrow> etcd" where
  "delete_migration mid st = etcd_persist (st\<lparr>e_migrations := dict_pop mid (e_migrations st)\<rparr>)"

subsection \<open>Decoding a persisted file\<close>

text \<open>
  The decoders take the clock for a missing creation time. \<open>None\<close> is the exception of a
  malformed entry; a field of another JSON type counts as malformed. An unknown state string
  falls back to the default of its kind, with a warning in the code.
\<close>

definition state_from :: "json \<Rightarrow> ShardState" where
  "state_from v =
     (case Option.bind (as_str v) shard_state_of of None \<Rightarrow> ShardState.ACTIVE | Some s \<Rightarrow> s)"

definition shard_from_dict :: "time \<Rightarrow> json \<Rightarrow> shard option" where
  "shard_from_dict now d = (case d of JObj kvs \<Rightarrow> do {
     sid \<leftarrow> Option.bind (map_of kvs ''id'') as_str;
     ns \<leftarrow> field_or as_str [] kvs ''namespace'';
     node \<leftarrow> field_or as_str [] kvs ''node_id'';
     owner \<leftarrow> field_or as_str [] kvs ''primary_owner'';
     count \<leftarrow> field_or as_int 0 kvs ''vector_count'';
     maxv \<leftarrow> field_or as_int default_max_vectors kvs ''max_vectors'';
     reps \<leftarrow> field_or as_str_list [] kvs ''replicas'';
     created \<leftarrow> field_or as_float now kvs ''created_at'';
     ver \<leftarrow> field_or as_int 1 kvs ''version'';
     Some \<lparr>sh_id = sid, sh_namespace = ns, sh_node_id = (if node \<noteq> [] then node else owner),
       sh_state = (case map_of kvs ''state'' of None \<Rightarrow> ShardState.ACTIVE | Some v \<Rightarrow> state_from v),
       sh_vector_count = count, sh_max_vectors = maxv, sh_replicas = reps,
       sh_created_at = created, sh_version = ver\<rparr> }
   | _ \<Rightarrow> None)"

definition node_from_dict :: "json \<Rightarrow> cluster_node option" where
  "node_from_dict d = (case d of JObj kvs \<Rightarrow> do {
     nid \<leftarrow> field_or as_str [] kvs ''node_id'';
     cid \<leftarrow> field_or as_str [] kvs ''cluster_id'';
     ver \<leftarrow> field_or as_int 1 kvs ''version'';
     Some \<lparr>cn_node_id = nid, cn_cluster_id = cid,
       cn_state = (case map_of kvs ''membership_state'' of None \<Rightarrow> NodeMembershipState.ACTIVE
         | Some v \<Rightarrow> (case Option.bind (as_str v) node_state_of of
             None \<Rightarrow> NodeMembershipState.ACTIVE | Some s \<Rightarrow> s)),
       cn_version = ver\<rparr> }
   | _ \<Rightarrow> None)"

definition migration_from_dict :: "json \<Rightarrow> shard_migration option" where
  "migration_from_dict d = (case d of JObj kvs \<Rightarrow> do {
     mid \<leftarrow> field_or as_str [] kvs ''migration_id'';
     ns \<leftarrow> field_or as_str [] kvs ''namespace'';
     sid \<leftarrow> field_or as_str [] kvs ''shard_id'';
     src \<leftarrow> field_or as_str [] kvs ''source_node_id'';
     tgt \<leftarrow> field_or as_str [] kvs ''target_node_id'';
     sv \<leftarrow> field_or as_int 1 kvs ''source_version'';
     cid \<leftarrow> field_or as_str ''vsector-cluster-default'' kvs ''cluster_id'';
     created \<leftarrow> field_or as_float 0 kvs ''created_at'';
     updated \<leftarrow> field_or as_float 0 kvs ''updated_at'';
     err \<leftarrow> field_or as_opt_str None kvs ''error'';
     ver \<leftarrow> field_or as_int 1 kvs ''version'';
     sd \<leftarrow> field_or as_opt_str None kvs ''source_digest'';
     td \<leftarrow> field_or as_opt_str None kvs ''target_digest'';
     Some \<lparr>mg_id = mid, mg_namespace = ns, mg_shard_id = sid, mg_source = src, mg_target = tgt,
       mg_state = (case map_of kvs ''state'' of None \<Rightarrow> PENDING
         | Some v \<Rightarrow> (case Option.bind (as_str v) migration_state_of of
             None \<Rightarrow> PENDING | Some s \<Rightarrow> s)),
       mg_source_version = sv, mg_cluster_id = cid, mg_created_at = created,
       mg_updated_at = updated, mg_error = err, mg_version = ver, mg_source_digest = sd,
       mg_target_digest = td,
       mg_finalized = (case map_of kvs ''finalized'' of None \<Rightarrow> False | Some v \<Rightarrow> json_truthy v)\<rparr> }
   | _ \<Rightarrow> None)"

text \<open>
  \<open>_load\<close>: one entry of the file goes to the table its key prefix names. The first malformed
  entry ends the loop (the exception is caught outside it), keeping what was loaded before.
\<close>

definition load_entry :: "time \<Rightarrow> string \<Rightarrow> json \<Rightarrow> etcd \<Rightarrow> etcd option" where
  "load_entry now k v st =
     (if starts_with migration_key_prefix k then
        map_option (\<lambda>m. st\<lparr>e_migrations :=
            dict_put (drop (length migration_key_prefix) k) m (e_migrations st)\<rparr>)
          (migration_from_dict v)
      else if starts_with cluster_key_prefix k then
        map_option (\<lambda>n. st\<lparr>e_nodes :=
            dict_put (drop (length cluster_key_prefix) k) n (e_nodes st)\<rparr>)
          (node_from_dict v)
      else
        map_option (\<lambda>s. let (r, st') = alloc s st in st'\<lparr>e_data := dict_put k r (e_data st')\<rparr>)
          (shard_from_dict now v))"

fun load_entries :: "time \<Rightarrow> (string \<times> json) list \<Rightarrow> etcd \<Rightarrow> etcd" where
  "load_entries now [] st = st"
| "load_entries now ((k, v) # rest) st =
     (case load_entry now k v st of None \<Rightarrow> st | Some st' \<Rightarrow> load_entries now rest st')"

definition nil_shard :: shard where
  "nil_shard = new_shard [] 0 [] []"

definition empty_etcd :: "string \<Rightarrow> json option \<Rightarrow> bool \<Rightarrow> etcd" where
  "empty_etcd path file writable =
     \<lparr>e_heap = (\<lambda>_. nil_shard), e_next = 0, e_data = [], e_nodes = [], e_migrations = [],
      e_path = path, e_file = file, e_writable = writable\<rparr>"

text \<open>\<open>InMemoryEtcd(path)\<close>: an existing file is loaded, a non-object in it is a load failure.\<close>

definition new_etcd :: "time \<Rightarrow> string \<Rightarrow> json option \<Rightarrow> bool \<Rightarrow> etcd" where
  "new_etcd now path file writable =
     (let st = empty_etcd path file writable in
      if path = [] then st
      else (case file of
          Some (JObj kvs) \<Rightarrow> load_entries now kvs st
        | _ \<Rightarrow> st))"

end
