(* ===== verification/Etcd_Facts.thy ===== *)
theory Etcd_Facts
  imports Etcd
begin

text \<open>
  Facts about the metadata store: what each operation changes and what it leaves alone, the
  well-formedness of the tables and its preservation, the store interfaces the managers rely on
  with their interpretation on \<open>InMemoryEtcd\<close>, and the restart round trip: reloading the file
  written by the last operation gives back every node, migration and shard, a shard up to its
  creation time, which \<open>Shard.to_dict\<close> does not write.
\<close>

subsection \<open>Frames\<close>

lemma persist_frame [simp]:
  "e_heap (etcd_persist st) = e_heap st" "e_next (etcd_persist st) = e_next st"
  "e_data (etcd_persist st) = e_data st" "e_nodes (etcd_persist st) = e_nodes st"
  "e_migrations (etcd_persist st) = e_migrations st" "e_path (etcd_persist st) = e_path st"
  "e_writable (etcd_persist st) = e_writable st"
  by (simp_all add: etcd_persist_def)

lemma put_frame [simp]:
  "e_heap (etcd_put r st) = e_heap st" "e_next (etcd_put r st) = e_next st"
  "e_data (etcd_put r st) = dict_put (sh_id (e_heap st r)) r (e_data st)"
  "e_nodes (etcd_put r st) = e_nodes st" "e_migrations (etcd_put r st) = e_migrations st"
  "e_path (etcd_put r st) = e_path st" "e_writable (etcd_put r st) = e_writable st"
  by (simp_all add: etcd_put_def)

lemma delete_frame [simp]:
  "e_heap (etcd_delete k st) = e_heap st" "e_next (etcd_delete k st) = e_next st"
  "e_data (etcd_delete k st) = dict_pop k (e_data st)"
  "e_nodes (etcd_delete k st) = e_nodes st" "e_migrations (etcd_delete k st) = e_migrations st"
  "e_path (etcd_delete k st) = e_path st" "e_writable (etcd_delete k st) = e_writable st"
  by (simp_all add: etcd_delete_def)

lemma put_node_frame [simp]:
  "e_heap (put_node n st) = e_heap st" "e_next (put_node n st) = e_next st"
  "e_data (put_node n st) = e_data st"
  "e_nodes (put_node n st) = dict_put (cn_node_id n) n (e_nodes st)"
  "e_migrations (put_node n st) = e_migrations st"
  "e_path (put_node n st) = e_path st" "e_writable (put_node n st) = e_writable st"
  by (simp_all add: put_node_def)

lemma put_migration_frame [simp]:
  "e_heap (put_migration m st) = e_heap st" "e_next (put_migration m st) = e_next st"
  "e_data (put_migration m st) = e_data st" "e_nodes (put_migration m st) = e_nodes st"
  "e_migrations (put_migration m st) = dict_put (mg_id m) m (e_migrations st)"
  "e_path (put_migration m st) = e_path st" "e_writable (put_migration m st) = e_writable st"
  by (simp_all add: put_migration_def)

lemma assign_frame [simp]:
  "e_heap (assign r s st) = (e_heap st)(r := s)" "e_next (assign r s st) = e_next st"
  "e_data (assign r s st) = e_data st" "e_nodes (assign r s st) = e_nodes st"
  "e_migrations (assign r s st) = e_migrations st" "e_path (assign r s st) = e_path st"
  "e_file (assign r s st) = e_file st" "e_writable (assign r s st) = e_writable st"
  by (simp_all add: assign_def)

lemma get_node_put_node: "get_node (put_node n st) = (get_node st)(cn_node_id n \<mapsto> n)"
  by (simp add: get_node_def map_of_dict_put fun_eq_iff)

lemma get_migration_put_migration:
  "get_migration (put_migration m st) = (get_migration st)(mg_id m \<mapsto> m)"
  by (simp add: get_migration_def map_of_dict_put fun_eq_iff)

lemma etcd_get_put: "etcd_get (etcd_put r st) = (etcd_get st)(sh_id (e_heap st r) \<mapsto> r)"
  by (simp add: etcd_get_def map_of_dict_put fun_eq_iff)

lemma etcd_get_delete: "etcd_get (etcd_delete k st) = (etcd_get st)(k := None)"
  by (simp add: etcd_get_def map_of_dict_pop fun_eq_iff)

lemma get_frames [simp]:
  "etcd_get (put_node n st) = etcd_get st" "etcd_get (put_migration m st) = etcd_get st"
  "etcd_get (assign r s st) = etcd_get st"
  "get_node (put_migration m st) = get_node st" "get_node (assign r s st) = get_node st"
  "get_node (etcd_put r st) = get_node st" "get_node (etcd_delete k st) = get_node st"
  "get_migration (put_node n st) = get_migration st"
  "get_migration (assign r s st) = get_migration st"
  "get_migration (etcd_put r st) = get_migration st"
  by (simp_all add: etcd_get_def get_node_def get_migration_def fun_eq_iff)

subsection \<open>Well-formed stores\<close>

definition reserved_key :: "string \<Rightarrow> bool" where
  "reserved_key k \<longleftrightarrow> starts_with migration_key_prefix k \<or> starts_with cluster_key_prefix k"

definition wf_shards :: "etcd \<Rightarrow> bool" where
  "wf_shards st \<longleftrightarrow> dict_ok (e_data st) \<and>
     (\<forall>k r. map_of (e_data st) k = Some r \<longrightarrow>
        sh_id (e_heap st r) = k \<and> r < e_next st \<and> \<not> reserved_key k)"

definition wf_etcd :: "etcd \<Rightarrow> bool" where
  "wf_etcd st \<longleftrightarrow> wf_shards st \<and> keyed_dict cn_node_id (e_nodes st) \<and>
     keyed_dict mg_id (e_migrations st)"

lemma wf_empty: "wf_etcd (empty_etcd p f w)"
  by (simp add: wf_etcd_def wf_shards_def empty_etcd_def keyed_dict_def)

lemma wf_put:
  "wf_etcd st \<Longrightarrow> r < e_next st \<Longrightarrow> \<not> reserved_key (sh_id (e_heap st r)) \<Longrightarrow> wf_etcd (etcd_put r st)"
  by (auto simp: wf_etcd_def wf_shards_def map_of_dict_put)

lemma wf_assign:
  "wf_etcd st \<Longrightarrow> sh_id s = sh_id (e_heap st r) \<Longrightarrow> wf_etcd (assign r s st)"
  by (auto simp: wf_etcd_def wf_shards_def)

lemma wf_delete: "wf_etcd st \<Longrightarrow> wf_etcd (etcd_delete k st)"
  by (auto simp: wf_etcd_def wf_shards_def map_of_dict_pop split: if_splits)

lemma wf_put_node: "wf_etcd st \<Longrightarrow> wf_etcd (put_node n st)"
  by (auto simp: wf_etcd_def wf_shards_def keyed_dict_put)

lemma wf_put_migration: "wf_etcd st \<Longrightarrow> wf_etcd (put_migration m st)"
  by (auto simp: wf_etcd_def wf_shards_def keyed_dict_put)

lemma wf_get: "wf_etcd st \<Longrightarrow> etcd_get st k = Some r \<Longrightarrow> sh_id (e_heap st r) = k \<and> r < e_next st"
  by (auto simp: wf_etcd_def wf_shards_def etcd_get_def)

lemma wf_get_inj: "wf_etcd st \<Longrightarrow> etcd_get st k = Some r \<Longrightarrow> etcd_get st k' = Some r \<Longrightarrow> k = k'"
  by (metis wf_get)

lemma wf_alloc:
  assumes "wf_etcd st" shows "wf_etcd (snd (alloc s st))"
proof -
  have "r \<noteq> e_next st \<and> r < Suc (e_next st)" if "map_of (e_data st) k = Some r" for k r
    using assms that by (fastforce simp: wf_etcd_def wf_shards_def)
  with assms show ?thesis
    by (simp add: wf_etcd_def wf_shards_def alloc_def)
qed

lemma list_by_namespace_iff:
  "wf_etcd st \<Longrightarrow> r \<in> set (list_by_namespace st ns) \<longleftrightarrow>
     etcd_get st (sh_id (e_heap st r)) = Some r \<and> sh_namespace (e_heap st r) = ns"
  unfolding wf_etcd_def wf_shards_def list_by_namespace_def etcd_get_def
  using dict_values_iff [of "e_data st" r] by auto

subsection \<open>The interfaces of the store\<close>

text \<open>What the lifecycle manager calls on a shard store: its objects and a fallible \<open>put\<close>.\<close>

record 'st shard_ops =
  so_deref :: "'st \<Rightarrow> sref \<Rightarrow> shard"
  so_assign :: "sref \<Rightarrow> shard \<Rightarrow> 'st \<Rightarrow> 'st"
  so_put :: "sref \<Rightarrow> 'st \<Rightarrow> unit res \<times> 'st"

locale shard_store =
  fixes ops :: "'st shard_ops"
  assumes deref_assign: "so_deref ops (so_assign ops r s st) = (so_deref ops st)(r := s)"
    and assign_assign: "so_assign ops r s' (so_assign ops r s st) = so_assign ops r s' st"
    and assign_same: "so_assign ops r (so_deref ops st r) st = st"
    and deref_put: "so_put ops r st = (x, st') \<Longrightarrow> so_deref ops st' = so_deref ops st"

text \<open>A store that can also be searched by shard id, as the router and the migrations need.\<close>

locale shard_index = shard_store +
  fixes lookup :: "'st \<Rightarrow> string \<Rightarrow> sref option"
  assumes lookup_put: "so_put ops r st = (Inr u, st') \<Longrightarrow>
      lookup st' = (lookup st)(sh_id (so_deref ops st r) \<mapsto> r)"
    and lookup_assign: "lookup (so_assign ops r s st) = lookup st"
begin

lemma lookup_put_value:
  "so_put ops r st = (Inr u, st') \<Longrightarrow> k = sh_id (so_deref ops st r) \<Longrightarrow>
     map_option (so_deref ops st') (lookup st' k) = Some (so_deref ops st r)"
  by (simp add: lookup_put deref_put)

lemma lookup_put_other:
  "so_put ops r st = (Inr u, st') \<Longrightarrow> k \<noteq> sh_id (so_deref ops st r) \<Longrightarrow>
     map_option (so_deref ops st') (lookup st' k) = map_option (so_deref ops st) (lookup st k)"
  by (simp add: lookup_put deref_put)

end

definition mem_ops :: "etcd shard_ops" where
  "mem_ops = \<lparr>so_deref = e_heap, so_assign = assign, so_put = (\<lambda>r st. (Inr (), etcd_put r st))\<rparr>"

interpretation mem: shard_index mem_ops etcd_get
  by unfold_locales
    (auto simp: mem_ops_def assign_def map_of_dict_put etcd_get_def [abs_def])

lemma delete_node_facts [simp]:
  "e_data (delete_node k st) = e_data st" "e_heap (delete_node k st) = e_heap st"
  "e_next (delete_node k st) = e_next st"
  "e_nodes (delete_node k st) = dict_pop k (e_nodes st)"
  "e_migrations (delete_node k st) = e_migrations st"
  by (simp_all add: delete_node_def)

lemma delete_migration_facts [simp]:
  "e_data (delete_migration k st) = e_data st" "e_heap (delete_migration k st) = e_heap st"
  "e_next (delete_migration k st) = e_next st"
  "e_nodes (delete_migration k st) = e_nodes st"
  "e_migrations (delete_migration k st) = dict_pop k (e_migrations st)"
  by (simp_all add: delete_migration_def)

lemma wf_delete_node: "wf_etcd st \<Longrightarrow> wf_etcd (delete_node k st)"
  by (simp add: wf_etcd_def wf_shards_def keyed_dict_pop)

lemma wf_delete_migration: "wf_etcd st \<Longrightarrow> wf_etcd (delete_migration k st)"
  by (simp add: wf_etcd_def wf_shards_def keyed_dict_pop)

lemma get_node_delete_node: "get_node (delete_node k st) = (get_node st)(k := None)"
  by (simp add: get_node_def map_of_dict_pop fun_eq_iff)

lemma get_migration_delete_migration:
  "get_migration (delete_migration k st) = (get_migration st)(k := None)"
  by (simp add: get_migration_def map_of_dict_pop fun_eq_iff)

lemma list_nodes_iff:
  "wf_etcd st \<Longrightarrow> n \<in> set (list_nodes st) \<longleftrightarrow> get_node st (cn_node_id n) = Some n"
  unfolding list_nodes_def get_node_def wf_etcd_def by (rule keyed_dict_values) simp

lemma list_migrations_iff:
  "wf_etcd st \<Longrightarrow> m \<in> set (list_migrations st) \<longleftrightarrow> get_migration st (mg_id m) = Some m"
  unfolding list_migrations_def get_migration_def wf_etcd_def by (rule keyed_dict_values) simp

lemma get_node_key: "wf_etcd st \<Longrightarrow> get_node st k = Some n \<Longrightarrow> cn_node_id n = k"
  unfolding get_node_def wf_etcd_def keyed_dict_iff by blast

lemma get_migration_key: "wf_etcd st \<Longrightarrow> get_migration st k = Some m \<Longrightarrow> mg_id m = k"
  unfolding get_migration_def wf_etcd_def keyed_dict_iff by blast

interpretation nodes: record_store cn_node_id get_node put_node delete_node list_nodes wf_etcd
  by unfold_locales
    (rule get_node_put_node get_node_delete_node get_node_key list_nodes_iff wf_put_node
      wf_delete_node; assumption)+

interpretation migrations:
  record_store mg_id get_migration put_migration delete_migration list_migrations wf_etcd
  by unfold_locales
    (rule get_migration_put_migration get_migration_delete_migration get_migration_key
      list_migrations_iff wf_put_migration wf_delete_migration; assumption)+

subsection \<open>The restart round trip\<close>

text \<open>The shards of a store as values, in table order.\<close>

definition etcd_shards :: "etcd \<Rightarrow> (string, shard) dict" where
  "etcd_shards st = map (\<lambda>(k, r). (k, e_heap st r)) (e_data st)"

lemma shard_dict_roundtrip:
  "shard_from_dict now (shard_to_dict s) = Some (s\<lparr>sh_created_at := now\<rparr>)"
  by (simp add: shard_from_dict_def shard_to_dict_def field_or_def state_from_def
      del: as_str_list.simps)

lemma node_dict_roundtrip: "node_from_dict (node_to_dict n) = Some n"
  by (simp add: node_from_dict_def node_to_dict_def field_or_def)

lemma as_opt_str_opt_json [simp]: "as_opt_str (opt_json JStr x) = Some x"
  by (simp add: opt_json_def split: option.splits)

lemma migration_dict_roundtrip: "migration_from_dict (migration_to_dict m) = Some m"
  by (simp add: migration_from_dict_def migration_to_dict_def field_or_def)

lemma fold_put_append:
  "distinct (map key vs) \<Longrightarrow> key ` set vs \<inter> fst ` set d = {} \<Longrightarrow>
     fold (\<lambda>v. dict_put (key v) (f v)) vs d = d @ map (\<lambda>v. (key v, f v)) vs"
proof (induction vs arbitrary: d)
  case (Cons v vs)
  then have "dict_put (key v) (f v) d = d @ [(key v, f v)]"
    by (intro dict_put_fresh) auto
  with Cons show ?case by auto
qed simp

lemma reserved_disjoint: "\<not> starts_with migration_key_prefix (cluster_key_prefix @ k)"
  by (simp add: starts_with_def migration_key_prefix_def cluster_key_prefix_def)

lemma load_entry_node:
  "load_entry now (cluster_key_prefix @ cn_node_id n) (node_to_dict n) st =
     Some (st\<lparr>e_nodes := dict_put (cn_node_id n) n (e_nodes st)\<rparr>)"
  by (simp add: load_entry_def reserved_disjoint node_dict_roundtrip)

lemma load_entry_migration:
  "load_entry now (migration_key_prefix @ mg_id m) (migration_to_dict m) st =
     Some (st\<lparr>e_migrations := dict_put (mg_id m) m (e_migrations st)\<rparr>)"
  by (simp add: load_entry_def migration_dict_roundtrip)

lemma load_nodes:
  "load_entries now (map (\<lambda>n. (cluster_key_prefix @ cn_node_id n, node_to_dict n)) ns @ rest) st =
   load_entries now rest
     (st\<lparr>e_nodes := fold (\<lambda>n. dict_put (cn_node_id n) n) ns (e_nodes st)\<rparr>)"
  by (induction ns arbitrary: st) (simp_all add: load_entry_node)

lemma load_migrations:
  "load_entries now (map (\<lambda>m. (migration_key_prefix @ mg_id m, migration_to_dict m)) ms) st =
     st\<lparr>e_migrations := fold (\<lambda>m. dict_put (mg_id m) m) ms (e_migrations st)\<rparr>"
  by (induction ms arbitrary: st) (simp_all add: load_entry_migration)

lemma load_shards:
  assumes "distinct (map fst (e_data st) @ map fst D)"
    and "\<forall>(k, r) \<in> set D. \<not> reserved_key k"
    and "\<forall>(k, r) \<in> set (e_data st). r < e_next st"
  shows "\<exists>st'. load_entries now (map (\<lambda>(k, r). (k, shard_to_dict (h r))) D @ rest) st
             = load_entries now rest st' \<and>
           etcd_shards st' =
             etcd_shards st @ map (\<lambda>(k, r). (k, (h r)\<lparr>sh_created_at := now\<rparr>)) D \<and>
           e_nodes st' = e_nodes st \<and> e_migrations st' = e_migrations st"
  using assms
proof (induction D arbitrary: st)
  case (Cons kr D)
  obtain k r where kr: "kr = (k, r)" by force
  define u where "u = (snd (alloc ((h r)\<lparr>sh_created_at := now\<rparr>) st))
    \<lparr>e_data := e_data st @ [(k, e_next st)]\<rparr>"
  have fresh: "k \<notin> fst ` set (e_data st)" using Cons.prems(1) kr by force
  then have "dict_put k x (e_data st) = e_data st @ [(k, x)]" for x
    by (rule dict_put_fresh)
  then have entry: "load_entry now k (shard_to_dict (h r)) st = Some u"
    using Cons.prems(2) kr
    by (simp add: load_entry_def reserved_key_def shard_dict_roundtrip u_def alloc_def)
  have old: "r' \<noteq> e_next st" if "(k', r') \<in> set (e_data st)" for k' r'
    using Cons.prems(3) that by fastforce
  have view: "etcd_shards u = etcd_shards st @ [(k, (h r)\<lparr>sh_created_at := now\<rparr>)]"
    using old by (auto simp: etcd_shards_def u_def alloc_def)
  have "\<exists>st'. load_entries now (map (\<lambda>(k, r). (k, shard_to_dict (h r))) D @ rest) u
             = load_entries now rest st' \<and>
           etcd_shards st' = etcd_shards u @ map (\<lambda>(k, r). (k, (h r)\<lparr>sh_created_at := now\<rparr>)) D \<and>
           e_nodes st' = e_nodes u \<and> e_migrations st' = e_migrations u"
    using Cons.prems kr by (intro Cons.IH) (auto simp: u_def alloc_def less_SucI)
  with entry view kr show ?case
    by (simp add: u_def alloc_def)
qed auto

lemma keyed_dict_rebuild: "keyed_dict key d \<Longrightarrow> map (\<lambda>v. (key v, v)) (dict_values d) = d"
  by (auto simp: keyed_dict_def intro!: map_idI)

lemma keyed_dict_distinct: "keyed_dict key d \<Longrightarrow> distinct (map key (dict_values d))"
proof -
  assume kd: "keyed_dict key d"
  then have eq: "map key (dict_values d) = map fst d"
    unfolding map_map by (intro map_cong) (auto simp: keyed_dict_def)
  show ?thesis
    unfolding eq using kd by (simp add: keyed_dict_def)
qed

lemma snapshot_wf:
  assumes "wf_etcd st"
  shows "etcd_snapshot st =
      map (\<lambda>(k, r). (k, shard_to_dict (e_heap st r))) (e_data st) @
      map (\<lambda>n. (cluster_key_prefix @ cn_node_id n, node_to_dict n)) (dict_values (e_nodes st)) @
      map (\<lambda>m. (migration_key_prefix @ mg_id m, migration_to_dict m))
        (dict_values (e_migrations st))"
proof -
  have unres: "\<not> reserved_key k" if "(k, r) \<in> set (e_data st)" for k r
    using assms that by (auto simp: wf_etcd_def wf_shards_def)
  have dn: "distinct (map (\<lambda>n. cluster_key_prefix @ cn_node_id n) (dict_values (e_nodes st)))"
    using keyed_dict_distinct [of cn_node_id "e_nodes st"] assms
    by (simp add: wf_etcd_def distinct_map inj_on_def)
  have dm: "distinct (map (\<lambda>m. migration_key_prefix @ mg_id m) (dict_values (e_migrations st)))"
    using keyed_dict_distinct [of mg_id "e_migrations st"] assms
    by (simp add: wf_etcd_def distinct_map inj_on_def)
  have disj: "cluster_key_prefix @ a \<noteq> migration_key_prefix @ b" for a b
    using reserved_disjoint [of a] by (metis starts_with_append)
  let ?S = "map (\<lambda>(k, r). (k, shard_to_dict (e_heap st r))) (e_data st)"
  have keys: "fst ` set ?S = fst ` set (e_data st)"
    by (force simp: image_iff)
  have free: "cluster_key_prefix @ a \<notin> fst ` set ?S" "migration_key_prefix @ a \<notin> fst ` set ?S" for a
    unfolding keys using unres by (force simp: reserved_key_def)+
  have nodes: "fold (\<lambda>n. dict_put (cluster_key_prefix @ cn_node_id n) (node_to_dict n))
      (dict_values (e_nodes st)) ?S
    = ?S @ map (\<lambda>n. (cluster_key_prefix @ cn_node_id n, node_to_dict n)) (dict_values (e_nodes st))"
    by (rule fold_put_append [OF dn]) (use free in blast)
  have un: "fst ` set (?S @ map (\<lambda>n. (cluster_key_prefix @ cn_node_id n, node_to_dict n)) ns)
      = fst ` set ?S \<union> (\<lambda>n. cluster_key_prefix @ cn_node_id n) ` set ns" for ns
    by (simp only: set_append set_map image_Un image_image fst_conv)
  have disjoint: "(\<lambda>m. migration_key_prefix @ mg_id m) ` ms \<inter>
      (fst ` set ?S \<union> (\<lambda>n. cluster_key_prefix @ cn_node_id n) ` ns) = {}" for ms ns
    using free(2) disj [symmetric] by blast
  show ?thesis
    unfolding etcd_snapshot_def nodes append_assoc [symmetric]
    by (intro fold_put_append [OF dm], unfold un, rule disjoint)
qed

lemma reload_snapshot:
  assumes "wf_etcd st"
  shows "let st' = load_entries now (etcd_snapshot st) (empty_etcd p f w) in
      etcd_shards st' = map (\<lambda>(k, s). (k, s\<lparr>sh_created_at := now\<rparr>)) (etcd_shards st) \<and>
      e_nodes st' = e_nodes st \<and> e_migrations st' = e_migrations st"
proof -
  let ?ns = "dict_values (e_nodes st)" and ?ms = "dict_values (e_migrations st)"
  have kd: "keyed_dict cn_node_id (e_nodes st)" "keyed_dict mg_id (e_migrations st)"
    using assms by (simp_all add: wf_etcd_def)
  have rebuild: "fold (\<lambda>n. dict_put (cn_node_id n) n) ?ns [] = e_nodes st"
      "fold (\<lambda>m. dict_put (mg_id m) m) ?ms [] = e_migrations st"
    using kd by (simp_all add: fold_put_append [where f = "\<lambda>x. x"] keyed_dict_distinct
        keyed_dict_rebuild del: map_map)
  obtain st' where st': "load_entries now (etcd_snapshot st) (empty_etcd p f w) =
      load_entries now (map (\<lambda>n. (cluster_key_prefix @ cn_node_id n, node_to_dict n)) ?ns @
        map (\<lambda>m. (migration_key_prefix @ mg_id m, migration_to_dict m)) ?ms) st'"
    and views: "etcd_shards st' = map (\<lambda>(k, r). (k, (e_heap st r)\<lparr>sh_created_at := now\<rparr>)) (e_data st)"
      "e_nodes st' = []" "e_migrations st' = []"
    using load_shards [of "empty_etcd p f w" "e_data st" now "e_heap st"] assms
    unfolding snapshot_wf [OF assms]
    by (fastforce simp: empty_etcd_def etcd_shards_def wf_etcd_def wf_shards_def)
  show ?thesis
    unfolding st' load_nodes load_migrations
    using views rebuild by (auto simp: etcd_shards_def)
qed

subsection \<open>Properties\<close>

lemma etcd_persist_file:
  "e_path st \<noteq> [] \<Longrightarrow> e_writable st \<Longrightarrow>
     e_file (etcd_persist st) = Some (JObj (etcd_snapshot (etcd_persist st)))"
  by (simp add: etcd_persist_def etcd_snapshot_def)

text \<open>
  C31: a restart loses nothing but shard creation times: after any write operation on a durable
  store, a store constructed over the same path holds the same shards in the same order (each with
  the restart's clock as creation time), the same members and the same migrations.
\<close>

theorem restart_restores:
  assumes "wf_etcd st'" "e_path st' \<noteq> []" "e_writable st'"
    and "st' \<in> {etcd_put r st, etcd_delete k st, put_node n st, delete_node k st,
      put_migration m st, delete_migration k st}"
  shows "etcd_shards (new_etcd now (e_path st') (e_file st') w) =
      map (\<lambda>(k, s). (k, s\<lparr>sh_created_at := now\<rparr>)) (etcd_shards st') \<and>
    e_nodes (new_etcd now (e_path st') (e_file st') w) = e_nodes st' \<and>
    e_migrations (new_etcd now (e_path st') (e_file st') w) = e_migrations st'"
proof -
  obtain u where u: "st' = etcd_persist u"
    using assms(4)
    by (auto simp: etcd_put_def etcd_delete_def put_node_def delete_node_def put_migration_def
        delete_migration_def)
  with assms(2,3) have "e_file st' = Some (JObj (etcd_snapshot st'))"
    using etcd_persist_file [of u] by simp
  with reload_snapshot [OF assms(1)] assms(2) show ?thesis
    by (simp add: new_etcd_def Let_def)
qed

lemma restart_restores_witness:
  "let st' = etcd_put 0 ((snd (alloc (new_shard ''s'' 3 ''ns'' ''n'') (empty_etcd ''p'' None True))))
   in etcd_shards (new_etcd 9 ''p'' (e_file st') True) = [(''s'', new_shard ''s'' 9 ''ns'' ''n'')]"
proof -
  let ?st = "snd (alloc (new_shard ''s'' 3 ''ns'' ''n'') (empty_etcd ''p'' None True))"
  let ?st' = "etcd_put 0 ?st"
  have "wf_etcd ?st'"
    by (intro wf_put wf_alloc wf_empty)
      (simp_all add: alloc_def empty_etcd_def new_shard_def reserved_key_def starts_with_def
        migration_key_prefix_def cluster_key_prefix_def)
  moreover have "e_path ?st' = ''p''" "e_writable ?st'"
    "etcd_shards ?st' = [(''s'', new_shard ''s'' 3 ''ns'' ''n'')]"
    by (simp_all add: alloc_def empty_etcd_def etcd_shards_def new_shard_def)
  ultimately show ?thesis
    using restart_restores [of ?st' 0 ?st "[]" undefined undefined 9 True]
    by (simp add: Let_def new_shard_def)
qed

end
