(* ===== verification/Membership.thy ===== *)
theory Membership
  imports Etcd_Facts
begin

text \<open>
  \<open>cluster/membership.py\<close>: the membership manager over the in-memory metadata store and the
  startup helper \<open>bootstrap_local_node\<close>. The manager is its cluster id \<open>cid\<close> together with the
  store it works on; an operation that writes returns its result and the new store. \<open>put_node\<close> of
  \<open>InMemoryEtcd\<close> never raises, so the rollback of \<open>_transition\<close> has no case here: the only failure
  inside its \<open>try\<close> is the refused transition, which changes nothing.
\<close>

definition manager_cluster_id :: "string option \<Rightarrow> string" where
  "manager_cluster_id arg =
     (case arg of None \<Rightarrow> ''vsector-cluster-default''
      | Some c \<Rightarrow> if c = [] then ''vsector-cluster-default'' else c)"

subsection \<open>Reads\<close>

definition member_get :: "etcd \<Rightarrow> string \<Rightarrow> cluster_node option" where
  "member_get st nid = get_node st nid"

definition member_list :: "etcd \<Rightarrow> cluster_node list" where
  "member_list st = list_nodes st"

definition member_contains :: "etcd \<Rightarrow> string \<Rightarrow> bool" where
  "member_contains st nid = (get_node st nid \<noteq> None)"

definition membership_state :: "etcd \<Rightarrow> string \<Rightarrow> string option" where
  "membership_state st nid =
     (case get_node st nid of None \<Rightarrow> None | Some n \<Rightarrow> Some (node_state_value (cn_state n)))"

definition member_is_available :: "etcd \<Rightarrow> string \<Rightarrow> bool" where
  "member_is_available st nid =
     (case get_node st nid of None \<Rightarrow> False | Some n \<Rightarrow> node_is_available n)"

subsection \<open>Validation\<close>

definition validate_node :: "etcd \<Rightarrow> string \<Rightarrow> unit res" where
  "validate_node st nid =
     (case get_node st nid of
        None \<Rightarrow> Inl (UnknownNodeError nid [])
      | Some n \<Rightarrow> if cn_state n = NodeMembershipState.REMOVED then Inl (RemovedNodeError nid [])
                  else Inr ())"

fun validate_replicas :: "etcd \<Rightarrow> string list \<Rightarrow> unit res" where
  "validate_replicas st [] = Inr ()"
| "validate_replicas st (r # rs) =
     (case validate_node st r of Inl e \<Rightarrow> Inl e | Inr _ \<Rightarrow> validate_replicas st rs)"

definition validate_cluster_id :: "string \<Rightarrow> etcd \<Rightarrow> string \<Rightarrow> unit res" where
  "validate_cluster_id cid st nid =
     (case get_node st nid of
        None \<Rightarrow> Inr ()
      | Some n \<Rightarrow> if cn_cluster_id n \<noteq> cid
                  then Inl (ClusterIdMismatchError nid cid (cn_cluster_id n)) else Inr ())"

definition validate_cluster_id_for :: "string \<Rightarrow> string \<Rightarrow> unit res" where
  "validate_cluster_id_for cid c =
     (if c \<noteq> cid then Inl (ClusterIdMismatchError ''<new node>'' cid c) else Inr ())"

subsection \<open>Transitions\<close>

definition register :: "string \<Rightarrow> string \<Rightarrow> string option \<Rightarrow> etcd \<Rightarrow> cluster_node res \<times> etcd" where
  "register cid nid cluster_arg st =
     (if member_contains st nid then (Inl (DuplicateNodeRegistrationError nid), st)
      else (case validate_cluster_id_for cid
                   (case cluster_arg of None \<Rightarrow> cid | Some c \<Rightarrow> if c = [] then cid else c) of
          Inl e \<Rightarrow> (Inl e, st)
        | Inr _ \<Rightarrow>
            (let n = \<lparr>cn_node_id = nid, cn_cluster_id = cid,
                      cn_state = NodeMembershipState.JOINING, cn_version = 1\<rparr>
             in (Inr n, put_node n st))))"

definition member_transition ::
    "string \<Rightarrow> string \<Rightarrow> NodeMembershipState \<Rightarrow> etcd \<Rightarrow> cluster_node res \<times> etcd" where
  "member_transition cid nid to st =
     (case get_node st nid of
        None \<Rightarrow> (Inl (UnknownNodeError nid []), st)
      | Some n \<Rightarrow>
          (case validate_cluster_id cid st nid of
             Inl e \<Rightarrow> (Inl e, st)
           | Inr _ \<Rightarrow>
               (case node_transition n to of
                  Inl e \<Rightarrow> (Inl e, st)
                | Inr n' \<Rightarrow> (Inr n', put_node n' st))))"

definition member_activate :: "string \<Rightarrow> string \<Rightarrow> etcd \<Rightarrow> cluster_node res \<times> etcd" where
  "member_activate cid nid = member_transition cid nid NodeMembershipState.ACTIVE"

definition member_begin_drain :: "string \<Rightarrow> string \<Rightarrow> etcd \<Rightarrow> cluster_node res \<times> etcd" where
  "member_begin_drain cid nid = member_transition cid nid NodeMembershipState.DRAINING"

definition member_remove :: "string \<Rightarrow> string \<Rightarrow> etcd \<Rightarrow> cluster_node res \<times> etcd" where
  "member_remove cid nid = member_transition cid nid NodeMembershipState.REMOVED"

text \<open>Startup: a new local node is registered and activated, a persisted one is kept as it is.\<close>

definition bootstrap_local_node :: "string \<Rightarrow> string \<Rightarrow> etcd \<Rightarrow> cluster_node res \<times> etcd" where
  "bootstrap_local_node cid nid st =
     (let (r, st1) = (case member_get st nid of
                        None \<Rightarrow> register cid nid None st
                      | Some n \<Rightarrow> (Inr n, st))
      in case r of
           Inl e \<Rightarrow> (Inl e, st1)
         | Inr n \<Rightarrow> if cn_state n = NodeMembershipState.JOINING then member_activate cid nid st1
                    else (Inr n, st1))"

subsection \<open>Lemmas\<close>

definition known_member :: "etcd \<Rightarrow> string \<Rightarrow> bool" where
  "known_member st nid \<longleftrightarrow>
     (\<exists>n. get_node st nid = Some n \<and> cn_state n \<noteq> NodeMembershipState.REMOVED)"

lemma validate_node_ok: "validate_node st nid = Inr u \<longleftrightarrow> known_member st nid"
  by (auto simp: validate_node_def known_member_def split: option.splits)

lemma validate_node_err:
  "validate_node st nid = Inl e \<longleftrightarrow>
     (get_node st nid = None \<and> e = UnknownNodeError nid []) \<or>
     (\<exists>n. get_node st nid = Some n \<and> cn_state n = NodeMembershipState.REMOVED \<and>
          e = RemovedNodeError nid [])"
  by (auto simp: validate_node_def split: option.splits)

lemma validate_replicas_ok: "validate_replicas st rs = Inr u \<longleftrightarrow> (\<forall>r \<in> set rs. known_member st r)"
  by (induction rs) (auto split: sum.splits simp: validate_node_ok validate_node_err known_member_def)

lemma validate_replicas_err:
  "validate_replicas st rs = Inl e \<Longrightarrow> \<exists>r \<in> set rs. validate_node st r = Inl e"
  by (induction rs) (auto split: sum.splits)

lemma validate_node_cong: "get_node st' = get_node st \<Longrightarrow> validate_node st' = validate_node st"
  by (simp add: validate_node_def fun_eq_iff)

lemma known_member_cong: "get_node st' = get_node st \<Longrightarrow> known_member st' = known_member st"
  by (simp add: known_member_def fun_eq_iff)

lemma register_cases:
  "register cid nid c st = (x, st') \<Longrightarrow>
     (\<exists>e. x = Inl e \<and> st' = st) \<or>
     (get_node st nid = None \<and>
      (let n = \<lparr>cn_node_id = nid, cn_cluster_id = cid, cn_state = NodeMembershipState.JOINING,
                cn_version = 1\<rparr> in x = Inr n \<and> st' = put_node n st))"
  by (auto simp: register_def member_contains_def Let_def split: if_splits sum.splits)

lemma member_transition_cases:
  "member_transition cid nid to st = (x, st') \<Longrightarrow>
     (\<exists>e. x = Inl e \<and> st' = st) \<or>
     (\<exists>n n'. get_node st nid = Some n \<and> node_transition n to = Inr n' \<and> cn_cluster_id n = cid \<and>
        x = Inr n' \<and> st' = put_node n' st)"
proof (cases "get_node st nid")
  case (Some n)
  assume h: "member_transition cid nid to st = (x, st')"
  show ?thesis
  proof (cases "cn_cluster_id n = cid")
    case True
    then have "(x, st') = (case node_transition n to of Inl e \<Rightarrow> (Inl e, st)
        | Inr n' \<Rightarrow> (Inr n', put_node n' st))"
      using h Some by (simp add: member_transition_def validate_cluster_id_def)
    with Some True show ?thesis
      by (cases "node_transition n to") simp_all
  next
    case False
    with h Some show ?thesis
      by (simp add: member_transition_def validate_cluster_id_def) auto
  qed
qed (auto simp: member_transition_def)

lemma register_frame:
  assumes "register cid nid c st = (x, st')"
  shows "e_heap st' = e_heap st" "e_data st' = e_data st" "e_migrations st' = e_migrations st"
    "e_next st' = e_next st"
  using register_cases [OF assms] by (auto simp: Let_def)

lemma member_transition_frame:
  assumes "member_transition cid nid to st = (x, st')"
  shows "e_heap st' = e_heap st" "e_data st' = e_data st" "e_migrations st' = e_migrations st"
    "e_next st' = e_next st"
  using member_transition_cases [OF assms] by auto

lemma register_wf: "wf_etcd st \<Longrightarrow> register cid nid c st = (x, st') \<Longrightarrow> wf_etcd st'"
  using register_cases [of cid nid c st x st'] by (auto simp: Let_def wf_put_node)

lemma member_transition_wf:
  "wf_etcd st \<Longrightarrow> member_transition cid nid to st = (x, st') \<Longrightarrow> wf_etcd st'"
  using member_transition_cases [of cid nid to st x st'] by (auto simp: wf_put_node)

text \<open>A removed member stays removed, whatever the manager is asked to do.\<close>

definition removed_member :: "etcd \<Rightarrow> string \<Rightarrow> bool" where
  "removed_member st nid \<longleftrightarrow>
     (\<exists>n. get_node st nid = Some n \<and> cn_state n = NodeMembershipState.REMOVED)"

lemma register_keeps_removed:
  "register cid nid c st = (x, st') \<Longrightarrow> removed_member st k \<Longrightarrow> removed_member st' k"
  using register_cases [of cid nid c st x st']
  by (auto simp: Let_def removed_member_def get_node_put_node)

lemma member_transition_keeps_removed:
  "wf_etcd st \<Longrightarrow> member_transition cid nid to st = (x, st') \<Longrightarrow>
     removed_member st k \<Longrightarrow> removed_member st' k"
  using member_transition_cases [of cid nid to st x st'] get_node_key [of st nid]
  by (fastforce simp: removed_member_def get_node_put_node node_transition_ok)

subsection \<open>The manager as a machine\<close>

datatype member_request =
    MemRegister string "string option"
  | MemActivate string
  | MemDrain string
  | MemRemove string
  | MemBootstrap string

fun member_serve :: "string \<Rightarrow> member_request \<Rightarrow> etcd \<Rightarrow> cluster_node res \<times> etcd" where
  "member_serve cid (MemRegister nid c) st = register cid nid c st"
| "member_serve cid (MemActivate nid) st = member_activate cid nid st"
| "member_serve cid (MemDrain nid) st = member_begin_drain cid nid st"
| "member_serve cid (MemRemove nid) st = member_remove cid nid st"
| "member_serve cid (MemBootstrap nid) st = bootstrap_local_node cid nid st"

text \<open>A later version of a member: same identity, its state further along the transition table.\<close>

definition node_evolves :: "cluster_node \<Rightarrow> cluster_node \<Rightarrow> bool" where
  "node_evolves n n' \<longleftrightarrow> cn_node_id n' = cn_node_id n \<and> cn_cluster_id n' = cn_cluster_id n \<and>
     (\<exists>ts. legal_path node_transitions (cn_state n) ts \<and> cn_state n' = last (cn_state n # ts) \<and>
        cn_version n' = cn_version n + int (length ts))"

lemma node_evolves_refl [simp]: "node_evolves n n"
  by (auto simp: node_evolves_def intro: exI [of _ "[]"])

lemma node_evolves_trans: "node_evolves a b \<Longrightarrow> node_evolves b c \<Longrightarrow> node_evolves a c"
proof -
  assume h: "node_evolves a b" "node_evolves b c"
  then obtain xs ys where x: "legal_path node_transitions (cn_state a) xs"
    "cn_state b = last (cn_state a # xs)" "cn_version b = cn_version a + int (length xs)"
    and y: "legal_path node_transitions (cn_state b) ys" "cn_state c = last (cn_state b # ys)"
    "cn_version c = cn_version b + int (length ys)"
    by (auto simp: node_evolves_def)
  then have "legal_path node_transitions (cn_state a) (xs @ ys) \<and>
      cn_state c = last (cn_state a # xs @ ys) \<and>
      cn_version c = cn_version a + int (length (xs @ ys))"
    by (auto simp: legal_path_append last_append)
  with h show ?thesis unfolding node_evolves_def by metis
qed

lemma node_evolves_step: "node_transition n to = Inr n' \<Longrightarrow> node_evolves n n'"
  unfolding node_evolves_def
  by (intro conjI exI [of _ "[to]"]) (auto simp: node_transition_ok)

definition member_frame :: "etcd \<Rightarrow> etcd \<Rightarrow> bool" where
  "member_frame st st' \<longleftrightarrow>
     e_heap st' = e_heap st \<and> e_data st' = e_data st \<and> e_migrations st' = e_migrations st \<and>
     e_next st' = e_next st \<and> (wf_etcd st \<longrightarrow> wf_etcd st' \<and>
       (\<forall>k n. get_node st k = Some n \<longrightarrow> (\<exists>n'. get_node st' k = Some n' \<and> node_evolves n n')))"

lemma member_frame_trans:
  assumes "member_frame a b" "member_frame b c"
  shows "member_frame a c"
proof -
  have "\<exists>n'. get_node c k = Some n' \<and> node_evolves n n'"
    if wf: "wf_etcd a" and n: "get_node a k = Some n" for k n
  proof -
    from assms(1) wf n obtain n1 where n1: "get_node b k = Some n1" "node_evolves n n1" "wf_etcd b"
      unfolding member_frame_def by blast
    with assms(2) obtain n2 where "get_node c k = Some n2" "node_evolves n1 n2"
      unfolding member_frame_def by blast
    with n1 node_evolves_trans show ?thesis by blast
  qed
  with assms show ?thesis by (simp add: member_frame_def)
qed

lemma register_frame_all: "register cid nid c st = (x, st') \<Longrightarrow> member_frame st st'"
  using register_cases [of cid nid c st x st'] register_wf [of st cid nid c x st']
  by (auto simp: member_frame_def Let_def get_node_put_node)

lemma member_transition_frame_all:
  "member_transition cid nid to st = (x, st') \<Longrightarrow> member_frame st st'"
  using member_transition_cases [of cid nid to st x st'] member_transition_wf [of st cid nid to x st']
    get_node_key [of st nid] node_evolves_step
  by (fastforce simp: member_frame_def get_node_put_node node_transition_ok)

lemma member_serve_frame: "member_serve cid q st = (x, st') \<Longrightarrow> member_frame st st'"
proof (cases q)
  case (MemBootstrap nid)
  assume "member_serve cid q st = (x, st')"
  with MemBootstrap have b: "bootstrap_local_node cid nid st = (x, st')" by simp
  obtain r st1 where r: "(case member_get st nid of None \<Rightarrow> register cid nid None st
      | Some n \<Rightarrow> (Inr n, st)) = (r, st1)" by force
  then have f1: "member_frame st st1"
    by (auto split: option.splits dest: register_frame_all simp: member_frame_def)
  show ?thesis
  proof (cases r)
    case (Inl e)
    with b r f1 show ?thesis by (simp add: bootstrap_local_node_def)
  next
    case (Inr n)
    show ?thesis
    proof (cases "cn_state n = NodeMembershipState.JOINING")
      case True
      with b r Inr have "member_transition cid nid NodeMembershipState.ACTIVE st1 = (x, st')"
        by (simp add: bootstrap_local_node_def member_activate_def)
      with f1 show ?thesis by (meson member_frame_trans member_transition_frame_all)
    next
      case False
      with b r Inr f1 show ?thesis by (simp add: bootstrap_local_node_def)
    qed
  qed
qed (auto simp: member_activate_def member_begin_drain_def member_remove_def
    intro: register_frame_all member_transition_frame_all)

definition member_run :: "string \<Rightarrow> member_request list \<Rightarrow> etcd \<Rightarrow> etcd" where
  "member_run cid qs st = fold (\<lambda>q st. snd (member_serve cid q st)) qs st"

lemma member_run_frame: "member_frame st (member_run cid qs st)"
proof (induction qs arbitrary: st)
  case (Cons q qs)
  have "member_frame st (snd (member_serve cid q st))"
    by (cases "member_serve cid q st") (simp add: member_serve_frame)
  with Cons [of "snd (member_serve cid q st)"] show ?case
    by (auto simp: member_run_def intro: member_frame_trans)
qed (simp add: member_run_def member_frame_def)

lemma node_evolves_removed:
  "node_evolves n n' \<Longrightarrow> cn_state n = NodeMembershipState.REMOVED \<Longrightarrow> n' = n"
proof -
  assume h: "node_evolves n n'" "cn_state n = NodeMembershipState.REMOVED"
  then obtain ts where ts: "legal_path node_transitions NodeMembershipState.REMOVED ts"
    "cn_state n' = last (NodeMembershipState.REMOVED # ts)"
    "cn_version n' = cn_version n + int (length ts)"
    by (auto simp: node_evolves_def)
  then have "ts = []" by (cases ts) auto
  with ts h show "n' = n" by (simp add: node_evolves_def)
qed

subsection \<open>Properties\<close>

text \<open>
  C30: whatever the membership manager is asked (register, activate, drain, remove, and the startup
  bootstrap), no member record disappears, each only moves along the transition table, one version
  per move, in its own cluster; a REMOVED member stays exactly as it is for ever; shards and
  migrations are untouched.
\<close>

theorem membership_runs:
  assumes "wf_etcd st" "get_node st k = Some n"
  shows "(\<exists>n'. get_node (member_run cid qs st) k = Some n' \<and> cn_cluster_id n' = cn_cluster_id n \<and>
      (\<exists>ts. legal_path node_transitions (cn_state n) ts \<and> cn_state n' = last (cn_state n # ts) \<and>
         cn_version n' = cn_version n + int (length ts)) \<and>
      (cn_state n = NodeMembershipState.REMOVED \<longrightarrow> n' = n)) \<and>
    wf_etcd (member_run cid qs st) \<and> e_heap (member_run cid qs st) = e_heap st \<and>
    e_data (member_run cid qs st) = e_data st \<and>
    e_migrations (member_run cid qs st) = e_migrations st"
proof -
  from member_run_frame [of st cid qs] assms obtain n' where
    n': "get_node (member_run cid qs st) k = Some n'" "node_evolves n n'"
    unfolding member_frame_def by blast
  with member_run_frame [of st cid qs] assms node_evolves_removed [OF n'(2)] show ?thesis
    unfolding member_frame_def node_evolves_def by auto
qed

lemma membership_runs_witness:
  "\<exists>n'. get_node (member_run ''c'' [MemBootstrap ''n'', MemActivate ''n'', MemRemove ''n'']
      (put_node \<lparr>cn_node_id = ''n'', cn_cluster_id = ''c'', cn_state = NodeMembershipState.REMOVED,
         cn_version = 3\<rparr> (empty_etcd [] None True))) ''n'' = Some n' \<and> cn_version n' = 3"
proof -
  let ?n = "\<lparr>cn_node_id = ''n'', cn_cluster_id = ''c'', cn_state = NodeMembershipState.REMOVED,
     cn_version = 3\<rparr>"
  have "wf_etcd (put_node ?n (empty_etcd [] None True))" by (intro wf_put_node wf_empty)
  moreover have "get_node (put_node ?n (empty_etcd [] None True)) ''n'' = Some ?n"
    by (simp add: get_node_put_node)
  ultimately show ?thesis
    using membership_runs [of _ "''n''" ?n "''c''"
        "[MemBootstrap ''n'', MemActivate ''n'', MemRemove ''n'']"]
    by fastforce
qed

text \<open>
  The startup bootstrap is truthful: an unknown local node ends registered and ACTIVE (version 2);
  a persisted JOINING one of this cluster is activated; any other persisted record is returned as it
  is and nothing is written, so a REMOVED or DRAINING node is never presented as ACTIVE.
\<close>

theorem bootstrap_truthful:
  "case get_node st nid of
     None \<Rightarrow> \<exists>n. fst (bootstrap_local_node cid nid st) = Inr n \<and>
       get_node (snd (bootstrap_local_node cid nid st)) = (get_node st)(nid \<mapsto> n) \<and>
       n = \<lparr>cn_node_id = nid, cn_cluster_id = cid, cn_state = NodeMembershipState.ACTIVE,
            cn_version = 2\<rparr>
   | Some n \<Rightarrow>
       if cn_state n = NodeMembershipState.JOINING then
         bootstrap_local_node cid nid st = member_activate cid nid st
       else bootstrap_local_node cid nid st = (Inr n, st)"
proof (cases "get_node st nid")
  case None
  then show ?thesis
    by (simp add: bootstrap_local_node_def member_get_def register_def member_contains_def
        validate_cluster_id_for_def Let_def member_activate_def member_transition_def
        get_node_put_node validate_cluster_id_def node_transition_def fun_eq_iff)
qed (simp add: bootstrap_local_node_def member_get_def)

end
