(* ===== verification/Lifecycle.thy ===== *)
theory Lifecycle
  imports Membership
begin

text \<open>
  \<open>sharding/lifecycle.py\<close>: the lifecycle manager. It is constructed over any shard store and an
  optional membership, so its operations take the store's operations \<open>ops\<close> and a validation
  function \<open>memb\<close> (\<open>no_membership\<close> when none is configured). An operation works on a reference to
  a shard object and returns its result and the new store; a raised exception is \<open>Inl\<close>, with the
  store as the handler leaves it.
\<close>

definition no_membership :: "'st \<Rightarrow> string \<Rightarrow> unit res" where
  "no_membership st nid = Inr ()"

definition lc_create ::
    "'st shard_ops \<Rightarrow> ('st \<Rightarrow> string \<Rightarrow> unit res) \<Rightarrow> sref \<Rightarrow> string option \<Rightarrow> string list option \<Rightarrow>
     'st \<Rightarrow> sref res \<times> 'st" where
  "lc_create ops memb r owner replicas st =
     (let s0 = so_deref ops st r;
          s1 = (case owner of None \<Rightarrow> s0 | Some x \<Rightarrow> s0\<lparr>sh_node_id := x\<rparr>);
          s2 = (case replicas of None \<Rightarrow> s1 | Some x \<Rightarrow> s1\<lparr>sh_replicas := x\<rparr>);
          st2 = so_assign ops r s2 st
      in case validate_ownership s2 None None of
           Inl e \<Rightarrow> (Inl e, st2)
         | Inr _ \<Rightarrow>
             (case memb st2 (sh_node_id s2) of
                Inl e \<Rightarrow> (Inl e, st2)
              | Inr _ \<Rightarrow>
                  (let st3 = so_assign ops r (s2\<lparr>sh_state := ShardState.CREATING\<rparr>) st2
                   in case so_put ops r st3 of
                        (Inl e, st4) \<Rightarrow> (Inl e, st4)
                      | (Inr _, st4) \<Rightarrow> (Inr r, st4))))"

definition lc_transition ::
    "'st shard_ops \<Rightarrow> sref \<Rightarrow> ShardState \<Rightarrow> 'st \<Rightarrow> sref res \<times> 'st" where
  "lc_transition ops r to st =
     (let s = so_deref ops st r; old_state = sh_state s; old_version = sh_version s
      in case shard_transition s to of
           Inl e \<Rightarrow>
             (Inl e, so_assign ops r (s\<lparr>sh_state := old_state, sh_version := old_version\<rparr>) st)
         | Inr s' \<Rightarrow>
             (let st1 = so_assign ops r s' st
              in case so_put ops r st1 of
                   (Inl e, st2) \<Rightarrow>
                     (Inl e, so_assign ops r
                        (s'\<lparr>sh_state := old_state, sh_version := old_version\<rparr>) st2)
                 | (Inr _, st2) \<Rightarrow> (Inr r, st2)))"

definition lc_activate :: "'st shard_ops \<Rightarrow> sref \<Rightarrow> 'st \<Rightarrow> sref res \<times> 'st" where
  "lc_activate ops r = lc_transition ops r ShardState.ACTIVE"

definition lc_begin_drain :: "'st shard_ops \<Rightarrow> sref \<Rightarrow> 'st \<Rightarrow> sref res \<times> 'st" where
  "lc_begin_drain ops r = lc_transition ops r ShardState.DRAINING"

definition lc_retire :: "'st shard_ops \<Rightarrow> sref \<Rightarrow> 'st \<Rightarrow> sref res \<times> 'st" where
  "lc_retire ops r = lc_transition ops r ShardState.OFFLINE"

text \<open>The rollback of \<open>change_owner\<close> restores the owner and the replicas, not the version.\<close>

definition lc_change_owner ::
    "'st shard_ops \<Rightarrow> ('st \<Rightarrow> string \<Rightarrow> unit res) \<Rightarrow> sref \<Rightarrow> string \<Rightarrow> string list option \<Rightarrow>
     'st \<Rightarrow> sref res \<times> 'st" where
  "lc_change_owner ops memb r new_owner replicas st =
     (let s = so_deref ops st r in
      if sh_state s \<noteq> ShardState.DRAINING then
        (Inl (InvalidLifecycleTransitionError (sh_namespace s) (sh_id s)
                (shard_state_value (sh_state s))
                ''ownership change (owner reassignment requires state=DRAINING)''), st)
      else if new_owner = [] then (Inl (NoPrimaryOwnerError (sh_namespace s) (sh_id s)), st)
      else (case memb st new_owner of
          Inl e \<Rightarrow> (Inl e, st)
        | Inr _ \<Rightarrow>
            (let new_replicas = (case replicas of None \<Rightarrow> sh_replicas s | Some x \<Rightarrow> x) in
             if new_owner \<in> set new_replicas then (Inl (owner_conflict s new_owner), st)
             else
               (let old_owner = sh_node_id s; old_replicas = sh_replicas s;
                    s' = s\<lparr>sh_node_id := new_owner, sh_replicas := new_replicas,
                           sh_version := sh_version s + 1\<rparr>;
                    st1 = so_assign ops r s' st
                in case so_put ops r st1 of
                     (Inl e, st2) \<Rightarrow>
                       (Inl e, so_assign ops r
                          (s'\<lparr>sh_node_id := old_owner, sh_replicas := old_replicas\<rparr>) st2)
                   | (Inr _, st2) \<Rightarrow> (Inr r, st2)))))"

subsection \<open>What the manager guarantees over any shard store\<close>

context shard_store
begin

lemma transition_ok:
  assumes "lc_transition ops r to st = (Inr r', st')"
  shows "r' = r" "to \<in> shard_transitions (sh_state (so_deref ops st r))"
    "so_deref ops st' = (so_deref ops st)
       (r := (so_deref ops st r)\<lparr>sh_state := to, sh_version := sh_version (so_deref ops st r) + 1\<rparr>)"
  using assms
  by (auto simp: lc_transition_def Let_def shard_transition_ok deref_assign
      split: sum.splits prod.splits dest!: deref_put)

text \<open>A refused transition, or one whose \<open>put\<close> raised, leaves every object as it was.\<close>

lemma transition_atomic:
  assumes "lc_transition ops r to st = (Inl e, st')"
  shows "so_deref ops st' = so_deref ops st"
  using assms
  by (auto simp: lc_transition_def Let_def shard_transition_ok deref_assign assign_assign
      split: sum.splits prod.splits dest!: deref_put)

lemma change_owner_ok:
  assumes "lc_change_owner ops memb r new_owner replicas st = (Inr r', st')"
  shows "r' = r" "sh_state (so_deref ops st r) = ShardState.DRAINING" "new_owner \<noteq> []"
    "memb st new_owner = Inr ()"
    "so_deref ops st' = (so_deref ops st)
       (r := (so_deref ops st r)\<lparr>sh_node_id := new_owner,
          sh_replicas := (case replicas of None \<Rightarrow> sh_replicas (so_deref ops st r) | Some x \<Rightarrow> x),
          sh_version := sh_version (so_deref ops st r) + 1\<rparr>)"
    "new_owner \<notin> set (case replicas of None \<Rightarrow> sh_replicas (so_deref ops st r) | Some x \<Rightarrow> x)"
  using assms
  by (auto simp: lc_change_owner_def Let_def deref_assign
      split: sum.splits prod.splits if_splits dest!: deref_put)

lemma change_owner_refused:
  assumes "lc_change_owner ops memb r new_owner replicas st = (Inl e, st')"
  shows "so_deref ops st' = so_deref ops st \<or>
    so_deref ops st' = (so_deref ops st)
      (r := (so_deref ops st r)\<lparr>sh_version := sh_version (so_deref ops st r) + 1\<rparr>)"
  using assms
  by (auto simp: lc_change_owner_def Let_def deref_assign assign_assign
      split: sum.splits prod.splits if_splits dest!: deref_put)

lemma create_ok:
  assumes "lc_create ops memb r owner replicas st = (Inr r', st')"
  shows "r' = r"
    "so_deref ops st' = (so_deref ops st)
       (r := (so_deref ops st r)
          \<lparr>sh_node_id := (case owner of None \<Rightarrow> sh_node_id (so_deref ops st r) | Some x \<Rightarrow> x),
           sh_replicas := (case replicas of None \<Rightarrow> sh_replicas (so_deref ops st r) | Some x \<Rightarrow> x),
           sh_state := ShardState.CREATING\<rparr>)"
    "sh_node_id (so_deref ops st' r) \<noteq> []"
    "sh_node_id (so_deref ops st' r) \<notin> set (sh_replicas (so_deref ops st' r))"
  using assms
  by (auto simp: lc_create_def Let_def deref_assign validate_ownership_ok
      split: sum.splits prod.splits option.splits dest!: deref_put)

end

subsection \<open>A store whose put can raise\<close>

text \<open>
  \<open>Etcd3Store\<close>: \<open>put\<close> first makes sure of a client (\<open>_ensure\<close> reconnects once and raises a
  RuntimeError when that fails) and then writes the JSON of the shard under its key. The etcd
  service is outside the program: \<open>connect\<close> says whether a connection attempt succeeds, \<open>kv_put\<close>
  is the client's put on the service's state.
\<close>

record 'kv etcd3 =
  x_heap :: heap
  x_connected :: bool
  x_kv :: 'kv

definition etcd3_key :: "string \<Rightarrow> string" where
  "etcd3_key sid = ''/vsector/shards/'' @ sid"

definition etcd3_ensure :: "('kv \<Rightarrow> bool) \<Rightarrow> 'kv etcd3 \<Rightarrow> unit res \<times> 'kv etcd3" where
  "etcd3_ensure connect st =
     (let st1 = (if x_connected st then st else st\<lparr>x_connected := connect (x_kv st)\<rparr>)
      in (if x_connected st1 then Inr () else Inl (RuntimeError ''etcd3 not available''), st1))"

definition etcd3_put ::
    "('kv \<Rightarrow> bool) \<Rightarrow> (string \<Rightarrow> json \<Rightarrow> 'kv \<Rightarrow> unit res \<times> 'kv) \<Rightarrow> sref \<Rightarrow> 'kv etcd3 \<Rightarrow>
     unit res \<times> 'kv etcd3" where
  "etcd3_put connect kv_put r st =
     (case etcd3_ensure connect st of
        (Inl e, st1) \<Rightarrow> (Inl e, st1)
      | (Inr _, st1) \<Rightarrow>
          (let (x, kv) = kv_put (etcd3_key (sh_id (x_heap st1 r)))
                           (shard_to_dict (x_heap st1 r)) (x_kv st1)
           in (x, st1\<lparr>x_kv := kv\<rparr>)))"

definition etcd3_ops ::
    "('kv \<Rightarrow> bool) \<Rightarrow> (string \<Rightarrow> json \<Rightarrow> 'kv \<Rightarrow> unit res \<times> 'kv) \<Rightarrow> 'kv etcd3 shard_ops" where
  "etcd3_ops connect kv_put =
     \<lparr>so_deref = x_heap, so_assign = (\<lambda>r s st. st\<lparr>x_heap := (x_heap st)(r := s)\<rparr>),
      so_put = etcd3_put connect kv_put\<rparr>"

lemma etcd3_ensure_heap: "etcd3_ensure connect st = (x, st') \<Longrightarrow> x_heap st' = x_heap st"
  by (auto simp: etcd3_ensure_def Let_def split: if_splits)

lemma etcd3_put_heap: "etcd3_put connect kv_put r st = (x, st') \<Longrightarrow> x_heap st' = x_heap st"
  by (auto simp: etcd3_put_def dest: etcd3_ensure_heap split: sum.splits prod.splits)

interpretation e3: shard_store "etcd3_ops connect kv_put" for connect kv_put
  by unfold_locales (auto simp: etcd3_ops_def dest: etcd3_put_heap)

lemma etcd3_ops_simps [simp]:
  "so_deref (etcd3_ops connect kv_put) = x_heap"
  "so_put (etcd3_ops connect kv_put) = etcd3_put connect kv_put"
  "so_assign (etcd3_ops connect kv_put) r s st = st\<lparr>x_heap := (x_heap st)(r := s)\<rparr>"
  by (simp_all add: etcd3_ops_def)

lemma mem_ops_simps [simp]:
  "so_deref mem_ops = e_heap" "so_assign mem_ops = assign"
  "so_put mem_ops r st = (Inr (), etcd_put r st)"
  by (simp_all add: mem_ops_def)

subsection \<open>The outcomes over the in-memory store\<close>

lemma mem_transition_cases:
  assumes "lc_transition mem_ops r to st = (x, st')"
  obtains (refused) e where "x = Inl e" "st' = assign r (e_heap st r) st"
  | (applied) s' where "x = Inr r" "shard_transition (e_heap st r) to = Inr s'"
      "st' = etcd_put r (assign r s' st)"
proof (cases "shard_transition (e_heap st r) to")
  case (Inl e)
  with assms show thesis by (intro refused [of e]) (simp_all add: lc_transition_def)
next
  case (Inr s')
  with assms show thesis by (intro applied [of s']) (simp_all add: lc_transition_def)
qed

lemma mem_change_owner_cases:
  assumes "lc_change_owner mem_ops memb r new_owner replicas st = (x, st')"
  obtains (refused) e where "x = Inl e" "st' = st"
  | (applied) "x = Inr r" "sh_state (e_heap st r) = ShardState.DRAINING" "new_owner \<noteq> []"
      "memb st new_owner = Inr ()"
      "new_owner \<notin> set (case replicas of None \<Rightarrow> sh_replicas (e_heap st r) | Some x \<Rightarrow> x)"
      "st' = etcd_put r (assign r ((e_heap st r)\<lparr>sh_node_id := new_owner,
         sh_replicas := (case replicas of None \<Rightarrow> sh_replicas (e_heap st r) | Some x \<Rightarrow> x),
         sh_version := sh_version (e_heap st r) + 1\<rparr>) st)"
proof (cases x)
  case (Inl e)
  with assms show thesis
    by (intro refused [of e])
      (auto simp: lc_change_owner_def Let_def split: sum.splits if_splits)
next
  case (Inr r')
  from mem.change_owner_ok [OF assms [unfolded Inr]] assms Inr show thesis
    by (intro applied) (simp_all add: lc_change_owner_def Let_def split: option.splits)
qed

lemma mem_create_cases:
  assumes "lc_create mem_ops memb r owner replicas st = (x, st')"
    and s: "s = (e_heap st r)
      \<lparr>sh_node_id := (case owner of None \<Rightarrow> sh_node_id (e_heap st r) | Some x \<Rightarrow> x),
       sh_replicas := (case replicas of None \<Rightarrow> sh_replicas (e_heap st r) | Some x \<Rightarrow> x)\<rparr>"
  obtains (refused) e where "x = Inl e" "st' = assign r s st"
  | (applied) "x = Inr r" "sh_node_id s \<noteq> []" "sh_node_id s \<notin> set (sh_replicas s)"
      "memb (assign r s st) (sh_node_id s) = Inr ()"
      "st' = etcd_put r (assign r (s\<lparr>sh_state := ShardState.CREATING\<rparr>) (assign r s st))"
proof -
  have c: "lc_create mem_ops memb r owner replicas st =
      (case validate_ownership s None None of Inl e \<Rightarrow> (Inl e, assign r s st)
       | Inr _ \<Rightarrow> (case memb (assign r s st) (sh_node_id s) of
            Inl e \<Rightarrow> (Inl e, assign r s st)
          | Inr _ \<Rightarrow> (Inr r, etcd_put r
              (assign r (s\<lparr>sh_state := ShardState.CREATING\<rparr>) (assign r s st)))))"
    unfolding s lc_create_def by (cases owner; cases replicas) (simp_all add: Let_def split: sum.split)
  show thesis
  proof (cases "validate_ownership s None None")
    case (Inl e)
    with assms(1) c show thesis by (intro refused [of e]) simp_all
  next
    case v: (Inr u)
    show thesis
    proof (cases "memb (assign r s st) (sh_node_id s)")
      case (Inl e)
      with v assms(1) c show thesis by (intro refused [of e]) simp_all
    next
      case (Inr w)
      have ok: "sh_node_id s \<noteq> []" "sh_node_id s \<notin> set (sh_replicas s)"
        using v validate_ownership_ok by blast+
      have "(x, st') = (Inr r, etcd_put r
          (assign r (s\<lparr>sh_state := ShardState.CREATING\<rparr>) (assign r s st)))"
        using v Inr assms(1) c by simp
      with ok Inr show thesis by (intro applied) simp_all
    qed
  qed
qed

subsection \<open>Properties\<close>

text \<open>
  C29: the shard lifecycle: a sequence of transitions is accepted exactly when it is a path of the
  declared table, the result differs from the start in the state and the version (one per step)
  only; an OFFLINE or RETIRED shard accepts nothing; no path leads back to CREATING, and DRAINING is
  entered from ACTIVE only.
\<close>

theorem shard_lifecycle:
  "((\<exists>s'. run_steps shard_transition s ts = Inr s') \<longleftrightarrow> legal_path shard_transitions (sh_state s) ts) \<and>
   (\<forall>s'. run_steps shard_transition s ts = Inr s' \<longrightarrow>
      s' = s\<lparr>sh_state := last (sh_state s # ts), sh_version := sh_version s + int (length ts)\<rparr> \<and>
      ShardState.CREATING \<notin> set ts \<and>
      (ts \<noteq> [] \<and> last ts = ShardState.DRAINING \<longrightarrow> last (sh_state s # butlast ts) = ShardState.ACTIVE) \<and>
      (sh_state s \<in> {ShardState.OFFLINE, ShardState.RETIRED} \<longrightarrow> ts = []))"
proof (intro conjI allI impI)
  show "(\<exists>s'. run_steps shard_transition s ts = Inr s') \<longleftrightarrow> legal_path shard_transitions (sh_state s) ts"
    by (rule shard_machine.run_iff)
next
  fix s' assume r: "run_steps shard_transition s ts = Inr s'"
  note path = shard_machine.run_legal [OF r]
  show "s' = s\<lparr>sh_state := last (sh_state s # ts), sh_version := sh_version s + int (length ts)\<rparr>"
    by (rule shard_run_frame [OF r])
  show "ShardState.CREATING \<notin> set ts" by (rule legal_path_no_creating [OF path])
  show "last (sh_state s # butlast ts) = ShardState.ACTIVE"
    if "ts \<noteq> [] \<and> last ts = ShardState.DRAINING"
    using legal_path_to_draining [OF path] that by blast
  show "ts = []" if "sh_state s \<in> {ShardState.OFFLINE, ShardState.RETIRED}"
    using that shard_machine.run_terminal [OF _ r] shard_terminal [of "sh_state s"] by blast
qed

lemma shard_lifecycle_witness:
  "\<exists>s'. run_steps shard_transition (new_shard ''s'' 0 ''ns'' ''n'')
      [ShardState.DRAINING, ShardState.ACTIVE, ShardState.OFFLINE] = Inr s' \<and> sh_version s' = 4"
proof -
  let ?ts = "[ShardState.DRAINING, ShardState.ACTIVE, ShardState.OFFLINE]"
  have "legal_path shard_transitions (sh_state (new_shard ''s'' 0 ''ns'' ''n'')) ?ts"
    by (simp add: new_shard_def)
  then obtain s' where s': "run_steps shard_transition (new_shard ''s'' 0 ''ns'' ''n'') ?ts = Inr s'"
    using shard_lifecycle [THEN conjunct1] by blast
  then have "sh_version s' = sh_version (new_shard ''s'' 0 ''ns'' ''n'') + int (length ?ts)"
    using shard_lifecycle [THEN conjunct2, rule_format, OF s'] by simp
  with s' show ?thesis by (simp add: new_shard_def)
qed


text \<open>
  An ownership change that returns happened in state DRAINING, to a validated non-empty owner that
  is no replica, and counted one version; one that raises moved neither the owner nor the replicas
  of any shard.
\<close>

theorem change_owner_outcomes:
  "case lc_change_owner (etcd3_ops connect kv_put) memb r new_owner replicas st of
     (Inr r', st') \<Rightarrow> sh_state (x_heap st r) = ShardState.DRAINING \<and> new_owner \<noteq> [] \<and>
       memb st new_owner = Inr () \<and> new_owner \<notin> set (sh_replicas (x_heap st' r)) \<and>
       x_heap st' = (x_heap st)(r := (x_heap st r)\<lparr>sh_node_id := new_owner,
         sh_replicas := (case replicas of None \<Rightarrow> sh_replicas (x_heap st r) | Some x \<Rightarrow> x),
         sh_version := sh_version (x_heap st r) + 1\<rparr>)
   | (Inl e, st') \<Rightarrow> sh_node_id \<circ> x_heap st' = sh_node_id \<circ> x_heap st \<and>
       sh_replicas \<circ> x_heap st' = sh_replicas \<circ> x_heap st \<and>
       sh_state \<circ> x_heap st' = sh_state \<circ> x_heap st"
proof (cases "lc_change_owner (etcd3_ops connect kv_put) memb r new_owner replicas st")
  case (Pair x st')
  show ?thesis
  proof (cases x)
    case (Inl e)
    have "x_heap st' = x_heap st \<or> x_heap st' = (x_heap st)
        (r := (x_heap st r)\<lparr>sh_version := sh_version (x_heap st r) + 1\<rparr>)"
      using e3.change_owner_refused [OF Pair [unfolded Inl]] by simp
    then have "sh_node_id \<circ> x_heap st' = sh_node_id \<circ> x_heap st"
      "sh_replicas \<circ> x_heap st' = sh_replicas \<circ> x_heap st"
      "sh_state \<circ> x_heap st' = sh_state \<circ> x_heap st"
      by (elim disjE; simp add: fun_eq_iff)+
    with Pair Inl show ?thesis by simp
  next
    case (Inr r')
    from e3.change_owner_ok [OF Pair [unfolded Inr]] Pair Inr show ?thesis
      by (cases replicas) simp_all
  qed
qed

text \<open>
  The rollback of an ownership change whose \<open>put\<close> raised is incomplete: it leaves the version one
  higher than before, which makes every migration created on the shard stale.
\<close>

theorem change_owner_rollback_version:
  assumes "sh_state (x_heap st r) = ShardState.DRAINING" "new_owner \<noteq> []"
    "memb st new_owner = Inr ()" "new_owner \<notin> set (sh_replicas (x_heap st r))"
    "\<not> x_connected st" "\<not> connect (x_kv st)"
  shows "\<exists>st'. lc_change_owner (etcd3_ops connect kv_put) memb r new_owner None st =
      (Inl (RuntimeError ''etcd3 not available''), st') \<and>
    x_heap st' r = (x_heap st r)\<lparr>sh_version := sh_version (x_heap st r) + 1\<rparr>"
  using assms
  by (simp add: lc_change_owner_def Let_def etcd3_put_def etcd3_ensure_def)

lemma change_owner_rollback_version_witness:
  "\<exists>st'. lc_change_owner (etcd3_ops (\<lambda>_. False) (\<lambda>k v kv. (Inr (), kv))) no_membership 0 ''n1'' None
      \<lparr>x_heap = (\<lambda>_. (new_shard ''s'' 0 ''ns'' ''n0'')\<lparr>sh_state := ShardState.DRAINING\<rparr>),
       x_connected = False, x_kv = ()\<rparr> = (Inl (RuntimeError ''etcd3 not available''), st') \<and>
     sh_version (x_heap st' 0) = 2"
proof -
  let ?st = "\<lparr>x_heap = (\<lambda>_::sref. (new_shard ''s'' 0 ''ns'' ''n0'')\<lparr>sh_state := ShardState.DRAINING\<rparr>),
       x_connected = False, x_kv = ()\<rparr>"
  have "\<exists>st'. lc_change_owner (etcd3_ops (\<lambda>_. False) (\<lambda>k v kv. (Inr (), kv))) no_membership 0 ''n1''
      None ?st = (Inl (RuntimeError ''etcd3 not available''), st') \<and>
    x_heap st' 0 = (x_heap ?st 0)\<lparr>sh_version := sh_version (x_heap ?st 0) + 1\<rparr>"
    by (rule change_owner_rollback_version) (simp_all add: no_membership_def new_shard_def)
  then show ?thesis by (auto simp: new_shard_def)
qed

text \<open>
  Creation: when it returns, the shard is CREATING with the owner and replicas asked for, a
  non-empty owner that is no replica. But a creation refused by the ownership check has already
  assigned the requested owner and replicas to the shard object.
\<close>

theorem create_outcomes:
  "case lc_create mem_ops memb r owner replicas st of
     (Inr r', st') \<Rightarrow> r' = r \<and> sh_state (e_heap st' r) = ShardState.CREATING \<and>
       sh_node_id (e_heap st' r) = (case owner of None \<Rightarrow> sh_node_id (e_heap st r) | Some x \<Rightarrow> x) \<and>
       sh_replicas (e_heap st' r) = (case replicas of None \<Rightarrow> sh_replicas (e_heap st r) | Some x \<Rightarrow> x) \<and>
       sh_node_id (e_heap st' r) \<noteq> [] \<and> sh_node_id (e_heap st' r) \<notin> set (sh_replicas (e_heap st' r)) \<and>
       etcd_get st' (sh_id (e_heap st r)) = Some r
   | (Inl e, st') \<Rightarrow> e_data st' = e_data st \<and>
       sh_node_id (e_heap st' r) = (case owner of None \<Rightarrow> sh_node_id (e_heap st r) | Some x \<Rightarrow> x) \<and>
       sh_replicas (e_heap st' r) = (case replicas of None \<Rightarrow> sh_replicas (e_heap st r) | Some x \<Rightarrow> x) \<and>
       sh_state (e_heap st' r) = sh_state (e_heap st r)"
  by (auto simp: lc_create_def Let_def validate_ownership_ok etcd_get_put
      split: sum.splits option.splits)

end
