(* ===== verification/Hash_Ring.thy ===== *)
theory Hash_Ring
  imports Errors
begin

text \<open>
  \<open>sharding/hash_ring.py\<close>: rendezvous hashing (\<open>RendezvousHash\<close>) and the consistent hash ring
  (\<open>ConsistentHashRing\<close>). The 128-bit murmur hash of the mmh3 package and the SHA-256 value of the
  ring are parameters \<open>hash\<close>; that they are not negative is the hypothesis \<open>nonneg_hash\<close>
  (\<open>mmh3.hash128(..., signed=False)\<close>, \<open>int(hexdigest, 16)\<close>).
\<close>

definition nonneg_hash :: "(string \<Rightarrow> int) \<Rightarrow> bool" where
  "nonneg_hash hash \<longleftrightarrow> (\<forall>s. 0 \<le> hash s)"

subsection \<open>Rendezvous hashing\<close>

definition hrw_add_node :: "string \<Rightarrow> string list \<Rightarrow> string list" where
  "hrw_add_node n nodes = (if n \<in> set nodes then nodes else nodes @ [n])"

definition hrw_remove_node :: "string \<Rightarrow> string list \<Rightarrow> string list" where
  "hrw_remove_node n nodes = (if n \<in> set nodes then remove1 n nodes else nodes)"

definition hrw_score :: "(string \<Rightarrow> int) \<Rightarrow> string \<Rightarrow> string \<Rightarrow> int" where
  "hrw_score hash k n = hash (k @ ''#'' @ n)"

text \<open>The loop of \<open>get_node\<close> with its running best and best score.\<close>

fun hrw_best :: "(string \<Rightarrow> int) \<Rightarrow> string \<Rightarrow> string list \<Rightarrow> string option \<Rightarrow> int \<Rightarrow> string option" where
  "hrw_best hash k [] best best_score = best"
| "hrw_best hash k (n # ns) best best_score =
     (let score = hrw_score hash k n in
      if score > best_score then hrw_best hash k ns (Some n) score
      else hrw_best hash k ns best best_score)"

definition hrw_get_node :: "(string \<Rightarrow> int) \<Rightarrow> string list \<Rightarrow> string \<Rightarrow> string res" where
  "hrw_get_node hash nodes k =
     (if nodes = [] then Inl (RuntimeError ''no nodes in ring'')
      else (case hrw_best hash k nodes None (-1) of
          None \<Rightarrow> Inl (AssertionError [])
        | Some n \<Rightarrow> Inr n))"

text \<open>\<open>get_nodes\<close>: the pairs of score and node in descending order, the first \<open>n\<close> of them.\<close>

fun desc_le :: "int \<times> string \<Rightarrow> int \<times> string \<Rightarrow> bool" where
  "desc_le (s, a) (t, b) = (t < s \<or> (t = s \<and> b \<le> a))"

fun insort_desc :: "int \<times> string \<Rightarrow> (int \<times> string) list \<Rightarrow> (int \<times> string) list" where
  "insort_desc x [] = [x]"
| "insort_desc x (y # ys) = (if desc_le x y then x # y # ys else y # insort_desc x ys)"

definition hrw_get_nodes :: "(string \<Rightarrow> int) \<Rightarrow> string list \<Rightarrow> string \<Rightarrow> nat \<Rightarrow> string list" where
  "hrw_get_nodes hash nodes k n =
     map snd (take n (foldr insort_desc (map (\<lambda>x. (hrw_score hash k x, x)) nodes) []))"

lemma hrw_best_spec:
  "hrw_best hash k ns b bs = b \<and> (\<forall>n \<in> set ns. hrw_score hash k n \<le> bs) \<or>
   (\<exists>xs n ys. ns = xs @ n # ys \<and> hrw_best hash k ns b bs = Some n \<and> bs < hrw_score hash k n \<and>
      (\<forall>x \<in> set xs. hrw_score hash k x < hrw_score hash k n) \<and>
      (\<forall>y \<in> set ys. hrw_score hash k y \<le> hrw_score hash k n))"
proof (induction ns arbitrary: b bs)
  case (Cons m ns)
  show ?case
  proof (cases "hrw_score hash k m > bs")
    case True
    from Cons.IH [of "Some m" "hrw_score hash k m"] show ?thesis
    proof (elim disjE exE conjE)
      assume "hrw_best hash k ns (Some m) (hrw_score hash k m) = Some m"
        "\<forall>n \<in> set ns. hrw_score hash k n \<le> hrw_score hash k m"
      with True show ?thesis
        by (intro disjI2 exI [of _ "[]"] exI [of _ m] exI [of _ ns]) simp
    next
      fix xs n ys
      assume *: "ns = xs @ n # ys" "hrw_best hash k ns (Some m) (hrw_score hash k m) = Some n"
        "hrw_score hash k m < hrw_score hash k n"
        "\<forall>x \<in> set xs. hrw_score hash k x < hrw_score hash k n"
        "\<forall>y \<in> set ys. hrw_score hash k y \<le> hrw_score hash k n"
      with True show ?thesis
        by (intro disjI2 exI [of _ "m # xs"] exI [of _ n] exI [of _ ys]) simp
    qed
  next
    case False
    from Cons.IH [of b bs] show ?thesis
    proof (elim disjE exE conjE)
      fix xs n ys
      assume "ns = xs @ n # ys" "hrw_best hash k ns b bs = Some n" "bs < hrw_score hash k n"
        "\<forall>x \<in> set xs. hrw_score hash k x < hrw_score hash k n"
        "\<forall>y \<in> set ys. hrw_score hash k y \<le> hrw_score hash k n"
      with False show ?thesis
        by (intro disjI2 exI [of _ "m # xs"] exI [of _ n] exI [of _ ys]) auto
    qed (use False in simp)
  qed
qed simp

text \<open>On a non-empty list the loop returns the first node of maximal score.\<close>

lemma hrw_get_node_split:
  assumes "nonneg_hash hash" "nodes \<noteq> []"
  obtains xs n ys where "nodes = xs @ n # ys" "hrw_get_node hash nodes k = Inr n"
    "\<forall>x \<in> set xs. hrw_score hash k x < hrw_score hash k n"
    "\<forall>y \<in> set ys. hrw_score hash k y \<le> hrw_score hash k n"
proof -
  have "\<exists>n \<in> set nodes. -1 < hrw_score hash k n"
    using assms by (cases nodes) (auto simp: nonneg_hash_def hrw_score_def intro: less_le_trans [of _ 0])
  with hrw_best_spec [of hash k nodes None "-1"] assms(2) show ?thesis
    by (auto simp: hrw_get_node_def intro!: that)
qed

lemma hrw_get_node_unique:
  assumes "nonneg_hash hash" "nodes = xs @ n # ys"
    "\<forall>x \<in> set xs. hrw_score hash k x < hrw_score hash k n"
    "\<forall>y \<in> set ys. hrw_score hash k y \<le> hrw_score hash k n"
  shows "hrw_get_node hash nodes k = Inr n"
proof -
  from assms(2) have "nodes \<noteq> []" by simp
  with assms(1) obtain us m vs where m: "nodes = us @ m # vs" "hrw_get_node hash nodes k = Inr m"
    "\<forall>x \<in> set us. hrw_score hash k x < hrw_score hash k m"
    "\<forall>y \<in> set vs. hrw_score hash k y \<le> hrw_score hash k m"
    by (rule hrw_get_node_split)
  from assms(2) m(1) have "xs @ n # ys = us @ m # vs" by simp
  then consider "n = m" | "m \<in> set xs" "n \<in> set vs" | "n \<in> set us" "m \<in> set ys"
    by (auto simp: append_eq_append_conv2 append_eq_Cons_conv Cons_eq_append_conv)
  then show ?thesis
  proof cases
    case 2
    with assms(3) m(4) show ?thesis by fastforce
  next
    case 3
    with assms(4) m(3) show ?thesis by fastforce
  qed (use m in simp)
qed

lemma hrw_get_node_in: "hrw_get_node hash nodes k = Inr n \<Longrightarrow> n \<in> set nodes"
  using hrw_best_spec [of hash k nodes None "-1"]
  by (auto simp: hrw_get_node_def split: if_splits option.splits)

lemma hrw_get_node_total:
  "nonneg_hash hash \<Longrightarrow> nodes \<noteq> [] \<Longrightarrow> \<exists>n. hrw_get_node hash nodes k = Inr n"
  by (meson hrw_get_node_split)

lemma hrw_get_node_max:
  assumes "nonneg_hash hash" "nodes \<noteq> []"
  shows "\<exists>n. hrw_get_node hash nodes k = Inr n \<and> n \<in> set nodes \<and>
    (\<forall>x \<in> set nodes. hrw_score hash k x \<le> hrw_score hash k n)"
  using assms by (rule hrw_get_node_split [of hash nodes k]) (auto simp: less_imp_le)

lemma hrw_remove_node_filter: "distinct nodes \<Longrightarrow> hrw_remove_node m nodes = filter (\<lambda>x. x \<noteq> m) nodes"
proof (induction nodes)
  case (Cons a nodes)
  have "filter (\<lambda>x. x \<noteq> a) nodes = nodes"
    using Cons.prems by (auto simp: filter_id_conv)
  with Cons show ?case by (auto simp: hrw_remove_node_def filter_id_conv)
qed (simp add: hrw_remove_node_def)

text \<open>Removing a node that does not hold the key, or adding a node, disturbs no other placement.\<close>

lemma hrw_remove_other:
  assumes "nonneg_hash hash" "distinct nodes" "hrw_get_node hash nodes k = Inr n" "m \<noteq> n"
  shows "hrw_get_node hash (hrw_remove_node m nodes) k = Inr n"
proof -
  from assms(3) have "nodes \<noteq> []" by (auto simp: hrw_get_node_def)
  with assms(1) obtain xs n' ys where "nodes = xs @ n' # ys" "hrw_get_node hash nodes k = Inr n'"
    "\<forall>x \<in> set xs. hrw_score hash k x < hrw_score hash k n'"
    "\<forall>y \<in> set ys. hrw_score hash k y \<le> hrw_score hash k n'"
    by (rule hrw_get_node_split)
  with assms(3) have s: "nodes = xs @ n # ys"
    "\<forall>x \<in> set xs. hrw_score hash k x < hrw_score hash k n"
    "\<forall>y \<in> set ys. hrw_score hash k y \<le> hrw_score hash k n"
    by simp_all
  have r: "hrw_remove_node m nodes = filter (\<lambda>x. x \<noteq> m) xs @ n # filter (\<lambda>x. x \<noteq> m) ys"
    unfolding hrw_remove_node_filter [OF assms(2)] using assms(4) s(1) by simp
  show ?thesis
    by (rule hrw_get_node_unique [OF assms(1) r]) (use s(2,3) in auto)
qed

lemma hrw_add_only_moves_to_new:
  assumes "nonneg_hash hash" "hrw_get_node hash nodes k = Inr n"
  shows "hrw_get_node hash (hrw_add_node m nodes) k \<in> {Inr n, Inr m}"
proof -
  from assms(2) have "nodes \<noteq> []" by (auto simp: hrw_get_node_def)
  with assms(1) obtain xs n' ys where "nodes = xs @ n' # ys" "hrw_get_node hash nodes k = Inr n'"
    "\<forall>x \<in> set xs. hrw_score hash k x < hrw_score hash k n'"
    "\<forall>y \<in> set ys. hrw_score hash k y \<le> hrw_score hash k n'"
    by (rule hrw_get_node_split)
  with assms(2) have s: "nodes = xs @ n # ys"
    "\<forall>x \<in> set xs. hrw_score hash k x < hrw_score hash k n"
    "\<forall>y \<in> set ys. hrw_score hash k y \<le> hrw_score hash k n"
    by simp_all
  show ?thesis
  proof (cases "m \<in> set nodes")
    case True
    with assms(2) show ?thesis by (simp add: hrw_add_node_def)
  next
    case False
    then have add: "hrw_add_node m nodes = nodes @ [m]" by (simp add: hrw_add_node_def)
    show ?thesis
    proof (cases "hrw_score hash k m \<le> hrw_score hash k n")
      case True
      with s have "hrw_get_node hash (nodes @ [m]) k = Inr n"
        by (intro hrw_get_node_unique [OF assms(1), of _ xs _ "ys @ [m]"]) auto
      with add show ?thesis by simp
    next
      case False
      with s have "hrw_get_node hash (nodes @ [m]) k = Inr m"
        by (intro hrw_get_node_unique [OF assms(1), of _ nodes _ "[]"]) force+
      with add show ?thesis by simp
    qed
  qed
qed

text \<open>When no two nodes tie, the placement depends on the set of nodes alone.\<close>

lemma hrw_set_determined:
  assumes "nonneg_hash hash" "set nodes' = set nodes" "inj_on (hrw_score hash k) (set nodes)"
  shows "hrw_get_node hash nodes' k = hrw_get_node hash nodes k"
proof (cases "nodes = []")
  case False
  with assms(2) have ne: "nodes' \<noteq> []" by auto
  from hrw_get_node_max [OF assms(1) False, of k]
  obtain n where n: "hrw_get_node hash nodes k = Inr n" "n \<in> set nodes"
    "\<forall>x \<in> set nodes. hrw_score hash k x \<le> hrw_score hash k n" by blast
  from hrw_get_node_max [OF assms(1) ne, of k]
  obtain m where m: "hrw_get_node hash nodes' k = Inr m" "m \<in> set nodes'"
    "\<forall>x \<in> set nodes'. hrw_score hash k x \<le> hrw_score hash k m" by blast
  from n m assms(2) have "hrw_score hash k m = hrw_score hash k n" by (simp add: antisym)
  with assms(2,3) n(2) m(2) have "m = n" by (auto dest: inj_onD)
  with n m show ?thesis by simp
qed (use assms(2) in simp)

subsection \<open>The replica list\<close>

lemma set_foldr_insort_desc: "set (foldr insort_desc xs []) = set xs"
proof -
  have "set (insort_desc x ys) = insert x (set ys)" for x ys
    by (induction x ys rule: insort_desc.induct) auto
  then show ?thesis by (induction xs) auto
qed

lemma length_foldr_insort_desc: "length (foldr insort_desc xs []) = length xs"
proof -
  have "length (insort_desc x ys) = Suc (length ys)" for x ys
    by (induction x ys rule: insort_desc.induct) auto
  then show ?thesis by (induction xs) auto
qed

lemma desc_le_trans: "desc_le x y \<Longrightarrow> desc_le y z \<Longrightarrow> desc_le x z"
  by (cases x; cases y; cases z) auto

lemma desc_le_linear: "desc_le x y \<or> desc_le y x"
  by (cases x; cases y) auto

lemma sorted_foldr_insort_desc: "sorted_wrt desc_le (foldr insort_desc xs [])"
proof -
  have set_ins: "set (insort_desc x ys) = insert x (set ys)" for x ys
    by (induction x ys rule: insort_desc.induct) auto
  have "sorted_wrt desc_le ys \<Longrightarrow> sorted_wrt desc_le (insort_desc x ys)" for x ys
    by (induction x ys rule: insort_desc.induct)
      (use desc_le_linear desc_le_trans in \<open>auto simp: set_ins\<close>)
  then show ?thesis by (induction xs) auto
qed

lemma hrw_get_nodes_members: "set (hrw_get_nodes hash nodes k n) \<subseteq> set nodes"
proof -
  have "set (take n ps) \<subseteq> set ps" for ps :: "(int \<times> string) list" by (rule set_take_subset)
  then show ?thesis
    by (force simp: hrw_get_nodes_def dest: in_set_takeD simp: set_foldr_insort_desc)
qed

lemma hrw_get_nodes_length: "length (hrw_get_nodes hash nodes k n) = min n (length nodes)"
  by (simp add: hrw_get_nodes_def length_foldr_insort_desc min.commute)

subsection \<open>The consistent hash ring\<close>

record ring =
  cr_replicas :: nat
  cr_ring :: "(int, string) dict"
  cr_sorted_keys :: "int list"

definition new_ring :: "nat \<Rightarrow> ring" where
  "new_ring replicas = \<lparr>cr_replicas = replicas, cr_ring = [], cr_sorted_keys = []\<rparr>"

definition vnode :: "string \<Rightarrow> nat \<Rightarrow> string" where
  "vnode node i = node @ ''#'' @ nat_str i"

definition ring_add_node :: "(string \<Rightarrow> int) \<Rightarrow> string \<Rightarrow> ring \<Rightarrow> ring" where
  "ring_add_node hash node R =
     (let d = fold (\<lambda>i. dict_put (hash (vnode node i)) node) [0..<cr_replicas R] (cr_ring R)
      in R\<lparr>cr_ring := d, cr_sorted_keys := sort (map fst d)\<rparr>)"

definition ring_remove_node :: "(string \<Rightarrow> int) \<Rightarrow> string \<Rightarrow> ring \<Rightarrow> ring" where
  "ring_remove_node hash node R =
     (let d = fold (\<lambda>i. dict_pop (hash (vnode node i))) [0..<cr_replicas R] (cr_ring R)
      in R\<lparr>cr_ring := d, cr_sorted_keys := sort (map fst d)\<rparr>)"

text \<open>\<open>bisect.bisect\<close> on a sorted list: the number of keys not above \<open>h\<close>.\<close>

definition bisect_right :: "int list \<Rightarrow> int \<Rightarrow> nat" where
  "bisect_right keys h = length (takeWhile (\<lambda>x. x \<le> h) keys)"

definition ring_get_node :: "(string \<Rightarrow> int) \<Rightarrow> ring \<Rightarrow> string \<Rightarrow> string res" where
  "ring_get_node hash R k =
     (if cr_ring R = [] then Inl (RuntimeError ''ring empty'')
      else (let h = hash k;
                idx = bisect_right (cr_sorted_keys R) h mod length (cr_sorted_keys R)
            in case dict_get (cr_ring R) (cr_sorted_keys R ! idx) of
                 None \<Rightarrow> Inl (KeyError (int_str (cr_sorted_keys R ! idx)))
               | Some n \<Rightarrow> Inr n))"

definition ring_ok :: "ring \<Rightarrow> bool" where
  "ring_ok R \<longleftrightarrow> dict_ok (cr_ring R) \<and> cr_sorted_keys R = sort (map fst (cr_ring R))"

text \<open>The owner of a position: the first key clockwise from it, wrapping around.\<close>

definition clockwise :: "int set \<Rightarrow> int \<Rightarrow> int" where
  "clockwise ks h = (if \<exists>x \<in> ks. h < x then Min {x \<in> ks. h < x} else Min ks)"

lemma takeWhile_sorted_nth:
  assumes "sorted xs" "i = length (takeWhile (\<lambda>x. x \<le> h) xs)" "i < length xs"
  shows "xs ! i = Min {x \<in> set xs. h < x}" "h < xs ! i"
proof -
  show gt: "h < xs ! i"
    using assms(2,3) nth_length_takeWhile [of "\<lambda>x. x \<le> h" xs] by simp
  have "xs ! i \<le> y" if y: "y \<in> set xs" "h < y" for y
  proof -
    from y obtain j where j: "j < length xs" "xs ! j = y" by (auto simp: in_set_conv_nth)
    have "i \<le> j"
    proof (rule ccontr)
      assume "\<not> i \<le> j"
      with assms(2) have "y \<in> set (takeWhile (\<lambda>x. x \<le> h) xs)"
        using j(2) by (metis nth_mem not_le takeWhile_nth)
      with y(2) show False by (auto dest: set_takeWhileD)
    qed
    with assms(1) j show ?thesis by (auto intro: sorted_nth_mono)
  qed
  with gt assms(3) show "xs ! i = Min {x \<in> set xs. h < x}"
    by (intro Min_eqI [symmetric]) auto
qed

lemma bisect_clockwise:
  assumes "sorted xs" "xs \<noteq> []"
  shows "xs ! (bisect_right xs h mod length xs) = clockwise (set xs) h"
proof (cases "bisect_right xs h < length xs")
  case True
  then have m: "xs ! bisect_right xs h = Min {x \<in> set xs. h < x}" "h < xs ! bisect_right xs h"
    using takeWhile_sorted_nth [OF assms(1), of "bisect_right xs h" h]
    by (auto simp: bisect_right_def)
  from True have "xs ! bisect_right xs h \<in> set xs" by (rule nth_mem)
  with m(2) have "\<exists>x \<in> set xs. h < x" by blast
  with m(1) True show ?thesis by (simp add: clockwise_def)
next
  case False
  then have len: "length (takeWhile (\<lambda>x. x \<le> h) xs) = length xs"
    using length_takeWhile_le [of "\<lambda>x. x \<le> h" xs] by (simp add: bisect_right_def)
  then have "takeWhile (\<lambda>x. x \<le> h) xs = xs"
    by (metis takeWhile_eq_take take_all order_refl)
  then have all: "\<forall>x \<in> set xs. x \<le> h" by (simp add: takeWhile_eq_all_conv)
  have "hd xs = Min (set xs)"
    using assms by (cases xs) (auto intro!: Min_eqI [symmetric])
  moreover have "\<not> (\<exists>x \<in> set xs. h < x)" using all by (auto simp: not_less)
  ultimately show ?thesis
    using len assms(2) by (simp add: clockwise_def bisect_right_def hd_conv_nth)
qed

lemma ring_get_node_clockwise:
  assumes "ring_ok R" "cr_ring R \<noteq> []"
  shows "\<exists>n. dict_get (cr_ring R) (clockwise (fst ` set (cr_ring R)) (hash k)) = Some n \<and>
    ring_get_node hash R k = Inr n"
proof -
  let ?ks = "cr_sorted_keys R"
  have ks: "sorted ?ks" "set ?ks = fst ` set (cr_ring R)" "?ks \<noteq> []"
    using assms by (auto simp: ring_ok_def) (metis map_is_Nil_conv set_empty set_sort)
  let ?i = "bisect_right ?ks (hash k) mod length ?ks"
  have pos: "?ks ! ?i = clockwise (fst ` set (cr_ring R)) (hash k)"
    using bisect_clockwise [OF ks(1,3)] ks(2) by simp
  have "?i < length ?ks" using ks(3) by simp
  then have "?ks ! ?i \<in> fst ` set (cr_ring R)" unfolding ks(2) [symmetric] by (rule nth_mem)
  then obtain n where "dict_get (cr_ring R) (?ks ! ?i) = Some n"
    by (metis map_of_eq_None_iff not_None_eq)
  with assms(2) pos show ?thesis by (simp add: ring_get_node_def)
qed

text \<open>The positions of a node's virtual nodes, and what adding or removing the node does to the ring.\<close>

definition vpos :: "(string \<Rightarrow> int) \<Rightarrow> ring \<Rightarrow> string \<Rightarrow> int set" where
  "vpos hash R node = (\<lambda>i. hash (vnode node i)) ` {0..<cr_replicas R}"

lemma map_of_fold_put:
  "map_of (fold (\<lambda>i. dict_put (f i) v) is d) k = (if k \<in> f ` set is then Some v else map_of d k)"
  by (induction "is" arbitrary: d) (auto simp: map_of_dict_put)

lemma map_of_fold_pop:
  "map_of (fold (\<lambda>i. dict_pop (f i)) is d) k = (if k \<in> f ` set is then None else map_of d k)"
  by (induction "is" arbitrary: d) (auto simp: map_of_dict_pop)

lemma ring_add_get:
  "dict_get (cr_ring (ring_add_node hash node R)) p =
     (if p \<in> vpos hash R node then Some node else dict_get (cr_ring R) p)"
  by (simp add: ring_add_node_def Let_def map_of_fold_put vpos_def)

lemma ring_remove_get:
  "dict_get (cr_ring (ring_remove_node hash node R)) p =
     (if p \<in> vpos hash R node then None else dict_get (cr_ring R) p)"
  by (simp add: ring_remove_node_def Let_def map_of_fold_pop vpos_def)

lemma dict_ok_fold_put: "dict_ok d \<Longrightarrow> dict_ok (fold (\<lambda>i. dict_put (f i) v) is d)"
  by (induction "is" arbitrary: d) (simp_all add: distinct_update)

lemma dict_ok_fold_pop: "dict_ok d \<Longrightarrow> dict_ok (fold (\<lambda>i. dict_pop (f i)) is d)"
  by (induction "is" arbitrary: d) (simp_all add: distinct_delete)

lemma ring_ok_new: "ring_ok (new_ring n)"
  by (simp add: ring_ok_def new_ring_def)

lemma ring_ok_add: "ring_ok R \<Longrightarrow> ring_ok (ring_add_node hash node R)"
  by (simp add: ring_ok_def ring_add_node_def Let_def dict_ok_fold_put)

lemma ring_ok_remove: "ring_ok R \<Longrightarrow> ring_ok (ring_remove_node hash node R)"
  by (simp add: ring_ok_def ring_remove_node_def Let_def dict_ok_fold_pop)

lemma ring_keys: "fst ` set (cr_ring R) = dom (dict_get (cr_ring R))"
  by (simp add: dom_map_of_conv_image_fst)

lemma ring_keys_add:
  "fst ` set (cr_ring (ring_add_node hash node R)) = fst ` set (cr_ring R) \<union> vpos hash R node"
  unfolding ring_keys by (auto simp: ring_add_get split: if_splits)

lemma ring_keys_remove:
  "fst ` set (cr_ring (ring_remove_node hash node R)) = fst ` set (cr_ring R) - vpos hash R node"
  unfolding ring_keys by (auto simp: ring_remove_get split: if_splits)

lemma clockwise_in: "finite ks \<Longrightarrow> ks \<noteq> {} \<Longrightarrow> clockwise ks h \<in> ks"
proof -
  assume f: "finite ks" "ks \<noteq> {}"
  have "\<exists>x \<in> ks. h < x \<Longrightarrow> Min {x \<in> ks. h < x} \<in> {x \<in> ks. h < x}"
    using f(1) by (intro Min_in) auto
  with f show ?thesis by (auto simp: clockwise_def)
qed

text \<open>Positions added to a ring only take over keys: the owner stays, or is a new position.\<close>

lemma Min_subset_eq: "finite B \<Longrightarrow> A \<subseteq> B \<Longrightarrow> Min B \<in> A \<Longrightarrow> Min A = (Min B :: int)"
  by (intro Min_eqI) (auto intro: finite_subset)

lemma clockwise_union:
  assumes "finite ks" "finite vs" "clockwise (ks \<union> vs) h \<notin> vs"
  shows "clockwise (ks \<union> vs) h = clockwise ks h"
proof (cases "\<exists>x \<in> ks \<union> vs. h < x")
  case True
  let ?A = "{x \<in> ks. h < x}" and ?B = "{x \<in> ks \<union> vs. h < x}"
  from True have c: "clockwise (ks \<union> vs) h = Min ?B" by (simp add: clockwise_def)
  have "Min ?B \<in> ?B" using assms(1,2) True by (intro Min_in) auto
  with assms(3) c have m: "Min ?B \<in> ?A" by auto
  have "Min ?A = Min ?B"
    by (rule Min_subset_eq) (use assms m in auto)
  with m c show ?thesis by (auto simp: clockwise_def)
next
  case False
  then have c: "clockwise (ks \<union> vs) h = Min (ks \<union> vs)" by (auto simp: clockwise_def)
  show ?thesis
  proof (cases "ks \<union> vs = {}")
    case False
    with assms(1,2) have "Min (ks \<union> vs) \<in> ks \<union> vs" by (intro Min_in) auto
    with assms(3) c have m: "Min (ks \<union> vs) \<in> ks" by auto
    have "Min ks = Min (ks \<union> vs)"
      by (rule Min_subset_eq) (use assms m in auto)
    with c \<open>\<not> (\<exists>x \<in> ks \<union> vs. h < x)\<close> show ?thesis by (auto simp: clockwise_def)
  qed simp
qed

lemma ring_add_only_moves_to_new:
  assumes "ring_ok R" "ring_get_node hash R k = Inr n"
  shows "ring_get_node hash (ring_add_node hash node R) k \<in> {Inr n, Inr node}"
proof -
  let ?R = "ring_add_node hash node R" and ?ks = "fst ` set (cr_ring R)"
  let ?vs = "vpos hash R node"
  from assms(2) have ne: "cr_ring R \<noteq> []" by (auto simp: ring_get_node_def)
  then have ne': "cr_ring ?R \<noteq> []" using ring_keys_add [of hash node R] by auto
  from ring_get_node_clockwise [OF ring_ok_add [OF assms(1)] ne', of hash k]
  obtain m where m: "dict_get (cr_ring ?R) (clockwise (?ks \<union> ?vs) (hash k)) = Some m"
    "ring_get_node hash ?R k = Inr m" unfolding ring_keys_add by blast
  show ?thesis
  proof (cases "clockwise (?ks \<union> ?vs) (hash k) \<in> ?vs")
    case True
    with m show ?thesis by (simp add: ring_add_get)
  next
    case False
    have "finite ?vs" by (simp add: vpos_def)
    with False have "clockwise (?ks \<union> ?vs) (hash k) = clockwise ?ks (hash k)"
      by (intro clockwise_union) auto
    with m False have "dict_get (cr_ring R) (clockwise ?ks (hash k)) = Some m"
      by (simp add: ring_add_get)
    with ring_get_node_clockwise [OF assms(1) ne, of hash k] assms(2) m(2) show ?thesis by auto
  qed
qed

text \<open>Without colliding positions, removing a node undoes adding it.\<close>

lemma ring_remove_add:
  assumes "ring_ok R" "vpos hash R node \<inter> fst ` set (cr_ring R) = {}" "cr_ring R \<noteq> []"
  shows "ring_get_node hash (ring_remove_node hash node (ring_add_node hash node R)) k =
    ring_get_node hash R k"
proof -
  let ?R = "ring_remove_node hash node (ring_add_node hash node R)"
  have vp: "vpos hash (ring_add_node hash node R) node = vpos hash R node"
    by (simp add: vpos_def ring_add_node_def Let_def)
  have keys: "fst ` set (cr_ring ?R) = fst ` set (cr_ring R)"
    using assms(2) by (auto simp: ring_keys_remove ring_keys_add vp)
  with assms(3) have ne: "cr_ring ?R \<noteq> []" by (metis image_is_empty set_empty)
  have get: "dict_get (cr_ring ?R) p = dict_get (cr_ring R) p" for p
    using assms(2) by (auto simp: ring_remove_get ring_add_get vp map_of_eq_None_iff)
      (metis (no_types, lifting) assms(2) disjoint_iff map_of_eq_None_iff)
  from ring_get_node_clockwise [OF ring_ok_remove [OF ring_ok_add [OF assms(1)]] ne, of hash k]
    ring_get_node_clockwise [OF assms(1,3), of hash k]
  show ?thesis unfolding keys get by auto
qed

subsection \<open>Properties\<close>

text \<open>
  Rendezvous placement disturbs no more than it must: removing a node that does not hold the
  key leaves the key where it is, and adding a node moves the key nowhere but to the new node.
\<close>

theorem hrw_minimal_disruption:
  assumes "nonneg_hash hash" "distinct nodes" "hrw_get_node hash nodes k = Inr n"
  shows "(m \<noteq> n \<longrightarrow> hrw_get_node hash (hrw_remove_node m nodes) k = Inr n) \<and>
    hrw_get_node hash (hrw_add_node m nodes) k \<in> {Inr n, Inr m}"
  using hrw_remove_other [OF assms] hrw_add_only_moves_to_new [OF assms(1,3)] by blast

lemma hrw_minimal_disruption_witness:
  "hrw_get_node (\<lambda>s. int (length s)) [''a'', ''bcd'', ''ef''] ''k'' = Inr ''bcd'' \<and>
   hrw_get_node (\<lambda>s. int (length s)) (hrw_remove_node ''ef'' [''a'', ''bcd'', ''ef'']) ''k'' = Inr ''bcd''"
proof -
  have "nonneg_hash (\<lambda>s. int (length s))" "distinct [''a'', ''bcd'', ''ef'']"
    "hrw_get_node (\<lambda>s. int (length s)) [''a'', ''bcd'', ''ef''] ''k'' = Inr ''bcd''"
    by (simp_all add: nonneg_hash_def hrw_get_node_def hrw_score_def)
  from hrw_minimal_disruption [OF this, of "''ef''"] this(3) show ?thesis by simp
qed

text \<open>
  On a ring built by adding and removing nodes, a lookup returns the node of the first virtual
  position clockwise from the key's hash, wrapping around; adding a node moves keys only to it, and
  when its positions collide with none on the ring, removing it again restores every lookup.
\<close>

theorem ring_consistent:
  assumes "ring_ok R" "cr_ring R \<noteq> []"
  shows "(\<exists>n. dict_get (cr_ring R) (clockwise (fst ` set (cr_ring R)) (hash k)) = Some n \<and>
      ring_get_node hash R k = Inr n \<and>
      ring_get_node hash (ring_add_node hash node R) k \<in> {Inr n, Inr node}) \<and>
    (vpos hash R node \<inter> fst ` set (cr_ring R) = {} \<longrightarrow>
      ring_get_node hash (ring_remove_node hash node (ring_add_node hash node R)) k =
      ring_get_node hash R k) \<and>
    ring_ok (ring_add_node hash node R) \<and> ring_ok (ring_remove_node hash node R)"
proof -
  from ring_get_node_clockwise [OF assms, of hash k] obtain n where
    n: "dict_get (cr_ring R) (clockwise (fst ` set (cr_ring R)) (hash k)) = Some n"
    "ring_get_node hash R k = Inr n" by blast
  note moves = ring_add_only_moves_to_new [OF assms(1) n(2), of node]
  show ?thesis
    using n moves ring_remove_add [OF assms(1) _ assms(2)] ring_ok_add [OF assms(1)]
      ring_ok_remove [OF assms(1)] by simp
qed

lemma ring_consistent_witness:
  "ring_get_node (\<lambda>s. 7) (ring_add_node (\<lambda>s. 7) ''b'' (ring_add_node (\<lambda>s. 7) ''a'' (new_ring 2))) ''k''
    \<in> {Inr ''a'', Inr ''b''}"
proof -
  let ?R = "ring_add_node (\<lambda>s. 7) ''a'' (new_ring 2)"
  have ok: "ring_ok ?R" by (intro ring_ok_add ring_ok_new)
  have ne: "cr_ring ?R \<noteq> []" "ring_get_node (\<lambda>s. 7) ?R ''k'' = Inr ''a''"
    by (simp_all add: ring_add_node_def new_ring_def Let_def upt_rec ring_get_node_def bisect_right_def)
  from ring_consistent [OF ok ne(1), of "\<lambda>s. 7" "''k''" "''b''"] ne(2) show ?thesis by auto
qed

end
