(* ===== verification/Router.thy ===== *)
theory Router
  imports Lifecycle Hash_Ring
begin

text \<open>
  \<open>sharding/router.py\<close> and \<open>sharding/placement.py\<close>: the shard router over the in-memory metadata
  store, with its time-to-live cache of shard references per namespace and its rendezvous hash per
  namespace. As in the program's wiring, the membership manager (when there is one,
  \<open>r_membership\<close>) works on the router's own metadata store. The clock is an argument \<open>now\<close>;
  \<open>sha\<close> is the SHA-256 hex digest and \<open>hash\<close> the murmur hash of the rendezvous scores.
\<close>

subsection \<open>Routing decisions\<close>

datatype RouteType = LOCAL | REMOTE | UNAVAILABLE

fun route_type_value :: "RouteType \<Rightarrow> string" where
  "route_type_value LOCAL = ''LOCAL''"
| "route_type_value REMOTE = ''REMOTE''"
| "route_type_value UNAVAILABLE = ''UNAVAILABLE''"

record routing_decision =
  rd_namespace :: string
  rd_shard_id :: "string option"
  rd_shard_state :: "string option"
  rd_owner_node_id :: "string option"
  rd_local_node_id :: "string option"
  rd_target :: "string option"
  rd_route_type :: RouteType
  rd_owner_membership_state :: "string option"
  rd_reason :: "string option"

definition decision_to_dict :: "routing_decision \<Rightarrow> json" where
  "decision_to_dict d = JObj
     [(''namespace'', JStr (rd_namespace d)),
      (''shard_id'', opt_json JStr (rd_shard_id d)),
      (''shard_state'', opt_json JStr (rd_shard_state d)),
      (''owner_node_id'', opt_json JStr (rd_owner_node_id d)),
      (''local_node_id'', opt_json JStr (rd_local_node_id d)),
      (''target'', opt_json JStr (rd_target d)),
      (''route_type'', JStr (route_type_value (rd_route_type d))),
      (''owner_membership_state'', opt_json JStr (rd_owner_membership_state d)),
      (''reason'', opt_json JStr (rd_reason d))]"

subsection \<open>The router's state and its caches\<close>

record router =
  r_etcd :: etcd
  r_cache_ttl :: real
  r_membership :: bool
  r_cache :: "(string, time \<times> sref list) dict"
  r_hrw_cache :: "(string, string list) dict"

definition new_router :: "etcd \<Rightarrow> real \<Rightarrow> bool \<Rightarrow> router" where
  "new_router st ttl membership =
     \<lparr>r_etcd = st, r_cache_ttl = ttl, r_membership = membership, r_cache = [], r_hrw_cache = []\<rparr>"

definition readable_states :: "ShardState set" where
  "readable_states = {ShardState.ACTIVE, ShardState.DRAINING}"

definition state_error :: "shard \<Rightarrow> exn" where
  "state_error s =
     (if sh_state s = ShardState.CREATING then ShardCreatingError (sh_namespace s) (sh_id s)
      else if sh_state s = ShardState.DRAINING then ShardDrainingError (sh_namespace s) (sh_id s)
      else ShardOfflineError (sh_namespace s) (sh_id s) (shard_state_value (sh_state s)))"

definition shard_key :: "(string \<Rightarrow> string) \<Rightarrow> string \<Rightarrow> string \<Rightarrow> string" where
  "shard_key sha ns rid = sha (ns @ '':'' @ rid)"

definition get_shards_cached :: "time \<Rightarrow> string \<Rightarrow> router \<Rightarrow> sref list \<times> router" where
  "get_shards_cached now ns rt =
     (let miss = (let shards = list_by_namespace (r_etcd rt) ns
                  in (shards, rt\<lparr>r_cache := dict_put ns (now, shards) (r_cache rt)\<rparr>))
      in case dict_get (r_cache rt) ns of
           Some (ts, shards) \<Rightarrow> if now - ts < r_cache_ttl rt then (shards, rt) else miss
         | None \<Rightarrow> miss)"

definition invalidate :: "string \<Rightarrow> router \<Rightarrow> router" where
  "invalidate ns rt =
     rt\<lparr>r_cache := dict_pop ns (r_cache rt), r_hrw_cache := dict_pop ns (r_hrw_cache rt)\<rparr>"

text \<open>The rendezvous hash of a namespace, rebuilt when the set of ids is not the cached one.\<close>

definition hrw_sync :: "string \<Rightarrow> string list \<Rightarrow> router \<Rightarrow> string list \<times> router" where
  "hrw_sync ns ids rt =
     (let rebuilt = (ids, rt\<lparr>r_hrw_cache := dict_put ns ids (r_hrw_cache rt)\<rparr>)
      in case dict_get (r_hrw_cache rt) ns of
           None \<Rightarrow> rebuilt
         | Some nodes \<Rightarrow> if set ids \<noteq> set nodes then rebuilt else (nodes, rt))"

definition select_shard ::
    "(string \<Rightarrow> string) \<Rightarrow> (string \<Rightarrow> int) \<Rightarrow> time \<Rightarrow> string \<Rightarrow> string \<Rightarrow> router \<Rightarrow>
     sref res \<times> router" where
  "select_shard sha hash now ns rid rt =
     (let (shards, rt1) = get_shards_cached now ns rt; h = e_heap (r_etcd rt1) in
      if shards = [] then (Inl (KeyError (''no shards for namespace '' @ py_repr ns)), rt1)
      else
        (let active = filter (\<lambda>r. sh_id (h r) \<noteq> []) shards;
             (hrw, rt2) = hrw_sync ns (map (\<lambda>r. sh_id (h r)) active) rt1
         in case hrw_get_node hash hrw (shard_key sha ns rid) of
              Inl e \<Rightarrow> (Inl e, rt2)
            | Inr sid \<Rightarrow>
                (case find (\<lambda>r. sh_id (h r) = sid) active of
                   Some r \<Rightarrow> (Inr r, rt2)
                 | None \<Rightarrow>
                     (case active of
                        [] \<Rightarrow> (Inl (OtherError ''IndexError'' ''list index out of range''), rt2)
                      | r # _ \<Rightarrow> (Inr r, rt2)))))"

definition validate_owner :: "router \<Rightarrow> shard \<Rightarrow> unit res" where
  "validate_owner rt s =
     (if r_membership rt then
        (case require_owner s of Inl e \<Rightarrow> Inl e | Inr owner \<Rightarrow> validate_node (r_etcd rt) owner)
      else Inr ())"

subsection \<open>Enforcing routes\<close>

definition route ::
    "(string \<Rightarrow> string) \<Rightarrow> (string \<Rightarrow> int) \<Rightarrow> time \<Rightarrow> string \<Rightarrow> string \<Rightarrow> router \<Rightarrow>
     sref res \<times> router" where
  "route sha hash now ns rid rt =
     (case select_shard sha hash now ns rid rt of
        (Inl e, rt1) \<Rightarrow> (Inl e, rt1)
      | (Inr r, rt1) \<Rightarrow>
          (let s = e_heap (r_etcd rt1) r in
           if sh_state s \<notin> readable_states then (Inl (state_error s), rt1)
           else (case validate_owner rt1 s of Inl e \<Rightarrow> (Inl e, rt1) | Inr _ \<Rightarrow> (Inr r, rt1))))"

definition route_write ::
    "(string \<Rightarrow> string) \<Rightarrow> (string \<Rightarrow> int) \<Rightarrow> time \<Rightarrow> string \<Rightarrow> string \<Rightarrow> string option \<Rightarrow> router \<Rightarrow>
     sref res \<times> router" where
  "route_write sha hash now ns rid owner_node rt =
     (case select_shard sha hash now ns rid rt of
        (Inl e, rt1) \<Rightarrow> (Inl e, rt1)
      | (Inr r, rt1) \<Rightarrow>
          (let s = e_heap (r_etcd rt1) r in
           if sh_state s \<noteq> ShardState.ACTIVE then (Inl (state_error s), rt1)
           else (case validate_owner rt1 s of
               Inl e \<Rightarrow> (Inl e, rt1)
             | Inr _ \<Rightarrow>
                 (case require_owner s of
                    Inl e \<Rightarrow> (Inl e, rt1)
                  | Inr owner \<Rightarrow>
                      (case owner_node of
                         None \<Rightarrow> (Inr r, rt1)
                       | Some l \<Rightarrow>
                           if owner \<noteq> l then
                             (Inl (OwnershipMismatchError ns (sh_id s) owner l), rt1)
                           else (Inr r, rt1))))))"

definition route_for_query :: "time \<Rightarrow> string \<Rightarrow> router \<Rightarrow> sref list \<times> router" where
  "route_for_query now ns rt =
     (let (shards, rt1) = get_shards_cached now ns rt
      in (filter (\<lambda>r. sh_state (e_heap (r_etcd rt1) r) \<in> readable_states) shards, rt1))"

fun writable_loop :: "heap \<Rightarrow> string \<Rightarrow> string option \<Rightarrow> sref list \<Rightarrow> sref list \<Rightarrow> sref list res" where
  "writable_loop h ns owner_node [] out = Inr out"
| "writable_loop h ns owner_node (r # rs) out =
     (if sh_state (h r) \<noteq> ShardState.ACTIVE then Inl (state_error (h r))
      else (case require_owner (h r) of
          Inl e \<Rightarrow> Inl e
        | Inr owner \<Rightarrow>
            (case owner_node of
               None \<Rightarrow> writable_loop h ns owner_node rs (out @ [r])
             | Some l \<Rightarrow>
                 if owner \<noteq> l then Inl (OwnershipMismatchError ns (sh_id (h r)) owner l)
                 else writable_loop h ns owner_node rs (out @ [r]))))"

definition writable :: "time \<Rightarrow> string \<Rightarrow> string option \<Rightarrow> router \<Rightarrow> sref list res \<times> router" where
  "writable now ns owner_node rt =
     (let (shards, rt1) = get_shards_cached now ns rt
      in (writable_loop (e_heap (r_etcd rt1)) ns owner_node shards [], rt1))"

subsection \<open>Side-effect-free decisions\<close>

definition select_or_raise ::
    "(string \<Rightarrow> string) \<Rightarrow> (string \<Rightarrow> int) \<Rightarrow> time \<Rightarrow> string \<Rightarrow> string \<Rightarrow> router \<Rightarrow>
     sref res \<times> router" where
  "select_or_raise sha hash now ns rid rt =
     (case select_shard sha hash now ns rid rt of
        (Inl (KeyError m), rt1) \<Rightarrow> (Inl (PlacementError ns (exn_str (KeyError m))), rt1)
      | other \<Rightarrow> other)"

text \<open>
  The membership part of a decision: the owner's state and the reason why it cannot serve.
  \<open>validate_node\<close> raises nothing but the two errors the code catches.
\<close>

definition owner_check :: "etcd \<Rightarrow> string \<Rightarrow> string \<Rightarrow> string \<Rightarrow> string option \<times> string option" where
  "owner_check st owner unknown removed =
     (case validate_node st owner of
        Inr _ \<Rightarrow> (membership_state st owner, None)
      | Inl (UnknownNodeError _ _) \<Rightarrow> (Some ''unknown'', Some unknown)
      | Inl _ \<Rightarrow> (Some ''REMOVED'', Some removed))"

definition mode_reason :: "string \<Rightarrow> ShardState \<Rightarrow> string option" where
  "mode_reason mode state =
     (if mode = ''read'' then
        (if state \<notin> readable_states then
           Some (''shard state='' @ shard_state_value state
             @ '' is not readable (requires ACTIVE/DRAINING)'')
         else None)
      else if mode = ''write'' then
        (if state \<noteq> ShardState.ACTIVE then
           Some (''shard state='' @ shard_state_value state
             @ '' is not writable (requires ACTIVE); ''
             @ ''DRAINING/OFFLINE/CREATING never become writable silently'')
         else None)
      else None)"

definition decision_for ::
    "router \<Rightarrow> string \<Rightarrow> shard \<Rightarrow> string option \<Rightarrow> string \<Rightarrow> routing_decision" where
  "decision_for rt ns s local mode =
     (let owner = (if sh_node_id s = [] then None else Some (sh_node_id s));
          reason0 = mode_reason mode (sh_state s);
          reason1 = (if reason0 = None \<and> owner = None then Some ''shard has no primary owner''
                     else reason0);
          (owner_state, reason) =
            (if reason1 = None \<and> r_membership rt then
               owner_check (r_etcd rt) (sh_node_id s)
                 (''primary owner '' @ py_repr (sh_node_id s) @ '' is not a known cluster member'')
                 (''primary owner '' @ py_repr (sh_node_id s) @ '' is REMOVED from the cluster; ''
                  @ ''ownership is never transferred automatically'')
             else (None, reason1));
          rtype = (if reason \<noteq> None then UNAVAILABLE
                   else if local \<noteq> None \<and> owner = local then LOCAL else REMOTE)
      in \<lparr>rd_namespace = ns, rd_shard_id = Some (sh_id s),
          rd_shard_state = Some (shard_state_value (sh_state s)), rd_owner_node_id = owner,
          rd_local_node_id = local, rd_target = owner, rd_route_type = rtype,
          rd_owner_membership_state = owner_state, rd_reason = reason\<rparr>)"

definition route_decision ::
    "string \<Rightarrow> (string \<Rightarrow> string) \<Rightarrow> (string \<Rightarrow> int) \<Rightarrow> time \<Rightarrow> string \<Rightarrow> string \<Rightarrow>
     string option \<Rightarrow> router \<Rightarrow> routing_decision res \<times> router" where
  "route_decision mode sha hash now ns rid local rt =
     (case select_or_raise sha hash now ns rid rt of
        (Inl e, rt1) \<Rightarrow> (Inl e, rt1)
      | (Inr r, rt1) \<Rightarrow> (Inr (decision_for rt1 ns (e_heap (r_etcd rt1) r) local mode), rt1))"

definition place ::
    "(string \<Rightarrow> string) \<Rightarrow> (string \<Rightarrow> int) \<Rightarrow> time \<Rightarrow> string \<Rightarrow> string \<Rightarrow> string option \<Rightarrow>
     router \<Rightarrow> routing_decision res \<times> router" where
  "place = route_decision ''any''"

definition route_read_decision ::
    "(string \<Rightarrow> string) \<Rightarrow> (string \<Rightarrow> int) \<Rightarrow> time \<Rightarrow> string \<Rightarrow> string \<Rightarrow> string option \<Rightarrow>
     router \<Rightarrow> routing_decision res \<times> router" where
  "route_read_decision = route_decision ''read''"

definition route_write_decision ::
    "(string \<Rightarrow> string) \<Rightarrow> (string \<Rightarrow> int) \<Rightarrow> time \<Rightarrow> string \<Rightarrow> string \<Rightarrow> string option \<Rightarrow>
     router \<Rightarrow> routing_decision res \<times> router" where
  "route_write_decision = route_decision ''write''"

definition query_route ::
    "time \<Rightarrow> string \<Rightarrow> string option \<Rightarrow> router \<Rightarrow> routing_decision list \<times> router" where
  "query_route now ns local rt =
     (let (shards, rt1) = get_shards_cached now ns rt; h = e_heap (r_etcd rt1)
      in (map (\<lambda>r. decision_for rt1 ns (h r) local ''read'')
            (filter (\<lambda>r. sh_state (h r) \<in> readable_states) shards), rt1))"

definition shard_placement :: "router \<Rightarrow> shard \<Rightarrow> string option \<Rightarrow> json" where
  "shard_placement rt s local =
     (let owner = (if sh_node_id s = [] then None else Some (sh_node_id s));
          own_type = (if local \<noteq> None \<and> owner = local then LOCAL else REMOTE);
          (owner_state, reason) =
            (if \<not> r_membership rt then (None, None)
             else if owner = None then (None, Some ''shard has no primary owner'')
             else owner_check (r_etcd rt) (sh_node_id s)
                    ''primary owner is not a known cluster member''
                    ''primary owner is REMOVED from the cluster'');
          rtype = (if reason \<noteq> None then UNAVAILABLE else own_type)
      in JObj
        [(''shard_id'', JStr (sh_id s)),
         (''state'', JStr (shard_state_value (sh_state s))),
         (''primary_owner'', opt_json JStr owner),
         (''replicas'', JList (map JStr (sh_replicas s))),
         (''owner_membership_state'', opt_json JStr owner_state),
         (''route_type'', JStr (route_type_value rtype)),
         (''target'', opt_json JStr owner),
         (''reason'', opt_json JStr reason)])"

definition placement_view :: "router \<Rightarrow> string \<Rightarrow> string option \<Rightarrow> json" where
  "placement_view rt ns local = JObj
     [(''namespace'', JStr ns),
      (''local_node_id'', opt_json JStr local),
      (''shards'', JList (map (\<lambda>r. shard_placement rt (e_heap (r_etcd rt) r) local)
                    (list_by_namespace (r_etcd rt) ns)))]"

subsection \<open>Registration and the split\<close>

definition register_shard :: "sref \<Rightarrow> router \<Rightarrow> router" where
  "register_shard r rt =
     invalidate (sh_namespace (e_heap (r_etcd rt) r)) (rt\<lparr>r_etcd := etcd_put r (r_etcd rt)\<rparr>)"

text \<open>
  The children of a split take their ids and creation times from \<open>uuid4\<close> and the clock, here the
  arguments \<open>ua\<close>, \<open>ta\<close>, \<open>ub\<close>, \<open>tb\<close>. The callback is an argument that may use the store or raise.
\<close>

definition split_child :: "string \<Rightarrow> time \<Rightarrow> shard \<Rightarrow> string \<Rightarrow> int \<Rightarrow> shard" where
  "split_child uid now s suffix count =
     (new_shard uid now (sh_namespace s) (sh_node_id s @ suffix))
       \<lparr>sh_vector_count := count, sh_max_vectors := sh_max_vectors s\<rparr>"

definition maybe_split ::
    "string \<Rightarrow> time \<Rightarrow> string \<Rightarrow> time \<Rightarrow> sref \<Rightarrow>
     (sref \<Rightarrow> sref \<Rightarrow> sref \<Rightarrow> etcd \<Rightarrow> unit res \<times> etcd) option \<Rightarrow> router \<Rightarrow>
     sref list option res \<times> router" where
  "maybe_split ua ta ub tb r on_split rt =
     (let s = e_heap (r_etcd rt) r in
      if \<not> should_split s then (Inr None, rt)
      else
        (let count_a = sh_vector_count s div 2;
             (a, st1) = alloc (split_child ua ta s ''-a'' count_a) (r_etcd rt);
             (b, st2) = alloc (split_child ub tb s ''-b'' (sh_vector_count s - count_a)) st1;
             (x, st3) = (case on_split of None \<Rightarrow> (Inr (), st2) | Some f \<Rightarrow> f r a b st2)
         in case x of
              Inl e \<Rightarrow> (Inl e, rt\<lparr>r_etcd := st3\<rparr>)
            | Inr _ \<Rightarrow>
                (let st4 = etcd_put b (etcd_put a st3);
                     st5 = etcd_delete (sh_id (e_heap st4 r)) st4
                 in (Inr (Some [a, b]),
                     invalidate (sh_namespace (e_heap st5 r)) (rt\<lparr>r_etcd := st5\<rparr>)))))"

subsection \<open>Frames: routing reads the metadata store and never writes it\<close>

lemma get_shards_cached_frame [frame_simps]:
  "get_shards_cached now ns rt = (shards, rt') \<Longrightarrow>
     r_etcd rt' = r_etcd rt \<and> r_membership rt' = r_membership rt \<and>
     r_cache_ttl rt' = r_cache_ttl rt \<and> r_hrw_cache rt' = r_hrw_cache rt"
  by (auto simp: get_shards_cached_def Let_def split: option.splits if_splits)

lemma hrw_sync_frame [frame_simps]:
  "hrw_sync ns ids rt = (nodes, rt') \<Longrightarrow>
     r_etcd rt' = r_etcd rt \<and> r_membership rt' = r_membership rt \<and>
     r_cache_ttl rt' = r_cache_ttl rt \<and> r_cache rt' = r_cache rt \<and> set nodes = set ids"
  by (auto simp: hrw_sync_def Let_def split: option.splits if_splits)

lemma select_frame [frame_simps]:
  assumes "select_shard sha hash now ns rid rt = (x, rt')"
  shows "r_etcd rt' = r_etcd rt \<and> r_membership rt' = r_membership rt \<and>
    r_cache_ttl rt' = r_cache_ttl rt"
  using assms
  by (auto simp: select_shard_def Let_def dest!: get_shards_cached_frame hrw_sync_frame
      split: prod.splits sum.splits option.splits list.splits if_splits)

lemma select_or_raise_frame [frame_simps]:
  assumes "select_or_raise sha hash now ns rid rt = (x, rt')"
  shows "r_etcd rt' = r_etcd rt \<and> r_membership rt' = r_membership rt \<and>
    r_cache_ttl rt' = r_cache_ttl rt"
  using assms
  by (auto simp: select_or_raise_def dest!: select_frame split: prod.splits sum.splits exn.splits)

subsection \<open>What selection returns\<close>

abbreviation cached_shards :: "time \<Rightarrow> string \<Rightarrow> router \<Rightarrow> sref list" where
  "cached_shards now ns rt \<equiv> fst (get_shards_cached now ns rt)"

lemma find_id: "sid \<in> (\<lambda>r. f r) ` set xs \<Longrightarrow> \<exists>r. find (\<lambda>r. f r = sid) xs = Some r"
  by (induction xs) auto

lemma find_SomeD: "find P xs = Some r \<Longrightarrow> r \<in> set xs \<and> P r"
  by (induction xs) (auto split: if_splits)

text \<open>The selected shard is listed, has an id, and its score is maximal among those that do.\<close>

lemma select_ok:
  assumes "nonneg_hash hash" "select_shard sha hash now ns rid rt = (Inr r, rt')"
  shows "r \<in> set (cached_shards now ns rt)" "sh_id (e_heap (r_etcd rt) r) \<noteq> []"
    "\<forall>q \<in> set (cached_shards now ns rt). sh_id (e_heap (r_etcd rt) q) \<noteq> [] \<longrightarrow>
       hrw_score hash (shard_key sha ns rid) (sh_id (e_heap (r_etcd rt) q)) \<le>
       hrw_score hash (shard_key sha ns rid) (sh_id (e_heap (r_etcd rt) r))"
proof -
  obtain shards rt1 where c: "get_shards_cached now ns rt = (shards, rt1)" by force
  note f1 = get_shards_cached_frame [OF c]
  let ?h = "e_heap (r_etcd rt)"
  let ?active = "filter (\<lambda>r. sh_id (?h r) \<noteq> []) shards"
  obtain hrw rt2 where y: "hrw_sync ns (map (\<lambda>r. sh_id (?h r)) ?active) rt1 = (hrw, rt2)" by force
  have nodes: "set hrw = (\<lambda>r. sh_id (?h r)) ` set ?active"
    using hrw_sync_frame [OF y] by simp
  from assms(2) c y f1 obtain sid where sid: "hrw_get_node hash hrw (shard_key sha ns rid) = Inr sid"
    by (auto simp: select_shard_def Let_def split: if_splits sum.splits)
  from hrw_get_node_in [OF sid] nodes obtain q where
    q: "find (\<lambda>r. sh_id (?h r) = sid) ?active = Some q"
    using find_id [of sid "\<lambda>r. sh_id (?h r)" ?active] by auto
  have r: "r = q"
    using assms(2) c y f1 sid q by (auto simp: select_shard_def Let_def split: if_splits)
  have rs: "r \<in> set ?active" "sh_id (?h r) = sid"
    using find_SomeD [OF q] r by auto
  have "hrw \<noteq> []" using sid by (auto simp: hrw_get_node_def)
  from hrw_get_node_max [OF assms(1) this, of "shard_key sha ns rid"] sid
  have max: "\<forall>x \<in> set hrw. hrw_score hash (shard_key sha ns rid) x \<le>
      hrw_score hash (shard_key sha ns rid) sid" by auto
  from rs c show "r \<in> set (cached_shards now ns rt)" "sh_id (?h r) \<noteq> []" by auto
  from max rs c show "\<forall>q \<in> set (cached_shards now ns rt). sh_id (?h q) \<noteq> [] \<longrightarrow>
      hrw_score hash (shard_key sha ns rid) (sh_id (?h q)) \<le>
      hrw_score hash (shard_key sha ns rid) (sh_id (?h r))"
    unfolding nodes by auto
qed

lemma select_total:
  assumes "nonneg_hash hash" "q \<in> set (cached_shards now ns rt)" "sh_id (e_heap (r_etcd rt) q) \<noteq> []"
  shows "\<exists>r rt'. select_shard sha hash now ns rid rt = (Inr r, rt')"
proof -
  obtain shards rt1 where c: "get_shards_cached now ns rt = (shards, rt1)" by force
  note f1 = get_shards_cached_frame [OF c]
  let ?h = "e_heap (r_etcd rt)"
  let ?active = "filter (\<lambda>r. sh_id (?h r) \<noteq> []) shards"
  obtain hrw rt2 where y: "hrw_sync ns (map (\<lambda>r. sh_id (?h r)) ?active) rt1 = (hrw, rt2)" by force
  have nodes: "set hrw = (\<lambda>r. sh_id (?h r)) ` set ?active"
    using hrw_sync_frame [OF y] by simp
  have ne: "shards \<noteq> []" "hrw \<noteq> []" using assms(2,3) c nodes by auto
  from hrw_get_node_total [OF assms(1) ne(2)] obtain sid where
    sid: "hrw_get_node hash hrw (shard_key sha ns rid) = Inr sid" by blast
  from hrw_get_node_in [OF sid] nodes obtain r where
    "find (\<lambda>r. sh_id (?h r) = sid) ?active = Some r"
    using find_id [of sid "\<lambda>r. sh_id (?h r)" ?active] by auto
  with c y f1 sid ne show ?thesis by (simp add: select_shard_def Let_def)
qed

text \<open>
  Selection reads the ids and the listing of the namespace and nothing else of the metadata, so a
  change of state, owner, replicas or version moves no record.
\<close>

lemma get_shards_cached_metadata:
  assumes "list_by_namespace st' ns = list_by_namespace (r_etcd rt) ns"
  shows "get_shards_cached now ns (rt\<lparr>r_etcd := st'\<rparr>) =
    (let (shards, rt1) = get_shards_cached now ns rt in (shards, rt1\<lparr>r_etcd := st'\<rparr>))"
  using assms by (auto simp: get_shards_cached_def Let_def split: option.splits prod.splits)

lemma hrw_sync_metadata:
  "hrw_sync ns ids (rt\<lparr>r_etcd := st'\<rparr>) =
    (let (nodes, rt1) = hrw_sync ns ids rt in (nodes, rt1\<lparr>r_etcd := st'\<rparr>))"
  by (auto simp: hrw_sync_def Let_def split: option.splits)

lemma select_metadata:
  assumes "list_by_namespace st' ns = list_by_namespace (r_etcd rt) ns"
    and ids: "\<And>r. sh_id (e_heap st' r) = sh_id (e_heap (r_etcd rt) r)"
  shows "fst (select_shard sha hash now ns rid (rt\<lparr>r_etcd := st'\<rparr>)) =
    fst (select_shard sha hash now ns rid rt)"
proof -
  obtain shards rt1 where c: "get_shards_cached now ns rt = (shards, rt1)" by force
  have c': "get_shards_cached now ns (rt\<lparr>r_etcd := st'\<rparr>) = (shards, rt1\<lparr>r_etcd := st'\<rparr>)"
    using get_shards_cached_metadata [OF assms(1), of now] c by simp
  note f1 = get_shards_cached_frame [OF c]
  let ?ids = "map (\<lambda>r. sh_id (e_heap (r_etcd rt) r))
    (filter (\<lambda>r. sh_id (e_heap (r_etcd rt) r) \<noteq> []) shards)"
  obtain hrw rt2 where y: "hrw_sync ns ?ids rt1 = (hrw, rt2)" by force
  have y': "hrw_sync ns ?ids (rt1\<lparr>r_etcd := st'\<rparr>) = (hrw, rt2\<lparr>r_etcd := st'\<rparr>)"
    using hrw_sync_metadata [of ns ?ids st' rt1] y by simp
  show ?thesis
    using c c' f1 y y' ids
    by (auto simp: select_shard_def Let_def split: sum.splits option.splits list.splits)
qed

lemma transition_keeps_listing:
  assumes "wf_etcd st" "etcd_get st k = Some r" "lc_transition mem_ops r to st = (x, st')"
  shows "e_data st' = e_data st" "sh_id (e_heap st' q) = sh_id (e_heap st q)"
    "sh_namespace (e_heap st' q) = sh_namespace (e_heap st q)"
proof -
  have d: "dict_put (sh_id (e_heap st r)) r (e_data st) = e_data st"
    using wf_get [OF assms(1,2)] assms(2) by (simp add: etcd_get_def dict_put_same)
  show "e_data st' = e_data st" "sh_id (e_heap st' q) = sh_id (e_heap st q)"
    "sh_namespace (e_heap st' q) = sh_namespace (e_heap st q)"
    using assms(3) d
    by (auto simp: lc_transition_def Let_def shard_transition_ok split: sum.splits)
qed

lemma change_owner_keeps_listing:
  assumes "wf_etcd st" "etcd_get st k = Some r"
    "lc_change_owner mem_ops memb r new_owner replicas st = (x, st')"
  shows "e_data st' = e_data st" "sh_id (e_heap st' q) = sh_id (e_heap st q)"
    "sh_namespace (e_heap st' q) = sh_namespace (e_heap st q)"
proof -
  have d: "dict_put (sh_id (e_heap st r)) r (e_data st) = e_data st"
    using wf_get [OF assms(1,2)] assms(2) by (simp add: etcd_get_def dict_put_same)
  show "e_data st' = e_data st" "sh_id (e_heap st' q) = sh_id (e_heap st q)"
    "sh_namespace (e_heap st' q) = sh_namespace (e_heap st q)"
    using assms(3) d
    by (auto simp: lc_change_owner_def Let_def split: sum.splits if_splits)
qed

lemma listing_cong:
  assumes "e_data st' = e_data st" "\<And>q. sh_namespace (e_heap st' q) = sh_namespace (e_heap st q)"
  shows "list_by_namespace st' ns = list_by_namespace st ns"
  using assms by (simp add: list_by_namespace_def)

subsection \<open>Admission of reads and writes\<close>

lemma owner_check_ok:
  "snd (owner_check st owner u v) = None \<longleftrightarrow> known_member st owner"
  unfolding owner_check_def validate_node_def known_member_def
  by (auto split: option.splits)

lemma mode_reason_write: "mode_reason ''write'' state = None \<longleftrightarrow> state = ShardState.ACTIVE"
  by (simp add: mode_reason_def)

lemma mode_reason_read: "mode_reason ''read'' state = None \<longleftrightarrow> state \<in> readable_states"
  by (simp add: mode_reason_def)

lemma decision_available:
  "rd_route_type (decision_for rt ns s local mode) \<noteq> UNAVAILABLE \<longleftrightarrow>
     mode_reason mode (sh_state s) = None \<and> sh_node_id s \<noteq> [] \<and>
     (r_membership rt \<longrightarrow> known_member (r_etcd rt) (sh_node_id s))"
  using owner_check_ok [of "r_etcd rt" "sh_node_id s"
      "''primary owner '' @ py_repr (sh_node_id s) @ '' is not a known cluster member''"
      "''primary owner '' @ py_repr (sh_node_id s) @ '' is REMOVED from the cluster; ''
        @ ''ownership is never transferred automatically''"]
  by (auto simp: decision_for_def Let_def split: prod.splits if_splits)

lemma decision_local:
  "rd_route_type (decision_for rt ns s local mode) = LOCAL \<longleftrightarrow>
     rd_route_type (decision_for rt ns s local mode) \<noteq> UNAVAILABLE \<and> local = Some (sh_node_id s)"
  by (auto simp: decision_for_def Let_def split: prod.splits if_splits)

lemma validate_owner_ok:
  "validate_owner rt s = Inr u \<longleftrightarrow>
     (r_membership rt \<longrightarrow> sh_node_id s \<noteq> [] \<and> known_member (r_etcd rt) (sh_node_id s))"
  by (auto simp: validate_owner_def validate_node_ok require_owner_def)

lemma route_write_ok:
  "route_write sha hash now ns rid (Some l) rt = (Inr r, rt') \<longleftrightarrow>
     select_shard sha hash now ns rid rt = (Inr r, rt') \<and>
     sh_state (e_heap (r_etcd rt) r) = ShardState.ACTIVE \<and>
     sh_node_id (e_heap (r_etcd rt) r) = l \<and> l \<noteq> [] \<and>
     (r_membership rt \<longrightarrow> known_member (r_etcd rt) l)"
proof (cases "select_shard sha hash now ns rid rt")
  case (Pair x rt1)
  note f = select_frame [OF Pair]
  show ?thesis
  proof (cases x)
    case (Inr q)
    have v: "\<exists>y. validate_owner rt1 (e_heap (r_etcd rt) q) = y" by blast
    show ?thesis
      using Pair Inr f validate_owner_ok [of rt1 "e_heap (r_etcd rt) q"]
      by (cases "validate_owner rt1 (e_heap (r_etcd rt) q)")
        (auto simp: route_write_def Let_def require_owner_def)
  qed (use Pair in \<open>simp add: route_write_def\<close>)
qed

lemma route_ok:
  "route sha hash now ns rid rt = (Inr r, rt') \<longleftrightarrow>
     select_shard sha hash now ns rid rt = (Inr r, rt') \<and>
     sh_state (e_heap (r_etcd rt) r) \<in> readable_states \<and>
     (r_membership rt \<longrightarrow> sh_node_id (e_heap (r_etcd rt) r) \<noteq> [] \<and>
        known_member (r_etcd rt) (sh_node_id (e_heap (r_etcd rt) r)))"
proof (cases "select_shard sha hash now ns rid rt")
  case (Pair x rt1)
  note f = select_frame [OF Pair]
  show ?thesis
  proof (cases x)
    case (Inr q)
    show ?thesis
      using Pair Inr f validate_owner_ok [of rt1 "e_heap (r_etcd rt) q"]
      by (cases "validate_owner rt1 (e_heap (r_etcd rt) q)") (auto simp: route_def Let_def)
  qed (use Pair in \<open>simp add: route_def\<close>)
qed

lemma select_or_raise_ok:
  "select_or_raise sha hash now ns rid rt = (Inr r, rt') \<longleftrightarrow>
     select_shard sha hash now ns rid rt = (Inr r, rt')"
  by (auto simp: select_or_raise_def split: prod.splits sum.splits exn.splits)

lemma route_decision_ok:
  "route_decision mode sha hash now ns rid local rt = (Inr d, rt') \<longleftrightarrow>
     (\<exists>r. select_shard sha hash now ns rid rt = (Inr r, rt') \<and>
        d = decision_for rt' ns (e_heap (r_etcd rt) r) local mode)"
proof (cases "select_or_raise sha hash now ns rid rt")
  case (Pair x rt1)
  note f = select_or_raise_frame [OF Pair]
  show ?thesis
  proof (cases x)
    case (Inl e)
    with Pair have "\<not> (\<exists>r rt'. select_shard sha hash now ns rid rt = (Inr r, rt'))"
      by (metis Inl_Inr_False Pair_inject select_or_raise_ok)
    with Pair Inl show ?thesis by (simp add: route_decision_def)
  next
    case (Inr q)
    with Pair have "select_shard sha hash now ns rid rt = (Inr q, rt1)"
      by (simp add: select_or_raise_ok)
    with Pair Inr f show ?thesis by (auto simp: route_decision_def)
  qed
qed

subsection \<open>Requests against a cache\<close>

datatype router_request =
    SelectRequest time string string
  | QueryRequest time string
  | InvalidateRequest time string

fun request_time :: "router_request \<Rightarrow> time" where
  "request_time (SelectRequest t ns rid) = t"
| "request_time (QueryRequest t ns) = t"
| "request_time (InvalidateRequest t ns) = t"

fun serve :: "(string \<Rightarrow> string) \<Rightarrow> (string \<Rightarrow> int) \<Rightarrow> router_request \<Rightarrow> router \<Rightarrow> router" where
  "serve sha hash (SelectRequest t ns rid) rt = snd (select_shard sha hash t ns rid rt)"
| "serve sha hash (QueryRequest t ns) rt = snd (route_for_query t ns rt)"
| "serve sha hash (InvalidateRequest t ns) rt = invalidate ns rt"

text \<open>Every entry stamped after \<open>t0\<close> for the namespace is the listing of the current metadata.\<close>

definition fresh_since :: "time \<Rightarrow> string \<Rightarrow> router \<Rightarrow> bool" where
  "fresh_since t0 ns rt \<longleftrightarrow>
     (\<forall>ts L. dict_get (r_cache rt) ns = Some (ts, L) \<longrightarrow> t0 < ts \<longrightarrow>
        L = list_by_namespace (r_etcd rt) ns)"

lemma fetch_fresh:
  "fresh_since t0 ns rt \<Longrightarrow> fresh_since t0 ns (snd (get_shards_cached t ns' rt))"
  by (auto simp: fresh_since_def get_shards_cached_def Let_def map_of_dict_put
      split: option.splits if_splits prod.splits)

lemma select_cache:
  "r_cache (snd (select_shard sha hash t ns rid rt)) = r_cache (snd (get_shards_cached t ns rt))"
proof -
  obtain shards rt1 where c: "get_shards_cached t ns rt = (shards, rt1)" by force
  show ?thesis
    by (auto simp: select_shard_def Let_def c dest!: hrw_sync_frame
        split: prod.splits sum.splits option.splits list.splits)
qed

lemma serve_frame:
  "r_etcd (serve sha hash q rt) = r_etcd rt \<and> r_cache_ttl (serve sha hash q rt) = r_cache_ttl rt"
proof (cases q)
  case (SelectRequest t ns rid)
  then show ?thesis
    using select_frame [of sha hash t ns rid rt] by (cases "select_shard sha hash t ns rid rt") auto
next
  case (QueryRequest t ns)
  then show ?thesis
    using get_shards_cached_frame [of t ns rt]
    by (cases "get_shards_cached t ns rt") (auto simp: route_for_query_def Let_def)
qed (simp add: invalidate_def)

lemma fresh_since_cong:
  "r_cache rt' = r_cache rt \<Longrightarrow> r_etcd rt' = r_etcd rt \<Longrightarrow>
     fresh_since t0 ns rt' = fresh_since t0 ns rt"
  by (simp add: fresh_since_def)

lemma serve_fresh: "fresh_since t0 ns rt \<Longrightarrow> fresh_since t0 ns (serve sha hash q rt)"
proof (cases q)
  case (SelectRequest t ns' rid)
  have "r_etcd (snd (get_shards_cached t ns' rt)) = r_etcd rt"
    using get_shards_cached_frame [of t ns' rt] by (cases "get_shards_cached t ns' rt") auto
  then have "fresh_since t0 ns (serve sha hash q rt) =
      fresh_since t0 ns (snd (get_shards_cached t ns' rt))"
    using serve_frame [of sha hash q rt] select_cache [of sha hash t ns' rid rt] SelectRequest
    by (intro fresh_since_cong) simp_all
  then show "fresh_since t0 ns rt \<Longrightarrow> ?thesis" by (simp add: fetch_fresh)
next
  case (QueryRequest t ns')
  have "serve sha hash q rt = snd (get_shards_cached t ns' rt)"
    using QueryRequest by (simp add: route_for_query_def Let_def split: prod.splits)
  then show "fresh_since t0 ns rt \<Longrightarrow> ?thesis" by (simp add: fetch_fresh)
next
  case (InvalidateRequest t ns')
  then show "fresh_since t0 ns rt \<Longrightarrow> ?thesis"
    by (auto simp: invalidate_def fresh_since_def map_of_dict_pop)
qed

lemma serve_all_fresh: "fresh_since t0 ns rt \<Longrightarrow> fresh_since t0 ns (fold (serve sha hash) qs rt)"
  by (induction qs arbitrary: rt) (auto intro: serve_fresh)

lemma serve_all_frame:
  "r_etcd (fold (serve sha hash) qs rt) = r_etcd rt \<and>
   r_cache_ttl (fold (serve sha hash) qs rt) = r_cache_ttl rt"
  by (induction qs arbitrary: rt) (simp_all add: serve_frame)

lemma fresh_fetch:
  assumes "fresh_since t0 ns rt" "t0 + r_cache_ttl rt \<le> now"
  shows "cached_shards now ns rt = list_by_namespace (r_etcd rt) ns"
  using assms
  by (auto simp: get_shards_cached_def Let_def fresh_since_def split: option.splits prod.splits)

subsection \<open>The split\<close>

lemma alloc_frame:
  "alloc s st = (r, st') \<Longrightarrow> r = e_next st \<and> e_heap st' = (e_heap st)(r := s) \<and>
     e_next st' = Suc (e_next st) \<and> e_data st' = e_data st \<and> get_node st' = get_node st"
  by (auto simp: alloc_def get_node_def fun_eq_iff)

lemma maybe_split_result:
  assumes "maybe_split ua ta ub tb r None rt = (Inr (Some [a, b]), rt')" "r < e_next (r_etcd rt)"
  shows "a = e_next (r_etcd rt)" "b = Suc a"
    "e_heap (r_etcd rt') = (e_heap (r_etcd rt))
       (a := split_child ua ta (e_heap (r_etcd rt) r) ''-a''
               (sh_vector_count (e_heap (r_etcd rt) r) div 2),
        b := split_child ub tb (e_heap (r_etcd rt) r) ''-b''
               (sh_vector_count (e_heap (r_etcd rt) r)
                - sh_vector_count (e_heap (r_etcd rt) r) div 2))"
    "etcd_get (r_etcd rt') = (etcd_get (r_etcd rt))
       (ua \<mapsto> a, ub \<mapsto> b, sh_id (e_heap (r_etcd rt) r) := None)"
    "get_node (r_etcd rt') = get_node (r_etcd rt)"
    "dict_get (r_cache rt') (sh_namespace (e_heap (r_etcd rt) r)) = None"
    "r_membership rt' = r_membership rt"
  using assms
  by (auto simp: maybe_split_def Let_def alloc_def etcd_get_put etcd_get_delete invalidate_def
      map_of_dict_pop split_child_def new_shard_def etcd_get_def [abs_def] get_node_def [abs_def]
      map_of_dict_put fun_eq_iff split: if_splits)

subsection \<open>Properties\<close>

text \<open>A small store for the witnesses: two shards of one namespace, one owned by a known member.\<close>

definition demo_etcd :: etcd where
  "demo_etcd =
     \<lparr>e_heap = (\<lambda>_. nil_shard)(0 := new_shard ''s0'' 0 ''ns'' ''n0'',
                              1 := (new_shard ''s10'' 0 ''ns'' ''n1'')\<lparr>sh_vector_count := 7,
                                     sh_max_vectors := 5\<rparr>),
      e_next = 2, e_data = [(''s0'', 0), (''s10'', 1)],
      e_nodes = [(''n0'', \<lparr>cn_node_id = ''n0'', cn_cluster_id = ''c'',
                   cn_state = NodeMembershipState.ACTIVE, cn_version = 2\<rparr>)],
      e_migrations = [], e_path = [], e_file = None, e_writable = True\<rparr>"

definition demo_router :: router where
  "demo_router = new_router demo_etcd 5 True"

definition demo_hash :: "string \<Rightarrow> int" where
  "demo_hash s = int (length s)"

lemma demo_hash_nonneg: "nonneg_hash demo_hash"
  by (simp add: nonneg_hash_def demo_hash_def)

lemma demo_wf: "wf_etcd demo_etcd"
  by (auto simp: wf_etcd_def wf_shards_def demo_etcd_def keyed_dict_def reserved_key_def
      starts_with_def migration_key_prefix_def cluster_key_prefix_def new_shard_def
      split: if_splits)

lemmas demo_simps = demo_router_def demo_etcd_def new_router_def select_shard_def Let_def
  get_shards_cached_def list_by_namespace_def hrw_sync_def new_shard_def hrw_get_node_def
  hrw_score_def demo_hash_def shard_key_def

text \<open>
  C27: a record is placed by rendezvous hashing over the listed shards of its namespace that carry
  an id: the selected shard is one of them and no other has a higher score; selection fails only
  when there is none.
\<close>

theorem select_is_hrw:
  assumes "nonneg_hash hash"
  shows "case fst (select_shard sha hash now ns rid rt) of
      Inr r \<Rightarrow> r \<in> set (cached_shards now ns rt) \<and> sh_id (e_heap (r_etcd rt) r) \<noteq> [] \<and>
        (\<forall>q \<in> set (cached_shards now ns rt). sh_id (e_heap (r_etcd rt) q) \<noteq> [] \<longrightarrow>
           hrw_score hash (shard_key sha ns rid) (sh_id (e_heap (r_etcd rt) q)) \<le>
           hrw_score hash (shard_key sha ns rid) (sh_id (e_heap (r_etcd rt) r)))
    | Inl e \<Rightarrow> (\<forall>q \<in> set (cached_shards now ns rt). sh_id (e_heap (r_etcd rt) q) = [])"
proof (cases "select_shard sha hash now ns rid rt")
  case (Pair x rt')
  show ?thesis
  proof (cases x)
    case (Inl e)
    with Pair select_total [OF assms, of _ now ns rt sha rid] show ?thesis by fastforce
  next
    case (Inr r)
    with Pair select_ok [OF assms, of sha now ns rid rt r rt'] show ?thesis by simp
  qed
qed

lemma select_is_hrw_witness:
  "nonneg_hash demo_hash \<and> fst (select_shard (\<lambda>s. s) demo_hash 0 ''ns'' ''x'' demo_router) = Inr 1 \<and>
   hrw_score demo_hash (shard_key (\<lambda>s. s) ''ns'' ''x'') ''s0'' \<le>
   hrw_score demo_hash (shard_key (\<lambda>s. s) ''ns'' ''x'') ''s10''"
proof -
  have s: "fst (select_shard (\<lambda>s. s) demo_hash 0 ''ns'' ''x'' demo_router) = Inr 1"
    by (simp add: demo_simps)
  have "0 \<in> set (cached_shards 0 ''ns'' demo_router)" "sh_id (e_heap (r_etcd demo_router) 0) = ''s0''"
    "sh_id (e_heap (r_etcd demo_router) 1) = ''s10''"
    by (simp_all add: demo_simps)
  with s select_is_hrw [OF demo_hash_nonneg, where sha = "\<lambda>s. s" and now = 0 and ns = "''ns''"
      and rid = "''x''" and rt = demo_router]
  show ?thesis by (auto simp: demo_hash_nonneg)
qed

text \<open>
  Placement is stable: a lifecycle transition or an ownership change of a stored shard, whether
  it succeeds or is refused, moves no record of any namespace to another shard.
\<close>

theorem placement_stable:
  assumes "wf_etcd (r_etcd rt)" "etcd_get (r_etcd rt) k = Some r"
    "lc_transition mem_ops r to (r_etcd rt) = (x, st') \<or>
     lc_change_owner mem_ops memb r new_owner replicas (r_etcd rt) = (x, st')"
  shows "fst (select_shard sha hash now ns rid (rt\<lparr>r_etcd := st'\<rparr>)) =
    fst (select_shard sha hash now ns rid rt)"
proof (rule select_metadata)
  from assms show "list_by_namespace st' ns = list_by_namespace (r_etcd rt) ns"
    by (meson change_owner_keeps_listing(1,3) listing_cong transition_keeps_listing(1,3))
  from assms show "\<And>q. sh_id (e_heap st' q) = sh_id (e_heap (r_etcd rt) q)"
    by (meson change_owner_keeps_listing(2) transition_keeps_listing(2))
qed

lemma placement_stable_witness:
  "\<exists>st'. fst (lc_transition mem_ops 1 ShardState.DRAINING demo_etcd) = Inr 1 \<and>
     fst (select_shard (\<lambda>s. s) demo_hash 0 ''ns'' ''x'' (demo_router\<lparr>r_etcd := st'\<rparr>)) = Inr 1 \<and>
     sh_state (e_heap st' 1) = ShardState.DRAINING"
proof (intro exI conjI)
  let ?t = "lc_transition mem_ops 1 ShardState.DRAINING demo_etcd"
  show t: "fst ?t = Inr 1"
    by (simp add: lc_transition_def Let_def shard_transition_def demo_etcd_def new_shard_def)
  have "etcd_get demo_etcd ''s10'' = Some 1" "r_etcd demo_router = demo_etcd"
    "fst (select_shard (\<lambda>s. s) demo_hash 0 ''ns'' ''x'' demo_router) = Inr 1"
    by (simp_all add: etcd_get_def demo_simps)
  then show "fst (select_shard (\<lambda>s. s) demo_hash 0 ''ns'' ''x'' (demo_router\<lparr>r_etcd := snd ?t\<rparr>))
      = Inr 1"
    using placement_stable [of demo_router "''s10''" 1 ShardState.DRAINING "fst ?t" "snd ?t"
        no_membership "[]" None "\<lambda>s. s" demo_hash 0 "''ns''" "''x''"] demo_wf by simp
  show "sh_state (e_heap (snd ?t) 1) = ShardState.DRAINING"
    by (simp add: lc_transition_def Let_def shard_transition_def demo_etcd_def new_shard_def)
qed

text \<open>
  C19: a write to the local node is admitted exactly when the write decision for the same record is
  LOCAL, and exactly when the selected shard is ACTIVE, owned by the local node, and the owner is a
  known member that has not been removed (when membership is wired).
\<close>

theorem write_admission:
  "((\<exists>rt'. route_write sha hash now ns rid (Some l) rt = (Inr r, rt')) \<longleftrightarrow>
    (\<exists>rt' d. select_shard sha hash now ns rid rt = (Inr r, rt') \<and>
       route_write_decision sha hash now ns rid (Some l) rt = (Inr d, rt') \<and>
       rd_route_type d = LOCAL)) \<and>
   ((\<exists>rt'. route_write sha hash now ns rid (Some l) rt = (Inr r, rt')) \<longleftrightarrow>
    fst (select_shard sha hash now ns rid rt) = Inr r \<and>
    sh_state (e_heap (r_etcd rt) r) = ShardState.ACTIVE \<and>
    sh_node_id (e_heap (r_etcd rt) r) = l \<and> l \<noteq> [] \<and>
    (r_membership rt \<longrightarrow> known_member (r_etcd rt) l))"
proof (cases "select_shard sha hash now ns rid rt")
  case (Pair x rt')
  note f = select_frame [OF Pair]
  show ?thesis
    using f Pair
    by (auto simp: route_write_ok route_write_decision_def route_decision_ok decision_local
        decision_available mode_reason_write)
qed

lemma write_admission_witness:
  "(\<exists>rt'. route_write (\<lambda>s. s) demo_hash 0 ''ns'' ''x'' (Some ''n0'')
      (demo_router\<lparr>r_etcd := etcd_delete ''s10'' demo_etcd\<rparr>) = (Inr 0, rt')) \<and>
   (\<nexists>rt'. route_write (\<lambda>s. s) demo_hash 0 ''ns'' ''x'' (Some ''n1'') demo_router = (Inr 1, rt'))"
proof
  show "\<exists>rt'. route_write (\<lambda>s. s) demo_hash 0 ''ns'' ''x'' (Some ''n0'')
      (demo_router\<lparr>r_etcd := etcd_delete ''s10'' demo_etcd\<rparr>) = (Inr 0, rt')"
    by (rule iffD2 [OF write_admission [THEN conjunct2]])
      (simp add: demo_simps known_member_def get_node_def etcd_delete_def etcd_persist_def)
  have "\<not> known_member (r_etcd demo_router) ''n1''" "r_membership demo_router"
    by (simp_all add: demo_simps known_member_def get_node_def)
  then show "\<nexists>rt'. route_write (\<lambda>s. s) demo_hash 0 ''ns'' ''x'' (Some ''n1'') demo_router = (Inr 1, rt')"
    unfolding write_admission [THEN conjunct2] by blast
qed

text \<open>
  With membership wired, a read is routed exactly when the read decision is not UNAVAILABLE,
  whatever the local node is; the decision names the shard that the route returns.
\<close>

theorem read_admission:
  assumes "r_membership rt"
  shows "(\<exists>rt'. route sha hash now ns rid rt = (Inr r, rt')) \<longleftrightarrow>
    (\<exists>rt' d. select_shard sha hash now ns rid rt = (Inr r, rt') \<and>
       route_read_decision sha hash now ns rid local rt = (Inr d, rt') \<and>
       rd_route_type d \<noteq> UNAVAILABLE \<and> rd_shard_id d = Some (sh_id (e_heap (r_etcd rt) r)))"
proof (cases "select_shard sha hash now ns rid rt")
  case (Pair x rt')
  note f = select_frame [OF Pair]
  have id: "rd_shard_id (decision_for rt' ns s local mode) = Some (sh_id s)" for s mode
    by (simp add: decision_for_def Let_def split: prod.splits)
  show ?thesis
    using f Pair assms
    by (auto simp: route_ok route_read_decision_def route_decision_ok decision_available
        mode_reason_read id)
qed

lemma read_admission_witness:
  "r_membership demo_router \<and>
   (\<nexists>rt'. route (\<lambda>s. s) demo_hash 0 ''ns'' ''x'' demo_router = (Inr 1, rt')) \<and>
   (\<nexists>rt' d. select_shard (\<lambda>s. s) demo_hash 0 ''ns'' ''x'' demo_router = (Inr 1, rt') \<and>
       route_read_decision (\<lambda>s. s) demo_hash 0 ''ns'' ''x'' None demo_router = (Inr d, rt') \<and>
       rd_route_type d \<noteq> UNAVAILABLE \<and> rd_shard_id d = Some (sh_id (e_heap (r_etcd demo_router) 1)))"
proof -
  have m: "r_membership demo_router" by (simp add: demo_simps)
  have n: "\<not> known_member (r_etcd demo_router) (sh_node_id (e_heap (r_etcd demo_router) 1))"
    by (simp add: demo_simps known_member_def get_node_def)
  show ?thesis
    using read_admission [OF m, of "\<lambda>s. s" demo_hash 0 "''ns''" "''x''" 1 None] m n
    by (auto simp: route_ok)
qed

text \<open>
  Routing is side-effect-free on the metadata: whatever is routed, decided or fanned out, with
  whatever result, the metadata store (shards, owners, versions, members, migrations and the file)
  is the one before.
\<close>

theorem routing_leaves_metadata:
  "r_etcd (snd (route sha hash now ns rid rt)) = r_etcd rt \<and>
    r_etcd (snd (route_write sha hash now ns rid owner_node rt)) = r_etcd rt \<and>
    r_etcd (snd (place sha hash now ns rid local rt)) = r_etcd rt \<and>
    r_etcd (snd (route_read_decision sha hash now ns rid local rt)) = r_etcd rt \<and>
    r_etcd (snd (route_write_decision sha hash now ns rid local rt)) = r_etcd rt \<and>
    r_etcd (snd (query_route now ns local rt)) = r_etcd rt \<and>
    r_etcd (snd (route_for_query now ns rt)) = r_etcd rt \<and>
    r_etcd (snd (writable now ns owner_node rt)) = r_etcd rt"
proof (intro conjI)
  obtain x rt1 where s: "select_shard sha hash now ns rid rt = (x, rt1)" by force
  obtain y rt2 where o: "select_or_raise sha hash now ns rid rt = (y, rt2)" by force
  obtain c rt3 where c: "get_shards_cached now ns rt = (c, rt3)" by force
  note f = select_frame [OF s] select_or_raise_frame [OF o] get_shards_cached_frame [OF c]
  show "r_etcd (snd (route sha hash now ns rid rt)) = r_etcd rt"
    using s f by (auto simp: route_def Let_def split: sum.splits)
  show "r_etcd (snd (route_write sha hash now ns rid owner_node rt)) = r_etcd rt"
    using s f by (auto simp: route_write_def Let_def split: sum.splits option.splits)
  have "r_etcd (snd (route_decision mode sha hash now ns rid local rt)) = r_etcd rt" for mode
    using o f by (auto simp: route_decision_def split: sum.splits)
  then show "r_etcd (snd (place sha hash now ns rid local rt)) = r_etcd rt"
    "r_etcd (snd (route_read_decision sha hash now ns rid local rt)) = r_etcd rt"
    "r_etcd (snd (route_write_decision sha hash now ns rid local rt)) = r_etcd rt"
    by (simp_all add: place_def route_read_decision_def route_write_decision_def)
  show "r_etcd (snd (query_route now ns local rt)) = r_etcd rt"
    "r_etcd (snd (route_for_query now ns rt)) = r_etcd rt"
    "r_etcd (snd (writable now ns owner_node rt)) = r_etcd rt"
    using c f by (simp_all add: query_route_def route_for_query_def writable_def Let_def)
qed

text \<open>
  Staleness of the routing cache is bounded by its time to live: let the metadata be as it is
  since \<open>t0\<close> (older entries may hold anything); after any requests served meanwhile, a fetch at
  \<open>t0\<close> plus the time to live or later sees exactly the current shards of the namespace.
\<close>

theorem cache_staleness_bounded:
  assumes "\<And>ts L. dict_get (r_cache rt) ns = Some (ts, L) \<Longrightarrow> ts \<le> t0"
    and "t0 + r_cache_ttl rt \<le> now"
  shows "cached_shards now ns (fold (serve sha hash) requests rt) = list_by_namespace (r_etcd rt) ns"
proof -
  have "fresh_since t0 ns rt"
    unfolding fresh_since_def by (meson assms(1) not_le)
  then show ?thesis
    using fresh_fetch [OF serve_all_fresh, of t0 ns rt sha hash requests now]
      serve_all_frame [of sha hash requests rt] assms(2) by simp
qed

lemma cache_staleness_bounded_witness:
  "cached_shards 5 ''ns'' (fold (serve (\<lambda>s. s) demo_hash)
     [SelectRequest 1 ''ns'' ''x'', QueryRequest 2 ''ns'']
     (demo_router\<lparr>r_cache := [(''ns'', (0, []))]\<rparr>)) = [0, 1]"
proof -
  let ?rt = "demo_router\<lparr>r_cache := [(''ns'', (0, []))]\<rparr>"
  have "ts \<le> 0" if "dict_get (r_cache ?rt) ''ns'' = Some (ts, L)" for ts L
    using that by simp
  moreover have "0 + r_cache_ttl ?rt \<le> 5" "list_by_namespace (r_etcd ?rt) ''ns'' = [0, 1]"
    by (simp_all add: demo_simps)
  ultimately show ?thesis
    using cache_staleness_bounded [of ?rt "''ns''" 0 5] by metis
qed

text \<open>
  A split replaces the shard by two new ACTIVE shards of the same namespace whose vector counts
  add up to the parent's and differ by at most one; no other shard and no member changes, and the
  namespace leaves the routing cache. (The vectors themselves stay where they are: the default
  callback only logs.)
\<close>

theorem split_conserves:
  assumes "maybe_split ua ta ub tb r None rt = (Inr (Some [a, b]), rt')"
    and "r < e_next (r_etcd rt)" "ua \<noteq> ub" "s = e_heap (r_etcd rt) r" "sh_id s \<notin> {ua, ub}"
  shows "should_split s \<and>
    etcd_get (r_etcd rt') (sh_id s) = None \<and>
    etcd_get (r_etcd rt') ua = Some a \<and>
    etcd_get (r_etcd rt') ub = Some b \<and>
    sh_vector_count (e_heap (r_etcd rt') a) + sh_vector_count (e_heap (r_etcd rt') b) =
       sh_vector_count s \<and>
    (sh_vector_count (e_heap (r_etcd rt') b) - sh_vector_count (e_heap (r_etcd rt') a) \<in> {0, 1}) \<and>
    (\<forall>c \<in> {a, b}. sh_state (e_heap (r_etcd rt') c) = ShardState.ACTIVE \<and>
       sh_namespace (e_heap (r_etcd rt') c) = sh_namespace s) \<and>
    (\<forall>k. k \<notin> {ua, ub, sh_id s} \<longrightarrow> etcd_get (r_etcd rt') k = etcd_get (r_etcd rt) k) \<and>
    (\<forall>q. q \<notin> {a, b} \<longrightarrow> e_heap (r_etcd rt') q = e_heap (r_etcd rt) q) \<and>
    dict_get (r_cache rt') (sh_namespace s) = None"
proof (intro conjI)
  note m = maybe_split_result [OF assms(1,2), folded assms(4)]
  show "should_split s"
    using assms(1,4) by (auto simp: maybe_split_def Let_def split: if_splits)
  from m assms(3,5) show "etcd_get (r_etcd rt') (sh_id s) = None"
    "etcd_get (r_etcd rt') ua = Some a" "etcd_get (r_etcd rt') ub = Some b"
    "\<forall>k. k \<notin> {ua, ub, sh_id s} \<longrightarrow> etcd_get (r_etcd rt') k = etcd_get (r_etcd rt) k"
    "\<forall>q. q \<notin> {a, b} \<longrightarrow> e_heap (r_etcd rt') q = e_heap (r_etcd rt) q"
    "dict_get (r_cache rt') (sh_namespace s) = None" by auto
  from m(2,3) show "sh_vector_count (e_heap (r_etcd rt') a) + sh_vector_count (e_heap (r_etcd rt') b) =
       sh_vector_count s"
    "\<forall>c \<in> {a, b}. sh_state (e_heap (r_etcd rt') c) = ShardState.ACTIVE \<and>
       sh_namespace (e_heap (r_etcd rt') c) = sh_namespace s"
    by (auto simp: split_child_def new_shard_def)
  have "x - x div 2 - x div 2 \<in> {0, 1}" for x :: int
    by (auto; presburger)
  with m(2,3) show "sh_vector_count (e_heap (r_etcd rt') b) - sh_vector_count (e_heap (r_etcd rt') a)
      \<in> {0, 1}"
    by (simp add: split_child_def)
qed

lemma split_conserves_witness:
  "\<exists>rt'. maybe_split ''a'' 0 ''b'' 0 1 None demo_router = (Inr (Some [2, 3]), rt') \<and>
     sh_vector_count (e_heap (r_etcd rt') 2) + sh_vector_count (e_heap (r_etcd rt') 3) = 7"
proof -
  obtain x rt' where m: "maybe_split ''a'' 0 ''b'' 0 1 None demo_router = (x, rt')" by force
  have x: "x = Inr (Some [2, 3])" "Suc 0 < e_next (r_etcd demo_router)"
    "sh_vector_count (e_heap (r_etcd demo_router) 1) = 7"
    "sh_id (e_heap (r_etcd demo_router) 1) = ''s10''"
    using m by (auto simp: maybe_split_def demo_simps should_split_def alloc_def)
  with m split_conserves [of "''a''" 0 "''b''" 0 1 demo_router 2 3 rt' "e_heap (r_etcd demo_router) 1"]
  show ?thesis by simp
qed

text \<open>
  With membership wired, the children of a split refuse every write: their owners are the
  parent's owner with a suffix, which names no cluster member (and they have no replicas), unless an
  operator registered nodes of exactly those names.
\<close>

theorem split_children_unroutable:
  assumes "maybe_split ua ta ub tb r None rt = (Inr (Some [a, b]), rt')"
    and "r < e_next (r_etcd rt)" "r_membership rt"
    and "get_node (r_etcd rt) (sh_node_id (e_heap (r_etcd rt) r) @ ''-a'') = None"
    and "get_node (r_etcd rt) (sh_node_id (e_heap (r_etcd rt) r) @ ''-b'') = None"
  shows "\<forall>c \<in> {a, b}. validate_owner rt' (e_heap (r_etcd rt') c) =
      Inl (UnknownNodeError (sh_node_id (e_heap (r_etcd rt') c)) []) \<and>
      sh_replicas (e_heap (r_etcd rt') c) = []"
  using maybe_split_result [OF assms(1,2)] assms(3-5)
  by (auto simp: validate_owner_def require_owner_def split_child_def new_shard_def
      validate_node_def)

lemma split_children_unroutable_witness:
  "\<exists>rt'. maybe_split ''a'' 0 ''b'' 0 1 None demo_router = (Inr (Some [2, 3]), rt') \<and>
     validate_owner rt' (e_heap (r_etcd rt') 2) = Inl (UnknownNodeError ''n1-a'' [])"
proof -
  obtain x rt' where m: "maybe_split ''a'' 0 ''b'' 0 1 None demo_router = (x, rt')" by force
  have x: "x = Inr (Some [2, 3])" "Suc 0 < e_next (r_etcd demo_router)" "r_membership demo_router"
    "sh_node_id (e_heap (r_etcd rt') 2) = ''n1-a''"
    using m by (auto simp: maybe_split_def demo_simps should_split_def alloc_def split_child_def
        invalidate_def)
  have "get_node (r_etcd demo_router) (sh_node_id (e_heap (r_etcd demo_router) 1) @ t) = None" for t
    by (simp add: demo_simps get_node_def)
  with m x split_children_unroutable [of "''a''" 0 "''b''" 0 1 demo_router 2 3 rt']
  show ?thesis by auto
qed

end
