(* ===== verification/Migration.thy ===== *)
theory Migration
  imports Lifecycle
begin

text \<open>
  The second half of \<open>sharding/migration.py\<close>: the migration manager over the in-memory metadata
  store, its membership manager (cluster id \<open>mcid\<close>) and a transfer provider. The provider is an
  interface (\<open>transfer_ops\<close>): its operations act on a state of their own, take the shard's
  identity, and may raise; the real one is modelled in \<open>Shard_Transfer\<close>. The manager mutates the stored
  migration in place and puts it back on every path, so the model works on the value it puts. Clock
  readings are arguments, in the order the code takes them.
\<close>

record ('x, 'fs) transfer_ops =
  to_export :: "string \<Rightarrow> shard \<Rightarrow> 'fs \<Rightarrow> 'x res \<times> 'fs"
  to_digest :: "'x \<Rightarrow> string"
  to_import :: "string \<Rightarrow> shard \<Rightarrow> 'x \<Rightarrow> 'fs \<Rightarrow> unit res \<times> 'fs"
  to_verify :: "string \<Rightarrow> shard \<Rightarrow> string option \<Rightarrow> 'fs \<Rightarrow> string res \<times> 'fs"
  to_finalize :: "string \<Rightarrow> shard \<Rightarrow> 'fs \<Rightarrow> unit res \<times> 'fs"
  to_discard :: "string \<Rightarrow> shard \<Rightarrow> 'fs \<Rightarrow> unit res \<times> 'fs"

definition migratable_states :: "ShardState set" where
  "migratable_states = {ShardState.ACTIVE, ShardState.DRAINING}"

subsection \<open>Reads and validation\<close>

definition mig_get :: "etcd \<Rightarrow> string \<Rightarrow> shard_migration option" where
  "mig_get st mid = get_migration st mid"

text \<open>\<open>list\<close>: sorted by creation time, then by id (two stable sorts).\<close>

definition mig_list :: "etcd \<Rightarrow> shard_migration list" where
  "mig_list st = sort_key mg_created_at (sort_key mg_id (list_migrations st))"

definition mig_require :: "etcd \<Rightarrow> string \<Rightarrow> shard_migration res" where
  "mig_require st mid =
     (case get_migration st mid of None \<Rightarrow> Inl (MigrationNotFoundError mid) | Some m \<Rightarrow> Inr m)"

definition kind_error :: "string \<Rightarrow> string \<Rightarrow> string \<Rightarrow> exn" where
  "kind_error kind nid why =
     (if kind = ''source'' then MigrationSourceError nid why else MigrationTargetError nid why)"

definition validate_member :: "string \<Rightarrow> etcd \<Rightarrow> string \<Rightarrow> string \<Rightarrow> unit res" where
  "validate_member mcid st nid kind =
     (case (case validate_node st nid of Inl e \<Rightarrow> Inl e
            | Inr _ \<Rightarrow> validate_cluster_id mcid st nid) of
        Inr _ \<Rightarrow> Inr ()
      | Inl (UnknownNodeError _ _) \<Rightarrow> Inl (kind_error kind nid ''is not a known cluster member'')
      | Inl (RemovedNodeError _ _) \<Rightarrow>
          Inl (kind_error kind nid ''has been REMOVED from the cluster'')
      | Inl (ClusterIdMismatchError _ _ _) \<Rightarrow>
          Inl (kind_error kind nid ''belongs to a different cluster'')
      | Inl e \<Rightarrow> Inl e)"

definition mig_fail :: "time \<Rightarrow> shard_migration \<Rightarrow> string \<Rightarrow> etcd \<Rightarrow> shard_migration \<times> etcd" where
  "mig_fail t m error st =
     (let m1 = (case migration_transition t m FAILED of Inl _ \<Rightarrow> m | Inr m' \<Rightarrow> m');
          m2 = m1\<lparr>mg_error := Some error\<rparr>
      in (m2, put_migration m2 st))"

definition assert_source_valid :: "time \<Rightarrow> shard_migration \<Rightarrow> etcd \<Rightarrow> sref res \<times> etcd" where
  "assert_source_valid t m st =
     (case etcd_get st (mg_shard_id m) of
        None \<Rightarrow>
          (Inl (MigrationSourceError (mg_source m)
                  (''shard '' @ mg_shard_id m @ '' no longer exists'')),
           snd (mig_fail t m (''source validation failed: shard '' @ mg_shard_id m
                  @ '' no longer exists'') st))
      | Some r \<Rightarrow>
          (let s = e_heap st r;
               why_state = ''shard '' @ mg_shard_id m @ '' is not migratable (state=''
                 @ shard_state_value (sh_state s) @ '')'';
               why_owner = ''shard '' @ mg_shard_id m @ '' is now owned by ''
                 @ py_repr (sh_node_id s);
               why_version = ''shard '' @ mg_shard_id m @ '' version changed (''
                 @ int_str (mg_source_version m) @ '' -> '' @ int_str (sh_version s) @ '')''
           in if sh_state s \<notin> migratable_states then
                (Inl (MigrationSourceError (mg_source m) why_state),
                 snd (mig_fail t m (''source validation failed: '' @ why_state) st))
              else if sh_node_id s \<noteq> mg_source m then
                (Inl (MigrationSourceError (mg_source m)
                        (why_owner @ ''; migration is stale and will not overwrite it'')),
                 snd (mig_fail t m (''stale migration: '' @ why_owner) st))
              else if sh_version s \<noteq> mg_source_version m then
                (Inl (MigrationSourceError (mg_source m) (why_version @ ''; migration is stale'')),
                 snd (mig_fail t m (''stale migration: '' @ why_version) st))
              else (Inr r, st)))"

definition mig_require_state :: "shard_migration \<Rightarrow> MigrationState \<Rightarrow> unit res" where
  "mig_require_state m expected =
     (if mg_state m \<noteq> expected then
        Inl (MigrationStateError (mg_id m)
               (''expected state='' @ migration_state_value expected @ '', actual=''
                @ migration_state_value (mg_state m)))
      else Inr ())"

subsection \<open>Creation\<close>

text \<open>\<open>mid\<close> is the \<open>uuid4().hex\<close> of the new migration, \<open>t1\<close> and \<open>t2\<close> its two time stamps.\<close>

definition create_migration ::
    "string \<Rightarrow> string \<Rightarrow> string \<Rightarrow> time \<Rightarrow> time \<Rightarrow> string \<Rightarrow> string \<Rightarrow> string \<Rightarrow> etcd \<Rightarrow>
     shard_migration res \<times> etcd" where
  "create_migration cid mcid mid t1 t2 ns sid target st =
     (case etcd_get st sid of
        None \<Rightarrow> (Inl (InvalidMigrationError (''unknown shard: '' @ py_repr sid)), st)
      | Some r \<Rightarrow>
          (let s = e_heap st r in
           if sh_namespace s \<noteq> ns then
             (Inl (InvalidMigrationError (''shard '' @ py_repr sid @ '' belongs to namespace ''
                     @ py_repr (sh_namespace s) @ '', not '' @ py_repr ns)), st)
           else if sh_state s \<notin> migratable_states then
             (Inl (MigrationSourceError (if sh_node_id s \<noteq> [] then sh_node_id s else ''?'')
                     (''shard '' @ py_repr sid @ '' is not migratable (state=''
                      @ shard_state_value (sh_state s)
                      @ ''; only ACTIVE/DRAINING shards may migrate)'')), st)
           else (case require_owner s of
               Inl e \<Rightarrow> (Inl e, st)
             | Inr source \<Rightarrow>
                 (case validate_member mcid st source ''source'' of
                    Inl e \<Rightarrow> (Inl e, st)
                  | Inr _ \<Rightarrow>
                      (case validate_member mcid st target ''target'' of
                         Inl e \<Rightarrow> (Inl e, st)
                       | Inr _ \<Rightarrow>
                           if target = source then
                             (Inl (MigrationTargetError target
                                     ''target must differ from the source node''), st)
                           else (case find (\<lambda>m. mg_shard_id m = sid \<and> \<not> is_terminal m)
                                          (list_migrations st) of
                               Some m \<Rightarrow>
                                 (Inl (MigrationConflictError ns sid
                                    (''an in-progress migration ('' @ py_repr (mg_id m)
                                     @ '') already exists (state=''
                                     @ migration_state_value (mg_state m) @ '')'')), st)
                             | None \<Rightarrow>
                                 (let m = \<lparr>mg_id = mid, mg_namespace = ns, mg_shard_id = sid,
                                           mg_source = source, mg_target = target,
                                           mg_state = PENDING, mg_source_version = sh_version s,
                                           mg_cluster_id = cid, mg_created_at = t1,
                                           mg_updated_at = t2, mg_error = None, mg_version = 1,
                                           mg_source_digest = None, mg_target_digest = None,
                                           mg_finalized = False\<rparr>
                                  in (Inr m, put_migration m st))))))))"

subsection \<open>The steps of a migration\<close>

definition mig_prepare :: "time \<Rightarrow> string \<Rightarrow> etcd \<Rightarrow> shard_migration res \<times> etcd" where
  "mig_prepare t mid st =
     (case mig_require st mid of
        Inl e \<Rightarrow> (Inl e, st)
      | Inr m \<Rightarrow>
          (case mig_require_state m PENDING of
             Inl e \<Rightarrow> (Inl e, st)
           | Inr _ \<Rightarrow>
               (case assert_source_valid t m st of
                  (Inl e, st1) \<Rightarrow> (Inl e, st1)
                | (Inr r, st1) \<Rightarrow>
                    (case migration_transition t m PREPARING of
                       Inl e \<Rightarrow> (Inl e, st1)
                     | Inr m1 \<Rightarrow> (Inr m1, put_migration m1 st1)))))"

text \<open>The data movement inside \<open>start_copy\<close>: its result, the migration as mutated, the transfer state.\<close>

definition copy_data ::
    "('x, 'fs) transfer_ops \<Rightarrow> shard \<Rightarrow> shard_migration \<Rightarrow> 'fs \<Rightarrow>
     unit res \<times> shard_migration \<times> 'fs" where
  "copy_data T s m fs =
     (case to_export T (mg_source m) s fs of
        (Inl e, fs1) \<Rightarrow> (Inl e, m, fs1)
      | (Inr x, fs1) \<Rightarrow>
          (case to_import T (mg_target m) s x fs1 of
             (Inl e, fs2) \<Rightarrow> (Inl e, m, fs2)
           | (Inr _, fs2) \<Rightarrow>
               (let m1 = m\<lparr>mg_source_digest := Some (to_digest T x)\<rparr>
                in case to_verify T (mg_target m) s (Some (to_digest T x)) fs2 of
                     (Inl e, fs3) \<Rightarrow> (Inl e, m1, fs3)
                   | (Inr d, fs3) \<Rightarrow> (Inr (), m1\<lparr>mg_target_digest := Some d\<rparr>, fs3))))"

definition start_copy ::
    "('x, 'fs) transfer_ops \<Rightarrow> time \<Rightarrow> time \<Rightarrow> string \<Rightarrow> etcd \<times> 'fs \<Rightarrow>
     shard_migration res \<times> etcd \<times> 'fs" where
  "start_copy T t1 t2 mid = (\<lambda>(st, fs).
     case mig_require st mid of
       Inl e \<Rightarrow> (Inl e, st, fs)
     | Inr m \<Rightarrow>
         (case mig_require_state m PREPARING of
            Inl e \<Rightarrow> (Inl e, st, fs)
          | Inr _ \<Rightarrow>
              (case assert_source_valid t1 m st of
                 (Inl e, st1) \<Rightarrow> (Inl e, st1, fs)
               | (Inr r, st1) \<Rightarrow>
                   (case migration_transition t1 m COPYING of
                      Inl e \<Rightarrow> (Inl e, st1, fs)
                    | Inr m1 \<Rightarrow>
                        (let st2 = put_migration m1 st1
                         in case copy_data T (e_heap st2 r) m1 fs of
                              (Inr _, m2, fs1) \<Rightarrow> (Inr m2, put_migration m2 st2, fs1)
                            | (Inl e, m2, fs1) \<Rightarrow>
                                if is_MigrationStateError e then
                                  (Inl e, snd (mig_fail t2 m2
                                     ''copy failed: migration lifecycle failure'' st2), fs1)
                                else if is_MigrationVerificationError e then
                                  (Inl e, snd (mig_fail t2 m2
                                     (''verify failed: '' @ exn_str e) st2), fs1)
                                else
                                  (Inl (MigrationStateError (mg_id m2)
                                          (''copy failed: '' @ exn_str e)),
                                   snd (mig_fail t2 m2 (''copy failed: '' @ exn_str e) st2),
                                   fs1))))))"

text \<open>Only a MigrationVerificationError fails the migration in \<open>verify\<close>; any other error escapes.\<close>

definition mig_verify ::
    "('x, 'fs) transfer_ops \<Rightarrow> time \<Rightarrow> time \<Rightarrow> string \<Rightarrow> etcd \<times> 'fs \<Rightarrow>
     shard_migration res \<times> etcd \<times> 'fs" where
  "mig_verify T t1 t2 mid = (\<lambda>(st, fs).
     case mig_require st mid of
       Inl e \<Rightarrow> (Inl e, st, fs)
     | Inr m \<Rightarrow>
         (case mig_require_state m COPYING of
            Inl e \<Rightarrow> (Inl e, st, fs)
          | Inr _ \<Rightarrow>
              (case assert_source_valid t1 m st of
                 (Inl e, st1) \<Rightarrow> (Inl e, st1, fs)
               | (Inr r, st1) \<Rightarrow>
                   (case migration_transition t1 m VERIFYING of
                      Inl e \<Rightarrow> (Inl e, st1, fs)
                    | Inr m1 \<Rightarrow>
                        (let st2 = put_migration m1 st1
                         in case to_verify T (mg_target m1) (e_heap st2 r)
                                   (mg_source_digest m1) fs of
                              (Inr d, fs1) \<Rightarrow>
                                (let m2 = m1\<lparr>mg_target_digest := Some d\<rparr>
                                 in (Inr m2, put_migration m2 st2, fs1))
                            | (Inl e, fs1) \<Rightarrow>
                                if is_MigrationVerificationError e then
                                  (Inl e, snd (mig_fail t2 m1
                                     (''verification failed: '' @ exn_str e) st2), fs1)
                                else (Inl e, st2, fs1))))))"

text \<open>
  \<open>commit\<close>, in two parts: the ownership commit on the shard (\<open>Inl\<close> is the exception of its
  \<open>try\<close>, the shard as mutated then), and the whole step with its rollback, the finalization of the
  source and the final transition.
\<close>

definition ownership_commit ::
    "shard_migration \<Rightarrow> sref \<Rightarrow> etcd \<Rightarrow> unit res \<times> etcd" where
  "ownership_commit m r st =
     (let s = e_heap st r;
          new_replicas = filter (\<lambda>x. x \<noteq> mg_target m) (sh_replicas s);
          s' = s\<lparr>sh_node_id := mg_target m, sh_replicas := new_replicas,
                 sh_version := sh_version s + 1\<rparr>;
          st1 = assign r s' st
      in case validate_ownership s' None None of
           Inl e \<Rightarrow> (Inl e, st1)
         | Inr _ \<Rightarrow>
             (case validate_replicas st1 new_replicas of
                Inl e \<Rightarrow> (Inl e, st1)
              | Inr _ \<Rightarrow> (Inr (), etcd_put r st1)))"

definition mig_commit ::
    "('x, 'fs) transfer_ops \<Rightarrow> string \<Rightarrow> time \<Rightarrow> time \<Rightarrow> string \<Rightarrow> etcd \<times> 'fs \<Rightarrow>
     shard_migration res \<times> etcd \<times> 'fs" where
  "mig_commit T mcid t1 t2 mid = (\<lambda>(st, fs).
     case mig_require st mid of
       Inl e \<Rightarrow> (Inl e, st, fs)
     | Inr m \<Rightarrow>
         (case mig_require_state m VERIFYING of
            Inl e \<Rightarrow> (Inl e, st, fs)
          | Inr _ \<Rightarrow>
              (case assert_source_valid t1 m st of
                 (Inl e, st1) \<Rightarrow> (Inl e, st1, fs)
               | (Inr r, st1) \<Rightarrow>
                   (case validate_member mcid st1 (mg_target m) ''target'' of
                      Inl e \<Rightarrow> (Inl e, st1, fs)
                    | Inr _ \<Rightarrow>
                        (case migration_transition t1 m COMMITTING of
                           Inl e \<Rightarrow> (Inl e, st1, fs)
                         | Inr m1 \<Rightarrow>
                             (let st2 = put_migration m1 st1; old = e_heap st2 r
                              in case ownership_commit m1 r st2 of
                                   (Inl e, st3) \<Rightarrow>
                                     if is_MigrationError e then (Inl e, st3, fs)
                                     else
                                       (Inl (MigrationCommitError (mg_namespace m1) (mg_shard_id m1)
                                               (mg_target m1) (exn_str e)),
                                        snd (mig_fail t2 m1
                                          (''ownership commit failed: '' @ exn_str e)
                                          (assign r ((e_heap st3 r)
                                             \<lparr>sh_node_id := sh_node_id old,
                                              sh_replicas := sh_replicas old,
                                              sh_version := sh_version old\<rparr>) st3)),
                                        fs)
                                 | (Inr _, st3) \<Rightarrow>
                                     (let (f, fs1) = to_finalize T (mg_source m1) (e_heap st3 r) fs;
                                          m2 = (case f of
                                              Inr _ \<Rightarrow> m1\<lparr>mg_finalized := True\<rparr>
                                            | Inl e \<Rightarrow> m1\<lparr>mg_error := Some
                                                (''source finalization failed after ownership commit: ''
                                                 @ exn_str e), mg_finalized := False\<rparr>)
                                      in case migration_transition t2 m2 COMPLETED of
                                           Inl e \<Rightarrow> (Inl e, st3, fs1)
                                         | Inr m3 \<Rightarrow> (Inr m3, put_migration m3 st3, fs1))))))))"

definition mig_cancel ::
    "('x, 'fs) transfer_ops \<Rightarrow> time \<Rightarrow> string \<Rightarrow> etcd \<times> 'fs \<Rightarrow>
     shard_migration res \<times> etcd \<times> 'fs" where
  "mig_cancel T t mid = (\<lambda>(st, fs).
     case mig_require st mid of
       Inl e \<Rightarrow> (Inl e, st, fs)
     | Inr m \<Rightarrow>
         if \<not> cancelable m then
           (Inl (MigrationStateError (mg_id m)
                   (''cannot cancel a migration in state=''
                    @ migration_state_value (mg_state m))), st, fs)
         else
           (let fs1 = (case etcd_get st (mg_shard_id m) of
                  Some r \<Rightarrow>
                    if migration_state_value (mg_state m) \<in> {''COPYING'', ''VERIFYING''} then
                      snd (to_discard T (mg_target m) (e_heap st r) fs)
                    else fs
                | None \<Rightarrow> fs)
            in case migration_transition t m CANCELLED of
                 Inl e \<Rightarrow> (Inl e, st, fs1)
               | Inr m1 \<Rightarrow> (Inr m1, put_migration m1 st, fs1)))"

definition mig_force_fail :: "time \<Rightarrow> string \<Rightarrow> string \<Rightarrow> etcd \<Rightarrow> shard_migration res \<times> etcd" where
  "mig_force_fail t mid error st =
     (case mig_require st mid of
        Inl e \<Rightarrow> (Inl e, st)
      | Inr m \<Rightarrow>
          if is_terminal m then
            (Inl (MigrationStateError (mg_id m)
                    (''cannot fail a terminal migration (state=''
                     @ migration_state_value (mg_state m) @ '')'')), st)
          else (let (m1, st1) = mig_fail t m error st in (Inr m1, st1)))"

subsection \<open>The rebalancing recommendation\<close>

record recommendation =
  rc_namespace :: string
  rc_shard_id :: string
  rc_current_owner :: string
  rc_recommended_target :: string
  rc_reason :: string

definition key_less :: "int \<times> string \<Rightarrow> int \<times> string \<Rightarrow> bool" where
  "key_less a b = (fst a < fst b \<or> (fst a = fst b \<and> snd a < snd b))"

text \<open>Python's \<open>min(xs, key=...)\<close> on a non-empty iterable: the first minimal element.\<close>

fun py_min :: "('a \<Rightarrow> int \<times> string) \<Rightarrow> 'a \<Rightarrow> 'a list \<Rightarrow> 'a" where
  "py_min f best [] = best"
| "py_min f best (x # xs) = py_min f (if key_less (f x) (f best) then x else best) xs"

definition known_members :: "etcd \<Rightarrow> string list" where
  "known_members st = sort (map cn_node_id
     (filter (\<lambda>n. node_state_value (cn_state n) \<noteq> ''REMOVED'') (list_nodes st)))"

text \<open>\<open>owner_shards\<close>: per known owner, its migratable shards in listing order.\<close>

definition group_owner :: "heap \<Rightarrow> string list \<Rightarrow> sref list \<Rightarrow> (string, sref list) dict" where
  "group_owner h known shards =
     fold (\<lambda>r d. if sh_node_id (h r) \<in> set known then
                  dict_put (sh_node_id (h r))
                    ((case dict_get d (sh_node_id (h r)) of None \<Rightarrow> [] | Some l \<Rightarrow> l) @ [r]) d
                else d) shards []"

definition owned_count :: "(string, sref list) dict \<Rightarrow> string \<Rightarrow> int" where
  "owned_count d n = (case dict_get d n of None \<Rightarrow> 0 | Some l \<Rightarrow> int (length l))"

definition recommend_namespace :: "etcd \<Rightarrow> string list \<Rightarrow> string \<Rightarrow> recommendation option" where
  "recommend_namespace st known ns =
     (let h = e_heap st;
          shards = filter (\<lambda>r. sh_state (h r) \<in> migratable_states) (list_by_namespace st ns)
      in if shards = [] then None
         else (let owners = group_owner h known shards
               in case map fst owners of
                    [] \<Rightarrow> None
                  | o1 # os \<Rightarrow>
                      (let source = py_min (\<lambda>n. (- owned_count owners n, n)) o1 os;
                           source_count = owned_count owners source
                       in if source_count \<le> 1 then None
                          else (case filter (\<lambda>n. n \<noteq> source) known of
                              [] \<Rightarrow> None
                            | t1 # ts \<Rightarrow>
                                (let target = py_min (\<lambda>n. (owned_count owners n, n)) t1 ts
                                 in if owned_count owners target \<ge> source_count then None
                                    else (case dict_get owners source of
                                        None \<Rightarrow> None
                                      | Some l \<Rightarrow>
                                          (case sort_key (\<lambda>r. sh_id (h r)) l of
                                             [] \<Rightarrow> None
                                           | c # _ \<Rightarrow>
                                               Some \<lparr>rc_namespace = ns, rc_shard_id = sh_id (h c),
                                                 rc_current_owner = source,
                                                 rc_recommended_target = target,
                                                 rc_reason = ''current owner '' @ py_repr source
                                                   @ '' holds '' @ int_str source_count
                                                   @ '' shards; candidate target ''
                                                   @ py_repr target @ '' holds ''
                                                   @ int_str (owned_count owners target)
                                                   @ '' (deterministic read-only recommendation; ''
                                                   @ ''rebalance is NOT automatic)''\<rparr>)))))))"

definition recommend_rebalance :: "etcd \<Rightarrow> recommendation list" where
  "recommend_rebalance st =
     concat (map (\<lambda>ns. case recommend_namespace st (known_members st) ns of
                     None \<Rightarrow> [] | Some x \<Rightarrow> [x])
       (sort (remdups (map (\<lambda>r. sh_namespace (e_heap st r)) (etcd_all st)))))"

subsection \<open>What the steps change\<close>

lemma mig_fail_cases:
  "(\<exists>m'. migration_transition t m FAILED = Inr m' \<and>
      mig_fail t m error st = (m'\<lparr>mg_error := Some error\<rparr>, put_migration (m'\<lparr>mg_error := Some error\<rparr>) st)) \<or>
   (is_terminal m \<and>
      mig_fail t m error st = (m\<lparr>mg_error := Some error\<rparr>, put_migration (m\<lparr>mg_error := Some error\<rparr>) st))"
proof (cases "is_terminal m")
  case True
  then have "migration_transition t m FAILED = Inr m' \<Longrightarrow> False" for m'
    by (simp add: migration_transition_ok is_terminal_transitions)
  with True show ?thesis
    by (cases "migration_transition t m FAILED") (auto simp: mig_fail_def Let_def)
next
  case False
  then obtain m' where "migration_transition t m FAILED = Inr m'"
    using nonterminal_can_fail migration_machine.step_iff by blast
  then show ?thesis by (simp add: mig_fail_def Let_def)
qed

text \<open>A migration as a later version of itself: same identity, its state further along the table.\<close>

definition same_identity :: "shard_migration \<Rightarrow> shard_migration \<Rightarrow> bool" where
  "same_identity m m' \<longleftrightarrow>
     mg_id m' = mg_id m \<and> mg_namespace m' = mg_namespace m \<and> mg_shard_id m' = mg_shard_id m \<and>
     mg_source m' = mg_source m \<and> mg_target m' = mg_target m \<and>
     mg_source_version m' = mg_source_version m \<and> mg_cluster_id m' = mg_cluster_id m \<and>
     mg_created_at m' = mg_created_at m"

definition evolves :: "shard_migration \<Rightarrow> shard_migration \<Rightarrow> bool" where
  "evolves m m' \<longleftrightarrow> same_identity m m' \<and>
     (\<exists>ts. legal_path migration_transitions (mg_state m) ts \<and>
        mg_state m' = last (mg_state m # ts) \<and> mg_version m' = mg_version m + int (length ts))"

lemma same_identity_refl [simp]: "same_identity m m"
  by (simp add: same_identity_def)

lemma same_identity_trans: "same_identity m m' \<Longrightarrow> same_identity m' m'' \<Longrightarrow> same_identity m m''"
  by (simp add: same_identity_def)

lemma evolves_refl [simp]: "evolves m m"
  by (auto simp: evolves_def intro: exI [of _ "[]"])

lemma evolves_trans: "evolves m m' \<Longrightarrow> evolves m' m'' \<Longrightarrow> evolves m m''"
proof -
  assume a: "evolves m m'" "evolves m' m''"
  then obtain xs ys where x: "legal_path migration_transitions (mg_state m) xs"
    "mg_state m' = last (mg_state m # xs)" "mg_version m' = mg_version m + int (length xs)"
    and y: "legal_path migration_transitions (mg_state m') ys"
    "mg_state m'' = last (mg_state m' # ys)" "mg_version m'' = mg_version m' + int (length ys)"
    by (auto simp: evolves_def)
  then have "legal_path migration_transitions (mg_state m) (xs @ ys) \<and>
      mg_state m'' = last (mg_state m # xs @ ys) \<and>
      mg_version m'' = mg_version m + int (length (xs @ ys))"
    by (auto simp: legal_path_append last_append)
  with a show ?thesis
    unfolding evolves_def using same_identity_trans by blast
qed

lemma evolves_transition: "migration_transition t m to = Inr m' \<Longrightarrow> evolves m m'"
  unfolding evolves_def
  by (intro conjI exI [of _ "[to]"]) (auto simp: same_identity_def migration_transition_ok)

lemma evolves_transition': "Inr m' = migration_transition t m to \<Longrightarrow> evolves m m'"
  by (rule evolves_transition) simp

lemma evolves_fields:
  "evolves m (m'\<lparr>mg_error := e\<rparr>) = evolves m m'"
  "evolves m (m'\<lparr>mg_source_digest := d\<rparr>) = evolves m m'"
  "evolves m (m'\<lparr>mg_target_digest := d\<rparr>) = evolves m m'"
  "evolves m (m'\<lparr>mg_finalized := b\<rparr>) = evolves m m'"
  by (simp_all add: evolves_def same_identity_def)

lemma evolves_terminal: "evolves m m' \<Longrightarrow> is_terminal m \<Longrightarrow> mg_state m' = mg_state m"
proof -
  assume "evolves m m'" "is_terminal m"
  then obtain ts where "legal_path migration_transitions (mg_state m) ts"
    "mg_state m' = last (mg_state m # ts)" "migration_transitions (mg_state m) = {}"
    by (auto simp: evolves_def is_terminal_transitions)
  then show ?thesis by (cases ts) auto
qed

lemma mig_fail_evolves:
  "\<exists>m'. mig_fail t m error st = (m', put_migration m' st) \<and> evolves m m' \<and> is_terminal m' \<and>
     mg_source_digest m' = mg_source_digest m \<and> mg_target_digest m' = mg_target_digest m \<and>
     (\<not> is_terminal m \<longrightarrow> mg_state m' = FAILED) \<and> mg_error m' = Some error \<and>
     (mg_state m' = FAILED \<or> mg_state m' = mg_state m)"
  using mig_fail_cases [of t m error st]
proof (elim disjE exE conjE)
  fix m' assume m': "migration_transition t m FAILED = Inr m'"
    "mig_fail t m error st = (m'\<lparr>mg_error := Some error\<rparr>, put_migration (m'\<lparr>mg_error := Some error\<rparr>) st)"
  show ?thesis
    by (rule exI [of _ "m'\<lparr>mg_error := Some error\<rparr>"])
      (use m' evolves_transition [OF m'(1)] in
        \<open>simp add: evolves_fields migration_transition_ok is_terminal_iff\<close>)
next
  assume "is_terminal m"
    "mig_fail t m error st = (m\<lparr>mg_error := Some error\<rparr>, put_migration (m\<lparr>mg_error := Some error\<rparr>) st)"
  then show ?thesis
    by (intro exI [of _ "m\<lparr>mg_error := Some error\<rparr>"]) (simp add: evolves_fields is_terminal_iff)
qed

lemma assert_source_valid_ok:
  "assert_source_valid t m st = (Inr r, st') \<longleftrightarrow>
     st' = st \<and> etcd_get st (mg_shard_id m) = Some r \<and> sh_state (e_heap st r) \<in> migratable_states \<and>
     sh_node_id (e_heap st r) = mg_source m \<and> sh_version (e_heap st r) = mg_source_version m"
  by (auto simp: assert_source_valid_def Let_def split: option.splits if_splits)

lemma assert_source_valid_err:
  "assert_source_valid t m st = (Inl e, st') \<Longrightarrow>
     \<exists>why error. e = MigrationSourceError (mg_source m) why \<and> st' = snd (mig_fail t m error st)"
  by (auto simp: assert_source_valid_def Let_def split: option.splits if_splits)

lemma mig_require_ok: "mig_require st mid = Inr m \<longleftrightarrow> get_migration st mid = Some m"
  by (auto simp: mig_require_def split: option.splits)

lemma mig_require_state_ok: "mig_require_state m s = Inr u \<longleftrightarrow> mg_state m = s"
  by (simp add: mig_require_state_def)

text \<open>
  One request changes at most one stored migration, to a later version of itself, and leaves the
  objects, the shard table, the members and the well-formedness alone; \<open>touches\<close> says so.
\<close>

definition touches :: "string \<Rightarrow> etcd \<Rightarrow> etcd \<Rightarrow> bool" where
  "touches mid st st' \<longleftrightarrow>
     e_heap st' = e_heap st \<and> e_data st' = e_data st \<and> e_nodes st' = e_nodes st \<and>
     e_next st' = e_next st \<and> (wf_etcd st \<longrightarrow> wf_etcd st') \<and>
     (get_migration st' = get_migration st \<or>
      (\<exists>m m'. get_migration st mid = Some m \<and> evolves m m' \<and>
         get_migration st' = (get_migration st)(mid \<mapsto> m')))"

lemma touches_refl [simp]: "touches mid st st"
  by (simp add: touches_def)

lemma touches_put:
  assumes "wf_etcd st" "get_migration st mid = Some m" "evolves m m'"
  shows "touches mid st (put_migration m' st)"
proof -
  have "mg_id m' = mid"
    using assms get_migration_key [OF assms(1,2)] by (simp add: evolves_def same_identity_def)
  with assms show ?thesis by (auto simp: touches_def get_migration_put_migration wf_put_migration)
qed

lemma touches_put2:
  assumes "wf_etcd st" "get_migration st mid = Some m" "evolves m m1" "evolves m1 m2"
  shows "touches mid st (put_migration m2 (put_migration m1 st))"
proof -
  have "mg_id m1 = mid" "mg_id m2 = mid"
    using assms get_migration_key [OF assms(1,2)] by (simp_all add: evolves_def same_identity_def)
  with assms evolves_trans [OF assms(3,4)] show ?thesis
    by (auto simp: touches_def get_migration_put_migration wf_put_migration)
qed

lemma touches_fail:
  assumes "wf_etcd st" "get_migration st mid = Some m"
  shows "touches mid st (snd (mig_fail t m error st))"
  using mig_fail_evolves [of t m error st] touches_put [OF assms] by auto

text \<open>The migration itself is as before, or observably FAILED.\<close>

definition keeps_or_fails :: "string \<Rightarrow> etcd \<Rightarrow> etcd \<Rightarrow> bool" where
  "keeps_or_fails mid st st' \<longleftrightarrow> get_migration st' mid = get_migration st mid \<or>
     (\<exists>m'. get_migration st' mid = Some m' \<and> mg_state m' = FAILED)"

lemma keeps_or_fails_refl [simp]: "keeps_or_fails mid st st"
  by (simp add: keeps_or_fails_def)

lemma keeps_or_fails_fail:
  assumes "mg_id m = mid" "\<not> is_terminal m"
  shows "keeps_or_fails mid st0 (snd (mig_fail t m error st))"
proof -
  obtain m' where m': "mig_fail t m error st = (m', put_migration m' st)" "evolves m m'"
    "mg_state m' = FAILED"
    using mig_fail_evolves [of t m error st] assms(2) by blast
  then have "mg_id m' = mid" using assms(1) by (simp add: evolves_def same_identity_def)
  with m' show ?thesis by (simp add: keeps_or_fails_def get_migration_put_migration)
qed

lemma touches_put_fail:
  assumes "wf_etcd st" "get_migration st mid = Some m" "evolves m m1" "evolves m1 m2"
  shows "touches mid st (snd (mig_fail t m2 error (put_migration m1 st)))"
proof -
  obtain m3 where m3: "mig_fail t m2 error (put_migration m1 st) = (m3, put_migration m3 (put_migration m1 st))"
    "evolves m2 m3"
    using mig_fail_evolves [of t m2 error "put_migration m1 st"] by blast
  with touches_put2 [OF assms(1-3) evolves_trans [OF assms(4) m3(2)]] show ?thesis by simp
qed

lemma copy_data_evolves:
  "copy_data T s m fs = (x, m', fs') \<Longrightarrow> evolves m m' \<and> mg_state m' = mg_state m"
  by (auto simp: copy_data_def Let_def evolves_fields split: sum.splits prod.splits)

lemma prepare_touches:
  assumes "wf_etcd st" "mig_prepare t mid st = (x, st')"
  shows "touches mid st st'"
  using assms
  by (auto simp: mig_prepare_def mig_require_ok assert_source_valid_ok
      split: sum.splits prod.splits dest!: assert_source_valid_err
      intro: touches_fail touches_put evolves_transition evolves_transition')

lemma start_copy_touches:
  assumes "wf_etcd st" "start_copy T t1 t2 mid (st, fs) = (x, st', fs')"
  shows "touches mid st st'"
  using assms
  by (auto simp: start_copy_def Let_def mig_require_ok assert_source_valid_ok
      split: sum.splits prod.splits if_splits dest!: assert_source_valid_err copy_data_evolves
      intro: touches_fail touches_put touches_put2 touches_put_fail evolves_transition evolves_transition')

lemma verify_touches:
  assumes "wf_etcd st" "mig_verify T t1 t2 mid (st, fs) = (x, st', fs')"
  shows "touches mid st st'"
  using assms
  by (auto simp: mig_verify_def Let_def mig_require_ok assert_source_valid_ok evolves_fields
      split: sum.splits prod.splits if_splits dest!: assert_source_valid_err
      intro: touches_fail touches_put touches_put2 touches_put_fail evolves_transition evolves_transition')

lemma cancel_touches:
  assumes "wf_etcd st" "mig_cancel T t mid (st, fs) = (x, st', fs')"
  shows "touches mid st st'"
  using assms
  by (auto simp: mig_cancel_def Let_def mig_require_ok
      split: sum.splits prod.splits if_splits option.splits
      intro: touches_put evolves_transition evolves_transition')

lemma force_fail_touches:
  assumes "wf_etcd st" "mig_force_fail t mid error st = (x, st')"
  shows "touches mid st st'"
proof (cases "get_migration st mid")
  case (Some m)
  obtain m' where m': "mig_fail t m error st = (m', put_migration m' st)" "evolves m m'"
    using mig_fail_evolves [of t m error st] by blast
  with assms Some touches_put [OF assms(1) Some m'(2)] show ?thesis
    by (auto simp: mig_force_fail_def mig_require_def split: if_splits)
qed (use assms in \<open>simp add: mig_force_fail_def mig_require_def\<close>)

subsection \<open>The ownership boundary\<close>

lemma validate_member_ok:
  "validate_member mcid st nid kind = Inr u \<longleftrightarrow>
     known_member st nid \<and> validate_cluster_id mcid st nid = Inr ()"
proof (cases "validate_node st nid")
  case (Inl e)
  then have "\<not> known_member st nid" using validate_node_ok [of st nid "()"] by simp
  with Inl show ?thesis by (simp add: validate_member_def split: exn.splits)
next
  case (Inr v)
  then have "known_member st nid" using validate_node_ok by blast
  with Inr show ?thesis
    by (cases "validate_cluster_id mcid st nid") (simp_all add: validate_member_def split: exn.splits)
qed

lemma validate_ownership_no_migration_error:
  "validate_ownership s None None = Inl e \<Longrightarrow> \<not> is_MigrationError e"
  by (auto simp: validate_ownership_def Let_def owner_conflict_def split: if_splits)

lemma validate_replicas_no_migration_error:
  "validate_replicas st rs = Inl e \<Longrightarrow> \<not> is_MigrationError e"
  by (auto dest!: validate_replicas_err simp: validate_node_err)

definition committed_shard :: "shard_migration \<Rightarrow> shard \<Rightarrow> shard" where
  "committed_shard m s = s\<lparr>sh_node_id := mg_target m,
     sh_replicas := filter (\<lambda>x. x \<noteq> mg_target m) (sh_replicas s), sh_version := sh_version s + 1\<rparr>"

lemma ownership_commit_ok:
  "ownership_commit m r st = (Inr u, st') \<longleftrightarrow>
     mg_target m \<noteq> [] \<and> (\<forall>x \<in> set (sh_replicas (e_heap st r)) - {mg_target m}. known_member st x) \<and>
     st' = etcd_put r (assign r (committed_shard m (e_heap st r)) st)"
proof -
  let ?c = "committed_shard m (e_heap st r)"
  have k: "known_member (assign r s st) = known_member st" for s
    by (rule known_member_cong) simp
  have c: "ownership_commit m r st =
     (case validate_ownership ?c None None of
        Inl e \<Rightarrow> (Inl e, assign r ?c st)
      | Inr _ \<Rightarrow> (case validate_replicas (assign r ?c st) (sh_replicas ?c) of
          Inl e \<Rightarrow> (Inl e, assign r ?c st)
        | Inr _ \<Rightarrow> (Inr (), etcd_put r (assign r ?c st))))"
    by (simp add: ownership_commit_def committed_shard_def Let_def split: sum.split)
  have v: "(\<exists>s. validate_ownership ?c None None = Inr s) \<longleftrightarrow> mg_target m \<noteq> []"
    by (auto simp: validate_ownership_ok committed_shard_def)
  have w: "validate_replicas (assign r ?c st) (sh_replicas ?c) = Inr () \<longleftrightarrow>
      (\<forall>x \<in> set (sh_replicas (e_heap st r)) - {mg_target m}. known_member st x)"
    unfolding validate_replicas_ok k by (auto simp: committed_shard_def)
  show ?thesis
    unfolding c v [symmetric] w [symmetric]
    by (cases "validate_ownership ?c None None";
        cases "validate_replicas (assign r ?c st) (sh_replicas ?c)") auto
qed

lemma ownership_commit_err:
  "ownership_commit m r st = (Inl e, st') \<Longrightarrow>
     \<not> is_MigrationError e \<and> st' = assign r (committed_shard m (e_heap st r)) st"
  by (auto simp: ownership_commit_def Let_def committed_shard_def split: sum.splits
      dest: validate_ownership_no_migration_error validate_replicas_no_migration_error)

text \<open>A commit that raises leaves every shard as it was, on every path.\<close>

lemma shard_restore:
  "(committed_shard m s)\<lparr>sh_node_id := sh_node_id s, sh_replicas := sh_replicas s,
     sh_version := sh_version s\<rparr> = s"
  by (simp add: committed_shard_def)

lemma assign_same_heap: "e_heap (assign r (e_heap st r) st) = e_heap st"
  by simp

lemma commit_rollback:
  assumes "wf_etcd st" "get_migration st mid = Some m" "evolves m m1"
  shows "touches mid st (snd (mig_fail t m1 error
    (assign r (e_heap st r) (assign r s (put_migration m1 st)))))"
proof -
  obtain m' where m': "mig_fail t m1 error (assign r (e_heap st r) (assign r s (put_migration m1 st))) =
      (m', put_migration m' (assign r (e_heap st r) (assign r s (put_migration m1 st))))" "evolves m1 m'"
    using mig_fail_evolves [of t m1 error "assign r (e_heap st r) (assign r s (put_migration m1 st))"]
    by blast
  have ids: "mg_id m1 = mid" "mg_id m' = mid"
    using get_migration_key [OF assms(1,2)] assms(3) m'(2)
    by (simp_all add: evolves_def same_identity_def)
  have "wf_etcd (put_migration m1 st)" by (simp add: wf_put_migration assms(1))
  then have "wf_etcd (put_migration m' (assign r (e_heap st r) (assign r s (put_migration m1 st))))"
    by (simp add: wf_etcd_def wf_shards_def keyed_dict_put)
  with ids assms(2) evolves_trans [OF assms(3) m'(2)] m'(1) show ?thesis
    by (auto simp: touches_def get_migration_put_migration)
qed

lemma commit_error:
  assumes "wf_etcd st" "mig_commit T mcid t1 t2 mid (st, fs) = (Inl e, st', fs')"
  shows "touches mid st st' \<and> keeps_or_fails mid st st'"
proof (cases "get_migration st mid")
  case (Some m)
  note wf = assms(1)
  have mid: "mg_id m = mid" by (rule get_migration_key [OF wf Some])
  show ?thesis
  proof (cases "mg_state m = VERIFYING")
    case False
    with assms(2) Some show ?thesis by (simp add: mig_commit_def mig_require_def mig_require_state_def)
  next
    case st: True
    let ?m1 = "m\<lparr>mg_state := COMMITTING, mg_version := mg_version m + 1, mg_updated_at := t1\<rparr>"
    have tr: "migration_transition t1 m COMMITTING = Inr ?m1"
      using st by (simp add: migration_transition_ok)
    note ev = evolves_transition [OF tr]
    show ?thesis
    proof (cases "assert_source_valid t1 m st")
      case (Pair x st1)
      show ?thesis
      proof (cases x)
        case (Inl e1)
        with Pair assms(2) Some st show ?thesis
          by (auto simp: mig_commit_def mig_require_def mig_require_state_def
              dest!: assert_source_valid_err
              intro: touches_fail [OF wf Some] keeps_or_fails_fail [OF mid] simp: is_terminal_iff)
      next
        case (Inr r)
        with Pair have r: "st1 = st" "assert_source_valid t1 m st = (Inr r, st)"
          by (auto simp: assert_source_valid_ok)
        show ?thesis
        proof (cases "validate_member mcid st (mg_target m) ''target''")
          case (Inl e1)
          with r assms(2) Some st show ?thesis
            by (simp add: mig_commit_def mig_require_def mig_require_state_def)
        next
          case v: (Inr u)
          show ?thesis
          proof (cases "ownership_commit ?m1 r (put_migration ?m1 st)")
            case oc: (Pair y st3)
            show ?thesis
            proof (cases y)
              case (Inl e2)
              note oe = ownership_commit_err [OF oc [unfolded Inl]]
              have restored: "(e_heap st3 r)\<lparr>sh_node_id := sh_node_id (e_heap st r),
                  sh_replicas := sh_replicas (e_heap st r), sh_version := sh_version (e_heap st r)\<rparr>
                = e_heap st r"
                using oe by (simp add: committed_shard_def)
              have "st' = snd (mig_fail t2 ?m1 (''ownership commit failed: '' @ exn_str e2)
                  (assign r (e_heap st r) st3))"
                using assms(2) Some st r v tr oc Inl oe restored
                by (simp add: mig_commit_def mig_require_def mig_require_state_def Let_def)
              with oe commit_rollback [OF wf Some ev] show ?thesis
                using mid by (simp add: keeps_or_fails_fail is_terminal_iff)
            next
              case (Inr u2)
              have "\<exists>m3. migration_transition t2 (m2 :: shard_migration) COMPLETED = Inr m3"
                if "mg_state m2 = COMMITTING" for m2
                using that by (simp add: migration_transition_ok)
              then show ?thesis
                using assms(2) Some st r v tr oc Inr
                by (auto simp: mig_commit_def mig_require_def mig_require_state_def Let_def
                    migration_transition_def split: prod.splits sum.splits if_splits)
            qed
          qed
        qed
      qed
    qed
  qed
qed (use assms in \<open>simp add: mig_commit_def mig_require_def\<close>)

text \<open>A commit that returns moved the ownership of exactly one shard, to a known member.\<close>

lemma commit_ok:
  assumes "wf_etcd st" "mig_commit T mcid t1 t2 mid (st, fs) = (Inr m', st', fs')"
  shows "\<exists>m r. get_migration st mid = Some m \<and> mg_state m = VERIFYING \<and>
    etcd_get st (mg_shard_id m) = Some r \<and> sh_state (e_heap st r) \<in> migratable_states \<and>
    sh_node_id (e_heap st r) = mg_source m \<and> sh_version (e_heap st r) = mg_source_version m \<and>
    known_member st (mg_target m) \<and> mg_target m \<noteq> [] \<and>
    (\<forall>x \<in> set (sh_replicas (e_heap st r)) - {mg_target m}. known_member st x) \<and>
    e_heap st' = (e_heap st)(r := committed_shard m (e_heap st r)) \<and> e_data st' = e_data st \<and>
    e_nodes st' = e_nodes st \<and> e_next st' = e_next st \<and> mg_state m' = COMPLETED \<and> evolves m m' \<and>
    mg_source_digest m' = mg_source_digest m \<and> mg_target_digest m' = mg_target_digest m \<and>
    get_migration st' = (get_migration st)(mid \<mapsto> m') \<and>
    fs' = snd (to_finalize T (mg_source m) (committed_shard m (e_heap st r)) fs) \<and> wf_etcd st'"
proof -
  obtain m where m: "get_migration st mid = Some m" "mg_state m = VERIFYING"
    using assms(2)
    by (auto simp: mig_commit_def mig_require_ok mig_require_state_ok split: sum.splits)
  let ?m1 = "m\<lparr>mg_state := COMMITTING, mg_version := mg_version m + 1, mg_updated_at := t1\<rparr>"
  have tr: "migration_transition t1 m COMMITTING = Inr ?m1"
    using m(2) by (simp add: migration_transition_ok)
  obtain r where r: "assert_source_valid t1 m st = (Inr r, st)"
  proof (cases "assert_source_valid t1 m st")
    case (Pair x st1)
    with assms(2) m obtain r where "x = Inr r"
      by (cases x) (auto simp: mig_commit_def mig_require_def mig_require_state_def)
    with Pair that show thesis by (auto simp: assert_source_valid_ok)
  qed
  have v: "validate_member mcid st (mg_target m) ''target'' = Inr ()"
    using assms(2) m r
    by (cases "validate_member mcid st (mg_target m) ''target''")
      (auto simp: mig_commit_def mig_require_def mig_require_state_def)
  obtain y st3 where oc: "ownership_commit ?m1 r (put_migration ?m1 st) = (y, st3)" by force
  have y: "y = Inr ()"
    using assms(2) m r v tr oc
    by (cases y) (auto simp: mig_commit_def mig_require_def mig_require_state_def Let_def
        split: if_splits)
  have k: "known_member (put_migration ?m1 st) = known_member st"
    by (rule known_member_cong) simp
  have c: "mg_target m \<noteq> []"
    "\<forall>x \<in> set (sh_replicas (e_heap st r)) - {mg_target m}. known_member st x"
    "st3 = etcd_put r (assign r (committed_shard ?m1 (e_heap st r)) (put_migration ?m1 st))"
    using oc [unfolded y ownership_commit_ok] k by auto
  have cs: "committed_shard ?m1 = committed_shard m" by (simp add: committed_shard_def fun_eq_iff)
  have sid: "sh_id (e_heap st r) = mg_shard_id m" "etcd_get st (mg_shard_id m) = Some r"
    using r wf_get [OF assms(1)] by (auto simp: assert_source_valid_ok)
  then have data: "dict_put (sh_id (committed_shard m (e_heap st r))) r (e_data st) = e_data st"
    by (simp add: etcd_get_def committed_shard_def dict_put_same)
  obtain f fs1 where f: "to_finalize T (mg_source m) (committed_shard m (e_heap st r)) fs = (f, fs1)"
    by force
  define m2 where "m2 = (case f of Inr _ \<Rightarrow> ?m1\<lparr>mg_finalized := True\<rparr>
     | Inl e \<Rightarrow> ?m1\<lparr>mg_error := Some (''source finalization failed after ownership commit: ''
         @ exn_str e), mg_finalized := False\<rparr>)"
  have m2: "mg_state m2 = COMMITTING" "evolves m m2" "mg_source_digest m2 = mg_source_digest m"
    "mg_target_digest m2 = mg_target_digest m"
    using evolves_transition [OF tr] by (auto simp: m2_def evolves_fields split: sum.splits)
  let ?m3 = "m2\<lparr>mg_state := COMPLETED, mg_version := mg_version m2 + 1, mg_updated_at := t2\<rparr>"
  have tr2: "migration_transition t2 m2 COMPLETED = Inr ?m3"
    using m2(1) by (simp add: migration_transition_ok)
  have eq: "m' = ?m3" "st' = put_migration ?m3 st3" "fs' = fs1"
    using assms(2) m r v tr oc y f tr2 c(3) cs
    by (cases f; simp add: mig_commit_def mig_require_def mig_require_state_def Let_def m2_def)+
  have ids: "mg_id m = mid" "mg_id ?m3 = mid"
    using get_migration_key [OF assms(1) m(1)] m2(2) by (auto simp: evolves_def same_identity_def)
  have "wf_etcd (put_migration ?m1 st)" using assms(1) by (rule wf_put_migration)
  then have wf3: "wf_etcd st3"
    using c(3) data by (simp add: wf_etcd_def wf_shards_def committed_shard_def)
  show ?thesis
    apply (rule exI [of _ m], rule exI [of _ r])
    using wf_put_migration [OF wf3] m r v c eq cs data f sid ids m2 evolves_trans [OF m2(2) evolves_transition [OF tr2]]
    by (simp add: assert_source_valid_ok validate_member_ok get_migration_put_migration
        committed_shard_def)
qed

subsection \<open>The manager as a machine\<close>

text \<open>The requests an operator can make; clock readings and the fresh id are part of a request.\<close>

datatype mig_request =
    MigCreate string time time string string string
  | MigPrepare time string
  | MigCopy time time string
  | MigVerify time time string
  | MigCommit time time string
  | MigCancel time string
  | MigFail time string string

fun mig_request_id :: "mig_request \<Rightarrow> string" where
  "mig_request_id (MigCreate mid t1 t2 ns sid target) = mid"
| "mig_request_id (MigPrepare t mid) = mid"
| "mig_request_id (MigCopy t1 t2 mid) = mid"
| "mig_request_id (MigVerify t1 t2 mid) = mid"
| "mig_request_id (MigCommit t1 t2 mid) = mid"
| "mig_request_id (MigCancel t mid) = mid"
| "mig_request_id (MigFail t mid error) = mid"

fun is_create :: "mig_request \<Rightarrow> bool" where
  "is_create (MigCreate mid t1 t2 ns sid target) = True"
| "is_create _ = False"

fun is_commit :: "mig_request \<Rightarrow> bool" where
  "is_commit (MigCommit t1 t2 mid) = True"
| "is_commit _ = False"

fun mig_serve ::
    "('x, 'fs) transfer_ops \<Rightarrow> string \<Rightarrow> string \<Rightarrow> mig_request \<Rightarrow> etcd \<times> 'fs \<Rightarrow>
     shard_migration res \<times> etcd \<times> 'fs" where
  "mig_serve T cid mcid (MigCreate mid t1 t2 ns sid target) (st, fs) =
     (let (x, st') = create_migration cid mcid mid t1 t2 ns sid target st in (x, st', fs))"
| "mig_serve T cid mcid (MigPrepare t mid) (st, fs) =
     (let (x, st') = mig_prepare t mid st in (x, st', fs))"
| "mig_serve T cid mcid (MigCopy t1 t2 mid) (st, fs) = start_copy T t1 t2 mid (st, fs)"
| "mig_serve T cid mcid (MigVerify t1 t2 mid) (st, fs) = mig_verify T t1 t2 mid (st, fs)"
| "mig_serve T cid mcid (MigCommit t1 t2 mid) (st, fs) = mig_commit T mcid t1 t2 mid (st, fs)"
| "mig_serve T cid mcid (MigCancel t mid) (st, fs) = mig_cancel T t mid (st, fs)"
| "mig_serve T cid mcid (MigFail t mid error) (st, fs) =
     (let (x, st') = mig_force_fail t mid error st in (x, st', fs))"

lemma create_cases:
  assumes "create_migration cid mcid mid t1 t2 ns sid target st = (x, st')"
  shows "(\<exists>e. x = Inl e \<and> st' = st) \<or>
    (\<exists>m r. x = Inr m \<and> st' = put_migration m st \<and> mg_id m = mid \<and> mg_shard_id m = sid \<and>
       mg_state m = PENDING \<and> mg_version m = 1 \<and> etcd_get st sid = Some r \<and>
       sh_state (e_heap st r) \<in> migratable_states \<and> sh_namespace (e_heap st r) = ns \<and>
       mg_source m = sh_node_id (e_heap st r) \<and> mg_source m \<noteq> [] \<and> mg_target m = target \<and>
       mg_source_version m = sh_version (e_heap st r) \<and> mg_target m \<noteq> mg_source m \<and>
       known_member st (mg_source m) \<and> known_member st (mg_target m) \<and>
       (\<forall>q \<in> set (list_migrations st). mg_shard_id q = sid \<longrightarrow> is_terminal q))"
  using assms
  by (auto simp: create_migration_def Let_def require_owner_def validate_member_ok find_None_iff
      split: option.splits if_splits sum.splits)

lemma mig_serve_touches:
  assumes wf: "wf_etcd st" and serve: "mig_serve T cid mcid q (st, fs) = (x, st', fs')"
    and "\<not> is_create q" "\<not> is_commit q \<or> (\<exists>e. x = Inl e)"
  shows "touches (mig_request_id q) st st'"
proof (cases q)
  case (MigCommit t1 t2 mid)
  with assms(2-4) obtain e where "x = Inl e" by auto
  with MigCommit assms(1,2) show ?thesis by (simp add: commit_error)
next
  case (MigPrepare t mid)
  with serve show ?thesis by (auto split: prod.splits intro: prepare_touches [OF wf])
next
  case (MigCopy t1 t2 mid)
  with serve show ?thesis by (auto intro: start_copy_touches [OF wf])
next
  case (MigVerify t1 t2 mid)
  with serve show ?thesis by (auto intro: verify_touches [OF wf])
next
  case (MigCancel t mid)
  with serve show ?thesis by (auto intro: cancel_touches [OF wf])
next
  case (MigFail t mid error)
  with serve show ?thesis by (auto split: prod.splits intro: force_fail_touches [OF wf])
qed (use assms in simp)

subsection \<open>At most one migration of a shard is in progress\<close>

definition one_in_progress :: "etcd \<Rightarrow> bool" where
  "one_in_progress st \<longleftrightarrow>
     (\<forall>k k' m m'. get_migration st k = Some m \<and> get_migration st k' = Some m' \<and>
        mg_shard_id m = mg_shard_id m' \<and> \<not> is_terminal m \<and> \<not> is_terminal m' \<longrightarrow> k = k')"

lemma evolves_nonterminal:
  assumes "evolves m m'" "\<not> is_terminal m'"
  shows "\<not> is_terminal m \<and> mg_shard_id m' = mg_shard_id m"
proof
  show "\<not> is_terminal m"
  proof
    assume t: "is_terminal m"
    with evolves_terminal [OF assms(1)] have "is_terminal m'" by (simp add: is_terminal_iff)
    with assms(2) show False by simp
  qed
  show "mg_shard_id m' = mg_shard_id m"
    using assms(1) by (simp add: evolves_def same_identity_def)
qed

lemma one_in_progress_update:
  assumes "one_in_progress st" "get_migration st k0 = Some m" "evolves m m'"
    "get_migration st' = (get_migration st)(k0 \<mapsto> m')"
  shows "one_in_progress st'"
  unfolding one_in_progress_def
proof (intro allI impI)
  fix k k' a b
  assume h: "get_migration st' k = Some a \<and> get_migration st' k' = Some b \<and>
    mg_shard_id a = mg_shard_id b \<and> \<not> is_terminal a \<and> \<not> is_terminal b"
  obtain a0 where a0: "get_migration st k = Some a0" "mg_shard_id a0 = mg_shard_id a" "\<not> is_terminal a0"
    using h assms(2-4) evolves_nonterminal [OF assms(3)] by (auto split: if_splits)
  obtain b0 where b0: "get_migration st k' = Some b0" "mg_shard_id b0 = mg_shard_id b" "\<not> is_terminal b0"
    using h assms(2-4) evolves_nonterminal [OF assms(3)] by (auto split: if_splits)
  from assms(1) a0 b0 h show "k = k'" unfolding one_in_progress_def by metis
qed

lemma one_in_progress_cong:
  "get_migration st' = get_migration st \<Longrightarrow> one_in_progress st \<Longrightarrow> one_in_progress st'"
  by (simp add: one_in_progress_def)

lemma one_in_progress_touches:
  assumes "one_in_progress st" "touches mid st st'"
  shows "one_in_progress st'"
  using assms(2) one_in_progress_cong [OF _ assms(1)] one_in_progress_update [OF assms(1)]
  unfolding touches_def by blast

lemma one_in_progress_create:
  assumes "wf_etcd st" "one_in_progress st"
    "create_migration cid mcid mid t1 t2 ns sid target st = (x, st')"
  shows "one_in_progress st'"
proof (cases x)
  case (Inl e)
  with create_cases [OF assms(3)] assms(2) show ?thesis by auto
next
  case (Inr m)
  with create_cases [OF assms(3)]
  have m: "st' = put_migration m st" "mg_id m = mid" "mg_shard_id m = sid"
    "\<forall>q \<in> set (list_migrations st). mg_shard_id q = sid \<longrightarrow> is_terminal q" by auto
  have t: "is_terminal q" if "get_migration st k = Some q" "mg_shard_id q = sid" for k q
    using m(4) that migrations.listing_get [OF assms(1) that(1)] by blast
  show ?thesis
    using assms(2) t unfolding one_in_progress_def m(1) get_migration_put_migration
    by (auto simp: m(2,3) split: if_splits)
qed

lemma mig_serve_wf:
  assumes "wf_etcd st" "mig_serve T cid mcid q (st, fs) = (x, st', fs')"
  shows "wf_etcd st'"
proof (cases "is_create q")
  case True
  with assms show ?thesis
    by (cases q) (auto split: prod.splits dest!: create_cases intro: wf_put_migration)
next
  case nc: False
  show ?thesis
  proof (cases "\<not> is_commit q \<or> (\<exists>e. x = Inl e)")
    case True
    from mig_serve_touches [OF assms nc True] assms(1) show ?thesis by (simp add: touches_def)
  next
    case False
    then obtain m' t1 t2 mid where m': "x = Inr m'" "q = MigCommit t1 t2 mid"
      by (cases x; cases q) auto
    with assms(2) have "mig_commit T mcid t1 t2 mid (st, fs) = (Inr m', st', fs')" by simp
    from commit_ok [OF assms(1) this] show ?thesis by blast
  qed
qed

subsection \<open>Digests\<close>

text \<open>A migration that got past its copy holds equal digests of source and target.\<close>

definition digests_match :: "shard_migration \<Rightarrow> bool" where
  "digests_match m \<longleftrightarrow> mg_state m \<in> {COPYING, VERIFYING, COMMITTING, COMPLETED} \<longrightarrow>
     (\<exists>d. mg_source_digest m = Some d \<and> mg_target_digest m = Some d)"

definition all_digests_match :: "etcd \<Rightarrow> bool" where
  "all_digests_match st \<longleftrightarrow> (\<forall>k m. get_migration st k = Some m \<longrightarrow> digests_match m)"

lemma all_match_put:
  "all_digests_match st \<Longrightarrow> digests_match m \<Longrightarrow> all_digests_match (put_migration m st)"
  by (auto simp: all_digests_match_def get_migration_put_migration)

lemma all_match_put2:
  "all_digests_match st \<Longrightarrow> digests_match m2 \<Longrightarrow> mg_id m2 = mg_id m1 \<Longrightarrow>
     all_digests_match (put_migration m2 (put_migration m1 st))"
  by (auto simp: all_digests_match_def get_migration_put_migration)

lemma all_match_fail:
  assumes "all_digests_match st" "\<not> is_terminal m"
  shows "all_digests_match (snd (mig_fail t m error st))"
proof -
  obtain m' where "mig_fail t m error st = (m', put_migration m' st)" "mg_state m' = FAILED"
    using mig_fail_evolves [of t m error st] assms(2) by blast
  with assms(1) show ?thesis by (simp add: all_match_put digests_match_def)
qed

lemma all_match_put_fail:
  assumes "all_digests_match st" "\<not> is_terminal m" "mg_id m = mg_id m1"
  shows "all_digests_match (snd (mig_fail t m error (put_migration m1 st)))"
proof -
  obtain m' where m': "mig_fail t m error (put_migration m1 st) = (m', put_migration m' (put_migration m1 st))"
    "mg_state m' = FAILED" "evolves m m'"
    using mig_fail_evolves [of t m error "put_migration m1 st"] assms(2) by blast
  then have "mg_id m' = mg_id m1" "digests_match m'"
    using assms(3) by (simp_all add: evolves_def same_identity_def digests_match_def)
  with m' assms(1) show ?thesis by (simp add: all_match_put2)
qed

lemma transition_id: "migration_transition t m to = Inr m' \<Longrightarrow> mg_id m' = mg_id m"
  by (auto simp: migration_transition_ok)

text \<open>What every transfer provider must promise: a checked verification returns what it checked.\<close>

locale checked_transfer =
  fixes T :: "('x, 'fs) transfer_ops"
  assumes verify_checks: "to_verify T n s (Some d) fs = (Inr a, fs') \<Longrightarrow> a = d"
begin

lemma copy_data_match:
  "copy_data T s m fs = (Inr u, m', fs') \<Longrightarrow> digests_match m' \<and> mg_id m' = mg_id m"
  by (auto simp: copy_data_def Let_def digests_match_def split: sum.splits prod.splits
      dest: verify_checks)

lemma copy_data_err:
  "copy_data T s m fs = (Inl e, m', fs') \<Longrightarrow> mg_id m' = mg_id m \<and> mg_state m' = mg_state m"
  by (auto simp: copy_data_def Let_def split: sum.splits prod.splits)

lemma start_copy_match:
  assumes "all_digests_match st" "start_copy T t1 t2 mid (st, fs) = (x, st', fs')"
  shows "all_digests_match st'"
  using assms
  by (auto simp: start_copy_def Let_def mig_require_state_ok assert_source_valid_ok is_terminal_iff
      migration_transition_ok
      split: sum.splits prod.splits if_splits
      dest!: assert_source_valid_err copy_data_match copy_data_err
      intro!: all_match_put2 all_match_put_fail intro: all_match_fail)

lemma verify_match:
  assumes "all_digests_match st" "mig_verify T t1 t2 mid (st, fs) = (x, st', fs')"
  shows "all_digests_match st'"
proof (cases "get_migration st mid")
  case (Some m)
  show ?thesis
  proof (cases "mg_state m = COPYING")
    case True
    with assms(1) Some obtain d where d: "mg_source_digest m = Some d" "mg_target_digest m = Some d"
      by (fastforce simp: all_digests_match_def digests_match_def)
    from assms True Some d show ?thesis
      by (auto simp: mig_verify_def Let_def mig_require_ok mig_require_def mig_require_state_def
          assert_source_valid_ok is_terminal_iff migration_transition_ok digests_match_def
          split: sum.splits prod.splits if_splits
          dest!: assert_source_valid_err dest: verify_checks
          intro!: all_match_put2 all_match_put_fail intro: all_match_fail all_match_put)
  next
    case False
    with assms Some show ?thesis
      by (simp add: mig_verify_def mig_require_def mig_require_state_def)
  qed
qed (use assms in \<open>simp add: mig_verify_def mig_require_def\<close>)

lemma commit_match:
  assumes "wf_etcd st" "all_digests_match st" "mig_commit T mcid t1 t2 mid (st, fs) = (x, st', fs')"
  shows "all_digests_match st'"
proof (cases x)
  case (Inl e)
  with commit_error [OF assms(1) assms(3) [unfolded Inl]]
  have "touches mid st st'" "keeps_or_fails mid st st'" by simp_all
  with assms(2) show ?thesis
    unfolding all_digests_match_def keeps_or_fails_def touches_def
    by (auto simp: digests_match_def split: if_splits)
next
  case (Inr m')
  from commit_ok [OF assms(1) assms(3) [unfolded Inr]] obtain m where m: "get_migration st mid = Some m"
    "mg_state m = VERIFYING" "mg_source_digest m' = mg_source_digest m"
    "mg_target_digest m' = mg_target_digest m" "get_migration st' = (get_migration st)(mid \<mapsto> m')"
    by blast
  with assms(2) have "digests_match m'"
    unfolding all_digests_match_def digests_match_def by fastforce
  with m(5) assms(2) show ?thesis by (auto simp: all_digests_match_def)
qed

lemma serve_match:
  assumes wf: "wf_etcd st" and all: "all_digests_match st"
    and serve: "mig_serve T cid mcid q (st, fs) = (x, st', fs')"
  shows "all_digests_match st'"
proof (cases q)
  case (MigCreate mid t1 t2 ns sid target)
  with serve all show ?thesis
    by (auto split: prod.splits dest!: create_cases intro!: all_match_put simp: digests_match_def)
next
  case (MigPrepare t mid)
  with serve all show ?thesis
    by (auto simp: mig_prepare_def mig_require_state_ok assert_source_valid_ok is_terminal_iff
        migration_transition_ok digests_match_def split: prod.splits sum.splits
        dest!: assert_source_valid_err intro!: all_match_fail all_match_put)
next
  case (MigCopy t1 t2 mid)
  with serve all show ?thesis by (auto intro: start_copy_match)
next
  case (MigVerify t1 t2 mid)
  with serve all show ?thesis by (auto intro: verify_match)
next
  case (MigCommit t1 t2 mid)
  with serve all wf show ?thesis by (auto intro: commit_match)
next
  case (MigCancel t mid)
  with serve all show ?thesis
    by (auto simp: mig_cancel_def Let_def migration_transition_ok digests_match_def
        split: sum.splits if_splits intro!: all_match_put)
next
  case (MigFail t mid error)
  with serve all show ?thesis
    by (auto simp: mig_force_fail_def Let_def split: prod.splits sum.splits if_splits
        dest: all_match_fail [of st _ t error])
qed

end

subsection \<open>The recommendation\<close>

lemma key_less_irrefl: "\<not> key_less a a"
  by (simp add: key_less_def)

lemma key_less_trans: "key_less a b \<Longrightarrow> key_less b c \<Longrightarrow> key_less a c"
  by (auto simp: key_less_def)

lemma key_not_less_trans: "\<not> key_less b a \<Longrightarrow> \<not> key_less c b \<Longrightarrow> \<not> key_less c a"
  by (auto simp: key_less_def)

lemma py_min_spec:
  "py_min f best xs \<in> insert best (set xs) \<and>
   (\<forall>x \<in> insert best (set xs). \<not> key_less (f x) (f (py_min f best xs)))"
proof (induction xs arbitrary: best)
  case (Cons x xs)
  let ?b = "if key_less (f x) (f best) then x else best"
  from Cons.IH [of ?b] have IH: "py_min f ?b xs \<in> insert ?b (set xs)"
    "\<forall>y \<in> insert ?b (set xs). \<not> key_less (f y) (f (py_min f ?b xs))" by auto
  have "\<not> key_less (f best) (f ?b)" "\<not> key_less (f x) (f ?b)"
    by (auto simp: key_less_irrefl dest: key_less_trans)
  with IH show ?case by (auto dest: key_not_less_trans split: if_splits)
qed (simp add: key_less_irrefl)

lemma group_owner_get:
  "dict_get (group_owner h known shards) n =
     (let l = filter (\<lambda>r. sh_node_id (h r) = n) shards in
      if n \<in> set known \<and> l \<noteq> [] then Some l else None)"
proof -
  have "dict_get (fold (\<lambda>r d. if sh_node_id (h r) \<in> set known then
            dict_put (sh_node_id (h r))
              ((case dict_get d (sh_node_id (h r)) of None \<Rightarrow> [] | Some l \<Rightarrow> l) @ [r]) d
          else d) shards d) n =
     (if n \<in> set known \<and> filter (\<lambda>r. sh_node_id (h r) = n) shards \<noteq> [] then
        Some ((case dict_get d n of None \<Rightarrow> [] | Some l \<Rightarrow> l) @
          filter (\<lambda>r. sh_node_id (h r) = n) shards)
      else dict_get d n)" for d
    by (induction shards arbitrary: d)
      (auto simp: map_of_dict_put filter_empty_conv split: option.splits)
  from this [of "[]"] show ?thesis by (simp add: group_owner_def Let_def)
qed

definition owned_shards :: "etcd \<Rightarrow> string \<Rightarrow> string \<Rightarrow> sref list" where
  "owned_shards st ns n = filter (\<lambda>r. sh_state (e_heap st r) \<in> migratable_states \<and>
     sh_node_id (e_heap st r) = n) (list_by_namespace st ns)"

lemma owned_count_owned:
  assumes "n \<in> set known"
  shows "owned_count (group_owner (e_heap st) known
      (filter (\<lambda>r. sh_state (e_heap st r) \<in> migratable_states) (list_by_namespace st ns))) n =
    int (length (owned_shards st ns n))"
  using assms
  by (simp add: owned_count_def group_owner_get Let_def owned_shards_def conj_commute)

lemma known_members_iff:
  "wf_etcd st \<Longrightarrow> n \<in> set (known_members st) \<longleftrightarrow> known_member st n"
proof -
  assume wf: "wf_etcd st"
  have v: "node_state_value s \<noteq> ''REMOVED'' \<longleftrightarrow> s \<noteq> NodeMembershipState.REMOVED" for s
    by (cases s) auto
  have "n \<in> set (known_members st) \<longleftrightarrow>
      (\<exists>x \<in> set (list_nodes st). cn_node_id x = n \<and> cn_state x \<noteq> NodeMembershipState.REMOVED)"
    unfolding known_members_def v by force
  also have "\<dots> \<longleftrightarrow> known_member st n"
    unfolding known_member_def
    by (metis get_node_key list_nodes_iff wf)
  finally show ?thesis .
qed

text \<open>What a recommendation says: from a most loaded owner to a least loaded other member.\<close>

definition sound_recommendation :: "etcd \<Rightarrow> recommendation \<Rightarrow> bool" where
  "sound_recommendation st c \<longleftrightarrow>
     known_member st (rc_current_owner c) \<and> known_member st (rc_recommended_target c) \<and>
     rc_recommended_target c \<noteq> rc_current_owner c \<and>
     (\<exists>r \<in> set (owned_shards st (rc_namespace c) (rc_current_owner c)).
        sh_id (e_heap st r) = rc_shard_id c) \<and>
     (\<forall>n. known_member st n \<longrightarrow>
        length (owned_shards st (rc_namespace c) n) \<le>
        length (owned_shards st (rc_namespace c) (rc_current_owner c))) \<and>
     (\<forall>n. known_member st n \<and> n \<noteq> rc_current_owner c \<longrightarrow>
        length (owned_shards st (rc_namespace c) (rc_recommended_target c)) \<le>
        length (owned_shards st (rc_namespace c) n)) \<and>
     length (owned_shards st (rc_namespace c) (rc_recommended_target c)) <
       length (owned_shards st (rc_namespace c) (rc_current_owner c))"

lemma recommend_namespace_sound:
  assumes wf: "wf_etcd st" and rec: "recommend_namespace st (known_members st) ns = Some c"
  shows "sound_recommendation st c \<and> rc_namespace c = ns"
proof -
  let ?h = "e_heap st" and ?known = "known_members st"
  let ?shards = "filter (\<lambda>r. sh_state (?h r) \<in> migratable_states) (list_by_namespace st ns)"
  let ?O = "group_owner ?h ?known ?shards"
  let ?cnt = "\<lambda>n. owned_count ?O n"
  obtain o1 ors where os: "map fst ?O = o1 # ors"
    using rec by (auto simp: recommend_namespace_def Let_def split: list.splits if_splits)
  define source where "source = py_min (\<lambda>n. (- ?cnt n, n)) o1 ors"
  obtain t1 ts where ts: "filter (\<lambda>n. n \<noteq> source) ?known = t1 # ts"
    using rec os by (auto simp: recommend_namespace_def Let_def source_def split: list.splits if_splits)
  define target where "target = py_min (\<lambda>n. (?cnt n, n)) t1 ts"
  obtain l where l: "dict_get ?O source = Some l"
    using rec os ts
    by (auto simp: recommend_namespace_def Let_def source_def target_def split: option.splits if_splits)
  obtain r rs where r: "sort_key (\<lambda>r. sh_id (?h r)) l = r # rs"
    using rec os ts l
    by (auto simp: recommend_namespace_def Let_def source_def target_def split: list.splits if_splits)
  have c: "rc_namespace c = ns" "rc_shard_id c = sh_id (?h r)" "rc_current_owner c = source"
    "rc_recommended_target c = target" "?cnt target < ?cnt source"
    using rec os ts l r
    by (auto simp: recommend_namespace_def Let_def source_def target_def split: if_splits)
  have keys: "n \<in> set (o1 # ors) \<longleftrightarrow> n \<in> set ?known \<and> owned_shards st ns n \<noteq> []" for n
  proof -
    have "n \<in> set (map fst ?O) \<longleftrightarrow> dict_get ?O n \<noteq> None"
      by (simp add: map_of_eq_None_iff)
    then show ?thesis
      unfolding os group_owner_get by (auto simp: Let_def owned_shards_def conj_commute)
  qed
  have src: "source \<in> set (o1 # ors)" "\<forall>n \<in> set (o1 # ors). ?cnt n \<le> ?cnt source"
    using py_min_spec [of "\<lambda>n. (- ?cnt n, n)" o1 ors]
    by (auto simp: source_def key_less_def not_less)
  have tgt: "target \<in> set (t1 # ts)" "\<forall>n \<in> set (t1 # ts). ?cnt target \<le> ?cnt n"
    using py_min_spec [of "\<lambda>n. (?cnt n, n)" t1 ts] by (auto simp: target_def key_less_def not_less)
  have elig: "n \<in> set (t1 # ts) \<longleftrightarrow> n \<in> set ?known \<and> n \<noteq> source" for n
    unfolding ts [symmetric] by auto
  have cnt: "?cnt n = int (length (owned_shards st ns n))" if "known_member st n" for n
    using that known_members_iff [OF wf] by (simp add: owned_count_owned)
  have ks: "known_member st source" "known_member st target" "target \<noteq> source"
    using src(1) tgt(1) keys elig known_members_iff [OF wf] by auto
  have len: "length (owned_shards st ns n) \<le> length (owned_shards st ns source)"
    if n: "known_member st n" for n
  proof (cases "owned_shards st ns n = []")
    case False
    with n keys known_members_iff [OF wf] have "n \<in> set (o1 # ors)" by blast
    with src(2) cnt [OF n] cnt [OF ks(1)] show ?thesis by auto
  qed simp
  have len2: "length (owned_shards st ns target) \<le> length (owned_shards st ns n)"
    if n: "known_member st n" "n \<noteq> source" for n
  proof -
    have "n \<in> set (t1 # ts)" using n elig known_members_iff [OF wf] by blast
    with tgt(2) cnt [OF n(1)] cnt [OF ks(2)] show ?thesis by auto
  qed
  have "r \<in> set l" using r by (metis list.set_intros(1) set_sort)
  moreover have "l = owned_shards st ns source"
    using l unfolding group_owner_get by (auto simp: Let_def owned_shards_def conj_commute split: if_splits)
  moreover have "length (owned_shards st ns target) < length (owned_shards st ns source)"
    using c(5) cnt [OF ks(1)] cnt [OF ks(2)] by simp
  ultimately show ?thesis
    unfolding sound_recommendation_def c(1-4) using ks len len2 by auto
qed

lemma recommend_sound:
  assumes "wf_etcd st" "c \<in> set (recommend_rebalance st)"
  shows "sound_recommendation st c"
  using assms recommend_namespace_sound [OF assms(1)]
  by (auto simp: recommend_rebalance_def split: option.splits)

lemma ownership_frame:
  assumes "wf_etcd st" "mig_serve T cid mcid q (st, fs) = (x, st', fs')"
    and "\<not> (is_commit q \<and> (\<exists>m. x = Inr m))"
  shows "e_heap st' = e_heap st \<and> e_data st' = e_data st \<and> e_nodes st' = e_nodes st \<and> wf_etcd st'"
proof (cases "is_create q")
  case True
  with assms(2) have "e_heap st' = e_heap st \<and> e_data st' = e_data st \<and> e_nodes st' = e_nodes st"
    by (cases q) (auto split: prod.splits dest!: create_cases)
  with mig_serve_wf [OF assms(1,2)] show ?thesis by blast
next
  case False
  have "\<not> is_commit q \<or> (\<exists>e. x = Inl e)" using assms(3) by (cases x) auto
  from mig_serve_touches [OF assms(1,2) False this] mig_serve_wf [OF assms(1,2)]
  show ?thesis by (simp add: touches_def)
qed

subsection \<open>Properties\<close>

text \<open>A small store for the witnesses, and a provider that moves nothing and always agrees.\<close>

definition demo_store :: etcd where
  "demo_store =
     \<lparr>e_heap = (\<lambda>_. nil_shard)(0 := (new_shard ''s0'' 0 ''ns'' ''n0'')\<lparr>sh_replicas := [''n1'']\<rparr>),
      e_next = 1, e_data = [(''s0'', 0)],
      e_nodes = [(''n0'', \<lparr>cn_node_id = ''n0'', cn_cluster_id = ''c'',
                   cn_state = NodeMembershipState.ACTIVE, cn_version = 2\<rparr>),
                 (''n1'', \<lparr>cn_node_id = ''n1'', cn_cluster_id = ''c'',
                   cn_state = NodeMembershipState.ACTIVE, cn_version = 2\<rparr>)],
      e_migrations = [], e_path = [], e_file = None, e_writable = True\<rparr>"

definition demo_migration :: "MigrationState \<Rightarrow> int \<Rightarrow> shard_migration" where
  "demo_migration state ver =
     \<lparr>mg_id = ''m'', mg_namespace = ''ns'', mg_shard_id = ''s0'', mg_source = ''n0'',
      mg_target = ''n1'', mg_state = state, mg_source_version = ver, mg_cluster_id = ''c'',
      mg_created_at = 0, mg_updated_at = 0, mg_error = None, mg_version = 1,
      mg_source_digest = None, mg_target_digest = None, mg_finalized = False\<rparr>"

definition demo_transfer :: "(unit, unit) transfer_ops" where
  "demo_transfer = \<lparr>to_export = (\<lambda>n s fs. (Inr (), fs)), to_digest = (\<lambda>x. ''d''),
     to_import = (\<lambda>n s x fs. (Inr (), fs)), to_verify = (\<lambda>n s d fs. (Inr ''d'', fs)),
     to_finalize = (\<lambda>n s fs. (Inr (), fs)), to_discard = (\<lambda>n s fs. (Inr (), fs))\<rparr>"

lemma demo_store_wf: "wf_etcd demo_store" "wf_etcd (put_migration (demo_migration s v) demo_store)"
proof -
  show "wf_etcd demo_store"
    by (auto simp: wf_etcd_def wf_shards_def demo_store_def keyed_dict_def reserved_key_def
        starts_with_def migration_key_prefix_def cluster_key_prefix_def new_shard_def)
  then show "wf_etcd (put_migration (demo_migration s v) demo_store)" by (rule wf_put_migration)
qed

lemmas demo_mig_simps = demo_store_def demo_migration_def demo_transfer_def new_shard_def
  etcd_get_def get_migration_def get_node_def migratable_states_def

text \<open>
  C4: ownership moves at a successful commit and nowhere else: any other request to the migration
  manager, and any commit that raises, with any transfer provider, leaves every shard object (owner,
  replicas, state, version), the shard table and the members exactly as they were, and the store
  well-formed.
\<close>

theorem ownership_moves_only_at_commit:
  assumes "wf_etcd st" "mig_serve T cid mcid q (st, fs) = (x, st', fs')"
    and "\<not> (is_commit q \<and> (\<exists>m. x = Inr m))"
  shows "e_heap st' = e_heap st \<and> e_data st' = e_data st \<and> e_nodes st' = e_nodes st \<and> wf_etcd st'"
  using assms by (rule ownership_frame)

lemma ownership_moves_only_at_commit_witness:
  "\<exists>x st' fs'. mig_serve demo_transfer ''c'' ''c'' (MigCreate ''m'' 0 0 ''ns'' ''s0'' ''n1'')
       (demo_store, ()) = (x, st', fs') \<and> x = Inr (demo_migration PENDING 1) \<and>
     e_heap st' = e_heap demo_store"
proof -
  let ?q = "MigCreate ''m'' 0 0 ''ns'' ''s0'' ''n1''"
  obtain x st' fs' where s: "mig_serve demo_transfer ''c'' ''c'' ?q (demo_store, ()) = (x, st', fs')"
    using prod_cases3 by blast
  have "x = Inr (demo_migration PENDING 1)"
    using s by (simp add: create_migration_def Let_def demo_mig_simps require_owner_def
        validate_member_def validate_node_def validate_cluster_id_def list_migrations_def
        split: prod.splits)
  with s ownership_moves_only_at_commit [OF demo_store_wf(1) s] show ?thesis by auto
qed

text \<open>
  C3: what a commit that returns has done: the migration was VERIFYING and still matched the shard
  (owner, version, a migratable state), its target was a known member; exactly that shard changed,
  its owner is now the target, which is no replica, the other replicas are kept and known, the
  version counts one; the migration is COMPLETED. A commit that raises leaves the migration as it
  was or observably FAILED.
\<close>

theorem commit_transfers_ownership:
  assumes "wf_etcd st" "mig_commit T mcid t1 t2 mid (st, fs) = (x, st', fs')"
  shows "case x of
      Inl e \<Rightarrow> e_heap st' = e_heap st \<and> e_data st' = e_data st \<and>
        (get_migration st' mid = get_migration st mid \<or>
         (\<exists>m'. get_migration st' mid = Some m' \<and> mg_state m' = FAILED))
    | Inr m' \<Rightarrow> \<exists>m r s. get_migration st mid = Some m \<and> mg_state m = VERIFYING \<and>
        etcd_get st (mg_shard_id m) = Some r \<and> s = e_heap st r \<and>
        sh_node_id s = mg_source m \<and> sh_version s = mg_source_version m \<and>
        sh_state s \<in> migratable_states \<and> known_member st (mg_target m) \<and>
        e_heap st' = (e_heap st)(r := s\<lparr>sh_node_id := mg_target m,
          sh_replicas := filter (\<lambda>x. x \<noteq> mg_target m) (sh_replicas s),
          sh_version := sh_version s + 1\<rparr>) \<and>
        (\<forall>y \<in> set (sh_replicas s) - {mg_target m}. known_member st y) \<and>
        e_data st' = e_data st \<and> mg_state m' = COMPLETED \<and> get_migration st' mid = Some m'"
proof (cases x)
  case (Inl e)
  with commit_error [OF assms(1) assms(2) [unfolded Inl]] show ?thesis
    by (simp add: touches_def keeps_or_fails_def)
next
  case (Inr m')
  from commit_ok [OF assms(1) assms(2) [unfolded Inr]] obtain m r where
    "get_migration st mid = Some m" "mg_state m = VERIFYING" "etcd_get st (mg_shard_id m) = Some r"
    "sh_state (e_heap st r) \<in> migratable_states" "sh_node_id (e_heap st r) = mg_source m"
    "sh_version (e_heap st r) = mg_source_version m" "known_member st (mg_target m)"
    "\<forall>x \<in> set (sh_replicas (e_heap st r)) - {mg_target m}. known_member st x"
    "e_heap st' = (e_heap st)(r := committed_shard m (e_heap st r))" "e_data st' = e_data st"
    "mg_state m' = COMPLETED" "get_migration st' = (get_migration st)(mid \<mapsto> m')" by blast
  with Inr show ?thesis unfolding committed_shard_def by auto
qed

lemma commit_transfers_ownership_witness:
  "\<exists>m' st' fs'. mig_commit demo_transfer ''c'' 1 2 ''m''
       (put_migration (demo_migration VERIFYING 1) demo_store, ()) = (Inr m', st', fs') \<and>
     sh_node_id (e_heap st' 0) = ''n1'' \<and> sh_replicas (e_heap st' 0) = [] \<and>
     sh_version (e_heap st' 0) = 2"
proof -
  let ?st = "put_migration (demo_migration VERIFYING 1) demo_store"
  obtain x st' fs' where s: "mig_commit demo_transfer ''c'' 1 2 ''m'' (?st, ()) = (x, st', fs')"
    using prod_cases3 by blast
  have "\<exists>m'. x = Inr m'"
    using s by (simp add: mig_commit_def mig_require_def mig_require_state_def
        assert_source_valid_def demo_mig_simps validate_member_def validate_node_def
        validate_cluster_id_def migration_transition_def ownership_commit_def
        validate_ownership_def put_migration_def etcd_persist_def Let_def assign_def etcd_put_def)
      auto
  then obtain m' where "x = Inr m'" by blast
  with commit_transfers_ownership [OF demo_store_wf(2) s] show ?thesis
    using s by (auto simp: demo_mig_simps map_of_dict_put)
qed

text \<open>The state a step requires of its migration.\<close>

fun required_state :: "mig_request \<Rightarrow> MigrationState option" where
  "required_state (MigPrepare t mid) = Some PENDING"
| "required_state (MigCopy t1 t2 mid) = Some PREPARING"
| "required_state (MigVerify t1 t2 mid) = Some COPYING"
| "required_state (MigCommit t1 t2 mid) = Some VERIFYING"
| "required_state _ = None"

text \<open>The shard is still the one the migration was created for.\<close>

definition source_current :: "etcd \<Rightarrow> shard_migration \<Rightarrow> bool" where
  "source_current st m \<longleftrightarrow>
     (\<exists>r. etcd_get st (mg_shard_id m) = Some r \<and> sh_state (e_heap st r) \<in> migratable_states \<and>
        sh_node_id (e_heap st r) = mg_source m \<and> sh_version (e_heap st r) = mg_source_version m)"

lemma stale_assert:
  assumes "\<not> source_current st m"
  shows "\<exists>why error. assert_source_valid t m st =
    (Inl (MigrationSourceError (mg_source m) why), snd (mig_fail t m error st))"
proof (cases "assert_source_valid t m st")
  case (Pair y st1)
  with assms obtain e where e: "y = Inl e"
    by (cases y) (auto simp: assert_source_valid_ok source_current_def)
  with Pair assert_source_valid_err [of t m st e st1] show ?thesis by blast
qed

text \<open>
  C18: a stale migration never goes on: when the shard is gone, has another owner, another version
  or a state that may not migrate, every step (prepare, copy, verify, commit) raises a
  MigrationSourceError, marks the migration FAILED, touches no shard and moves no data.
\<close>

theorem stale_migration_fails:
  assumes "wf_etcd st" "get_migration st (mig_request_id q) = Some m"
    and "required_state q = Some (mg_state m)" "\<not> source_current st m"
    and "mig_serve T cid mcid q (st, fs) = (x, st', fs')"
  shows "\<exists>why m'. x = Inl (MigrationSourceError (mg_source m) why) \<and>
    get_migration st' (mig_request_id q) = Some m' \<and> mg_state m' = FAILED \<and>
    e_heap st' = e_heap st \<and> e_data st' = e_data st \<and> fs' = fs"
proof -
  have nt: "\<not> is_terminal m" using assms(3) by (cases q) (auto simp: is_terminal_iff)
  have id: "mg_id m = mig_request_id q" by (rule get_migration_key [OF assms(1,2)])
  have step: "\<exists>t why error. x = Inl (MigrationSourceError (mg_source m) why) \<and>
      st' = snd (mig_fail t m error st) \<and> fs' = fs"
  proof (cases q)
    case (MigPrepare t mid)
    then show ?thesis
      using assms stale_assert [OF assms(4), of t]
      by (auto simp: mig_prepare_def mig_require_def mig_require_state_def) blast
  next
    case (MigCopy t1 t2 mid)
    then show ?thesis
      using assms stale_assert [OF assms(4), of t1]
      by (auto simp: start_copy_def mig_require_def mig_require_state_def) blast
  next
    case (MigVerify t1 t2 mid)
    then show ?thesis
      using assms stale_assert [OF assms(4), of t1]
      by (auto simp: mig_verify_def mig_require_def mig_require_state_def) blast
  next
    case (MigCommit t1 t2 mid)
    then show ?thesis
      using assms stale_assert [OF assms(4), of t1]
      by (auto simp: mig_commit_def mig_require_def mig_require_state_def) blast
  qed (use assms(3) in simp_all)
  then obtain t why error where s: "x = Inl (MigrationSourceError (mg_source m) why)"
    "st' = snd (mig_fail t m error st)" "fs' = fs" by blast
  obtain m' where m': "mig_fail t m error st = (m', put_migration m' st)" "evolves m m'"
    "mg_state m' = FAILED"
    using mig_fail_evolves [of t m error st] nt by blast
  have "mg_id m' = mig_request_id q"
    using m'(2) id by (simp add: evolves_def same_identity_def)
  with s m' show ?thesis by (simp add: get_migration_put_migration)
qed

lemma stale_migration_fails_witness:
  "\<exists>x st' fs'. mig_serve demo_transfer ''c'' ''c'' (MigCommit 1 2 ''m'')
       (put_migration (demo_migration VERIFYING 7) demo_store, ()) = (x, st', fs') \<and>
     e_heap st' = e_heap demo_store \<and> (\<exists>why. x = Inl (MigrationSourceError ''n0'' why))"
proof -
  let ?st = "put_migration (demo_migration VERIFYING 7) demo_store"
  obtain x st' fs' where s: "mig_serve demo_transfer ''c'' ''c'' (MigCommit 1 2 ''m'') (?st, ()) = (x, st', fs')"
    using prod_cases3 by blast
  have "get_migration ?st (mig_request_id (MigCommit 1 2 ''m'')) = Some (demo_migration VERIFYING 7)"
    "\<not> source_current ?st (demo_migration VERIFYING 7)"
    "required_state (MigCommit 1 2 ''m'') = Some (mg_state (demo_migration VERIFYING 7))"
    "mg_source (demo_migration VERIFYING 7) = ''n0''" "e_heap ?st = e_heap demo_store"
    by (simp_all add: demo_mig_simps source_current_def)
  with stale_migration_fails [OF demo_store_wf(2) _ _ _ s] s show ?thesis by metis
qed

definition mig_run ::
    "('x, 'fs) transfer_ops \<Rightarrow> string \<Rightarrow> string \<Rightarrow> mig_request list \<Rightarrow> etcd \<times> 'fs \<Rightarrow> etcd \<times> 'fs" where
  "mig_run T cid mcid qs s = fold (\<lambda>q s. snd (mig_serve T cid mcid q s)) qs s"

lemma serve_one_in_progress:
  assumes "wf_etcd st" "one_in_progress st" "mig_serve T cid mcid q (st, fs) = (x, st', fs')"
  shows "one_in_progress st'"
proof (cases "is_create q")
  case True
  with assms show ?thesis
    by (cases q) (auto split: prod.splits intro: one_in_progress_create)
next
  case nc: False
  show ?thesis
  proof (cases "\<not> is_commit q \<or> (\<exists>e. x = Inl e)")
    case True
    with assms nc show ?thesis by (auto intro: one_in_progress_touches mig_serve_touches)
  next
    case False
    then obtain m' t1 t2 mid where m': "x = Inr m'" "q = MigCommit t1 t2 mid"
      by (cases x; cases q) auto
    with assms(3) have "mig_commit T mcid t1 t2 mid (st, fs) = (Inr m', st', fs')" by simp
    from commit_ok [OF assms(1) this] obtain m where "get_migration st mid = Some m" "evolves m m'"
      "get_migration st' = (get_migration st)(mid \<mapsto> m')" by blast
    then show ?thesis by (rule one_in_progress_update [OF assms(2)])
  qed
qed

lemma serve_evolves:
  assumes "wf_etcd st" "mig_serve T cid mcid q (st, fs) = (x, st', fs')"
    "get_migration st k = Some m" "is_create q \<longrightarrow> mig_request_id q \<noteq> k"
  shows "\<exists>m'. get_migration st' k = Some m' \<and> evolves m m'"
proof (cases "is_create q")
  case True
  with assms show ?thesis
    by (cases q) (auto split: prod.splits dest!: create_cases simp: get_migration_put_migration)
next
  case nc: False
  show ?thesis
  proof (cases "\<not> is_commit q \<or> (\<exists>e. x = Inl e)")
    case True
    from mig_serve_touches [OF assms(1,2) nc True] assms(3) show ?thesis
      by (auto simp: touches_def)
  next
    case False
    then obtain m' t1 t2 mid where m': "x = Inr m'" "q = MigCommit t1 t2 mid"
      by (cases x; cases q) auto
    with assms(2) have "mig_commit T mcid t1 t2 mid (st, fs) = (Inr m', st', fs')" by simp
    from commit_ok [OF assms(1) this] assms(3) show ?thesis by auto
  qed
qed

text \<open>
  C17: whatever requests are made, with any provider: at most one migration of a shard is in
  progress, and every stored migration only moves along its transition table, one version per move,
  keeping its identity (new migrations take fresh ids), so a terminal one never moves again.
\<close>

theorem migration_runs:
  assumes "wf_etcd st" "one_in_progress st" "mig_run T cid mcid qs (st, fs) = (st', fs')"
  shows "wf_etcd st' \<and> one_in_progress st' \<and>
    (\<forall>k m. get_migration st k = Some m \<and> (\<forall>q \<in> set qs. is_create q \<longrightarrow> mig_request_id q \<noteq> k) \<longrightarrow>
       (\<exists>m'. get_migration st' k = Some m' \<and> same_identity m m' \<and>
          (\<exists>ts. legal_path migration_transitions (mg_state m) ts \<and>
             mg_state m' = last (mg_state m # ts) \<and> mg_version m' = mg_version m + int (length ts))))"
  using assms
proof (induction qs arbitrary: st fs)
  case Nil
  then show ?case
    by (auto simp: mig_run_def intro: exI [of _ "[]"])
next
  case (Cons q qs)
  obtain x st1 fs1 where s: "mig_serve T cid mcid q (st, fs) = (x, st1, fs1)"
    using prod_cases3 by blast
  with Cons.prems(3) have run: "mig_run T cid mcid qs (st1, fs1) = (st', fs')"
    by (simp add: mig_run_def)
  note IH = Cons.IH [OF mig_serve_wf [OF Cons.prems(1) s] serve_one_in_progress [OF Cons.prems(1,2) s] run]
  have "\<exists>m'. get_migration st' k = Some m' \<and> evolves m m'"
    if k: "get_migration st k = Some m" "\<forall>q \<in> set (q # qs). is_create q \<longrightarrow> mig_request_id q \<noteq> k" for k m
  proof -
    from serve_evolves [OF Cons.prems(1) s k(1)] k(2) obtain m1 where
      m1: "get_migration st1 k = Some m1" "evolves m m1" by auto
    with IH k(2) obtain m' where "get_migration st' k = Some m'" "evolves m1 m'"
      unfolding evolves_def by (metis list.set_intros(2))
    with m1(2) evolves_trans show ?thesis by blast
  qed
  with IH show ?case unfolding evolves_def by blast
qed

lemma migration_runs_witness:
  "one_in_progress (fst (mig_run demo_transfer ''c'' ''c''
     [MigCreate ''m'' 0 0 ''ns'' ''s0'' ''n1'', MigPrepare 1 ''m'', MigCommit 2 3 ''m''] (demo_store, ())))"
proof -
  have "one_in_progress demo_store"
    by (simp add: one_in_progress_def get_migration_def demo_store_def)
  from migration_runs [OF demo_store_wf(1) this, of demo_transfer "''c''" "''c''" _ "()"]
  show ?thesis by (metis prod.collapse)
qed

text \<open>
  The rebalancing recommendation changes nothing and is sound: it moves a migratable shard from
  a member holding the most migratable shards of the namespace to another known member holding the
  fewest, and only when that holds strictly fewer.
\<close>

theorem recommendations_sound:
  assumes "wf_etcd st" "c \<in> set (recommend_rebalance st)"
  shows "sound_recommendation st c"
  using assms by (rule recommend_sound)

lemma recommendations_sound_witness:
  "\<exists>c. recommend_rebalance (demo_store\<lparr>e_heap := (e_heap demo_store)(1 := new_shard ''s1'' 0 ''ns'' ''n0''),
        e_next := 2, e_data := [(''s0'', 0), (''s1'', 1)]\<rparr>) = [c] \<and>
     rc_shard_id c = ''s0'' \<and> rc_recommended_target c = ''n1'' \<and>
     sound_recommendation (demo_store\<lparr>e_heap := (e_heap demo_store)(1 := new_shard ''s1'' 0 ''ns'' ''n0''),
        e_next := 2, e_data := [(''s0'', 0), (''s1'', 1)]\<rparr>) c"
proof -
  let ?st = "demo_store\<lparr>e_heap := (e_heap demo_store)(1 := new_shard ''s1'' 0 ''ns'' ''n0''),
        e_next := 2, e_data := [(''s0'', 0), (''s1'', 1)]\<rparr>"
  have wf: "wf_etcd ?st"
    by (auto simp: wf_etcd_def wf_shards_def demo_store_def keyed_dict_def reserved_key_def
        starts_with_def migration_key_prefix_def cluster_key_prefix_def new_shard_def
        split: if_splits)
  have "\<exists>c. recommend_rebalance ?st = [c] \<and> rc_shard_id c = ''s0'' \<and> rc_recommended_target c = ''n1''"
    by (simp add: recommend_rebalance_def recommend_namespace_def demo_mig_simps known_members_def
        list_nodes_def etcd_all_def list_by_namespace_def group_owner_def owned_count_def
        key_less_def Let_def)
  with recommendations_sound [OF wf] show ?thesis by auto
qed

text \<open>
  The copy is persisted as COPYING before any data moves, so a crash in between leaves a COPYING
  migration without digests; from there \<open>verify\<close> asks the provider for an unchecked digest
  (\<open>expected_digest\<close> is None) and succeeds whatever the target holds, and the commit that follows
  may move the ownership to a target that was never copied to.
\<close>

theorem crashed_copy_verifies_unchecked:
  assumes "wf_etcd st" "get_migration st mid = Some m" "mg_state m = COPYING"
    "mg_source_digest m = None" "source_current st m"
    and "\<And>n s fs. \<exists>d. to_verify T n s None fs = (Inr d, fs)"
  shows "\<exists>m' st'. mig_verify T t1 t2 mid (st, fs) = (Inr m', st', fs) \<and>
    mg_state m' = VERIFYING \<and> mg_source_digest m' = None \<and> get_migration st' mid = Some m' \<and>
    e_heap st' = e_heap st"
proof -
  obtain r where r: "assert_source_valid t1 m st = (Inr r, st)"
    using assms(5) by (auto simp: source_current_def assert_source_valid_ok)
  let ?m1 = "m\<lparr>mg_state := VERIFYING, mg_version := mg_version m + 1, mg_updated_at := t1\<rparr>"
  have tr: "migration_transition t1 m VERIFYING = Inr ?m1"
    using assms(3) by (simp add: migration_transition_ok)
  obtain d where d: "to_verify T (mg_target m) (e_heap st r) None fs = (Inr d, fs)"
    using assms(6) by blast
  have "mg_id m = mid" by (rule get_migration_key [OF assms(1,2)])
  with assms(2-4) r tr d show ?thesis
    by (simp add: mig_verify_def mig_require_def mig_require_state_def Let_def
        get_migration_put_migration)
qed

lemma crashed_copy_verifies_unchecked_witness:
  "\<exists>m' st'. mig_verify demo_transfer 1 2 ''m''
       (put_migration (demo_migration COPYING 1) demo_store, ()) = (Inr m', st', ()) \<and>
     mg_state m' = VERIFYING \<and> mg_source_digest m' = None"
proof -
  let ?st = "put_migration (demo_migration COPYING 1) demo_store"
  have "get_migration ?st ''m'' = Some (demo_migration COPYING 1)"
    "mg_state (demo_migration COPYING 1) = COPYING"
    "mg_source_digest (demo_migration COPYING 1) = None"
    "source_current ?st (demo_migration COPYING 1)"
    "\<And>n s fs. \<exists>d. to_verify demo_transfer n s None fs = (Inr d, fs)"
    by (simp_all add: demo_mig_simps source_current_def)
  from crashed_copy_verifies_unchecked [OF demo_store_wf(2) this, of 1 2 "()"] show ?thesis by blast
qed

end
