(* ===== verification/Control_Plane.thy ===== *)
theory Control_Plane
  imports Router Migration
begin

text \<open>
  The control plane as one machine: the lifecycle manager, the membership manager and the migration
  manager over the one in-memory metadata store they share (as \<open>api/rest.py\<close> wires them), with the
  transfer provider's state beside it. A step is any operation an operator can invoke, with its
  result ignored: refused operations are steps too. The legacy split of \<open>ShardRouter.maybe_split\<close>
  and the unvalidated \<open>register_shard\<close> are not steps here; \<open>Router\<close> states what they do.
\<close>

type_synonym 'fs plane = "etcd \<times> 'fs"

inductive cp_step ::
    "('x, 'fs) transfer_ops \<Rightarrow> string \<Rightarrow> 'fs plane \<Rightarrow> 'fs plane \<Rightarrow> bool"
  for T :: "('x, 'fs) transfer_ops" and cid :: string where
  cp_create: "etcd_get st uid = None \<Longrightarrow> \<not> reserved_key uid \<Longrightarrow>
     alloc (new_shard uid now ns node) st = (r, st1) \<Longrightarrow>
     lc_create mem_ops validate_node r owner replicas st1 = (x, st') \<Longrightarrow>
     cp_step T cid (st, fs) (st', fs)"
| cp_transition: "etcd_get st k = Some r \<Longrightarrow> lc_transition mem_ops r to st = (x, st') \<Longrightarrow>
     cp_step T cid (st, fs) (st', fs)"
| cp_change_owner: "etcd_get st k = Some r \<Longrightarrow>
     lc_change_owner mem_ops validate_node r new_owner replicas st = (x, st') \<Longrightarrow>
     cp_step T cid (st, fs) (st', fs)"
| cp_member: "member_serve cid q st = (y, st') \<Longrightarrow> cp_step T cid (st, fs) (st', fs)"
| cp_migrate: "mig_serve T cid cid p (st, fs) = (z, st', fs') \<Longrightarrow>
     cp_step T cid (st, fs) (st', fs')"

inductive cp_reach ::
    "('x, 'fs) transfer_ops \<Rightarrow> string \<Rightarrow> 'fs plane \<Rightarrow> 'fs plane \<Rightarrow> bool"
  for T :: "('x, 'fs) transfer_ops" and cid :: string and s0 :: "'fs plane" where
  cp_init: "cp_reach T cid s0 s0"
| cp_next: "cp_reach T cid s0 s \<Longrightarrow> cp_step T cid s s' \<Longrightarrow> cp_reach T cid s0 s'"

inductive_cases cp_stepE: "cp_step T cid (st, fs) (st', fs')"

subsection \<open>The invariant\<close>

text \<open>Every stored shard has an owner that was registered as a member, and is not its own replica.\<close>

definition owned_shard :: "etcd \<Rightarrow> shard \<Rightarrow> bool" where
  "owned_shard st s \<longleftrightarrow> sh_node_id s \<noteq> [] \<and> sh_node_id s \<notin> set (sh_replicas s) \<and>
     get_node st (sh_node_id s) \<noteq> None"

definition plane_ok :: "etcd \<Rightarrow> bool" where
  "plane_ok st \<longleftrightarrow> wf_etcd st \<and> one_in_progress st \<and>
     (\<forall>k r. etcd_get st k = Some r \<longrightarrow> owned_shard st (e_heap st r))"

lemma plane_ok_heap:
  assumes ok: "plane_ok st" and wf: "wf_etcd st'" and mig: "get_migration st' = get_migration st"
    and get: "etcd_get st' = etcd_get st" and nodes: "get_node st' = get_node st"
    and heap: "\<And>q. (\<exists>k. etcd_get st k = Some q) \<Longrightarrow> owned_shard st (e_heap st' q)"
  shows "plane_ok st'"
  using assms unfolding plane_ok_def owned_shard_def
  by (auto intro: one_in_progress_cong)

lemma known_member_registered: "known_member st n \<Longrightarrow> get_node st n \<noteq> None"
  by (auto simp: known_member_def)

lemma get_of_data: "e_data st' = e_data st \<Longrightarrow> etcd_get st' = etcd_get st"
  by (simp add: etcd_get_def fun_eq_iff)

lemma transition_plane_ok:
  assumes "plane_ok st" "etcd_get st k = Some r" "lc_transition mem_ops r to st = (x, st')"
  shows "plane_ok st'"
proof -
  have wf: "wf_etcd st" using assms(1) by (simp add: plane_ok_def)
  note keep = transition_keeps_listing [OF wf assms(2,3)]
  have rest: "e_nodes st' = e_nodes st \<and> e_migrations st' = e_migrations st \<and>
      e_next st' = e_next st \<and> sh_node_id (e_heap st' q) = sh_node_id (e_heap st q) \<and>
      sh_replicas (e_heap st' q) = sh_replicas (e_heap st q)" for q
    using assms(3) by (cases rule: mem_transition_cases) (auto simp: shard_transition_ok)
  show ?thesis
  proof (rule plane_ok_heap [OF assms(1)])
    show "wf_etcd st'"
      using wf keep rest by (simp add: wf_etcd_def wf_shards_def)
    show "owned_shard st (e_heap st' q)" if "\<exists>k. etcd_get st k = Some q" for q
      using that assms(1) rest [of q] by (auto simp: plane_ok_def owned_shard_def)
  qed (use keep rest in \<open>auto simp: etcd_get_def get_node_def get_migration_def\<close>)
qed

lemma change_owner_plane_ok:
  assumes "plane_ok st" "etcd_get st k = Some r"
    "lc_change_owner mem_ops validate_node r new_owner replicas st = (x, st')"
  shows "plane_ok st'"
proof -
  have wf: "wf_etcd st" using assms(1) by (simp add: plane_ok_def)
  note keep = change_owner_keeps_listing [OF wf assms(2,3)]
  from assms(3) have rest: "e_nodes st' = e_nodes st \<and> e_migrations st' = e_migrations st \<and>
      e_next st' = e_next st \<and>
      (owned_shard st (e_heap st q) \<longrightarrow> owned_shard st (e_heap st' q))" for q
  proof (cases rule: mem_change_owner_cases)
    case applied
    from applied(4) have "get_node st new_owner \<noteq> None"
      unfolding validate_node_ok by (rule known_member_registered)
    with applied(3,5,6) show ?thesis by (simp add: owned_shard_def)
  qed simp
  show ?thesis
  proof (rule plane_ok_heap [OF assms(1)])
    show "wf_etcd st'"
      using wf keep rest by (simp add: wf_etcd_def wf_shards_def)
    show "owned_shard st (e_heap st' q)" if "\<exists>k. etcd_get st k = Some q" for q
      using that assms(1) rest [of q] by (auto simp: plane_ok_def)
  qed (use keep rest in \<open>auto simp: etcd_get_def get_node_def get_migration_def\<close>)
qed

lemma member_plane_ok:
  assumes "plane_ok st" "member_serve cid q st = (y, st')"
  shows "plane_ok st'"
proof -
  have wf: "wf_etcd st" using assms(1) by (simp add: plane_ok_def)
  from member_serve_frame [OF assms(2)] wf
  have f: "e_heap st' = e_heap st" "e_data st' = e_data st"
    "e_migrations st' = e_migrations st" "wf_etcd st'"
    "\<And>k. get_node st k \<noteq> None \<Longrightarrow> get_node st' k \<noteq> None"
    unfolding member_frame_def by blast+
  from f(3) have "get_migration st' = get_migration st" by (simp add: get_migration_def fun_eq_iff)
  with assms(1) f show ?thesis
    unfolding plane_ok_def owned_shard_def get_of_data [OF f(2)]
    by (auto intro: one_in_progress_cong)
qed

lemma migrate_plane_ok:
  assumes "plane_ok st" "mig_serve T cid mcid p (st, fs) = (z, st', fs')"
  shows "plane_ok st'"
proof -
  have wf: "wf_etcd st" and one: "one_in_progress st" using assms(1) by (simp_all add: plane_ok_def)
  note inv = mig_serve_wf [OF wf assms(2)] serve_one_in_progress [OF wf one assms(2)]
  show ?thesis
  proof (cases "is_commit p \<and> (\<exists>m. z = Inr m)")
    case False
    from ownership_frame [OF wf assms(2) False]
    have "e_heap st' = e_heap st" "e_data st' = e_data st" "e_nodes st' = e_nodes st" by blast+
    with assms(1) inv show ?thesis
      by (simp add: plane_ok_def owned_shard_def etcd_get_def get_node_def)
  next
    case True
    then obtain m' t1 t2 mid where m': "z = Inr m'" "p = MigCommit t1 t2 mid"
      by (cases p) auto
    with assms(2) have "mig_commit T mcid t1 t2 mid (st, fs) = (Inr m', st', fs')" by simp
    from commit_ok [OF wf this] obtain m r where c:
      "etcd_get st (mg_shard_id m) = Some r" "known_member st (mg_target m)" "mg_target m \<noteq> []"
      "e_heap st' = (e_heap st)(r := committed_shard m (e_heap st r))" "e_data st' = e_data st"
      "e_nodes st' = e_nodes st" by blast
    with assms(1) inv known_member_registered [OF c(2)] show ?thesis
      by (auto simp: plane_ok_def owned_shard_def etcd_get_def get_node_def committed_shard_def)
  qed
qed

lemma create_plane_ok:
  assumes "plane_ok st" "etcd_get st uid = None" "\<not> reserved_key uid"
    "alloc (new_shard uid now ns node) st = (r, st1)"
    "lc_create mem_ops validate_node r owner replicas st1 = (x, st')"
  shows "plane_ok st'"
proof -
  have wf: "wf_etcd st" using assms(1) by (simp add: plane_ok_def)
  have a: "r = e_next st" "e_heap st1 = (e_heap st)(r := new_shard uid now ns node)"
    "e_next st1 = Suc (e_next st)" "e_data st1 = e_data st" "e_nodes st1 = e_nodes st"
    "e_migrations st1 = e_migrations st"
    using assms(4) by (auto simp: alloc_def)
  have fresh: "q \<noteq> r" "q < e_next st" if "etcd_get st k = Some q" for k q
    using wf_get [OF wf that] a(1) by auto
  define s where "s = (e_heap st1 r)
      \<lparr>sh_node_id := (case owner of None \<Rightarrow> sh_node_id (e_heap st1 r) | Some x \<Rightarrow> x),
       sh_replicas := (case replicas of None \<Rightarrow> sh_replicas (e_heap st1 r) | Some x \<Rightarrow> x)\<rparr>"
  have uid: "sh_id s = uid" using a(1,2) by (simp add: s_def new_shard_def)
  have shape: "(\<forall>q. q \<noteq> r \<longrightarrow> e_heap st' q = e_heap st q) \<and> e_nodes st' = e_nodes st \<and>
      e_migrations st' = e_migrations st \<and> e_next st' = Suc (e_next st) \<and>
      sh_id (e_heap st' r) = uid \<and>
      (e_data st' = e_data st \<or>
       e_data st' = dict_put uid r (e_data st) \<and> owned_shard st (e_heap st' r))"
    using assms(5) s_def
  proof (cases rule: mem_create_cases)
    case (refused e)
    with a uid show ?thesis by simp
  next
    case applied
    from applied(4) have "known_member st (sh_node_id s)"
      unfolding validate_node_ok using a(5) by (simp add: known_member_def get_node_def)
    then have "owned_shard st (s\<lparr>sh_state := ShardState.CREATING\<rparr>)"
      using applied(2,3) by (simp add: owned_shard_def known_member_registered)
    with applied(5) a uid show ?thesis by simp
  qed
  then have heap: "\<And>q. q \<noteq> r \<Longrightarrow> e_heap st' q = e_heap st q"
    and rest: "e_nodes st' = e_nodes st" "e_migrations st' = e_migrations st"
      "e_next st' = Suc (e_next st)" "sh_id (e_heap st' r) = uid"
    and data: "e_data st' = e_data st \<or>
      e_data st' = dict_put uid r (e_data st) \<and> owned_shard st (e_heap st' r)"
    by blast+
  have wf': "wf_etcd st'"
    using wf data rest heap fresh assms(3)
    unfolding wf_etcd_def wf_shards_def
    by (auto simp: map_of_dict_put etcd_get_def less_SucI a(1) split: if_splits)
  have own: "owned_shard st' (e_heap st' q)" if q: "etcd_get st' k = Some q" for k q
  proof (cases "q = r")
    case False
    with q data have "etcd_get st k = Some q"
      by (auto simp: etcd_get_def map_of_dict_put split: if_splits)
    with assms(1) heap [OF False] rest(1) show ?thesis
      by (auto simp: plane_ok_def owned_shard_def get_node_def)
  next
    case True
    have "e_data st' \<noteq> e_data st"
    proof
      assume "e_data st' = e_data st"
      with q True have "etcd_get st k = Some r" by (simp add: etcd_get_def)
      with fresh(1) show False by blast
    qed
    with data have "owned_shard st (e_heap st' r)" by blast
    with True rest(1) show ?thesis by (simp add: owned_shard_def get_node_def)
  qed
  have "one_in_progress st'"
    using assms(1) rest(2) by (simp add: plane_ok_def one_in_progress_def get_migration_def)
  with wf' own show ?thesis by (simp add: plane_ok_def)
qed

lemma cp_step_ok:
  assumes "cp_step T cid (st, fs) (st', fs')" "plane_ok st"
  shows "plane_ok st'"
  using assms(1) assms(2)
  by (auto elim!: cp_stepE intro: create_plane_ok transition_plane_ok change_owner_plane_ok
      member_plane_ok migrate_plane_ok)

lemma cp_reach_ok: "cp_reach T cid s0 s \<Longrightarrow> plane_ok (fst s0) \<Longrightarrow> plane_ok (fst s)"
proof (induction rule: cp_reach.induct)
  case (cp_next s s')
  obtain st fs st' fs' where s: "s = (st, fs)" "s' = (st', fs')" by (cases s; cases s') auto
  with cp_next cp_step_ok [of T cid st fs st' fs'] show ?case by simp
qed simp

subsection \<open>Properties\<close>

text \<open>
  C2: in every state the control plane reaches from a sound one, whatever operations were invoked in
  whatever order and whether or not they were refused: the tables are well-formed, every stored
  shard has an owner that was registered as a cluster member and is not among its replicas, and at
  most one migration of a shard is in progress.
\<close>

theorem reachable_plane_sound:
  assumes "cp_reach T cid (st0, fs0) (st, fs)" "plane_ok st0"
  shows "wf_etcd st \<and> one_in_progress st \<and>
    (\<forall>k r. etcd_get st k = Some r \<longrightarrow>
       sh_id (e_heap st r) = k \<and> sh_node_id (e_heap st r) \<noteq> [] \<and>
       sh_node_id (e_heap st r) \<notin> set (sh_replicas (e_heap st r)) \<and>
       get_node st (sh_node_id (e_heap st r)) \<noteq> None)"
  using cp_reach_ok [OF assms(1)] assms(2) wf_get [of st]
  by (auto simp: plane_ok_def owned_shard_def)

lemma demo_plane_ok: "plane_ok demo_store"
  using demo_store_wf(1)
  by (auto simp: plane_ok_def one_in_progress_def owned_shard_def demo_store_def get_migration_def
      etcd_get_def get_node_def new_shard_def split: if_splits)

lemma reachable_plane_sound_witness:
  "\<exists>st fs. cp_reach demo_transfer ''c'' (demo_store, ()) (st, fs) \<and>
     st \<noteq> demo_store \<and> wf_etcd st \<and> one_in_progress st"
proof -
  obtain x st' where t: "lc_transition mem_ops 0 ShardState.DRAINING demo_store = (x, st')" by force
  have "etcd_get demo_store ''s0'' = Some 0" by (simp add: demo_store_def etcd_get_def)
  with t have "cp_step demo_transfer ''c'' (demo_store, ()) (st', ())" by (rule cp_transition [rotated])
  then have r: "cp_reach demo_transfer ''c'' (demo_store, ()) (st', ())"
    by (rule cp_next [OF cp_init])
  have "sh_state (e_heap st' 0) = ShardState.DRAINING"
    "sh_state (e_heap demo_store 0) = ShardState.ACTIVE"
    using t by (auto simp: lc_transition_def shard_transition_def demo_store_def new_shard_def)
  then have "st' \<noteq> demo_store" by auto
  with r reachable_plane_sound [OF r demo_plane_ok] show ?thesis by blast
qed

text \<open>
  C1: the owner of a stored shard changes in one control plane step only as the code intends: the
  shard was ACTIVE or DRAINING, the new owner is a known member that is not removed, the version
  counts one, the state is kept, and the shard stays stored under its id. No step removes a shard.
\<close>

theorem owner_change_guarded:
  assumes "cp_step T cid (st, fs) (st', fs')" "plane_ok st" "etcd_get st k = Some r"
  shows "etcd_get st' k = Some r \<and>
    (sh_node_id (e_heap st' r) \<noteq> sh_node_id (e_heap st r) \<longrightarrow>
       sh_state (e_heap st r) \<in> {ShardState.ACTIVE, ShardState.DRAINING} \<and>
       sh_state (e_heap st' r) = sh_state (e_heap st r) \<and>
       known_member st (sh_node_id (e_heap st' r)) \<and>
       sh_version (e_heap st' r) = sh_version (e_heap st r) + 1)"
proof -
  have wf: "wf_etcd st" using assms(2) by (simp add: plane_ok_def)
  from assms(1) show ?thesis
  proof (cases rule: cp_stepE
      [consumes 1, case_names create transition change_owner member migrate])
    case (create uid now ns node q st1 owner replicas x)
    have q: "q = e_next st" "e_heap st1 = (e_heap st)(q := new_shard uid now ns node)"
      "e_data st1 = e_data st"
      using create(4) by (auto simp: alloc_def)
    have ne: "r \<noteq> q" "k \<noteq> uid" using wf_get [OF wf assms(3)] q(1) create(2) assms(3) by auto
    define s where "s = (e_heap st1 q)
      \<lparr>sh_node_id := (case owner of None \<Rightarrow> sh_node_id (e_heap st1 q) | Some x \<Rightarrow> x),
       sh_replicas := (case replicas of None \<Rightarrow> sh_replicas (e_heap st1 q) | Some x \<Rightarrow> x)\<rparr>"
    have uid: "sh_id s = uid" using q(1,2) by (simp add: s_def new_shard_def)
    from create(5) s_def have "e_heap st' r = e_heap st r \<and> etcd_get st' k = etcd_get st k"
      by (cases rule: mem_create_cases) (use q ne uid in \<open>auto simp: etcd_get_def map_of_dict_put\<close>)
    with assms(3) show ?thesis by simp
  next
    case (transition j q to x)
    note keep = transition_keeps_listing [OF wf transition(2,3)]
    from transition(3) have "sh_node_id (e_heap st' r) = sh_node_id (e_heap st r)"
      by (cases rule: mem_transition_cases) (auto simp: shard_transition_ok)
    with keep(1) assms(3) show ?thesis by (simp add: etcd_get_def)
  next
    case (change_owner j q new_owner replicas x)
    note keep = change_owner_keeps_listing [OF wf change_owner(2,3)]
    from change_owner(3) have "sh_node_id (e_heap st' r) \<noteq> sh_node_id (e_heap st r) \<longrightarrow>
       sh_state (e_heap st r) \<in> {ShardState.ACTIVE, ShardState.DRAINING} \<and>
       sh_state (e_heap st' r) = sh_state (e_heap st r) \<and>
       known_member st (sh_node_id (e_heap st' r)) \<and>
       sh_version (e_heap st' r) = sh_version (e_heap st r) + 1"
      by (cases rule: mem_change_owner_cases) (auto simp: validate_node_ok)
    with keep(1) assms(3) show ?thesis by (simp add: etcd_get_def)
  next
    case (member q y)
    with member_serve_frame [OF member(2)] assms(3) show ?thesis
      by (simp add: member_frame_def etcd_get_def)
  next
    case (migrate p z)
    show ?thesis
    proof (cases "is_commit p \<and> (\<exists>m. z = Inr m)")
      case False
      from ownership_frame [OF wf migrate False] assms(3) show ?thesis
        by (simp add: etcd_get_def)
    next
      case True
      then obtain m' t1 t2 mid where "z = Inr m'" "p = MigCommit t1 t2 mid"
        by (cases p) auto
      with migrate have "mig_commit T cid t1 t2 mid (st, fs) = (Inr m', st', fs')" by simp
      from commit_ok [OF wf this] obtain m q where c: "etcd_get st (mg_shard_id m) = Some q"
        "sh_state (e_heap st q) \<in> migratable_states" "known_member st (mg_target m)"
        "e_heap st' = (e_heap st)(q := committed_shard m (e_heap st q))" "e_data st' = e_data st"
        by blast
      then show ?thesis
        using assms(3) by (auto simp: committed_shard_def migratable_states_def etcd_get_def)
    qed
  qed
qed

lemma owner_change_guarded_witness:
  "\<exists>st' fs'. cp_step demo_transfer ''c'' (put_migration (demo_migration VERIFYING 1) demo_store, ()) (st', fs') \<and>
     sh_node_id (e_heap st' 0) = ''n1'' \<and> etcd_get st' ''s0'' = Some 0 \<and>
     sh_version (e_heap st' 0) = 2"
proof -
  let ?st = "put_migration (demo_migration VERIFYING 1) demo_store"
  obtain x st' fs' where s: "mig_commit demo_transfer ''c'' 1 2 ''m'' (?st, ()) = (x, st', fs')"
    using prod_cases3 by blast
  have owner: "sh_node_id (e_heap st' 0) = ''n1''" "sh_node_id (e_heap ?st 0) = ''n0''"
    "sh_version (e_heap ?st 0) = 1"
    using s by (auto simp: mig_commit_def mig_require_def mig_require_state_def
        assert_source_valid_def demo_mig_simps validate_member_def validate_node_def
        validate_cluster_id_def migration_transition_def ownership_commit_def
        validate_ownership_def put_migration_def etcd_persist_def Let_def assign_def etcd_put_def)
  have ok: "plane_ok ?st"
    using demo_plane_ok demo_store_wf(2)
    by (auto simp: plane_ok_def one_in_progress_def owned_shard_def get_migration_put_migration
        demo_store_def get_migration_def etcd_get_def get_node_def split: if_splits)
  have step: "cp_step demo_transfer ''c'' (?st, ()) (st', fs')"
    using s by (intro cp_migrate [of _ _ "MigCommit 1 2 ''m''"]) simp
  have "etcd_get ?st ''s0'' = Some 0" by (simp add: demo_store_def etcd_get_def)
  from owner_change_guarded [OF step ok this] owner step show ?thesis by auto
qed

end
