(* ===== verification/Etcd_Remote.thy ===== *)
theory Etcd_Remote
  imports Lifecycle
begin

text \<open>
  \<open>Etcd3Store\<close> of \<open>sharding/etcd.py\<close>: the metadata store kept in an etcd service (its state record, \<open>put\<close> and
  the reconnect are in \<open>Lifecycle\<close>), the watch on it, and the factory that chooses a store. The service and
  its client are outside the program: \<open>kv_client\<close> has the calls the code makes, each of which may raise,
  and \<open>kv_contract\<close> is what etcd documents of the calls that return. A stored value is the JSON that
  was written; every read builds fresh objects, so reads return shards and not references.
\<close>

record 'kv kv_client =
  kc_connect :: "'kv \<Rightarrow> bool"
  kc_put :: "string \<Rightarrow> json \<Rightarrow> 'kv \<Rightarrow> unit res \<times> 'kv"
  kc_get :: "string \<Rightarrow> 'kv \<Rightarrow> json option res"
  kc_prefix :: "string \<Rightarrow> 'kv \<Rightarrow> json list res"
  kc_delete :: "string \<Rightarrow> 'kv \<Rightarrow> unit res \<times> 'kv"

text \<open>\<open>Etcd3Store(endpoints)\<close>: the first connection attempt may fail.\<close>

definition new_etcd3 :: "'kv kv_client \<Rightarrow> heap \<Rightarrow> 'kv \<Rightarrow> 'kv etcd3" where
  "new_etcd3 kc h kv = \<lparr>x_heap = h, x_connected = kc_connect kc kv, x_kv = kv\<rparr>"

text \<open>A stored value that does not decode raises; which class it is (KeyError, ValueError) is not kept.\<close>

definition malformed :: exn where
  "malformed = OtherError ''ValueError'' ''malformed record''"

text \<open>A call of the client after \<open>_ensure\<close>.\<close>

definition etcd3_read :: "'kv kv_client \<Rightarrow> ('kv \<Rightarrow> 'a res) \<Rightarrow> 'kv etcd3 \<Rightarrow> 'a res \<times> 'kv etcd3" where
  "etcd3_read kc f st =
     (case etcd3_ensure (kc_connect kc) st of
        (Inl e, st1) \<Rightarrow> (Inl e, st1) | (Inr _, st1) \<Rightarrow> (f (x_kv st1), st1))"

definition etcd3_write :: "'kv kv_client \<Rightarrow> ('kv \<Rightarrow> unit res \<times> 'kv) \<Rightarrow> 'kv etcd3 \<Rightarrow> unit res \<times> 'kv etcd3" where
  "etcd3_write kc f st =
     (case etcd3_ensure (kc_connect kc) st of
        (Inl e, st1) \<Rightarrow> (Inl e, st1)
      | (Inr _, st1) \<Rightarrow> (let (x, kv) = f (x_kv st1) in (x, st1\<lparr>x_kv := kv\<rparr>)))"

subsection \<open>Shards\<close>

definition etcd3_get :: "'kv kv_client \<Rightarrow> time \<Rightarrow> string \<Rightarrow> 'kv etcd3 \<Rightarrow> shard option res \<times> 'kv etcd3" where
  "etcd3_get kc now sid =
     etcd3_read kc (\<lambda>kv. case kc_get kc (etcd3_key sid) kv of
         Inl e \<Rightarrow> Inl e
       | Inr None \<Rightarrow> Inr None
       | Inr (Some d) \<Rightarrow> (case shard_from_dict now d of None \<Rightarrow> Inl malformed | Some s \<Rightarrow> Inr (Some s)))"

fun decode_list :: "(json \<Rightarrow> 'a option) \<Rightarrow> json list \<Rightarrow> 'a list res" where
  "decode_list f [] = Inr []"
| "decode_list f (d # ds) =
     (case f d of
        None \<Rightarrow> Inl malformed
      | Some x \<Rightarrow> (case decode_list f ds of Inl e \<Rightarrow> Inl e | Inr xs \<Rightarrow> Inr (x # xs)))"

definition list_decoded :: "'kv kv_client \<Rightarrow> (json \<Rightarrow> 'a option) \<Rightarrow> string \<Rightarrow> 'kv \<Rightarrow> 'a list res" where
  "list_decoded kc f prefix kv =
     (case kc_prefix kc prefix kv of Inl e \<Rightarrow> Inl e | Inr ds \<Rightarrow> decode_list f ds)"

definition etcd3_all :: "'kv kv_client \<Rightarrow> time \<Rightarrow> 'kv etcd3 \<Rightarrow> shard list res \<times> 'kv etcd3" where
  "etcd3_all kc now = etcd3_read kc (list_decoded kc (shard_from_dict now) ''/vsector/shards/'')"

definition etcd3_list_by_namespace ::
    "'kv kv_client \<Rightarrow> time \<Rightarrow> string \<Rightarrow> 'kv etcd3 \<Rightarrow> shard list res \<times> 'kv etcd3" where
  "etcd3_list_by_namespace kc now ns st =
     (case etcd3_all kc now st of
        (Inl e, st1) \<Rightarrow> (Inl e, st1)
      | (Inr ss, st1) \<Rightarrow> (Inr (filter (\<lambda>s. sh_namespace s = ns) ss), st1))"

definition etcd3_delete :: "'kv kv_client \<Rightarrow> string \<Rightarrow> 'kv etcd3 \<Rightarrow> unit res \<times> 'kv etcd3" where
  "etcd3_delete kc sid = etcd3_write kc (kc_delete kc (etcd3_key sid))"

subsection \<open>Cluster members\<close>

definition etcd3_node_key :: "string \<Rightarrow> string" where
  "etcd3_node_key nid = ''/vsector/cluster/nodes/'' @ nid"

definition etcd3_put_node :: "'kv kv_client \<Rightarrow> cluster_node \<Rightarrow> 'kv etcd3 \<Rightarrow> unit res \<times> 'kv etcd3" where
  "etcd3_put_node kc n = etcd3_write kc (kc_put kc (etcd3_node_key (cn_node_id n)) (node_to_dict n))"

definition etcd3_get_node ::
    "'kv kv_client \<Rightarrow> string \<Rightarrow> 'kv etcd3 \<Rightarrow> cluster_node option res \<times> 'kv etcd3" where
  "etcd3_get_node kc nid =
     etcd3_read kc (\<lambda>kv. case kc_get kc (etcd3_node_key nid) kv of
         Inl e \<Rightarrow> Inl e
       | Inr None \<Rightarrow> Inr None
       | Inr (Some d) \<Rightarrow> (case node_from_dict d of None \<Rightarrow> Inl malformed | Some n \<Rightarrow> Inr (Some n)))"

definition etcd3_list_nodes :: "'kv kv_client \<Rightarrow> 'kv etcd3 \<Rightarrow> cluster_node list res \<times> 'kv etcd3" where
  "etcd3_list_nodes kc = etcd3_read kc (list_decoded kc node_from_dict ''/vsector/cluster/nodes/'')"

definition etcd3_delete_node :: "'kv kv_client \<Rightarrow> string \<Rightarrow> 'kv etcd3 \<Rightarrow> unit res \<times> 'kv etcd3" where
  "etcd3_delete_node kc nid = etcd3_write kc (kc_delete kc (etcd3_node_key nid))"

subsection \<open>The watch and the factory\<close>

text \<open>
  The watch thread hands each event to the callback and swallows what it raises: \<open>events\<close> are those
  delivered so far, \<open>None\<close> is a watch that could not be set up.
\<close>

definition etcd3_watch_prefix ::
    "'kv kv_client \<Rightarrow> ('ev \<Rightarrow> 'w \<Rightarrow> unit res \<times> 'w) \<Rightarrow> 'ev list option \<Rightarrow> 'w \<Rightarrow> 'kv etcd3 \<Rightarrow> unit res \<times> 'w \<times> 'kv etcd3" where
  "etcd3_watch_prefix kc callback events w st =
     (case etcd3_ensure (kc_connect kc) st of
        (Inl e, st1) \<Rightarrow> (Inl e, w, st1)
      | (Inr _, st1) \<Rightarrow>
          (case events of
             None \<Rightarrow> (Inr (), w, st1)
           | Some evs \<Rightarrow> (Inr (), fold (\<lambda>ev w. snd (callback ev w)) evs w, st1)))"

datatype 'kv etcd_store = InMemory etcd | Remote "'kv etcd3"

definition make_etcd_store :: "'kv kv_client \<Rightarrow> string \<Rightarrow> heap \<Rightarrow> 'kv \<Rightarrow> 'kv etcd_store" where
  "make_etcd_store kc endpoints h kv =
     (let store = new_etcd3 kc h kv in
      if endpoints \<noteq> [] \<and> x_connected store then Remote store else InMemory (empty_etcd [] None True))"

subsection \<open>What the store promises\<close>

definition kv_contract :: "'kv kv_client \<Rightarrow> ('kv \<Rightarrow> string \<Rightarrow> json option) \<Rightarrow> bool" where
  "kv_contract kc view \<longleftrightarrow>
     (\<forall>k kv x. kc_get kc k kv = Inr x \<longrightarrow> x = view kv k) \<and>
     (\<forall>k d kv kv'. kc_put kc k d kv = (Inr (), kv') \<longrightarrow> view kv' = (view kv)(k \<mapsto> d)) \<and>
     (\<forall>k kv kv'. kc_delete kc k kv = (Inr (), kv') \<longrightarrow> view kv' = (view kv)(k := None)) \<and>
     (\<forall>p kv ds. kc_prefix kc p kv = Inr ds \<longrightarrow> set ds = {d. \<exists>k. starts_with p k \<and> view kv k = Some d})"

text \<open>The store holds these shards and these members.\<close>

definition remote_holds ::
    "('kv \<Rightarrow> string \<Rightarrow> json option) \<Rightarrow> (string \<Rightarrow> shard option) \<Rightarrow> (string \<Rightarrow> cluster_node option) \<Rightarrow> 'kv \<Rightarrow> bool" where
  "remote_holds view shards nodes kv \<longleftrightarrow>
     (\<forall>k. view kv (etcd3_key k) = map_option shard_to_dict (shards k)) \<and>
     (\<forall>k. view kv (etcd3_node_key k) = map_option node_to_dict (nodes k))"

lemma etcd3_keys [simp]:
  "etcd3_key a = etcd3_key b \<longleftrightarrow> a = b" "etcd3_node_key a = etcd3_node_key b \<longleftrightarrow> a = b"
  "etcd3_key a \<noteq> etcd3_node_key b" "etcd3_node_key b \<noteq> etcd3_key a"
  by (simp_all add: etcd3_key_def etcd3_node_key_def)

lemma starts_with_keys:
  "starts_with ''/vsector/shards/'' k \<longleftrightarrow> (\<exists>sid. k = etcd3_key sid)"
  "starts_with ''/vsector/cluster/nodes/'' k \<longleftrightarrow> (\<exists>nid. k = etcd3_node_key nid)"
  by (simp_all add: starts_with_iff etcd3_key_def etcd3_node_key_def)

datatype remote_request =
    RemotePut sref
  | RemoteDelete string
  | RemotePutNode cluster_node
  | RemoteDeleteNode string

fun remote_serve :: "'kv kv_client \<Rightarrow> remote_request \<Rightarrow> 'kv etcd3 \<Rightarrow> unit res \<times> 'kv etcd3" where
  "remote_serve kc (RemotePut r) st = etcd3_put (kc_connect kc) (kc_put kc) r st"
| "remote_serve kc (RemoteDelete sid) st = etcd3_delete kc sid st"
| "remote_serve kc (RemotePutNode n) st = etcd3_put_node kc n st"
| "remote_serve kc (RemoteDeleteNode nid) st = etcd3_delete_node kc nid st"

fun table_serve ::
    "heap \<Rightarrow> remote_request \<Rightarrow> (string \<Rightarrow> shard option) \<times> (string \<Rightarrow> cluster_node option) \<Rightarrow>
     (string \<Rightarrow> shard option) \<times> (string \<Rightarrow> cluster_node option)" where
  "table_serve h (RemotePut r) (shards, nodes) = (shards(sh_id (h r) \<mapsto> h r), nodes)"
| "table_serve h (RemoteDelete sid) (shards, nodes) = (shards(sid := None), nodes)"
| "table_serve h (RemotePutNode n) (shards, nodes) = (shards, nodes(cn_node_id n \<mapsto> n))"
| "table_serve h (RemoteDeleteNode nid) (shards, nodes) = (shards, nodes(nid := None))"

fun remote_run :: "'kv kv_client \<Rightarrow> remote_request list \<Rightarrow> 'kv etcd3 \<Rightarrow> unit res \<times> 'kv etcd3" where
  "remote_run kc [] st = (Inr (), st)"
| "remote_run kc (q # qs) st =
     (case remote_serve kc q st of (Inl e, st1) \<Rightarrow> (Inl e, st1) | (Inr _, st1) \<Rightarrow> remote_run kc qs st1)"

lemma etcd3_ensure_frame:
  "etcd3_ensure c st = (x, st1) \<Longrightarrow> x_kv st1 = x_kv st \<and> x_heap st1 = x_heap st \<and> (x = Inr () \<longrightarrow> x_connected st1)"
  by (auto simp: etcd3_ensure_def Let_def split: if_splits)

lemma etcd3_read_ok: "etcd3_read kc f st = (Inr x, st1) \<Longrightarrow> f (x_kv st) = Inr x \<and> x_kv st1 = x_kv st"
  by (auto simp: etcd3_read_def split: prod.splits sum.splits dest!: etcd3_ensure_frame)

lemma etcd3_write_ok:
  "etcd3_write kc f st = (Inr (), st1) \<Longrightarrow> f (x_kv st) = (Inr (), x_kv st1) \<and> x_heap st1 = x_heap st"
  by (auto simp: etcd3_write_def split: prod.splits sum.splits dest!: etcd3_ensure_frame)

lemma etcd3_put_write:
  "etcd3_put (kc_connect kc) (kc_put kc) r st =
     etcd3_write kc (kc_put kc (etcd3_key (sh_id (x_heap st r))) (shard_to_dict (x_heap st r))) st"
  by (auto simp: etcd3_put_def etcd3_write_def split: prod.splits sum.splits dest: etcd3_ensure_heap)

lemma remote_serve_ok:
  assumes "kv_contract kc view" "remote_serve kc q st = (Inr (), st1)" "remote_holds view shards nodes (x_kv st)"
    "table_serve (x_heap st) q (shards, nodes) = (shards1, nodes1)"
  shows "remote_holds view shards1 nodes1 (x_kv st1) \<and> x_heap st1 = x_heap st"
  using assms
  by (cases q)
    (auto simp: etcd3_put_write etcd3_delete_def etcd3_put_node_def etcd3_delete_node_def kv_contract_def remote_holds_def
      dest!: etcd3_write_ok)

lemma remote_run_ok:
  assumes "kv_contract kc view" "remote_run kc qs st = (Inr (), st1)" "remote_holds view shards nodes (x_kv st)"
    "fold (table_serve (x_heap st)) qs (shards, nodes) = (shards1, nodes1)"
  shows "remote_holds view shards1 nodes1 (x_kv st1) \<and> x_heap st1 = x_heap st"
  using assms(2-)
proof (induction qs arbitrary: st shards nodes)
  case (Cons q qs)
  obtain st2 where s: "remote_serve kc q st = (Inr (), st2)" "remote_run kc qs st2 = (Inr (), st1)"
    using Cons.prems(1) by (auto split: prod.splits sum.splits)
  obtain shards2 nodes2 where t: "table_serve (x_heap st) q (shards, nodes) = (shards2, nodes2)" by fastforce
  from remote_serve_ok [OF assms(1) s(1) Cons.prems(2) t] Cons.IH [OF s(2), of shards2 nodes2] Cons.prems(3) t
  show ?case by auto
qed auto

lemma decode_list_ok:
  "decode_list f ds = Inr xs \<Longrightarrow> set ds = g ` S \<Longrightarrow> (\<And>x. x \<in> S \<Longrightarrow> f (g x) = Some (h x)) \<Longrightarrow> set xs = h ` S"
proof (induction ds arbitrary: xs S)
  case (Cons d ds)
  obtain x ys where x: "f d = Some x" "decode_list f ds = Inr ys" "xs = x # ys"
    using Cons.prems(1) by (auto split: option.splits sum.splits)
  have "set ds = g ` {y \<in> S. g y \<in> set ds}" using Cons.prems(2) by auto
  then have "set ys = h ` {y \<in> S. g y \<in> set ds}" using Cons.IH [OF x(2)] Cons.prems(3) by blast
  moreover have "h y = x" if "y \<in> S" "g y = d" for y using Cons.prems(3) [OF that(1)] that(2) x(1) by simp
  moreover obtain y where "y \<in> S" "g y = d" using Cons.prems(2) by (metis image_iff list.set_intros(1))
  moreover have "g y = d \<or> g y \<in> set ds" if "y \<in> S" for y using Cons.prems(2) that by auto
  ultimately show ?case unfolding x(3) by (auto simp: image_iff)
qed auto

lemma held_values:
  assumes "\<And>k. v (key k) = map_option enc (t k)"
  shows "{d. \<exists>k. (\<exists>i. k = key i) \<and> v k = Some d} = enc ` {s. \<exists>i. t i = Some s}"
proof -
  have "{d. \<exists>k. (\<exists>i. k = key i) \<and> v k = Some d} = {d. \<exists>i. v (key i) = Some d}" by blast
  also have "\<dots> = enc ` {s. \<exists>i. t i = Some s}" unfolding assms by (auto simp: map_option_eq_Some)
  finally show ?thesis .
qed

lemma read_value:
  assumes "etcd3_read kc (\<lambda>kv. case kc_get kc k kv of
      Inl e \<Rightarrow> Inl e
    | Inr None \<Rightarrow> Inr None
    | Inr (Some d) \<Rightarrow> (case dec d of None \<Rightarrow> Inl malformed | Some s \<Rightarrow> Inr (Some s))) st = (Inr x, st2)"
    and "\<And>y. kc_get kc k (x_kv st) = Inr y \<Longrightarrow> y = map_option enc v" "\<And>s. dec (enc s) = Some (h s)"
  shows "x = map_option h v"
proof -
  obtain y where "kc_get kc k (x_kv st) = Inr y"
    using etcd3_read_ok [OF assms(1)] by (auto split: sum.splits)
  with assms(2) have "kc_get kc k (x_kv st) = Inr (map_option enc v)" by simp
  with etcd3_read_ok [OF assms(1)] assms(3) show ?thesis by (cases v) simp_all
qed

text \<open>
  C39: over an etcd service that keeps its documented contract, the remote store is two tables: after any
  sequence of puts and deletions of shards and members that went through, a read that returns gives the
  last shard put under the id and not deleted since (its creation time, which is not written, is the
  time of the read), the listing of a namespace has exactly those of its shards, and the members are the
  last ones put; shards and members never get into each other's way.
\<close>

theorem remote_store_is_table:
  assumes "kv_contract kc view" "remote_run kc qs st = (Inr (), st1)" "remote_holds view shards nodes (x_kv st)"
    and "fold (table_serve (x_heap st)) qs (shards, nodes) = (shards1, nodes1)"
  shows "(\<forall>now sid x st2. etcd3_get kc now sid st1 = (Inr x, st2) \<longrightarrow>
       x = map_option (\<lambda>s. s\<lparr>sh_created_at := now\<rparr>) (shards1 sid)) \<and>
    (\<forall>now ns ss st2. etcd3_list_by_namespace kc now ns st1 = (Inr ss, st2) \<longrightarrow>
       set ss = {s\<lparr>sh_created_at := now\<rparr> | s sid. shards1 sid = Some s \<and> sh_namespace s = ns}) \<and>
    (\<forall>nid x st2. etcd3_get_node kc nid st1 = (Inr x, st2) \<longrightarrow> x = nodes1 nid) \<and>
    (\<forall>ns st2. etcd3_list_nodes kc st1 = (Inr ns, st2) \<longrightarrow> set ns = {n. \<exists>nid. nodes1 nid = Some n})"
proof -
  have h: "remote_holds view shards1 nodes1 (x_kv st1)" using remote_run_ok [OF assms] by simp
  have kc: "\<And>k kv x. kc_get kc k kv = Inr x \<Longrightarrow> x = view kv k"
    "\<And>p kv ds. kc_prefix kc p kv = Inr ds \<Longrightarrow> set ds = {d. \<exists>k. starts_with p k \<and> view kv k = Some d}"
    using assms(1) by (auto simp: kv_contract_def)
  have held: "kc_get kc (etcd3_key k) (x_kv st1) = Inr x \<Longrightarrow> x = map_option shard_to_dict (shards1 k)"
    "kc_get kc (etcd3_node_key k) (x_kv st1) = Inr x \<Longrightarrow> x = map_option node_to_dict (nodes1 k)" for k x
    using kc(1) [of "etcd3_key k" "x_kv st1" x] kc(1) [of "etcd3_node_key k" "x_kv st1" x] h
    by (simp_all add: remote_holds_def)
  have one: "x = map_option (\<lambda>s. s\<lparr>sh_created_at := now\<rparr>) (shards1 sid)"
    if "etcd3_get kc now sid st1 = (Inr x, st2)" for now sid x st2
    by (rule read_value [OF that [unfolded etcd3_get_def] _ shard_dict_roundtrip]) (rule held(1))
  have all: "set ss = {s\<lparr>sh_created_at := now\<rparr> | s sid. shards1 sid = Some s}"
    if a: "list_decoded kc (shard_from_dict now) ''/vsector/shards/'' (x_kv st1) = Inr ss" for now ss
  proof -
    obtain ds where ds: "kc_prefix kc ''/vsector/shards/'' (x_kv st1) = Inr ds" "decode_list (shard_from_dict now) ds = Inr ss"
      using a by (auto simp: list_decoded_def split: sum.splits)
    have "set ds = shard_to_dict ` {s. \<exists>sid. shards1 sid = Some s}"
      unfolding kc(2) [OF ds(1)] starts_with_keys by (rule held_values) (use h in \<open>simp add: remote_holds_def\<close>)
    from decode_list_ok [OF ds(2) this, of "\<lambda>s. s\<lparr>sh_created_at := now\<rparr>"] shard_dict_roundtrip [of now] show ?thesis by auto
  qed
  have ns: "set ss = {s\<lparr>sh_created_at := now\<rparr> | s sid. shards1 sid = Some s \<and> sh_namespace s = ns}"
    if "etcd3_list_by_namespace kc now ns st1 = (Inr ss, st2)" for now ns ss st2
    using that all by (fastforce simp: etcd3_list_by_namespace_def etcd3_all_def split: prod.splits sum.splits dest!: etcd3_read_ok)
  have nd: "x = nodes1 nid" if "etcd3_get_node kc nid st1 = (Inr x, st2)" for nid x st2
  proof -
    have "x = map_option (\<lambda>n. n) (nodes1 nid)"
      by (rule read_value [OF that [unfolded etcd3_get_node_def] _ node_dict_roundtrip]) (rule held(2))
    then show ?thesis by (simp add: option.map_ident)
  qed
  have nl: "set xs = {n. \<exists>nid. nodes1 nid = Some n}" if a: "etcd3_list_nodes kc st1 = (Inr xs, st2)" for xs st2
  proof -
    obtain ds where ds: "kc_prefix kc ''/vsector/cluster/nodes/'' (x_kv st1) = Inr ds" "decode_list node_from_dict ds = Inr xs"
      using a by (auto simp: etcd3_list_nodes_def list_decoded_def split: sum.splits dest!: etcd3_read_ok)
    have "set ds = node_to_dict ` {n. \<exists>nid. nodes1 nid = Some n}"
      unfolding kc(2) [OF ds(1)] starts_with_keys by (rule held_values) (use h in \<open>simp add: remote_holds_def\<close>)
    from decode_list_ok [OF ds(2) this, of "\<lambda>n. n"] node_dict_roundtrip show ?thesis by auto
  qed
  from one ns nd nl show ?thesis by blast
qed

text \<open>A service that is an association list.\<close>

definition list_client :: "(string \<times> json) list kv_client" where
  "list_client = \<lparr>kc_connect = (\<lambda>kv. True), kc_put = (\<lambda>k d kv. (Inr (), dict_put k d kv)),
     kc_get = (\<lambda>k kv. Inr (dict_get kv k)),
     kc_prefix = (\<lambda>p kv. Inr (map snd (filter (\<lambda>(k, d). starts_with p k \<and> dict_get kv k = Some d) kv))),
     kc_delete = (\<lambda>k kv. (Inr (), dict_pop k kv))\<rparr>"

lemma list_client_contract: "kv_contract list_client dict_get"
  by (auto simp: kv_contract_def list_client_def map_of_dict_put map_of_dict_pop image_iff dest: map_of_SomeD)
    (force dest: map_of_SomeD)+

definition remote_demo_heap :: heap where
  "remote_demo_heap = (\<lambda>r. (new_shard (if r = 0 then ''s0'' else ''s1'') 3 ''ns'' ''n1''))"

lemma remote_store_is_table_witness:
  "\<exists>st1. remote_run list_client [RemotePut 0, RemotePut 1, RemoteDelete ''s0''] (new_etcd3 list_client remote_demo_heap []) = (Inr (), st1) \<and>
     fst (etcd3_get list_client 9 ''s1'' st1) = Inr (Some (new_shard ''s1'' 9 ''ns'' ''n1'')) \<and>
     fst (etcd3_get list_client 9 ''s0'' st1) = Inr None"
proof -
  let ?st = "new_etcd3 list_client remote_demo_heap []" and ?qs = "[RemotePut 0, RemotePut 1, RemoteDelete ''s0'']"
  obtain st1 where run: "remote_run list_client ?qs ?st = (Inr (), st1)" "x_connected st1"
    by (simp add: etcd3_put_def etcd3_delete_def etcd3_write_def etcd3_ensure_def new_etcd3_def list_client_def Let_def)
  have hp: "x_heap ?st = remote_demo_heap" by (simp add: new_etcd3_def)
  obtain shards1 nodes1 where t: "fold (table_serve (x_heap ?st)) ?qs (\<lambda>k. None, \<lambda>k. None) = (shards1, nodes1)"
    "shards1 ''s1'' = Some (new_shard ''s1'' 3 ''ns'' ''n1'')" "shards1 ''s0'' = None"
    by (simp add: hp remote_demo_heap_def new_etcd3_def new_shard_def)
  have h0: "remote_holds dict_get (\<lambda>k. None) (\<lambda>k. None) (x_kv ?st)" by (simp add: remote_holds_def new_etcd3_def)
  have get: "\<exists>x st2. etcd3_get list_client 9 sid st1 = (Inr x, st2)" if "dict_get (x_kv st1) (etcd3_key sid) = map_option shard_to_dict (shards1 sid)" for sid
    using that run(2)
    by (auto simp: etcd3_get_def etcd3_read_def etcd3_ensure_def list_client_def shard_dict_roundtrip split: option.split)
  have "remote_holds dict_get shards1 nodes1 (x_kv st1)"
    using remote_run_ok [OF list_client_contract run(1) h0 t(1)] by simp
  then have "\<And>sid. \<exists>x st2. etcd3_get list_client 9 sid st1 = (Inr x, st2)"
    using get by (simp add: remote_holds_def)
  then obtain x y st2 st3 where xy: "etcd3_get list_client 9 ''s1'' st1 = (Inr x, st2)" "etcd3_get list_client 9 ''s0'' st1 = (Inr y, st3)"
    by metis
  have "\<forall>now sid x st2. etcd3_get list_client now sid st1 = (Inr x, st2) \<longrightarrow>
      x = map_option (\<lambda>s. s\<lparr>sh_created_at := now\<rparr>) (shards1 sid)"
    using remote_store_is_table [OF list_client_contract run(1) h0 t(1)] by (rule conjunct1)
  with xy have "x = map_option (\<lambda>s. s\<lparr>sh_created_at := 9\<rparr>) (shards1 ''s1'')"
    "y = map_option (\<lambda>s. s\<lparr>sh_created_at := 9\<rparr>) (shards1 ''s0'')" by blast+
  then have "x = Some (new_shard ''s1'' 9 ''ns'' ''n1'')" "y = None"
    using t(2,3) by (simp_all add: new_shard_def)
  with run(1) xy show ?thesis by (intro exI [of _ st1]) simp
qed

end
