(* ===== verification/Gossip.thy ===== *)
theory Gossip
  imports Router Etcd_Remote
begin

text \<open>
  \<open>GossipInvalidator\<close> of \<open>sharding/gossip.py\<close>: it watches the metadata store and drops the routing caches of
  the namespaces whose shards change. The watch is that of the store the factory chose: none for the
  in-memory store. The poll thread wakes up and does nothing, so it is not part of the model.
\<close>

text \<open>
  An event carries the new value of a key, empty for a deletion; \<open>loads\<close> parses it. Whatever handling an
  event raises is swallowed; only a nonempty string names a cached namespace.
\<close>

definition on_event :: "(string \<Rightarrow> json option) \<Rightarrow> string \<Rightarrow> router \<Rightarrow> router" where
  "on_event loads val rt =
     (if val = [] then rt
      else case loads val of
             None \<Rightarrow> rt
           | Some d \<Rightarrow> (case obj_get d ''namespace'' of
               Some (Some (JStr ns)) \<Rightarrow> if ns = [] then rt else invalidate ns rt
             | _ \<Rightarrow> rt))"

text \<open>\<open>start\<close>: the events delivered by the watch so far are applied; a failing watch is logged.\<close>

definition gossip_start ::
    "'kv kv_client \<Rightarrow> (string \<Rightarrow> json option) \<Rightarrow> string list option \<Rightarrow> router \<times> 'kv etcd_store \<Rightarrow> router \<times> 'kv etcd_store" where
  "gossip_start kc loads events = (\<lambda>(rt, store).
     case store of
       InMemory st \<Rightarrow> (rt, store)
     | Remote st \<Rightarrow>
         (case etcd3_watch_prefix kc (\<lambda>ev w. (Inr (), on_event loads ev w)) events rt st of
            (x, rt1, st1) \<Rightarrow> (rt1, Remote st1)))"

text \<open>The namespaces that the events name.\<close>

definition announced :: "(string \<Rightarrow> json option) \<Rightarrow> string list \<Rightarrow> string set" where
  "announced loads events =
     {ns. ns \<noteq> [] \<and> (\<exists>v \<in> set events. v \<noteq> [] \<and>
        (\<exists>d. loads v = Some d \<and> obj_get d ''namespace'' = Some (Some (JStr ns))))}"

lemma on_event_cases:
  "on_event loads v rt = rt \<and> announced loads [v] = {} \<or> (\<exists>ns. on_event loads v rt = invalidate ns rt \<and> announced loads [v] = {ns})"
  by (auto simp: on_event_def announced_def split: option.splits json.splits if_splits)

lemma announced_Cons: "announced loads (v # vs) = announced loads [v] \<union> announced loads vs"
  by (auto simp: announced_def)

lemma invalidate_cached:
  "cached_shards t ns (invalidate n rt) =
     (if n = ns then list_by_namespace (r_etcd rt) ns else cached_shards t ns rt)"
  by (auto simp: invalidate_def get_shards_cached_def Let_def map_of_dict_pop split: option.split)

lemma on_events_cached:
  "cached_shards t ns (fold (on_event loads) vs rt) =
     (if ns \<in> announced loads vs then list_by_namespace (r_etcd rt) ns else cached_shards t ns rt) \<and>
   r_etcd (fold (on_event loads) vs rt) = r_etcd rt"
proof (induction vs arbitrary: rt)
  case (Cons v vs)
  have step: "fold (on_event loads) (v # vs) rt = fold (on_event loads) vs (on_event loads v rt)" by simp
  from on_event_cases [of loads v rt] show ?case
  proof (elim disjE conjE exE)
    assume "on_event loads v rt = rt" "announced loads [v] = {}"
    then show ?thesis unfolding step announced_Cons [of loads v vs] using Cons [of rt] by simp
  next
    fix n assume n: "on_event loads v rt = invalidate n rt" "announced loads [v] = {n}"
    have e: "r_etcd (invalidate k rt) = r_etcd rt" for k by (simp add: invalidate_def)
    show ?thesis unfolding step n(1) announced_Cons [of loads v vs] n(2)
      using Cons [of "invalidate n rt"] by (simp add: e invalidate_cached)
  qed
qed (simp add: announced_def)

text \<open>
  After the watch has delivered its events, exactly the namespaces named by a value are listed afresh from
  the store; the deletion of a shard has no value and leaves its namespace cached, and over the in-memory
  store nothing is ever dropped.
\<close>

theorem gossip_refreshes:
  assumes "x_connected x"
  shows "cached_shards t ns (fst (gossip_start kc loads (Some events) (rt, Remote x))) =
      (if ns \<in> announced loads events then list_by_namespace (r_etcd rt) ns else cached_shards t ns rt) \<and>
    fst (gossip_start kc loads (Some events) (rt, InMemory st)) = rt"
  using assms on_events_cached [of t ns loads events rt]
  by (simp add: gossip_start_def etcd3_watch_prefix_def etcd3_ensure_def)

lemma deletion_unnoticed: "announced loads [[]] = {}"
  by (simp add: announced_def)

end
