(* ===== verification/Records.thy ===== *)
theory Records
  imports Errors
begin

text \<open>
  \<open>models/vector_record.py\<close>, \<open>models/namespace.py\<close> and \<open>models/cost.py\<close>. Python floats are real
  numbers here: nothing below depends on their rounding. Ids and instants are what the code compares
  and stores: an id is its string form, an instant is a time. \<open>sha\<close> is the SHA-256 hex digest of a
  byte string and \<open>str_float\<close> is \<open>str\<close> of a float.
\<close>

subsection \<open>Vector records\<close>

record vector_record =
  vr_id :: string
  vr_namespace :: string
  vr_vector :: "real list"
  vr_dimension :: int
  vr_metadata :: "(string, json) dict"
  vr_created_at :: time
  vr_updated_at :: time
  vr_version :: int
  vr_ttl :: "time option"
  vr_tags :: "string list"
  vr_source_system :: string
  vr_checksum :: string

definition sha256_vector :: "(string \<Rightarrow> string) \<Rightarrow> (real \<Rightarrow> string) \<Rightarrow> real list \<Rightarrow> string" where
  "sha256_vector sha str_float v = sha (concat (map str_float v))"

text \<open>
  The checks of construction: the field constraints, the vector validator and \<open>model_post_init\<close>. The
  argument holds the fields as given; an empty checksum is filled in.
\<close>

definition make_record ::
    "(string \<Rightarrow> string) \<Rightarrow> (real \<Rightarrow> string) \<Rightarrow> vector_record \<Rightarrow> vector_record res" where
  "make_record sha str_float r =
     (if vr_vector r = [] then Inl (ValueError ''vector must not be empty'')
      else if vr_dimension r < 1 then
        Inl (ValueError ''Input should be greater than or equal to 1'')
      else if vr_version r < 1 then
        Inl (ValueError ''Input should be greater than or equal to 1'')
      else if vr_dimension r \<noteq> int (length (vr_vector r)) then
        Inl (ValueError (''dimension '' @ int_str (vr_dimension r) @ '' != len(vector) ''
               @ nat_str (length (vr_vector r))))
      else if vr_checksum r = [] then
        Inr (r\<lparr>vr_checksum := sha256_vector sha str_float (vr_vector r)\<rparr>)
      else Inr r)"

definition is_expired :: "time \<Rightarrow> vector_record \<Rightarrow> bool" where
  "is_expired now r = (case vr_ttl r of None \<Rightarrow> False | Some t \<Rightarrow> now \<ge> t)"

definition bump_version ::
    "(string \<Rightarrow> string) \<Rightarrow> (real \<Rightarrow> string) \<Rightarrow> time \<Rightarrow> vector_record \<Rightarrow> vector_record" where
  "bump_version sha str_float now r =
     r\<lparr>vr_version := vr_version r + 1, vr_updated_at := now,
       vr_checksum := sha256_vector sha str_float (vr_vector r)\<rparr>"

definition to_payload :: "(time \<Rightarrow> string) \<Rightarrow> bool \<Rightarrow> vector_record \<Rightarrow> json" where
  "to_payload isoformat include_vector r = JObj
     ([(''id'', JStr (vr_id r)),
       (''namespace'', JStr (vr_namespace r)),
       (''metadata'', JObj (vr_metadata r)),
       (''tags'', JList (map JStr (vr_tags r))),
       (''source_system'', JStr (vr_source_system r)),
       (''created_at'', JStr (isoformat (vr_created_at r))),
       (''updated_at'', JStr (isoformat (vr_updated_at r))),
       (''version'', JInt (vr_version r)),
       (''checksum'', JStr (vr_checksum r))] @
      (if include_vector then
         [(''vector'', JList (map JFloat (vr_vector r))), (''dimension'', JInt (vr_dimension r))]
       else []))"

definition valid_record :: "vector_record \<Rightarrow> bool" where
  "valid_record r \<longleftrightarrow> vr_vector r \<noteq> [] \<and> vr_dimension r = int (length (vr_vector r)) \<and>
     1 \<le> vr_version r"

lemma make_record_ok:
  "make_record sha str_float r = Inr r' \<Longrightarrow>
     valid_record r' \<and> r' = r\<lparr>vr_checksum := vr_checksum r'\<rparr> \<and>
     vr_checksum r' = (if vr_checksum r = [] then sha256_vector sha str_float (vr_vector r)
                       else vr_checksum r)"
  by (auto simp: make_record_def valid_record_def split: if_splits)

lemma make_record_total:
  "(\<exists>r'. make_record sha str_float r = Inr r') \<longleftrightarrow> valid_record r"
  by (auto simp: make_record_def valid_record_def Suc_leI split: if_splits)

lemma bump_version_valid:
  "valid_record r \<Longrightarrow> valid_record (bump_version sha str_float now r)"
  by (simp add: valid_record_def bump_version_def)

subsection \<open>Namespaces\<close>

datatype DistanceMetric = COSINE | EUCLIDEAN | DOT_PRODUCT | MANHATTAN
datatype IndexType = HNSW | IVF_PQ | FLAT | SCANN
datatype CompressionType = NONE | PQ | SQ8 | BF16

fun compression_value :: "CompressionType \<Rightarrow> string" where
  "compression_value NONE = ''NONE''"
| "compression_value PQ = ''PQ''"
| "compression_value SQ8 = ''SQ8''"
| "compression_value BF16 = ''BF16''"

record namespace =
  ns_name :: string
  ns_dimension :: int
  ns_distance_metric :: DistanceMetric
  ns_index_type :: IndexType
  ns_replication_factor :: int
  ns_required_acks :: int
  ns_shard_count :: int
  ns_compression :: CompressionType
  ns_tenant_id :: string
  ns_expected_records :: "int option"

definition name_char :: "char \<Rightarrow> bool" where
  "name_char c = (c \<in> set ''abcdefghijklmnopqrstuvwxyzABCDEFGHIJKLMNOPQRSTUVWXYZ0123456789_-.'')"

text \<open>The field constraints of \<open>Namespace\<close> (the name's pattern is \<open>^[a-zA-Z0-9_-.]{1,64}$\<close>).\<close>

definition valid_namespace :: "namespace \<Rightarrow> bool" where
  "valid_namespace n =
     (1 \<le> length (ns_name n) \<and> length (ns_name n) \<le> 64 \<and> list_all name_char (ns_name n) \<and>
      1 \<le> ns_dimension n \<and> ns_dimension n \<le> 65536 \<and>
      1 \<le> ns_replication_factor n \<and> ns_replication_factor n \<le> 7 \<and>
      1 \<le> ns_required_acks n \<and> ns_required_acks n \<le> 7 \<and>
      1 \<le> ns_shard_count n \<and> ns_shard_count n \<le> 1024 \<and>
      (case ns_expected_records n of None \<Rightarrow> True | Some k \<Rightarrow> 1 \<le> k))"

definition validate_dimension :: "namespace \<Rightarrow> int \<Rightarrow> unit res" where
  "validate_dimension n d =
     (if d \<noteq> ns_dimension n then
        Inl (ValueError (''dimension mismatch: expected '' @ int_str (ns_dimension n) @ '', got ''
               @ int_str d))
      else Inr ())"

subsection \<open>Shard count tuning\<close>

text \<open>\<open>str.upper\<close> on ASCII letters.\<close>

definition upper :: "string \<Rightarrow> string" where
  "upper s = map (\<lambda>c. if c \<in> set ''abcdefghijklmnopqrstuvwxyz'' then char_of (of_char c - (32 :: nat)) else c) s"

definition compression_ratio :: "string \<Rightarrow> real" where
  "compression_ratio c =
     (if c = ''PQ'' then 0.125 else if c = ''SQ8'' then 0.25 else if c = ''BF16'' then 0.5 else 1)"

definition bytes_per_vector :: "int \<Rightarrow> string \<Rightarrow> int" where
  "bytes_per_vector d c = \<lfloor>of_int (d * 4) * compression_ratio (upper c)\<rfloor>"

definition auto_shard_count :: "int \<Rightarrow> int \<Rightarrow> real \<Rightarrow> int \<Rightarrow> int \<Rightarrow> int res" where
  "auto_shard_count expected shard_max utilization min_shards max_shards =
     (if expected \<le> 0 then Inr min_shards
      else (let capacity = \<lfloor>of_int shard_max * utilization\<rfloor> in
            if capacity = 0 then Inl (OtherError ''ZeroDivisionError'' ''division by zero'')
            else Inr (max min_shards (min max_shards \<lceil>of_int expected / (of_int capacity :: real)\<rceil>))))"

definition auto_tune :: "int \<Rightarrow> namespace \<Rightarrow> int res \<times> namespace" where
  "auto_tune shard_max n =
     (case ns_expected_records n of
        None \<Rightarrow> (Inr (ns_shard_count n), n)
      | Some k \<Rightarrow>
          if k = 0 then (Inr (ns_shard_count n), n)
          else (case auto_shard_count k shard_max 0.7 1 1024 of
              Inl e \<Rightarrow> (Inl e, n)
            | Inr c \<Rightarrow> (Inr c, n\<lparr>ns_shard_count := c\<rparr>)))"

text \<open>\<open>estimate_cost\<close>; \<open>round2\<close> is Python's rounding to two digits.\<close>

record cost_estimate =
  ce_bytes_per_vector :: int
  ce_total_gb :: real
  ce_ram_gb :: real
  ce_nvme_gb :: real
  ce_est_usd_month :: real
  ce_gpu_enabled :: bool
  ce_competitors :: "(string, real) dict"

definition estimate_cost ::
    "(real \<Rightarrow> real) \<Rightarrow> int \<Rightarrow> int \<Rightarrow> string \<Rightarrow> int \<Rightarrow> real \<Rightarrow> real \<Rightarrow> bool \<Rightarrow> cost_estimate"
where
  "estimate_cost round2 expected dimension compression replication storage_gb_per_usd ram_gb_per_usd gpu =
     (let bpv = bytes_per_vector dimension compression;
          total_bytes = expected * bpv * replication;
          gb = of_int total_bytes / 1024 ^ 3;
          ram_gb = gb * 0.3;
          nvme_gb = gb * 0.7;
          cost0 = ram_gb / ram_gb_per_usd + nvme_gb / storage_gb_per_usd;
          cost = (if gpu then cost0 + gb * 0.5 else cost0)
      in \<lparr>ce_bytes_per_vector = bpv, ce_total_gb = round2 gb, ce_ram_gb = round2 ram_gb,
          ce_nvme_gb = round2 nvme_gb, ce_est_usd_month = round2 cost, ce_gpu_enabled = gpu,
          ce_competitors =
            [(''vsector_sq8'', round2 cost), (''pinecone_p1'', round2 (gb * 0.7 + 70)),
             (''qdrant_cloud'', round2 (gb * 0.4 + 25)), (''milvus_zilliz'', round2 (gb * 0.35 + 30))]\<rparr>)"

text \<open>The count stays in its range, and below the maximum it gives every record room.\<close>

lemma auto_shard_count_bounds:
  assumes "auto_shard_count expected shard_max u mn mx = Inr c" "mn \<le> mx"
  shows "mn \<le> c \<and> c \<le> mx"
  using assms by (auto simp: auto_shard_count_def Let_def split: if_splits)

lemma auto_shard_count_room:
  assumes "auto_shard_count expected shard_max u mn mx = Inr c" "0 < expected"
    "0 < \<lfloor>of_int shard_max * u\<rfloor>" "c < mx"
  shows "expected \<le> c * \<lfloor>of_int shard_max * u\<rfloor>"
proof -
  let ?k = "\<lfloor>of_int shard_max * u\<rfloor>"
  have "\<lceil>of_int expected / (of_int ?k :: real)\<rceil> \<le> c"
    using assms by (auto simp: auto_shard_count_def Let_def split: if_splits)
  then have "of_int expected / (of_int ?k :: real) \<le> of_int c" by (simp add: ceiling_le_iff)
  then have "(of_int expected :: real) \<le> of_int c * of_int ?k"
    using assms(3) by (simp add: pos_divide_le_eq)
  then show ?thesis by (metis of_int_le_iff of_int_mult)
qed

lemma auto_tune_valid:
  "valid_namespace n \<Longrightarrow> auto_tune shard_max n = (x, n') \<Longrightarrow> valid_namespace n'"
  using auto_shard_count_bounds [of _ shard_max "0.7" 1 1024]
  by (auto simp: auto_tune_def valid_namespace_def split: option.splits if_splits sum.splits)

end
