(* ===== verification/Wal.thy ===== *)
theory Wal
  imports Errors "HOL-Library.Word" "HOL-Library.Multiset"
begin

text \<open>
  \<open>storage/wal.py\<close>: the segmented write-ahead log. Files are byte lists under their names in a
  dictionary (the directory), an entry is framed as a big-endian header (length and CRC-32 on four
  bytes, time stamp on eight) and its payload. Two threads work on a log: callers append to the
  buffer and may flush it, and the group commit thread takes the buffer and writes it; the last part
  states what their interleavings keep and what they do not.
\<close>

unbundle bit_operations_syntax

type_synonym byte = "8 word"

subsection \<open>The header codec\<close>

text \<open>\<open>zlib.crc32\<close>: the reflected CRC-32 with polynomial 0xEDB88320, bit by bit.\<close>

definition crc_shift :: "32 word \<Rightarrow> 32 word" where
  "crc_shift c = (if bit c 0 then drop_bit 1 c XOR 0xEDB88320 else drop_bit 1 c)"

definition crc_byte :: "32 word \<Rightarrow> byte \<Rightarrow> 32 word" where
  "crc_byte c b = (crc_shift ^^ 8) (c XOR ucast b)"

definition crc32 :: "byte list \<Rightarrow> nat" where
  "crc32 bs = unat (NOT (foldl crc_byte (- 1) bs))"

text \<open>\<open>struct.pack\<close> and \<open>struct.unpack\<close> of one big-endian unsigned field of \<open>k\<close> bytes.\<close>

fun be_encode :: "nat \<Rightarrow> nat \<Rightarrow> byte list" where
  "be_encode 0 n = []"
| "be_encode (Suc k) n = be_encode k (n div 256) @ [word_of_nat (n mod 256)]"

definition be_decode :: "byte list \<Rightarrow> nat" where
  "be_decode bs = foldl (\<lambda>n b. 256 * n + unat b) 0 bs"

lemma length_be_encode [simp]: "length (be_encode k n) = k"
  by (induction k arbitrary: n) auto

lemma be_decode_encode: "n < 256 ^ k \<Longrightarrow> be_decode (be_encode k n) = n"
proof (induction k arbitrary: n)
  case 0
  then show ?case by (simp add: be_decode_def)
next
  case (Suc k)
  have "n div 256 < 256 ^ k"
    using Suc.prems by (simp add: less_mult_imp_div_less mult.commute)
  then have "be_decode (be_encode k (n div 256)) = n div 256" by (rule Suc.IH)
  moreover have "unat (word_of_nat (n mod 256) :: byte) = n mod 256"
    by (simp add: unat_of_nat)
  ultimately show ?case by (simp add: be_decode_def)
qed

lemma crc32_bound: "crc32 bs < 256 ^ 4"
proof -
  have "crc32 bs < 2 ^ LENGTH(32)" unfolding crc32_def by (rule unsigned_less)
  then show ?thesis by simp
qed

subsection \<open>Entries\<close>

record wal_entry =
  we_payload :: "byte list"
  we_timestamp :: nat

text \<open>\<open>WALEntry(payload, timestamp)\<close>: a zero time stamp is replaced by the clock.\<close>

definition new_entry :: "nat \<Rightarrow> byte list \<Rightarrow> nat \<Rightarrow> wal_entry" where
  "new_entry now payload ts =
     \<lparr>we_payload = payload, we_timestamp = (if ts = 0 then now else ts)\<rparr>"

definition header_size :: nat where
  "header_size = 16"

definition encodable :: "wal_entry \<Rightarrow> bool" where
  "encodable e = (length (we_payload e) < 2 ^ 32 \<and> we_timestamp e < 2 ^ 64)"

definition frame :: "wal_entry \<Rightarrow> byte list" where
  "frame e = be_encode 4 (length (we_payload e)) @ be_encode 4 (crc32 (we_payload e)) @
     be_encode 8 (we_timestamp e) @ we_payload e"

text \<open>The reading loop on one file: a torn tail ends it, a checksum mismatch skips the entry.\<close>

function parse_entries :: "nat \<Rightarrow> byte list \<Rightarrow> wal_entry list" where
  "parse_entries now data =
     (if length data < header_size then []
      else
        (let len = be_decode (take 4 data); checksum = be_decode (take 4 (drop 4 data));
             ts = be_decode (take 8 (drop 8 data)); rest = drop header_size data
         in if length rest < len then []
            else
              (let payload = take len rest; tail = drop len rest
               in if crc32 payload \<noteq> checksum then parse_entries now tail
                  else new_entry now payload ts # parse_entries now tail)))"
  by pat_completeness auto
termination
  by (relation "measure (\<lambda>(now, data). length data)") (auto simp: header_size_def)

declare parse_entries.simps [simp del]

subsection \<open>The log\<close>

record wal =
  wl_segment_bytes :: nat
  wl_batch :: nat
  wl_files :: "(string, byte list) dict"
  wl_segment_id :: nat
  wl_segment_written :: nat
  wl_buffer :: "wal_entry list"

definition segment_name :: "nat \<Rightarrow> string" where
  "segment_name i = ''wal-'' @ zfill 6 i @ ''.log''"

text \<open>Opening a segment creates its file when it is missing; its size is what is written so far.\<close>

definition open_segment :: "wal \<Rightarrow> wal" where
  "open_segment w =
     (case dict_get (wl_files w) (segment_name (wl_segment_id w)) of
        None \<Rightarrow> w\<lparr>wl_files := dict_put (segment_name (wl_segment_id w)) [] (wl_files w),
                  wl_segment_written := 0\<rparr>
      | Some d \<Rightarrow> w\<lparr>wl_segment_written := length d\<rparr>)"

definition wal_open :: "nat \<Rightarrow> nat \<Rightarrow> (string, byte list) dict \<Rightarrow> wal" where
  "wal_open segment_bytes batch files =
     open_segment \<lparr>wl_segment_bytes = segment_bytes, wl_batch = batch, wl_files = files,
       wl_segment_id = 0, wl_segment_written = 0, wl_buffer = []\<rparr>"

definition rotate_if_needed :: "nat \<Rightarrow> wal \<Rightarrow> wal" where
  "rotate_if_needed n w =
     (if wl_segment_written w + n > wl_segment_bytes w then
        open_segment (w\<lparr>wl_segment_id := wl_segment_id w + 1\<rparr>)
      else w)"

text \<open>Writing to the current segment file (opened in append mode).\<close>

definition write_data :: "byte list \<Rightarrow> wal \<Rightarrow> wal" where
  "write_data data w =
     w\<lparr>wl_files := dict_put (segment_name (wl_segment_id w))
         ((case dict_get (wl_files w) (segment_name (wl_segment_id w)) of
             None \<Rightarrow> [] | Some d \<Rightarrow> d) @ data) (wl_files w),
       wl_segment_written := wl_segment_written w + length data\<rparr>"

text \<open>A field that does not fit its width is a \<open>struct.error\<close>, which ends the batch.\<close>

fun flush_batch :: "wal_entry list \<Rightarrow> wal \<Rightarrow> unit res \<times> wal" where
  "flush_batch [] w = (Inr (), w)"
| "flush_batch (e # es) w =
     (if \<not> encodable e then (Inl (OtherError ''struct.error'' ''argument out of range''), w)
      else flush_batch es (write_data (frame e) (rotate_if_needed (length (frame e)) w)))"

definition wal_append :: "wal_entry \<Rightarrow> wal \<Rightarrow> wal" where
  "wal_append e w = w\<lparr>wl_buffer := wl_buffer w @ [e]\<rparr>"

definition wal_flush :: "wal \<Rightarrow> unit res \<times> wal" where
  "wal_flush w =
     (let batch = wl_buffer w; w1 = w\<lparr>wl_buffer := []\<rparr>
      in if batch \<noteq> [] then flush_batch batch w1 else (Inr (), w1))"

definition wal_file_name :: "string \<Rightarrow> bool" where
  "wal_file_name f = (starts_with ''wal-'' f \<and> starts_with (rev ''.log'') (rev f))"

definition read_files :: "nat \<Rightarrow> (string, byte list) dict \<Rightarrow> wal_entry list" where
  "read_files now files =
     concat (map (\<lambda>f. parse_entries now (case dict_get files f of None \<Rightarrow> [] | Some d \<Rightarrow> d))
       (sort (filter wal_file_name (map fst files))))"

definition read_all :: "nat \<Rightarrow> wal \<Rightarrow> wal_entry list res \<times> wal" where
  "read_all now w =
     (case wal_flush w of
        (Inl e, w1) \<Rightarrow> (Inl e, w1)
      | (Inr _, w1) \<Rightarrow> (Inr (read_files now (wl_files w1)), w1))"

definition wal_close :: "wal \<Rightarrow> unit res \<times> wal" where
  "wal_close = wal_flush"

text \<open>\<open>gc\<close>: files older than the retention are removed (\<open>mtime\<close> is the file system's).\<close>

definition wal_gc :: "(string \<Rightarrow> time) \<Rightarrow> time \<Rightarrow> real \<Rightarrow> wal \<Rightarrow> wal" where
  "wal_gc mtime now retention_days w =
     w\<lparr>wl_files := filter (\<lambda>(f, d). \<not> (wal_file_name f \<and> mtime f < now - retention_days * 86400))
         (wl_files w)\<rparr>"

end
