(* ===== verification/Segment.thy ===== *)
theory Segment
  imports Records Wal
begin

text \<open>
  \<open>storage/segment.py\<close>: the memtable, the SSTables (JSON lines files in a hot and a cold directory)
  and the tiered store over them. A string stands for its UTF-8 bytes and a file for its text. The
  serialisation of records belongs to pydantic and \<open>json\<close>: it is the parameter \<open>codec\<close>, about which
  the theorems assume, for the records concerned, that reading gives back what was written. The
  best-effort upload to S3 changes nothing the store reads and is left out.
\<close>

subsection \<open>Serialisation\<close>

record codec =
  cd_dump_json :: "vector_record \<Rightarrow> string"
  cd_validate_json :: "string \<Rightarrow> vector_record res"
  cd_dump :: "vector_record \<Rightarrow> json"
  cd_validate :: "json \<Rightarrow> vector_record res"
  cd_dumps :: "json \<Rightarrow> byte list"
  cd_loads :: "byte list \<Rightarrow> json res"
  cd_str :: "json \<Rightarrow> string"

text \<open>\<open>str.encode()\<close>.\<close>

definition encode :: "string \<Rightarrow> byte list" where
  "encode s = map (\<lambda>c. word_of_nat (of_char c)) s"

definition newline :: char where
  "newline = CHR 0x0A"

definition is_space :: "char \<Rightarrow> bool" where
  "is_space c = (c \<in> {CHR 0x20, CHR 0x09, CHR 0x0A, CHR 0x0D, CHR 0x0B, CHR 0x0C})"

text \<open>\<open>model_validate_json\<close> reads back what \<open>model_dump_json\<close> wrote, which is one line.\<close>

definition line_codec :: "codec \<Rightarrow> vector_record \<Rightarrow> bool" where
  "line_codec cd r \<longleftrightarrow> cd_validate_json cd (cd_dump_json cd r) = Inr r \<and>
     newline \<notin> set (cd_dump_json cd r) \<and> \<not> list_all is_space (cd_dump_json cd r)"

text \<open>Iterating over a text file.\<close>

function file_lines :: "string \<Rightarrow> string list" where
  "file_lines s =
     (if s = [] then []
      else takeWhile (\<lambda>c. c \<noteq> newline) s # file_lines (drop 1 (dropWhile (\<lambda>c. c \<noteq> newline) s)))"
  by pat_completeness auto
termination
proof (relation "measure length")
  fix s :: string
  assume "s \<noteq> []"
  moreover have "length (dropWhile (\<lambda>c. c \<noteq> newline) s) \<le> length s" by (rule length_dropWhile_le)
  ultimately show "(drop 1 (dropWhile (\<lambda>c. c \<noteq> newline) s), s) \<in> measure length"
    by (cases s) auto
qed simp

declare file_lines.simps [simp del]

subsection \<open>The memtable\<close>

type_synonym memtable = "(string, vector_record) dict"

definition mem_put :: "vector_record \<Rightarrow> memtable \<Rightarrow> memtable" where
  "mem_put r m = dict_put (vr_id r) r m"

definition mem_get :: "memtable \<Rightarrow> string \<Rightarrow> vector_record option" where
  "mem_get m i = dict_get m i"

definition mem_delete :: "string \<Rightarrow> memtable \<Rightarrow> memtable" where
  "mem_delete i m = dict_pop i m"

definition mem_scan :: "memtable \<Rightarrow> vector_record list" where
  "mem_scan m = dict_values m"

definition mem_count :: "memtable \<Rightarrow> int" where
  "mem_count m = int (length m)"

definition mem_should_flush :: "int \<Rightarrow> memtable \<Rightarrow> bool" where
  "mem_should_flush threshold m = (mem_count m \<ge> threshold)"

definition mem_snapshot_and_clear :: "memtable \<Rightarrow> vector_record list \<times> memtable" where
  "mem_snapshot_and_clear m = (dict_values m, [])"

subsection \<open>The store and its SSTables\<close>

datatype tier = Hot | Cold

type_synonym sst_path = "tier \<times> string"

text \<open>The cold directory is never created by the code: it may be missing.\<close>

record segments =
  sg_hot :: "(string, string) dict"
  sg_cold :: "(string, string) dict option"
  sg_threshold :: int
  sg_memtable :: memtable
  sg_sstables :: "sst_path list"

fun sst_text :: "segments \<Rightarrow> sst_path \<Rightarrow> string option" where
  "sst_text sg (Hot, f) = dict_get (sg_hot sg) f"
| "sst_text sg (Cold, f) = (case sg_cold sg of None \<Rightarrow> None | Some d \<Rightarrow> dict_get d f)"

definition sst_name :: "nat \<Rightarrow> nat \<Rightarrow> string" where
  "sst_name ts pid = ''sst-'' @ nat_str ts @ ''-'' @ nat_str pid @ ''.jsonl''"

definition sst_file :: "codec \<Rightarrow> vector_record list \<Rightarrow> string" where
  "sst_file cd rs = concat (map (\<lambda>r. cd_dump_json cd r @ [newline]) rs)"

text \<open>\<open>SSTable.flush\<close>: the file is opened for writing, so one of the same name is replaced.\<close>

definition sst_flush ::
    "codec \<Rightarrow> nat \<Rightarrow> nat \<Rightarrow> vector_record list \<Rightarrow> segments \<Rightarrow> sst_path \<times> segments" where
  "sst_flush cd ts pid rs sg =
     ((Hot, sst_name ts pid),
      sg\<lparr>sg_hot := dict_put (sst_name ts pid) (sst_file cd rs) (sg_hot sg)\<rparr>)"

fun scan_lines :: "codec \<Rightarrow> string list \<Rightarrow> vector_record list res" where
  "scan_lines cd [] = Inr []"
| "scan_lines cd (l # ls) =
     (if list_all is_space l then scan_lines cd ls
      else (case cd_validate_json cd l of
          Inl e \<Rightarrow> Inl e
        | Inr r \<Rightarrow> (case scan_lines cd ls of Inl e \<Rightarrow> Inl e | Inr rs \<Rightarrow> Inr (r # rs))))"

definition sst_scan :: "codec \<Rightarrow> segments \<Rightarrow> sst_path \<Rightarrow> vector_record list res" where
  "sst_scan cd sg p =
     (case sst_text sg p of None \<Rightarrow> Inr [] | Some t \<Rightarrow> scan_lines cd (file_lines t))"

definition sst_count :: "segments \<Rightarrow> sst_path \<Rightarrow> int" where
  "sst_count sg p = (case sst_text sg p of None \<Rightarrow> 0 | Some t \<Rightarrow> int (length (file_lines t)))"

definition sst_glob :: "string \<Rightarrow> bool" where
  "sst_glob f = (starts_with ''sst-'' f \<and> starts_with (rev ''.jsonl'') (rev f))"

text \<open>Opening a store lists the existing files, the hot directory first, each in name order.\<close>

definition seg_open ::
    "int \<Rightarrow> (string, string) dict \<Rightarrow> (string, string) dict option \<Rightarrow> segments" where
  "seg_open threshold hot cold =
     \<lparr>sg_hot = hot, sg_cold = cold, sg_threshold = threshold, sg_memtable = [],
      sg_sstables =
        map (Pair Hot) (sort (filter sst_glob (map fst hot))) @
        (case cold of None \<Rightarrow> []
         | Some d \<Rightarrow> map (Pair Cold) (sort (filter sst_glob (map fst d))))\<rparr>"

definition seg_flush :: "codec \<Rightarrow> nat \<Rightarrow> nat \<Rightarrow> segments \<Rightarrow> sst_path option \<times> segments" where
  "seg_flush cd ts pid sg =
     (if mem_count (sg_memtable sg) = 0 then (None, sg)
      else
        (let (snap, m) = mem_snapshot_and_clear (sg_memtable sg);
             (p, sg1) = sst_flush cd ts pid snap (sg\<lparr>sg_memtable := m\<rparr>)
         in (Some p, sg1\<lparr>sg_sstables := sg_sstables sg1 @ [p]\<rparr>)))"

definition seg_put :: "codec \<Rightarrow> nat \<Rightarrow> nat \<Rightarrow> vector_record \<Rightarrow> segments \<Rightarrow> segments" where
  "seg_put cd ts pid r sg =
     (let sg1 = sg\<lparr>sg_memtable := mem_put r (sg_memtable sg)\<rparr>
      in if mem_should_flush (sg_threshold sg1) (sg_memtable sg1) then snd (seg_flush cd ts pid sg1)
         else sg1)"

text \<open>
  \<open>tier_to_cold\<close> on the SSTable at position \<open>k\<close> of the list: a rename that fails (no cold directory,
  no file) is ignored; otherwise that object's path changes.
\<close>

definition tier_to_cold :: "nat \<Rightarrow> segments \<Rightarrow> segments" where
  "tier_to_cold k sg =
     (if k < length (sg_sstables sg) then
        (case sg_sstables sg ! k of
           (Cold, f) \<Rightarrow> sg
         | (Hot, f) \<Rightarrow>
             (case (dict_get (sg_hot sg) f, sg_cold sg) of
                (Some t, Some d) \<Rightarrow>
                  sg\<lparr>sg_hot := dict_pop f (sg_hot sg), sg_cold := Some (dict_put f t d),
                     sg_sstables := (sg_sstables sg)[k := (Cold, f)]\<rparr>
              | _ \<Rightarrow> sg))
      else sg)"

fun get_loop :: "codec \<Rightarrow> segments \<Rightarrow> string \<Rightarrow> sst_path list \<Rightarrow> vector_record option res" where
  "get_loop cd sg i [] = Inr None"
| "get_loop cd sg i (p # ps) =
     (case sst_scan cd sg p of
        Inl e \<Rightarrow> Inl e
      | Inr rs \<Rightarrow> (case find (\<lambda>r. vr_id r = i) rs of
            Some r \<Rightarrow> Inr (Some r)
          | None \<Rightarrow> get_loop cd sg i ps))"

definition seg_get :: "codec \<Rightarrow> segments \<Rightarrow> string \<Rightarrow> vector_record option res" where
  "seg_get cd sg i =
     (case mem_get (sg_memtable sg) i of
        Some r \<Rightarrow> Inr (Some r)
      | None \<Rightarrow> get_loop cd sg i (rev (sg_sstables sg)))"

definition put_all :: "vector_record list \<Rightarrow> memtable \<Rightarrow> memtable" where
  "put_all rs d = fold mem_put rs d"

fun durable_loop :: "codec \<Rightarrow> segments \<Rightarrow> memtable \<Rightarrow> sst_path list \<Rightarrow> memtable res" where
  "durable_loop cd sg d [] = Inr d"
| "durable_loop cd sg d (p # ps) =
     (case sst_scan cd sg p of
        Inl e \<Rightarrow> Inl e
      | Inr rs \<Rightarrow> durable_loop cd sg (put_all rs d) ps)"

definition durable_records_by_id :: "codec \<Rightarrow> segments \<Rightarrow> memtable res" where
  "durable_records_by_id cd sg = durable_loop cd sg [] (sg_sstables sg)"

fun scan_loop :: "codec \<Rightarrow> segments \<Rightarrow> vector_record list \<Rightarrow> sst_path list \<Rightarrow> vector_record list res"
where
  "scan_loop cd sg out [] = Inr out"
| "scan_loop cd sg out (p # ps) =
     (case sst_scan cd sg p of
        Inl e \<Rightarrow> Inl e
      | Inr rs \<Rightarrow> scan_loop cd sg (out @ rs) ps)"

definition seg_scan_all :: "codec \<Rightarrow> segments \<Rightarrow> vector_record list res" where
  "seg_scan_all cd sg = scan_loop cd sg (mem_scan (sg_memtable sg)) (sg_sstables sg)"

definition seg_count :: "segments \<Rightarrow> int" where
  "seg_count sg = mem_count (sg_memtable sg) + (\<Sum>p \<leftarrow> sg_sstables sg. sst_count sg p)"

end
