(* ===== verification/Segment_Facts.thy ===== *)
theory Segment_Facts
  imports Segment
begin

text \<open>
  What the segment store promises: it behaves as one map from ids to records (the memtable over the
  SSTables, newest first), which a put updates and a flush keeps, as long as the names of the files
  it writes are new. The last part shows what happens when they are not, and after a restart with
  files in the cold directory.
\<close>

subsection \<open>Files\<close>

lemma file_lines_nil [simp]: "file_lines [] = []"
  by (simp add: file_lines.simps)

lemma file_lines_line: "newline \<notin> set l \<Longrightarrow> file_lines (l @ newline # s) = l # file_lines s"
proof (subst file_lines.simps)
  assume l: "newline \<notin> set l"
  then have "takeWhile (\<lambda>c. c \<noteq> newline) (l @ newline # s) = l"
    "dropWhile (\<lambda>c. c \<noteq> newline) (l @ newline # s) = newline # s"
    by (auto simp: takeWhile_append dropWhile_append)
  then show "(if l @ newline # s = [] then []
      else takeWhile (\<lambda>c. c \<noteq> newline) (l @ newline # s) #
        file_lines (drop 1 (dropWhile (\<lambda>c. c \<noteq> newline) (l @ newline # s)))) = l # file_lines s"
    by simp
qed

lemma file_lines_sst:
  "\<forall>r \<in> set rs. line_codec cd r \<Longrightarrow> file_lines (sst_file cd rs) = map (cd_dump_json cd) rs"
  by (induction rs) (simp_all add: sst_file_def line_codec_def file_lines_line)

lemma scan_lines_dump:
  "\<forall>r \<in> set rs. line_codec cd r \<Longrightarrow> scan_lines cd (map (cd_dump_json cd) rs) = Inr rs"
  by (induction rs) (simp_all add: line_codec_def)

lemma scan_sst_file:
  "\<forall>r \<in> set rs. line_codec cd r \<Longrightarrow> scan_lines cd (file_lines (sst_file cd rs)) = Inr rs"
  by (simp add: file_lines_sst scan_lines_dump)

subsection \<open>The memtable is a table\<close>

lemma mem_get_eq: "mem_get = map_of"
  by (simp add: mem_get_def fun_eq_iff)

interpretation memtable: record_store vr_id mem_get mem_put mem_delete mem_scan "keyed_dict vr_id"
  by unfold_locales
    (simp_all only: mem_get_eq mem_put_def mem_delete_def mem_scan_def map_of_dict_put
      map_of_dict_pop keyed_dict_put keyed_dict_pop keyed_dict_values, auto simp: keyed_dict_iff)

lemma map_of_put_all:
  "map_of (put_all rs d) = map_of d ++ map_of (rev (map (\<lambda>r. (vr_id r, r)) rs))"
  using memtable.get_fold_put [of rs d] by (simp add: put_all_def mem_get_eq)

lemma keyed_put_all: "keyed_dict vr_id d \<Longrightarrow> keyed_dict vr_id (put_all rs d)"
  unfolding put_all_def by (rule memtable.inv_fold_put)

lemma find_newest:
  "distinct (map vr_id rs) \<Longrightarrow>
     find (\<lambda>r. vr_id r = i) rs = map_of (rev (map (\<lambda>r. (vr_id r, r)) rs)) i"
proof (induction rs)
  case (Cons r rs)
  then have "i = vr_id r \<Longrightarrow> map_of (rev (map (\<lambda>r. (vr_id r, r)) rs)) i = None"
    by (auto simp: map_of_eq_None_iff image_iff)
  with Cons show ?case by (auto simp: map_add_def split: option.splits)
qed simp

subsection \<open>The view\<close>

definition sst_good :: "codec \<Rightarrow> segments \<Rightarrow> sst_path \<Rightarrow> bool" where
  "sst_good cd sg p \<longleftrightarrow> (\<exists>rs. sst_scan cd sg p = Inr rs \<and> distinct (map vr_id rs))"

definition seg_inv :: "codec \<Rightarrow> segments \<Rightarrow> bool" where
  "seg_inv cd sg \<longleftrightarrow> keyed_dict vr_id (sg_memtable sg) \<and>
     (\<forall>r \<in> set (mem_scan (sg_memtable sg)). line_codec cd r) \<and>
     (\<forall>p \<in> set (sg_sstables sg). sst_good cd sg p)"

definition durable_view :: "codec \<Rightarrow> segments \<Rightarrow> string \<Rightarrow> vector_record option" where
  "durable_view cd sg =
     (case durable_records_by_id cd sg of Inl e \<Rightarrow> Map.empty | Inr d \<Rightarrow> map_of d)"

definition seg_view :: "codec \<Rightarrow> segments \<Rightarrow> string \<Rightarrow> vector_record option" where
  "seg_view cd sg = durable_view cd sg ++ map_of (sg_memtable sg)"

lemma durable_loop_append:
  "durable_loop cd sg d (ps @ qs) =
     (case durable_loop cd sg d ps of Inl e \<Rightarrow> Inl e | Inr d' \<Rightarrow> durable_loop cd sg d' qs)"
  by (induction ps arbitrary: d) (auto split: sum.splits)

lemma durable_loop_total:
  "\<forall>p \<in> set ps. sst_good cd sg p \<Longrightarrow> \<exists>d'. durable_loop cd sg d ps = Inr d'"
  by (induction ps arbitrary: d) (auto simp: sst_good_def)

lemma durable_loop_keyed:
  "durable_loop cd sg d ps = Inr d' \<Longrightarrow> keyed_dict vr_id d \<Longrightarrow> keyed_dict vr_id d'"
  by (induction ps arbitrary: d) (auto split: sum.splits simp: keyed_put_all)

lemma durable_keyed:
  "durable_records_by_id cd sg = Inr d \<Longrightarrow> keyed_dict vr_id d"
  unfolding durable_records_by_id_def by (erule durable_loop_keyed) (simp add: keyed_dict_def)

lemma get_loop_durable:
  assumes "\<forall>p \<in> set ps. sst_good cd sg p" "durable_loop cd sg [] ps = Inr d"
  shows "get_loop cd sg i (rev ps) = Inr (map_of d i)"
  using assms
proof (induction ps arbitrary: d rule: rev_induct)
  case (snoc p ps)
  from durable_loop_total [of ps cd sg "[]"] snoc.prems(1) obtain d' where
    d': "durable_loop cd sg [] ps = Inr d'" by auto
  from snoc.prems(1) obtain rs where rs: "sst_scan cd sg p = Inr rs" "distinct (map vr_id rs)"
    by (auto simp: sst_good_def)
  have d: "d = put_all rs d'" using snoc.prems(2) d' rs(1) by (simp add: durable_loop_append)
  have "get_loop cd sg i (rev ps) = Inr (map_of d' i)" using snoc d' by simp
  then show ?case
    using rs by (simp add: d map_of_put_all find_newest map_add_def split: option.splits)
qed simp

lemma durable_total: "seg_inv cd sg \<Longrightarrow> \<exists>d. durable_records_by_id cd sg = Inr d"
  unfolding seg_inv_def durable_records_by_id_def by (blast intro: durable_loop_total)

lemma seg_get_view: "seg_inv cd sg \<Longrightarrow> seg_get cd sg i = Inr (seg_view cd sg i)"
proof -
  assume inv: "seg_inv cd sg"
  from durable_total [OF inv] obtain d where d: "durable_records_by_id cd sg = Inr d" by blast
  with inv get_loop_durable [of "sg_sstables sg" cd sg d i]
  have "get_loop cd sg i (rev (sg_sstables sg)) = Inr (map_of d i)"
    by (simp add: seg_inv_def durable_records_by_id_def)
  with d show ?thesis
    by (simp add: seg_get_def seg_view_def durable_view_def mem_get_def map_add_def
        split: option.splits)
qed

subsection \<open>Puts and flushes\<close>

lemma sst_scan_frame [frame_simps]:
  "sst_scan cd (sg\<lparr>sg_memtable := m\<rparr>) p = sst_scan cd sg p"
  "sst_scan cd (sg\<lparr>sg_sstables := ps\<rparr>) p = sst_scan cd sg p"
  by (cases p, cases "fst p", simp_all add: sst_scan_def)+

lemma sst_scan_new:
  "sst_scan cd (sg\<lparr>sg_hot := dict_put f t (sg_hot sg)\<rparr>) p =
     (if p = (Hot, f) then scan_lines cd (file_lines t) else sst_scan cd sg p)"
  by (cases p, cases "fst p") (auto simp: sst_scan_def store_simps)

lemma durable_loop_cong:
  "(\<And>p. p \<in> set ps \<Longrightarrow> sst_scan cd sg p = sst_scan cd sg' p) \<Longrightarrow>
     durable_loop cd sg d ps = durable_loop cd sg' d ps"
  by (induction ps arbitrary: d) (auto split: sum.splits)

lemma durable_loop_frame [frame_simps]:
  "durable_loop cd (sg\<lparr>sg_memtable := m\<rparr>) d ps = durable_loop cd sg d ps"
  "durable_loop cd (sg\<lparr>sg_sstables := qs\<rparr>) d ps = durable_loop cd sg d ps"
  by (rule durable_loop_cong, simp add: frame_simps)+

lemma keyed_dict_pairs: "keyed_dict vr_id d \<Longrightarrow> map (\<lambda>r. (vr_id r, r)) (dict_values d) = d"
  by (induction d) (auto simp: keyed_dict_def)

lemma distinct_ids: "keyed_dict vr_id d \<Longrightarrow> distinct (map (vr_id \<circ> snd) d)"
proof -
  assume k: "keyed_dict vr_id d"
  then have eq: "map (vr_id \<circ> snd) d = map fst d"
    by (auto simp: keyed_dict_def)
  from k show ?thesis unfolding eq by (simp add: keyed_dict_def)
qed

lemma map_of_rev_ok: "dict_ok d \<Longrightarrow> map_of (rev d) = map_of d"
  by (rule ext) (metis distinct_rev map_of_eq_Some_iff not_None_eq rev_map set_rev)

lemma flush_simps:
  assumes "sg_memtable sg \<noteq> []"
  shows "seg_flush cd ts pid sg =
    (Some (Hot, sst_name ts pid),
     sg\<lparr>sg_memtable := [],
        sg_hot := dict_put (sst_name ts pid) (sst_file cd (dict_values (sg_memtable sg))) (sg_hot sg),
        sg_sstables := sg_sstables sg @ [(Hot, sst_name ts pid)]\<rparr>)"
  using assms by (simp add: seg_flush_def mem_count_def mem_snapshot_and_clear_def sst_flush_def)

lemma flush_scan:
  assumes "seg_inv cd sg" "sg_memtable sg \<noteq> []"
  shows "sst_scan cd (snd (seg_flush cd ts pid sg)) p =
    (if p = (Hot, sst_name ts pid) then Inr (dict_values (sg_memtable sg)) else sst_scan cd sg p)"
proof -
  have "scan_lines cd (file_lines (sst_file cd (dict_values (sg_memtable sg)))) =
      Inr (dict_values (sg_memtable sg))"
    using assms(1) by (intro scan_sst_file) (simp add: seg_inv_def mem_scan_def)
  moreover have "snd (seg_flush cd ts pid sg) =
     (sg\<lparr>sg_hot := dict_put (sst_name ts pid) (sst_file cd (dict_values (sg_memtable sg))) (sg_hot sg)\<rparr>)
      \<lparr>sg_memtable := [], sg_sstables := sg_sstables sg @ [(Hot, sst_name ts pid)]\<rparr>"
    using assms(2) by (simp add: flush_simps)
  ultimately show ?thesis by (simp add: frame_simps sst_scan_new del: segments.update_convs)
qed

lemma flush_durable:
  assumes "seg_inv cd sg" "sg_memtable sg \<noteq> []" "(Hot, sst_name ts pid) \<notin> set (sg_sstables sg)"
    and "durable_records_by_id cd sg = Inr d"
  shows "durable_records_by_id cd (snd (seg_flush cd ts pid sg)) =
    Inr (put_all (dict_values (sg_memtable sg)) d)"
proof -
  let ?sg' = "snd (seg_flush cd ts pid sg)" and ?p = "(Hot, sst_name ts pid)"
  have ps: "sg_sstables ?sg' = sg_sstables sg @ [?p]" using assms(2) by (simp add: flush_simps)
  have "durable_loop cd ?sg' [] (sg_sstables sg) = durable_loop cd sg [] (sg_sstables sg)"
    using assms(3) flush_scan [OF assms(1,2)] by (intro durable_loop_cong) auto
  with assms(4) have "durable_loop cd ?sg' [] (sg_sstables sg) = Inr d"
    by (simp add: durable_records_by_id_def)
  then show ?thesis
    using flush_scan [OF assms(1,2), of ts pid ?p]
    by (simp add: durable_records_by_id_def ps durable_loop_append)
qed

lemma flush_inv:
  assumes "seg_inv cd sg"
  shows "seg_inv cd (snd (seg_flush cd ts pid sg))"
proof (cases "sg_memtable sg = []")
  case False
  let ?sg' = "snd (seg_flush cd ts pid sg)"
  have "sst_good cd ?sg' p" if "p \<in> set (sg_sstables ?sg')" for p
    using assms that False flush_scan [OF assms False, of ts pid p]
    by (auto simp: seg_inv_def sst_good_def flush_simps distinct_ids split: if_splits)
  then show ?thesis using False by (simp add: seg_inv_def flush_simps mem_scan_def keyed_dict_def)
qed (use assms in \<open>simp add: seg_flush_def mem_count_def\<close>)

lemma flush_view:
  assumes "seg_inv cd sg" "(Hot, sst_name ts pid) \<notin> set (sg_sstables sg)"
  shows "seg_view cd (snd (seg_flush cd ts pid sg)) = seg_view cd sg"
proof (cases "sg_memtable sg = []")
  case False
  from durable_total [OF assms(1)] obtain d where d: "durable_records_by_id cd sg = Inr d" by blast
  have k: "keyed_dict vr_id (sg_memtable sg)" using assms(1) by (simp add: seg_inv_def)
  then have "map_of (rev (map (\<lambda>r. (vr_id r, r)) (dict_values (sg_memtable sg)))) = map_of (sg_memtable sg)"
    using keyed_dict_pairs [OF k] by (simp add: keyed_dict_def map_of_rev_ok)
  then show ?thesis
    using flush_durable [OF assms(1) False assms(2) d] d False
    by (simp add: seg_view_def durable_view_def map_of_put_all flush_simps)
qed (simp add: seg_flush_def mem_count_def)

lemma put_memtable:
  assumes "seg_inv cd sg" "line_codec cd r"
  shows "seg_inv cd (sg\<lparr>sg_memtable := mem_put r (sg_memtable sg)\<rparr>)"
    and "seg_view cd (sg\<lparr>sg_memtable := mem_put r (sg_memtable sg)\<rparr>) = (seg_view cd sg)(vr_id r \<mapsto> r)"
proof -
  show "seg_inv cd (sg\<lparr>sg_memtable := mem_put r (sg_memtable sg)\<rparr>)"
    using assms memtable.listing_put [of "sg_memtable sg" _ r]
    by (auto simp: seg_inv_def sst_good_def frame_simps memtable.inv_put)
  have "map_of (mem_put r (sg_memtable sg)) = (map_of (sg_memtable sg))(vr_id r \<mapsto> r)"
    by (simp add: mem_put_def store_simps)
  then show "seg_view cd (sg\<lparr>sg_memtable := mem_put r (sg_memtable sg)\<rparr>) = (seg_view cd sg)(vr_id r \<mapsto> r)"
    by (simp add: seg_view_def durable_view_def durable_records_by_id_def frame_simps)
qed

lemma put_inv_view:
  assumes "seg_inv cd sg" "line_codec cd r" "(Hot, sst_name ts pid) \<notin> set (sg_sstables sg)"
  shows "seg_inv cd (seg_put cd ts pid r sg)"
    and "seg_view cd (seg_put cd ts pid r sg) = (seg_view cd sg)(vr_id r \<mapsto> r)"
  using put_memtable [OF assms(1,2)] flush_inv [OF put_memtable(1) [OF assms(1,2)], of ts pid]
    flush_view [OF put_memtable(1) [OF assms(1,2)], of ts pid] assms(3)
  by (simp_all add: seg_put_def Let_def)

subsection \<open>Runs\<close>

text \<open>Each operation comes with the clock reading and process id that would name its file.\<close>

datatype seg_op = PutOp nat nat vector_record | FlushOp nat nat

fun op_file :: "seg_op \<Rightarrow> sst_path" where
  "op_file (PutOp ts pid r) = (Hot, sst_name ts pid)"
| "op_file (FlushOp ts pid) = (Hot, sst_name ts pid)"

fun op_put :: "seg_op \<Rightarrow> vector_record list" where
  "op_put (PutOp ts pid r) = [r]"
| "op_put (FlushOp ts pid) = []"

fun seg_step :: "codec \<Rightarrow> seg_op \<Rightarrow> segments \<Rightarrow> segments" where
  "seg_step cd (PutOp ts pid r) sg = seg_put cd ts pid r sg"
| "seg_step cd (FlushOp ts pid) sg = snd (seg_flush cd ts pid sg)"

lemma seg_step_sstables: "set (sg_sstables (seg_step cd op sg)) \<subseteq> insert (op_file op) (set (sg_sstables sg))"
  by (cases op) (auto simp: seg_put_def seg_flush_def Let_def mem_snapshot_and_clear_def sst_flush_def
      split: if_splits)

lemma seg_step_view:
  assumes "seg_inv cd sg" "\<forall>r \<in> set (op_put op). line_codec cd r" "op_file op \<notin> set (sg_sstables sg)"
  shows "seg_inv cd (seg_step cd op sg) \<and>
    seg_view cd (seg_step cd op sg) = seg_view cd sg ++ map_of (map (\<lambda>r. (vr_id r, r)) (op_put op))"
  using assms by (cases op) (simp_all add: put_inv_view flush_inv flush_view)

lemma run_view:
  assumes "seg_inv cd sg" "\<forall>r \<in> set (concat (map op_put ops)). line_codec cd r"
    "distinct (map op_file ops)" "set (map op_file ops) \<inter> set (sg_sstables sg) = {}"
  shows "seg_inv cd (fold (seg_step cd) ops sg) \<and>
    seg_view cd (fold (seg_step cd) ops sg) =
      seg_view cd sg ++ map_of (rev (map (\<lambda>r. (vr_id r, r)) (concat (map op_put ops))))"
  using assms
proof (induction ops arbitrary: sg)
  case (Cons op ops)
  let ?sg = "seg_step cd op sg"
  have step: "seg_inv cd ?sg"
    "seg_view cd ?sg = seg_view cd sg ++ map_of (map (\<lambda>r. (vr_id r, r)) (op_put op))"
    using seg_step_view [of cd sg op] Cons.prems by auto
  have disj: "set (map op_file ops) \<inter> set (sg_sstables ?sg) = {}"
  proof -
    have "op_file op \<notin> set (map op_file ops)" using Cons.prems(3) by simp
    moreover have "set (map op_file ops) \<inter> set (sg_sstables sg) = {}" using Cons.prems(4) by simp
    ultimately show ?thesis using seg_step_sstables [of cd op sg] by blast
  qed
  have "seg_inv cd (fold (seg_step cd) ops ?sg) \<and>
      seg_view cd (fold (seg_step cd) ops ?sg) =
        seg_view cd ?sg ++ map_of (rev (map (\<lambda>r. (vr_id r, r)) (concat (map op_put ops))))"
    using Cons.prems(2,3) disj by (intro Cons.IH step(1)) auto
  moreover have "map_of (map (\<lambda>r. (vr_id r, r)) (op_put op)) = map_of (rev (map (\<lambda>r. (vr_id r, r)) (op_put op)))"
    by (cases op) simp_all
  ultimately show ?case by (simp add: step(2))
qed simp

lemma seg_open_empty:
  "seg_inv cd (seg_open th [] c)" if "c = None \<or> c = Some []" for c
  using that by (auto simp: seg_inv_def seg_open_def mem_scan_def keyed_dict_def)

subsection \<open>A codec for concrete inputs\<close>

definition demo_record :: "string \<Rightarrow> string \<Rightarrow> vector_record" where
  "demo_record i src =
     \<lparr>vr_id = i, vr_namespace = ''ns'', vr_vector = [1], vr_dimension = 1, vr_metadata = [],
      vr_created_at = 0, vr_updated_at = 0, vr_version = 1, vr_ttl = None, vr_tags = [],
      vr_source_system = src, vr_checksum = ''c''\<rparr>"

definition demo_parse :: "string \<Rightarrow> string \<times> string" where
  "demo_parse s = (takeWhile (\<lambda>c. c \<noteq> CHR '':'') s, drop 1 (dropWhile (\<lambda>c. c \<noteq> CHR '':'') s))"

definition demo_obj :: "string \<Rightarrow> string \<Rightarrow> json" where
  "demo_obj i src = JObj [(''id'', JStr i), (''source_system'', JStr src)]"

fun demo_of_json :: "json \<Rightarrow> vector_record res" where
  "demo_of_json (JObj [(k, JStr i), (l, JStr src)]) = Inr (demo_record i src)"
| "demo_of_json _ = Inl (ValueError ''invalid record'')"

fun demo_dumps :: "json \<Rightarrow> string" where
  "demo_dumps (JObj [(k, JStr x), (l, JStr i)]) = CHR ''-'' # i"
| "demo_dumps (JObj [(k, JStr x), (l, JObj [(a, JStr i), (b, JStr src)])]) = CHR ''+'' # i @ '':'' @ src"
| "demo_dumps _ = []"

fun demo_loads :: "string \<Rightarrow> json res" where
  "demo_loads [] = Inl (ValueError ''Expecting value'')"
| "demo_loads (c # cs) =
     (if c = CHR ''-'' then Inr (JObj [(''__op'', JStr ''delete''), (''id'', JStr cs)])
      else if c = CHR ''+'' then
        Inr (JObj [(''__op'', JStr ''upsert''),
                   (''record'', demo_obj (fst (demo_parse cs)) (snd (demo_parse cs)))])
      else Inr (demo_obj (fst (demo_parse (c # cs))) (snd (demo_parse (c # cs)))))"

definition demo_codec :: codec where
  "demo_codec =
     \<lparr>cd_dump_json = (\<lambda>r. vr_id r @ '':'' @ vr_source_system r),
      cd_validate_json = (\<lambda>s. Inr (demo_record (fst (demo_parse s)) (snd (demo_parse s)))),
      cd_dump = (\<lambda>r. demo_obj (vr_id r) (vr_source_system r)),
      cd_validate = demo_of_json,
      cd_dumps = (\<lambda>j. encode (demo_dumps j)),
      cd_loads = (\<lambda>bs. demo_loads (map (\<lambda>b. char_of (unat b)) bs)),
      cd_str = (\<lambda>j. [])\<rparr>"

lemma decode_encode [simp]: "map (\<lambda>b. char_of (unat b)) (encode s) = s"
proof -
  have "char_of (unat (word_of_nat (of_char c) :: byte)) = c" for c :: char
  proof -
    have "of_char c < (256 :: nat)" by simp
    then show ?thesis by (simp add: unat_of_nat)
  qed
  then show ?thesis by (simp add: encode_def map_idI)
qed

lemma demo_line_codec:
  "\<lbrakk>i \<noteq> []; \<forall>c \<in> set (i @ src). c \<noteq> CHR '':'' \<and> \<not> is_space c\<rbrakk> \<Longrightarrow> line_codec demo_codec (demo_record i src)"
  by (auto simp: line_codec_def demo_codec_def demo_record_def demo_parse_def newline_def is_space_def
      takeWhile_append dropWhile_append list_all_iff)

subsection \<open>Properties\<close>

text \<open>
  C20: the segment store is a map. Along any run of puts and flushes whose files get new names, a
  lookup of an id returns the record last put under it, whether it is still in the memtable or in
  one of the SSTables, and otherwise what the store held for it before.
\<close>

theorem segment_store_is_map:
  assumes "seg_inv cd sg" "\<forall>r \<in> set (concat (map op_put ops)). line_codec cd r"
    and "distinct (map op_file ops)" "set (map op_file ops) \<inter> set (sg_sstables sg) = {}"
  shows "seg_get cd (fold (seg_step cd) ops sg) i =
    Inr ((seg_view cd sg ++ map_of (rev (map (\<lambda>r. (vr_id r, r)) (concat (map op_put ops))))) i)"
  using run_view [OF assms] by (simp add: seg_get_view)

lemma segment_store_is_map_witness:
  "seg_get demo_codec (fold (seg_step demo_codec)
     [PutOp 1 7 (demo_record ''a'' ''x''), FlushOp 2 7, PutOp 3 7 (demo_record ''b'' ''y''),
      PutOp 4 7 (demo_record ''a'' ''z''), FlushOp 5 7] (seg_open 10 [] None)) ''a'' =
   Inr (Some (demo_record ''a'' ''z''))"
proof -
  let ?ops = "[PutOp 1 7 (demo_record ''a'' ''x''), FlushOp 2 7, PutOp 3 7 (demo_record ''b'' ''y''),
      PutOp 4 7 (demo_record ''a'' ''z''), FlushOp 5 7]"
  have c: "\<forall>r \<in> set (concat (map op_put ?ops)). line_codec demo_codec r"
    by (auto intro!: demo_line_codec simp: is_space_def)
  have d: "distinct (map op_file ?ops)"
    by (simp add: sst_name_def nat_str.simps digit_char_def)
  have f: "set (map op_file ?ops) \<inter> set (sg_sstables (seg_open 10 [] None)) = {}"
    by (simp add: seg_open_def)
  from segment_store_is_map [OF seg_open_empty [OF disjI1 [OF refl]] c d f, of "''a''"] show ?thesis
    by (simp add: demo_record_def)
qed

text \<open>
  Two flushes in the same millisecond by the same process use the same file name, so the second
  replaces the first: its records can no longer be found, and the records of the second count twice.
\<close>

theorem same_millisecond_flush_loses:
  assumes "line_codec cd a" "line_codec cd b" "vr_id a \<noteq> vr_id b" "1 < th"
  shows "(let sg1 = snd (seg_flush cd ts pid (seg_put cd ts pid a (seg_open th [] None)));
              sg2 = snd (seg_flush cd ts pid (seg_put cd ts pid b sg1))
          in seg_get cd sg1 (vr_id a) = Inr (Some a) \<and> seg_get cd sg2 (vr_id a) = Inr None \<and>
             seg_count sg1 = 1 \<and> seg_count sg2 = 2)"
proof -
  define sg0 where "sg0 = (seg_open th [] None)\<lparr>sg_memtable := [(vr_id a, a)]\<rparr>"
  define sg1 where "sg1 = snd (seg_flush cd ts pid sg0)"
  define sg2 where "sg2 = snd (seg_flush cd ts pid (sg1\<lparr>sg_memtable := [(vr_id b, b)]\<rparr>))"
  have put1: "seg_put cd ts pid a (seg_open th [] None) = sg0"
    using assms(4) by (simp add: seg_put_def mem_put_def mem_should_flush_def mem_count_def
        seg_open_def sg0_def)
  have sg1: "sg_memtable sg1 = []" "sg_sstables sg1 = [(Hot, sst_name ts pid)]"
    "sg_threshold sg1 = th" "sg_hot sg1 = [(sst_name ts pid, sst_file cd [a])]"
    by (simp_all add: sg1_def sg0_def flush_simps seg_open_def)
  have put2: "seg_put cd ts pid b sg1 = sg1\<lparr>sg_memtable := [(vr_id b, b)]\<rparr>"
    using assms(4) sg1 by (simp add: seg_put_def mem_put_def mem_should_flush_def mem_count_def)
  have sg2: "sg_memtable sg2 = []" "sg_sstables sg2 = [(Hot, sst_name ts pid), (Hot, sst_name ts pid)]"
    "sg_hot sg2 = [(sst_name ts pid, sst_file cd [b])]"
    using sg1 by (simp_all add: sg2_def flush_simps)
  have scans: "sst_scan cd sg1 (Hot, sst_name ts pid) = Inr [a]"
    "sst_scan cd sg2 (Hot, sst_name ts pid) = Inr [b]"
    using scan_sst_file [of "[a]" cd] scan_sst_file [of "[b]" cd] assms(1,2)
    by (simp_all add: sst_scan_def sg1 sg2)
  have lines: "file_lines (sst_file cd [a]) = [cd_dump_json cd a]"
    "file_lines (sst_file cd [b]) = [cd_dump_json cd b]"
    using file_lines_sst [of "[a]" cd] file_lines_sst [of "[b]" cd] assms(1,2) by simp_all
  have "seg_get cd sg1 (vr_id a) = Inr (Some a)" "seg_get cd sg2 (vr_id a) = Inr None"
    using assms(3) by (simp_all add: seg_get_def mem_get_def sg1 sg2 scans)
  moreover have "seg_count sg1 = 1" "seg_count sg2 = 2"
    by (simp_all add: seg_count_def sst_count_def mem_count_def sg1 sg2 lines)
  ultimately show ?thesis by (simp add: put1 put2 sg1_def [symmetric] sg2_def [symmetric])
qed

lemma same_millisecond_flush_loses_witness:
  "let sg1 = snd (seg_flush demo_codec 5 7 (seg_put demo_codec 5 7 (demo_record ''a'' ''x'') (seg_open 10 [] None)));
       sg2 = snd (seg_flush demo_codec 5 7 (seg_put demo_codec 5 7 (demo_record ''b'' ''y'') sg1))
   in seg_get demo_codec sg1 ''a'' = Inr (Some (demo_record ''a'' ''x'')) \<and>
      seg_get demo_codec sg2 ''a'' = Inr None"
proof -
  have c: "line_codec demo_codec (demo_record ''a'' ''x'')" "line_codec demo_codec (demo_record ''b'' ''y'')"
    by (auto intro!: demo_line_codec simp: is_space_def)
  have n: "vr_id (demo_record ''a'' ''x'') \<noteq> vr_id (demo_record ''b'' ''y'')" by (simp add: demo_record_def)
  have i: "vr_id (demo_record ''a'' ''x'') = ''a''" by (simp add: demo_record_def)
  from same_millisecond_flush_loses [OF c n, of 10 5 7] show ?thesis unfolding i Let_def by simp
qed

text \<open>
  After a restart the cold directory is listed after the hot one, so a record that was moved to
  the cold tier wins over the newer version of it in the hot tier, although before the restart the
  newer version was returned.
\<close>

theorem cold_tier_overrides_after_restart:
  assumes "line_codec cd old" "line_codec cd new" "vr_id old = vr_id new" "1 < th"
    and "sst_name t1 pid \<noteq> sst_name t2 pid"
  shows "(let sg1 = tier_to_cold 0 (snd (seg_flush cd t1 pid (seg_put cd t1 pid old (seg_open th [] (Some [])))));
              sg2 = snd (seg_flush cd t2 pid (seg_put cd t2 pid new sg1))
          in seg_get cd sg2 (vr_id new) = Inr (Some new) \<and>
             seg_get cd (seg_open th (sg_hot sg2) (sg_cold sg2)) (vr_id new) = Inr (Some old))"
proof -
  let ?f = "sst_name t1 pid" and ?g = "sst_name t2 pid"
  define sg0 where "sg0 = (seg_open th [] (Some []))\<lparr>sg_memtable := [(vr_id new, old)]\<rparr>"
  define sg1 where "sg1 = tier_to_cold 0 (snd (seg_flush cd t1 pid sg0))"
  define sg2 where "sg2 = snd (seg_flush cd t2 pid (sg1\<lparr>sg_memtable := [(vr_id new, new)]\<rparr>))"
  define sg3 where "sg3 = seg_open th (sg_hot sg2) (sg_cold sg2)"
  have put1: "seg_put cd t1 pid old (seg_open th [] (Some [])) = sg0"
    using assms(3,4) by (simp add: seg_put_def mem_put_def mem_should_flush_def mem_count_def
        seg_open_def sg0_def)
  have sg1: "sg_memtable sg1 = []" "sg_sstables sg1 = [(Cold, ?f)]" "sg_threshold sg1 = th"
    "sg_hot sg1 = []" "sg_cold sg1 = Some [(?f, sst_file cd [old])]"
    by (simp_all add: sg1_def sg0_def flush_simps seg_open_def tier_to_cold_def)
  have put2: "seg_put cd t2 pid new sg1 = sg1\<lparr>sg_memtable := [(vr_id new, new)]\<rparr>"
    using assms(4) sg1 by (simp add: seg_put_def mem_put_def mem_should_flush_def mem_count_def)
  have sg2: "sg_memtable sg2 = []" "sg_sstables sg2 = [(Cold, ?f), (Hot, ?g)]"
    "sg_hot sg2 = [(?g, sst_file cd [new])]" "sg_cold sg2 = Some [(?f, sst_file cd [old])]"
    using sg1 by (simp_all add: sg2_def flush_simps)
  have glob: "sst_glob (sst_name t p)" for t p
    by (simp add: sst_glob_def sst_name_def starts_with_def)
  have sg3: "sg_memtable sg3 = []" "sg_sstables sg3 = [(Hot, ?g), (Cold, ?f)]"
    "sg_hot sg3 = [(?g, sst_file cd [new])]" "sg_cold sg3 = Some [(?f, sst_file cd [old])]"
    by (simp_all add: sg3_def seg_open_def sg2 glob)
  have texts: "scan_lines cd (file_lines (sst_file cd [old])) = Inr [old]"
    "scan_lines cd (file_lines (sst_file cd [new])) = Inr [new]"
    using scan_sst_file [of "[old]" cd] scan_sst_file [of "[new]" cd] assms(1,2) by simp_all
  have "seg_get cd sg2 (vr_id new) = Inr (Some new)" "seg_get cd sg3 (vr_id new) = Inr (Some old)"
    using assms(3) by (simp_all add: seg_get_def mem_get_def sst_scan_def sg2 sg3 texts)
  then show ?thesis by (simp add: put1 put2 sg1_def [symmetric] sg2_def [symmetric] sg3_def [symmetric])
qed

lemma cold_tier_overrides_after_restart_witness:
  "let sg1 = tier_to_cold 0 (snd (seg_flush demo_codec 1 7
              (seg_put demo_codec 1 7 (demo_record ''a'' ''old'') (seg_open 10 [] (Some [])))));
       sg2 = snd (seg_flush demo_codec 2 7 (seg_put demo_codec 2 7 (demo_record ''a'' ''new'') sg1))
   in seg_get demo_codec (seg_open 10 (sg_hot sg2) (sg_cold sg2)) ''a'' =
      Inr (Some (demo_record ''a'' ''old''))"
proof -
  let ?a = "demo_record ''a'' ''old''" and ?b = "demo_record ''a'' ''new''"
  have c: "line_codec demo_codec ?a" "line_codec demo_codec ?b"
    by (auto intro!: demo_line_codec simp: is_space_def)
  have i: "vr_id ?a = vr_id ?b" "vr_id ?b = ''a''" by (simp_all add: demo_record_def)
  have n: "sst_name 1 7 \<noteq> sst_name 2 7" by (simp add: sst_name_def nat_str.simps digit_char_def)
  from cold_tier_overrides_after_restart [OF c i(1) _ n, of 10] show ?thesis unfolding i(2) Let_def by simp
qed

end
