(* ===== verification/Wal_Facts.thy ===== *)
theory Wal_Facts
  imports Wal
begin

text \<open>
  What the log guarantees: frames parse back, also before a torn tail, and a corrupt payload costs
  only its own entry; what a flush writes and what \<open>read_all\<close> returns; the size of a segment; the
  directory as a restarted process finds it; and the two threads, with the conservation of entries
  and the orderings that they do not keep.
\<close>

subsection \<open>Frames\<close>

definition read_back :: "nat \<Rightarrow> wal_entry \<Rightarrow> wal_entry" where
  "read_back now e = new_entry now (we_payload e) (we_timestamp e)"

lemma read_back_id: "we_timestamp e \<noteq> 0 \<Longrightarrow> read_back now e = e"
  by (simp add: read_back_def new_entry_def)

lemma length_frame [simp]: "length (frame e) = header_size + length (we_payload e)"
  by (simp add: frame_def header_size_def)

lemma frame_fields:
  "take 4 (frame e @ d) = be_encode 4 (length (we_payload e))"
  "take 4 (drop 4 (frame e @ d)) = be_encode 4 (crc32 (we_payload e))"
  "take 8 (drop 8 (frame e @ d)) = be_encode 8 (we_timestamp e)"
  "drop header_size (frame e @ d) = we_payload e @ d"
  by (simp_all add: frame_def header_size_def)

lemma encodable_fields:
  assumes "encodable e"
  shows "be_decode (be_encode 4 (length (we_payload e))) = length (we_payload e)"
    "be_decode (be_encode 4 (crc32 (we_payload e))) = crc32 (we_payload e)"
    "be_decode (be_encode 8 (we_timestamp e)) = we_timestamp e"
  using assms crc32_bound [of "we_payload e"]
  by (simp_all add: encodable_def be_decode_encode del: be_encode.simps)

lemma parse_frame:
  assumes "encodable e"
  shows "parse_entries now (frame e @ d) = read_back now e # parse_entries now d"
proof -
  define D where "D = frame e @ d"
  have l: "\<not> length D < header_size" by (simp add: D_def)
  note f = frame_fields [of e d, folded D_def]
  have "parse_entries now D = read_back now e # parse_entries now d"
    by (subst parse_entries.simps)
      (simp add: l f encodable_fields [OF assms] Let_def read_back_def)
  then show ?thesis by (simp add: D_def)
qed

lemma parse_frames:
  "\<forall>e \<in> set es. encodable e \<Longrightarrow>
     parse_entries now (concat (map frame es) @ d) = map (read_back now) es @ parse_entries now d"
  by (induction es) (simp_all add: parse_frame)

lemma parse_nil: "parse_entries now [] = []"
  by (subst parse_entries.simps) (simp add: header_size_def)

text \<open>A strict prefix of a frame, what a crash leaves at the end of a file, yields nothing.\<close>

lemma parse_torn:
  assumes "encodable e" "k < length (frame e)"
  shows "parse_entries now (take k (frame e)) = []"
proof (cases "k < header_size")
  case True
  then show ?thesis by (subst parse_entries.simps) simp
next
  case False
  define D where "D = take k (frame e)"
  have f: "take 4 D = be_encode 4 (length (we_payload e))"
    "drop header_size D = take (k - header_size) (we_payload e)"
    "\<not> length D < header_size"
    using False assms(2) by (simp_all add: D_def frame_def header_size_def drop_take)
  have "length (take (k - header_size) (we_payload e)) < length (we_payload e)"
    using assms(2) False by (simp add: min_def)
  then have "parse_entries now D = []"
    by (subst parse_entries.simps) (simp add: f encodable_fields [OF assms(1)] Let_def del: length_take)
  then show ?thesis by (simp add: D_def)
qed

text \<open>A frame whose payload was replaced by one of the same length with another checksum is skipped.\<close>

definition corrupt_frame :: "wal_entry \<Rightarrow> byte list \<Rightarrow> byte list" where
  "corrupt_frame e p = take header_size (frame e) @ p"

lemma parse_corrupt:
  assumes "encodable e" "length p = length (we_payload e)" "crc32 p \<noteq> crc32 (we_payload e)"
  shows "parse_entries now (corrupt_frame e p @ d) = parse_entries now d"
proof -
  define D where "D = corrupt_frame e p @ d"
  have f: "take 4 D = be_encode 4 (length (we_payload e))"
    "take 4 (drop 4 D) = be_encode 4 (crc32 (we_payload e))"
    "drop header_size D = p @ d" "\<not> length D < header_size"
    by (simp_all add: D_def corrupt_frame_def frame_def header_size_def)
  have "parse_entries now D = parse_entries now d"
    by (subst parse_entries.simps)
      (simp add: f encodable_fields [OF assms(1)] Let_def assms(2,3))
  then show ?thesis by (simp add: D_def)
qed

subsection \<open>Well-framed directories\<close>

definition well_framed :: "byte list \<Rightarrow> bool" where
  "well_framed d \<longleftrightarrow> (\<exists>es. (\<forall>e \<in> set es. encodable e) \<and> d = concat (map frame es))"

definition files_framed :: "(string, byte list) dict \<Rightarrow> bool" where
  "files_framed files \<longleftrightarrow> dict_ok files \<and>
     (\<forall>(f, d) \<in> set files. well_framed d \<and> wal_file_name f)"

lemma well_framed_nil: "well_framed []"
  unfolding well_framed_def by (rule exI [of _ "[]"]) simp

lemma well_framed_frame: "well_framed d \<Longrightarrow> encodable e \<Longrightarrow> well_framed (d @ frame e)"
proof -
  assume h: "well_framed d" "encodable e"
  then obtain es where "\<forall>e \<in> set es. encodable e" "d = concat (map frame es)"
    by (auto simp: well_framed_def)
  with h(2) show ?thesis
    unfolding well_framed_def by (intro exI [of _ "es @ [e]"]) auto
qed

lemma parse_append_frame:
  "well_framed d \<Longrightarrow> encodable e \<Longrightarrow>
     parse_entries now (d @ frame e) = parse_entries now d @ [read_back now e]"
  using parse_frames [of _ now "frame e"] parse_frames [of _ now "[]"] parse_frame [of e now "[]"]
  by (auto simp: well_framed_def parse_nil)

lemma segment_name_ok: "wal_file_name (segment_name i)"
  by (simp add: wal_file_name_def segment_name_def starts_with_def)

lemma files_framed_put:
  "files_framed files \<Longrightarrow> well_framed d \<Longrightarrow> files_framed (dict_put (segment_name i) d files)"
proof -
  assume h: "files_framed files" "well_framed d"
  then have "dict_ok (dict_put (segment_name i) d files)" by (simp add: files_framed_def)
  moreover have "well_framed d' \<and> wal_file_name f"
    if "(f, d') \<in> set (dict_put (segment_name i) d files)" for f d'
  proof -
    from that calculation have "map_of (dict_put (segment_name i) d files) f = Some d'" by simp
    then have "(f, d') = (segment_name i, d) \<or> map_of files f = Some d'"
      by (auto simp: map_of_dict_put split: if_splits)
    with h show ?thesis by (auto simp: files_framed_def segment_name_ok dest: map_of_SomeD)
  qed
  ultimately show ?thesis by (auto simp: files_framed_def)
qed

lemma files_framed_get:
  "files_framed files \<Longrightarrow> dict_get files f = Some d \<Longrightarrow> well_framed d"
  by (auto simp: files_framed_def dest: map_of_SomeD)

subsection \<open>Any prefix of a file\<close>

text \<open>How many frames lie wholly within the first \<open>k\<close> bytes.\<close>

fun whole_frames :: "nat \<Rightarrow> wal_entry list \<Rightarrow> nat" where
  "whole_frames k [] = 0"
| "whole_frames k (e # es) =
     (if length (frame e) \<le> k then Suc (whole_frames (k - length (frame e)) es) else 0)"

lemma parse_prefix:
  "\<forall>e \<in> set es. encodable e \<Longrightarrow>
     parse_entries now (take k (concat (map frame es))) =
     map (read_back now) (take (whole_frames k es) es)"
proof (induction es arbitrary: k)
  case (Cons e es)
  show ?case
  proof (cases "length (frame e) \<le> k")
    case True
    then have "take k (concat (map frame (e # es))) =
        frame e @ take (k - length (frame e)) (concat (map frame es))"
      by simp
    with Cons True show ?thesis by (simp add: parse_frame del: length_frame)
  next
    case False
    then have "take k (concat (map frame (e # es))) = take k (frame e)"
      by simp
    with Cons.prems False parse_torn [of e k now] show ?thesis by simp
  qed
qed (simp add: parse_nil)

subsection \<open>Segment names in order\<close>

fun pad_digits :: "nat \<Rightarrow> nat \<Rightarrow> string" where
  "pad_digits 0 n = []"
| "pad_digits (Suc k) n = pad_digits k (n div 10) @ [digit_char (n mod 10)]"

lemma length_pad_digits [simp]: "length (pad_digits k n) = k"
  by (induction k arbitrary: n) auto

lemma pad_digits_zero: "pad_digits k 0 = replicate k (CHR ''0'')"
  by (induction k) (simp_all add: digit_char_def replicate_append_same)

lemma zfill_pad_digits: "n < 10 ^ k \<Longrightarrow> 0 < k \<Longrightarrow> zfill k n = pad_digits k n"
proof (induction k arbitrary: n)
  case (Suc k)
  show ?case
  proof (cases "n < 10")
    case True
    then have "nat_str n = [digit_char n]" by (simp add: nat_str.simps [of n])
    with True show ?thesis by (simp add: zfill_def pad_digits_zero)
  next
    case False
    with Suc.prems have k: "n div 10 < 10 ^ k" "0 < k"
      by (cases k; simp add: less_mult_imp_div_less mult.commute)+
    have "nat_str n = nat_str (n div 10) @ [digit_char (n mod 10)]"
      using False by (simp add: nat_str.simps [of n])
    with Suc.IH [OF k] show ?thesis by (simp add: zfill_def Let_def)
  qed
qed simp

lemma digit_char_mono: "a < b \<Longrightarrow> b < 10 \<Longrightarrow> digit_char a < digit_char b"
proof -
  have "sorted_wrt (<) ''0123456789''" by (simp add: less_char_def)
  then show "a < b \<Longrightarrow> b < 10 \<Longrightarrow> digit_char a < digit_char b"
    unfolding digit_char_def by (rule sorted_wrt_nth_less) auto
qed

lemma string_less_append:
  "(xs :: string) < ys \<Longrightarrow> length xs = length ys \<Longrightarrow> xs @ us < ys @ vs"
  unfolding list_less_def by (rule lexord_sufI) auto

lemma string_less_prefix: "(us :: string) < vs \<Longrightarrow> xs @ us < xs @ vs"
  unfolding list_less_def by (rule lexord_append_leftI)

lemma pad_digits_mono: "m < n \<Longrightarrow> n < 10 ^ k \<Longrightarrow> pad_digits k m < pad_digits k n"
proof (induction k arbitrary: m n)
  case (Suc k)
  show ?case
  proof (cases "m div 10 = n div 10")
    case True
    then have "m mod 10 < n mod 10"
      using Suc.prems(1) by (metis add_less_cancel_left div_mult_mod_eq)
    then have "[digit_char (m mod 10)] < [digit_char (n mod 10)]"
      by (simp add: digit_char_mono)
    then show ?thesis using True by (simp add: string_less_prefix)
  next
    case False
    then have "m div 10 < n div 10" using Suc.prems(1) by (simp add: div_le_mono nat_less_le)
    moreover have "n div 10 < 10 ^ k" using Suc.prems(2) by (simp add: less_mult_imp_div_less mult.commute)
    ultimately show ?thesis by (simp add: Suc.IH string_less_append)
  qed
qed simp

lemma segment_name_mono: "i < j \<Longrightarrow> j < 10 ^ 6 \<Longrightarrow> segment_name i < segment_name j"
proof -
  assume "i < j" "j < 10 ^ 6"
  then have "zfill 6 i < zfill 6 j" "length (zfill 6 i) = length (zfill 6 j)"
    by (simp_all add: zfill_pad_digits pad_digits_mono del: pad_digits.simps)
  then show ?thesis
    unfolding segment_name_def by (intro string_less_prefix string_less_append) auto
qed

lemma segment_name_inj:
  "i < 10 ^ 6 \<Longrightarrow> j < 10 ^ 6 \<Longrightarrow> segment_name i = segment_name j \<longleftrightarrow> i = j"
  by (metis segment_name_mono less_irrefl linorder_neqE_nat)

lemma sorted_segment_names: "n \<le> 10 ^ 6 \<Longrightarrow> sorted (map segment_name [0..<n])"
proof (induction n)
  case (Suc n)
  then have "segment_name i \<le> segment_name n" if "i < n" for i
    using that segment_name_mono [of i n] by simp
  with Suc show ?case by (auto simp: sorted_append)
qed simp

lemma distinct_segment_names: "n \<le> 10 ^ 6 \<Longrightarrow> distinct (map segment_name [0..<n])"
  by (auto simp: distinct_map inj_on_def segment_name_inj)

subsection \<open>What a flush writes\<close>

text \<open>
  A log in its first life: the segments are numbered from zero without gaps, the last is the current
  one, and all frames are whole. A log opened on an empty directory is one, and stays one.
\<close>

definition sequential :: "wal \<Rightarrow> bool" where
  "sequential w \<longleftrightarrow> map fst (wl_files w) = map segment_name [0..<Suc (wl_segment_id w)] \<and>
     Suc (wl_segment_id w) \<le> 10 ^ 6 \<and> (\<forall>d \<in> set (map snd (wl_files w)). well_framed d) \<and>
     wl_segment_written w = length (snd (last (wl_files w)))"

lemma sequential_open: "sequential (wal_open sb b [])"
  by (simp add: sequential_def wal_open_def open_segment_def well_framed_nil)

lemma sequential_read:
  assumes "sequential w"
  shows "read_files now (wl_files w) = concat (map (parse_entries now) (map snd (wl_files w)))"
proof -
  let ?names = "map segment_name [0..<Suc (wl_segment_id w)]"
  have names: "map fst (wl_files w) = ?names" and b: "Suc (wl_segment_id w) \<le> 10 ^ 6"
    using assms by (auto simp: sequential_def)
  have d: "dict_ok (wl_files w)" using distinct_segment_names [OF b] names by simp
  have "filter wal_file_name ?names = ?names"
    by (auto simp: filter_id_conv segment_name_ok)
  moreover have "sort ?names = ?names"
    using sorted_segment_names [OF b] by (rule sort_key_id_if_sorted [where f = "\<lambda>x. x", simplified])
  ultimately have "sort (filter wal_file_name (map fst (wl_files w))) = map fst (wl_files w)"
    using names by simp
  then have "read_files now (wl_files w) = concat (map (\<lambda>f. parse_entries now
      (case dict_get (wl_files w) f of None \<Rightarrow> [] | Some d \<Rightarrow> d)) (map fst (wl_files w)))"
    unfolding read_files_def by (rule arg_cong)
  also have "\<dots> = concat (map (\<lambda>(f, d). parse_entries now d) (wl_files w))"
  proof -
    have "map (\<lambda>f. parse_entries now (case dict_get (wl_files w) f of None \<Rightarrow> [] | Some d \<Rightarrow> d))
        (map fst (wl_files w)) = map (\<lambda>(f, d). parse_entries now d) (wl_files w)"
      unfolding map_map using d by (intro map_cong) auto
    then show ?thesis by (rule arg_cong)
  qed
  finally show ?thesis by (simp add: comp_def case_prod_unfold)
qed

definition write_entry :: "wal_entry \<Rightarrow> wal \<Rightarrow> wal" where
  "write_entry e w = write_data (frame e) (rotate_if_needed (length (frame e)) w)"

lemma sequential_last:
  assumes "sequential w"
  shows "\<exists>fs d. wl_files w = fs @ [(segment_name (wl_segment_id w), d)] \<and>
    segment_name (wl_segment_id w) \<notin> fst ` set fs \<and> wl_segment_written w = length d \<and> well_framed d"
proof -
  have ne: "wl_files w \<noteq> []"
    using assms by (auto simp: sequential_def)
  then obtain fs f d where fs: "wl_files w = fs @ [(f, d)]"
    by (cases "wl_files w" rule: rev_cases) auto
  with assms have "map fst fs @ [f] = map segment_name [0..<wl_segment_id w] @ [segment_name (wl_segment_id w)]"
    by (simp add: sequential_def)
  then have names: "map fst fs = map segment_name [0..<wl_segment_id w]" "f = segment_name (wl_segment_id w)"
    by simp_all
  have "distinct (map segment_name [0..<Suc (wl_segment_id w)])"
    using assms by (intro distinct_segment_names) (simp add: sequential_def)
  then have "segment_name (wl_segment_id w) \<notin> set (map fst fs)" unfolding names(1) by simp
  then have "segment_name (wl_segment_id w) \<notin> fst ` set fs" by simp
  with fs names(2) assms show ?thesis by (simp add: sequential_def)
qed

lemma sequential_rotate:
  assumes "sequential w" "Suc (Suc (wl_segment_id w)) \<le> 10 ^ 6"
  shows "sequential (rotate_if_needed n w) \<and>
    read_files now (wl_files (rotate_if_needed n w)) = read_files now (wl_files w)"
proof (cases "wl_segment_written w + n > wl_segment_bytes w")
  case True
  have "segment_name (Suc (wl_segment_id w)) \<notin> set (map segment_name [0..<Suc (wl_segment_id w)])"
    using distinct_segment_names [OF assms(2)] by (subst (asm) upt_Suc_append) (simp_all del: upt_Suc)
  then have fresh: "segment_name (Suc (wl_segment_id w)) \<notin> fst ` set (wl_files w)"
    using assms(1) unfolding sequential_def by (metis list.set_map)
  then have open_eq: "rotate_if_needed n w =
      w\<lparr>wl_segment_id := Suc (wl_segment_id w),
        wl_files := wl_files w @ [(segment_name (Suc (wl_segment_id w)), [])],
        wl_segment_written := 0\<rparr>"
    using True by (simp add: rotate_if_needed_def open_segment_def dict_put_fresh
        flip: map_of_eq_None_iff)
  have seq: "sequential (rotate_if_needed n w)"
    using assms unfolding open_eq by (simp add: sequential_def well_framed_nil)
  show ?thesis
    using seq sequential_read [OF seq, of now] sequential_read [OF assms(1), of now]
    unfolding open_eq by (simp add: parse_nil)
qed (use assms in \<open>simp add: rotate_if_needed_def\<close>)

lemma sequential_write_data:
  assumes "sequential w" "encodable e"
  shows "sequential (write_data (frame e) w) \<and>
    read_files now (wl_files (write_data (frame e) w)) = read_files now (wl_files w) @ [read_back now e]"
proof -
  from sequential_last [OF assms(1)] obtain fs d where
    f: "wl_files w = fs @ [(segment_name (wl_segment_id w), d)]"
    "segment_name (wl_segment_id w) \<notin> fst ` set fs" "wl_segment_written w = length d" "well_framed d"
    by blast
  have get: "dict_get (wl_files w) (segment_name (wl_segment_id w)) = Some d"
    using f(1,2) map_of_eq_None_iff [of fs "segment_name (wl_segment_id w)"]
    by (simp add: map_add_def)
  have put: "dict_put (segment_name (wl_segment_id w)) v (wl_files w) =
      fs @ [(segment_name (wl_segment_id w), v)]" for v
    unfolding f(1) using f(2) by (induction fs) auto
  have eq: "wl_files (write_data (frame e) w) = fs @ [(segment_name (wl_segment_id w), d @ frame e)]"
    using get put by (simp add: write_data_def)
  have seq: "sequential (write_data (frame e) w)"
    using assms f eq well_framed_frame [OF f(4) assms(2)]
    by (simp add: sequential_def) (simp add: write_data_def)
  show ?thesis
    using seq sequential_read [OF seq, of now] sequential_read [OF assms(1), of now]
      parse_append_frame [OF f(4) assms(2), of now]
    unfolding eq f(1) by simp
qed

lemma rotate_id: "wl_segment_id (rotate_if_needed n w) \<le> Suc (wl_segment_id w)"
  by (simp add: rotate_if_needed_def open_segment_def split: option.splits)

lemma write_data_id [simp]: "wl_segment_id (write_data d w) = wl_segment_id w"
  by (simp add: write_data_def)

lemma flush_batch_sequential:
  assumes "sequential w" "\<forall>e \<in> set es. encodable e" "wl_segment_id w + length es < 10 ^ 6"
  shows "\<exists>w'. flush_batch es w = (Inr (), w') \<and> sequential w' \<and>
    read_files now (wl_files w') = read_files now (wl_files w) @ map (read_back now) es \<and>
    wl_segment_id w' \<le> wl_segment_id w + length es"
  using assms
proof (induction es arbitrary: w)
  case (Cons e es)
  let ?r = "rotate_if_needed (length (frame e)) w"
  let ?w = "write_data (frame e) ?r"
  have r: "sequential ?r" "read_files now (wl_files ?r) = read_files now (wl_files w)"
    using sequential_rotate [of w "length (frame e)" now] Cons.prems by simp_all
  have w: "sequential ?w" "read_files now (wl_files ?w) = read_files now (wl_files w) @ [read_back now e]"
    using sequential_write_data [OF r(1), of e now] r(2) Cons.prems(2) by simp_all
  have id: "wl_segment_id ?w \<le> Suc (wl_segment_id w)" using rotate_id by simp
  have "wl_segment_id ?w + length es < 10 ^ 6" using id Cons.prems(3) by simp
  from Cons.IH [OF w(1) _ this] Cons.prems(2) obtain w' where
    "flush_batch es ?w = (Inr (), w')" "sequential w'"
    "read_files now (wl_files w') = read_files now (wl_files ?w) @ map (read_back now) es"
    "wl_segment_id w' \<le> wl_segment_id ?w + length es" by auto
  with w(2) id Cons.prems(2) show ?case by (simp del: length_frame)
qed simp

lemma flush_batch_buffer: "flush_batch es w = (x, w') \<Longrightarrow> wl_buffer w' = wl_buffer w"
  by (induction es arbitrary: w)
    (auto simp: write_data_def rotate_if_needed_def open_segment_def split: if_splits option.splits)

subsection \<open>The size of a segment\<close>

text \<open>A segment file stays within the configured size, unless it holds a single larger entry.\<close>

definition bounded_segments :: "wal \<Rightarrow> bool" where
  "bounded_segments w \<longleftrightarrow> (\<forall>d \<in> set (map snd (wl_files w)).
     length d \<le> wl_segment_bytes w \<or> (\<exists>e. d = frame e))"

lemma write_entry_bounded:
  assumes "sequential w" "bounded_segments w" "Suc (Suc (wl_segment_id w)) \<le> 10 ^ 6" "encodable e"
  shows "bounded_segments (write_entry e w) \<and> wl_segment_bytes (write_entry e w) = wl_segment_bytes w"
proof -
  let ?n = "length (frame e)"
  let ?r = "rotate_if_needed ?n w"
  have seq: "sequential ?r" using sequential_rotate [OF assms(1,3)] by blast
  have sb: "wl_segment_bytes ?r = wl_segment_bytes w"
    by (simp add: rotate_if_needed_def open_segment_def split: option.splits)
  from sequential_last [OF seq] obtain fs d where f: "wl_files ?r = fs @ [(segment_name (wl_segment_id ?r), d)]"
    "segment_name (wl_segment_id ?r) \<notin> fst ` set fs" "wl_segment_written ?r = length d" by blast
  have old: "bounded_segments ?r"
    using assms(2) by (auto simp: rotate_if_needed_def open_segment_def bounded_segments_def
        map_of_dict_put dict_put_fresh map_of_eq_None_iff split: option.splits)
  have room: "wl_segment_written ?r + ?n \<le> wl_segment_bytes ?r \<or> d = []"
  proof (cases "wl_segment_written w + ?n > wl_segment_bytes w")
    case True
    have "segment_name (Suc (wl_segment_id w)) \<notin> set (map segment_name [0..<Suc (wl_segment_id w)])"
      using distinct_segment_names [OF assms(3)] by (subst (asm) upt_Suc_append) (simp_all del: upt_Suc)
    then have "dict_get (wl_files w) (segment_name (Suc (wl_segment_id w))) = None"
      using assms(1) unfolding sequential_def map_of_eq_None_iff by (metis list.set_map)
    with True have "wl_segment_written ?r = 0"
      by (simp add: rotate_if_needed_def open_segment_def)
    with f(3) show ?thesis by simp
  next
    case False
    then show ?thesis by (simp add: rotate_if_needed_def)
  qed
  have get: "dict_get (wl_files ?r) (segment_name (wl_segment_id ?r)) = Some d"
    using f(1,2) map_of_eq_None_iff [of fs "segment_name (wl_segment_id ?r)"]
    by (simp add: map_add_def)
  have put: "dict_put (segment_name (wl_segment_id ?r)) v (wl_files ?r) =
      fs @ [(segment_name (wl_segment_id ?r), v)]" for v
    unfolding f(1) using f(2) by (induction fs) auto
  have files: "wl_files (write_entry e w) = fs @ [(segment_name (wl_segment_id ?r), d @ frame e)]"
    "wl_segment_bytes (write_entry e w) = wl_segment_bytes w"
    using get put sb by (simp_all add: write_entry_def write_data_def)
  have "length (d @ frame e) \<le> wl_segment_bytes w \<or> (\<exists>e'. d @ frame e = frame e')"
    using room f(3) sb by auto
  with old f(1) files sb show ?thesis by (auto simp: bounded_segments_def)
qed

lemma flush_batch_bounded:
  assumes "sequential w" "bounded_segments w" "\<forall>e \<in> set es. encodable e"
    "wl_segment_id w + length es < 10 ^ 6"
  shows "bounded_segments (snd (flush_batch es w)) \<and>
    wl_segment_bytes (snd (flush_batch es w)) = wl_segment_bytes w"
  using assms
proof (induction es arbitrary: w)
  case (Cons e es)
  have b: "bounded_segments (write_entry e w)" "wl_segment_bytes (write_entry e w) = wl_segment_bytes w"
    using write_entry_bounded [of w e] Cons.prems by simp_all
  have s: "sequential (write_entry e w)"
    using sequential_rotate [of w "length (frame e)"] Cons.prems
      sequential_write_data [of "rotate_if_needed (length (frame e)) w" e]
    by (simp add: write_entry_def)
  have "wl_segment_id (write_entry e w) \<le> Suc (wl_segment_id w)"
    using rotate_id by (simp add: write_entry_def)
  then have "wl_segment_id (write_entry e w) + length es < 10 ^ 6" using Cons.prems(4) by simp
  from Cons.IH [OF s b(1) _ this] Cons.prems(3) b(2) show ?case
    by (simp add: write_entry_def del: length_frame)
qed simp

subsection \<open>A reopened log\<close>

lemma reopen_read:
  assumes seq: "sequential w" and id: "1 \<le> wl_segment_id w" and e: "encodable e"
    and hd: "wl_files w = (segment_name 0, d0) # rest"
    and room: "length d0 + length (frame e) \<le> sb"
  shows "\<exists>w'. wal_flush (wal_append e (wal_open sb b (wl_files w))) = (Inr (), w') \<and>
    read_files now (wl_files w') =
      parse_entries now d0 @ [read_back now e] @ concat (map (parse_entries now) (map snd rest))"
proof -
  let ?w0 = "wal_append e (wal_open sb b (wl_files w))"
  have o0: "wal_open sb b ((segment_name 0, d0) # rest) = \<lparr>wl_segment_bytes = sb, wl_batch = b,
      wl_files = (segment_name 0, d0) # rest, wl_segment_id = 0, wl_segment_written = length d0,
      wl_buffer = []\<rparr>"
    by (simp add: wal_open_def open_segment_def)
  have wf0: "well_framed d0" using seq hd by (simp add: sequential_def)
  have files: "dict_put (segment_name 0) (d0 @ frame e) (wl_files w) = (segment_name 0, d0 @ frame e) # rest"
    by (simp add: hd)
  define w' where "w' = write_data (frame e) (?w0\<lparr>wl_buffer := []\<rparr>)"
  have fl: "wal_flush ?w0 = (Inr (), w')"
    using e room by (simp add: wal_flush_def wal_append_def hd o0 rotate_if_needed_def w'_def)
  have wf: "wl_files w' = (segment_name 0, d0 @ frame e) # rest"
    using files by (simp add: w'_def write_data_def wal_append_def hd o0)
  have seq': "sequential (w\<lparr>wl_files := wl_files w', wl_segment_written :=
      length (snd (last (wl_files w')))\<rparr>)"
    using seq hd well_framed_frame [OF wf0 e] unfolding wf sequential_def by simp
  have "read_files now (wl_files w') = concat (map (parse_entries now) (map snd (wl_files w')))"
    using sequential_read [OF seq', of now] by simp
  also have "\<dots> = parse_entries now d0 @ [read_back now e] @
      concat (map (parse_entries now) (map snd rest))"
    unfolding wf by (simp add: parse_append_frame [OF wf0 e])
  finally show ?thesis using fl by blast
qed

subsection \<open>Two threads\<close>

text \<open>
  The group commit thread and a client flush each take the whole buffer under the lock and write
  their batch outside it, entry by entry, so their writes interleave. The last field is the history
  of appended entries.
\<close>

record wal_sys =
  sy_wal :: wal
  sy_flusher :: "wal_entry list"
  sy_client :: "wal_entry list"
  sy_appended :: "wal_entry list"

inductive sys_step :: "wal_sys \<Rightarrow> wal_sys \<Rightarrow> bool" where
  sys_append: "encodable e \<Longrightarrow> sys_step s
     (s\<lparr>sy_wal := wal_append e (sy_wal s), sy_appended := sy_appended s @ [e]\<rparr>)"
| sys_flusher_take: "sy_flusher s = [] \<Longrightarrow> wl_buffer (sy_wal s) \<noteq> [] \<Longrightarrow> sys_step s
     (s\<lparr>sy_flusher := wl_buffer (sy_wal s), sy_wal := (sy_wal s)\<lparr>wl_buffer := []\<rparr>\<rparr>)"
| sys_flusher_write: "sy_flusher s = e # es \<Longrightarrow> sys_step s
     (s\<lparr>sy_flusher := es, sy_wal := write_entry e (sy_wal s)\<rparr>)"
| sys_client_take: "sy_client s = [] \<Longrightarrow> sys_step s
     (s\<lparr>sy_client := wl_buffer (sy_wal s), sy_wal := (sy_wal s)\<lparr>wl_buffer := []\<rparr>\<rparr>)"
| sys_client_write: "sy_client s = e # es \<Longrightarrow> sys_step s
     (s\<lparr>sy_client := es, sy_wal := write_entry e (sy_wal s)\<rparr>)"

inductive sys_reach :: "wal_sys \<Rightarrow> wal_sys \<Rightarrow> bool" for s0 :: wal_sys where
  sys_init: "sys_reach s0 s0"
| sys_next: "sys_reach s0 s \<Longrightarrow> sys_step s s' \<Longrightarrow> sys_reach s0 s'"

definition sys_start :: "wal \<Rightarrow> wal_sys" where
  "sys_start w = \<lparr>sy_wal = w, sy_flusher = [], sy_client = [], sy_appended = []\<rparr>"

lemma mset_concat_map: "mset (concat (map g xs)) = (\<Sum>x \<in># mset xs. mset (g x))"
  by (induction xs) simp_all

lemma mset_read_files:
  assumes "files_framed files"
  shows "mset (read_files now files) = mset (concat (map (parse_entries now) (map snd files)))"
proof -
  have d: "dict_ok files" "\<forall>f \<in> set (map fst files). wal_file_name f"
    using assms by (auto simp: files_framed_def)
  then have fl: "filter wal_file_name (map fst files) = map fst files"
    by (auto simp: filter_id_conv)
  let ?p = "\<lambda>f. parse_entries now (case dict_get files f of None \<Rightarrow> [] | Some d \<Rightarrow> d)"
  have perm: "mset (concat (map g xs)) = mset (concat (map g ys))" if "mset xs = mset ys"
    for g :: "string \<Rightarrow> wal_entry list" and xs ys
    using that by (simp add: mset_concat_map)
  have "mset (read_files now files) = mset (concat (map ?p (map fst files)))"
    unfolding read_files_def fl by (rule perm) simp
  also have "map ?p (map fst files) = map (parse_entries now) (map snd files)"
    unfolding map_map using d(1) by (intro map_cong) auto
  finally show ?thesis .
qed

lemma mset_concat_put:
  fixes g :: "byte list \<Rightarrow> wal_entry list"
  assumes "dict_ok files" "g [] = []"
  shows "mset (concat (map g (map snd (dict_put k v files)))) +
      mset (g (case dict_get files k of None \<Rightarrow> [] | Some d \<Rightarrow> d)) =
    mset (concat (map g (map snd files))) + mset (g v)"
  using assms
proof (induction files)
  case (Cons kd files)
  then show ?case by (cases kd) (auto simp: ac_simps)
qed simp

text \<open>The invariant of the two threads: every appended entry is in exactly one place.\<close>

definition conserved :: "nat \<Rightarrow> wal_sys \<Rightarrow> bool" where
  "conserved now s \<longleftrightarrow> files_framed (wl_files (sy_wal s)) \<and>
     (\<forall>e \<in> set (sy_flusher s @ sy_client s @ wl_buffer (sy_wal s)). encodable e) \<and>
     image_mset (read_back now) (mset (sy_appended s)) =
       mset (read_files now (wl_files (sy_wal s))) +
       image_mset (read_back now) (mset (sy_flusher s @ sy_client s @ wl_buffer (sy_wal s)))"

lemma rotate_files_framed:
  assumes "files_framed (wl_files w)"
  shows "files_framed (wl_files (rotate_if_needed n w)) \<and>
    mset (read_files now (wl_files (rotate_if_needed n w))) = mset (read_files now (wl_files w)) \<and>
    wl_buffer (rotate_if_needed n w) = wl_buffer w"
proof (cases "wl_segment_written w + n > wl_segment_bytes w \<and>
    dict_get (wl_files w) (segment_name (Suc (wl_segment_id w))) = None")
  case True
  let ?files = "dict_put (segment_name (Suc (wl_segment_id w))) [] (wl_files w)"
  have eq: "wl_files (rotate_if_needed n w) = ?files" "wl_buffer (rotate_if_needed n w) = wl_buffer w"
    using True by (simp_all add: rotate_if_needed_def open_segment_def)
  have fr: "files_framed ?files" using assms by (simp add: files_framed_put well_framed_nil)
  have "dict_ok (wl_files w)" using assms by (simp add: files_framed_def)
  from mset_concat_put [where g = "parse_entries now", OF this parse_nil,
      of "segment_name (Suc (wl_segment_id w))" "[]"]
  have "mset (read_files now ?files) = mset (read_files now (wl_files w))"
    using True by (simp add: mset_read_files [OF fr] mset_read_files [OF assms] parse_nil)
  with fr eq show ?thesis by simp
next
  case False
  with assms show ?thesis
    by (auto simp: rotate_if_needed_def open_segment_def split: option.splits)
qed

lemma write_entry_framed:
  assumes "files_framed (wl_files w)" "encodable e"
  shows "files_framed (wl_files (write_entry e w)) \<and>
    mset (read_files now (wl_files (write_entry e w))) =
      add_mset (read_back now e) (mset (read_files now (wl_files w))) \<and>
    wl_buffer (write_entry e w) = wl_buffer w"
proof -
  define r where "r = rotate_if_needed (length (frame e)) w"
  have r: "files_framed (wl_files r)"
    "mset (read_files now (wl_files r)) = mset (read_files now (wl_files w))"
    "wl_buffer r = wl_buffer w"
    using rotate_files_framed [OF assms(1)] by (simp_all add: r_def)
  define d where "d = (case dict_get (wl_files r) (segment_name (wl_segment_id r)) of
      None \<Rightarrow> [] | Some d \<Rightarrow> d)"
  have d: "well_framed d"
    using files_framed_get [OF r(1)] by (auto simp: d_def well_framed_nil split: option.splits)
  let ?files = "dict_put (segment_name (wl_segment_id r)) (d @ frame e) (wl_files r)"
  have eq: "wl_files (write_entry e w) = ?files" "wl_buffer (write_entry e w) = wl_buffer w"
    using r(3) by (simp_all add: write_entry_def write_data_def r_def d_def)
  have fr: "files_framed ?files"
    by (rule files_framed_put [OF r(1) well_framed_frame [OF d assms(2)]])
  have "dict_ok (wl_files r)" using r(1) by (simp add: files_framed_def)
  from mset_concat_put [where g = "parse_entries now", OF this parse_nil,
      of "segment_name (wl_segment_id r)" "d @ frame e", folded d_def]
  have "mset (read_files now ?files) = add_mset (read_back now e) (mset (read_files now (wl_files r)))"
    by (simp add: mset_read_files [OF fr] mset_read_files [OF r(1)]
        parse_append_frame [OF d assms(2)])
  with fr eq r(2) show ?thesis by simp
qed

lemma sys_step_conserved: "sys_step s s' \<Longrightarrow> conserved now s \<Longrightarrow> conserved now s'"
proof (induction rule: sys_step.induct)
  case (sys_flusher_write s e es)
  then show ?case
    using write_entry_framed [of "sy_wal s" e now] by (simp add: conserved_def)
next
  case (sys_client_write s e es)
  then show ?case
    using write_entry_framed [of "sy_wal s" e now] by (simp add: conserved_def)
qed (auto simp: conserved_def wal_append_def ac_simps)

lemma sys_reach_conserved: "sys_reach s0 s \<Longrightarrow> conserved now s0 \<Longrightarrow> conserved now s"
  by (induction rule: sys_reach.induct) (auto intro: sys_step_conserved)

subsection \<open>Properties\<close>

lemma fold_append: "fold wal_append es w = w\<lparr>wl_buffer := wl_buffer w @ es\<rparr>"
  by (induction es arbitrary: w) (simp_all add: wal_append_def)

lemma flush_appended:
  assumes "\<forall>e \<in> set es. encodable e" "length es < 10 ^ 6 - 1"
  shows "\<exists>w'. wal_flush (fold wal_append es (wal_open sb b [])) = (Inr (), w') \<and>
    read_files now (wl_files w') = map (read_back now) es \<and>
    (\<forall>d \<in> set (map snd (wl_files w')). length d \<le> sb \<or> (\<exists>e. d = frame e))"
proof -
  let ?w = "wal_open sb b []"
  have sq: "sequential ?w" by (rule sequential_open)
  have "wl_segment_id ?w = 0" "wl_buffer ?w = []" "bounded_segments ?w"
    "wl_segment_bytes ?w = sb" "read_files now (wl_files ?w) = []"
    using sequential_read [OF sequential_open, of now sb b]
    by (simp_all add: wal_open_def open_segment_def bounded_segments_def parse_nil)
  note w = sq this
  have "wl_segment_id ?w + length es < 10 ^ 6" using assms(2) w(2) by simp
  from flush_batch_sequential [OF w(1) assms(1) this, of now]
    flush_batch_bounded [OF w(1) w(4) assms(1) this]
  obtain w' where f: "flush_batch es ?w = (Inr (), w')"
    "read_files now (wl_files w') = map (read_back now) es" "bounded_segments w'"
    "wl_segment_bytes w' = sb" using w by auto
  have "fold wal_append es ?w = ?w\<lparr>wl_buffer := es\<rparr>" by (simp add: fold_append w(3))
  moreover have "wal_flush (?w\<lparr>wl_buffer := es\<rparr>) = (Inr (), w')"
  proof -
    have same: "?w\<lparr>wl_buffer := []\<rparr> = ?w" by (simp add: wal_open_def open_segment_def)
    have keep: "?w\<lparr>wl_buffer := es, wl_buffer := []\<rparr> = ?w" using same by simp
    have nil: "es = [] \<Longrightarrow> w' = ?w" using f(1) by simp
    show ?thesis
      using f(1) nil unfolding wal_flush_def Let_def keep by (cases "es = []") simp_all
  qed
  ultimately show ?thesis
    using f(2-4) by (auto simp: bounded_segments_def)
qed



text \<open>
  C25: reading survives a crash in the middle of a write and a corrupt payload: the first \<open>k\<close> bytes of
  a file of whole frames yield exactly the entries whose frames lie within them, for every \<open>k\<close>; and an
  entry whose payload was overwritten so that its checksum differs is skipped, the entries before
  and after it are kept.
\<close>

theorem wal_torn_and_corrupt:
  assumes "\<forall>e \<in> set (xs @ c # ys). encodable e"
  shows "parse_entries now (take k (concat (map frame (xs @ c # ys)))) =
      map (read_back now) (take (whole_frames k (xs @ c # ys)) (xs @ c # ys)) \<and>
    (length p = length (we_payload c) \<and> crc32 p \<noteq> crc32 (we_payload c) \<longrightarrow>
      parse_entries now (concat (map frame xs) @ corrupt_frame c p @ concat (map frame ys)) =
      map (read_back now) (xs @ ys))"
proof -
  have "parse_entries now (concat (map frame ys)) = map (read_back now) ys"
    using parse_frames [of ys now "[]"] assms by (simp add: parse_nil)
  then have "length p = length (we_payload c) \<and> crc32 p \<noteq> crc32 (we_payload c) \<longrightarrow>
      parse_entries now (concat (map frame xs) @ corrupt_frame c p @ concat (map frame ys)) =
      map (read_back now) (xs @ ys)"
    using assms by (simp add: parse_frames parse_corrupt)
  with parse_prefix [OF assms] show ?thesis by blast
qed

lemma wal_torn_and_corrupt_witness:
  "parse_entries 1 (take 20 (concat (map frame
     [\<lparr>we_payload = [7], we_timestamp = 5\<rparr>, \<lparr>we_payload = [8], we_timestamp = 6\<rparr>]))) =
   [\<lparr>we_payload = [7], we_timestamp = 5\<rparr>]"
proof -
  let ?a = "\<lparr>we_payload = [7], we_timestamp = 5\<rparr>" and ?c = "\<lparr>we_payload = [8], we_timestamp = 6\<rparr>"
  have "\<forall>e \<in> set ([?a] @ ?c # []). encodable e" by (simp add: encodable_def)
  from conjunct1 [OF wal_torn_and_corrupt [OF this, of 1 20]] show ?thesis
    by (simp add: header_size_def read_back_def new_entry_def)
qed



lemma demo_interleaving:
  assumes e: "encodable e1" "encodable e2"
    and sb: "length (frame e1) + length (frame e2) \<le> sb"
  shows "\<exists>s. sys_reach (sys_start (wal_open sb b [])) s \<and> sy_appended s = [e1] \<and>
      sy_flusher s = [e1] \<and> sy_client s = [] \<and> wl_buffer (sy_wal s) = [] \<and>
      sy_wal s = wal_open sb b []"
    "\<exists>s. sys_reach (sys_start (wal_open sb b [])) s \<and> sy_appended s = [e1, e2] \<and>
      sy_flusher s = [] \<and> sy_client s = [] \<and> wl_buffer (sy_wal s) = [] \<and>
      sy_wal s = write_entry e1 (write_entry e2 (wal_open sb b []))"
proof -
  let ?w = "wal_open sb b []"
  have buf: "wl_buffer ?w = []" by (simp add: wal_open_def open_segment_def)
  have upd: "?w\<lparr>wl_buffer := []\<rparr> = ?w" by (simp add: wal_open_def open_segment_def)
  define s1 where "s1 = \<lparr>sy_wal = ?w\<lparr>wl_buffer := [e1]\<rparr>, sy_flusher = [], sy_client = [], sy_appended = [e1]\<rparr>"
  define s2 where "s2 = \<lparr>sy_wal = ?w, sy_flusher = [e1], sy_client = [], sy_appended = [e1]\<rparr>"
  define s3 where "s3 = \<lparr>sy_wal = ?w\<lparr>wl_buffer := [e2]\<rparr>, sy_flusher = [e1], sy_client = [],
     sy_appended = [e1, e2]\<rparr>"
  define s4 where "s4 = \<lparr>sy_wal = ?w, sy_flusher = [e1], sy_client = [e2], sy_appended = [e1, e2]\<rparr>"
  define s5 where "s5 = \<lparr>sy_wal = write_entry e2 ?w, sy_flusher = [e1], sy_client = [],
     sy_appended = [e1, e2]\<rparr>"
  define s6 where "s6 = \<lparr>sy_wal = write_entry e1 (write_entry e2 ?w), sy_flusher = [], sy_client = [],
     sy_appended = [e1, e2]\<rparr>"
  have "sys_step (sys_start ?w) s1"
    using sys_append [OF e(1), of "sys_start ?w"] by (simp add: sys_start_def wal_append_def buf s1_def)
  moreover have "sys_step s1 s2"
    using sys_flusher_take [of s1] by (simp add: s1_def s2_def upd)
  moreover have "sys_step s2 s3"
    using sys_append [OF e(2), of s2] by (simp add: s2_def wal_append_def buf s3_def)
  moreover have "sys_step s3 s4"
    using sys_client_take [of s3] by (simp add: s3_def s4_def upd)
  moreover have "sys_step s4 s5"
    using sys_client_write [of s4 e2 "[]"] by (simp add: s4_def s5_def)
  moreover have "sys_step s5 s6"
    using sys_flusher_write [of s5 e1 "[]"] by (simp add: s5_def s6_def)
  ultimately have r: "sys_reach (sys_start ?w) s2" "sys_reach (sys_start ?w) s6"
    by (meson sys_init sys_next)+
  have b6: "wl_buffer (write_entry e1 (write_entry e2 ?w)) = []"
    using buf by (simp add: write_entry_def write_data_def rotate_if_needed_def open_segment_def
        split: option.splits)
  from r(1) buf show "\<exists>s. sys_reach (sys_start ?w) s \<and> sy_appended s = [e1] \<and>
      sy_flusher s = [e1] \<and> sy_client s = [] \<and> wl_buffer (sy_wal s) = [] \<and> sy_wal s = ?w"
    by (intro exI [of _ s2]) (simp add: s2_def)
  from r(2) b6 show "\<exists>s. sys_reach (sys_start ?w) s \<and> sy_appended s = [e1, e2] \<and>
      sy_flusher s = [] \<and> sy_client s = [] \<and> wl_buffer (sy_wal s) = [] \<and>
      sy_wal s = write_entry e1 (write_entry e2 ?w)"
    by (intro exI [of _ s6]) (simp add: s6_def)
qed

text \<open>
  What the interleavings do not keep. An entry can be appended and a flush can return without
  error while no file holds the entry, because the group commit thread took it and has not written
  it; and two entries can reach the log in the opposite of their append order, so that recovery,
  for which the last entry wins, restores the older write.
\<close>

theorem flush_neither_durable_nor_ordered:
  assumes "encodable e1" "encodable e2" "length (frame e1) + length (frame e2) \<le> sb"
  shows "(\<exists>s. sys_reach (sys_start (wal_open sb b [])) s \<and> sy_appended s = [e1] \<and>
      fst (wal_flush (sy_wal s)) = Inr () \<and>
      read_files now (wl_files (snd (wal_flush (sy_wal s)))) = []) \<and>
    (\<exists>s. sys_reach (sys_start (wal_open sb b [])) s \<and> sy_appended s = [e1, e2] \<and>
      sy_flusher s = [] \<and> sy_client s = [] \<and> wl_buffer (sy_wal s) = [] \<and>
      read_files now (wl_files (sy_wal s)) = [read_back now e2, read_back now e1])"
proof -
  let ?w = "wal_open sb b []"
  have sq: "sequential ?w" by (rule sequential_open)
  have "wl_segment_id ?w = 0" "wl_buffer ?w = []" "read_files now (wl_files ?w) = []"
    using sequential_read [OF sequential_open, of now sb b]
    by (simp_all add: wal_open_def open_segment_def parse_nil)
  note w = sq this
  have "wal_flush ?w = (Inr (), ?w\<lparr>wl_buffer := []\<rparr>)" using w(3) by (simp add: wal_flush_def)
  with demo_interleaving(1) [OF assms, of b] w(4)
  have one: "\<exists>s. sys_reach (sys_start ?w) s \<and> sy_appended s = [e1] \<and>
      fst (wal_flush (sy_wal s)) = Inr () \<and>
      read_files now (wl_files (snd (wal_flush (sy_wal s)))) = []"
    by (metis fst_conv snd_conv wal.select_convs(3) wal.surjective wal.update_convs(6))
  have es: "\<forall>e \<in> set [e2, e1]. encodable e" "wl_segment_id ?w + length [e2, e1] < 10 ^ 6"
    using assms w(2) by simp_all
  from flush_batch_sequential [OF w(1) es, of now] w(4)
  have "read_files now (wl_files (write_entry e1 (write_entry e2 ?w))) = [read_back now e2, read_back now e1]"
    using assms by (auto simp: write_entry_def)
  with demo_interleaving(2) [OF assms, of b]
  have two: "\<exists>s. sys_reach (sys_start ?w) s \<and> sy_appended s = [e1, e2] \<and>
      sy_flusher s = [] \<and> sy_client s = [] \<and> wl_buffer (sy_wal s) = [] \<and>
      read_files now (wl_files (sy_wal s)) = [read_back now e2, read_back now e1]"
    by metis
  from one two show ?thesis by blast
qed

lemma flush_neither_durable_nor_ordered_witness:
  "\<exists>s. sys_reach (sys_start (wal_open 100 10 [])) s \<and>
     sy_appended s = [\<lparr>we_payload = [1], we_timestamp = 1\<rparr>, \<lparr>we_payload = [2], we_timestamp = 2\<rparr>] \<and>
     read_files 3 (wl_files (sy_wal s)) =
       [\<lparr>we_payload = [2], we_timestamp = 2\<rparr>, \<lparr>we_payload = [1], we_timestamp = 1\<rparr>]"
proof -
  let ?a = "\<lparr>we_payload = [1], we_timestamp = 1\<rparr>" and ?b = "\<lparr>we_payload = [2], we_timestamp = 2\<rparr>"
  have "encodable ?a" "encodable ?b" "length (frame ?a) + length (frame ?b) \<le> 100"
    by (simp_all add: encodable_def header_size_def)
  from conjunct2 [OF flush_neither_durable_nor_ordered [OF this, of 10 3]] show ?thesis
    by (auto simp: read_back_def new_entry_def)
qed

text \<open>
  A reopened log starts again at segment zero: when the log had already rotated and segment zero
  has room, the first entry appended after the restart is read back before all entries of the later
  segments, although it is the newest.
\<close>

theorem reopened_log_reorders:
  assumes "sequential w" "1 \<le> wl_segment_id w" "encodable e"
    and "wl_files w = (segment_name 0, d0) # rest" "length d0 + length (frame e) \<le> sb"
  shows "\<exists>w'. read_all now (wal_append e (wal_open sb b (wl_files w))) =
    (Inr (parse_entries now d0 @ [read_back now e] @ concat (map (parse_entries now) (map snd rest))), w')"
proof -
  from reopen_read [OF assms, of b now] obtain w' where
    w': "wal_flush (wal_append e (wal_open sb b (wl_files w))) = (Inr (), w')"
    "read_files now (wl_files w') =
      parse_entries now d0 @ [read_back now e] @ concat (map (parse_entries now) (map snd rest))" by blast
  then show ?thesis by (simp add: read_all_def)
qed

lemma reopened_log_reorders_witness:
  "\<exists>w'. read_all 9 (wal_append \<lparr>we_payload = [3], we_timestamp = 3\<rparr> (wal_open 40 10
      [(segment_name 0, frame \<lparr>we_payload = [1], we_timestamp = 1\<rparr>),
       (segment_name 1, frame \<lparr>we_payload = [2], we_timestamp = 2\<rparr>)])) =
    (Inr [\<lparr>we_payload = [1], we_timestamp = 1\<rparr>, \<lparr>we_payload = [3], we_timestamp = 3\<rparr>,
          \<lparr>we_payload = [2], we_timestamp = 2\<rparr>], w')"
proof -
  let ?a = "\<lparr>we_payload = [1], we_timestamp = 1\<rparr>" and ?b = "\<lparr>we_payload = [2], we_timestamp = 2\<rparr>"
    and ?c = "\<lparr>we_payload = [3], we_timestamp = 3\<rparr>"
  let ?w = "\<lparr>wl_segment_bytes = 17, wl_batch = 10, wl_files = [(segment_name 0, frame ?a),
      (segment_name 1, frame ?b)], wl_segment_id = 1, wl_segment_written = 17, wl_buffer = []\<rparr>"
  have enc: "encodable ?a" "encodable ?b" "encodable ?c" by (simp_all add: encodable_def)
  have f: "well_framed (frame ?a)" "well_framed (frame ?b)"
    using well_framed_frame [OF well_framed_nil] enc by (metis append_Nil)+
  have seq: "sequential ?w" using f by (simp add: sequential_def header_size_def)
  have room: "length (frame ?a) + length (frame ?c) \<le> 40" by (simp add: header_size_def)
  have p: "parse_entries 9 (frame ?a) = [?a]" "parse_entries 9 (frame ?b) = [?b]"
    using parse_frame [OF enc(1), of 9 "[]"] parse_frame [OF enc(2), of 9 "[]"]
    by (simp_all add: parse_nil read_back_def new_entry_def)
  from reopened_log_reorders [OF seq _ enc(3) _ room, of "[(segment_name 1, frame ?b)]" 9 10] p
  show ?thesis by (simp add: read_back_def new_entry_def)
qed

end
