(* ===== verification/Recovery.thy ===== *)
theory Recovery
  imports Segment_Facts Wal_Facts
begin

text \<open>
  \<open>storage/recovery.py\<close>: at startup the SSTables and the write-ahead log are resolved into one
  logical state, in which the last logged operation on an id wins over everything before it.
\<close>

subsection \<open>Logged operations\<close>

datatype wal_op = Upsert vector_record | Delete string

fun op_id :: "wal_op \<Rightarrow> string" where
  "op_id (Upsert r) = vr_id r"
| "op_id (Delete i) = i"

definition validate_op :: "codec \<Rightarrow> json \<Rightarrow> wal_op option" where
  "validate_op cd j = (case cd_validate cd j of Inl e \<Rightarrow> None | Inr r \<Rightarrow> Some (Upsert r))"

text \<open>\<open>_parse_payload\<close>: the delete and upsert envelopes and the bare record of a plain upsert.\<close>

definition parse_payload :: "codec \<Rightarrow> byte list \<Rightarrow> wal_op option" where
  "parse_payload cd payload =
     (case cd_loads cd payload of
        Inr (JObj kvs) \<Rightarrow>
          (if map_of kvs ''__op'' = Some (JStr ''delete'') then
             (case map_of kvs ''id'' of
                Some (JStr i) \<Rightarrow> if i \<noteq> [] then Some (Delete i) else None
              | _ \<Rightarrow> None)
           else if map_of kvs ''__op'' = Some (JStr ''upsert'') then
             (case map_of kvs ''record'' of
                Some (JObj rec) \<Rightarrow> validate_op cd (JObj rec)
              | _ \<Rightarrow> None)
           else validate_op cd (JObj kvs))
      | _ \<Rightarrow> None)"

text \<open>The payloads the program writes.\<close>

definition delete_envelope :: "string \<Rightarrow> json" where
  "delete_envelope i = JObj [(''__op'', JStr ''delete''), (''id'', JStr i)]"

definition upsert_envelope :: "json \<Rightarrow> json" where
  "upsert_envelope rd = JObj [(''__op'', JStr ''upsert''), (''record'', rd)]"

fun op_payload :: "codec \<Rightarrow> wal_op \<Rightarrow> byte list" where
  "op_payload cd (Upsert r) = encode (cd_dump_json cd r)"
| "op_payload cd (Delete i) = cd_dumps cd (delete_envelope i)"

text \<open>The codec reads back the payload of an operation.\<close>

fun op_codec :: "codec \<Rightarrow> wal_op \<Rightarrow> bool" where
  "op_codec cd (Upsert r) =
     (case cd_loads cd (encode (cd_dump_json cd r)) of
        Inr (JObj kvs) \<Rightarrow> map_of kvs ''__op'' = None \<and> cd_validate cd (JObj kvs) = Inr r
      | _ \<Rightarrow> False)"
| "op_codec cd (Delete i) =
     (i \<noteq> [] \<and> cd_loads cd (cd_dumps cd (delete_envelope i)) = Inr (delete_envelope i))"

definition envelope_codec :: "codec \<Rightarrow> vector_record \<Rightarrow> bool" where
  "envelope_codec cd r =
     (case cd_loads cd (cd_dumps cd (upsert_envelope (cd_dump cd r))) of
        Inr (JObj kvs) \<Rightarrow> map_of kvs ''__op'' = Some (JStr ''upsert'') \<and>
          (case map_of kvs ''record'' of
             Some (JObj rec) \<Rightarrow> cd_validate cd (JObj rec) = Inr r
           | _ \<Rightarrow> False)
      | _ \<Rightarrow> False)"

lemma parse_op_payload: "op_codec cd p \<Longrightarrow> parse_payload cd (op_payload cd p) = Some p"
  by (cases p) (auto simp: parse_payload_def validate_op_def delete_envelope_def
      split: sum.splits json.splits)

lemma parse_envelope:
  assumes "envelope_codec cd r"
  shows "parse_payload cd (cd_dumps cd (upsert_envelope (cd_dump cd r))) = Some (Upsert r)"
proof -
  from assms obtain kvs where l: "cd_loads cd (cd_dumps cd (upsert_envelope (cd_dump cd r))) = Inr (JObj kvs)"
    by (simp add: envelope_codec_def split: sum.split_asm json.split_asm)
  from assms obtain rec where "map_of kvs ''record'' = Some (JObj rec)" "cd_validate cd (JObj rec) = Inr r"
    "map_of kvs ''__op'' = Some (JStr ''upsert'')"
    by (simp add: envelope_codec_def l split: option.split_asm json.split_asm)
  with l show ?thesis by (simp add: parse_payload_def validate_op_def)
qed

subsection \<open>Recovery\<close>

record recovery_result =
  rr_records :: "vector_record list"
  rr_deleted_ids :: "string list"
  rr_recovered_from_wal :: int
  rr_wal_entries_read :: int

text \<open>The loop over the log; the tombstone set is a list without repetitions.\<close>

fun apply_op :: "wal_op \<Rightarrow> memtable \<times> string list \<Rightarrow> memtable \<times> string list" where
  "apply_op (Delete i) (records, tombstones) = (dict_pop i records, List.insert i tombstones)"
| "apply_op (Upsert r) (records, tombstones) =
     (dict_put (vr_id r) r records, removeAll (vr_id r) tombstones)"

definition apply_entry ::
    "codec \<Rightarrow> wal_entry \<Rightarrow> memtable \<times> string list \<Rightarrow> memtable \<times> string list" where
  "apply_entry cd e st =
     (case parse_payload cd (we_payload e) of None \<Rightarrow> st | Some p \<Rightarrow> apply_op p st)"

definition same_stamp :: "vector_record \<Rightarrow> vector_record \<Rightarrow> bool" where
  "same_stamp a b = (vr_version a = vr_version b \<and> vr_checksum a = vr_checksum b)"

definition not_durable :: "memtable \<Rightarrow> string \<times> vector_record \<Rightarrow> bool" where
  "not_durable sst kr =
     (case dict_get sst (fst kr) of None \<Rightarrow> True | Some cached \<Rightarrow> \<not> same_stamp cached (snd kr))"

definition recover ::
    "codec \<Rightarrow> nat \<Rightarrow> wal \<times> segments \<Rightarrow> recovery_result res \<times> wal \<times> segments" where
  "recover cd now = (\<lambda>(w, sg).
     case durable_records_by_id cd sg of
       Inl e \<Rightarrow> (Inl e, w, sg)
     | Inr sst \<Rightarrow>
         (case read_all now w of
            (Inl e, w1) \<Rightarrow> (Inl e, w1, sg)
          | (Inr entries, w1) \<Rightarrow>
              (let (records, tombstones) = fold (apply_entry cd) entries (sst, []);
                   recovered = map snd (filter (not_durable sst) records)
               in (Inr \<lparr>rr_records = dict_values records, rr_deleted_ids = sort tombstones,
                        rr_recovered_from_wal = int (length recovered),
                        rr_wal_entries_read = int (length entries)\<rparr>,
                   w1, sg\<lparr>sg_memtable := put_all recovered (sg_memtable sg)\<rparr>))))"

subsection \<open>The abstract log\<close>

text \<open>The meaning of a log over a durable state: per id the last operation decides.\<close>

definition last_op :: "wal_op list \<Rightarrow> string \<Rightarrow> wal_op option" where
  "last_op ops i = find (\<lambda>p. op_id p = i) (rev ops)"

definition logical :: "(string \<Rightarrow> vector_record option) \<Rightarrow> wal_op list \<Rightarrow> string \<Rightarrow> vector_record option"
where
  "logical d ops i =
     (case last_op ops i of None \<Rightarrow> d i | Some (Upsert r) \<Rightarrow> Some r | Some (Delete _) \<Rightarrow> None)"

definition tombstoned :: "wal_op list \<Rightarrow> string \<Rightarrow> bool" where
  "tombstoned ops i = (last_op ops i = Some (Delete i))"

definition log_ops :: "codec \<Rightarrow> wal_entry list \<Rightarrow> wal_op list" where
  "log_ops cd es = List.map_filter (\<lambda>e. parse_payload cd (we_payload e)) es"

lemma last_op_snoc: "last_op (ops @ [p]) i = (if op_id p = i then Some p else last_op ops i)"
  by (simp add: last_op_def)

lemma last_op_nil [simp]: "last_op [] i = None"
  by (simp add: last_op_def)

lemma last_op_id: "last_op ops i = Some p \<Longrightarrow> op_id p = i"
  by (auto simp: last_op_def find_Some_iff)

lemma tombstoned_logical: "tombstoned ops i \<Longrightarrow> logical d ops i = None"
  by (simp add: tombstoned_def logical_def)

lemma logical_key:
  "logical d ops i = Some r \<Longrightarrow> (\<And>r. d i = Some r \<Longrightarrow> vr_id r = i) \<Longrightarrow> vr_id r = i"
  by (auto simp: logical_def split: option.splits wal_op.splits dest: last_op_id)

lemma apply_ops:
  assumes "fold apply_op ops (d, []) = (records, tombs)" "keyed_dict vr_id d"
  shows "keyed_dict vr_id records \<and> map_of records = logical (map_of d) ops \<and>
    distinct tombs \<and> (\<forall>i. i \<in> set tombs \<longleftrightarrow> tombstoned ops i)"
  using assms
proof (induction ops arbitrary: records tombs rule: rev_induct)
  case Nil
  then show ?case by (auto simp: logical_def tombstoned_def fun_eq_iff)
next
  case (snoc p ops)
  obtain rs ts where f: "fold apply_op ops (d, []) = (rs, ts)" by fastforce
  from snoc.IH [OF f snoc.prems(2)]
  have IH: "keyed_dict vr_id rs" "map_of rs = logical (map_of d) ops" "distinct ts"
    "\<And>i. i \<in> set ts \<longleftrightarrow> tombstoned ops i" by auto
  show ?case
  proof (cases p)
    case (Upsert r)
    then have res: "records = dict_put (vr_id r) r rs" "tombs = removeAll (vr_id r) ts"
      using snoc.prems(1) f by simp_all
    have "map_of records = logical (map_of d) (ops @ [p])"
      by (rule ext) (simp add: res store_simps IH(2) logical_def last_op_snoc Upsert)
    moreover have "\<forall>i. i \<in> set tombs \<longleftrightarrow> tombstoned (ops @ [p]) i"
      using IH(4) by (auto simp: res tombstoned_def last_op_snoc Upsert)
    ultimately show ?thesis using IH(1,3) by (simp add: res keyed_dict_put distinct_removeAll)
  next
    case (Delete i)
    then have res: "records = dict_pop i rs" "tombs = List.insert i ts"
      using snoc.prems(1) f by simp_all
    have "map_of records = logical (map_of d) (ops @ [p])"
      by (rule ext) (simp add: res store_simps IH(2) logical_def last_op_snoc Delete)
    moreover have "\<forall>j. j \<in> set tombs \<longleftrightarrow> tombstoned (ops @ [p]) j"
      using IH(4) by (auto simp: res tombstoned_def last_op_snoc Delete)
    ultimately show ?thesis using IH(1,3) by (simp add: res keyed_dict_pop)
  qed
qed

lemma fold_entries: "fold (apply_entry cd) es st = fold apply_op (log_ops cd es) st"
  by (induction es arbitrary: st)
    (simp_all add: apply_entry_def log_ops_def List.map_filter_simps split: option.splits)

lemma recover_eq:
  assumes "durable_records_by_id cd sg = Inr d" "read_all now w = (Inr es, w1)"
  shows "\<exists>records tombs. keyed_dict vr_id records \<and>
    map_of records = logical (map_of d) (log_ops cd es) \<and> distinct tombs \<and>
    (\<forall>i. i \<in> set tombs \<longleftrightarrow> tombstoned (log_ops cd es) i) \<and>
    recover cd now (w, sg) =
      (Inr \<lparr>rr_records = dict_values records, rr_deleted_ids = sort tombs,
            rr_recovered_from_wal = int (length (filter (not_durable d) records)),
            rr_wal_entries_read = int (length es)\<rparr>, w1,
       sg\<lparr>sg_memtable := put_all (map snd (filter (not_durable d) records)) (sg_memtable sg)\<rparr>)"
proof -
  obtain records tombs where f: "fold apply_op (log_ops cd es) (d, []) = (records, tombs)" by fastforce
  from apply_ops [OF this durable_keyed [OF assms(1)]] f show ?thesis
    by (intro exI [of _ records] exI [of _ tombs]) (simp add: recover_def assms fold_entries)
qed

subsection \<open>Reopening the log\<close>

text \<open>Reading does not depend on the clock, but for the time stamps it may fill in.\<close>

lemma parse_payloads:
  "map we_payload (parse_entries now d) = map we_payload (parse_entries now' d)"
proof (induction now d rule: parse_entries.induct)
  case (1 now d)
  show ?case
    unfolding parse_entries.simps [of now d] parse_entries.simps [of now' d] Let_def
    using 1 by (auto simp: new_entry_def Let_def)
qed

lemma read_payloads:
  "map we_payload (read_files now fs) = map we_payload (read_files now' fs)"
proof -
  have "map we_payload (concat (map (\<lambda>f. parse_entries now (g f)) xs)) =
      map we_payload (concat (map (\<lambda>f. parse_entries now' (g f)) xs))" for g :: "string \<Rightarrow> byte list" and xs
    by (induction xs) (simp_all add: parse_payloads [of now _ now'])
  then show ?thesis by (simp add: read_files_def)
qed

lemma log_ops_payloads: "map we_payload es = map we_payload es' \<Longrightarrow> log_ops cd es = log_ops cd es'"
proof (induction es arbitrary: es')
  case (Cons e es)
  then obtain e' es'' where "es' = e' # es''" "we_payload e = we_payload e'"
    "map we_payload es = map we_payload es''" by (cases es') auto
  with Cons.IH [of es''] show ?case
    by (simp add: log_ops_def List.map_filter_simps split: option.splits)
qed simp

lemma insort_concat: "f x = [] \<Longrightarrow> concat (map f (insort x ys)) = concat (map f ys)"
  by (induction ys) auto

lemma sort_snoc: "sort (xs @ [x]) = insort x (sort xs)" for x :: string
  by (rule properties_for_sort) (simp_all add: sorted_insort)

lemma wal_open_files:
  "wl_files (wal_open sb b fs) =
     (if segment_name 0 \<in> fst ` set fs then fs else fs @ [(segment_name 0, [])])"
proof (cases "map_of fs (segment_name 0)")
  case None
  then have n: "segment_name 0 \<notin> fst ` set fs" by (simp add: map_of_eq_None_iff)
  with None show ?thesis by (simp add: wal_open_def open_segment_def dict_put_fresh)
next
  case (Some d)
  then have "segment_name 0 \<in> fst ` set fs" by (force dest: map_of_SomeD)
  with Some show ?thesis by (simp add: wal_open_def open_segment_def)
qed

lemma reopen_read_files: "read_files now (wl_files (wal_open sb b fs)) = read_files now fs"
proof (cases "segment_name 0 \<in> fst ` set fs")
  case False
  let ?g = "\<lambda>f. parse_entries now (case map_of (fs @ [(segment_name 0, [])]) f of None \<Rightarrow> [] | Some d \<Rightarrow> d)"
  let ?h = "\<lambda>f. parse_entries now (case map_of fs f of None \<Rightarrow> [] | Some d \<Rightarrow> d)"
  have "map_of fs (segment_name 0) = None" using False by (simp add: map_of_eq_None_iff)
  then have g: "?g (segment_name 0) = []" by (simp add: parse_nil map_add_def)
  have "?g f = ?h f" for f
    by (auto simp: map_add_def parse_nil split: option.splits)
  then have gh: "?g = ?h" by (rule ext)
  have "sort (filter wal_file_name (map fst (fs @ [(segment_name 0, [])]))) =
      insort (segment_name 0) (sort (filter wal_file_name (map fst fs)))"
    by (simp add: segment_name_ok sort_snoc)
  with False show ?thesis
    unfolding read_files_def wal_open_files using insort_concat [of ?g, OF g] gh by simp
qed (simp add: wal_open_files)

lemma wal_open_buffer [simp]: "wl_buffer (wal_open sb b fs) = []"
  by (simp add: wal_open_def open_segment_def split: option.splits)

lemma read_reopened:
  "\<exists>w1. read_all now (wal_open sb b fs) = (Inr (read_files now fs), w1) \<and>
     wl_files w1 = wl_files (wal_open sb b fs)"
  by (simp add: read_all_def wal_flush_def reopen_read_files)

lemma log_ops_read_back:
  assumes "\<forall>p \<in> set ops. op_codec cd p" "map we_payload es = map (op_payload cd) ops"
  shows "log_ops cd (map (read_back now) es) = ops"
  using assms
proof (induction es arbitrary: ops)
  case (Cons e es)
  then obtain p ps where "ops = p # ps" by (cases ops) auto
  with Cons show ?case
    by (simp add: log_ops_def List.map_filter_simps parse_op_payload read_back_def new_entry_def)
qed (simp add: log_ops_def List.map_filter_simps)

subsection \<open>What a recovered store serves\<close>

lemma get_put_all_fresh:
  assumes "keyed_dict vr_id records" "P = not_durable d"
  shows "map_of (put_all (map snd (filter P records)) []) i =
    (case map_of records i of None \<Rightarrow> None | Some r \<Rightarrow> if P (i, r) then Some r else None)"
proof -
  have k: "keyed_dict vr_id (filter P records)"
    using assms(1) by (auto simp: keyed_dict_def distinct_map_filter)
  then have "map (\<lambda>r. (vr_id r, r)) (dict_values (filter P records)) = filter P records"
    by (rule keyed_dict_pairs)
  then have "map_of (rev (map (\<lambda>r. (vr_id r, r)) (dict_values (filter P records)))) =
      map_of (filter P records)"
    using k by (metis keyed_dict_def map_of_rev_ok)
  then have "map_of (put_all (map snd (filter P records)) []) i = map_of (filter P records) i"
    by (simp add: map_of_put_all)
  moreover have "map_of (filter P records) i =
      (case map_of records i of None \<Rightarrow> None | Some r \<Rightarrow> if P (i, r) then Some r else None)"
  proof (cases "map_of (filter P records) i")
    case None
    then show ?thesis
      using map_of_filter_some [of records P i] assms(1)
      by (auto simp: keyed_dict_def split: option.splits)
  next
    case (Some r)
    then show ?thesis
      using iffD1 [OF map_of_filter_some [of records P i r] Some] assms(1)
      by (simp only: keyed_dict_def) simp
  qed
  ultimately show ?thesis by simp
qed

lemma seg_get_recovered:
  assumes "seg_inv cd sg" "durable_records_by_id cd sg = Inr d" "sg_memtable sg = []"
    and "keyed_dict vr_id records"
  shows "seg_get cd (sg\<lparr>sg_memtable := put_all (map snd (filter (not_durable d) records)) []\<rparr>) i =
    Inr (case map_of records i of
        None \<Rightarrow> map_of d i
      | Some r \<Rightarrow> (case map_of d i of None \<Rightarrow> Some r
          | Some cached \<Rightarrow> if same_stamp cached r then Some cached else Some r))"
proof -
  let ?sg = "sg\<lparr>sg_memtable := put_all (map snd (filter (not_durable d) records)) []\<rparr>"
  have sc: "\<And>p. sst_scan cd ?sg p = sst_scan cd sg p" by (simp add: frame_simps)
  have good: "\<forall>p \<in> set (sg_sstables sg). sst_good cd ?sg p"
    using assms(1) by (simp add: seg_inv_def sst_good_def sc)
  have dl: "durable_loop cd ?sg [] (sg_sstables sg) = Inr d"
    using assms(2) by (simp add: durable_records_by_id_def frame_simps)
  have "get_loop cd ?sg i (rev (sg_sstables sg)) = Inr (map_of d i)"
    by (rule get_loop_durable [OF good dl])
  then show ?thesis
    using get_put_all_fresh [OF assms(4) refl, of d i]
    by (simp add: seg_get_def mem_get_def not_durable_def split: option.splits)
qed

subsection \<open>Properties\<close>

lemma map_of_ids: "keyed_dict vr_id d \<Longrightarrow> map_of (map (\<lambda>r. (vr_id r, r)) (dict_values d)) = map_of d"
  by (simp only: keyed_dict_pairs)

text \<open>
  C22: recovery resolves the SSTables and the log into the last state written: per id the last logged
  operation decides, an upsert giving its record and a delete removing it, and ids the log does not
  mention keep their SSTable record; the deleted ids are exactly those whose last operation is a
  delete, no recovered record has one of them, and no file of the store is changed.
\<close>

theorem recovery_last_write_wins:
  assumes "durable_records_by_id cd sg = Inr d" "read_all now w = (Inr es, w1)"
  shows "\<exists>res sg1. recover cd now (w, sg) = (Inr res, w1, sg1) \<and>
    map_of (map (\<lambda>r. (vr_id r, r)) (rr_records res)) = logical (map_of d) (log_ops cd es) \<and>
    distinct (map vr_id (rr_records res)) \<and>
    set (rr_deleted_ids res) = {i. tombstoned (log_ops cd es) i} \<and>
    set (map vr_id (rr_records res)) \<inter> set (rr_deleted_ids res) = {} \<and>
    rr_wal_entries_read res = int (length es) \<and>
    sg1 = sg\<lparr>sg_memtable := sg_memtable sg1\<rparr>"
proof -
  from recover_eq [OF assms] obtain records tombs where r: "keyed_dict vr_id records"
    "map_of records = logical (map_of d) (log_ops cd es)"
    "\<And>i. i \<in> set tombs \<longleftrightarrow> tombstoned (log_ops cd es) i"
    and eq: "recover cd now (w, sg) =
      (Inr \<lparr>rr_records = dict_values records, rr_deleted_ids = sort tombs,
            rr_recovered_from_wal = int (length (filter (not_durable d) records)),
            rr_wal_entries_read = int (length es)\<rparr>, w1,
       sg\<lparr>sg_memtable := put_all (map snd (filter (not_durable d) records)) (sg_memtable sg)\<rparr>)"
    by metis
  have ids: "map vr_id (dict_values records) = map fst records"
    using r(1) by (auto simp: keyed_dict_def)
  have "i \<notin> set tombs" if "i \<in> set (map fst records)" for i
    using that r(2,3) tombstoned_logical [of "log_ops cd es" i "map_of d"]
    by (metis map_of_eq_None_iff list.set_map)
  then have "set (map vr_id (dict_values records)) \<inter> set tombs = {}"
    unfolding ids by blast
  moreover have "distinct (map vr_id (dict_values records))"
    using r(1) unfolding ids keyed_dict_def by simp
  moreover have "set tombs = {i. tombstoned (log_ops cd es) i}" using r(3) by auto
  ultimately show ?thesis
    using map_of_ids [OF r(1)] r(2) by (simp add: eq image_image)
qed

text \<open>
  What a restarted shard serves from its store: a live id is answered with its logical record,
  except that when an SSTable holds a record of the same version and checksum that one is served; a
  deleted id is still answered with its SSTable record. As the checksum covers the vector only and
  upserts write version 1, an update of the metadata alone is thereby lost to lookups by a restart.
\<close>

theorem recovered_store_serves:
  assumes "seg_inv cd sg" "sg_memtable sg = []" "durable_records_by_id cd sg = Inr d"
    and "read_all now w = (Inr es, w1)"
  shows "\<exists>res sg1. recover cd now (w, sg) = (Inr res, w1, sg1) \<and>
    (\<forall>i. seg_get cd sg1 i = Inr
      (case (logical (map_of d) (log_ops cd es) i, map_of d i) of
         (None, cached) \<Rightarrow> cached
       | (Some r, None) \<Rightarrow> Some r
       | (Some r, Some cached) \<Rightarrow>
           if vr_version cached = vr_version r \<and> vr_checksum cached = vr_checksum r
           then Some cached else Some r))"
proof -
  from recover_eq [OF assms(3,4)] obtain records tombs where r: "keyed_dict vr_id records"
    "map_of records = logical (map_of d) (log_ops cd es)"
    and eq: "recover cd now (w, sg) =
      (Inr \<lparr>rr_records = dict_values records, rr_deleted_ids = sort tombs,
            rr_recovered_from_wal = int (length (filter (not_durable d) records)),
            rr_wal_entries_read = int (length es)\<rparr>, w1,
       sg\<lparr>sg_memtable := put_all (map snd (filter (not_durable d) records)) (sg_memtable sg)\<rparr>)"
    by metis
  show ?thesis
    using seg_get_recovered [OF assms(1,3,2) r(1)]
    by (simp add: eq assms(2) r(2) same_stamp_def split: option.splits)
qed

text \<open>
  Recovery is repeatable: after it, however the process restarts and whatever the clock shows,
  recovering again from the same files gives the same records and the same deleted ids.
\<close>

theorem recovery_repeatable:
  assumes "recover cd now (wal_open sb b fs, seg_open th hot cold) = (Inr res, w1, sg1)"
  shows "\<exists>res' w2 sg2.
    recover cd now' (wal_open sb' b' (wl_files w1), seg_open th (sg_hot sg1) (sg_cold sg1)) =
      (Inr res', w2, sg2) \<and>
    map_of (map (\<lambda>r. (vr_id r, r)) (rr_records res')) = map_of (map (\<lambda>r. (vr_id r, r)) (rr_records res)) \<and>
    rr_deleted_ids res' = rr_deleted_ids res"
proof -
  let ?w = "wal_open sb b fs" and ?sg = "seg_open th hot cold"
  obtain d where d: "durable_records_by_id cd ?sg = Inr d"
    using assms by (auto simp: recover_def split: sum.splits)
  obtain w1' where read: "read_all now ?w = (Inr (read_files now fs), w1')"
    and files: "wl_files w1' = wl_files ?w" using read_reopened by blast
  from recover_eq [OF d read] obtain records tombs where r: "keyed_dict vr_id records"
      "map_of records = logical (map_of d) (log_ops cd (read_files now fs))" "distinct tombs"
      "\<And>i. i \<in> set tombs \<longleftrightarrow> tombstoned (log_ops cd (read_files now fs)) i"
      "w1 = w1'" "res = \<lparr>rr_records = dict_values records, rr_deleted_ids = sort tombs,
            rr_recovered_from_wal = int (length (filter (not_durable d) records)),
            rr_wal_entries_read = int (length (read_files now fs))\<rparr>"
      "sg_hot sg1 = hot" "sg_cold sg1 = cold"
    using assms by (auto simp: seg_open_def)
  let ?w' = "wal_open sb' b' (wl_files w1)"
  obtain w2 where read': "read_all now' ?w' = (Inr (read_files now' (wl_files w1)), w2)"
    using read_reopened by blast
  have "map we_payload (read_files now' (wl_files w1)) = map we_payload (read_files now fs)"
    using read_payloads [of now' "wl_files w1" now] by (simp add: r(5) files reopen_read_files)
  then have ops: "log_ops cd (read_files now' (wl_files w1)) = log_ops cd (read_files now fs)"
    by (rule log_ops_payloads)
  have d': "durable_records_by_id cd (seg_open th (sg_hot sg1) (sg_cold sg1)) = Inr d"
    using d by (simp add: r(7,8))
  from recover_eq [OF d' read'] obtain records' tombs' res' sg2 where r': "keyed_dict vr_id records'"
      "map_of records' = logical (map_of d) (log_ops cd (read_files now fs))" "distinct tombs'"
      "\<And>i. i \<in> set tombs' \<longleftrightarrow> tombstoned (log_ops cd (read_files now fs)) i"
      "recover cd now' (?w', seg_open th (sg_hot sg1) (sg_cold sg1)) = (Inr res', w2, sg2)"
      "rr_records res' = dict_values records'" "rr_deleted_ids res' = sort tombs'"
    unfolding ops by fastforce
  have "set tombs = set tombs'" using r(4) r'(4) by auto
  then have "sort tombs' = sort tombs"
    using r(3) r'(3) by (metis set_eq_iff_mset_eq_distinct properties_for_sort mset_sort sorted_sort)
  then show ?thesis
    using r' r map_of_ids [OF r(1)] map_of_ids [OF r'(1)] by simp
qed


lemma demo_op_codec:
  assumes "\<forall>c \<in> set (i @ src). c \<noteq> CHR '':''" "i \<noteq> []" "hd i \<noteq> CHR ''-''" "hd i \<noteq> CHR ''+''"
  shows "op_codec demo_codec (Upsert (demo_record i src))" "op_codec demo_codec (Delete i)"
proof -
  obtain c cs where i: "i = c # cs" using assms(2) by (cases i) auto
  have tw: "takeWhile (\<lambda>c. c \<noteq> CHR '':'') (i @ CHR '':'' # src) = i"
    "dropWhile (\<lambda>c. c \<noteq> CHR '':'') (i @ CHR '':'' # src) = CHR '':'' # src"
    using assms(1) by (auto simp: takeWhile_append dropWhile_append)
  have p: "demo_parse (i @ CHR '':'' # src) = (i, src)" by (simp add: demo_parse_def tw)
  have "demo_loads (i @ CHR '':'' # src) = Inr (demo_obj i src)"
    using assms(3,4) p by (simp add: i)
  then show "op_codec demo_codec (Upsert (demo_record i src))"
    by (simp add: demo_codec_def demo_record_def demo_obj_def)
  show "op_codec demo_codec (Delete i)"
    using assms(2) by (simp add: demo_codec_def delete_envelope_def)
qed

text \<open>The log of the witnesses: two writes of one id and a delete of another.\<close>

definition demo_ops :: "wal_op list" where
  "demo_ops = [Upsert (demo_record ''a'' ''old''), Upsert (demo_record ''b'' ''x''),
     Upsert (demo_record ''a'' ''new''), Delete ''b'']"

definition demo_entries :: "wal_entry list" where
  "demo_entries = map (\<lambda>p. new_entry 7 (op_payload demo_codec p) 7) demo_ops"

lemma demo_entries:
  "\<forall>p \<in> set demo_ops. op_codec demo_codec p"
  "map we_payload demo_entries = map (op_payload demo_codec) demo_ops"
  "\<forall>e \<in> set demo_entries. encodable e" "length demo_entries < 10 ^ 6 - 1"
proof -
  show "\<forall>p \<in> set demo_ops. op_codec demo_codec p"
    using demo_op_codec(1) [of "''a''" "''old''"] demo_op_codec(1) [of "''a''" "''new''"]
      demo_op_codec(1) [of "''b''" "''x''"] demo_op_codec(2) [of "''b''" "''x''"]
    by (simp add: demo_ops_def del: op_codec.simps)
  show "map we_payload demo_entries = map (op_payload demo_codec) demo_ops"
    by (simp add: demo_entries_def new_entry_def o_def)
  show "\<forall>e \<in> set demo_entries. encodable e"
    by (simp add: demo_entries_def demo_ops_def encodable_def new_entry_def demo_codec_def
        demo_record_def encode_def delete_envelope_def)
  show "length demo_entries < 10 ^ 6 - 1"
    by (simp add: demo_entries_def demo_ops_def)
qed


subsection \<open>Concrete restarts\<close>

definition demo_segments :: segments where
  "demo_segments = seg_open 10 [(sst_name 1 7, sst_file demo_codec [demo_record ''a'' ''old''])] None"

lemma demo_segments:
  "seg_inv demo_codec demo_segments" "sg_memtable demo_segments = []"
  "durable_records_by_id demo_codec demo_segments = Inr [(''a'', demo_record ''a'' ''old'')]"
proof -
  have "line_codec demo_codec (demo_record ''a'' ''old'')"
    by (rule demo_line_codec) (auto simp: is_space_def)
  then have f: "scan_lines demo_codec (file_lines (sst_file demo_codec [demo_record ''a'' ''old''])) =
      Inr [demo_record ''a'' ''old'']"
    using scan_sst_file [of "[demo_record ''a'' ''old'']" demo_codec] by simp
  have g: "sst_glob (sst_name 1 7)" by (simp add: sst_glob_def sst_name_def starts_with_def)
  have s: "sst_scan demo_codec demo_segments (Hot, sst_name 1 7) = Inr [demo_record ''a'' ''old'']"
    using f by (simp add: sst_scan_def demo_segments_def seg_open_def)
  have l: "sg_sstables demo_segments = [(Hot, sst_name 1 7)]"
    using g by (simp add: demo_segments_def seg_open_def)
  show m: "sg_memtable demo_segments = []" by (simp add: demo_segments_def seg_open_def)
  show "seg_inv demo_codec demo_segments"
    by (simp add: seg_inv_def m l sst_good_def s [simplified] keyed_dict_def mem_scan_def)
  show "durable_records_by_id demo_codec demo_segments = Inr [(''a'', demo_record ''a'' ''old'')]"
    by (simp add: durable_records_by_id_def l s [simplified] put_all_def mem_put_def demo_record_def)
qed

lemma demo_restart:
  "\<exists>fs es w1. read_all 9 (wal_open 200 10 fs) = (Inr es, w1) \<and> log_ops demo_codec es = demo_ops"
proof -
  obtain w :: wal where w: "read_files 9 (wl_files w) = map (read_back 9) demo_entries"
    using flush_appended [OF demo_entries(3,4), of 100 10 9] by blast
  obtain w1 where "read_all 9 (wal_open 200 10 (wl_files w)) = (Inr (read_files 9 (wl_files w)), w1)"
    using read_reopened by blast
  with w log_ops_read_back [OF demo_entries(1,2), of 9] show ?thesis by auto
qed

lemma demo_logical:
  "logical (map_of [(''a'', demo_record ''a'' ''old'')]) demo_ops ''a'' = Some (demo_record ''a'' ''new'')"
  "{i. tombstoned demo_ops i} = {''b''}"
  by (auto simp: logical_def tombstoned_def last_op_def demo_ops_def demo_record_def)

lemma recovery_last_write_wins_witness:
  "\<exists>fs res w1 sg1. recover demo_codec 9 (wal_open 200 10 fs, demo_segments) = (Inr res, w1, sg1) \<and>
     set (rr_deleted_ids res) = {''b''} \<and> demo_record ''a'' ''new'' \<in> set (rr_records res)"
proof -
  obtain fs es w1 where e: "read_all 9 (wal_open 200 10 fs) = (Inr es, w1)"
    "log_ops demo_codec es = demo_ops" using demo_restart by blast
  from recovery_last_write_wins [OF demo_segments(3) e(1)] obtain res sg1 where
    r: "recover demo_codec 9 (wal_open 200 10 fs, demo_segments) = (Inr res, w1, sg1)"
    "map_of (map (\<lambda>r. (vr_id r, r)) (rr_records res)) =
       logical (map_of [(''a'', demo_record ''a'' ''old'')]) demo_ops"
    "set (rr_deleted_ids res) = {i. tombstoned demo_ops i}"
    unfolding e(2) by (elim exE conjE) (rule that; assumption)
  have "map_of (map (\<lambda>r. (vr_id r, r)) (rr_records res)) ''a'' = Some (demo_record ''a'' ''new'')"
    using r(2) demo_logical(1) by simp
  then have "demo_record ''a'' ''new'' \<in> set (rr_records res)" by (auto dest: map_of_SomeD)
  moreover have "set (rr_deleted_ids res) = {''b''}" using r(3) demo_logical(2) by simp
  ultimately show ?thesis using r(1) by blast
qed

lemma recovered_store_serves_witness:
  "\<exists>fs res w1 sg1. recover demo_codec 9 (wal_open 200 10 fs, demo_segments) = (Inr res, w1, sg1) \<and>
     seg_get demo_codec sg1 ''a'' = Inr (Some (demo_record ''a'' ''old''))"
proof -
  obtain fs es w1 where e: "read_all 9 (wal_open 200 10 fs) = (Inr es, w1)"
    "log_ops demo_codec es = demo_ops" using demo_restart by blast
  from recovered_store_serves [OF demo_segments e(1), unfolded e(2)] obtain res sg1 where
    r: "recover demo_codec 9 (wal_open 200 10 fs, demo_segments) = (Inr res, w1, sg1)"
    "seg_get demo_codec sg1 ''a'' = Inr (Some (demo_record ''a'' ''old''))"
    using demo_logical(1) by (auto simp: demo_record_def)
  then show ?thesis by blast
qed

lemma recovery_repeatable_witness:
  "\<exists>res w1 sg1. recover demo_codec 9 (wal_open 200 10 [], demo_segments) = (Inr res, w1, sg1) \<and>
     (\<exists>res' w2 sg2. recover demo_codec 77 (wal_open 50 10 (wl_files w1), demo_segments) =
        (Inr res', w2, sg2) \<and> rr_deleted_ids res' = rr_deleted_ids res)"
proof -
  obtain w1 where read: "read_all 9 (wal_open 200 10 []) = (Inr (read_files 9 []), w1)"
    using read_reopened by blast
  obtain res sg1 where r: "recover demo_codec 9 (wal_open 200 10 [], demo_segments) = (Inr res, w1, sg1)"
    "sg_hot sg1 = sg_hot demo_segments" "sg_cold sg1 = sg_cold demo_segments"
    using recover_eq [OF demo_segments(3) read] by force
  have "seg_open 10 (sg_hot sg1) (sg_cold sg1) = demo_segments"
    by (simp add: r demo_segments_def seg_open_def)
  with recovery_repeatable [OF r(1) [unfolded demo_segments_def], of 77 50 10] r(1) show ?thesis
    by metis
qed

end
