(* ===== verification/Shard_Transfer.thy ===== *)
theory Shard_Transfer
  imports Recovery Migration
begin

text \<open>
  \<open>sharding/transfer.py\<close>: the transfer provider of shard migrations. Every node has a storage root;
  a shard's data is in the directories \<open>wal/<id>\<close> and \<open>segments/<id>\<close> below it. The state is the
  files of those directories, by path. \<open>sha\<close> is the SHA-256 hex digest and \<open>canonical\<close> the canonical
  JSON text; the environment \<open>en\<close> gives the clock readings of one call, in order, and the process
  id. Errors of the file system are not modelled, and the group commit thread of the short-lived
  logs does not run.
\<close>

subsection \<open>Storage roots\<close>

record storage =
  fs_wal :: "(string, (string, byte list) dict) dict"
  fs_seg :: "(string, (string, string) dict \<times> (string, string) dict option) dict"

record provider =
  pr_base_dirs :: "(string, string) dict"
  pr_default_base_dir :: string

record env =
  en_ms :: "nat \<Rightarrow> nat"
  en_ns :: "nat \<Rightarrow> nat"
  en_pid :: nat

definition path_join :: "string \<Rightarrow> string \<Rightarrow> string" where
  "path_join a b = (if starts_with ''/'' b then b else a @ ''/'' @ b)"

definition node_base_dir :: "provider \<Rightarrow> string \<Rightarrow> string" where
  "node_base_dir pr n =
     (case dict_get (pr_base_dirs pr) n of
        None \<Rightarrow> path_join (pr_default_base_dir pr) n | Some p \<Rightarrow> p)"

definition wal_dir :: "provider \<Rightarrow> string \<Rightarrow> shard \<Rightarrow> string" where
  "wal_dir pr n s = path_join (path_join (node_base_dir pr n) ''wal'') (sh_id s)"

definition seg_dir :: "provider \<Rightarrow> string \<Rightarrow> shard \<Rightarrow> string" where
  "seg_dir pr n s = path_join (path_join (node_base_dir pr n) ''segments'') (sh_id s)"

text \<open>Opening the log and the store of a directory with their default parameters.\<close>

definition default_segment_bytes :: nat where
  "default_segment_bytes = 256 * 1024 * 1024"

definition open_wal :: "storage \<Rightarrow> string \<Rightarrow> wal" where
  "open_wal fs p =
     wal_open default_segment_bytes 1000 (case dict_get (fs_wal fs) p of None \<Rightarrow> [] | Some d \<Rightarrow> d)"

definition open_seg :: "storage \<Rightarrow> string \<Rightarrow> segments" where
  "open_seg fs p =
     (case dict_get (fs_seg fs) p of
        None \<Rightarrow> seg_open 10000 [] None | Some (hot, cold) \<Rightarrow> seg_open 10000 hot cold)"

definition save_wal :: "string \<Rightarrow> wal \<Rightarrow> storage \<Rightarrow> storage" where
  "save_wal p w fs = fs\<lparr>fs_wal := dict_put p (wl_files w) (fs_wal fs)\<rparr>"

definition save_seg :: "string \<Rightarrow> segments \<Rightarrow> storage \<Rightarrow> storage" where
  "save_seg p sg fs = fs\<lparr>fs_seg := dict_put p (sg_hot sg, sg_cold sg) (fs_seg fs)\<rparr>"

text \<open>The \<open>finally\<close> of every operation: the log is closed, an exception of it is dropped.\<close>

definition close_wal :: "string \<Rightarrow> wal \<Rightarrow> storage \<Rightarrow> storage" where
  "close_wal p w fs = save_wal p (snd (wal_close w)) fs"

subsection \<open>The digest and the export\<close>

definition compute_digest ::
    "codec \<Rightarrow> (json \<Rightarrow> string) \<Rightarrow> (string \<Rightarrow> string) \<Rightarrow> vector_record list \<Rightarrow> string list \<Rightarrow> string"
where
  "compute_digest cd canonical sha records deleted_ids =
     sha (canonical (JObj
       [(''records'', JList (map (cd_dump cd) (sort_key vr_id records))),
        (''deleted'', JList (map JStr (sort deleted_ids)))]))"

record shard_export =
  se_namespace :: string
  se_shard_id :: string
  se_records :: "json list"
  se_deleted_ids :: "string list"
  se_digest :: string

definition export_to_dict :: "shard_export \<Rightarrow> json" where
  "export_to_dict x = JObj
     [(''namespace'', JStr (se_namespace x)), (''shard_id'', JStr (se_shard_id x)),
      (''records'', JList (se_records x)), (''deleted_ids'', JList (map JStr (se_deleted_ids x))),
      (''digest'', JStr (se_digest x))]"

definition as_records :: "json \<Rightarrow> json list option" where
  "as_records j =
     (case j of JList rs \<Rightarrow> if list_all json_is_obj rs then Some rs else None | _ \<Rightarrow> None)"

definition export_from_dict :: "json \<Rightarrow> shard_export option" where
  "export_from_dict j =
     (case j of
        JObj d \<Rightarrow>
          (case (map_of d ''namespace'', map_of d ''shard_id'', field_or as_records [] d ''records'',
                 field_or as_str_list [] d ''deleted_ids'', field_or as_str [] d ''digest'') of
             (Some (JStr ns), Some (JStr sid), Some rs, Some del, Some dg) \<Rightarrow>
               Some \<lparr>se_namespace = ns, se_shard_id = sid, se_records = rs, se_deleted_ids = del,
                     se_digest = dg\<rparr>
           | _ \<Rightarrow> None)
      | _ \<Rightarrow> None)"

subsection \<open>The operations\<close>

text \<open>What \<open>recover\<close> finds in a node's directories.\<close>

definition recover_at ::
    "codec \<Rightarrow> provider \<Rightarrow> nat \<Rightarrow> string \<Rightarrow> shard \<Rightarrow> storage \<Rightarrow>
     recovery_result res \<times> wal \<times> segments" where
  "recover_at cd pr now n s fs =
     recover cd now (open_wal fs (wal_dir pr n s), open_seg fs (seg_dir pr n s))"

definition export_shard ::
    "codec \<Rightarrow> (json \<Rightarrow> string) \<Rightarrow> (string \<Rightarrow> string) \<Rightarrow> provider \<Rightarrow> env \<Rightarrow>
     string \<Rightarrow> shard \<Rightarrow> storage \<Rightarrow> shard_export res \<times> storage" where
  "export_shard cd canonical sha pr en n s fs =
     (case recover_at cd pr (en_ns en 0) n s fs of
        (Inl e, w, sg) \<Rightarrow> (Inl e, close_wal (wal_dir pr n s) w fs)
      | (Inr res, w, sg) \<Rightarrow>
          (Inr \<lparr>se_namespace = sh_namespace s, se_shard_id = sh_id s,
                se_records = map (cd_dump cd) (rr_records res),
                se_deleted_ids = sort (rr_deleted_ids res),
                se_digest = compute_digest cd canonical sha (rr_records res) (rr_deleted_ids res)\<rparr>,
           close_wal (wal_dir pr n s) w fs))"

text \<open>\<open>str(r.get("id", ""))\<close>, the sort key of the imported records.\<close>

definition json_id :: "codec \<Rightarrow> json \<Rightarrow> string" where
  "json_id cd j =
     (case j of
        JObj kvs \<Rightarrow> (case map_of kvs ''id'' of
            None \<Rightarrow> [] | Some (JStr i) \<Rightarrow> i | Some v \<Rightarrow> cd_str cd v)
      | _ \<Rightarrow> [])"

fun import_records ::
    "codec \<Rightarrow> env \<Rightarrow> nat \<Rightarrow> json list \<Rightarrow> segments \<times> wal \<Rightarrow> unit res \<times> segments \<times> wal" where
  "import_records cd en k [] st = (Inr (), st)"
| "import_records cd en k (rd # rds) (sg, w) =
     (case cd_validate cd rd of
        Inl e \<Rightarrow> (Inl e, sg, w)
      | Inr rec \<Rightarrow>
          import_records cd en (Suc k) rds
            (seg_put cd (en_ms en k) (en_pid en) rec sg,
             wal_append (new_entry (en_ns en k) (cd_dumps cd (upsert_envelope rd)) 0) w))"

fun import_deletes :: "codec \<Rightarrow> env \<Rightarrow> nat \<Rightarrow> string list \<Rightarrow> wal \<Rightarrow> wal" where
  "import_deletes cd en k [] w = w"
| "import_deletes cd en k (i # is) w =
     import_deletes cd en (Suc k) is
       (wal_append (new_entry (en_ns en k) (cd_dumps cd (delete_envelope i)) 0) w)"

definition discard_target :: "provider \<Rightarrow> string \<Rightarrow> shard \<Rightarrow> storage \<Rightarrow> unit res \<times> storage" where
  "discard_target pr n s fs =
     (Inr (), fs\<lparr>fs_wal := dict_pop (wal_dir pr n s) (fs_wal fs),
                fs_seg := dict_pop (seg_dir pr n s) (fs_seg fs)\<rparr>)"

definition finalize_source :: "provider \<Rightarrow> string \<Rightarrow> shard \<Rightarrow> storage \<Rightarrow> unit res \<times> storage" where
  "finalize_source pr n s fs =
     (Inr (), fs\<lparr>fs_wal := dict_pop (wal_dir pr n s) (fs_wal fs),
                fs_seg := dict_pop (seg_dir pr n s) (fs_seg fs)\<rparr>)"

definition import_shard ::
    "codec \<Rightarrow> provider \<Rightarrow> env \<Rightarrow> string \<Rightarrow> shard \<Rightarrow> shard_export \<Rightarrow> storage \<Rightarrow>
     unit res \<times> storage" where
  "import_shard cd pr en n s x fs =
     (let uploads = sort_key (json_id cd) (se_records x);
          deleted = sort (se_deleted_ids x);
          fs0 = snd (discard_target pr n s fs);
          wp = wal_dir pr n s; sp = seg_dir pr n s
      in case import_records cd en 0 uploads (open_seg fs0 sp, open_wal fs0 wp) of
           (Inl e, sg, w) \<Rightarrow> (Inl e, close_wal wp w (save_seg sp sg fs0))
         | (Inr _, sg, w) \<Rightarrow>
             (let w1 = import_deletes cd en (length uploads) deleted w;
                  sg1 = snd (seg_flush cd (en_ms en (length uploads)) (en_pid en) sg)
              in case wal_flush w1 of
                   (r, w2) \<Rightarrow> (r, close_wal wp w2 (save_seg sp sg1 fs0))))"

definition verify_shard ::
    "codec \<Rightarrow> (json \<Rightarrow> string) \<Rightarrow> (string \<Rightarrow> string) \<Rightarrow> provider \<Rightarrow> env \<Rightarrow>
     string \<Rightarrow> shard \<Rightarrow> string option \<Rightarrow> storage \<Rightarrow> string res \<times> storage" where
  "verify_shard cd canonical sha pr en n s expected fs =
     (case recover_at cd pr (en_ns en 0) n s fs of
        (Inl e, w, sg) \<Rightarrow> (Inl e, close_wal (wal_dir pr n s) w fs)
      | (Inr res, w, sg) \<Rightarrow>
          (let actual = compute_digest cd canonical sha (rr_records res) (rr_deleted_ids res);
               fs1 = close_wal (wal_dir pr n s) w fs
           in case durable_records_by_id cd sg of
                Inl e \<Rightarrow> (Inl e, fs1)
              | Inr d \<Rightarrow>
                  (let durable = compute_digest cd canonical sha (dict_values d) (rr_deleted_ids res)
                   in case expected of
                        None \<Rightarrow> (Inr actual, fs1)
                      | Some dg \<Rightarrow>
                          if actual \<noteq> dg \<or> durable \<noteq> dg then
                            (Inl (MigrationVerificationError (sh_namespace s) (sh_id s) dg actual), fs1)
                          else (Inr actual, fs1))))"

text \<open>The provider as the migration manager sees it.\<close>

definition file_transfer ::
    "codec \<Rightarrow> (json \<Rightarrow> string) \<Rightarrow> (string \<Rightarrow> string) \<Rightarrow> provider \<Rightarrow> env \<Rightarrow>
     (shard_export, storage) transfer_ops" where
  "file_transfer cd canonical sha pr en =
     \<lparr>to_export = export_shard cd canonical sha pr en, to_digest = se_digest,
      to_import = import_shard cd pr en,
      to_verify = verify_shard cd canonical sha pr en,
      to_finalize = finalize_source pr, to_discard = discard_target pr\<rparr>"

subsection \<open>A checked verification\<close>

lemma verify_passes:
  assumes "verify_shard cd canonical sha pr en n s (Some d) fs = (Inr a, fs')"
  shows "a = d"
  using assms by (auto simp: verify_shard_def Let_def split: prod.splits sum.splits if_splits)

interpretation file_transfer: checked_transfer "file_transfer cd canonical sha pr en"
    for cd canonical sha pr en
  by unfold_locales (simp add: file_transfer_def verify_passes)

end
