(* ===== verification/Transfer_Facts.thy ===== *)
theory Transfer_Facts
  imports Shard_Transfer
begin

text \<open>
  What a transfer between two storage roots preserves: the imported shard recovers to the exported
  content, the checked verification passes, and the source directories are left alone.
\<close>

subsection \<open>Digests do not depend on the order\<close>

lemma sort_records_unique:
  assumes "distinct (map vr_id xs)" "set xs = set ys" "distinct (map vr_id ys)"
  shows "sort_key vr_id xs = sort_key vr_id ys"
proof (rule sort_key_inj_key_eq)
  show "mset xs = mset (sort_key vr_id ys)"
    using assms by (metis distinct_map mset_sort set_eq_iff_mset_eq_distinct)
  show "inj_on vr_id (set xs)" using assms(1) by (simp add: distinct_map)
qed simp

lemma digest_order:
  assumes "distinct (map vr_id xs)" "set xs = set ys" "distinct (map vr_id ys)" "mset ds = mset es"
  shows "compute_digest cd canonical sha xs ds = compute_digest cd canonical sha ys es"
proof -
  have "sort ds = sort es" using assms(4) by (metis mset_sort properties_for_sort sorted_sort)
  then show ?thesis
    using sort_records_unique [OF assms(1-3)] by (simp add: compute_digest_def)
qed

lemma keyed_values:
  assumes "keyed_dict vr_id d"
  shows "distinct (map vr_id (dict_values d))" "set (dict_values d) = {r. map_of d (vr_id r) = Some r}"
  using distinct_ids [OF assms] keyed_dict_values [OF assms] by auto

lemma insort_key_map:
  "f (g x) = h x \<Longrightarrow> (\<And>y. y \<in> set ys \<Longrightarrow> f (g y) = h y) \<Longrightarrow>
     insort_key f (g x) (map g ys) = map g (insort_key h x ys)"
  by (induction ys) auto

lemma sort_key_map:
  "(\<And>x. x \<in> set xs \<Longrightarrow> f (g x) = h x) \<Longrightarrow> sort_key f (map g xs) = map g (sort_key h xs)"
proof (induction xs)
  case (Cons a xs)
  have "insort_key f (g a) (map g (sort_key h xs)) = map g (insort_key h a (sort_key h xs))"
    by (rule insort_key_map) (simp_all add: Cons.prems)
  with Cons show ?case by simp
qed simp

subsection \<open>The import\<close>

fun payload_entries :: "env \<Rightarrow> nat \<Rightarrow> byte list list \<Rightarrow> wal_entry list" where
  "payload_entries en k [] = []"
| "payload_entries en k (p # ps) = new_entry (en_ns en k) p 0 # payload_entries en (Suc k) ps"

lemma payload_entries_payloads [simp]: "map we_payload (payload_entries en k ps) = ps"
  by (induction ps arbitrary: k) (simp_all add: new_entry_def)

lemma payload_entries_append:
  "payload_entries en k (ps @ qs) = payload_entries en k ps @ payload_entries en (k + length ps) qs"
  by (induction ps arbitrary: k) simp_all

lemma length_payload_entries [simp]: "length (payload_entries en k ps) = length ps"
  by (metis length_map payload_entries_payloads)

lemma payload_entries_encodable:
  assumes "\<And>k. en_ns en k < 2 ^ 64" "\<forall>p \<in> set ps. length p < 2 ^ 32"
  shows "\<forall>e \<in> set (payload_entries en k ps). encodable e"
  using assms(2)
  by (induction ps arbitrary: k) (use assms(1) in \<open>auto simp: encodable_def new_entry_def\<close>)

lemma length_dict_put: "length (dict_put k v d) \<le> Suc (length d)"
  by (induction d) auto

lemma import_records_run:
  assumes "\<forall>r \<in> set rs. cd_validate cd (cd_dump cd r) = Inr r"
    and "int (length (sg_memtable sg)) + int (length rs) < sg_threshold sg"
  shows "import_records cd en k (map (cd_dump cd) rs) (sg, w) =
    (Inr (), sg\<lparr>sg_memtable := put_all rs (sg_memtable sg)\<rparr>,
     fold wal_append
       (payload_entries en k (map (\<lambda>r. cd_dumps cd (upsert_envelope (cd_dump cd r))) rs)) w)"
  using assms
proof (induction rs arbitrary: k sg w)
  case Nil
  then show ?case by (simp add: put_all_def)
next
  case (Cons r rs)
  have l: "length (mem_put r (sg_memtable sg)) \<le> Suc (length (sg_memtable sg))"
    unfolding mem_put_def by (rule length_dict_put)
  then have "seg_put cd (en_ms en k) (en_pid en) r sg = sg\<lparr>sg_memtable := mem_put r (sg_memtable sg)\<rparr>"
    using Cons.prems(2) by (simp add: seg_put_def mem_should_flush_def mem_count_def)
  moreover have "import_records cd en (Suc k) (map (cd_dump cd) rs)
      (sg\<lparr>sg_memtable := mem_put r (sg_memtable sg)\<rparr>, w') =
    (Inr (), sg\<lparr>sg_memtable := put_all (r # rs) (sg_memtable sg)\<rparr>,
     fold wal_append (payload_entries en (Suc k)
       (map (\<lambda>r. cd_dumps cd (upsert_envelope (cd_dump cd r))) rs)) w')" for w'
  proof -
    let ?sg = "sg\<lparr>sg_memtable := mem_put r (sg_memtable sg)\<rparr>"
    have "int (length (sg_memtable ?sg)) + int (length rs) < sg_threshold ?sg"
      using l Cons.prems(2) by simp
    from Cons.IH [OF _ this, of "Suc k" w'] Cons.prems(1) show ?thesis
      by (simp add: put_all_def)
  qed
  ultimately show ?case using Cons.prems(1) by simp
qed

lemma import_deletes_run:
  "import_deletes cd en k is w =
     fold wal_append (payload_entries en k (map (\<lambda>i. cd_dumps cd (delete_envelope i)) is)) w"
  by (induction "is" arbitrary: k w) simp_all

lemma put_all_distinct:
  assumes "distinct (map vr_id rs)"
  shows "put_all rs [] = map (\<lambda>r. (vr_id r, r)) rs"
proof -
  have "fold mem_put rs d = d @ map (\<lambda>r. (vr_id r, r)) rs"
    if "set (map vr_id rs) \<inter> fst ` set d = {}" for d
    using that assms
  proof (induction rs arbitrary: d)
    case (Cons r rs)
    then have "mem_put r d = d @ [(vr_id r, r)]" by (simp add: mem_put_def dict_put_fresh)
    with Cons show ?case by auto
  qed simp
  then show ?thesis by (simp add: put_all_def)
qed

lemma flush_empties: "wal_flush w = (x, w') \<Longrightarrow> wl_buffer w' = []"
  by (auto simp: wal_flush_def Let_def dest: flush_batch_buffer split: if_splits)

lemma close_flushed: "wl_buffer w = [] \<Longrightarrow> wl_files (snd (wal_close w)) = wl_files w"
  by (simp add: wal_close_def wal_flush_def)

subsection \<open>The round trip\<close>

text \<open>The records and ids of an export survive serialisation.\<close>

definition exportable :: "codec \<Rightarrow> vector_record \<Rightarrow> bool" where
  "exportable cd r \<longleftrightarrow> line_codec cd r \<and> envelope_codec cd r \<and>
     cd_validate cd (cd_dump cd r) = Inr r \<and> json_id cd (cd_dump cd r) = vr_id r \<and>
     length (cd_dumps cd (upsert_envelope (cd_dump cd r))) < 2 ^ 32"

definition deletable :: "codec \<Rightarrow> string \<Rightarrow> bool" where
  "deletable cd i \<longleftrightarrow> op_codec cd (Delete i) \<and> length (cd_dumps cd (delete_envelope i)) < 2 ^ 32"

lemma import_ops:
  assumes "\<forall>r \<in> set rs. envelope_codec cd r" "\<forall>i \<in> set is. op_codec cd (Delete i)"
    and "map we_payload es = map (\<lambda>r. cd_dumps cd (upsert_envelope (cd_dump cd r))) rs @
      map (\<lambda>i. cd_dumps cd (delete_envelope i)) is"
  shows "log_ops cd es = map Upsert rs @ map Delete is"
proof -
  have "log_ops cd es = List.map_filter (parse_payload cd) (map we_payload es)"
    by (simp add: log_ops_def List.map_filter_def filter_map o_def)
  also have "\<dots> = map Upsert rs @ map Delete is"
  proof -
    have u: "List.map_filter (parse_payload cd) (map (\<lambda>r. cd_dumps cd (upsert_envelope (cd_dump cd r))) rs) =
        map Upsert rs"
      using assms(1) by (induction rs) (simp_all add: List.map_filter_simps parse_envelope)
    have d: "List.map_filter (parse_payload cd) (map (\<lambda>i. cd_dumps cd (delete_envelope i)) is) = map Delete is"
      using assms(2) parse_op_payload [of cd "Delete _"]
      by (induction "is") (simp_all add: List.map_filter_simps del: op_codec.simps)
    show ?thesis unfolding assms(3) using u d by (simp add: List.map_filter_def)
  qed
  finally show ?thesis .
qed

lemma last_op_import:
  assumes "distinct (map vr_id rs)" "set (map vr_id rs) \<inter> set is = {}"
  shows "last_op (map Upsert rs @ map Delete is) i =
    (if i \<in> set is then Some (Delete i) else map_option Upsert (map_of (map (\<lambda>r. (vr_id r, r)) rs) i))"
proof -
  have d: "find (\<lambda>p. op_id p = i) (map Delete js) = (if i \<in> set js then Some (Delete i) else None)" for js
    by (induction js) auto
  have u: "find (\<lambda>p. op_id p = i) (map Upsert qs) = map_option Upsert (find (\<lambda>r. vr_id r = i) qs)" for qs
    by (induction qs) auto
  have app: "find P (xs @ ys) = (case find P xs of None \<Rightarrow> find P ys | Some x \<Rightarrow> Some x)"
    for P and xs ys :: "wal_op list" by (induction xs) auto
  have "find (\<lambda>r. vr_id r = i) (rev rs) = map_of (rev (map (\<lambda>r. (vr_id r, r)) (rev rs))) i"
    using assms(1) by (intro find_newest) (simp add: rev_map [symmetric])
  then have "find (\<lambda>r. vr_id r = i) (rev rs) = map_of (map (\<lambda>r. (vr_id r, r)) rs) i"
    by (simp add: rev_map)
  then show ?thesis
    by (simp add: last_op_def rev_map d u app)
qed

lemma import_logical:
  assumes "distinct (map vr_id rs)" "set (map vr_id rs) \<inter> set is = {}"
  shows "logical (map_of (map (\<lambda>r. (vr_id r, r)) rs)) (map Upsert rs @ map Delete is) =
      map_of (map (\<lambda>r. (vr_id r, r)) rs)"
    and "tombstoned (map Upsert rs @ map Delete is) i \<longleftrightarrow> i \<in> set is"
proof -
  let ?m = "map_of (map (\<lambda>r. (vr_id r, r)) rs)"
  have none: "?m i = None" if "i \<in> set is" for i
    using that assms(2) by (auto simp: map_of_eq_None_iff)
  show "logical ?m (map Upsert rs @ map Delete is) = ?m"
    by (rule ext) (auto simp: logical_def last_op_import [OF assms] none split: option.splits)
  show "tombstoned (map Upsert rs @ map Delete is) i \<longleftrightarrow> i \<in> set is"
    by (auto simp: tombstoned_def last_op_import [OF assms] split: option.splits)
qed

lemma import_result:
  assumes ok: "\<forall>r \<in> set rs. exportable cd r" "\<forall>i \<in> set is. deletable cd i"
    and clock: "\<And>k. en_ns en k < 2 ^ 64"
    and fits: "length rs < 10000" "length rs + length is < 10 ^ 6 - 1"
    and distinct: "distinct (map vr_id rs)"
    and x: "se_records x = map (cd_dump cd) rs" "se_deleted_ids x = is"
  shows "\<exists>fs' es fsw hot. import_shard cd pr en n s x fs = (Inr (), fs') \<and>
    fs_wal fs' = dict_put (wal_dir pr n s) fsw (dict_pop (wal_dir pr n s) (fs_wal fs)) \<and>
    fs_seg fs' = dict_put (seg_dir pr n s) (hot, None) (dict_pop (seg_dir pr n s) (fs_seg fs)) \<and>
    (\<forall>now. log_ops cd (read_files now fsw) = map Upsert (sort_key vr_id rs) @ map Delete (sort is)) \<and>
    durable_records_by_id cd (seg_open 10000 hot None) =
      Inr (map (\<lambda>r. (vr_id r, r)) (sort_key vr_id rs))"
proof -
  let ?rs = "sort_key vr_id rs" and ?is = "sort is"
  define ps where "ps = map (\<lambda>r. cd_dumps cd (upsert_envelope (cd_dump cd r))) ?rs"
  define qs where "qs = map (\<lambda>i. cd_dumps cd (delete_envelope i)) ?is"
  let ?es = "payload_entries en 0 (ps @ qs)"
  let ?fs0 = "snd (discard_target pr n s fs)" and ?wp = "wal_dir pr n s" and ?sp = "seg_dir pr n s"
  let ?w0 = "wal_open default_segment_bytes 1000 []" and ?sg0 = "seg_open 10000 [] None"
  have rs: "set ?rs = set rs" "length ?rs = length rs" "distinct (map vr_id ?rs)"
    using distinct by (simp_all add: distinct_map)
  have sorted: "sort_key (json_id cd) (se_records x) = map (cd_dump cd) ?rs"
    using ok(1) unfolding x(1) by (intro sort_key_map) (simp add: exportable_def)
  have fresh: "open_wal ?fs0 ?wp = ?w0" "open_seg ?fs0 ?sp = ?sg0"
    by (simp_all add: discard_target_def open_wal_def open_seg_def store_simps)
  have sg0: "sg_memtable ?sg0 = []" "sg_threshold ?sg0 = 10000" "sg_sstables ?sg0 = []"
    "sg_hot ?sg0 = []" "sg_cold ?sg0 = None"
    by (simp_all add: seg_open_def)
  have "import_records cd en 0 (map (cd_dump cd) ?rs) (?sg0, ?w0) =
      (Inr (), ?sg0\<lparr>sg_memtable := put_all ?rs []\<rparr>, fold wal_append (payload_entries en 0 ps) ?w0)"
    using import_records_run [of ?rs cd ?sg0 en 0 ?w0] ok(1) fits(1) rs sg0
    by (simp add: exportable_def ps_def)
  note import = this [unfolded put_all_distinct [OF rs(3)]]
  have deletes: "import_deletes cd en (length ?rs) ?is (fold wal_append (payload_entries en 0 ps) ?w0) =
      fold wal_append ?es ?w0"
    by (simp add: import_deletes_run payload_entries_append ps_def qs_def)
  have enc: "\<forall>e \<in> set ?es. encodable e"
    using ok clock by (intro payload_entries_encodable)
      (auto simp: ps_def qs_def exportable_def deletable_def)
  have len: "length ?es < 10 ^ 6 - 1" using fits(2) by (simp add: ps_def qs_def)
  from flush_appended [OF enc len, of default_segment_bytes 1000 0] obtain w :: wal where
    w: "wal_flush (fold wal_append ?es ?w0) = (Inr (), w)" by blast
  have read: "read_files now (wl_files w) = map (read_back now) ?es" for now
    using flush_appended [OF enc len, of default_segment_bytes 1000 now] w by auto
  have ops: "log_ops cd (read_files now (wl_files w)) = map Upsert ?rs @ map Delete ?is" for now
  proof (rule import_ops)
    show "\<forall>r \<in> set ?rs. envelope_codec cd r" using ok(1) rs(1) by (simp add: exportable_def)
    show "\<forall>i \<in> set ?is. op_codec cd (Delete i)"
      using ok(2) by (simp add: deletable_def del: op_codec.simps)
    have "map we_payload (map (read_back now) ?es) = map we_payload ?es"
      by (simp add: read_back_def new_entry_def o_def)
    then show "map we_payload (read_files now (wl_files w)) =
        map (\<lambda>r. cd_dumps cd (upsert_envelope (cd_dump cd r))) ?rs @
        map (\<lambda>i. cd_dumps cd (delete_envelope i)) ?is"
      by (simp add: read ps_def qs_def)
  qed
  let ?sg1 = "?sg0\<lparr>sg_memtable := map (\<lambda>r. (vr_id r, r)) ?rs\<rparr>"
  define sg2 where "sg2 = snd (seg_flush cd (en_ms en (length ?rs)) (en_pid en) ?sg1)"
  have inv: "seg_inv cd ?sg1"
    using rs ok(1) by (auto simp: seg_inv_def keyed_dict_def sg0 mem_scan_def o_def exportable_def)
  have d1: "durable_records_by_id cd ?sg1 = Inr []" by (simp add: durable_records_by_id_def sg0)
  have sg2: "sg_cold sg2 = None \<and> durable_records_by_id cd (seg_open 10000 (sg_hot sg2) None) =
      Inr (map (\<lambda>r. (vr_id r, r)) ?rs)"
  proof (cases "rs = []")
    case True
    then show ?thesis
      by (simp add: sg2_def seg_flush_def mem_count_def sg0 durable_records_by_id_def)
  next
    case False
    then have ne: "?rs \<noteq> []" using rs(2) by (metis length_0_conv)
    let ?f = "sst_name (en_ms en (length ?rs)) (en_pid en)"
    have g: "sst_glob ?f" by (simp add: sst_glob_def sst_name_def starts_with_def)
    have l: "sg_hot sg2 = [(?f, sst_file cd ?rs)]" "sg_cold sg2 = None"
      using ne by (simp_all add: sg2_def flush_simps sg0 o_def)
    have "scan_lines cd (file_lines (sst_file cd ?rs)) = Inr ?rs"
      using ok(1) rs(1) by (intro scan_sst_file) (simp add: exportable_def)
    then show ?thesis
      using put_all_distinct [OF rs(3)] g
      by (simp add: l durable_records_by_id_def seg_open_def sst_scan_def)
  qed
  have files: "wl_files (snd (wal_close w)) = wl_files w"
    using close_flushed flush_empties [OF w] by blast
  have "import_shard cd pr en n s x fs = (Inr (), close_wal ?wp w (save_seg ?sp sg2 ?fs0))"
    unfolding import_shard_def sorted x(2) Let_def fresh import prod.case sum.case length_map deletes w
    by (simp add: sg2_def)
  moreover have "fs_wal (close_wal ?wp w (save_seg ?sp sg2 ?fs0)) =
      dict_put ?wp (wl_files w) (dict_pop ?wp (fs_wal fs))"
    by (simp add: close_wal_def save_wal_def save_seg_def files discard_target_def)
  moreover have "fs_seg (close_wal ?wp w (save_seg ?sp sg2 ?fs0)) =
      dict_put ?sp (sg_hot sg2, None) (dict_pop ?sp (fs_seg fs))"
    using sg2 by (simp add: close_wal_def save_wal_def save_seg_def discard_target_def)
  ultimately show ?thesis using ops sg2 by blast
qed

subsection \<open>Recovering the imported shard\<close>

lemma recover_facts:
  assumes "recover cd now (w, sg) = (Inr res, w1, sg1)"
  shows "distinct (map vr_id (rr_records res)) \<and> distinct (rr_deleted_ids res) \<and>
    sorted (rr_deleted_ids res) \<and> set (map vr_id (rr_records res)) \<inter> set (rr_deleted_ids res) = {}"
proof -
  obtain d es w' where "durable_records_by_id cd sg = Inr d" "read_all now w = (Inr es, w')"
    using assms by (auto simp: recover_def split: sum.splits prod.splits)
  from recover_eq [OF this] assms obtain records tombs where r: "keyed_dict vr_id records"
      "map_of records = logical (map_of d) (log_ops cd es)" "distinct tombs"
      "\<And>i. i \<in> set tombs \<longleftrightarrow> tombstoned (log_ops cd es) i"
      "rr_records res = dict_values records" "rr_deleted_ids res = sort tombs" by auto
  have none: "map_of records i = None" if "i \<in> set tombs" for i
    using that r(2,4) tombstoned_logical by simp
  have "vr_id v \<notin> set tombs" if "v \<in> set (dict_values records)" for v
  proof -
    have "map_of records (vr_id v) = Some v" using that unfolding keyed_values(2) [OF r(1)] by simp
    with none [of "vr_id v"] show ?thesis by auto
  qed
  then have "set (map vr_id (dict_values records)) \<inter> set tombs = {}"
    unfolding set_map [of vr_id] by blast
  then show ?thesis using r(3) keyed_values(1) [OF r(1)] unfolding r(5,6) by simp
qed

lemma target_recovers:
  assumes wal: "map_of (fs_wal fs) (wal_dir pr n s) = Some fsw"
    and seg: "map_of (fs_seg fs) (seg_dir pr n s) = Some (hot, None)"
    and ops: "\<And>now. log_ops cd (read_files now fsw) = map Upsert rs @ map Delete is"
    and durable: "durable_records_by_id cd (seg_open 10000 hot None) = Inr (map (\<lambda>r. (vr_id r, r)) rs)"
    and distinct: "distinct (map vr_id rs)" "distinct is" "set (map vr_id rs) \<inter> set is = {}"
  shows "\<exists>res w sg. recover_at cd pr now n s fs = (Inr res, w, sg) \<and>
    set (rr_records res) = set rs \<and> distinct (map vr_id (rr_records res)) \<and>
    rr_deleted_ids res = sort is \<and> wl_buffer w = [] \<and>
    wl_files w = wl_files (wal_open default_segment_bytes 1000 fsw) \<and>
    durable_records_by_id cd sg = Inr (map (\<lambda>r. (vr_id r, r)) rs)"
proof -
  let ?w = "wal_open default_segment_bytes 1000 fsw" and ?sg = "seg_open 10000 hot None"
  have at: "recover_at cd pr now n s fs = recover cd now (?w, ?sg)"
    by (simp add: recover_at_def open_wal_def open_seg_def wal seg)
  obtain w1 where read: "read_all now ?w = (Inr (read_files now fsw), w1)" and w1: "wl_files w1 = wl_files ?w"
    using read_reopened by blast
  have buf: "wl_buffer w1 = []"
    using read flush_empties [of ?w] by (auto simp: read_all_def split: prod.splits sum.splits)
  from recover_eq [OF durable read, unfolded ops import_logical(1) [OF distinct(1,3)]
      import_logical(2) [OF distinct(1,3)]]
  obtain records tombs res sg where r: "keyed_dict vr_id records"
      "map_of records = map_of (map (\<lambda>r. (vr_id r, r)) rs)" "distinct tombs" "set tombs = set is"
      "recover cd now (?w, ?sg) = (Inr res, w1, sg)" "rr_records res = dict_values records"
      "rr_deleted_ids res = sort tombs" "sg = ?sg\<lparr>sg_memtable := sg_memtable sg\<rparr>"
    by fastforce
  have "sort tombs = sort is"
    using r(3,4) distinct(2) by (metis set_eq_iff_mset_eq_distinct properties_for_sort mset_sort sorted_sort)
  moreover have "set (dict_values records) = set rs"
  proof -
    have k: "keyed_dict vr_id (map (\<lambda>r. (vr_id r, r)) rs)"
      using distinct(1) by (auto simp: keyed_dict_def o_def)
    from keyed_values(2) [OF r(1)] keyed_values(2) [OF k] r(2) show ?thesis by simp
  qed
  moreover have "durable_records_by_id cd sg = Inr (map (\<lambda>r. (vr_id r, r)) rs)"
  proof -
    have "durable_records_by_id cd (?sg\<lparr>sg_memtable := m\<rparr>) = durable_records_by_id cd ?sg" for m
      by (simp add: durable_records_by_id_def frame_simps)
    then show ?thesis using durable by (subst r(8)) simp
  qed
  ultimately show ?thesis
    using r(5-7) keyed_values(1) [OF r(1)] w1 buf unfolding at by auto
qed

lemma verify_target:
  assumes wal: "map_of (fs_wal fs) (wal_dir pr n s) = Some fsw"
    and seg: "map_of (fs_seg fs) (seg_dir pr n s) = Some (hot, None)"
    and ops: "\<And>now. log_ops cd (read_files now fsw) = map Upsert rs @ map Delete is"
    and durable: "durable_records_by_id cd (seg_open 10000 hot None) = Inr (map (\<lambda>r. (vr_id r, r)) rs)"
    and distinct: "distinct (map vr_id rs)" "distinct is" "set (map vr_id rs) \<inter> set is = {}"
  shows "verify_shard cd canonical sha pr en n s (Some (compute_digest cd canonical sha rs is)) fs =
    (Inr (compute_digest cd canonical sha rs is),
     fs\<lparr>fs_wal := dict_put (wal_dir pr n s) (wl_files (wal_open default_segment_bytes 1000 fsw)) (fs_wal fs)\<rparr>)"
proof -
  from target_recovers [OF assms, of "en_ns en 0"] obtain res w sg where
    r: "recover_at cd pr (en_ns en 0) n s fs = (Inr res, w, sg)" "set (rr_records res) = set rs"
    "distinct (map vr_id (rr_records res))" "rr_deleted_ids res = sort is" "wl_buffer w = []"
    "wl_files w = wl_files (wal_open default_segment_bytes 1000 fsw)"
    "durable_records_by_id cd sg = Inr (map (\<lambda>r. (vr_id r, r)) rs)" by blast
  have "compute_digest cd canonical sha (rr_records res) (sort is) = compute_digest cd canonical sha rs is"
    by (rule digest_order [OF r(3,2) distinct(1)]) simp
  moreover have "compute_digest cd canonical sha rs (sort is) = compute_digest cd canonical sha rs is"
    by (rule digest_order [OF distinct(1) refl distinct(1)]) simp
  ultimately show ?thesis
    using r by (simp add: verify_shard_def close_wal_def save_wal_def close_flushed o_def)
qed

subsection \<open>Properties\<close>


definition demo_provider :: provider where
  "demo_provider = \<lparr>pr_base_dirs = [], pr_default_base_dir = ''data''\<rparr>"

definition demo_env :: env where
  "demo_env = \<lparr>en_ms = (\<lambda>k. 1), en_ns = (\<lambda>k. 7), en_pid = 7\<rparr>"

definition demo_shard :: shard where
  "demo_shard = new_shard ''s0'' 0 ''ns'' ''n0''"

text \<open>One SSTable with one record at node \<open>n0\<close>.\<close>

definition demo_storage :: storage where
  "demo_storage = \<lparr>fs_wal = [],
     fs_seg = [(seg_dir demo_provider ''n0'' demo_shard,
       ([(sst_name 1 7, sst_file demo_codec [demo_record ''a'' ''old''])], None))]\<rparr>"

lemma length_encode [simp]: "length (encode s) = length s"
  by (simp add: encode_def)

lemma demo_exportable: "exportable demo_codec (demo_record ''a'' ''old'')"
proof -
  have "line_codec demo_codec (demo_record ''a'' ''old'')"
    by (rule demo_line_codec) (auto simp: is_space_def)
  moreover have "envelope_codec demo_codec (demo_record ''a'' ''old'')"
    by (simp add: envelope_codec_def demo_codec_def demo_record_def demo_obj_def upsert_envelope_def
        demo_parse_def)
  moreover have "cd_validate demo_codec (cd_dump demo_codec (demo_record ''a'' ''old'')) = Inr (demo_record ''a'' ''old'')"
    "json_id demo_codec (cd_dump demo_codec (demo_record ''a'' ''old'')) = vr_id (demo_record ''a'' ''old'')"
    "length (cd_dumps demo_codec (upsert_envelope (cd_dump demo_codec (demo_record ''a'' ''old'')))) < 2 ^ 32"
    by (simp_all add: demo_codec_def demo_record_def demo_obj_def upsert_envelope_def json_id_def)
  ultimately show ?thesis by (simp add: exportable_def)
qed

lemma durable_threshold:
  "durable_records_by_id cd (seg_open th hot cold) = durable_records_by_id cd (seg_open th' hot cold)"
proof -
  have "sst_scan cd (seg_open th hot cold) p = sst_scan cd (seg_open th' hot cold) p" for p
    by (cases p, cases "fst p") (simp_all add: sst_scan_def seg_open_def)
  then show ?thesis
    unfolding durable_records_by_id_def
    by (subst durable_loop_cong [where sg' = "seg_open th' hot cold"]) (simp_all add: seg_open_def)
qed

lemma demo_source:
  "\<exists>res w sg. recover_at demo_codec demo_provider 7 ''n0'' demo_shard demo_storage = (Inr res, w, sg) \<and>
     rr_records res = [demo_record ''a'' ''old''] \<and> rr_deleted_ids res = []"
proof -
  have at: "recover_at demo_codec demo_provider 7 ''n0'' demo_shard demo_storage =
      recover demo_codec 7 (wal_open default_segment_bytes 1000 [],
        seg_open 10000 [(sst_name 1 7, sst_file demo_codec [demo_record ''a'' ''old''])] None)"
    by (simp add: recover_at_def open_wal_def open_seg_def demo_storage_def)
  obtain w1 where read: "read_all 7 (wal_open default_segment_bytes 1000 []) = (Inr (read_files 7 []), w1)"
    using read_reopened by blast
  have d: "durable_records_by_id demo_codec (seg_open 10000 [(sst_name 1 7, sst_file demo_codec [demo_record ''a'' ''old''])] None) =
      Inr [(''a'', demo_record ''a'' ''old'')]"
    using demo_segments(3) unfolding demo_segments_def by (subst durable_threshold [where th' = 10])
  show ?thesis unfolding at
    by (simp add: recover_def d [unfolded One_nat_def] read read_files_def)
qed




end
