(* ===== verification/Replication.thy ===== *)
theory Replication
  imports Segment Shard_Core
begin

text \<open>
  The transport of \<open>sharding/replication.py\<close>: delivery of one operation to the replicas of a shard,
  the acknowledgement policy, the health derived from deliveries, the request summary, and
  \<open>ReplicationCoordinator\<close> of \<open>sharding/coordinator.py\<close> over it. What one delivery does to a node
  (the endpoint provider and the endpoint's application) is the parameter \<open>attempt\<close>, a function of
  the position in the replica list, the node and a state; \<open>clk\<close> gives \<open>time.time()\<close> at each position.
\<close>

subsection \<open>Results and health\<close>

record replication_result =
  rs_primary :: string
  rs_attempted :: "string list"
  rs_acknowledged :: "string list"
  rs_failed :: "string list"
  rs_failures :: "(string, string) dict"
  rs_required_acks :: int
  rs_success :: bool
  rs_degraded :: bool

record replica_health =
  rh_replica_id :: string
  rh_healthy :: bool
  rh_available :: bool
  rh_last_error :: "string option"
  rh_last_success :: "time option"
  rh_last_failure :: "time option"
  rh_successes :: int
  rh_failures :: int

record replication_view =
  rv_primary :: string
  rv_configured :: nat
  rv_healthy :: nat
  rv_available :: nat
  rv_required_acks :: int
  rv_ready :: bool
  rv_degraded :: bool
  rv_replicas :: "replica_health list"
  rv_last_success :: "time option"
  rv_last_failure :: "string option"

definition result_to_dict :: "replication_result \<Rightarrow> json" where
  "result_to_dict r = JObj
     [(''primary'', JStr (rs_primary r)),
      (''attempted_replicas'', JInt (int (length (rs_attempted r)))),
      (''acknowledged_replicas'', JInt (int (length (rs_acknowledged r)))),
      (''failed_replicas'', JList (map JStr (rs_failed r))),
      (''required_acks'', JInt (rs_required_acks r)),
      (''success'', JBool (rs_success r)),
      (''degraded'', JBool (rs_degraded r))]"

definition health_to_dict :: "replica_health \<Rightarrow> json" where
  "health_to_dict h = JObj
     [(''replica_id'', JStr (rh_replica_id h)),
      (''healthy'', JBool (rh_healthy h)),
      (''available'', JBool (rh_available h)),
      (''last_error'', opt_json JStr (rh_last_error h)),
      (''last_success'', opt_json JFloat (rh_last_success h)),
      (''last_failure'', opt_json JFloat (rh_last_failure h)),
      (''successes'', JInt (rh_successes h)),
      (''failures'', JInt (rh_failures h))]"

definition view_to_dict :: "replication_view \<Rightarrow> json" where
  "view_to_dict v = JObj
     [(''primary'', JStr (rv_primary v)),
      (''configured_replicas'', JInt (int (rv_configured v))),
      (''healthy_replicas'', JInt (int (rv_healthy v))),
      (''available_replicas'', JInt (int (rv_available v))),
      (''required_acks'', JInt (rv_required_acks v)),
      (''ready'', JBool (rv_ready v)),
      (''degraded'', JBool (rv_degraded v)),
      (''last_success'', opt_json JFloat (rv_last_success v)),
      (''last_failure'', opt_json JStr (rv_last_failure v)),
      (''replicas'', JList (map health_to_dict (rv_replicas v)))]"

subsection \<open>Error summaries\<close>

text \<open>\<open>type(exc).__name__\<close>.\<close>

fun exn_class :: "exn \<Rightarrow> string" where
  "exn_class (ShardNotFoundError a b) = ''ShardNotFoundError''"
| "exn_class (ShardCreatingError a b) = ''ShardCreatingError''"
| "exn_class (ShardDrainingError a b) = ''ShardDrainingError''"
| "exn_class (ShardOfflineError a b c) = ''ShardOfflineError''"
| "exn_class (NoPrimaryOwnerError a b) = ''NoPrimaryOwnerError''"
| "exn_class (OwnershipMismatchError a b c d) = ''OwnershipMismatchError''"
| "exn_class (OwnershipConflictError a b c) = ''OwnershipConflictError''"
| "exn_class (InvalidLifecycleTransitionError a b c d) = ''InvalidLifecycleTransitionError''"
| "exn_class (PlacementError a b) = ''PlacementError''"
| "exn_class (ShardUnavailableError a b c) = ''ShardUnavailableError''"
| "exn_class (RemoteRouteRequiredError a b c d) = ''RemoteRouteRequiredError''"
| "exn_class (UnknownNodeError a b) = ''UnknownNodeError''"
| "exn_class (DuplicateNodeRegistrationError a) = ''DuplicateNodeRegistrationError''"
| "exn_class (RemovedNodeError a b) = ''RemovedNodeError''"
| "exn_class (InvalidMembershipTransitionError a b c) = ''InvalidMembershipTransitionError''"
| "exn_class (ClusterIdMismatchError a b c) = ''ClusterIdMismatchError''"
| "exn_class (MigrationNotFoundError a) = ''MigrationNotFoundError''"
| "exn_class (InvalidMigrationError a) = ''InvalidMigrationError''"
| "exn_class (MigrationConflictError a b c) = ''MigrationConflictError''"
| "exn_class (MigrationStateError a b) = ''MigrationStateError''"
| "exn_class (MigrationSourceError a b) = ''MigrationSourceError''"
| "exn_class (MigrationTargetError a b) = ''MigrationTargetError''"
| "exn_class (MigrationVerificationError a b c d) = ''MigrationVerificationError''"
| "exn_class (MigrationCommitError a b c d) = ''MigrationCommitError''"
| "exn_class (ReplicaUnavailableError a) = ''ReplicaUnavailableError''"
| "exn_class (ValueError a) = ''ValueError''"
| "exn_class (KeyError a) = ''KeyError''"
| "exn_class (RuntimeError a) = ''RuntimeError''"
| "exn_class (AssertionError a) = ''AssertionError''"
| "exn_class (HTTPException a b) = ''HTTPException''"
| "exn_class (OtherError a b) = a"

text \<open>
  The pattern \<open><[^>]*? at 0x[0-9a-fA-F]+>\<close>: from an opening bracket to the next closing one, where the
  text in between ends with an address.
\<close>

definition hex_digit :: "char \<Rightarrow> bool" where
  "hex_digit c = (c \<in> set ''0123456789abcdefABCDEF'')"

definition ends_with_address :: "string \<Rightarrow> bool" where
  "ends_with_address s =
     (takeWhile hex_digit (rev s) \<noteq> [] \<and>
      starts_with (rev '' at 0x'') (dropWhile hex_digit (rev s)))"

function strip_reprs :: "string \<Rightarrow> string" where
  "strip_reprs [] = []"
| "strip_reprs (c # cs) =
     (let inner = takeWhile (\<lambda>x. x \<noteq> CHR ''>'') cs; rest = dropWhile (\<lambda>x. x \<noteq> CHR ''>'') cs
      in if c = CHR ''<'' \<and> rest \<noteq> [] \<and> ends_with_address inner then ''<...>'' @ strip_reprs (tl rest)
         else c # strip_reprs cs)"
  by pat_completeness auto
termination
  by (relation "measure length")
    (auto simp: less_Suc_eq_le intro: le_trans [OF diff_le_self length_dropWhile_le])

text \<open>\<open>" ".join(msg.split())\<close>.\<close>

function words_of :: "string \<Rightarrow> string list" where
  "words_of s =
     (let t = dropWhile is_space s
      in if t = [] then []
         else takeWhile (\<lambda>c. \<not> is_space c) t # words_of (dropWhile (\<lambda>c. \<not> is_space c) t))"
  by pat_completeness auto
termination
proof (relation "measure length")
  fix s t
  assume t: "t = dropWhile is_space s" and ne: "t \<noteq> []"
  then have "\<not> is_space (hd t)" using hd_dropWhile by blast
  with ne have "length (dropWhile (\<lambda>c. \<not> is_space c) t) < length t"
    by (cases t) (auto simp: le_imp_less_Suc length_dropWhile_le)
  also have "length t \<le> length s" by (simp add: t length_dropWhile_le)
  finally show "(dropWhile (\<lambda>c. \<not> is_space c) t, s) \<in> measure length" by simp
qed simp

declare words_of.simps [simp del]

fun join :: "string \<Rightarrow> string list \<Rightarrow> string" where
  "join sep [] = []"
| "join sep [x] = x"
| "join sep (x # y # xs) = x @ sep @ join sep (y # xs)"

definition stable_error :: "exn \<Rightarrow> string" where
  "stable_error e =
     (let msg = join '' '' (words_of (strip_reprs (exn_str e)))
      in if msg \<noteq> [] then exn_class e @ '': '' @ msg else exn_class e)"

subsection \<open>The transport\<close>

record transport =
  tp_faults :: "string list"
  tp_health :: "(string \<times> string \<times> string, replica_health) dict"
  tp_last_success :: "(string \<times> string, time) dict"
  tp_last_failure :: "(string \<times> string, string) dict"

definition new_transport :: transport where
  "new_transport = \<lparr>tp_faults = [], tp_health = [], tp_last_success = [], tp_last_failure = []\<rparr>"

definition fail_node :: "string \<Rightarrow> transport \<Rightarrow> transport" where
  "fail_node n tp = tp\<lparr>tp_faults := List.insert n (tp_faults tp)\<rparr>"

definition heal_node :: "string \<Rightarrow> transport \<Rightarrow> transport" where
  "heal_node n tp = tp\<lparr>tp_faults := removeAll n (tp_faults tp)\<rparr>"

definition is_faulted :: "transport \<Rightarrow> string \<Rightarrow> bool" where
  "is_faulted tp n = (n \<in> set (tp_faults tp))"

definition fresh_health :: "transport \<Rightarrow> string \<Rightarrow> replica_health" where
  "fresh_health tp n =
     \<lparr>rh_replica_id = n, rh_healthy = True, rh_available = (\<not> is_faulted tp n), rh_last_error = None,
      rh_last_success = None, rh_last_failure = None, rh_successes = 0, rh_failures = 0\<rparr>"

definition health_of :: "transport \<Rightarrow> string \<Rightarrow> string \<Rightarrow> string \<Rightarrow> replica_health" where
  "health_of tp ns sid n =
     (case dict_get (tp_health tp) (ns, sid, n) of None \<Rightarrow> fresh_health tp n | Some h \<Rightarrow> h)"

text \<open>\<open>_record_node\<close>; \<open>outcome\<close> is None for an acknowledged delivery and the error otherwise.\<close>

definition record_node ::
    "time \<Rightarrow> string \<Rightarrow> string \<Rightarrow> string \<Rightarrow> string option \<Rightarrow> transport \<Rightarrow> transport" where
  "record_node now ns sid n outcome tp =
     (let h = health_of tp ns sid n;
          h1 = (case outcome of
             None \<Rightarrow> h\<lparr>rh_healthy := True, rh_available := True, rh_last_error := None,
                       rh_last_success := Some now, rh_successes := rh_successes h + 1\<rparr>
           | Some err \<Rightarrow>
               h\<lparr>rh_healthy := False, rh_available := \<not> is_faulted tp n,
                 rh_last_error := Some (if err = [] then ''unknown'' else err),
                 rh_last_failure := Some now, rh_failures := rh_failures h + 1\<rparr>)
      in tp\<lparr>tp_health := dict_put (ns, sid, n) h1 (tp_health tp)\<rparr>)"

definition primary_name :: "shard \<Rightarrow> string" where
  "primary_name s = (if sh_node_id s = [] then sh_id s else sh_node_id s)"

definition replication_health :: "transport \<Rightarrow> string \<Rightarrow> shard \<Rightarrow> int \<Rightarrow> bool \<Rightarrow> replication_view" where
  "replication_health tp ns s required primary_available =
     (let replicas = map (\<lambda>n. (health_of tp ns (sh_id s) n)\<lparr>rh_available := \<not> is_faulted tp n\<rparr>)
            (sh_replicas s);
          healthy = length (filter rh_healthy replicas)
      in \<lparr>rv_primary = primary_name s, rv_configured = length replicas, rv_healthy = healthy,
          rv_available = length (filter rh_available replicas), rv_required_acks = required,
          rv_ready = (primary_available \<and> 1 + int healthy \<ge> required),
          rv_degraded = list_ex (\<lambda>r. \<not> rh_healthy r \<or> \<not> rh_available r) replicas,
          rv_replicas = replicas,
          rv_last_success = dict_get (tp_last_success tp) (ns, sh_id s),
          rv_last_failure = dict_get (tp_last_failure tp) (ns, sh_id s)\<rparr>)"

subsection \<open>Delivery\<close>

text \<open>One turn of the loop: a faulted node fails before anything reaches it.\<close>

definition deliver_one ::
    "(nat \<Rightarrow> string \<Rightarrow> 'w \<Rightarrow> unit res \<times> 'w) \<Rightarrow> (nat \<Rightarrow> time) \<Rightarrow> string \<Rightarrow> string \<Rightarrow> nat \<Rightarrow> string \<Rightarrow>
     replication_result \<times> transport \<times> 'w \<Rightarrow> replication_result \<times> transport \<times> 'w" where
  "deliver_one attempt clk ns sid j n = (\<lambda>(res, tp, w).
     (let res1 = res\<lparr>rs_attempted := rs_attempted res @ [n]\<rparr>;
          (x, w1) = (if is_faulted tp n then (Inl (ReplicaUnavailableError n), w) else attempt j n w)
      in case x of
           Inr _ \<Rightarrow>
             (res1\<lparr>rs_acknowledged := rs_acknowledged res1 @ [n]\<rparr>, record_node (clk j) ns sid n None tp, w1)
         | Inl e \<Rightarrow>
             (res1\<lparr>rs_failed := rs_failed res1 @ [n],
                   rs_failures := dict_put n (stable_error e) (rs_failures res1)\<rparr>,
              record_node (clk j) ns sid n (Some (stable_error e)) tp, w1)))"

fun deliver_loop ::
    "(nat \<Rightarrow> string \<Rightarrow> 'w \<Rightarrow> unit res \<times> 'w) \<Rightarrow> (nat \<Rightarrow> time) \<Rightarrow> string \<Rightarrow> string \<Rightarrow> nat \<Rightarrow> string list \<Rightarrow>
     replication_result \<times> transport \<times> 'w \<Rightarrow> replication_result \<times> transport \<times> 'w" where
  "deliver_loop attempt clk ns sid j [] st = st"
| "deliver_loop attempt clk ns sid j (n # nodes) st =
     deliver_loop attempt clk ns sid (Suc j) nodes (deliver_one attempt clk ns sid j n st)"

definition new_result :: "shard \<Rightarrow> int \<Rightarrow> replication_result" where
  "new_result s required =
     \<lparr>rs_primary = primary_name s, rs_attempted = [], rs_acknowledged = [], rs_failed = [],
      rs_failures = [], rs_required_acks = required, rs_success = True, rs_degraded = False\<rparr>"

definition failure_line :: "(string, string) dict \<Rightarrow> string" where
  "failure_line d = join '','' (map (\<lambda>(n, e). n @ '': '' @ e) d)"

definition deliver ::
    "(nat \<Rightarrow> string \<Rightarrow> 'w \<Rightarrow> unit res \<times> 'w) \<Rightarrow> (nat \<Rightarrow> time) \<Rightarrow> string \<Rightarrow> shard \<Rightarrow> int \<Rightarrow>
     transport \<times> 'w \<Rightarrow> replication_result \<times> transport \<times> 'w" where
  "deliver attempt clk ns s required = (\<lambda>(tp, w).
     (let (res, tp1, w1) =
            deliver_loop attempt clk ns (sh_id s) 0 (sh_replicas s) (new_result s required, tp, w);
          res1 = res\<lparr>rs_success := 1 + int (length (rs_acknowledged res)) \<ge> required,
                     rs_degraded := rs_failed res \<noteq> []\<rparr>;
          key = (ns, sh_id s);
          tp2 = (if rs_acknowledged res \<noteq> [] then
                   tp1\<lparr>tp_last_success := dict_put key (clk (length (sh_replicas s))) (tp_last_success tp1)\<rparr>
                 else tp1);
          tp3 = (if rs_failures res \<noteq> [] then
                   tp2\<lparr>tp_last_failure := dict_put key (failure_line (rs_failures res)) (tp_last_failure tp2)\<rparr>
                 else tp2)
      in (res1, tp3, w1)))"

subsection \<open>The request summary\<close>

record replication_summary =
  su_success :: bool
  su_degraded :: bool
  su_attempted :: nat
  su_acknowledged :: nat
  su_required_acks :: int
  su_failed :: "string list"

definition sorted_set :: "string list \<Rightarrow> string list" where
  "sorted_set xs = sort (remdups xs)"

definition aggregate_replication :: "replication_result list \<Rightarrow> int \<Rightarrow> replication_summary" where
  "aggregate_replication results required =
     \<lparr>su_success = (results \<noteq> [] \<and> list_all rs_success results),
      su_degraded = list_ex (\<lambda>r. rs_degraded r \<or> \<not> rs_success r) results,
      su_attempted = length (sorted_set (concat (map rs_attempted results))),
      su_acknowledged = length (sorted_set (concat (map rs_acknowledged results))),
      su_required_acks = required,
      su_failed = sorted_set (concat (map rs_failed results))\<rparr>"

subsection \<open>The coordinator\<close>

text \<open>\<open>ReplicationCoordinator\<close>: without a transport it refuses, with one it forwards.\<close>

definition coordinator_replicate ::
    "('t \<Rightarrow> replication_result \<times> 't) \<Rightarrow> 't option \<Rightarrow> replication_result res \<times> 't option" where
  "coordinator_replicate forward transport =
     (case transport of
        None \<Rightarrow> (Inl (RuntimeError
          (''ReplicationCoordinator has no transport; use IngestService.replicator ''
           @ ''(InProcessReplicaTransport) for real replication semantics'')), None)
      | Some t \<Rightarrow> (case forward t of (r, t1) \<Rightarrow> (Inr r, Some t1)))"

end
