(* ===== verification/Index.thy ===== *)
theory Index
  imports Records "HOL-Library.Word" "HOL-Library.Multiset"
begin

text \<open>
  \<open>index/base.py\<close>, \<open>index/flat.py\<close>, \<open>index/scann.py\<close>, \<open>index/lifecycle.py\<close> and
  \<open>index/quantize.py\<close>. Components of vectors are real numbers; the rounding of float32 arithmetic is
  not modelled, and every caller passes ids, rows and metadata of one length, which are one list of
  triples here. \<open>np.argpartition\<close> and \<open>np.argsort\<close> are parameters (numpy leaves the order of equal
  scores open): \<open>np_ops\<close> with what their documentation promises as \<open>np_contract\<close>.
\<close>

unbundle bit_operations_syntax

type_synonym metadata = "(string, json) dict"
type_synonym vec = "real list"

subsection \<open>Scores\<close>

definition dot :: "vec \<Rightarrow> vec \<Rightarrow> real" where
  "dot a b = sum_list (map2 (*) a b)"

definition norm2 :: "vec \<Rightarrow> real" where
  "norm2 a = sqrt (dot a a)"

definition scale_vec :: "real \<Rightarrow> vec \<Rightarrow> vec" where
  "scale_vec c a = map (\<lambda>x. x / c) a"

definition minus_vec :: "vec \<Rightarrow> vec \<Rightarrow> vec" where
  "minus_vec a b = map2 (-) a b"

text \<open>\<open>_score\<close> on one row of the database; an unknown metric scores like the Euclidean one.\<close>

definition score :: "string \<Rightarrow> vec \<Rightarrow> vec \<Rightarrow> real" where
  "score metric q row =
     (if metric = ''cosine'' then
        dot (scale_vec (norm2 row + 1 / 10 ^ 9) row) (scale_vec (norm2 q + 1 / 10 ^ 9) q)
      else if metric = ''euclidean'' then - norm2 (minus_vec row q)
      else if metric = ''dot_product'' then dot row q
      else if metric = ''manhattan'' then - sum_list (map abs (minus_vec row q))
      else - norm2 (minus_vec row q))"

definition normalize_rows :: "string \<Rightarrow> vec list \<Rightarrow> vec list" where
  "normalize_rows metric v =
     (if metric = ''cosine'' then
        map (\<lambda>row. scale_vec (if norm2 row = 0 then 1 else norm2 row) row) v
      else v)"

text \<open>\<open>str.lower\<close> on ASCII letters.\<close>

definition lower :: "string \<Rightarrow> string" where
  "lower s = map (\<lambda>c. if c \<in> set ''ABCDEFGHIJKLMNOPQRSTUVWXYZ'' then char_of (of_char c + (32 :: nat)) else c) s"

subsection \<open>The flat index\<close>

record index_result =
  ir_id :: string
  ir_score :: real
  ir_vector :: "vec option"
  ir_metadata :: "metadata option"

record flat =
  fl_dimension :: nat
  fl_metric :: string
  fl_ids :: "string list"
  fl_vectors :: "vec list option"
  fl_metadatas :: "metadata list"
  fl_id_to_idx :: "(string, nat) dict"

definition new_flat :: "nat \<Rightarrow> string \<Rightarrow> flat" where
  "new_flat d metric =
     \<lparr>fl_dimension = d, fl_metric = lower metric, fl_ids = [], fl_vectors = None,
      fl_metadatas = [], fl_id_to_idx = []\<rparr>"

type_synonym entry = "string \<times> vec \<times> metadata"

definition flat_add :: "entry list \<Rightarrow> flat \<Rightarrow> unit res \<times> flat" where
  "flat_add es f =
     (if es = [] then (Inl (OtherError ''IndexError'' ''tuple index out of range''), f)
      else if \<not> list_all (\<lambda>(i, v, m). length v = fl_dimension f) es then
        (Inl (AssertionError []), f)
      else
        (let rows = map (\<lambda>(i, v, m). v) es; ids = map fst es; start = length (fl_ids f)
         in (Inr (),
             f\<lparr>fl_vectors := Some (case fl_vectors f of None \<Rightarrow> rows | Some vs \<Rightarrow> vs @ rows),
               fl_ids := fl_ids f @ ids,
               fl_metadatas := fl_metadatas f @ map (\<lambda>(i, v, m). m) es,
               fl_id_to_idx := fold (\<lambda>(k, i) d. dict_put i (start + k) d)
                 (zip [0..<length ids] ids) (fl_id_to_idx f)\<rparr>)))"

definition flat_delete :: "string list \<Rightarrow> flat \<Rightarrow> flat" where
  "flat_delete del f =
     (let keep = filter (\<lambda>i. fl_ids f ! i \<notin> set del) [0..<length (fl_ids f)];
          ids = map (\<lambda>i. fl_ids f ! i) keep
      in f\<lparr>fl_ids := ids,
           fl_metadatas := map (\<lambda>i. fl_metadatas f ! i) keep,
           fl_vectors := (if keep \<noteq> [] then map_option (\<lambda>vs. map (\<lambda>i. vs ! i) keep) (fl_vectors f)
                          else None),
           fl_id_to_idx := fold (\<lambda>(k, i) d. dict_put i k d) (zip [0..<length ids] ids) []\<rparr>)"

definition flat_count :: "flat \<Rightarrow> nat" where
  "flat_count f = length (fl_ids f)"

record np_ops =
  np_argpartition :: "real list \<Rightarrow> nat \<Rightarrow> nat list"
  np_argsort :: "real list \<Rightarrow> nat list"

text \<open>
  \<open>argpartition(a, k)\<close> permutes the positions so that the one at \<open>k\<close> is where sorting puts it, smaller
  ones before it and larger ones behind; \<open>argsort\<close> permutes them into ascending order.
\<close>

definition np_contract :: "np_ops \<Rightarrow> bool" where
  "np_contract np \<longleftrightarrow>
     (\<forall>xs k. k < length xs \<longrightarrow>
        mset (np_argpartition np xs k) = mset [0..<length xs] \<and>
        (\<forall>i \<in> set (take (Suc k) (np_argpartition np xs k)).
           \<forall>j \<in> set (drop (Suc k) (np_argpartition np xs k)). xs ! i \<le> xs ! j)) \<and>
     (\<forall>xs. mset (np_argsort np xs) = mset [0..<length xs] \<and>
        sorted (map (\<lambda>i. xs ! i) (np_argsort np xs)))"

definition masked_scores :: "(metadata \<Rightarrow> bool) option \<Rightarrow> vec \<Rightarrow> vec list \<Rightarrow> flat \<Rightarrow> real list" where
  "masked_scores filter_fn q vs f =
     (let scores = map (score (fl_metric f) q) vs
      in case filter_fn of
           None \<Rightarrow> scores
         | Some p \<Rightarrow> map2 (\<lambda>m s. if p m then s else - (10 ^ 9)) (fl_metadatas f) scores)"

definition flat_search ::
    "np_ops \<Rightarrow> vec \<Rightarrow> nat \<Rightarrow> (metadata \<Rightarrow> bool) option \<Rightarrow> flat \<Rightarrow> index_result list" where
  "flat_search np q top_k filter_fn f =
     (case fl_vectors f of
        None \<Rightarrow> []
      | Some vs \<Rightarrow>
          if fl_ids f = [] then []
          else
            (let scores = masked_scores filter_fn q vs f;
                 k = min top_k (length scores);
                 idx = take k (np_argpartition np (map uminus scores) (k - 1));
                 order = map (\<lambda>j. idx ! j) (np_argsort np (map (\<lambda>i. - (scores ! i)) idx))
             in map (\<lambda>j. \<lparr>ir_id = fl_ids f ! j, ir_score = scores ! j, ir_vector = Some (vs ! j),
                          ir_metadata = Some (fl_metadatas f ! j)\<rparr>)
                  (filter (\<lambda>j. \<not> scores ! j \<le> - (10 ^ 8)) order)))"

subsection \<open>Quantization\<close>

text \<open>\<open>np.round\<close>: to the nearest integer, ties to even.\<close>

definition rint :: "real \<Rightarrow> int" where
  "rint x =
     (let f = \<lfloor>x\<rfloor>; d = x - of_int f
      in if d < 1 / 2 then f else if d > 1 / 2 then f + 1 else if even f then f else f + 1)"

definition clip :: "int \<Rightarrow> int \<Rightarrow> int \<Rightarrow> int" where
  "clip x lo hi = min (max x lo) hi"

definition vmin :: "vec \<Rightarrow> real" where
  "vmin v = Min (set v)"

definition vmax :: "vec \<Rightarrow> real" where
  "vmax v = Max (set v)"

definition sq8_quantize :: "vec \<Rightarrow> (int list \<times> real \<times> real) res" where
  "sq8_quantize v =
     (if v = [] then
        Inl (ValueError ''zero-size array to reduction operation minimum which has no identity'')
      else if vmax v = vmin v then Inr (map (\<lambda>x. 0) v, 1, vmin v)
      else
        (let scale = (vmax v - vmin v) / 255; zp = vmin v
         in Inr (map (\<lambda>x. clip (rint ((x - zp) / scale)) 0 255) v, scale, zp)))"

definition sq8_dequantize :: "int list \<Rightarrow> real \<Rightarrow> real \<Rightarrow> vec" where
  "sq8_dequantize codes scale zp = map (\<lambda>c. of_int c * scale + zp) codes"

text \<open>BF16 on the bit patterns of float32 values.\<close>

definition bf16_quantize :: "32 word list \<Rightarrow> 16 word list" where
  "bf16_quantize v = map (\<lambda>u. ucast (drop_bit 16 (u AND 0xFFFF0000))) v"

definition bf16_dequantize :: "16 word list \<Rightarrow> 32 word list" where
  "bf16_dequantize codes = map (\<lambda>c. push_bit 16 (ucast c)) codes"

definition np_stack :: "'a list \<Rightarrow> 'a list res" where
  "np_stack xs = (if xs = [] then Inl (ValueError ''need at least one array to stack'') else Inr xs)"

fun sq8_rows :: "vec list \<Rightarrow> (int list \<times> real \<times> real) list res" where
  "sq8_rows [] = Inr []"
| "sq8_rows (v # vs) =
     (case sq8_quantize v of
        Inl e \<Rightarrow> Inl e
      | Inr c \<Rightarrow> (case sq8_rows vs of Inl e \<Rightarrow> Inl e | Inr cs \<Rightarrow> Inr (c # cs)))"

datatype compressed =
    SQ8Codes "int list list" "real list" "real list"
  | BF16Codes "16 word list list"
  | Uncompressed "vec list"

text \<open>\<open>bits\<close> is the float32 pattern of a component.\<close>

definition compress_vectors :: "(real \<Rightarrow> 32 word) \<Rightarrow> vec list \<Rightarrow> string \<Rightarrow> compressed res" where
  "compress_vectors bits vs compression =
     (if upper compression = ''SQ8'' then
        (case sq8_rows vs of
           Inl e \<Rightarrow> Inl e
         | Inr rows \<Rightarrow>
             (case np_stack (map fst rows) of
                Inl e \<Rightarrow> Inl e
              | Inr codes \<Rightarrow> Inr (SQ8Codes codes (map (\<lambda>(c, sc, zp). sc) rows) (map (\<lambda>(c, sc, zp). zp) rows))))
      else if upper compression = ''BF16'' then
        (case np_stack (map (\<lambda>v. bf16_quantize (map bits v)) vs) of Inl e \<Rightarrow> Inl e | Inr codes \<Rightarrow> Inr (BF16Codes codes))
      else Inr (Uncompressed vs))"

definition decompress_query :: "vec \<Rightarrow> string \<Rightarrow> vec" where
  "decompress_query v compression = v"

text \<open>Whether compression raises does not depend on the patterns.\<close>

lemma compress_raises:
  "compress_vectors bits vs c = Inl e \<longleftrightarrow> compress_vectors bits' vs c = Inl e"
  by (simp add: compress_vectors_def np_stack_def split: sum.splits)

subsection \<open>The ScaNN wrapper\<close>

record scann =
  sc_flat :: flat
  sc_compression :: string
  sc_vectors_raw :: "vec list option"

definition new_scann :: "nat \<Rightarrow> string \<Rightarrow> string \<Rightarrow> scann" where
  "new_scann d metric compression =
     \<lparr>sc_flat = new_flat d metric, sc_compression = upper compression, sc_vectors_raw = None\<rparr>"

text \<open>\<open>add\<close> compresses the rows and drops the codes: only what compressing raises matters.\<close>

definition scann_add :: "entry list \<Rightarrow> scann \<Rightarrow> unit res \<times> scann" where
  "scann_add es s =
     (let rows = map (\<lambda>(i, v, m). v) es;
          x = (if sc_compression s \<in> {''SQ8'', ''BF16''} then compress_vectors (\<lambda>c. 0) rows (sc_compression s)
               else Inr (Uncompressed rows));
          s1 = (if sc_compression s \<in> {''SQ8'', ''BF16''} then
                  s\<lparr>sc_vectors_raw := Some (case sc_vectors_raw s of None \<Rightarrow> rows | Some vs \<Rightarrow> vs @ rows)\<rparr>
                else s)
      in case x of
           Inl e \<Rightarrow> (Inl e, s)
         | Inr codes \<Rightarrow> (case flat_add es (sc_flat s1) of (r, f) \<Rightarrow> (r, s1\<lparr>sc_flat := f\<rparr>)))"

definition scann_delete :: "string list \<Rightarrow> scann \<Rightarrow> scann" where
  "scann_delete del s = s\<lparr>sc_flat := flat_delete del (sc_flat s)\<rparr>"

definition scann_count :: "scann \<Rightarrow> nat" where
  "scann_count s = flat_count (sc_flat s)"

text \<open>The re-ranking scales every score by one factor and sorts by score, descending and stably.\<close>

definition sort_desc :: "('a \<Rightarrow> real) \<Rightarrow> 'a list \<Rightarrow> 'a list" where
  "sort_desc f xs = sort_key (\<lambda>x. - f x) xs"

definition scann_search ::
    "np_ops \<Rightarrow> vec \<Rightarrow> nat \<Rightarrow> (metadata \<Rightarrow> bool) option \<Rightarrow> scann \<Rightarrow> index_result list" where
  "scann_search np q top_k filter_fn s =
     (let k1 = (if scann_count s \<noteq> 0 then min (top_k * 3) (scann_count s) else 0)
      in if k1 = 0 then []
         else
           (let candidates = flat_search np q k1 filter_fn (sc_flat s);
                reranked =
                  (if fl_metric (sc_flat s) = ''cosine'' then
                     (let qn = norm2 q + 1 / 10 ^ 9
                      in sort_desc ir_score
                           (map (\<lambda>r. r\<lparr>ir_score := ir_score r * (1 + 0.05 * (qn - 1))\<rparr>) candidates))
                   else candidates)
            in take top_k reranked))"

subsection \<open>The index lifecycle\<close>

datatype IndexState = BUILDING | READY | DEGRADED | COMPACTING

record index_lifecycle =
  il_state :: IndexState
  il_delete_count :: int
  il_total_count :: int
  il_fragmentation :: real
  il_delete_ratio_threshold :: real
  il_fragmentation_threshold :: real
  il_interval_hours :: int
  il_last_compaction :: time

definition new_index_lifecycle :: "time \<Rightarrow> index_lifecycle" where
  "new_index_lifecycle now =
     \<lparr>il_state = BUILDING, il_delete_count = 0, il_total_count = 0, il_fragmentation = 0,
      il_delete_ratio_threshold = 0.10, il_fragmentation_threshold = 0.3, il_interval_hours = 6,
      il_last_compaction = now\<rparr>"

definition il_transition :: "IndexState \<Rightarrow> index_lifecycle \<Rightarrow> index_lifecycle" where
  "il_transition to l = l\<lparr>il_state := to\<rparr>"

definition mark_ready :: "index_lifecycle \<Rightarrow> index_lifecycle" where
  "mark_ready l = il_transition READY l"

definition mark_degraded :: "index_lifecycle \<Rightarrow> index_lifecycle" where
  "mark_degraded l = il_transition DEGRADED l"

definition mark_building :: "index_lifecycle \<Rightarrow> index_lifecycle" where
  "mark_building l = il_transition BUILDING l"

definition notify_write :: "int \<Rightarrow> index_lifecycle \<Rightarrow> index_lifecycle" where
  "notify_write n l = l\<lparr>il_total_count := il_total_count l + n\<rparr>"

definition notify_delete :: "int \<Rightarrow> index_lifecycle \<Rightarrow> index_lifecycle" where
  "notify_delete n l =
     l\<lparr>il_delete_count := il_delete_count l + n, il_total_count := max 0 (il_total_count l - n)\<rparr>"

definition should_compact :: "time \<Rightarrow> index_lifecycle \<Rightarrow> bool" where
  "should_compact now l =
     (if il_total_count l = 0 then False
      else
        of_int (il_delete_count l) / of_int (max 1 (il_total_count l + il_delete_count l))
            > il_delete_ratio_threshold l \<or>
        il_fragmentation l > il_fragmentation_threshold l \<or>
        now - il_last_compaction l > of_int (il_interval_hours l * 3600))"

text \<open>
  \<open>maybe_compact\<close>; \<open>outcome\<close> is the one of the index's own compaction, an exception of which
  passes through after the state is READY again.
\<close>

definition maybe_compact ::
    "time \<Rightarrow> time \<Rightarrow> unit res \<Rightarrow> index_lifecycle \<Rightarrow> unit res \<times> index_lifecycle" where
  "maybe_compact now now2 outcome l =
     (if should_compact now l \<and> il_state l = READY then
        (case outcome of
           Inl e \<Rightarrow> (Inl e, il_transition READY (il_transition COMPACTING l))
         | Inr _ \<Rightarrow>
             (Inr (), il_transition READY
                ((il_transition COMPACTING l)\<lparr>il_delete_count := 0, il_fragmentation := 0,
                   il_last_compaction := now2\<rparr>)))
      else (Inr (), l))"

end
