(* ===== verification/Index_Ann.thy ===== *)
theory Index_Ann
  imports Index
begin

text \<open>
  \<open>index/hnsw.py\<close>, \<open>index/ivf_pq.py\<close> and \<open>index/factory.py\<close>. hnswlib and faiss are optional packages:
  their objects have an abstract type and their operations are parameters (\<open>hnsw_lib\<close>, \<open>faiss_lib\<close>;
  None when the import failed), so what is modelled is the bookkeeping around them and the fallback
  to the flat index.
\<close>

text \<open>The loop that turns neighbours into results: skipped ones, and a break at \<open>k\<close> results.\<close>

fun collect :: "nat \<Rightarrow> ('x \<Rightarrow> 'r option) \<Rightarrow> 'r list \<Rightarrow> 'x list \<Rightarrow> 'r list" where
  "collect k f res [] = res"
| "collect k f res (x # xs) =
     (case f x of
        None \<Rightarrow> collect k f res xs
      | Some r \<Rightarrow> if length res + 1 \<ge> k then res @ [r] else collect k f (res @ [r]) xs)"

subsection \<open>HNSW\<close>

record 'h hnsw_lib =
  hl_new :: "string \<Rightarrow> nat \<Rightarrow> nat \<Rightarrow> nat \<Rightarrow> nat \<Rightarrow> nat \<Rightarrow> 'h"
  hl_set_ef :: "nat \<Rightarrow> 'h \<Rightarrow> 'h"
  hl_max_elements :: "'h \<Rightarrow> nat"
  hl_resize :: "nat \<Rightarrow> 'h \<Rightarrow> 'h"
  hl_add_items :: "vec list \<Rightarrow> nat list \<Rightarrow> 'h \<Rightarrow> unit res \<times> 'h"
  hl_mark_deleted :: "nat \<Rightarrow> 'h \<Rightarrow> unit res \<times> 'h"
  hl_knn_query :: "vec \<Rightarrow> nat \<Rightarrow> 'h \<Rightarrow> (nat \<times> real) list res"

record 'h hnsw =
  hn_metric :: string
  hn_M :: nat
  hn_ef_construction :: nat
  hn_ef_search :: nat
  hn_max_elements :: nat
  hn_count :: int
  hn_label_to_id :: "(nat, string) dict"
  hn_id_to_label :: "(string, nat) dict"
  hn_metadatas :: "(nat, metadata) dict"
  hn_next_label :: nat
  hn_space :: string
  hn_backend :: "'h + flat"
  hn_degraded :: bool
  hn_backend_name :: string
  hn_native :: bool

definition hnsw_space :: "string \<Rightarrow> string" where
  "hnsw_space metric =
     (if lower metric = ''cosine'' then ''cosine''
      else if lower metric = ''euclidean'' then ''l2''
      else if lower metric = ''dot_product'' then ''ip''
      else ''l2'')"

definition new_hnsw :: "'h hnsw_lib option \<Rightarrow> nat \<Rightarrow> string \<Rightarrow> nat \<Rightarrow> nat \<Rightarrow> nat \<Rightarrow> nat \<Rightarrow> 'h hnsw" where
  "new_hnsw lib d metric m ef_construction ef_search max_elements =
     \<lparr>hn_metric = lower metric, hn_M = m, hn_ef_construction = ef_construction,
      hn_ef_search = ef_search, hn_max_elements = max_elements, hn_count = 0,
      hn_label_to_id = [], hn_id_to_label = [], hn_metadatas = [], hn_next_label = 0,
      hn_space = hnsw_space metric,
      hn_backend = (case lib of
         Some l \<Rightarrow> Inl (hl_new l (hnsw_space metric) d max_elements ef_construction m ef_search)
       | None \<Rightarrow> Inr (new_flat d metric)),
      hn_degraded = (lib = None),
      hn_backend_name = (if lib = None then ''FlatIndex'' else ''HNSW''),
      hn_native = (lib \<noteq> None)\<rparr>"

definition hnsw_max_level :: "'h hnsw \<Rightarrow> int" where
  "hnsw_max_level x =
     (if hn_count x = 0 then 0
      else \<lfloor>ln (of_int (hn_count x) + 1) / ln (of_nat (hn_M x) + 1 / 10 ^ 9 :: real)\<rfloor>)"

definition ensure_capacity :: "'h hnsw_lib \<Rightarrow> nat \<Rightarrow> int \<Rightarrow> 'h \<Rightarrow> 'h" where
  "ensure_capacity l need cnt h =
     (if cnt + int need > int (hl_max_elements l h) then
        hl_resize l (max (hl_max_elements l h * 2) (nat (cnt + int need + 1000))) h
      else h)"

definition hnsw_add :: "'h hnsw_lib option \<Rightarrow> entry list \<Rightarrow> 'h hnsw \<Rightarrow> unit res \<times> 'h hnsw" where
  "hnsw_add lib es x =
     (case (lib, hn_backend x) of
        (Some l, Inl h) \<Rightarrow>
          (let n = length es;
               h1 = ensure_capacity l n (hn_count x) h;
               labels = [hn_next_label x ..< hn_next_label x + n]
           in case hl_add_items l (map (\<lambda>(i, v, m). v) es) labels h1 of
                (Inl e, h2) \<Rightarrow> (Inl e, x\<lparr>hn_backend := Inl h2\<rparr>)
              | (Inr _, h2) \<Rightarrow>
                  (Inr (),
                   x\<lparr>hn_backend := Inl h2,
                     hn_label_to_id := fold (\<lambda>(k, i, v, m) d. dict_put k i d) (zip labels es) (hn_label_to_id x),
                     hn_id_to_label := fold (\<lambda>(k, i, v, m) d. dict_put i k d) (zip labels es) (hn_id_to_label x),
                     hn_metadatas := fold (\<lambda>(k, i, v, m) d. dict_put k m d) (zip labels es) (hn_metadatas x),
                     hn_next_label := hn_next_label x + n,
                     hn_count := hn_count x + int n\<rparr>))
      | (_, Inr f) \<Rightarrow>
          (case flat_add es f of
             (Inl e, f1) \<Rightarrow> (Inl e, x\<lparr>hn_backend := Inr f1\<rparr>)
           | (Inr _, f1) \<Rightarrow> (Inr (), x\<lparr>hn_backend := Inr f1, hn_count := int (flat_count f1)\<rparr>))
      | (None, Inl h) \<Rightarrow> (Inl (AssertionError []), x))"

definition hnsw_delete_one :: "'h hnsw_lib \<Rightarrow> string \<Rightarrow> 'h hnsw \<Rightarrow> 'h hnsw" where
  "hnsw_delete_one l i x =
     (case (hn_backend x, dict_get (hn_id_to_label x) i) of
        (Inl h, Some label) \<Rightarrow>
          x\<lparr>hn_id_to_label := dict_pop i (hn_id_to_label x),
            hn_backend := Inl (snd (hl_mark_deleted l label h)),
            hn_label_to_id := dict_pop label (hn_label_to_id x),
            hn_metadatas := dict_pop label (hn_metadatas x),
            hn_count := max 0 (hn_count x - 1)\<rparr>
      | _ \<Rightarrow> x)"

definition hnsw_delete :: "'h hnsw_lib option \<Rightarrow> string list \<Rightarrow> 'h hnsw \<Rightarrow> 'h hnsw" where
  "hnsw_delete lib del x =
     (case (lib, hn_backend x) of
        (Some l, Inl h) \<Rightarrow> fold (hnsw_delete_one l) del x
      | (_, Inr f) \<Rightarrow>
          x\<lparr>hn_backend := Inr (flat_delete del f), hn_count := int (flat_count (flat_delete del f))\<rparr>
      | (None, Inl h) \<Rightarrow> x)"

definition set_ef :: "'h hnsw_lib option \<Rightarrow> nat \<Rightarrow> 'h hnsw \<Rightarrow> 'h hnsw" where
  "set_ef lib ef x =
     x\<lparr>hn_ef_search := ef,
       hn_backend := (case (lib, hn_backend x) of (Some l, Inl h) \<Rightarrow> Inl (hl_set_ef l ef h) | (_, b) \<Rightarrow> b)\<rparr>"

definition hnsw_result ::
    "'h hnsw \<Rightarrow> (metadata \<Rightarrow> bool) option \<Rightarrow> nat \<times> real \<Rightarrow> index_result option" where
  "hnsw_result x filter_fn = (\<lambda>(lab, dist).
     case dict_get (hn_label_to_id x) lab of
       None \<Rightarrow> None
     | Some i \<Rightarrow>
         (let md = (case dict_get (hn_metadatas x) lab of None \<Rightarrow> [] | Some m \<Rightarrow> m)
          in if (case filter_fn of None \<Rightarrow> False | Some p \<Rightarrow> \<not> p md) then None
             else Some \<lparr>ir_id = i, ir_score = (if hn_space x = ''cosine'' then 1 - dist else - dist),
                        ir_vector = None, ir_metadata = Some md\<rparr>))"

definition hnsw_search ::
    "np_ops \<Rightarrow> 'h hnsw_lib option \<Rightarrow> vec \<Rightarrow> nat \<Rightarrow> nat option \<Rightarrow> (metadata \<Rightarrow> bool) option \<Rightarrow> 'h hnsw \<Rightarrow>
     index_result list \<times> 'h hnsw" where
  "hnsw_search np lib q top_k ef filter_fn x0 =
     (let x = (case ef of None \<Rightarrow> x0 | Some e \<Rightarrow> set_ef lib e x0)
      in case (lib, hn_backend x) of
           (Some l, Inl h) \<Rightarrow>
             if hn_count x = 0 then ([], x)
             else
               (let k = min (if filter_fn \<noteq> None then top_k * 3 else top_k) (nat (hn_count x))
                in case hl_knn_query l q k h of
                     Inl e \<Rightarrow> ([], x)
                   | Inr near \<Rightarrow> (collect top_k (hnsw_result x filter_fn) [] near, x))
         | (_, Inr f) \<Rightarrow> (flat_search np q top_k filter_fn f, x)
         | (None, Inl h) \<Rightarrow> ([], x))"

subsection \<open>IVF-PQ\<close>

record 'f faiss_lib =
  fa_new :: "string \<Rightarrow> nat \<Rightarrow> nat \<Rightarrow> nat \<Rightarrow> 'f res"
  fa_is_trained :: "'f \<Rightarrow> bool"
  fa_train :: "vec list \<Rightarrow> 'f \<Rightarrow> unit res \<times> 'f"
  fa_add_with_ids :: "vec list \<Rightarrow> nat list \<Rightarrow> 'f \<Rightarrow> unit res \<times> 'f"
  fa_add :: "vec list \<Rightarrow> 'f \<Rightarrow> unit res \<times> 'f"
  fa_search :: "vec \<Rightarrow> nat \<Rightarrow> nat \<Rightarrow> 'f \<Rightarrow> (real \<times> int) list res"
  fa_normalize_L2 :: "vec list \<Rightarrow> vec list"

record 'f ivf =
  iv_dimension :: nat
  iv_metric :: string
  iv_nlist :: nat
  iv_nprobe :: nat
  iv_m :: nat
  iv_fallback :: flat
  iv_trained :: bool
  iv_faiss :: "'f option"
  iv_degraded :: bool
  iv_backend_name :: string
  iv_native :: bool
  iv_ids :: "string list"
  iv_id_to_idx :: "(string, nat) dict"
  iv_metadatas :: "metadata list"

definition new_ivf :: "'f faiss_lib option \<Rightarrow> nat \<Rightarrow> string \<Rightarrow> nat \<Rightarrow> nat \<Rightarrow> 'f ivf" where
  "new_ivf lib d metric nlist nprobe =
     (let m = max 1 (d div 8);
          faiss = (case lib of None \<Rightarrow> None
             | Some l \<Rightarrow> (case fa_new l metric d nlist m of Inl e \<Rightarrow> None | Inr ix \<Rightarrow> Some ix))
      in \<lparr>iv_dimension = d, iv_metric = lower metric, iv_nlist = nlist, iv_nprobe = nprobe, iv_m = m,
          iv_fallback = new_flat d metric, iv_trained = False, iv_faiss = faiss,
          iv_degraded = (faiss = None),
          iv_backend_name = (if faiss = None then ''FlatIndex'' else ''FAISS''),
          iv_native = (faiss \<noteq> None), iv_ids = [], iv_id_to_idx = [], iv_metadatas = []\<rparr>)"

text \<open>\<open>train\<close>; normalization happens in place, so the sample as left is returned too.\<close>

definition ivf_train :: "'f faiss_lib option \<Rightarrow> vec list \<Rightarrow> 'f ivf \<Rightarrow> vec list \<times> 'f ivf" where
  "ivf_train lib sample x =
     (case (lib, iv_faiss x) of
        (Some l, Some ix) \<Rightarrow>
          if length sample < iv_nlist x then (sample, x)
          else
            (let s = (if iv_metric x = ''cosine'' then fa_normalize_L2 l sample else sample)
             in case fa_train l s ix of
                  (Inl e, ix1) \<Rightarrow> (s, x\<lparr>iv_faiss := Some ix1\<rparr>)
                | (Inr _, ix1) \<Rightarrow> (s, x\<lparr>iv_faiss := Some ix1, iv_trained := True\<rparr>))
      | _ \<Rightarrow> (sample, x\<lparr>iv_trained := True\<rparr>))"

definition numbered :: "nat \<Rightarrow> string list \<Rightarrow> (string, nat) dict \<Rightarrow> (string, nat) dict" where
  "numbered start ids d = fold (\<lambda>(k, i) d. dict_put i (start + k) d) (zip [0..<length ids] ids) d"

text \<open>Adding while faiss is not trained: the fallback collects, and from 1000 vectors on training is tried.\<close>

definition ivf_add_untrained ::
    "'f faiss_lib \<Rightarrow> entry list \<Rightarrow> 'f ivf \<Rightarrow> unit res \<times> 'f ivf" where
  "ivf_add_untrained l es x =
     (case flat_add es (iv_fallback x) of
        (Inl e, f) \<Rightarrow> (Inl e, x\<lparr>iv_fallback := f\<rparr>)
      | (Inr _, f) \<Rightarrow>
          if flat_count f \<ge> 1000 then
            (case fl_vectors f of
               None \<Rightarrow> (Inr (), x\<lparr>iv_fallback := f\<rparr>)
             | Some all_vec \<Rightarrow>
                 (let n = min 100000 (length all_vec);
                      (sample, x1) = ivf_train (Some l) (take n all_vec) (x\<lparr>iv_fallback := f\<rparr>);
                      all1 = sample @ drop n all_vec
                  in case iv_faiss x1 of
                       Some ix \<Rightarrow>
                         if fa_is_trained l ix then
                           (let all2 = (if iv_metric x = ''cosine'' then fa_normalize_L2 l all1 else all1)
                            in case fa_add_with_ids l all2 [0..<length all2] ix of
                                 (Inl e, ix1) \<Rightarrow>
                                   (Inl e, x1\<lparr>iv_faiss := Some ix1,
                                      iv_fallback := f\<lparr>fl_vectors := Some all2\<rparr>\<rparr>)
                               | (Inr _, ix1) \<Rightarrow>
                                   (Inr (), x1\<lparr>iv_faiss := Some ix1, iv_ids := fl_ids f,
                                      iv_metadatas := fl_metadatas f,
                                      iv_id_to_idx := numbered 0 (fl_ids f) [],
                                      iv_fallback := new_flat (iv_dimension x) (iv_metric x)\<rparr>))
                         else (Inr (), x1\<lparr>iv_fallback := f\<lparr>fl_vectors := Some all1\<rparr>\<rparr>)
                     | None \<Rightarrow> (Inr (), x1)))
          else (Inr (), x\<lparr>iv_fallback := f\<rparr>))"

definition ivf_add :: "'f faiss_lib option \<Rightarrow> entry list \<Rightarrow> 'f ivf \<Rightarrow> unit res \<times> 'f ivf" where
  "ivf_add lib es x =
     (case (lib, iv_faiss x) of
        (Some l, Some ix) \<Rightarrow>
          if \<not> fa_is_trained l ix then ivf_add_untrained l es x
          else
            (let rows = map (\<lambda>(i, v, m). v) es;
                 v = (if iv_metric x = ''cosine'' then fa_normalize_L2 l rows else rows);
                 start = length (iv_ids x);
                 (r, ix1) = (case fa_add_with_ids l v [start..<start + length es] ix of
                     (Inr u, ix1) \<Rightarrow> (Inr u, ix1) | (Inl e, ix1) \<Rightarrow> fa_add l v ix1)
             in case r of
                  Inl e \<Rightarrow> (Inl e, x\<lparr>iv_faiss := Some ix1\<rparr>)
                | Inr _ \<Rightarrow>
                    (Inr (), x\<lparr>iv_faiss := Some ix1, iv_ids := iv_ids x @ map fst es,
                       iv_id_to_idx := numbered start (map fst es) (iv_id_to_idx x),
                       iv_metadatas := iv_metadatas x @ map (\<lambda>(i, v, m). m) es\<rparr>))
      | _ \<Rightarrow>
          (case flat_add es (iv_fallback x) of
             (Inl e, f) \<Rightarrow> (Inl e, x\<lparr>iv_fallback := f\<rparr>)
           | (Inr _, f) \<Rightarrow> (Inr (), x\<lparr>iv_fallback := f, iv_ids := []\<rparr>)))"

definition deleted_mark :: metadata where
  "deleted_mark = [(''_deleted'', JBool True)]"

definition is_deleted :: "metadata \<Rightarrow> bool" where
  "is_deleted m = (case map_of m ''_deleted'' of None \<Rightarrow> False | Some j \<Rightarrow> json_truthy j)"

definition ivf_delete_one :: "string \<Rightarrow> 'f ivf \<Rightarrow> 'f ivf" where
  "ivf_delete_one i x =
     (case dict_get (iv_id_to_idx x) i of
        None \<Rightarrow> x
      | Some idx \<Rightarrow>
          x\<lparr>iv_id_to_idx := dict_pop i (iv_id_to_idx x),
            iv_metadatas := (if idx < length (iv_metadatas x) then (iv_metadatas x)[idx := deleted_mark]
                             else iv_metadatas x)\<rparr>)"

definition ivf_delete :: "string list \<Rightarrow> 'f ivf \<Rightarrow> 'f ivf" where
  "ivf_delete del x =
     (if iv_faiss x \<noteq> None \<and> iv_ids x \<noteq> [] then fold ivf_delete_one del x
      else x\<lparr>iv_fallback := flat_delete del (iv_fallback x)\<rparr>)"

definition ivf_count :: "'f ivf \<Rightarrow> nat" where
  "ivf_count x =
     (if iv_faiss x \<noteq> None \<and> iv_ids x \<noteq> [] then length (filter (\<lambda>m. \<not> is_deleted m) (iv_metadatas x))
      else flat_count (iv_fallback x))"

definition ivf_result ::
    "'f ivf \<Rightarrow> (metadata \<Rightarrow> bool) option \<Rightarrow> real \<times> int \<Rightarrow> index_result option" where
  "ivf_result x filter_fn = (\<lambda>(dist, idx).
     if idx = -1 \<or> idx \<ge> int (length (iv_ids x)) then None
     else
       (let md = iv_metadatas x ! nat idx
        in if is_deleted md then None
           else if (case filter_fn of None \<Rightarrow> False | Some p \<Rightarrow> \<not> p md) then None
           else Some \<lparr>ir_id = iv_ids x ! nat idx,
                      ir_score = (if iv_metric x = ''cosine'' then dist else - dist),
                      ir_vector = None, ir_metadata = Some md\<rparr>))"

text \<open>An empty answer of faiss, or an exception, falls through to the flat index.\<close>

definition ivf_search ::
    "np_ops \<Rightarrow> 'f faiss_lib option \<Rightarrow> vec \<Rightarrow> nat \<Rightarrow> nat option \<Rightarrow> (metadata \<Rightarrow> bool) option \<Rightarrow> 'f ivf \<Rightarrow>
     index_result list" where
  "ivf_search np lib q top_k nprobe filter_fn x =
     (let probe = (case nprobe of None \<Rightarrow> iv_nprobe x | Some p \<Rightarrow> if p = 0 then iv_nprobe x else p)
      in case (lib, iv_faiss x) of
           (Some l, Some ix) \<Rightarrow>
             if fa_is_trained l ix \<and> iv_ids x \<noteq> [] then
               (let q1 = (if iv_metric x = ''cosine'' then hd (fa_normalize_L2 l [q]) else q);
                    k = (if filter_fn \<noteq> None then top_k * 3 else top_k);
                    res = (case fa_search l q1 k (min probe (iv_nlist x)) ix of
                        Inl e \<Rightarrow> [] | Inr near \<Rightarrow> collect top_k (ivf_result x filter_fn) [] near)
                in if res \<noteq> [] then res else flat_search np q1 top_k filter_fn (iv_fallback x))
             else flat_search np q top_k filter_fn (iv_fallback x)
         | _ \<Rightarrow> flat_search np q top_k filter_fn (iv_fallback x))"

definition compressed_size_bytes :: "'f ivf \<Rightarrow> nat" where
  "compressed_size_bytes x = iv_dimension x div iv_m x * iv_m x"

subsection \<open>The factory\<close>

datatype ('h, 'f) vindex = FlatIx flat | HnswIx "'h hnsw" | IvfIx "'f ivf" | ScannIx scann

definition create_index ::
    "'h hnsw_lib option \<Rightarrow> 'f faiss_lib option \<Rightarrow> string \<Rightarrow> nat \<Rightarrow> string \<Rightarrow> ('h, 'f) vindex res" where
  "create_index hl fl index_type d metric =
     (let t = upper index_type
      in if t = ''HNSW'' then Inr (HnswIx (new_hnsw hl d metric 16 200 100 1000000))
         else if t \<in> {''IVF_PQ'', ''IVF-PQ'', ''IVFPQ''} then Inr (IvfIx (new_ivf fl d metric 4096 64))
         else if t = ''SCANN'' then Inr (ScannIx (new_scann d metric ''NONE''))
         else if t = ''FLAT'' then Inr (FlatIx (new_flat d metric))
         else Inl (ValueError (''unknown index_type '' @ index_type)))"

fun vx_add ::
    "'h hnsw_lib option \<Rightarrow> 'f faiss_lib option \<Rightarrow> entry list \<Rightarrow> ('h, 'f) vindex \<Rightarrow>
     unit res \<times> ('h, 'f) vindex" where
  "vx_add hl fl es (FlatIx f) = (case flat_add es f of (r, f1) \<Rightarrow> (r, FlatIx f1))"
| "vx_add hl fl es (HnswIx x) = (case hnsw_add hl es x of (r, x1) \<Rightarrow> (r, HnswIx x1))"
| "vx_add hl fl es (IvfIx x) = (case ivf_add fl es x of (r, x1) \<Rightarrow> (r, IvfIx x1))"
| "vx_add hl fl es (ScannIx s) = (case scann_add es s of (r, s1) \<Rightarrow> (r, ScannIx s1))"

fun vx_delete :: "'h hnsw_lib option \<Rightarrow> string list \<Rightarrow> ('h, 'f) vindex \<Rightarrow> ('h, 'f) vindex" where
  "vx_delete hl del (FlatIx f) = FlatIx (flat_delete del f)"
| "vx_delete hl del (HnswIx x) = HnswIx (hnsw_delete hl del x)"
| "vx_delete hl del (IvfIx x) = IvfIx (ivf_delete del x)"
| "vx_delete hl del (ScannIx s) = ScannIx (scann_delete del s)"

fun vx_search ::
    "np_ops \<Rightarrow> 'h hnsw_lib option \<Rightarrow> 'f faiss_lib option \<Rightarrow> vec \<Rightarrow> nat \<Rightarrow> nat \<Rightarrow> nat option \<Rightarrow>
     (metadata \<Rightarrow> bool) option \<Rightarrow> ('h, 'f) vindex \<Rightarrow> index_result list \<times> ('h, 'f) vindex" where
  "vx_search np hl fl q top_k ef nprobe p (FlatIx f) = (flat_search np q top_k p f, FlatIx f)"
| "vx_search np hl fl q top_k ef nprobe p (HnswIx x) =
     (case hnsw_search np hl q top_k (Some ef) p x of (r, x1) \<Rightarrow> (r, HnswIx x1))"
| "vx_search np hl fl q top_k ef nprobe p (IvfIx x) = (ivf_search np fl q top_k nprobe p x, IvfIx x)"
| "vx_search np hl fl q top_k ef nprobe p (ScannIx s) = (scann_search np q top_k p s, ScannIx s)"

end
