(* ===== verification/Shard_Context.thy ===== *)
theory Shard_Context
  imports Index_Ann Shard_Transfer
begin

text \<open>
  \<open>ShardContext\<close> of \<open>ingest/service.py\<close> (one shard's log, segment store, index, index lifecycle and
  tombstones) and the replica side of \<open>sharding/replication.py\<close>: the application of a replicated
  operation to a context. The files of an open context are in its log and store. The shard object a
  context refers to is kept beside it: the primary's is the router's object, a replica's its own.
  \<open>moment\<close> is one reading of the clocks with the process id, \<open>libs\<close> are the optional index libraries.
  The group commit thread of the log does not run here; \<open>Wal_Facts\<close> has its interleavings.
\<close>

subsection \<open>Opening a context\<close>

record moment =
  mo_ns :: nat
  mo_ms :: nat
  mo_pid :: nat
  mo_time :: time

record ('h, 'f) libs =
  lib_hnsw :: "'h hnsw_lib option"
  lib_faiss :: "'f faiss_lib option"
  lib_np :: np_ops

record ('h, 'f) shard_ctx =
  cx_namespace :: namespace
  cx_wal :: wal
  cx_segments :: segments
  cx_index :: "('h, 'f) vindex"
  cx_lifecycle :: index_lifecycle
  cx_recovery :: recovery_result
  cx_tombstones :: "string list"

fun index_type_value :: "IndexType \<Rightarrow> string" where
  "index_type_value HNSW = ''HNSW''"
| "index_type_value IVF_PQ = ''IVF_PQ''"
| "index_type_value FLAT = ''FLAT''"
| "index_type_value SCANN = ''SCANN''"

fun metric_value :: "DistanceMetric \<Rightarrow> string" where
  "metric_value COSINE = ''COSINE''"
| "metric_value EUCLIDEAN = ''EUCLIDEAN''"
| "metric_value DOT_PRODUCT = ''DOT_PRODUCT''"
| "metric_value MANHATTAN = ''MANHATTAN''"

definition count_vector :: "shard \<Rightarrow> shard" where
  "count_vector s = s\<lparr>sh_vector_count := sh_vector_count s + 1\<rparr>"

text \<open>The loop that rebuilds the index from the recovered records.\<close>

fun load_records ::
    "('h, 'f) libs \<Rightarrow> vector_record list \<Rightarrow> ('h, 'f) vindex \<times> index_lifecycle \<times> shard \<Rightarrow>
     unit res \<times> ('h, 'f) vindex \<times> index_lifecycle \<times> shard" where
  "load_records lb [] st = (Inr (), st)"
| "load_records lb (r # rs) (ix, l, s) =
     (case vx_add (lib_hnsw lb) (lib_faiss lb) [(vr_id r, vr_vector r, vr_metadata r)] ix of
        (Inl e, ix1) \<Rightarrow> (Inl e, ix1, l, s)
      | (Inr _, ix1) \<Rightarrow> load_records lb rs (ix1, notify_write 1 l, count_vector s))"

definition open_ctx ::
    "('h, 'f) libs \<Rightarrow> codec \<Rightarrow> moment \<Rightarrow> string \<Rightarrow> shard \<Rightarrow> namespace \<Rightarrow> storage \<Rightarrow>
     ('h, 'f) shard_ctx res \<times> shard" where
  "open_ctx lb cd mo base s ns fs =
     (case create_index (lib_hnsw lb) (lib_faiss lb) (index_type_value (ns_index_type ns))
             (nat (ns_dimension ns)) (metric_value (ns_distance_metric ns)) of
        Inl e \<Rightarrow> (Inl e, s)
      | Inr ix \<Rightarrow>
          (case recover cd (mo_ns mo)
                  (open_wal fs (base @ ''/wal/'' @ sh_id s), open_seg fs (base @ ''/segments/'' @ sh_id s)) of
             (Inl e, w, sg) \<Rightarrow> (Inl e, s)
           | (Inr res, w, sg) \<Rightarrow>
               (case load_records lb (rr_records res) (ix, new_index_lifecycle (mo_time mo), s) of
                  (Inl e, ix1, l1, s1) \<Rightarrow> (Inl e, s1)
                | (Inr _, ix1, l1, s1) \<Rightarrow>
                    (Inr \<lparr>cx_namespace = ns, cx_wal = w, cx_segments = sg, cx_index = ix1,
                          cx_lifecycle = mark_ready l1, cx_recovery = res,
                          cx_tombstones = rr_deleted_ids res\<rparr>, s1))))"

subsection \<open>The pieces of a write\<close>

definition log_payload :: "moment \<Rightarrow> byte list \<Rightarrow> ('h, 'f) shard_ctx \<Rightarrow> ('h, 'f) shard_ctx" where
  "log_payload mo payload cx = cx\<lparr>cx_wal := wal_append (new_entry (mo_ns mo) payload 0) (cx_wal cx)\<rparr>"

definition flush_ctx :: "('h, 'f) shard_ctx \<Rightarrow> unit res \<times> ('h, 'f) shard_ctx" where
  "flush_ctx cx = (case wal_flush (cx_wal cx) of (r, w) \<Rightarrow> (r, cx\<lparr>cx_wal := w\<rparr>))"

text \<open>Log, resurrect, memtable, index and index lifecycle; only the index can raise.\<close>

definition store_record ::
    "('h, 'f) libs \<Rightarrow> codec \<Rightarrow> moment \<Rightarrow> vector_record \<Rightarrow> ('h, 'f) shard_ctx \<Rightarrow>
     unit res \<times> ('h, 'f) shard_ctx" where
  "store_record lb cd mo r cx =
     (let cx1 = log_payload mo (encode (cd_dump_json cd r)) cx;
          cx2 = cx1\<lparr>cx_tombstones := removeAll (vr_id r) (cx_tombstones cx1),
                    cx_segments := seg_put cd (mo_ms mo) (mo_pid mo) r (cx_segments cx1)\<rparr>
      in case vx_add (lib_hnsw lb) (lib_faiss lb) [(vr_id r, vr_vector r, vr_metadata r)] (cx_index cx2) of
           (Inl e, ix) \<Rightarrow> (Inl e, cx2\<lparr>cx_index := ix\<rparr>)
         | (Inr _, ix) \<Rightarrow>
             (Inr (), cx2\<lparr>cx_index := ix, cx_lifecycle := notify_write 1 (cx_lifecycle cx2)\<rparr>))"

subsection \<open>Applying replicated operations\<close>

text \<open>\<open>payload.decode()\<close>, the inverse of \<open>encode\<close>.\<close>

definition decode_text :: "byte list \<Rightarrow> string" where
  "decode_text bs = map (\<lambda>b. char_of (unat b)) bs"

definition payload_record :: "codec \<Rightarrow> byte list \<Rightarrow> vector_record res" where
  "payload_record cd payload =
     (case cd_loads cd payload of
        Inl e \<Rightarrow> Inl e
      | Inr (JObj kvs) \<Rightarrow>
          (if map_of kvs ''__op'' = Some (JStr ''upsert'') then
             (case map_of kvs ''record'' of
                None \<Rightarrow> Inl (KeyError ''record'') | Some j \<Rightarrow> cd_validate cd j)
           else cd_validate_json cd (decode_text payload))
      | Inr _ \<Rightarrow> cd_validate_json cd (decode_text payload))"

definition apply_replicated_upsert ::
    "('h, 'f) libs \<Rightarrow> codec \<Rightarrow> moment \<Rightarrow> byte list \<Rightarrow> shard \<times> ('h, 'f) shard_ctx \<Rightarrow>
     unit res \<times> shard \<times> ('h, 'f) shard_ctx" where
  "apply_replicated_upsert lb cd mo payload = (\<lambda>(s, cx).
     case payload_record cd payload of
       Inl e \<Rightarrow> (Inl e, s, cx)
     | Inr r \<Rightarrow>
         (case seg_get cd (cx_segments cx) (vr_id r) of
            Inl e \<Rightarrow> (Inl e, s, cx)
          | Inr existing \<Rightarrow>
              if (case existing of None \<Rightarrow> False | Some x \<Rightarrow> same_stamp x r) then (Inr (), s, cx)
              else
                (case store_record lb cd mo r cx of
                   (Inl e, cx1) \<Rightarrow> (Inl e, s, cx1)
                 | (Inr _, cx1) \<Rightarrow>
                     (case flush_ctx cx1 of (x, cx2) \<Rightarrow> (x, count_vector s, cx2)))))"

text \<open>\<open>str(raw["id"])\<close> of a delete payload.\<close>

definition payload_id :: "codec \<Rightarrow> byte list \<Rightarrow> string res" where
  "payload_id cd payload =
     (case cd_loads cd payload of
        Inl e \<Rightarrow> Inl e
      | Inr (JObj kvs) \<Rightarrow>
          (case map_of kvs ''id'' of
             None \<Rightarrow> Inl (KeyError ''id'') | Some (JStr i) \<Rightarrow> Inr i | Some j \<Rightarrow> Inr (cd_str cd j))
      | Inr _ \<Rightarrow> Inl (OtherError ''TypeError'' ''indices must be integers''))"

definition apply_replicated_delete ::
    "('h, 'f) libs \<Rightarrow> codec \<Rightarrow> moment \<Rightarrow> byte list \<Rightarrow> shard \<times> ('h, 'f) shard_ctx \<Rightarrow>
     unit res \<times> shard \<times> ('h, 'f) shard_ctx" where
  "apply_replicated_delete lb cd mo payload = (\<lambda>(s, cx).
     case payload_id cd payload of
       Inl e \<Rightarrow> (Inl e, s, cx)
     | Inr i \<Rightarrow>
         (let cx1 = log_payload mo (cd_dumps cd (delete_envelope i))
                (cx\<lparr>cx_tombstones := List.insert i (cx_tombstones cx)\<rparr>);
              cx2 = cx1\<lparr>cx_segments := (cx_segments cx1)
                    \<lparr>sg_memtable := mem_delete i (sg_memtable (cx_segments cx1))\<rparr>,
                  cx_index := vx_delete (lib_hnsw lb) [i] (cx_index cx1),
                  cx_lifecycle := notify_delete 1 (cx_lifecycle cx1)\<rparr>
          in case flush_ctx cx2 of (x, cx3) \<Rightarrow> (x, s, cx3)))"

text \<open>What a replica endpoint answers.\<close>

definition endpoint_contains :: "codec \<Rightarrow> ('h, 'f) shard_ctx \<Rightarrow> string \<Rightarrow> bool res" where
  "endpoint_contains cd cx i =
     (case seg_get cd (cx_segments cx) i of
        Inl e \<Rightarrow> Inl e | Inr x \<Rightarrow> Inr (x \<noteq> None \<and> i \<notin> set (cx_tombstones cx)))"

definition endpoint_record :: "codec \<Rightarrow> ('h, 'f) shard_ctx \<Rightarrow> string \<Rightarrow> vector_record option res" where
  "endpoint_record cd cx i = seg_get cd (cx_segments cx) i"

definition endpoint_close :: "('h, 'f) shard_ctx \<Rightarrow> unit res \<times> ('h, 'f) shard_ctx" where
  "endpoint_close cx = (case wal_close (cx_wal cx) of (r, w) \<Rightarrow> (r, cx\<lparr>cx_wal := w\<rparr>))"

end
