(* ===== verification/Index_Facts.thy ===== *)
theory Index_Facts
  imports Index
begin

text \<open>
  What the flat index promises: adding appends entries, deleting removes all entries of the ids, and
  a search returns a best \<open>top_k\<close> of the matching entries in descending order of score, whatever
  order numpy gives equal scores. The last part bounds the error of the two quantizations.
\<close>

subsection \<open>Entries\<close>

definition flat_inv :: "flat \<Rightarrow> bool" where
  "flat_inv f \<longleftrightarrow> length (fl_metadatas f) = length (fl_ids f) \<and>
     (case fl_vectors f of
        None \<Rightarrow> fl_ids f = []
      | Some vs \<Rightarrow> length vs = length (fl_ids f) \<and> list_all (\<lambda>v. length v = fl_dimension f) vs)"

definition flat_rows :: "flat \<Rightarrow> vec list" where
  "flat_rows f = (case fl_vectors f of None \<Rightarrow> [] | Some vs \<Rightarrow> vs)"

definition flat_entries :: "flat \<Rightarrow> entry list" where
  "flat_entries f = zip (fl_ids f) (zip (flat_rows f) (fl_metadatas f))"

lemma flat_rows_length: "flat_inv f \<Longrightarrow> length (flat_rows f) = length (fl_ids f)"
  by (auto simp: flat_inv_def flat_rows_def split: option.splits)

lemma new_flat_inv: "flat_inv (new_flat d metric)" "flat_entries (new_flat d metric) = []"
  by (simp_all add: flat_inv_def new_flat_def flat_entries_def)

lemma zip_entries: "zip (map fst es) (zip (map (\<lambda>(i, v, m). v) es) (map (\<lambda>(i, v, m). m) es)) = es"
  by (induction es) auto

lemma flat_add_entries:
  assumes "flat_inv f" "flat_add es f = (Inr u, f')"
  shows "flat_inv f' \<and> flat_entries f' = flat_entries f @ es \<and>
    fl_dimension f' = fl_dimension f \<and> fl_metric f' = fl_metric f"
proof -
  have ok: "list_all (\<lambda>(i, v, m). length v = fl_dimension f) es"
    using assms(2) by (auto simp: flat_add_def split: if_splits)
  then have rows: "list_all (\<lambda>v. length v = fl_dimension f) (map (\<lambda>(i, v, m). v) es)"
    by (auto simp: list_all_iff)
  have f': "flat_rows f' = flat_rows f @ map (\<lambda>(i, v, m). v) es" "fl_ids f' = fl_ids f @ map fst es"
    "fl_metadatas f' = fl_metadatas f @ map (\<lambda>(i, v, m). m) es" "fl_vectors f' = Some (flat_rows f')"
    "fl_dimension f' = fl_dimension f" "fl_metric f' = fl_metric f"
    using assms(2) by (auto simp: flat_add_def Let_def flat_rows_def split: if_splits option.splits)
  have "length (flat_rows f) = length (fl_ids f)" "length (fl_metadatas f) = length (fl_ids f)"
    using flat_rows_length [OF assms(1)] assms(1) by (simp_all add: flat_inv_def)
  moreover have "list_all (\<lambda>v. length v = fl_dimension f) (flat_rows f)"
    using assms(1) by (auto simp: flat_inv_def flat_rows_def split: option.splits)
  ultimately show ?thesis
    using rows zip_entries [of es] by (simp add: flat_inv_def flat_entries_def f')
qed

lemma flat_add_error: "flat_add es f = (Inl e, f') \<Longrightarrow> f' = f"
  by (auto simp: flat_add_def Let_def split: if_splits)

lemma map_keep_zip:
  assumes "length xs = length ys"
  shows "map (\<lambda>i. ys ! i) (filter (\<lambda>i. P (xs ! i)) [0..<length xs]) =
    map snd (filter (\<lambda>(x, y). P x) (zip xs ys))"
  using assms
proof (induction xs ys rule: list_induct2)
  case (Cons x xs y ys)
  have "[0..<length (x # xs)] = 0 # map Suc [0..<length xs]"
    by (simp add: map_Suc_upt upt_conv_Cons del: upt_Suc)
  with Cons.IH show ?case by (simp add: filter_map o_def)
qed simp

lemma flat_delete_entries:
  assumes "flat_inv f"
  shows "flat_inv (flat_delete del f) \<and>
    flat_entries (flat_delete del f) = filter (\<lambda>(i, v, m). i \<notin> set del) (flat_entries f)"
proof -
  define keep where "keep = filter (\<lambda>i. fl_ids f ! i \<notin> set del) [0..<length (fl_ids f)]"
  have len: "length (flat_rows f) = length (fl_ids f)" "length (fl_metadatas f) = length (fl_ids f)"
    using flat_rows_length [OF assms] assms by (simp_all add: flat_inv_def)
  have f': "fl_ids (flat_delete del f) = map (\<lambda>i. fl_ids f ! i) keep"
    "fl_metadatas (flat_delete del f) = map (\<lambda>i. fl_metadatas f ! i) keep"
    "flat_rows (flat_delete del f) = map (\<lambda>i. flat_rows f ! i) keep"
    "fl_dimension (flat_delete del f) = fl_dimension f"
    using assms by (auto simp: flat_delete_def Let_def keep_def flat_rows_def flat_inv_def split: option.splits)
  have es: "length (fl_ids f) = length (flat_entries f)" using len by (simp add: flat_entries_def)
  have "map (\<lambda>i. flat_entries f ! i) keep =
      map snd (filter (\<lambda>(x, y). x \<notin> set del) (zip (fl_ids f) (flat_entries f)))"
    unfolding keep_def by (rule map_keep_zip [OF es])
  also have "\<dots> = filter (\<lambda>(i, v, m). i \<notin> set del) (flat_entries f)"
  proof -
    have "map snd (filter (\<lambda>(x, y). x \<notin> set del) (zip xs (zip xs zs))) =
        filter (\<lambda>(i, v, m). i \<notin> set del) (zip xs zs)" for xs and zs :: "(vec \<times> metadata) list"
    proof (induction xs arbitrary: zs)
      case (Cons x xs)
      then show ?case by (cases zs) (auto split: prod.splits)
    qed simp
    then show ?thesis by (simp add: flat_entries_def)
  qed
  finally have entries: "map (\<lambda>i. flat_entries f ! i) keep = filter (\<lambda>(i, v, m). i \<notin> set del) (flat_entries f)" .
  have nth: "flat_entries f ! i = (fl_ids f ! i, flat_rows f ! i, fl_metadatas f ! i)" if "i \<in> set keep" for i
    using that len by (simp add: flat_entries_def keep_def)
  have "map (\<lambda>i. flat_entries f ! i) keep = flat_entries (flat_delete del f)"
    unfolding flat_entries_def [of "flat_delete del f"] f'
    using nth by (simp add: zip_map_map zip_same_conv_map o_def cong: map_cong)
  moreover have "flat_inv (flat_delete del f)"
  proof -
    have "list_all (\<lambda>v. length v = fl_dimension f) (map (\<lambda>i. flat_rows f ! i) keep)"
      using assms len by (auto simp: flat_inv_def list_all_iff keep_def flat_rows_def split: option.splits)
    moreover have "fl_vectors (flat_delete del f) = (if keep = [] then None else Some (map (\<lambda>i. flat_rows f ! i) keep))"
      using assms by (auto simp: flat_delete_def Let_def keep_def flat_rows_def flat_inv_def split: option.splits)
    ultimately show ?thesis by (simp add: flat_inv_def f')
  qed
  ultimately show ?thesis using entries by simp
qed

subsection \<open>Searching\<close>

text \<open>A reference definition: which positions a search may return, and when a selection is a best one.\<close>

definition flat_hit :: "(metadata \<Rightarrow> bool) option \<Rightarrow> vec \<Rightarrow> flat \<Rightarrow> nat \<Rightarrow> bool" where
  "flat_hit filter_fn q f j \<longleftrightarrow> j < length (fl_ids f) \<and>
     (case filter_fn of None \<Rightarrow> True | Some p \<Rightarrow> p (fl_metadatas f ! j)) \<and>
     score (fl_metric f) q (flat_rows f ! j) > - (10 ^ 8)"

definition result_at :: "vec \<Rightarrow> flat \<Rightarrow> nat \<Rightarrow> index_result" where
  "result_at q f j =
     \<lparr>ir_id = fl_ids f ! j, ir_score = score (fl_metric f) q (flat_rows f ! j),
      ir_vector = Some (flat_rows f ! j), ir_metadata = Some (fl_metadatas f ! j)\<rparr>"

definition best_of :: "(nat \<Rightarrow> real) \<Rightarrow> nat \<Rightarrow> nat set \<Rightarrow> nat list \<Rightarrow> bool" where
  "best_of sc k H js \<longleftrightarrow> distinct js \<and> set js \<subseteq> H \<and> length js = min k (card H) \<and>
     sorted (map (\<lambda>j. - sc j) js) \<and> (\<forall>j \<in> set js. \<forall>h \<in> H - set js. sc h \<le> sc j)"

lemma masked_nth:
  assumes "flat_inv f" "fl_vectors f = Some vs" "j < length (fl_ids f)"
  shows "masked_scores filter_fn q vs f ! j =
      (if (case filter_fn of None \<Rightarrow> True | Some p \<Rightarrow> p (fl_metadatas f ! j))
       then score (fl_metric f) q (flat_rows f ! j) else - (10 ^ 9)) \<and>
    length (masked_scores filter_fn q vs f) = length (fl_ids f)"
  using assms by (auto simp: masked_scores_def Let_def flat_inv_def flat_rows_def split: option.splits)

lemma mset_upt:
  assumes "mset p = mset [0..<n]"
  shows "set p = {0..<n}" "distinct p" "length p = n"
  using mset_eq_setD [OF assms] mset_eq_imp_distinct_iff [OF assms] mset_eq_length [OF assms] by simp_all

lemma np_partition:
  assumes "np_contract np" "k < length xs"
  shows "mset (np_argpartition np xs k) = mset [0..<length xs]"
    and "\<forall>i \<in> set (take (Suc k) (np_argpartition np xs k)).
           \<forall>j \<in> set (drop (Suc k) (np_argpartition np xs k)). xs ! i \<le> xs ! j"
  using assms unfolding np_contract_def by blast+

lemma np_sort:
  assumes "np_contract np"
  shows "mset (np_argsort np xs) = mset [0..<length xs]"
    and "sorted (map (\<lambda>i. xs ! i) (np_argsort np xs))"
  using assms unfolding np_contract_def by blast+

lemma select_best:
  assumes np: "np_contract np" and sc: "length sc = n" "0 < n"
    and H: "H = {j. j < n \<and> sc ! j > b}"
    and idx: "idx = take (min k n) (np_argpartition np (map uminus sc) (min k n - 1))"
    and js: "js = filter (\<lambda>j. \<not> sc ! j \<le> b)
      (map (\<lambda>j. idx ! j) (np_argsort np (map (\<lambda>i. - (sc ! i)) idx)))"
  shows "best_of (\<lambda>j. sc ! j) k H js"
proof (cases "k = 0")
  case True
  then have "idx = []" using idx by simp
  moreover have "np_argsort np [] = []"
    using np_sort(1) [OF np, of "[]"] by simp
  ultimately have "js = []" using js by simp
  then show ?thesis using True by (simp add: best_of_def)
next
  case False
  define p where "p = np_argpartition np (map uminus sc) (min k n - 1)"
  let ?k = "min k n"
  have kn: "?k - 1 < n" "Suc (?k - 1) = ?k" using False sc(2) by auto
  have p: "mset p = mset [0..<n]"
    "\<forall>i \<in> set (take ?k p). \<forall>j \<in> set (drop ?k p). - (sc ! i) \<le> - (sc ! j)"
  proof -
    have "?k - 1 < length (map uminus sc)" using kn(1) sc(1) by simp
    note part = np_partition [OF np this, folded p_def]
    from part(1) show "mset p = mset [0..<n]" using sc(1) by simp
    then have set_p: "set p = {0..<n}" by (rule mset_upt)
    show "\<forall>i \<in> set (take ?k p). \<forall>j \<in> set (drop ?k p). - (sc ! i) \<le> - (sc ! j)"
    proof (intro ballI)
      fix i j
      assume ij: "i \<in> set (take ?k p)" "j \<in> set (drop ?k p)"
      then have "i \<in> set p" "j \<in> set p" by (meson in_set_takeD, meson in_set_dropD)
      then have "i < n" "j < n" using set_p by simp_all
      moreover have "map uminus sc ! i \<le> map uminus sc ! j"
        using part(2) ij unfolding kn(2) by blast
      ultimately show "- (sc ! i) \<le> - (sc ! j)" using sc(1) by simp
    qed
  qed
  have dp: "distinct p" "set p = {0..<n}" "length p = n"
    using mset_upt [OF p(1)] by simp_all
  have idx': "idx = take ?k p" by (simp add: idx p_def)
  have len: "length idx = ?k" using dp(3) by (simp add: idx')
  define o1 where "o1 = np_argsort np (map (\<lambda>i. - (sc ! i)) idx)"
  have o1: "mset o1 = mset [0..<length idx]" "sorted (map (\<lambda>i. map (\<lambda>i. - (sc ! i)) idx ! i) o1)"
    using np_sort [OF np, of "map (\<lambda>i. - (sc ! i)) idx", folded o1_def] by simp_all
  define ord where "ord = map (\<lambda>j. idx ! j) o1"
  have "mset ord = mset (map (\<lambda>j. idx ! j) [0..<length idx])"
    unfolding ord_def using o1(1) by (simp only: mset_map)
  then have mo: "mset ord = mset idx" by (simp add: map_nth)
  then have ord: "distinct ord" "set ord = set idx"
    using mset_eq_imp_distinct_iff [OF mo] mset_eq_setD [OF mo] dp(1) by (simp_all add: idx')
  have so: "sorted (map (\<lambda>j. - (sc ! j)) ord)"
  proof -
    have "\<forall>i \<in> set o1. i < length idx" using mset_upt(1) [OF o1(1)] by simp
    then have "map (\<lambda>i. map (\<lambda>i. - (sc ! i)) idx ! i) o1 = map (\<lambda>j. - (sc ! j)) ord"
      by (simp add: ord_def)
    with o1(2) show ?thesis by simp
  qed
  have js': "js = filter (\<lambda>j. \<not> sc ! j \<le> b) ord" by (simp add: js ord_def o1_def)
  have rest: "sc ! h \<le> sc ! i" if "i \<in> set idx" "h < n" "h \<notin> set idx" for i h
  proof -
    have "h \<in> set p" using that(2) dp(2) by simp
    moreover have "set p = set (take ?k p) \<union> set (drop ?k p)"
      by (metis append_take_drop_id set_append)
    ultimately have "h \<in> set (drop ?k p)" using that(3) unfolding idx' by blast
    with p(2) that(1) show ?thesis unfolding idx' by simp
  qed
  have sub: "set idx \<subseteq> {0..<n}" using dp(2) set_take_subset [of ?k p] by (simp add: idx')
  have setjs: "set js = set idx \<inter> H" using sub by (auto simp: js' ord(2) H)
  have djs: "distinct js" using ord(1) by (simp add: js')
  have "length js = min k (card H)"
  proof (cases "\<exists>i \<in> set idx. sc ! i \<le> b")
    case True
    then obtain i where i: "i \<in> set idx" "sc ! i \<le> b" by blast
    then have "H \<subseteq> set idx" using rest [OF i(1)] H by force
    then have "set js = H" using setjs by blast
    then have c: "length js = card H" using djs by (metis distinct_card)
    have "length js < length idx"
    proof -
      have "length js = length (filter (\<lambda>j. \<not> sc ! j \<le> b) ord)" by (simp add: js')
      also have "\<dots> < length ord" using i ord(2) by (intro length_filter_less [of i]) simp_all
      finally show ?thesis using mset_eq_length [OF mo] by simp
    qed
    with c len show ?thesis by simp
  next
    case False
    then have "js = ord" by (simp add: js' ord(2) [symmetric] filter_id_conv)
    then have l: "length js = ?k" using mset_eq_length [OF mo] len by simp
    have "set idx \<subseteq> H" using False sub H by force
    then have "?k \<le> card H"
      using card_mono [of H "set idx"] ord(2) mset_eq_length [OF mo] len distinct_card [OF ord(1)] H by simp
    moreover have "card H \<le> n"
    proof -
      have "H \<subseteq> {0..<n}" using H by auto
      from card_mono [OF _ this] show ?thesis by simp
    qed
    ultimately show ?thesis using l by auto
  qed
  moreover have "sorted (map (\<lambda>j. - (sc ! j)) js)"
    using so unfolding js' by (rule sorted_filter)
  moreover have "\<forall>j \<in> set js. \<forall>h \<in> H - set js. sc ! h \<le> sc ! j"
    using rest setjs H by auto
  ultimately show ?thesis using djs setjs by (simp add: best_of_def)
qed

lemma best_of_cong:
  assumes "\<And>j. j \<in> H \<Longrightarrow> f j = g j" "best_of f k H js"
  shows "best_of g k H js"
proof -
  have sub: "set js \<subseteq> H" using assms(2) by (simp add: best_of_def)
  have eq: "map (\<lambda>j. - g j) js = map (\<lambda>j. - f j) js" using sub assms(1) by auto
  have "\<forall>j \<in> set js. \<forall>h \<in> H - set js. g h \<le> g j"
  proof (intro ballI)
    fix j h
    assume j: "j \<in> set js" "h \<in> H - set js"
    then have "f h \<le> f j" using assms(2) by (auto simp: best_of_def)
    moreover have "f j = g j" "f h = g h" using j sub assms(1) by auto
    ultimately show "g h \<le> g j" by simp
  qed
  then show ?thesis using assms(2) unfolding best_of_def eq by blast
qed

lemma flat_search_best:
  assumes "np_contract np" "flat_inv f"
  shows "\<exists>js. flat_search np q top_k filter_fn f = map (result_at q f) js \<and>
    best_of (\<lambda>j. score (fl_metric f) q (flat_rows f ! j)) top_k {j. flat_hit filter_fn q f j} js"
proof (cases "fl_ids f = []")
  case True
  then have "flat_search np q top_k filter_fn f = []" "{j. flat_hit filter_fn q f j} = {}"
    by (auto simp: flat_search_def flat_hit_def split: option.splits)
  then show ?thesis by (intro exI [of _ "[]"]) (simp add: best_of_def)
next
  case False
  then obtain vs where vs: "fl_vectors f = Some vs" using assms(2) by (auto simp: flat_inv_def split: option.splits)
  let ?n = "length (fl_ids f)"
  define sc where "sc = masked_scores filter_fn q vs f"
  define idx where "idx = take (min top_k ?n) (np_argpartition np (map uminus sc) (min top_k ?n - 1))"
  define js where "js = filter (\<lambda>j. \<not> sc ! j \<le> - (10 ^ 8))
      (map (\<lambda>j. idx ! j) (np_argsort np (map (\<lambda>i. - (sc ! i)) idx)))"
  have n: "0 < ?n" using False by simp
  have len: "length sc = ?n" using masked_nth [OF assms(2) vs n, of filter_fn q] by (simp add: sc_def)
  have nth: "sc ! j = (if (case filter_fn of None \<Rightarrow> True | Some p \<Rightarrow> p (fl_metadatas f ! j))
       then score (fl_metric f) q (flat_rows f ! j) else - (10 ^ 9))" if "j < ?n" for j
    using masked_nth [OF assms(2) vs that, of filter_fn q] by (simp add: sc_def)
  have "flat_hit filter_fn q f j \<longleftrightarrow> j < ?n \<and> sc ! j > - (10 ^ 8)" for j
    by (cases "j < ?n") (auto simp: flat_hit_def nth split: option.splits if_splits)
  then have H: "{j. flat_hit filter_fn q f j} = {j. j < ?n \<and> sc ! j > - (10 ^ 8)}" by blast
  have best: "best_of (\<lambda>j. sc ! j) top_k {j. flat_hit filter_fn q f j} js"
    by (rule select_best [OF assms(1) len n H idx_def js_def])
  then have sub: "set js \<subseteq> {j. flat_hit filter_fn q f j}" by (simp add: best_of_def)
  have same: "sc ! j = score (fl_metric f) q (flat_rows f ! j)" if "flat_hit filter_fn q f j" for j
    using that nth [of j] by (auto simp: flat_hit_def)
  have rows: "flat_rows f = vs" by (simp add: flat_rows_def vs)
  have "flat_search np q top_k filter_fn f =
      map (\<lambda>j. \<lparr>ir_id = fl_ids f ! j, ir_score = sc ! j, ir_vector = Some (vs ! j),
        ir_metadata = Some (fl_metadatas f ! j)\<rparr>) js"
    unfolding js_def idx_def flat_search_def vs Let_def
    by (simp add: False sc_def len [unfolded sc_def])
  also have "\<dots> = map (result_at q f) js"
    using sub same by (auto simp: result_at_def rows)
  finally have "flat_search np q top_k filter_fn f = map (result_at q f) js" .
  moreover have "best_of (\<lambda>j. score (fl_metric f) q (flat_rows f ! j)) top_k {j. flat_hit filter_fn q f j} js"
    by (rule best_of_cong [OF _ best]) (simp add: same)
  ultimately show ?thesis by blast
qed

text \<open>A concrete numpy for witnesses: stable sorting.\<close>

definition stable_np :: np_ops where
  "stable_np = \<lparr>np_argpartition = (\<lambda>xs k. sort_key (\<lambda>i. xs ! i) [0..<length xs]),
     np_argsort = (\<lambda>xs. sort_key (\<lambda>i. xs ! i) [0..<length xs])\<rparr>"

lemma sorted_split:
  assumes "sorted (map g xs)" "i \<in> set (take k xs)" "j \<in> set (drop k xs)"
  shows "g i \<le> g j"
proof -
  have "sorted (map g (take k xs) @ map g (drop k xs))" using assms(1) by (metis append_take_drop_id map_append)
  with assms(2,3) show ?thesis by (auto simp: sorted_append)
qed

lemma stable_np_contract: "np_contract stable_np"
  using sorted_split [of "\<lambda>i. (xs :: real list) ! i" "sort_key (\<lambda>i. xs ! i) [0..<length xs]" for xs]
  by (auto simp: np_contract_def stable_np_def)

subsection \<open>Quantization\<close>

lemma rint_close: "\<bar>of_int (rint x) - x\<bar> \<le> 1 / 2"
proof -
  have "of_int \<lfloor>x\<rfloor> \<le> x" "x < of_int \<lfloor>x\<rfloor> + 1" by linarith+
  then show ?thesis by (auto simp: rint_def Let_def split: if_splits)
qed

lemma rint_range:
  assumes "0 \<le> x" "x \<le> 255"
  shows "0 \<le> rint x \<and> rint x \<le> 255"
proof -
  have "of_int (rint x) \<le> x + 1 / 2" "x - 1 / 2 \<le> of_int (rint x)" using rint_close [of x] by linarith+
  then have "- 1 / 2 \<le> (of_int (rint x) :: real)" "(of_int (rint x) :: real) \<le> 255 + 1 / 2"
    using assms by linarith+
  then show ?thesis by linarith
qed

lemma sq8_element:
  assumes "v \<noteq> []" "x \<in> set v" "sq8_quantize v = Inr (codes, scale, zp)" "vmax v \<noteq> vmin v"
  shows "\<bar>of_int (clip (rint ((x - zp) / scale)) 0 255) * scale + zp - x\<bar> \<le> scale / 2"
proof -
  have s: "scale = (vmax v - vmin v) / 255" "zp = vmin v"
    using assms(1,3,4) by (auto simp: sq8_quantize_def Let_def)
  have "vmin v \<le> x" "x \<le> vmax v" using assms(2) by (simp_all add: vmin_def vmax_def)
  with assms(4) have pos: "0 < scale" and lo: "0 \<le> (x - zp) / scale" and hi: "(x - zp) / scale \<le> 255"
    by (auto simp: s divide_simps)
  let ?c = "rint ((x - zp) / scale)"
  have c: "clip ?c 0 255 = ?c" using rint_range [OF lo hi] by (simp add: clip_def)
  have "of_int ?c * scale + zp - x = (of_int ?c - (x - zp) / scale) * scale"
    using pos by (simp add: field_simps)
  then have "\<bar>of_int ?c * scale + zp - x\<bar> = \<bar>of_int ?c - (x - zp) / scale\<bar> * scale"
    using pos by (simp add: abs_mult)
  also have "\<dots> \<le> 1 / 2 * scale" using rint_close pos by (intro mult_right_mono) simp_all
  finally show ?thesis by (simp add: c)
qed

lemma bf16_bits: "push_bit 16 (ucast (ucast (drop_bit 16 (u AND 0xFFFF0000)) :: 16 word)) = (u AND 0xFFFF0000 :: 32 word)"
proof -
  have m: "(0xFFFF0000 :: 32 word) = push_bit 16 (mask 16)"
    by (simp add: mask_eq_exp_minus_1 push_bit_eq_mult)
  show ?thesis unfolding m by (rule bit_word_eqI) (auto simp: bit_simps)
qed

lemma bf16_back: "ucast (drop_bit 16 (push_bit 16 (ucast (c :: 16 word)) AND 0xFFFF0000 :: 32 word)) = c"
proof -
  have m: "(0xFFFF0000 :: 32 word) = push_bit 16 (mask 16)"
    by (simp add: mask_eq_exp_minus_1 push_bit_eq_mult)
  show ?thesis unfolding m by (rule bit_word_eqI) (auto simp: bit_simps)
qed

subsection \<open>Properties\<close>

text \<open>Additions and deletions, and what they mean on a plain list of entries.\<close>

datatype ix_op = IxAdd "entry list" | IxDelete "string list"

fun ix_step :: "ix_op \<Rightarrow> flat \<Rightarrow> flat" where
  "ix_step (IxAdd es) f = snd (flat_add es f)"
| "ix_step (IxDelete del) f = flat_delete del f"

fun ix_spec :: "nat \<Rightarrow> ix_op \<Rightarrow> entry list \<Rightarrow> entry list" where
  "ix_spec d (IxAdd es) xs =
     (if list_all (\<lambda>(i, v, m). length v = d) es then xs @ es else xs)"
| "ix_spec d (IxDelete del) xs = filter (\<lambda>(i, v, m). i \<notin> set del) xs"

lemma ix_step_spec:
  assumes "flat_inv f"
  shows "flat_inv (ix_step op f) \<and>
    flat_entries (ix_step op f) = ix_spec (fl_dimension f) op (flat_entries f) \<and>
    fl_dimension (ix_step op f) = fl_dimension f \<and> fl_metric (ix_step op f) = fl_metric f"
proof (cases op)
  case (IxAdd es)
  show ?thesis
  proof (cases "flat_add es f")
    case (Pair r f')
    show ?thesis
    proof (cases r)
      case (Inl e)
      with Pair have "f' = f" "es = [] \<or> \<not> list_all (\<lambda>(i, v, m). length v = fl_dimension f) es"
        by (auto simp: flat_add_def Let_def split: if_splits)
      with Pair Inl IxAdd assms show ?thesis by auto
    next
      case (Inr u)
      with Pair have "list_all (\<lambda>(i, v, m). length v = fl_dimension f) es"
        by (auto simp: flat_add_def Let_def split: if_splits)
      with Pair Inr IxAdd flat_add_entries [OF assms, of es u f'] show ?thesis by simp
    qed
  qed
next
  case (IxDelete del)
  have "fl_dimension (flat_delete del f) = fl_dimension f" "fl_metric (flat_delete del f) = fl_metric f"
    by (simp_all add: flat_delete_def Let_def)
  with IxDelete flat_delete_entries [OF assms] show ?thesis by simp
qed

lemma ix_run_spec:
  "flat_inv f \<Longrightarrow> flat_inv (fold ix_step ops f) \<and>
    flat_entries (fold ix_step ops f) = fold (ix_spec (fl_dimension f)) ops (flat_entries f) \<and>
    fl_metric (fold ix_step ops f) = fl_metric f"
proof (induction ops arbitrary: f)
  case (Cons op ops)
  with ix_step_spec [OF Cons.prems, of op] Cons.IH [of "ix_step op f"] show ?case by simp
qed simp

definition entry_result :: "string \<Rightarrow> vec \<Rightarrow> entry \<Rightarrow> index_result" where
  "entry_result metric q = (\<lambda>(i, v, m).
     \<lparr>ir_id = i, ir_score = score metric q v, ir_vector = Some v, ir_metadata = Some m\<rparr>)"

definition entry_hit :: "string \<Rightarrow> (metadata \<Rightarrow> bool) option \<Rightarrow> vec \<Rightarrow> entry \<Rightarrow> bool" where
  "entry_hit metric filter_fn q = (\<lambda>(i, v, m).
     (case filter_fn of None \<Rightarrow> True | Some p \<Rightarrow> p m) \<and> score metric q v > - (10 ^ 8))"

lemma flat_entries_nth:
  assumes "flat_inv f" "j < length (fl_ids f)"
  shows "flat_entries f ! j = (fl_ids f ! j, flat_rows f ! j, fl_metadatas f ! j)"
  using assms flat_rows_length [OF assms(1)] by (simp add: flat_entries_def flat_inv_def)

text \<open>
  The flat index is a list of entries with exact search. After any additions and deletions it
  holds the entries those operations leave in a plain list, and a search returns a best selection of
  the entries that satisfy the filter (and score above -10^8): as many as asked for or as there are,
  in descending order of score, and none left out scores higher. This holds whatever numpy does
  with equal scores.
\<close>

theorem flat_index_exact:
  assumes "np_contract np"
    and "E = fold (ix_spec d) ops []" "f = fold ix_step ops (new_flat d metric)"
  shows "flat_entries f = E \<and> flat_count f = length E \<and>
    (\<exists>js. flat_search np q k filter_fn f = map (\<lambda>j. entry_result (lower metric) q (E ! j)) js \<and>
      best_of (\<lambda>j. score (lower metric) q (fst (snd (E ! j)))) k
        {j. j < length E \<and> entry_hit (lower metric) filter_fn q (E ! j)} js)"
proof -
  have new: "fl_dimension (new_flat d metric) = d" "fl_metric (new_flat d metric) = lower metric"
    by (simp_all add: new_flat_def)
  from ix_run_spec [OF new_flat_inv(1), of ops d metric] new_flat_inv(2)
  have f: "flat_inv f" "flat_entries f = E" "fl_metric f = lower metric"
    by (simp_all add: new assms(2,3))
  have len: "length E = length (fl_ids f)"
    using f(1,2) flat_rows_length [OF f(1)] by (auto simp: flat_entries_def flat_inv_def)
  have nth: "E ! j = (fl_ids f ! j, flat_rows f ! j, fl_metadatas f ! j)" if "j < length (fl_ids f)" for j
    using flat_entries_nth [OF f(1) that] f(2) by simp
  have H: "{j. flat_hit filter_fn q f j} = {j. j < length E \<and> entry_hit (lower metric) filter_fn q (E ! j)}"
    by (auto simp: flat_hit_def entry_hit_def len nth f(3))
  from flat_search_best [OF assms(1) f(1), of q k filter_fn] obtain js where
    js: "flat_search np q k filter_fn f = map (result_at q f) js"
      "best_of (\<lambda>j. score (lower metric) q (flat_rows f ! j)) k
        {j. j < length E \<and> entry_hit (lower metric) filter_fn q (E ! j)} js"
    unfolding f(3) H by blast
  have sub: "set js \<subseteq> {j. j < length (fl_ids f)}" using js(2) len by (auto simp: best_of_def)
  have "map (result_at q f) js = map (\<lambda>j. entry_result (lower metric) q (E ! j)) js"
    using sub by (auto simp: result_at_def entry_result_def nth f(3))
  moreover have "best_of (\<lambda>j. score (lower metric) q (fst (snd (E ! j)))) k
      {j. j < length E \<and> entry_hit (lower metric) filter_fn q (E ! j)} js"
    by (rule best_of_cong [OF _ js(2)]) (simp add: nth len)
  ultimately have "flat_search np q k filter_fn f = map (\<lambda>j. entry_result (lower metric) q (E ! j)) js \<and>
      best_of (\<lambda>j. score (lower metric) q (fst (snd (E ! j)))) k
        {j. j < length E \<and> entry_hit (lower metric) filter_fn q (E ! j)} js"
    using js(1) by simp
  moreover have "length (fl_ids f) = length E" using len by simp
  ultimately show ?thesis using f(2) unfolding flat_count_def by blast
qed

lemma flat_index_exact_witness:
  "\<exists>js. flat_search stable_np [1, 0] 1 None (fold ix_step
       [IxAdd [(''a'', [1, 0], []), (''b'', [0, 1], [])], IxDelete [''b'']] (new_flat 2 ''DOT_PRODUCT'')) =
     map (\<lambda>j. entry_result ''dot_product'' [1, 0] ([(''a'', [1, 0], [])] ! j)) js"
proof -
  let ?ops = "[IxAdd [(''a'', [1, 0], []), (''b'', [0, 1], [])], IxDelete [''b'']] :: ix_op list"
  have E: "[(''a'', [1, 0], [])] = fold (ix_spec 2) ?ops []" by simp
  have l: "lower ''DOT_PRODUCT'' = ''dot_product''" by code_simp
  from flat_index_exact [OF stable_np_contract E refl, of "''DOT_PRODUCT''" "[1, 0]" 1 None]
  show ?thesis unfolding l by blast
qed

text \<open>
  What quantization loses. SQ8 codes fit a byte and decode to within half a quantization step of
  every component; BF16 keeps the upper sixteen bits of every float32 pattern and clears the others,
  and decoding and encoding again changes nothing.
\<close>

theorem quantization_error_bounded:
  assumes "sq8_quantize v = Inr (codes, scale, zp)"
  shows "list_all (\<lambda>c. 0 \<le> c \<and> c \<le> 255) codes \<and>
    list_all2 (\<lambda>x y. \<bar>y - x\<bar> \<le> scale / 2) v (sq8_dequantize codes scale zp) \<and>
    bf16_dequantize (bf16_quantize w) = map (\<lambda>u. u AND 0xFFFF0000) w \<and>
    bf16_quantize (bf16_dequantize c) = c"
proof -
  have ne: "v \<noteq> []" using assms by (auto simp: sq8_quantize_def)
  have sq8: "list_all (\<lambda>c. 0 \<le> c \<and> c \<le> 255) codes \<and>
    list_all2 (\<lambda>x y. \<bar>y - x\<bar> \<le> scale / 2) v (sq8_dequantize codes scale zp)"
  proof (cases "vmax v = vmin v")
    case True
    then have "codes = map (\<lambda>x. 0) v" "scale = 1" "zp = vmin v"
      using assms ne by (simp_all add: sq8_quantize_def)
    moreover have "x = vmin v" if "x \<in> set v" for x
      using that True by (metis List.finite_set Max_ge Min_le order_antisym vmax_def vmin_def)
    ultimately show ?thesis
      by (auto simp: list_all_iff sq8_dequantize_def list_all2_map2 list.rel_refl_strong)
  next
    case False
    then have "sq8_quantize v = Inr (map (\<lambda>x. clip (rint ((x - vmin v) / ((vmax v - vmin v) / 255))) 0 255) v,
        (vmax v - vmin v) / 255, vmin v)"
      using ne by (simp add: sq8_quantize_def Let_def)
    then have "codes = map (\<lambda>x. clip (rint ((x - vmin v) / ((vmax v - vmin v) / 255))) 0 255) v \<and>
      scale = (vmax v - vmin v) / 255 \<and> zp = vmin v"
      using assms by (metis (no_types, lifting) Inr_inject prod.inject)
    then have codes: "codes = map (\<lambda>x. clip (rint ((x - zp) / scale)) 0 255) v" by (elim conjE) (simp only:)
    have "list_all (\<lambda>c. 0 \<le> c \<and> c \<le> 255) codes"
      by (simp add: codes list_all_iff clip_def)
    moreover have "list_all2 (\<lambda>x y. \<bar>y - x\<bar> \<le> scale / 2) v (sq8_dequantize codes scale zp)"
      using sq8_element [OF ne _ assms False]
      by (simp add: codes sq8_dequantize_def list_all2_map2 list.rel_refl_strong)
    ultimately show ?thesis ..
  qed
  have "bf16_dequantize (bf16_quantize w) = map (\<lambda>u. u AND 0xFFFF0000) w"
    unfolding bf16_dequantize_def bf16_quantize_def using bf16_bits by simp
  moreover have "bf16_quantize (bf16_dequantize c) = c"
    unfolding bf16_dequantize_def bf16_quantize_def using bf16_back by (simp add: map_idI)
  ultimately show ?thesis using sq8 by blast
qed

lemma quantization_error_bounded_witness:
  "\<exists>codes scale zp. sq8_quantize [1, 3] = Inr (codes, scale, zp) \<and>
     list_all2 (\<lambda>x y. \<bar>y - x\<bar> \<le> scale / 2) [1, 3] (sq8_dequantize codes scale zp)"
proof -
  obtain codes scale zp where "sq8_quantize [1, 3] = Inr (codes, scale, zp)"
    by (cases "sq8_quantize [1, 3]") (auto simp: sq8_quantize_def Let_def split: if_splits)
  with quantization_error_bounded [OF this, of "[]" "[]"] show ?thesis by blast
qed

text \<open>Compressing a matrix loses at most half a step of each row and component.\<close>

lemma sq8_rows_ok: "sq8_rows vs = Inr rows \<Longrightarrow> list_all2 (\<lambda>v r. sq8_quantize v = Inr r) vs rows"
  by (induction vs arbitrary: rows) (auto split: sum.splits)

lemma compressed_rows:
  assumes "compress_vectors bits vs ''SQ8'' = Inr x"
  shows "\<exists>rows. x = SQ8Codes (map fst rows) (map (\<lambda>(c, sc, zp). sc) rows) (map (\<lambda>(c, sc, zp). zp) rows) \<and>
    list_all2 (\<lambda>v (c, sc, zp). list_all2 (\<lambda>a b. \<bar>b - a\<bar> \<le> sc / 2) v (sq8_dequantize c sc zp)) vs rows"
proof -
  obtain rows where r: "sq8_rows vs = Inr rows"
    "x = SQ8Codes (map fst rows) (map (\<lambda>(c, sc, zp). sc) rows) (map (\<lambda>(c, sc, zp). zp) rows)"
    using assms by (auto simp: compress_vectors_def np_stack_def upper_def split: sum.splits if_splits)
  have "list_all2 (\<lambda>v (c, sc, zp). list_all2 (\<lambda>a b. \<bar>b - a\<bar> \<le> sc / 2) v (sq8_dequantize c sc zp)) vs rows"
    using sq8_rows_ok [OF r(1)]
    by (rule list_all2_mono) (auto dest: quantization_error_bounded [where w = "[]" and c = "[]"])
  with r(2) show ?thesis by blast
qed

end
