(* ===== verification/Replica_Facts.thy ===== *)
theory Replica_Facts
  imports Shard_Context Index_Facts
begin

text \<open>
  What applying an operation does to a shard context: the records it shows (\<open>ctx_view\<close>, the store
  without the tombstoned ids), the replay of the same operation, and what is left after a restart.
\<close>

subsection \<open>The view of a context\<close>

definition ctx_view :: "codec \<Rightarrow> ('h, 'f) shard_ctx \<Rightarrow> string \<Rightarrow> vector_record option" where
  "ctx_view cd cx i =
     (if i \<in> set (cx_tombstones cx) then None else seg_view cd (cx_segments cx) i)"

definition fresh_file :: "moment \<Rightarrow> ('h, 'f) shard_ctx \<Rightarrow> bool" where
  "fresh_file mo cx \<longleftrightarrow> (Hot, sst_name (mo_ms mo) (mo_pid mo)) \<notin> set (sg_sstables (cx_segments cx))"

lemma endpoint_contains_view:
  "seg_inv cd (cx_segments cx) \<Longrightarrow> endpoint_contains cd cx i = Inr (ctx_view cd cx i \<noteq> None)"
  by (simp add: endpoint_contains_def ctx_view_def seg_get_view)

lemma log_payload_frame [simp]:
  "cx_segments (log_payload mo p cx) = cx_segments cx" "cx_tombstones (log_payload mo p cx) = cx_tombstones cx"
  "cx_index (log_payload mo p cx) = cx_index cx" "cx_lifecycle (log_payload mo p cx) = cx_lifecycle cx"
  "wl_files (cx_wal (log_payload mo p cx)) = wl_files (cx_wal cx)"
  "wl_buffer (cx_wal (log_payload mo p cx)) = wl_buffer (cx_wal cx) @ [new_entry (mo_ns mo) p 0]"
  by (simp_all add: log_payload_def wal_append_def)

lemma store_record_fields:
  assumes "store_record lb cd mo r cx = (x, cx')"
  shows "cx_segments cx' = seg_put cd (mo_ms mo) (mo_pid mo) r (cx_segments cx)"
    and "cx_tombstones cx' = removeAll (vr_id r) (cx_tombstones cx)"
    and "cx_wal cx' = wal_append (new_entry (mo_ns mo) (encode (cd_dump_json cd r)) 0) (cx_wal cx)"
    and "cx_namespace cx' = cx_namespace cx" and "cx_recovery cx' = cx_recovery cx"
  using assms by (auto simp: store_record_def log_payload_def Let_def split: prod.splits sum.splits)

lemma store_record_view:
  assumes "store_record lb cd mo r cx = (x, cx')" "seg_inv cd (cx_segments cx)" "line_codec cd r"
    and "fresh_file mo cx"
  shows "seg_inv cd (cx_segments cx')" "seg_view cd (cx_segments cx') = (seg_view cd (cx_segments cx))(vr_id r \<mapsto> r)"
    and "ctx_view cd cx' = (ctx_view cd cx)(vr_id r \<mapsto> r)"
proof -
  note p = put_inv_view [OF assms(2,3) assms(4) [unfolded fresh_file_def]]
  show "seg_inv cd (cx_segments cx')" "seg_view cd (cx_segments cx') = (seg_view cd (cx_segments cx))(vr_id r \<mapsto> r)"
    using p by (simp_all add: store_record_fields [OF assms(1)])
  then show "ctx_view cd cx' = (ctx_view cd cx)(vr_id r \<mapsto> r)"
    by (auto simp: ctx_view_def fun_eq_iff store_record_fields(2) [OF assms(1)])
qed

lemma mem_delete_view:
  assumes "seg_inv cd sg"
  shows "seg_inv cd (sg\<lparr>sg_memtable := mem_delete i (sg_memtable sg)\<rparr>)"
    and "j \<noteq> i \<Longrightarrow> seg_view cd (sg\<lparr>sg_memtable := mem_delete i (sg_memtable sg)\<rparr>) j = seg_view cd sg j"
proof -
  show "seg_inv cd (sg\<lparr>sg_memtable := mem_delete i (sg_memtable sg)\<rparr>)"
    using assms memtable.listing_remove [of "sg_memtable sg" _ i]
    by (auto simp: seg_inv_def sst_good_def frame_simps memtable.inv_remove)
  show "j \<noteq> i \<Longrightarrow> seg_view cd (sg\<lparr>sg_memtable := mem_delete i (sg_memtable sg)\<rparr>) j = seg_view cd sg j"
    by (simp add: seg_view_def durable_view_def durable_records_by_id_def frame_simps mem_delete_def
        store_simps map_add_def)
qed

lemma flush_ctx_fields:
  "flush_ctx cx = (x, cx') \<Longrightarrow> cx' = cx\<lparr>cx_wal := cx_wal cx'\<rparr> \<and> wal_flush (cx_wal cx) = (x, cx_wal cx')"
  by (auto simp: flush_ctx_def split: prod.splits)

lemma flush_ctx_frame:
  assumes "flush_ctx cx = (x, cx')"
  shows "cx_segments cx' = cx_segments cx" "cx_tombstones cx' = cx_tombstones cx" "cx_index cx' = cx_index cx"
    "ctx_view cd cx' = ctx_view cd cx"
  using assms by (auto simp: flush_ctx_def ctx_view_def fun_eq_iff split: prod.splits)

lemma wal_flush_buffer: "wal_flush w = (x, w') \<Longrightarrow> wl_buffer w' = []"
  using flush_batch_buffer [of "wl_buffer w" "w\<lparr>wl_buffer := []\<rparr>" x w']
  by (auto simp: wal_flush_def Let_def split: if_splits)

subsection \<open>Payloads the primary sends\<close>

fun replica_codec :: "codec \<Rightarrow> wal_op \<Rightarrow> bool" where
  "replica_codec cd (Upsert r) = (op_codec cd (Upsert r) \<and> line_codec cd r)"
| "replica_codec cd (Delete i) = op_codec cd (Delete i)"

lemma payload_record_upsert:
  assumes "replica_codec cd (Upsert r)"
  shows "payload_record cd (op_payload cd (Upsert r)) = Inr r"
proof -
  from assms obtain kvs where "cd_loads cd (encode (cd_dump_json cd r)) = Inr (JObj kvs)"
    "map_of kvs ''__op'' = None" by (auto split: sum.splits json.splits)
  moreover have "cd_validate_json cd (cd_dump_json cd r) = Inr r"
    using assms by (simp add: line_codec_def)
  ultimately show ?thesis by (simp add: payload_record_def decode_text_def)
qed

lemma payload_id_delete: "replica_codec cd (Delete i) \<Longrightarrow> payload_id cd (op_payload cd (Delete i)) = Inr i"
  by (simp add: payload_id_def delete_envelope_def)

fun replica_apply ::
    "('h, 'f) libs \<Rightarrow> codec \<Rightarrow> moment \<Rightarrow> wal_op \<Rightarrow> shard \<times> ('h, 'f) shard_ctx \<Rightarrow>
     unit res \<times> shard \<times> ('h, 'f) shard_ctx" where
  "replica_apply lb cd mo (Upsert r) = apply_replicated_upsert lb cd mo (op_payload cd (Upsert r))"
| "replica_apply lb cd mo (Delete i) = apply_replicated_delete lb cd mo (op_payload cd (Delete i))"

text \<open>The store already holds a record of the same version and checksum under the id.\<close>

definition already_applied :: "codec \<Rightarrow> vector_record \<Rightarrow> ('h, 'f) shard_ctx \<Rightarrow> bool" where
  "already_applied cd r cx \<longleftrightarrow>
     (case seg_view cd (cx_segments cx) (vr_id r) of None \<Rightarrow> False | Some x \<Rightarrow> same_stamp x r)"

lemma upsert_skipped:
  assumes "seg_inv cd (cx_segments cx)" "replica_codec cd (Upsert r)" "already_applied cd r cx"
  shows "replica_apply lb cd mo (Upsert r) (s, cx) = (Inr (), s, cx)"
  using assms payload_record_upsert [OF assms(2)]
  by (simp add: apply_replicated_upsert_def seg_get_view already_applied_def del: replica_codec.simps
      split: option.splits)

lemma upsert_applied:
  assumes "seg_inv cd (cx_segments cx)" "replica_codec cd (Upsert r)" "\<not> already_applied cd r cx"
    and "replica_apply lb cd mo (Upsert r) (s, cx) = (Inr u, s', cx')"
  obtains cx1 where "store_record lb cd mo r cx = (Inr (), cx1)" "flush_ctx cx1 = (Inr (), cx')"
    "s' = count_vector s"
proof -
  have a: "(case store_record lb cd mo r cx of
      (Inl e, cx1) \<Rightarrow> (Inl e, s, cx1)
    | (Inr _, cx1) \<Rightarrow> (case flush_ctx cx1 of (x, cx2) \<Rightarrow> (x, count_vector s, cx2))) = (Inr u, s', cx')"
    using assms payload_record_upsert [OF assms(2)]
    by (simp add: apply_replicated_upsert_def seg_get_view already_applied_def del: replica_codec.simps
        split: option.splits)
  then show ?thesis
    using that by (auto split: prod.splits sum.splits)
qed

lemma delete_applied:
  assumes "replica_codec cd (Delete i)"
    and "replica_apply lb cd mo (Delete i) (s, cx) = (x, s', cx')"
  obtains cx1 where "flush_ctx cx1 = (x, cx')" "s' = s"
    "cx_wal cx1 = wal_append (new_entry (mo_ns mo) (op_payload cd (Delete i)) 0) (cx_wal cx)"
    "cx_tombstones cx1 = List.insert i (cx_tombstones cx)"
    "cx_segments cx1 = (cx_segments cx)\<lparr>sg_memtable := mem_delete i (sg_memtable (cx_segments cx))\<rparr>"
    "cx_index cx1 = vx_delete (lib_hnsw lb) [i] (cx_index cx)"
proof -
  have a: "payload_id cd (cd_dumps cd (delete_envelope i)) = Inr i"
    using payload_id_delete [OF assms(1)] by simp
  let ?cx1 = "log_payload mo (cd_dumps cd (delete_envelope i))
      (cx\<lparr>cx_tombstones := List.insert i (cx_tombstones cx)\<rparr>)"
  let ?cx2 = "?cx1\<lparr>cx_segments := (cx_segments ?cx1)
                    \<lparr>sg_memtable := mem_delete i (sg_memtable (cx_segments ?cx1))\<rparr>,
                  cx_index := vx_delete (lib_hnsw lb) [i] (cx_index ?cx1),
                  cx_lifecycle := notify_delete 1 (cx_lifecycle ?cx1)\<rparr>"
  have "(case flush_ctx ?cx2 of (y, cx3) \<Rightarrow> (y, s, cx3)) = (x, s', cx')"
    using assms(2) a by (simp add: apply_replicated_delete_def Let_def)
  then have "flush_ctx ?cx2 = (x, cx')" "s' = s" by (auto split: prod.splits)
  then show ?thesis by (rule that) (simp_all add: log_payload_def)
qed

lemma delete_view:
  assumes "seg_inv cd (cx_segments cx)" "replica_codec cd (Delete i)"
    and "replica_apply lb cd mo (Delete i) (s, cx) = (x, s', cx')"
  shows "seg_inv cd (cx_segments cx') \<and> ctx_view cd cx' = (ctx_view cd cx)(i := None) \<and> s' = s"
  using assms(2,3)
proof (cases rule: delete_applied)
  case (1 cx1)
  note f = flush_ctx_frame [OF 1(1)]
  have "ctx_view cd cx' = (ctx_view cd cx)(i := None)"
    using mem_delete_view(2) [OF assms(1)] by (auto simp: ctx_view_def f 1 fun_eq_iff)
  then show ?thesis using mem_delete_view(1) [OF assms(1)] by (simp add: f 1)
qed

text \<open>A context over one SSTable, for the concrete inputs below.\<close>

definition demo_namespace :: namespace where
  "demo_namespace = \<lparr>ns_name = ''ns'', ns_dimension = 1, ns_distance_metric = DOT_PRODUCT,
     ns_index_type = FLAT, ns_replication_factor = 3, ns_required_acks = 1, ns_shard_count = 1,
     ns_compression = NONE, ns_tenant_id = ''t'', ns_expected_records = None\<rparr>"

definition demo_libs :: "(unit, unit) libs" where
  "demo_libs = \<lparr>lib_hnsw = None, lib_faiss = None, lib_np = stable_np\<rparr>"

definition demo_moment :: "nat \<Rightarrow> moment" where
  "demo_moment t = \<lparr>mo_ns = t, mo_ms = t, mo_pid = 8, mo_time = of_nat t\<rparr>"

definition demo_replica :: shard where
  "demo_replica = new_shard ''s1#replica-n2'' 0 ''ns'' ''n2''"

definition demo_ctx :: "(unit, unit) shard_ctx" where
  "demo_ctx = \<lparr>cx_namespace = demo_namespace, cx_wal = wal_open 100 10 [], cx_segments = demo_segments,
     cx_index = FlatIx (new_flat 1 ''DOT_PRODUCT''), cx_lifecycle = new_index_lifecycle 0,
     cx_recovery = \<lparr>rr_records = [], rr_deleted_ids = [], rr_recovered_from_wal = 0, rr_wal_entries_read = 0\<rparr>,
     cx_tombstones = []\<rparr>"

subsection \<open>Properties\<close>

text \<open>
  What an acknowledged replicated operation has done. An upsert is either skipped, exactly when the
  replica's store already holds a record of the id with the same version and checksum, and then
  nothing changes; or the record is shown under its id, no other id is affected, the vector is
  counted once and nothing is left unflushed. A delete hides the id and nothing else. Delivering the
  same upsert again changes nothing at all.
\<close>

theorem replica_application:
  assumes "seg_inv cd (cx_segments cx)" "replica_codec cd p" "fresh_file mo cx"
    and "replica_apply lb cd mo p (s, cx) = (Inr u, s', cx')"
  shows "case p of
      Upsert r \<Rightarrow>
        (if already_applied cd r cx then (s', cx') = (s, cx)
         else ctx_view cd cx' = (ctx_view cd cx)(vr_id r \<mapsto> r) \<and> wl_buffer (cx_wal cx') = [] \<and>
           sh_vector_count s' = sh_vector_count s + 1) \<and>
        replica_apply lb cd mo' p (s', cx') = (Inr (), s', cx')
    | Delete i \<Rightarrow> ctx_view cd cx' = (ctx_view cd cx)(i := None) \<and> wl_buffer (cx_wal cx') = [] \<and> s' = s"
proof (cases p)
  case (Upsert r)
  show ?thesis
  proof (cases "already_applied cd r cx")
    case True
    with assms Upsert show ?thesis
      using upsert_skipped [OF assms(1), of r lb] by (auto simp del: replica_apply.simps replica_codec.simps)
  next
    case False
    have lc: "line_codec cd r" using assms(2) Upsert by simp
    from upsert_applied [OF assms(1) assms(2) [unfolded Upsert] False assms(4) [unfolded Upsert]]
    obtain cx1 where st: "store_record lb cd mo r cx = (Inr (), cx1)" "flush_ctx cx1 = (Inr (), cx')"
      "s' = count_vector s" by blast
    note v = store_record_view [OF st(1) assms(1) lc assms(3)] and f = flush_ctx_frame [OF st(2)]
    have inv: "seg_inv cd (cx_segments cx')" using v f by simp
    have "already_applied cd r cx'"
      by (simp add: already_applied_def f v(2) same_stamp_def)
    from upsert_skipped [OF inv assms(2) [unfolded Upsert] this]
    have again: "replica_apply lb cd mo' (Upsert r) (s', cx') = (Inr (), s', cx')" .
    have buf: "wl_buffer (cx_wal cx') = []"
      using flush_ctx_fields [OF st(2)] wal_flush_buffer by blast
    show ?thesis
      using v(3) f(4) buf again False st(3)
      by (simp add: Upsert count_vector_def del: replica_apply.simps)
  qed
next
  case (Delete i)
  from assms(2,4) [unfolded Delete] obtain cx1 where "flush_ctx cx1 = (Inr u, cx')"
    by (cases rule: delete_applied)
  then have "wl_buffer (cx_wal cx') = []" using flush_ctx_fields wal_flush_buffer by blast
  then show ?thesis
    using delete_view [OF assms(1) assms(2) [unfolded Delete] assms(4) [unfolded Delete]] Delete by simp
qed

lemma demo_ctx_inv: "seg_inv demo_codec (cx_segments demo_ctx)"
  using demo_segments(1) by (simp add: demo_ctx_def)

text \<open>
  C32: an acknowledged re-insertion can be lost on a replica. When an SSTable of the replica holds a
  record, a delete of its id only hides it; re-inserting a record of the same version and checksum
  (the checksum covers the vector only, and every upsert writes version 1) is then taken for a
  replay: it is acknowledged, the id stays deleted, and nothing is logged that a restart could find.
\<close>

theorem replica_reinsert_lost:
  assumes "seg_inv cd (cx_segments cx)" "replica_codec cd (Upsert r)" "replica_codec cd (Delete (vr_id r))"
    and "durable_view cd (cx_segments cx) (vr_id r) = Some x" "same_stamp x r"
    and "replica_apply lb cd mo (Delete (vr_id r)) (s, cx) = (Inr u, s1, cx1)"
  shows "replica_apply lb cd mo' (Upsert r) (s1, cx1) = (Inr (), s1, cx1) \<and>
    endpoint_contains cd cx1 (vr_id r) = Inr False"
proof -
  from delete_view [OF assms(1,3,6)] have v: "seg_inv cd (cx_segments cx1)"
    "ctx_view cd cx1 = (ctx_view cd cx)(vr_id r := None)" by simp_all
  from assms(3,6) obtain cx2 where "flush_ctx cx2 = (Inr u, cx1)"
    "cx_segments cx2 = (cx_segments cx)\<lparr>sg_memtable := mem_delete (vr_id r) (sg_memtable (cx_segments cx))\<rparr>"
    by (cases rule: delete_applied)
  then have "cx_segments cx1 = (cx_segments cx)\<lparr>sg_memtable := mem_delete (vr_id r) (sg_memtable (cx_segments cx))\<rparr>"
    using flush_ctx_frame(1) by metis
  then have "seg_view cd (cx_segments cx1) (vr_id r) = durable_view cd (cx_segments cx) (vr_id r)"
    by (simp add: seg_view_def durable_view_def durable_records_by_id_def frame_simps mem_delete_def
        store_simps map_add_def)
  then have "already_applied cd r cx1" using assms(4,5) by (simp add: already_applied_def)
  from upsert_skipped [OF v(1) assms(2) this] show ?thesis
    using endpoint_contains_view [OF v(1)] v(2) by simp
qed

subsection \<open>Restart of a replica\<close>

fun replica_run ::
    "('h, 'f) libs \<Rightarrow> codec \<Rightarrow> (moment \<times> wal_op) list \<Rightarrow> shard \<times> ('h, 'f) shard_ctx \<Rightarrow>
     shard \<times> ('h, 'f) shard_ctx" where
  "replica_run lb cd [] st = st"
| "replica_run lb cd ((mo, p) # ops) st = replica_run lb cd ops (snd (replica_apply lb cd mo p st))"

fun all_acknowledged ::
    "('h, 'f) libs \<Rightarrow> codec \<Rightarrow> (moment \<times> wal_op) list \<Rightarrow> shard \<times> ('h, 'f) shard_ctx \<Rightarrow> bool" where
  "all_acknowledged lb cd [] st = True"
| "all_acknowledged lb cd ((mo, p) # ops) st =
     (\<not> isl (fst (replica_apply lb cd mo p st)) \<and>
      all_acknowledged lb cd ops (snd (replica_apply lb cd mo p st)))"

text \<open>The SSTables are the files of the hot directory, and every stored id is one of \<open>ids\<close>.\<close>

definition scans_within :: "codec \<Rightarrow> string set \<Rightarrow> segments \<Rightarrow> bool" where
  "scans_within cd ids sg \<longleftrightarrow>
     (\<forall>p \<in> set (sg_sstables sg). \<forall>rs. sst_scan cd sg p = Inr rs \<longrightarrow> (\<forall>r \<in> set rs. vr_id r \<in> ids))"

definition files_listed :: "codec \<Rightarrow> string set \<Rightarrow> segments \<Rightarrow> bool" where
  "files_listed cd ids sg \<longleftrightarrow> sg_cold sg = None \<and>
     set (sg_sstables sg) = Pair Hot ` {f \<in> fst ` set (sg_hot sg). sst_glob f} \<and>
     scans_within cd ids sg \<and> (\<forall>r \<in> set (mem_scan (sg_memtable sg)). vr_id r \<in> ids)"

lemma files_listedD:
  assumes "files_listed cd ids sg"
  shows "sg_cold sg = None" "set (sg_sstables sg) = Pair Hot ` {f \<in> fst ` set (sg_hot sg). sst_glob f}"
    "scans_within cd ids sg" "r \<in> set (mem_scan (sg_memtable sg)) \<Longrightarrow> vr_id r \<in> ids"
  using assms by (simp_all add: files_listed_def)

lemma sst_glob_name: "sst_glob (sst_name t p)"
  by (simp add: sst_glob_def sst_name_def starts_with_def)

lemma scans_within_mono: "scans_within cd ids sg \<Longrightarrow> ids \<subseteq> ids' \<Longrightarrow> scans_within cd ids' sg"
  unfolding scans_within_def by blast

lemma flush_listed:
  assumes "files_listed cd ids sg" "seg_inv cd sg"
  shows "files_listed cd ids (snd (seg_flush cd ts pid sg))"
proof (cases "sg_memtable sg = []")
  case False
  let ?sg = "snd (seg_flush cd ts pid sg)"
  note l = files_listedD [OF assms(1)]
  have "set (sg_sstables ?sg) = Pair Hot ` {f \<in> fst ` set (sg_hot ?sg). sst_glob f}"
    using l(2) by (auto simp: flush_simps [OF False] dom_update sst_glob_name)
  moreover have "scans_within cd ids ?sg"
    unfolding scans_within_def flush_scan [OF assms(2) False, of ts pid]
    using l(3,4) by (auto simp: flush_simps [OF False] scans_within_def mem_scan_def split: if_splits)
  ultimately show ?thesis
    using l(1) by (simp add: files_listed_def flush_simps [OF False] mem_scan_def)
qed (use assms in \<open>simp add: seg_flush_def mem_count_def\<close>)

lemma put_listed:
  assumes "files_listed cd ids sg" "seg_inv cd sg" "line_codec cd r"
  shows "files_listed cd (insert (vr_id r) ids) (seg_put cd ts pid r sg)"
proof -
  let ?sg = "sg\<lparr>sg_memtable := mem_put r (sg_memtable sg)\<rparr>"
  note l = files_listedD [OF assms(1)]
  have k: "keyed_dict vr_id (sg_memtable sg)" using assms(2) by (simp add: seg_inv_def)
  have "scans_within cd (insert (vr_id r) ids) ?sg"
    using scans_within_mono [OF l(3), of "insert (vr_id r) ids"]
    by (auto simp: scans_within_def frame_simps)
  moreover have "\<forall>w \<in> set (mem_scan (mem_put r (sg_memtable sg))). vr_id w \<in> insert (vr_id r) ids"
    using l(4) by (auto simp: memtable.listing_put [OF k])
  ultimately have "files_listed cd (insert (vr_id r) ids) ?sg"
    using l(1,2) by (simp add: files_listed_def)
  with flush_listed [OF _ put_memtable(1) [OF assms(2,3)]] show ?thesis
    by (simp add: seg_put_def Let_def)
qed

lemma delete_listed:
  assumes "files_listed cd ids sg" "seg_inv cd sg"
  shows "files_listed cd ids (sg\<lparr>sg_memtable := mem_delete i (sg_memtable sg)\<rparr>)"
proof -
  note l = files_listedD [OF assms(1)]
  have k: "keyed_dict vr_id (sg_memtable sg)" using assms(2) by (simp add: seg_inv_def)
  have "scans_within cd ids (sg\<lparr>sg_memtable := mem_delete i (sg_memtable sg)\<rparr>)"
    using l(3) by (simp add: scans_within_def frame_simps)
  then show ?thesis
    using l memtable.listing_remove [OF k, of _ i] by (simp add: files_listed_def)
qed

lemma durable_loop_ids:
  assumes "durable_loop cd sg d ps = Inr d'"
    "\<And>p rs r. p \<in> set ps \<Longrightarrow> sst_scan cd sg p = Inr rs \<Longrightarrow> r \<in> set rs \<Longrightarrow> vr_id r \<in> ids"
    "dom (map_of d) \<subseteq> ids"
  shows "dom (map_of d') \<subseteq> ids"
  using assms
proof (induction ps arbitrary: d)
  case (Cons p ps)
  then obtain rs where rs: "sst_scan cd sg p = Inr rs" "durable_loop cd sg (put_all rs d) ps = Inr d'"
    by (auto split: sum.splits)
  have d: "dom (map_of (put_all rs d)) \<subseteq> ids"
    using Cons.prems(2) [OF _ rs(1)] Cons.prems(3) by (auto simp: map_of_put_all dom_map_of_conv_image_fst)
  show ?case
    by (rule Cons.IH [OF rs(2) _ d]) (use Cons.prems(2) in auto)
qed simp

lemma reopened_durable:
  assumes "files_listed cd ids sg" "seg_inv cd sg"
  shows "\<exists>d. durable_records_by_id cd (seg_open th (sg_hot sg) (sg_cold sg)) = Inr d \<and>
    dom (map_of d) \<subseteq> ids \<and> seg_inv cd (seg_open th (sg_hot sg) (sg_cold sg))"
proof -
  let ?sg = "seg_open th (sg_hot sg) (sg_cold sg)"
  have ps: "set (sg_sstables ?sg) = set (sg_sstables sg)"
    using files_listedD(1,2) [OF assms(1)] by (auto simp: seg_open_def)
  have scan: "sst_scan cd ?sg p = sst_scan cd sg p" for p
    by (cases p, cases "fst p") (auto simp: sst_scan_def seg_open_def)
  have inv: "seg_inv cd ?sg"
    using assms(2) unfolding seg_inv_def ps sst_good_def scan
    by (simp add: seg_open_def mem_scan_def keyed_dict_def)
  from durable_total [OF this] obtain d where d: "durable_records_by_id cd ?sg = Inr d" by blast
  then have "dom (map_of d) \<subseteq> ids"
    unfolding durable_records_by_id_def
    by (rule durable_loop_ids)
      (use files_listedD(3) [OF assms(1)] in \<open>auto simp: ps scan scans_within_def simp del: split_paired_All\<close>)
  with d inv show ?thesis by blast
qed

text \<open>
  A context whose log, with what is still in the buffer, holds exactly the operations \<open>ops\<close>, and which
  shows their outcome.
\<close>

definition ctx_log :: "codec \<Rightarrow> wal_op list \<Rightarrow> ('h, 'f) shard_ctx \<Rightarrow> bool" where
  "ctx_log cd ops cx \<longleftrightarrow> seg_inv cd (cx_segments cx) \<and>
     files_listed cd (op_id ` set ops) (cx_segments cx) \<and> sequential (cx_wal cx) \<and>
     (\<forall>e \<in> set (wl_buffer (cx_wal cx)). encodable e) \<and>
     wl_segment_id (cx_wal cx) + length (wl_buffer (cx_wal cx)) \<le> length ops \<and>
     (\<forall>now. log_ops cd (read_files now (wl_files (cx_wal cx)) @ map (read_back now) (wl_buffer (cx_wal cx))) = ops) \<and>
     ctx_view cd cx = logical Map.empty ops"

definition replica_log :: "codec \<Rightarrow> wal_op list \<Rightarrow> ('h, 'f) shard_ctx \<Rightarrow> bool" where
  "replica_log cd ops cx \<longleftrightarrow> ctx_log cd ops cx \<and> wl_buffer (cx_wal cx) = []"

lemma log_ops_append: "log_ops cd (xs @ ys) = log_ops cd xs @ log_ops cd ys"
  by (simp add: log_ops_def List.map_filter_def)

lemma logical_snoc:
  "logical d (ops @ [Upsert r]) = (logical d ops)(vr_id r \<mapsto> r)"
  "logical d (ops @ [Delete i]) = (logical d ops)(i := None)"
  by (auto simp: logical_def last_op_snoc fun_eq_iff)

lemma seg_put_sstables:
  "set (sg_sstables (seg_put cd ts pid r sg)) \<subseteq> insert (Hot, sst_name ts pid) (set (sg_sstables sg))"
  using seg_step_sstables [of cd "PutOp ts pid r" sg] by simp

definition moment_file :: "moment \<Rightarrow> string" where
  "moment_file mo = sst_name (mo_ms mo) (mo_pid mo)"

lemma log_ops_entry:
  "parse_payload cd (we_payload e) = Some p \<Longrightarrow> log_ops cd [read_back now e] = [p]"
  by (simp add: log_ops_def List.map_filter_def read_back_def new_entry_def)

lemma parse_sent:
  "replica_codec cd p \<Longrightarrow> parse_payload cd (we_payload (new_entry t (op_payload cd p) 0)) = Some p"
  using parse_op_payload [of cd p] by (cases p) (simp_all add: new_entry_def del: op_payload.simps)

text \<open>Logging an operation whose outcome the context then shows.\<close>

lemma ctx_log_snoc:
  assumes "ctx_log cd ops cx" "replica_codec cd p"
    and "encodable (new_entry (mo_ns mo) (op_payload cd p) 0)"
    and "cx_wal cx' = wal_append (new_entry (mo_ns mo) (op_payload cd p) 0) (cx_wal cx)"
    and "seg_inv cd (cx_segments cx')" "files_listed cd (op_id ` set (ops @ [p])) (cx_segments cx')"
    and "ctx_view cd cx' = logical Map.empty (ops @ [p])"
  shows "ctx_log cd (ops @ [p]) cx'"
  using assms log_ops_entry [OF parse_sent [OF assms(2), of "mo_ns mo"]]
  by (simp add: ctx_log_def wal_append_def sequential_def log_ops_append del: op_payload.simps flip: append_assoc)

lemma store_logged:
  assumes "ctx_log cd ops cx" "replica_codec cd (Upsert r)" "fresh_file mo cx"
    and "encodable (new_entry (mo_ns mo) (op_payload cd (Upsert r)) 0)"
    and "store_record lb cd mo r cx = (x, cx')"
  shows "ctx_log cd (ops @ [Upsert r]) cx'"
proof -
  note l = assms(1) [unfolded ctx_log_def]
  have lc: "line_codec cd r" using assms(2) by simp
  have inv: "seg_inv cd (cx_segments cx)" using l by blast
  note v = store_record_view [OF assms(5) inv lc assms(3)]
  note sf = store_record_fields [OF assms(5)]
  show ?thesis
  proof (rule ctx_log_snoc [OF assms(1,2,4)])
    show "cx_wal cx' = wal_append (new_entry (mo_ns mo) (op_payload cd (Upsert r)) 0) (cx_wal cx)" using sf(3) by simp
    show "files_listed cd (op_id ` set (ops @ [Upsert r])) (cx_segments cx')"
      using put_listed [OF _ inv lc] l by (simp add: sf(1))
    show "ctx_view cd cx' = logical Map.empty (ops @ [Upsert r])" using v(3) l by (simp add: logical_snoc)
  qed (rule v(1))
qed

lemma flush_logged:
  assumes "ctx_log cd ops cx" "length ops < 10 ^ 6" "flush_ctx cx = (x, cx')"
  shows "x = Inr () \<and> replica_log cd ops cx'"
proof -
  note l = assms(1) [unfolded ctx_log_def]
  let ?w = "(cx_wal cx)\<lparr>wl_buffer := []\<rparr>" and ?es = "wl_buffer (cx_wal cx)"
  have w: "wal_flush (cx_wal cx) = flush_batch ?es ?w" by (simp add: wal_flush_def Let_def)
  have "sequential ?w" "\<forall>e \<in> set ?es. encodable e" "wl_segment_id ?w + length ?es < 10 ^ 6"
    using l assms(2) by (simp_all add: sequential_def)
  note fb = flush_batch_sequential [OF this]
  note f = flush_ctx_fields [OF assms(3)] and fr = flush_ctx_frame [OF assms(3)]
  have x: "x = Inr ()" "sequential (cx_wal cx')" "wl_segment_id (cx_wal cx') \<le> length ops"
    and read: "\<And>now. read_files now (wl_files (cx_wal cx')) = read_files now (wl_files (cx_wal cx)) @ map (read_back now) ?es"
    using fb f l by (fastforce simp: w)+
  have "wl_buffer (cx_wal cx') = []" using f wal_flush_buffer by blast
  then show ?thesis using x read l fr by (simp add: replica_log_def ctx_log_def)
qed

lemma delete_logged:
  assumes "ctx_log cd ops cx" "replica_codec cd (Delete i)"
    and "encodable (new_entry (mo_ns mo) (op_payload cd (Delete i)) 0)"
    and "cx_wal cx' = wal_append (new_entry (mo_ns mo) (op_payload cd (Delete i)) 0) (cx_wal cx)"
    and "cx_tombstones cx' = List.insert i (cx_tombstones cx)"
    and "cx_segments cx' = (cx_segments cx)\<lparr>sg_memtable := mem_delete i (sg_memtable (cx_segments cx))\<rparr>"
  shows "ctx_log cd (ops @ [Delete i]) cx'"
proof -
  note l = assms(1) [unfolded ctx_log_def]
  have inv: "seg_inv cd (cx_segments cx)" using l by blast
  note m = mem_delete_view [OF inv]
  show ?thesis
  proof (rule ctx_log_snoc [OF assms(1-4)])
    show "seg_inv cd (cx_segments cx')" using m(1) by (simp add: assms(6))
    have "files_listed cd (op_id ` set ops) (cx_segments cx')"
      using delete_listed [OF _ inv] l by (simp add: assms(6))
    then show "files_listed cd (op_id ` set (ops @ [Delete i])) (cx_segments cx')"
      unfolding files_listed_def scans_within_def by auto
    have "ctx_view cd cx' = (ctx_view cd cx)(i := None)"
      using m(2) by (auto simp: ctx_view_def assms(5,6) fun_eq_iff)
    then show "ctx_view cd cx' = logical Map.empty (ops @ [Delete i])" using l by (simp add: logical_snoc)
  qed
qed

lemma replica_step:
  assumes "replica_log cd ops cx" "replica_codec cd p" "fresh_file mo cx"
    and "encodable (new_entry (mo_ns mo) (op_payload cd p) 0)" "Suc (length ops) < 10 ^ 6"
    and "replica_apply lb cd mo p (s, cx) = (Inr u, s', cx')"
  shows "(replica_log cd ops cx' \<or> replica_log cd (ops @ [p]) cx') \<and>
    set (sg_sstables (cx_segments cx')) \<subseteq> insert (Hot, moment_file mo) (set (sg_sstables (cx_segments cx)))"
proof -
  have l: "ctx_log cd ops cx" "seg_inv cd (cx_segments cx)" using assms(1) by (auto simp: replica_log_def ctx_log_def)
  have len: "length (ops @ [p]) < 10 ^ 6" using assms(5) by simp
  show ?thesis
  proof (cases p)
    case (Upsert r)
    show ?thesis
    proof (cases "already_applied cd r cx")
      case True
      with upsert_skipped [of cd cx r] l assms(1,2,6) Upsert show ?thesis by auto
    next
      case False
      from upsert_applied [OF l(2) assms(2) [unfolded Upsert] False assms(6) [unfolded Upsert]]
      obtain cx1 where st: "store_record lb cd mo r cx = (Inr (), cx1)" "flush_ctx cx1 = (Inr (), cx')" by blast
      note f = flush_ctx_frame [OF st(2)] and sf = store_record_fields [OF st(1)]
      have "ctx_log cd (ops @ [p]) cx1"
        using store_logged [OF l(1) _ assms(3) _ st(1)] assms(2,4) by (simp add: Upsert del: replica_codec.simps op_payload.simps)
      from flush_logged [OF this len st(2)] show ?thesis
        using seg_put_sstables [of cd "mo_ms mo" "mo_pid mo" r "cx_segments cx"]
        by (simp add: f sf moment_file_def)
    qed
  next
    case (Delete i)
    from assms(2,6) [unfolded Delete] obtain cx1 where d: "flush_ctx cx1 = (Inr u, cx')"
      "cx_wal cx1 = wal_append (new_entry (mo_ns mo) (op_payload cd (Delete i)) 0) (cx_wal cx)"
      "cx_tombstones cx1 = List.insert i (cx_tombstones cx)"
      "cx_segments cx1 = (cx_segments cx)\<lparr>sg_memtable := mem_delete i (sg_memtable (cx_segments cx))\<rparr>"
      by (cases rule: delete_applied)
    from delete_logged [OF l(1) assms(2,4) [unfolded Delete] d(2-4)] flush_logged [OF _ len [unfolded Delete] d(1)]
    show ?thesis by (auto simp: flush_ctx_frame [OF d(1)] d(4) Delete)
  qed
qed

lemma replica_run_log:
  assumes "replica_log cd past cx" "\<forall>(mo, p) \<in> set ops. replica_codec cd p \<and>
      encodable (new_entry (mo_ns mo) (op_payload cd p) 0)"
    and "distinct (map (moment_file \<circ> fst) ops)"
    and "Pair Hot ` set (map (moment_file \<circ> fst) ops) \<inter> set (sg_sstables (cx_segments cx)) = {}"
    and "length past + length ops < 10 ^ 6" "all_acknowledged lb cd ops (s, cx)"
  shows "\<exists>ops'. replica_log cd ops' (snd (replica_run lb cd ops (s, cx)))"
  using assms
proof (induction ops arbitrary: past s cx)
  case Nil
  then show ?case by auto
next
  case (Cons op ops)
  obtain mo p where op: "op = (mo, p)" by (cases op)
  obtain x s1 cx1 where a: "replica_apply lb cd mo p (s, cx) = (x, s1, cx1)" by (metis prod_cases3)
  with Cons.prems(6) op obtain u where x: "x = Inr u" by (cases x) auto
  have fresh: "fresh_file mo cx" using Cons.prems(4) op by (auto simp: fresh_file_def moment_file_def)
  have pre: "replica_codec cd p" "encodable (new_entry (mo_ns mo) (op_payload cd p) 0)"
    using Cons.prems(2) op by auto
  have len: "Suc (length past) < 10 ^ 6" using Cons.prems(5) by simp
  from replica_step [OF Cons.prems(1) pre(1) fresh pre(2) len a [unfolded x]]
  have st: "replica_log cd past cx1 \<or> replica_log cd (past @ [p]) cx1"
    and ss: "set (sg_sstables (cx_segments cx1)) \<subseteq> insert (Hot, moment_file mo) (set (sg_sstables (cx_segments cx)))"
    by blast+
  have disj: "Pair Hot ` set (map (moment_file \<circ> fst) ops) \<inter> set (sg_sstables (cx_segments cx1)) = {}"
  proof -
    have "moment_file mo \<notin> set (map (moment_file \<circ> fst) ops)" using Cons.prems(3) op by simp
    moreover have "Pair Hot ` set (map (moment_file \<circ> fst) ops) \<inter> set (sg_sstables (cx_segments cx)) = {}"
      using Cons.prems(4) by auto
    ultimately show ?thesis using ss by blast
  qed
  have rest: "all_acknowledged lb cd ops (s1, cx1)" using Cons.prems(6) op a by simp
  have run: "replica_run lb cd (op # ops) (s, cx) = replica_run lb cd ops (s1, cx1)" using op a by simp
  have tl: "\<forall>(mo, p) \<in> set ops. replica_codec cd p \<and> encodable (new_entry (mo_ns mo) (op_payload cd p) 0)"
    "distinct (map (moment_file \<circ> fst) ops)" using Cons.prems(2,3) by (simp_all add: o_def)
  from st show ?case
  proof
    assume "replica_log cd past cx1"
    from Cons.IH [OF this tl disj _ rest] Cons.prems(5) show ?thesis unfolding run by simp
  next
    assume "replica_log cd (past @ [p]) cx1"
    from Cons.IH [OF this tl disj _ rest] Cons.prems(5) show ?thesis unfolding run by simp
  qed
qed

lemma open_ctx_new:
  assumes "open_ctx lb cd mo base s ns fs = (Inr cx, s')"
    and "dict_get (fs_wal fs) (base @ ''/wal/'' @ sh_id s) = None"
    and "dict_get (fs_seg fs) (base @ ''/segments/'' @ sh_id s) = None"
  shows "replica_log cd [] cx \<and> sg_sstables (cx_segments cx) = []"
proof -
  let ?w = "wal_open default_segment_bytes 1000 []" and ?sg = "seg_open 10000 [] None"
  have sg: "durable_records_by_id cd ?sg = Inr []" "sg_memtable ?sg = []" "sg_sstables ?sg = []" "seg_inv cd ?sg"
    "sg_hot ?sg = []" "sg_cold ?sg = None"
    using seg_open_empty [of None cd 10000] by (simp_all add: durable_records_by_id_def seg_open_def)
  have rd: "read_files now (wl_files ?w) = []" for now
    using reopen_read_files [of now default_segment_bytes 1000 "[]"] by (simp add: read_files_def)
  have rec: "recover cd n (?w, ?sg) = (Inr \<lparr>rr_records = [], rr_deleted_ids = [], rr_recovered_from_wal = 0,
      rr_wal_entries_read = 0\<rparr>, ?w, ?sg)" for n
    using sg(1,2) rd by (simp add: recover_def read_all_def wal_flush_def wal_open_def open_segment_def
        put_all_def seg_open_def)
  from assms have cx: "cx_wal cx = ?w" "cx_segments cx = ?sg" "cx_tombstones cx = []"
    using rec by (auto simp: open_ctx_def open_wal_def open_seg_def split: sum.splits prod.splits)
  have "ctx_view cd cx = logical Map.empty []"
    by (auto simp: ctx_view_def cx seg_view_def durable_view_def sg logical_def fun_eq_iff)
  moreover have "files_listed cd {} ?sg"
    by (simp add: files_listed_def scans_within_def sg mem_scan_def)
  moreover have "wl_segment_id ?w = 0" by (simp add: wal_open_def open_segment_def)
  ultimately show ?thesis
    using sequential_open rd sg(3,4)
    by (simp add: replica_log_def ctx_log_def cx log_ops_def List.map_filter_def wal_open_def open_segment_def)
qed

lemma logical_covered:
  assumes "dom d \<subseteq> op_id ` set ops"
  shows "logical d ops = logical Map.empty ops"
proof
  fix i
  have "d i = None" if "last_op ops i = None"
    using that assms by (force simp: last_op_def find_None_iff)
  then show "logical d ops i = logical Map.empty ops i"
    by (auto simp: logical_def split: option.splits)
qed

text \<open>What recovery from the files of a context without buffered operations gives, and what its lookups answer.\<close>

lemma log_survives_restart:
  assumes "replica_log cd past cx"
  obtains res w sg where "recover cd now (wal_open sb b (wl_files (cx_wal cx)),
      seg_open th (sg_hot (cx_segments cx)) (sg_cold (cx_segments cx))) = (Inr res, w, sg)"
    "map_of (map (\<lambda>r. (vr_id r, r)) (rr_records res)) = ctx_view cd cx"
    "\<And>r. r \<in> set (rr_records res) \<Longrightarrow> ctx_view cd cx (vr_id r) = Some r"
    "\<And>i. \<exists>x. seg_get cd sg i = Inr x \<and> (\<forall>w. x = Some w \<longrightarrow> vr_id w = i) \<and>
      rel_option same_stamp (ctx_view cd cx i) (if i \<in> set (rr_deleted_ids res) then None else x)"
proof -
  have l: "seg_inv cd (cx_segments cx)" "files_listed cd (op_id ` set past) (cx_segments cx)"
      "log_ops cd (read_files now (wl_files (cx_wal cx))) = past" "ctx_view cd cx = logical Map.empty past"
    using assms by (auto simp: replica_log_def ctx_log_def)
  let ?sg = "seg_open th (sg_hot (cx_segments cx)) (sg_cold (cx_segments cx))"
  from reopened_durable [OF l(2,1), of th] obtain d where d: "durable_records_by_id cd ?sg = Inr d"
    "dom (map_of d) \<subseteq> op_id ` set past" "seg_inv cd ?sg" by blast
  have mt: "sg_memtable ?sg = []" by (simp add: seg_open_def)
  from read_reopened obtain w where read: "read_all now (wal_open sb b (wl_files (cx_wal cx))) =
      (Inr (read_files now (wl_files (cx_wal cx))), w)" by blast
  from recover_eq [OF d(1) read] obtain records tombs where r: "keyed_dict vr_id records"
    "map_of records = logical (map_of d) past" "\<And>i. i \<in> set tombs \<longleftrightarrow> tombstoned past i"
    and eq: "recover cd now (wal_open sb b (wl_files (cx_wal cx)), ?sg) =
      (Inr \<lparr>rr_records = dict_values records, rr_deleted_ids = sort tombs,
            rr_recovered_from_wal = int (length (filter (not_durable d) records)),
            rr_wal_entries_read = int (length (read_files now (wl_files (cx_wal cx))))\<rparr>, w,
       ?sg\<lparr>sg_memtable := put_all (map snd (filter (not_durable d) records)) (sg_memtable ?sg)\<rparr>)"
    unfolding l(3) by metis
  have rec: "map_of records = ctx_view cd cx"
    using r(2) logical_covered [OF d(2)] l(4) by simp
  have served: "rel_option same_stamp (ctx_view cd cx i) (if i \<in> set tombs then None else
      (case map_of records i of
         None \<Rightarrow> map_of d i
       | Some r \<Rightarrow> (case map_of d i of None \<Rightarrow> Some r
           | Some cached \<Rightarrow> if same_stamp cached r then Some cached else Some r)))" for i
  proof (cases "ctx_view cd cx i")
    case None
    have "i \<in> set tombs \<or> map_of d i = None"
    proof (cases "last_op past i")
      case None
      then have "i \<notin> op_id ` set past" by (auto simp: last_op_def find_None_iff)
      with d(2) show ?thesis by auto
    next
      case (Some p)
      with \<open>ctx_view cd cx i = None\<close> l(4) show ?thesis
        by (cases p) (auto simp: logical_def r(3) tombstoned_def dest: last_op_id)
    qed
    with None rec show ?thesis by auto
  next
    case (Some v)
    then have "i \<notin> set tombs" using l(4) r(3) tombstoned_logical by fastforce
    with Some rec show ?thesis by (auto simp: same_stamp_def split: option.splits)
  qed
  have get: "seg_get cd (?sg\<lparr>sg_memtable := put_all (map snd (filter (not_durable d) records)) []\<rparr>) i =
      Inr (case map_of records i of
         None \<Rightarrow> map_of d i
       | Some r \<Rightarrow> (case map_of d i of None \<Rightarrow> Some r
           | Some cached \<Rightarrow> if same_stamp cached r then Some cached else Some r))" for i
    by (rule seg_get_recovered [OF d(3,1) mt r(1)])
  let ?res = "\<lparr>rr_records = dict_values records, rr_deleted_ids = sort tombs,
      rr_recovered_from_wal = int (length (filter (not_durable d) records)),
      rr_wal_entries_read = int (length (read_files now (wl_files (cx_wal cx))))\<rparr>"
  have served': "rel_option same_stamp (ctx_view cd cx i) (if i \<in> set (rr_deleted_ids ?res) then None else
      (case map_of records i of
         None \<Rightarrow> map_of d i
       | Some r \<Rightarrow> (case map_of d i of None \<Rightarrow> Some r
           | Some cached \<Rightarrow> if same_stamp cached r then Some cached else Some r)))" for i
    using served [of i] by simp
  show thesis
  proof (rule that [OF eq [unfolded mt]])
    show "map_of (map (\<lambda>r. (vr_id r, r)) (rr_records ?res)) = ctx_view cd cx"
      using map_of_ids [OF r(1)] rec by simp
    show "ctx_view cd cx (vr_id q) = Some q" if "q \<in> set (rr_records ?res)" for q
      using that keyed_dict_values [OF r(1), of q] rec by simp
    have "vr_id w = i" if "map_of d i = Some w \<or> map_of records i = Some w" for i w
      using that r(1) durable_keyed [OF d(1)] by (auto simp: keyed_dict_iff)
    then show "\<exists>x. seg_get cd (?sg\<lparr>sg_memtable := put_all (map snd (filter (not_durable d) records)) []\<rparr>) i = Inr x \<and>
        (\<forall>w. x = Some w \<longrightarrow> vr_id w = i) \<and>
        rel_option same_stamp (ctx_view cd cx i) (if i \<in> set (rr_deleted_ids ?res) then None else x)" for i
      unfolding get using served' [of i] by (intro exI conjI) (rule refl, auto split: option.splits if_splits)
  qed
qed

text \<open>
  Acknowledged replica state survives a restart. On a replica created over empty directories, after
  any run of replicated operations that were all acknowledged, recovery from the files alone (with
  nothing left in memory) gives exactly the records the replica showed, so the index is rebuilt from
  them, and its lookups answer every id with a record of the same version and checksum, or with
  none where the replica showed none.
\<close>

theorem replica_survives_restart:
  assumes "open_ctx lb cd mo0 base s ns fs = (Inr cx, s0)"
    and "dict_get (fs_wal fs) (base @ ''/wal/'' @ sh_id s) = None"
    and "dict_get (fs_seg fs) (base @ ''/segments/'' @ sh_id s) = None"
    and "\<forall>(mo, p) \<in> set ops. replica_codec cd p \<and> encodable (new_entry (mo_ns mo) (op_payload cd p) 0)"
    and "distinct (map (moment_file \<circ> fst) ops)" "length ops < 10 ^ 6"
    and "all_acknowledged lb cd ops (s0, cx)" "cx1 = snd (replica_run lb cd ops (s0, cx))"
  shows "\<exists>res w sg. recover cd now (wal_open sb b (wl_files (cx_wal cx1)),
        seg_open th (sg_hot (cx_segments cx1)) (sg_cold (cx_segments cx1))) = (Inr res, w, sg) \<and>
    map_of (map (\<lambda>r. (vr_id r, r)) (rr_records res)) = ctx_view cd cx1 \<and>
    (\<forall>i. \<exists>x. seg_get cd sg i = Inr x \<and>
      rel_option same_stamp (ctx_view cd cx1 i) (if i \<in> set (rr_deleted_ids res) then None else x))"
proof -
  from open_ctx_new [OF assms(1-3)] have l0: "replica_log cd [] cx"
    "Pair Hot ` set (map (moment_file \<circ> fst) ops) \<inter> set (sg_sstables (cx_segments cx)) = {}" by auto
  from replica_run_log [OF l0(1) assms(4,5) l0(2) _ assms(7)] assms(6,8) obtain past where
    "replica_log cd past cx1" by auto
  then obtain res w sg where "recover cd now (wal_open sb b (wl_files (cx_wal cx1)),
        seg_open th (sg_hot (cx_segments cx1)) (sg_cold (cx_segments cx1))) = (Inr res, w, sg)"
    "map_of (map (\<lambda>r. (vr_id r, r)) (rr_records res)) = ctx_view cd cx1"
    "\<And>i. \<exists>x. seg_get cd sg i = Inr x \<and> (\<forall>w. x = Some w \<longrightarrow> vr_id w = i) \<and>
      rel_option same_stamp (ctx_view cd cx1 i) (if i \<in> set (rr_deleted_ids res) then None else x)"
    by (rule log_survives_restart [where now = now and sb = sb and b = b and th = th]) (rule that; assumption)
  then show ?thesis by blast
qed

subsection \<open>When operations are acknowledged\<close>

fun fits_index :: "wal_op \<Rightarrow> ('h, 'f) vindex \<Rightarrow> bool" where
  "fits_index (Upsert r) (FlatIx f) = (length (vr_vector r) = fl_dimension f)"
| "fits_index (Delete i) (FlatIx f) = True"
| "fits_index p ix = False"

lemma flat_add_fits:
  "length v = fl_dimension f \<Longrightarrow> \<exists>f'. flat_add [(i, v, m)] f = (Inr (), f') \<and> fl_dimension f' = fl_dimension f"
  by (simp add: flat_add_def Let_def)

lemma fits_acknowledged:
  assumes "replica_log cd ops cx" "replica_codec cd p" "Suc (length ops) < 10 ^ 6"
    and "encodable (new_entry (mo_ns mo) (op_payload cd p) 0)" "fits_index p (cx_index cx)"
  shows "\<exists>s' cx'. replica_apply lb cd mo p (s, cx) = (Inr (), s', cx') \<and>
    (\<forall>q. fits_index q (cx_index cx) \<longrightarrow> fits_index q (cx_index cx'))"
proof -
  have l: "seg_inv cd (cx_segments cx)" "sequential (cx_wal cx)" "wl_buffer (cx_wal cx) = []"
    "Suc (wl_segment_id (cx_wal cx)) < 10 ^ 6"
    using assms(1,3) by (auto simp: replica_log_def ctx_log_def)
  let ?e = "new_entry (mo_ns mo) (op_payload cd p) 0"
  obtain x w where fl: "wal_flush (wal_append ?e (cx_wal cx)) = (x, w)" by fastforce
  have "wal_flush (wal_append ?e (cx_wal cx)) = flush_batch [?e] (cx_wal cx)"
    using l(3) by (cases "cx_wal cx") (simp add: wal_flush_def wal_append_def del: flush_batch.simps)
  with fl flush_batch_sequential [OF l(2), of "[?e]"] l(4) assms(4) have "x = Inr ()" by fastforce
  with fl have flush: "\<And>cx1. cx_wal cx1 = wal_append ?e (cx_wal cx) \<Longrightarrow> \<exists>cx2. flush_ctx cx1 = (Inr (), cx2) \<and> cx_index cx2 = cx_index cx1"
    by (simp add: flush_ctx_def)
  from assms(5) obtain f where f: "cx_index cx = FlatIx f"
    by (cases "cx_index cx"; cases p) auto
  show ?thesis
  proof (cases p)
    case (Upsert r)
    show ?thesis
    proof (cases "already_applied cd r cx")
      case True
      with upsert_skipped [of cd cx r] l assms(2) Upsert show ?thesis by blast
    next
      case False
      obtain f' where f': "flat_add [(vr_id r, vr_vector r, vr_metadata r)] f = (Inr (), f')"
        "fl_dimension f' = fl_dimension f"
        using flat_add_fits assms(5) f Upsert by (metis fits_index.simps(1))
      obtain y cx1 where st: "store_record lb cd mo r cx = (y, cx1)" by fastforce
      have y: "y = Inr ()" "cx_index cx1 = FlatIx f'"
        using st f f' by (auto simp: store_record_def Let_def log_payload_def)
      from flush [of cx1] store_record_fields(3) [OF st] Upsert obtain cx2 where
        cx2: "flush_ctx cx1 = (Inr (), cx2)" "cx_index cx2 = FlatIx f'" using y by auto
      have "replica_apply lb cd mo (Upsert r) (s, cx) = (Inr (), count_vector s, cx2)"
        using payload_record_upsert [of cd r] False l assms(2) Upsert st y cx2
        by (simp add: apply_replicated_upsert_def seg_get_view already_applied_def del: replica_codec.simps
            split: option.splits)
      moreover have "\<forall>q. fits_index q (cx_index cx) \<longrightarrow> fits_index q (cx_index cx2)"
      proof (intro allI impI)
        fix q
        assume "fits_index q (cx_index cx)"
        with f f'(2) cx2(2) show "fits_index q (cx_index cx2)" by (cases q) auto
      qed
      ultimately show ?thesis using Upsert by blast
    qed
  next
    case (Delete i)
    obtain y s' cx' where a: "replica_apply lb cd mo (Delete i) (s, cx) = (y, s', cx')" by (metis prod_cases3)
    from assms(2) [unfolded Delete] a obtain cx1 where d: "flush_ctx cx1 = (y, cx')"
      "cx_wal cx1 = wal_append (new_entry (mo_ns mo) (op_payload cd (Delete i)) 0) (cx_wal cx)"
      "cx_index cx1 = vx_delete (lib_hnsw lb) [i] (cx_index cx)"
      by (cases rule: delete_applied)
    from flush [of cx1] d Delete have "y = Inr ()" "cx_index cx' = vx_delete (lib_hnsw lb) [i] (cx_index cx)" by auto
    moreover have "fl_dimension (flat_delete [i] f) = fl_dimension f" by (simp add: flat_delete_def Let_def)
    ultimately have "\<forall>q. fits_index q (cx_index cx) \<longrightarrow> fits_index q (cx_index cx')"
    proof (intro allI impI)
      fix q
      assume "fits_index q (cx_index cx)"
      then show "fits_index q (cx_index cx')"
        using f \<open>cx_index cx' = vx_delete (lib_hnsw lb) [i] (cx_index cx)\<close>
          \<open>fl_dimension (flat_delete [i] f) = fl_dimension f\<close> by (cases q) auto
    qed
    with a Delete \<open>y = Inr ()\<close> show ?thesis by blast
  qed
qed

lemma run_acknowledged:
  assumes "replica_log cd past cx" "\<forall>(mo, p) \<in> set ops. replica_codec cd p \<and>
      encodable (new_entry (mo_ns mo) (op_payload cd p) 0) \<and> fits_index p (cx_index cx)"
    and "distinct (map (moment_file \<circ> fst) ops)"
    and "Pair Hot ` set (map (moment_file \<circ> fst) ops) \<inter> set (sg_sstables (cx_segments cx)) = {}"
    and "length past + length ops < 10 ^ 6"
  shows "all_acknowledged lb cd ops (s, cx)"
  using assms
proof (induction ops arbitrary: past s cx)
  case (Cons op ops)
  obtain mo p where op: "op = (mo, p)" by (cases op)
  have pre: "replica_codec cd p" "encodable (new_entry (mo_ns mo) (op_payload cd p) 0)" "fits_index p (cx_index cx)"
    using Cons.prems(2) op by auto
  have len: "Suc (length past) < 10 ^ 6" using Cons.prems(5) by simp
  from fits_acknowledged [OF Cons.prems(1) pre(1) len pre(2,3)] obtain s1 cx1 where
    a: "replica_apply lb cd mo p (s, cx) = (Inr (), s1, cx1)"
    and fit: "\<And>q. fits_index q (cx_index cx) \<Longrightarrow> fits_index q (cx_index cx1)" by blast
  have fresh: "fresh_file mo cx" using Cons.prems(4) op by (auto simp: fresh_file_def moment_file_def)
  from replica_step [OF Cons.prems(1) pre(1) fresh pre(2) len a]
  have st: "replica_log cd past cx1 \<or> replica_log cd (past @ [p]) cx1"
    and ss: "set (sg_sstables (cx_segments cx1)) \<subseteq> insert (Hot, moment_file mo) (set (sg_sstables (cx_segments cx)))"
    by blast+
  have disj: "Pair Hot ` set (map (moment_file \<circ> fst) ops) \<inter> set (sg_sstables (cx_segments cx1)) = {}"
  proof -
    have "moment_file mo \<notin> set (map (moment_file \<circ> fst) ops)" using Cons.prems(3) op by simp
    moreover have "Pair Hot ` set (map (moment_file \<circ> fst) ops) \<inter> set (sg_sstables (cx_segments cx)) = {}"
      using Cons.prems(4) by auto
    ultimately show ?thesis using ss by blast
  qed
  have tl: "\<forall>(mo, p) \<in> set ops. replica_codec cd p \<and> encodable (new_entry (mo_ns mo) (op_payload cd p) 0) \<and>
      fits_index p (cx_index cx1)" "distinct (map (moment_file \<circ> fst) ops)"
    using Cons.prems(2,3) fit by (auto simp: o_def)
  have "all_acknowledged lb cd ops (s1, cx1)"
    using st Cons.IH [OF _ tl disj, of past s1] Cons.IH [OF _ tl disj, of "past @ [p]" s1] Cons.prems(5) by auto
  then show ?case using op a by simp
qed simp

definition fits_namespace :: "namespace \<Rightarrow> wal_op \<Rightarrow> bool" where
  "fits_namespace ns p \<longleftrightarrow>
     (case p of Upsert r \<Rightarrow> length (vr_vector r) = nat (ns_dimension ns) | Delete i \<Rightarrow> True)"

lemma create_flat:
  assumes "ns_index_type ns = FLAT"
  shows "create_index hl fl (index_type_value (ns_index_type ns)) (nat (ns_dimension ns))
      (metric_value (ns_distance_metric ns)) =
    Inr (FlatIx (new_flat (nat (ns_dimension ns)) (metric_value (ns_distance_metric ns))))"
proof -
  have "upper ''FLAT'' = ''FLAT''" by code_simp
  then show ?thesis by (simp add: create_index_def assms)
qed

lemma open_flat:
  assumes "ns_index_type ns = FLAT" "dict_get (fs_wal fs) (base @ ''/wal/'' @ sh_id s) = None"
    and "dict_get (fs_seg fs) (base @ ''/segments/'' @ sh_id s) = None"
  shows "\<exists>cx. open_ctx lb cd mo base s ns fs = (Inr cx, s) \<and>
    cx_index cx = FlatIx (new_flat (nat (ns_dimension ns)) (metric_value (ns_distance_metric ns))) \<and>
    (\<forall>p. fits_namespace ns p \<longrightarrow> fits_index p (cx_index cx))"
proof -
  let ?w = "wal_open default_segment_bytes 1000 []" and ?sg = "seg_open 10000 [] None"
  note ix = create_flat [OF assms(1), of "lib_hnsw lb" "lib_faiss lb"]
  have sg: "durable_records_by_id cd ?sg = Inr []"
    by (simp add: durable_records_by_id_def seg_open_def)
  have "read_files now (wl_files ?w) = []" for now
    using reopen_read_files [of now default_segment_bytes 1000 "[]"] by (simp add: read_files_def)
  then have "\<exists>res w sg1. recover cd (mo_ns mo) (?w, ?sg) = (Inr res, w, sg1) \<and> rr_records res = []"
    by (simp add: recover_def sg read_all_def wal_flush_def)
  then obtain res w sg1 where "recover cd (mo_ns mo) (?w, ?sg) = (Inr res, w, sg1)" "rr_records res = []" by blast
  with ix assms(2,3) have "\<exists>cx. open_ctx lb cd mo base s ns fs = (Inr cx, s) \<and>
      cx_index cx = FlatIx (new_flat (nat (ns_dimension ns)) (metric_value (ns_distance_metric ns)))"
    by (simp add: open_ctx_def open_wal_def open_seg_def)
  moreover have "fits_namespace ns p \<Longrightarrow> fits_index p
      (FlatIx (new_flat (nat (ns_dimension ns)) (metric_value (ns_distance_metric ns))))" for p
    by (cases p) (simp_all add: fits_namespace_def new_flat_def)
  ultimately show ?thesis by fastforce
qed

text \<open>
  A replica with the flat index always makes progress: created over empty directories it opens,
  and then acknowledges every sequence of replicated operations whose payloads the codec reads back,
  whose vectors have the namespace's dimension and whose frames fit the log's header.
\<close>

theorem flat_replica_acknowledges:
  assumes "ns_index_type ns = FLAT" "dict_get (fs_wal fs) (base @ ''/wal/'' @ sh_id s) = None"
    and "dict_get (fs_seg fs) (base @ ''/segments/'' @ sh_id s) = None"
    and "\<forall>(mo, p) \<in> set ops. replica_codec cd p \<and>
      encodable (new_entry (mo_ns mo) (op_payload cd p) 0) \<and> fits_namespace ns p"
    and "distinct (map (moment_file \<circ> fst) ops)" "length ops < 10 ^ 6"
  shows "\<exists>cx. open_ctx lb cd mo0 base s ns fs = (Inr cx, s) \<and> all_acknowledged lb cd ops (s, cx)"
proof -
  from open_flat [OF assms(1-3)] obtain cx where cx: "open_ctx lb cd mo0 base s ns fs = (Inr cx, s)"
    "\<And>p. fits_namespace ns p \<Longrightarrow> fits_index p (cx_index cx)" by blast
  from open_ctx_new [OF cx(1) assms(2,3)] have l: "replica_log cd [] cx"
    "Pair Hot ` set (map (moment_file \<circ> fst) ops) \<inter> set (sg_sstables (cx_segments cx)) = {}" by auto
  have "all_acknowledged lb cd ops (s, cx)"
    by (rule run_acknowledged [OF l(1) _ assms(5) l(2)]) (use assms(4,6) cx(2) in auto)
  with cx(1) show ?thesis by blast
qed

subsection \<open>Concrete replicas\<close>

definition demo_replica_ops :: "(moment \<times> wal_op) list" where
  "demo_replica_ops = [(demo_moment 1, Upsert (demo_record ''a'' ''x'')),
     (demo_moment 2, Upsert (demo_record ''b'' ''y'')), (demo_moment 3, Delete ''a'')]"

definition no_files :: storage where
  "no_files = \<lparr>fs_wal = [], fs_seg = []\<rparr>"

lemma demo_replica_codec:
  "replica_codec demo_codec (Upsert (demo_record ''a'' ''x''))"
  "replica_codec demo_codec (Upsert (demo_record ''b'' ''y''))"
  "replica_codec demo_codec (Delete ''a'')"
proof -
  have "line_codec demo_codec (demo_record ''a'' ''x'')" "line_codec demo_codec (demo_record ''b'' ''y'')"
    by (rule demo_line_codec; simp add: is_space_def)+
  then show "replica_codec demo_codec (Upsert (demo_record ''a'' ''x''))"
    "replica_codec demo_codec (Upsert (demo_record ''b'' ''y''))"
    "replica_codec demo_codec (Delete ''a'')"
    using demo_op_codec [of "''a''" "''x''"] demo_op_codec(1) [of "''b''" "''y''"]
    by (simp_all del: op_codec.simps)
qed

lemma demo_replica_ops:
  "\<forall>(mo, p) \<in> set demo_replica_ops. replica_codec demo_codec p \<and>
      encodable (new_entry (mo_ns mo) (op_payload demo_codec p) 0) \<and> fits_namespace demo_namespace p"
  "distinct (map (moment_file \<circ> fst) demo_replica_ops)" "length demo_replica_ops < 10 ^ 6"
proof -
  have "encodable (new_entry t (op_payload demo_codec (Upsert (demo_record ''a'' ''x''))) 0)"
    "encodable (new_entry t (op_payload demo_codec (Upsert (demo_record ''b'' ''y''))) 0)"
    "encodable (new_entry t (op_payload demo_codec (Delete ''a'')) 0)" if "t < 2 ^ 64" for t
    using that by (simp_all add: encodable_def new_entry_def demo_codec_def demo_record_def encode_def delete_envelope_def)
  then show "\<forall>(mo, p) \<in> set demo_replica_ops. replica_codec demo_codec p \<and>
      encodable (new_entry (mo_ns mo) (op_payload demo_codec p) 0) \<and> fits_namespace demo_namespace p"
    using demo_replica_codec
    by (simp add: demo_replica_ops_def demo_moment_def fits_namespace_def demo_namespace_def demo_record_def
        del: replica_codec.simps op_payload.simps)
  show "distinct (map (moment_file \<circ> fst) demo_replica_ops)"
    by (simp add: demo_replica_ops_def moment_file_def demo_moment_def sst_name_def nat_str.simps digit_char_def)
  show "length demo_replica_ops < 10 ^ 6" by (simp add: demo_replica_ops_def)
qed

lemma demo_replica_files:
  "ns_index_type demo_namespace = FLAT"
  "dict_get (fs_wal no_files) (''r'' @ ''/wal/'' @ sh_id demo_replica) = None"
  "dict_get (fs_seg no_files) (''r'' @ ''/segments/'' @ sh_id demo_replica) = None"
  by (simp_all add: demo_namespace_def no_files_def)

lemma flat_replica_acknowledges_witness:
  "\<exists>cx. open_ctx demo_libs demo_codec (demo_moment 0) ''r'' demo_replica demo_namespace no_files = (Inr cx, demo_replica) \<and>
     all_acknowledged demo_libs demo_codec demo_replica_ops (demo_replica, cx)"
  by (rule flat_replica_acknowledges [OF demo_replica_files demo_replica_ops])

lemma replica_survives_restart_witness:
  "\<exists>cx1 res w sg. recover demo_codec 9 (wal_open 100 10 (wl_files (cx_wal cx1)),
        seg_open 10 (sg_hot (cx_segments cx1)) (sg_cold (cx_segments cx1))) = (Inr res, w, sg) \<and>
    map_of (map (\<lambda>r. (vr_id r, r)) (rr_records res)) = ctx_view demo_codec (cx1 :: (unit, unit) shard_ctx)"
proof -
  from open_flat [OF demo_replica_files, of demo_libs demo_codec "demo_moment 0"] obtain cx where
    cx: "open_ctx demo_libs demo_codec (demo_moment 0) ''r'' demo_replica demo_namespace no_files = (Inr cx, demo_replica)"
    "\<And>p. fits_namespace demo_namespace p \<Longrightarrow> fits_index p (cx_index cx)" by blast
  from open_ctx_new [OF cx(1) demo_replica_files(2,3)] have l: "replica_log demo_codec [] cx"
    "Pair Hot ` set (map (moment_file \<circ> fst) demo_replica_ops) \<inter> set (sg_sstables (cx_segments cx)) = {}" by auto
  have ops: "\<forall>(mo, p) \<in> set demo_replica_ops. replica_codec demo_codec p \<and>
      encodable (new_entry (mo_ns mo) (op_payload demo_codec p) 0)"
    using demo_replica_ops(1) by auto
  have ack: "all_acknowledged demo_libs demo_codec demo_replica_ops (demo_replica, cx)"
    by (rule run_acknowledged [OF l(1) _ demo_replica_ops(2) l(2)])
      (use demo_replica_ops(1,3) cx(2) in auto)
  show ?thesis
    using replica_survives_restart [OF cx(1) demo_replica_files(2,3) ops demo_replica_ops(2,3) ack refl, of 9 100 10 10]
    by blast
qed

lemma demo_ctx_ready:
  "seg_inv demo_codec (cx_segments demo_ctx)" "sg_sstables (cx_segments demo_ctx) = [(Hot, sst_name 1 7)]"
  "durable_view demo_codec (cx_segments demo_ctx) ''a'' = Some (demo_record ''a'' ''old'')"
proof -
  show "seg_inv demo_codec (cx_segments demo_ctx)" using demo_segments(1) by (simp add: demo_ctx_def)
  show "sg_sstables (cx_segments demo_ctx) = [(Hot, sst_name 1 7)]"
    by (simp add: demo_ctx_def demo_segments_def seg_open_def sst_glob_name)
  show "durable_view demo_codec (cx_segments demo_ctx) ''a'' = Some (demo_record ''a'' ''old'')"
    using demo_segments(3) by (simp add: demo_ctx_def durable_view_def)
qed

lemma demo_upsert:
  "\<exists>s' cx'. replica_apply demo_libs demo_codec (demo_moment 2) (Upsert (demo_record ''b'' ''y'')) (demo_replica, demo_ctx)
     = (Inr (), s', cx')"
proof -
  let ?r = "demo_record ''b'' ''y''"
  have "encodable (new_entry 2 (op_payload demo_codec (Upsert ?r)) 0)"
    by (simp add: encodable_def new_entry_def demo_codec_def demo_record_def encode_def)
  then have fl: "\<exists>w. wal_flush (wal_append (new_entry 2 (op_payload demo_codec (Upsert ?r)) 0) (wal_open 100 10 [])) = (Inr (), w)"
    by (simp add: wal_flush_def wal_append_def del: op_payload.simps)
  have na: "\<not> already_applied demo_codec ?r demo_ctx"
    using demo_segments(2,3)
    by (simp add: already_applied_def seg_view_def durable_view_def demo_ctx_def demo_record_def)
  obtain y cx1 where st: "store_record demo_libs demo_codec (demo_moment 2) ?r demo_ctx = (y, cx1)" by fastforce
  have y: "y = Inr ()" using st
    by (auto simp: store_record_def Let_def log_payload_def demo_ctx_def demo_libs_def flat_add_def new_flat_def
        demo_record_def)
  have "\<exists>cx2. flush_ctx cx1 = (Inr (), cx2)"
    using fl store_record_fields(3) [OF st] by (auto simp: flush_ctx_def demo_moment_def demo_ctx_def)
  then show ?thesis
    using payload_record_upsert [OF demo_replica_codec(2)] na st y demo_ctx_ready(1)
    by (auto simp: apply_replicated_upsert_def seg_get_view already_applied_def split: option.splits)
qed

lemma demo_delete:
  "\<exists>s' cx'. replica_apply demo_libs demo_codec (demo_moment 2) (Delete ''a'') (demo_replica, demo_ctx) = (Inr (), s', cx')"
proof -
  have "encodable (new_entry 2 (op_payload demo_codec (Delete ''a'')) 0)"
    by (simp add: encodable_def new_entry_def demo_codec_def delete_envelope_def encode_def)
  then have fl: "\<exists>w. wal_flush (wal_append (new_entry 2 (op_payload demo_codec (Delete ''a'')) 0) (wal_open 100 10 [])) = (Inr (), w)"
    by (simp add: wal_flush_def wal_append_def del: op_payload.simps)
  obtain y s' cx' where a: "replica_apply demo_libs demo_codec (demo_moment 2) (Delete ''a'') (demo_replica, demo_ctx) = (y, s', cx')"
    by (metis prod_cases3)
  from demo_replica_codec(3) a obtain cx1 where "flush_ctx cx1 = (y, cx')"
    "cx_wal cx1 = wal_append (new_entry (mo_ns (demo_moment 2)) (op_payload demo_codec (Delete ''a'')) 0) (cx_wal demo_ctx)"
    by (cases rule: delete_applied)
  with fl have "y = Inr ()" by (auto simp: flush_ctx_def demo_moment_def demo_ctx_def split: prod.splits)
  with a show ?thesis by blast
qed

lemma replica_application_witness:
  "\<exists>s' cx'. ctx_view demo_codec (cx' :: (unit, unit) shard_ctx) ''b'' = Some (demo_record ''b'' ''y'') \<and>
     replica_apply demo_libs demo_codec (demo_moment 3) (Upsert (demo_record ''b'' ''y'')) (s', cx') = (Inr (), s', cx')"
proof -
  from demo_upsert obtain s' cx' where a: "replica_apply demo_libs demo_codec (demo_moment 2)
      (Upsert (demo_record ''b'' ''y'')) (demo_replica, demo_ctx) = (Inr (), s', cx')" by blast
  have fresh: "fresh_file (demo_moment 2) demo_ctx"
    by (simp add: fresh_file_def demo_ctx_ready(2) demo_moment_def sst_name_def nat_str.simps digit_char_def)
  have na: "\<not> already_applied demo_codec (demo_record ''b'' ''y'') demo_ctx"
    using demo_segments(2,3)
    by (simp add: already_applied_def seg_view_def durable_view_def demo_ctx_def demo_record_def)
  from replica_application [OF demo_ctx_ready(1) demo_replica_codec(2) fresh a, of "demo_moment 3"] na
  have "ctx_view demo_codec cx' = (ctx_view demo_codec demo_ctx)(vr_id (demo_record ''b'' ''y'') \<mapsto> demo_record ''b'' ''y'')"
    "replica_apply demo_libs demo_codec (demo_moment 3) (Upsert (demo_record ''b'' ''y'')) (s', cx') = (Inr (), s', cx')"
    by (simp_all del: replica_apply.simps)
  then show ?thesis by (intro exI [of _ s'] exI [of _ cx']) (simp add: demo_record_def del: replica_apply.simps)
qed

lemma replica_reinsert_lost_witness:
  "\<exists>s1 cx1. replica_apply demo_libs demo_codec (demo_moment 3) (Upsert (demo_record ''a'' ''x'')) (s1, cx1) =
      (Inr (), s1, cx1) \<and> endpoint_contains demo_codec (cx1 :: (unit, unit) shard_ctx) ''a'' = Inr False"
proof -
  from demo_delete obtain s1 cx1 where a: "replica_apply demo_libs demo_codec (demo_moment 2)
      (Delete ''a'') (demo_replica, demo_ctx) = (Inr (), s1, cx1)" by blast
  have i: "vr_id (demo_record ''a'' ''x'') = ''a''" by (simp add: demo_record_def)
  have st: "same_stamp (demo_record ''a'' ''old'') (demo_record ''a'' ''x'')"
    by (simp add: same_stamp_def demo_record_def)
  from replica_reinsert_lost [OF demo_ctx_ready(1) demo_replica_codec(1), unfolded i,
      OF demo_replica_codec(3) demo_ctx_ready(3) st a, of "demo_moment 3"]
  show ?thesis by blast
qed

end
