(* ===== verification/Metadata_Filter.thy ===== *)
theory Metadata_Filter
  imports Segment
begin

text \<open>
  The two metadata filters: \<open>_parse_filter\<close> of \<open>query/engine.py\<close>, which searches use, and
  \<open>_matches_filter\<close> of \<open>ingest/service.py\<close>, which deletion by filter uses, with the parts of
  Python's equality, ordering and membership they rest on. Metadata and filters are JSON values; an
  operator the value's type does not support is a TypeError. \<open>str\<close> of a value is the parameter \<open>str\<close>.
\<close>

subsection \<open>Python's operators on JSON values\<close>

fun num_of :: "json \<Rightarrow> real option" where
  "num_of (JBool b) = Some (if b then 1 else 0)"
| "num_of (JInt i) = Some (of_int i)"
| "num_of (JFloat x) = Some x"
| "num_of _ = None"

text \<open>\<open>==\<close>: booleans are numbers, containers compare by their elements.\<close>

function py_eq :: "json \<Rightarrow> json \<Rightarrow> bool" where
  "py_eq a b =
     (case (a, b) of
        (JNull, JNull) \<Rightarrow> True
      | (JStr s, JStr t) \<Rightarrow> s = t
      | (JList xs, JList ys) \<Rightarrow>
          length xs = length ys \<and> (\<forall>(x, y) \<in> set (zip xs ys). py_eq x y)
      | (JObj ks, JObj ls) \<Rightarrow>
          length ks = length ls \<and>
          (\<forall>(k, v) \<in> set ks. \<exists>w \<in> set (map snd ls). map_of ls k = Some w \<and> py_eq v w)
      | _ \<Rightarrow> num_of a \<noteq> None \<and> num_of a = num_of b)"
  by pat_completeness auto
termination
proof (relation "measure (\<lambda>(a, b). size a)")
  fix a b c d x y :: json and xs ys z
  assume "(c, d) = (a, b)" "c = JList xs" "z \<in> set (zip xs ys)" "(x, y) = z"
  then have "x \<in> set xs" "a = JList xs" by (auto dest: set_zip_leftD)
  then show "((x, y), (a, b)) \<in> measure (\<lambda>(a, b). size a)"
    using size_list_estimation' [of x xs "size x" size] by simp
next
  fix a b c d v w :: json and ks z k
  assume "(c, d) = (a, b)" "c = JObj ks" "z \<in> set ks" "(k, v) = z"
  then have "(k, v) \<in> set ks" "a = JObj ks" by auto
  then show "((v, w), (a, b)) \<in> measure (\<lambda>(a, b). size a)"
    using size_list_estimation' [of "(k, v)" ks "size v" "size_prod (\<lambda>x. 0) size"] by simp
qed simp

declare py_eq.simps [simp del]

definition type_error :: "string \<Rightarrow> exn" where
  "type_error m = OtherError ''TypeError'' m"

text \<open>\<open><\<close>: numbers, strings, and lists at the first unequal element.\<close>

function py_less :: "json \<Rightarrow> json \<Rightarrow> bool res" where
  "py_less a b =
     (case (a, b) of
        (JStr s, JStr t) \<Rightarrow> Inr (s < t)
      | (JList [], JList ys) \<Rightarrow> Inr (ys \<noteq> [])
      | (JList (x # xs), JList []) \<Rightarrow> Inr False
      | (JList (x # xs), JList (y # ys)) \<Rightarrow>
          if py_eq x y then py_less (JList xs) (JList ys) else py_less x y
      | _ \<Rightarrow>
          (case (num_of a, num_of b) of
             (Some m, Some n) \<Rightarrow> Inr (m < n)
           | _ \<Rightarrow> Inl (type_error ''< not supported'')))"
  by pat_completeness auto
termination
  by (relation "measure (\<lambda>(a, b). size a)") auto

declare py_less.simps [simp del]

fun hashable :: "json \<Rightarrow> bool" where
  "hashable (JList xs) = False"
| "hashable (JObj kvs) = False"
| "hashable _ = True"

text \<open>\<open>x in y\<close>.\<close>

fun substring :: "string \<Rightarrow> string \<Rightarrow> bool" where
  "substring s [] = (s = [])"
| "substring s (c # cs) = (starts_with s (c # cs) \<or> substring s cs)"

definition py_in :: "json \<Rightarrow> json \<Rightarrow> bool res" where
  "py_in x y =
     (case y of
        JList ys \<Rightarrow> Inr (list_ex (py_eq x) ys)
      | JStr t \<Rightarrow> (case x of JStr s \<Rightarrow> Inr (substring s t) | _ \<Rightarrow> Inl (type_error ''requires string as left operand''))
      | JObj kvs \<Rightarrow>
          if hashable x then Inr (case x of JStr s \<Rightarrow> s \<in> fst ` set kvs | _ \<Rightarrow> False)
          else Inl (type_error ''unhashable type'')
      | _ \<Rightarrow> Inl (type_error ''argument is not iterable''))"

text \<open>\<open>any(t in needle for t in xs)\<close>; the first exception ends it.\<close>

fun any_in :: "json list \<Rightarrow> json \<Rightarrow> bool res" where
  "any_in [] needle = Inr False"
| "any_in (t # ts) needle =
     (case py_in t needle of
        Inl e \<Rightarrow> Inl e | Inr b \<Rightarrow> if b then Inr True else any_in ts needle)"

text \<open>Iterating over a value.\<close>

definition py_iter :: "json \<Rightarrow> json list res" where
  "py_iter j =
     (case j of
        JList xs \<Rightarrow> Inr xs
      | JStr s \<Rightarrow> Inr (map (\<lambda>c. JStr [c]) s)
      | JObj kvs \<Rightarrow> Inr (map (\<lambda>(k, v). JStr k) kvs)
      | _ \<Rightarrow> Inl (type_error ''object is not iterable''))"

definition md_get :: "(string, json) dict \<Rightarrow> string \<Rightarrow> json \<Rightarrow> json" where
  "md_get md k dflt = (case map_of md k of None \<Rightarrow> dflt | Some v \<Rightarrow> v)"

subsection \<open>The filter of searches\<close>

text \<open>\<open>metadata.get("tags") or metadata.get("_tags") or []\<close>.\<close>

definition py_or :: "json \<Rightarrow> json \<Rightarrow> json" where
  "py_or a b = (if json_truthy a then a else b)"

definition query_condition :: "(json \<Rightarrow> string) \<Rightarrow> (string, json) dict \<Rightarrow> string \<Rightarrow> json \<Rightarrow> bool res" where
  "query_condition str md key cond =
     (let val = md_get md key JNull in
      case cond of
        JObj c \<Rightarrow>
          (case map_of c ''$in'' of
             Some needle \<Rightarrow>
               if key = ''tags'' then
                 (let tags0 = py_or (md_get md ''tags'' JNull) (py_or (md_get md ''_tags'' JNull) (JList []));
                      tags = (case val of JList xs \<Rightarrow> val | _ \<Rightarrow> tags0)
                  in any_in (case tags of JList xs \<Rightarrow> xs | _ \<Rightarrow> [tags]) needle)
               else py_in val needle
           | None \<Rightarrow>
               (case map_of c ''$gte'' of
                  Some bound \<Rightarrow> Inr (\<not> (val = JNull \<or> str val < str bound))
                | None \<Rightarrow>
                    (case map_of c ''$eq'' of
                       Some x \<Rightarrow> Inr (py_eq val x)
                     | None \<Rightarrow>
                         (case map_of c ''$in_tags'' of
                            Some needle \<Rightarrow>
                              (case py_iter (md_get md ''tags'' (JList [])) of
                                 Inl e \<Rightarrow> Inl e | Inr ts \<Rightarrow> any_in ts needle)
                          | None \<Rightarrow> Inr (py_eq val cond)))))
      | _ \<Rightarrow> Inr (py_eq val cond))"

fun parse_filter :: "(json \<Rightarrow> string) \<Rightarrow> (string, json) dict \<Rightarrow> (string, json) dict \<Rightarrow> bool res" where
  "parse_filter str md [] = Inr True"
| "parse_filter str md ((key, cond) # fs) =
     (case query_condition str md key cond of
        Inl e \<Rightarrow> Inl e | Inr b \<Rightarrow> if b then parse_filter str md fs else Inr False)"

subsection \<open>The filter of deletions\<close>

definition delete_condition :: "(json \<Rightarrow> string) \<Rightarrow> (string, json) dict \<Rightarrow> string \<Rightarrow> json \<Rightarrow> bool res" where
  "delete_condition str md k cond =
     (case cond of
        JObj c \<Rightarrow>
          (case map_of c ''$in'' of
             Some needle \<Rightarrow>
               (case py_in (md_get md k JNull) needle of
                  Inl e \<Rightarrow> Inl e
                | Inr found \<Rightarrow>
                    if \<not> found \<and> \<not> substring k (str (md_get md ''tags'' (JList []))) then
                      (if k = ''tags'' then
                         (case py_iter (md_get md ''tags'' (JList [])) of
                            Inl e \<Rightarrow> Inl e | Inr ts \<Rightarrow> any_in ts needle)
                       else Inr False)
                    else Inr True)
           | None \<Rightarrow>
               (case map_of c ''$gte'' of
                  Some bound \<Rightarrow>
                    (case py_less (md_get md k (JStr [])) bound of Inl e \<Rightarrow> Inl e | Inr b \<Rightarrow> Inr (\<not> b))
                | None \<Rightarrow>
                    (case map_of c ''$eq'' of
                       Some x \<Rightarrow> Inr (py_eq (md_get md k JNull) x)
                     | None \<Rightarrow> Inr True)))
      | _ \<Rightarrow> Inr (py_eq (md_get md k JNull) cond))"

fun matches_filter :: "(json \<Rightarrow> string) \<Rightarrow> (string, json) dict \<Rightarrow> (string, json) dict \<Rightarrow> bool res" where
  "matches_filter str md [] = Inr True"
| "matches_filter str md ((k, cond) # fs) =
     (case delete_condition str md k cond of
        Inl e \<Rightarrow> Inl e | Inr b \<Rightarrow> if b then matches_filter str md fs else Inr False)"

end
