(* ===== verification/Ingest.thy ===== *)
theory Ingest
  imports Router Replication Replica_Facts Metadata_Filter
begin

text \<open>
  \<open>IngestService\<close> of \<open>ingest/service.py\<close>: the write path and the point reads. A request is a function
  of the service state (\<open>ingest\<close>), the environment \<open>ienv\<close> (hashes, parsers, codec and index
  libraries) and the clock: \<open>clk k j\<close> is what the clocks show at part \<open>j\<close> of step \<open>k\<close> of a request,
  part 0 being the primary's and part \<open>j + 1\<close> that of the \<open>j\<close>th replica. \<open>metadata.get\<close> is the lookup of
  the JSON backend. The directories a service has not opened yet are \<open>ig_disk\<close>.
\<close>

record ('h, 'f) ienv =
  ie_sha :: "string \<Rightarrow> string"
  ie_hash :: "string \<Rightarrow> int"
  ie_str_float :: "real \<Rightarrow> string"
  ie_uuid :: "json \<Rightarrow> string res"
  ie_float :: "string \<Rightarrow> real res"
  ie_isoformat :: "time \<Rightarrow> string"
  ie_codec :: codec
  ie_libs :: "('h, 'f) libs"

record repl_stats =
  rt_attempts :: int
  rt_acks :: int
  rt_failures :: int
  rt_degraded :: int

record upsert_result =
  ur_upserted :: nat
  ur_ids :: "string list"
  ur_errors :: "(json option \<times> string) list"
  ur_took_ms :: int
  ur_replication :: replication_summary
  ur_health :: "(string, replication_view) dict"

record ('h, 'f) ingest =
  ig_router :: router
  ig_namespaces :: "(string, namespace) dict"
  ig_base :: string
  ig_node_id :: "string option"
  ig_disk :: storage
  ig_transport :: transport
  ig_endpoints :: "(string, shard \<times> ('h, 'f) shard_ctx) dict"
  ig_stats :: "(string, repl_stats) dict"
  ig_shards :: "(string, sref \<times> ('h, 'f) shard_ctx) dict"
  ig_idempotency :: "(string, upsert_result) dict"

type_synonym clock = "nat \<Rightarrow> nat \<Rightarrow> moment"

definition new_ingest ::
    "router \<Rightarrow> (string, namespace) dict \<Rightarrow> string \<Rightarrow> string option \<Rightarrow> storage \<Rightarrow> ('h, 'f) ingest" where
  "new_ingest rt nss base node disk =
     \<lparr>ig_router = rt, ig_namespaces = nss, ig_base = base, ig_node_id = node, ig_disk = disk,
      ig_transport = new_transport, ig_endpoints = [], ig_stats = [], ig_shards = [],
      ig_idempotency = []\<rparr>"

definition ctx_key :: "string \<Rightarrow> string \<Rightarrow> string" where
  "ctx_key ns sid = ns @ '':'' @ sid"

definition endpoint_key :: "string \<Rightarrow> string \<Rightarrow> string \<Rightarrow> string" where
  "endpoint_key ns sid n = ns @ '':'' @ sid @ '':'' @ n"

definition heap_shard :: "('h, 'f) ingest \<Rightarrow> sref \<Rightarrow> shard" where
  "heap_shard st r = e_heap (r_etcd (ig_router st)) r"

definition set_shard :: "sref \<Rightarrow> shard \<Rightarrow> ('h, 'f) ingest \<Rightarrow> ('h, 'f) ingest" where
  "set_shard r s st =
     st\<lparr>ig_router := (ig_router st)\<lparr>r_etcd := assign r s (r_etcd (ig_router st))\<rparr>\<rparr>"

definition no_namespace :: "string \<Rightarrow> exn" where
  "no_namespace ns = ValueError (''namespace '' @ py_repr ns @ '' not found'')"

subsection \<open>Replica endpoints\<close>

type_synonym ('h, 'f) endpoints = "(string, shard \<times> ('h, 'f) shard_ctx) dict"

definition replica_shard :: "time \<Rightarrow> string \<Rightarrow> string \<Rightarrow> string \<Rightarrow> shard" where
  "replica_shard now ns sid n = new_shard (sid @ ''#replica-'' @ n) now ns n"

definition get_endpoint ::
    "('h, 'f) ienv \<Rightarrow> ('h, 'f) ingest \<Rightarrow> moment \<Rightarrow> string \<Rightarrow> string \<Rightarrow> string \<Rightarrow> ('h, 'f) endpoints \<Rightarrow>
     (shard \<times> ('h, 'f) shard_ctx) res \<times> ('h, 'f) endpoints" where
  "get_endpoint ev st mo ns sid n eps =
     (case dict_get eps (endpoint_key ns sid n) of
        Some ep \<Rightarrow> (Inr ep, eps)
      | None \<Rightarrow>
          (case dict_get (ig_namespaces st) ns of
             None \<Rightarrow> (Inl (no_namespace ns), eps)
           | Some nsr \<Rightarrow>
               (case open_ctx (ie_libs ev) (ie_codec ev) mo (ig_base st @ ''/replicas'')
                       (replica_shard (mo_time mo) ns sid n) nsr (ig_disk st) of
                  (Inl e, _) \<Rightarrow> (Inl e, eps)
                | (Inr cx, s) \<Rightarrow> (Inr (s, cx), dict_put (endpoint_key ns sid n) (s, cx) eps))))"

text \<open>One delivery to a node: the provider, then the endpoint's application of the operation.\<close>

definition endpoint_attempt ::
    "('h, 'f) ienv \<Rightarrow> ('h, 'f) ingest \<Rightarrow> (nat \<Rightarrow> moment) \<Rightarrow> string \<Rightarrow> string \<Rightarrow> wal_op \<Rightarrow>
     nat \<Rightarrow> string \<Rightarrow> ('h, 'f) endpoints \<Rightarrow> unit res \<times> ('h, 'f) endpoints" where
  "endpoint_attempt ev st mos ns sid p j n eps =
     (case get_endpoint ev st (mos (Suc j)) ns sid n eps of
        (Inl e, eps1) \<Rightarrow> (Inl e, eps1)
      | (Inr ep, eps1) \<Rightarrow>
          (case replica_apply (ie_libs ev) (ie_codec ev) (mos (Suc j)) p ep of
             (x, ep1) \<Rightarrow> (x, dict_put (endpoint_key ns sid n) ep1 eps1)))"

definition replicate ::
    "('h, 'f) ienv \<Rightarrow> (nat \<Rightarrow> moment) \<Rightarrow> string \<Rightarrow> shard \<Rightarrow> int \<Rightarrow> wal_op \<Rightarrow> ('h, 'f) ingest \<Rightarrow>
     replication_result \<times> ('h, 'f) ingest" where
  "replicate ev mos ns s required p st =
     (case deliver (endpoint_attempt ev st mos ns (sh_id s) p) (\<lambda>j. mo_time (mos (Suc j))) ns s required
             (ig_transport st, ig_endpoints st) of
        (res, tp, eps) \<Rightarrow> (res, st\<lparr>ig_transport := tp, ig_endpoints := eps\<rparr>))"

definition no_stats :: repl_stats where
  "no_stats = \<lparr>rt_attempts = 0, rt_acks = 0, rt_failures = 0, rt_degraded = 0\<rparr>"

definition stats_of :: "(string, repl_stats) dict \<Rightarrow> string \<Rightarrow> repl_stats" where
  "stats_of d key = (case dict_get d key of None \<Rightarrow> no_stats | Some t \<Rightarrow> t)"

definition record_replication_stats ::
    "string \<Rightarrow> string \<Rightarrow> replication_result \<Rightarrow> (string, repl_stats) dict \<Rightarrow> (string, repl_stats) dict" where
  "record_replication_stats ns sid r d =
     (let key = ctx_key ns sid; t = stats_of d key
      in dict_put key
           \<lparr>rt_attempts = rt_attempts t + int (length (rs_attempted r)),
            rt_acks = rt_acks t + int (length (rs_acknowledged r)),
            rt_failures = rt_failures t + int (length (rs_failed r)),
            rt_degraded = rt_degraded t + (if rs_degraded r then 1 else 0)\<rparr> d)"

subsection \<open>Shard contexts\<close>

text \<open>The result is the context's key in \<open>ig_shards\<close>.\<close>

definition get_or_create_ctx ::
    "('h, 'f) ienv \<Rightarrow> moment \<Rightarrow> string \<Rightarrow> sref \<Rightarrow> ('h, 'f) ingest \<Rightarrow> string res \<times> ('h, 'f) ingest" where
  "get_or_create_ctx ev mo ns r st =
     (let s = heap_shard st r; key = ctx_key ns (sh_id s) in
      case dict_get (ig_shards st) key of
        Some _ \<Rightarrow> (Inr key, st)
      | None \<Rightarrow>
          (case dict_get (ig_namespaces st) ns of
             None \<Rightarrow> (Inl (no_namespace ns), st)
           | Some nsr \<Rightarrow>
               (case open_ctx (ie_libs ev) (ie_codec ev) mo (ig_base st) s nsr (ig_disk st) of
                  (Inl e, s1) \<Rightarrow> (Inl e, set_shard r s1 st)
                | (Inr cx, s1) \<Rightarrow>
                    (Inr key, (set_shard r s1 st)\<lparr>ig_shards := dict_put key (r, cx) (ig_shards st)\<rparr>))))"

definition replication_health_map ::
    "string \<Rightarrow> namespace \<Rightarrow> string list \<Rightarrow> ('h, 'f) ingest \<Rightarrow> (string, replication_view) dict" where
  "replication_health_map ns nsr touched st =
     fold (\<lambda>key d. case dict_get (ig_shards st) key of
         None \<Rightarrow> d
       | Some (r, cx) \<Rightarrow>
           dict_put (ctx_key (sh_namespace (heap_shard st r)) (sh_id (heap_shard st r)))
             (replication_health (ig_transport st) ns (heap_shard st r) (ns_required_acks nsr) True) d)
       touched []"

subsection \<open>Parsing a record\<close>

definition float_of_json :: "(string \<Rightarrow> real res) \<Rightarrow> json \<Rightarrow> real res" where
  "float_of_json fl j =
     (case j of
        JStr s \<Rightarrow> fl s
      | _ \<Rightarrow> (case num_of j of
          Some x \<Rightarrow> Inr x | None \<Rightarrow> Inl (type_error ''float() argument must be a string or a real number'')))"

fun map_res :: "('a \<Rightarrow> 'b res) \<Rightarrow> 'a list \<Rightarrow> 'b list res" where
  "map_res f [] = Inr []"
| "map_res f (x # xs) =
     (case f x of
        Inl e \<Rightarrow> Inl e
      | Inr y \<Rightarrow> (case map_res f xs of Inl e \<Rightarrow> Inl e | Inr ys \<Rightarrow> Inr (y # ys)))"

definition validation_error :: "string \<Rightarrow> exn" where
  "validation_error m = OtherError ''ValidationError'' m"

text \<open>
  The validation at the top of the loop body and the construction of the record; \<open>fresh\<close> is the id
  \<open>uuid4\<close> gives. Fields of a wrong type are a ValidationError of pydantic.
\<close>

definition raw_record ::
    "('h, 'f) ienv \<Rightarrow> time \<Rightarrow> string \<Rightarrow> string \<Rightarrow> namespace \<Rightarrow> (string, json) dict \<Rightarrow> vector_record res" where
  "raw_record ev now fresh ns nsr raw =
     (case md_get raw ''vector'' JNull of
        JNull \<Rightarrow> Inl (ValueError ''vector missing'')
      | vec \<Rightarrow>
          (case py_iter vec of
             Inl e \<Rightarrow> Inl (type_error ''object has no len()'')
           | Inr xs \<Rightarrow>
               if int (length xs) \<noteq> ns_dimension nsr then
                 Inl (ValueError (''dimension mismatch expected '' @ int_str (ns_dimension nsr) @ '' got ''
                        @ nat_str (length xs)))
               else
                 (case (case map_of raw ''id'' of Some j \<Rightarrow> ie_uuid ev j | None \<Rightarrow> Inr fresh) of
                    Inl e \<Rightarrow> Inl e
                  | Inr i \<Rightarrow>
                      (case map_res (float_of_json (ie_float ev)) xs of
                         Inl e \<Rightarrow> Inl e
                       | Inr v \<Rightarrow>
                           (case (md_get raw ''metadata'' (JObj []),
                                  as_str_list (md_get raw ''tags'' (JList [])),
                                  as_str (md_get raw ''source_system'' (JStr ''unknown''))) of
                              (JObj md, Some tags, Some src) \<Rightarrow>
                                make_record (ie_sha ev) (ie_str_float ev)
                                  \<lparr>vr_id = i, vr_namespace = ns, vr_vector = v,
                                   vr_dimension = ns_dimension nsr, vr_metadata = md,
                                   vr_created_at = now, vr_updated_at = now, vr_version = 1,
                                   vr_ttl = None, vr_tags = tags, vr_source_system = src,
                                   vr_checksum = []\<rparr>
                            | _ \<Rightarrow> Inl (validation_error ''Input should be a valid value''))))))"

subsection \<open>Upsert\<close>

text \<open>Assigning \<open>touched[key]\<close>; the dictionary is the list of its keys.\<close>

definition add_key :: "string \<Rightarrow> string list \<Rightarrow> string list" where
  "add_key key ks = (if key \<in> set ks then ks else ks @ [key])"

record ('h, 'f) upsert_acc =
  ua_service :: "('h, 'f) ingest"
  ua_touched :: "string list"
  ua_results :: "replication_result list"
  ua_upserted :: "string list"
  ua_errors :: "(json option \<times> string) list"

text \<open>Storing a routed record on the primary: the key of the context is touched once its log has it.\<close>

definition store_primary ::
    "('h, 'f) ienv \<Rightarrow> moment \<Rightarrow> vector_record \<Rightarrow> sref \<Rightarrow> string \<Rightarrow> ('h, 'f) ingest \<Rightarrow>
     unit res \<times> ('h, 'f) ingest" where
  "store_primary ev mo rec r key st =
     (case dict_get (ig_shards st) key of
        None \<Rightarrow> (Inl (KeyError key), st)
      | Some (r1, cx) \<Rightarrow>
          (case store_record (ie_libs ev) (ie_codec ev) mo rec cx of
             (Inl e, cx1) \<Rightarrow> (Inl e, st\<lparr>ig_shards := dict_put key (r1, cx1) (ig_shards st)\<rparr>)
           | (Inr _, cx1) \<Rightarrow>
               (let st1 = st\<lparr>ig_shards := dict_put key (r1, cx1) (ig_shards st)\<rparr>;
                    st2 = set_shard r1 (count_vector (heap_shard st1 r1)) st1;
                    st3 = set_shard r ((heap_shard st2 r)
                            \<lparr>sh_vector_count := sh_vector_count (heap_shard st2 r1)\<rparr>) st2
                in (Inr (), st3))))"

text \<open>The body of the loop; \<open>kids\<close> gives the ids of the children should the shard split.\<close>

definition upsert_one ::
    "('h, 'f) ienv \<Rightarrow> (nat \<Rightarrow> moment) \<Rightarrow> string \<Rightarrow> string \<times> string \<Rightarrow> string \<Rightarrow> namespace \<Rightarrow>
     (string, json) dict \<Rightarrow> ('h, 'f) upsert_acc \<Rightarrow> string res \<times> ('h, 'f) upsert_acc" where
  "upsert_one ev mos fresh kids ns nsr raw a =
     (let now = mo_time (mos 0); st = ua_service a in
      case raw_record ev now fresh ns nsr raw of
        Inl e \<Rightarrow> (Inl e, a)
      | Inr rec \<Rightarrow>
          (case route_write (ie_sha ev) (ie_hash ev) now ns (vr_id rec) (ig_node_id st) (ig_router st) of
             (Inl e, rt) \<Rightarrow> (Inl e, a\<lparr>ua_service := st\<lparr>ig_router := rt\<rparr>\<rparr>)
           | (Inr r, rt) \<Rightarrow>
               (case get_or_create_ctx ev (mos 0) ns r (st\<lparr>ig_router := rt\<rparr>) of
                  (Inl e, st1) \<Rightarrow> (Inl e, a\<lparr>ua_service := st1\<rparr>)
                | (Inr key, st1) \<Rightarrow>
                    (let a1 = a\<lparr>ua_touched := add_key key (ua_touched a)\<rparr> in
                     case store_primary ev (mos 0) rec r key st1 of
                       (Inl e, st2) \<Rightarrow> (Inl e, a1\<lparr>ua_service := st2\<rparr>)
                     | (Inr _, st2) \<Rightarrow>
                         (let s = heap_shard st2 r;
                              (res, st3) = replicate ev mos ns s (ns_required_acks nsr) (Upsert rec) st2;
                              st4 = st3\<lparr>ig_stats := record_replication_stats ns (sh_id s) res (ig_stats st3)\<rparr>;
                              a2 = a1\<lparr>ua_results := ua_results a1 @ [res]\<rparr>
                          in case maybe_split (fst kids) now (snd kids) now r None (ig_router st4) of
                               (Inl e, rt4) \<Rightarrow> (Inl e, a2\<lparr>ua_service := st4\<lparr>ig_router := rt4\<rparr>\<rparr>)
                             | (Inr _, rt4) \<Rightarrow>
                                 (Inr (vr_id rec),
                                  a2\<lparr>ua_service := st4\<lparr>ig_router := rt4\<rparr>,
                                     ua_upserted := ua_upserted a2 @ [vr_id rec]\<rparr>))))))"

definition upsert_caught ::
    "('h, 'f) ienv \<Rightarrow> (nat \<Rightarrow> moment) \<Rightarrow> string \<Rightarrow> string \<times> string \<Rightarrow> string \<Rightarrow> namespace \<Rightarrow>
     (string, json) dict \<Rightarrow> ('h, 'f) upsert_acc \<Rightarrow> ('h, 'f) upsert_acc" where
  "upsert_caught ev mos fresh kids ns nsr raw a =
     (case upsert_one ev mos fresh kids ns nsr raw a of
        (Inr _, a1) \<Rightarrow> a1
      | (Inl e, a1) \<Rightarrow> a1\<lparr>ua_errors := ua_errors a1 @ [(map_of raw ''id'', exn_str e)]\<rparr>)"

fun upsert_loop ::
    "('h, 'f) ienv \<Rightarrow> clock \<Rightarrow> (nat \<Rightarrow> string \<times> string \<times> string) \<Rightarrow> string \<Rightarrow> namespace \<Rightarrow> nat \<Rightarrow>
     (string, json) dict list \<Rightarrow> ('h, 'f) upsert_acc \<Rightarrow> ('h, 'f) upsert_acc" where
  "upsert_loop ev clk ids ns nsr k [] a = a"
| "upsert_loop ev clk ids ns nsr k (raw # raws) a =
     upsert_loop ev clk ids ns nsr (Suc k) raws
       (upsert_caught ev (clk k) (fst (ids k)) (snd (ids k)) ns nsr raw a)"

text \<open>The batch flush of the touched logs; an exception leaves the request.\<close>

fun flush_touched :: "string list \<Rightarrow> ('h, 'f) ingest \<Rightarrow> unit res \<times> ('h, 'f) ingest" where
  "flush_touched [] st = (Inr (), st)"
| "flush_touched (key # keys) st =
     (case dict_get (ig_shards st) key of
        None \<Rightarrow> flush_touched keys st
      | Some (r, cx) \<Rightarrow>
          (case flush_ctx cx of
             (Inl e, cx1) \<Rightarrow> (Inl e, st\<lparr>ig_shards := dict_put key (r, cx1) (ig_shards st)\<rparr>)
           | (Inr _, cx1) \<Rightarrow> flush_touched keys (st\<lparr>ig_shards := dict_put key (r, cx1) (ig_shards st)\<rparr>)))"

text \<open>The background part: a full memtable is flushed and the index may be compacted.\<close>

definition background_one :: "codec \<Rightarrow> moment \<Rightarrow> ('h, 'f) shard_ctx \<Rightarrow> ('h, 'f) shard_ctx" where
  "background_one cd mo cx =
     (let sg = cx_segments cx in
      if mem_should_flush (sg_threshold sg) (sg_memtable sg) then
        cx\<lparr>cx_segments := snd (seg_flush cd (mo_ms mo) (mo_pid mo) sg),
           cx_lifecycle := snd (maybe_compact (mo_time mo) (mo_time mo) (Inr ()) (cx_lifecycle cx))\<rparr>
      else cx)"

definition background :: "codec \<Rightarrow> (nat \<Rightarrow> moment) \<Rightarrow> string list \<Rightarrow> ('h, 'f) ingest \<Rightarrow> ('h, 'f) ingest" where
  "background cd mos keys st =
     fold (\<lambda>(j, key) st. case dict_get (ig_shards st) key of
         None \<Rightarrow> st
       | Some (r, cx) \<Rightarrow> st\<lparr>ig_shards := dict_put key (r, background_one cd (mos j) cx) (ig_shards st)\<rparr>)
       (zip [0..<length keys] keys) st"

definition upsert ::
    "('h, 'f) ienv \<Rightarrow> clock \<Rightarrow> (nat \<Rightarrow> string \<times> string \<times> string) \<Rightarrow> int \<Rightarrow> string \<Rightarrow>
     (string, json) dict list \<Rightarrow> string option \<Rightarrow> ('h, 'f) ingest \<Rightarrow> upsert_result res \<times> ('h, 'f) ingest" where
  "upsert ev clk ids took ns raws idem st =
     (case (case idem of None \<Rightarrow> None | Some key \<Rightarrow> if key = [] then None else dict_get (ig_idempotency st) key) of
        Some res \<Rightarrow> (Inr res, st)
      | None \<Rightarrow>
          (case dict_get (ig_namespaces st) ns of
             None \<Rightarrow> (Inl (no_namespace ns), st)
           | Some nsr \<Rightarrow>
               if length raws > 10000 then (Inl (ValueError ''Max batch size 10,000''), st)
               else
                 (let a = upsert_loop ev clk ids ns nsr 0 raws
                        \<lparr>ua_service = st, ua_touched = [], ua_results = [], ua_upserted = [], ua_errors = []\<rparr>
                  in case flush_touched (ua_touched a) (ua_service a) of
                       (Inl e, st1) \<Rightarrow> (Inl e, st1)
                     | (Inr _, st1) \<Rightarrow>
                         (let st2 = background (ie_codec ev) (clk (length raws)) (ua_touched a) st1;
                              su = aggregate_replication (ua_results a) (ns_required_acks nsr);
                              su1 = (if ua_errors a \<noteq> [] then su\<lparr>su_success := False\<rparr> else su);
                              res = \<lparr>ur_upserted = length (ua_upserted a), ur_ids = ua_upserted a,
                                     ur_errors = ua_errors a, ur_took_ms = took, ur_replication = su1,
                                     ur_health = replication_health_map ns nsr (ua_touched a) st2\<rparr>
                          in (Inr res,
                              case idem of
                                None \<Rightarrow> st2
                              | Some key \<Rightarrow>
                                  if key = [] then st2
                                  else st2\<lparr>ig_idempotency := dict_put key res (ig_idempotency st2)\<rparr>)))))"

subsection \<open>Delete\<close>

record ('h, 'f) delete_acc =
  da_service :: "('h, 'f) ingest"
  da_touched :: "string list"
  da_results :: "replication_result list"
  da_deleted :: nat

text \<open>What one deletion does to the primary's context; \<open>notify\<close> says whether the index lifecycle is told.\<close>

definition tombstone ::
    "('h, 'f) libs \<Rightarrow> codec \<Rightarrow> moment \<Rightarrow> bool \<Rightarrow> string \<Rightarrow> ('h, 'f) shard_ctx \<Rightarrow> ('h, 'f) shard_ctx" where
  "tombstone lb cd mo notify i cx =
     log_payload mo (cd_dumps cd (delete_envelope i))
       (cx\<lparr>cx_segments := (cx_segments cx)\<lparr>sg_memtable := mem_delete i (sg_memtable (cx_segments cx))\<rparr>,
           cx_index := vx_delete (lib_hnsw lb) [i] (cx_index cx),
           cx_lifecycle := (if notify then notify_delete 1 (cx_lifecycle cx) else cx_lifecycle cx),
           cx_tombstones := List.insert i (cx_tombstones cx)\<rparr>)"

definition delete_id ::
    "('h, 'f) ienv \<Rightarrow> (nat \<Rightarrow> moment) \<Rightarrow> bool \<Rightarrow> string \<Rightarrow> namespace \<Rightarrow> sref \<Rightarrow> string \<Rightarrow> string \<Rightarrow>
     ('h, 'f) delete_acc \<Rightarrow> ('h, 'f) delete_acc" where
  "delete_id ev mos notify ns nsr r key i a =
     (let st = da_service a in
      case dict_get (ig_shards st) key of
        None \<Rightarrow> a
      | Some (r1, cx) \<Rightarrow>
          (let st1 = st\<lparr>ig_shards := dict_put key
                 (r1, tombstone (ie_libs ev) (ie_codec ev) (mos 0) notify i cx) (ig_shards st)\<rparr>;
               s = heap_shard st1 r;
               (res, st2) = replicate ev mos ns s (ns_required_acks nsr) (Delete i) st1;
               st3 = st2\<lparr>ig_stats := record_replication_stats ns (sh_id s) res (ig_stats st2)\<rparr>
           in \<lparr>da_service = st3, da_touched = add_key key (da_touched a),
               da_results = da_results a @ [res], da_deleted = da_deleted a + 1\<rparr>))"

text \<open>Deletion by ids looks the record up first, which can raise.\<close>

fun delete_ids ::
    "('h, 'f) ienv \<Rightarrow> clock \<Rightarrow> string \<Rightarrow> namespace \<Rightarrow> sref \<Rightarrow> string \<Rightarrow> nat \<Rightarrow> string list \<Rightarrow>
     ('h, 'f) delete_acc \<Rightarrow> unit res \<times> nat \<times> ('h, 'f) delete_acc" where
  "delete_ids ev clk ns nsr r key k [] a = (Inr (), k, a)"
| "delete_ids ev clk ns nsr r key k (i # is) a =
     (case (case dict_get (ig_shards (da_service a)) key of
              None \<Rightarrow> Inr None | Some (r1, cx) \<Rightarrow> seg_get (ie_codec ev) (cx_segments cx) i) of
        Inl e \<Rightarrow> (Inl e, k, a)
      | Inr _ \<Rightarrow> delete_ids ev clk ns nsr r key (Suc k) is (delete_id ev (clk k) True ns nsr r key i a))"

text \<open>Deletion by filter runs over the stored records as they were listed before.\<close>

fun delete_matching ::
    "('h, 'f) ienv \<Rightarrow> clock \<Rightarrow> string \<Rightarrow> namespace \<Rightarrow> sref \<Rightarrow> string \<Rightarrow> (string, json) dict \<Rightarrow> nat \<Rightarrow>
     vector_record list \<Rightarrow> ('h, 'f) delete_acc \<Rightarrow> unit res \<times> nat \<times> ('h, 'f) delete_acc" where
  "delete_matching ev clk ns nsr r key f k [] a = (Inr (), k, a)"
| "delete_matching ev clk ns nsr r key f k (rec # recs) a =
     (case matches_filter (cd_str (ie_codec ev)) (vr_metadata rec) f of
        Inl e \<Rightarrow> (Inl e, k, a)
      | Inr m \<Rightarrow>
          if m then delete_matching ev clk ns nsr r key f (Suc k) recs
                      (delete_id ev (clk k) False ns nsr r key (vr_id rec) a)
          else delete_matching ev clk ns nsr r key f k recs a)"

definition delete_in_shard ::
    "('h, 'f) ienv \<Rightarrow> clock \<Rightarrow> string \<Rightarrow> namespace \<Rightarrow> string list \<Rightarrow> (string, json) dict \<Rightarrow> nat \<Rightarrow> sref \<Rightarrow>
     ('h, 'f) delete_acc \<Rightarrow> unit res \<times> nat \<times> ('h, 'f) delete_acc" where
  "delete_in_shard ev clk ns nsr del f k r a =
     (case get_or_create_ctx ev (clk k 0) ns r (da_service a) of
        (Inl e, st) \<Rightarrow> (Inl e, k, a\<lparr>da_service := st\<rparr>)
      | (Inr key, st) \<Rightarrow>
          (let a1 = a\<lparr>da_service := st\<rparr> in
           if del \<noteq> [] then delete_ids ev clk ns nsr r key (Suc k) del a1
           else if f \<noteq> [] then
             (case dict_get (ig_shards st) key of
                None \<Rightarrow> (Inr (), Suc k, a1)
              | Some (r1, cx) \<Rightarrow>
                  (case seg_scan_all (ie_codec ev) (cx_segments cx) of
                     Inl e \<Rightarrow> (Inl e, Suc k, a1)
                   | Inr recs \<Rightarrow> delete_matching ev clk ns nsr r key f (Suc k) recs a1))
           else (Inr (), Suc k, a1)))"

fun delete_loop ::
    "('h, 'f) ienv \<Rightarrow> clock \<Rightarrow> string \<Rightarrow> namespace \<Rightarrow> string list \<Rightarrow> (string, json) dict \<Rightarrow> nat \<Rightarrow>
     sref list \<Rightarrow> ('h, 'f) delete_acc \<Rightarrow> unit res \<times> ('h, 'f) delete_acc" where
  "delete_loop ev clk ns nsr del f k [] a = (Inr (), a)"
| "delete_loop ev clk ns nsr del f k (r # rs) a =
     (case delete_in_shard ev clk ns nsr del f k r a of
        (Inl e, k1, a1) \<Rightarrow> (Inl e, a1)
      | (Inr _, k1, a1) \<Rightarrow> delete_loop ev clk ns nsr del f k1 rs a1)"

record delete_result =
  dr_deleted :: nat
  dr_replication :: replication_summary
  dr_health :: "(string, replication_view) dict"

text \<open>\<open>delete\<close>; no ids and no filter are the empty ones.\<close>

definition ingest_delete ::
    "('h, 'f) ienv \<Rightarrow> clock \<Rightarrow> time \<Rightarrow> string \<Rightarrow> string list \<Rightarrow> (string, json) dict \<Rightarrow>
     ('h, 'f) ingest \<Rightarrow> delete_result res \<times> ('h, 'f) ingest" where
  "ingest_delete ev clk now ns del f st =
     (case dict_get (ig_namespaces st) ns of
        None \<Rightarrow> (Inl (ValueError ''namespace not found''), st)
      | Some nsr \<Rightarrow>
          (case writable now ns (ig_node_id st) (ig_router st) of
             (Inl e, rt) \<Rightarrow> (Inl e, st\<lparr>ig_router := rt\<rparr>)
           | (Inr shards, rt) \<Rightarrow>
               (case delete_loop ev clk ns nsr del f 0 shards
                       \<lparr>da_service = st\<lparr>ig_router := rt\<rparr>, da_touched = [], da_results = [], da_deleted = 0\<rparr> of
                  (Inl e, a) \<Rightarrow> (Inl e, da_service a)
                | (Inr _, a) \<Rightarrow>
                    (case flush_touched (da_touched a) (da_service a) of
                       (Inl e, st1) \<Rightarrow> (Inl e, st1)
                     | (Inr _, st1) \<Rightarrow>
                         (Inr \<lparr>dr_deleted = da_deleted a,
                               dr_replication = aggregate_replication (da_results a) (ns_required_acks nsr),
                               dr_health = replication_health_map ns nsr (da_touched a) st1\<rparr>, st1)))))"

subsection \<open>Fetch and statistics\<close>

fun fetch_loop ::
    "('h, 'f) ienv \<Rightarrow> (nat \<Rightarrow> moment) \<Rightarrow> string \<Rightarrow> nat \<Rightarrow> string list \<Rightarrow> json list \<Rightarrow> ('h, 'f) ingest \<Rightarrow>
     json list res \<times> ('h, 'f) ingest" where
  "fetch_loop ev mos ns k [] out st = (Inr out, st)"
| "fetch_loop ev mos ns k (i # is) out st =
     (case route (ie_sha ev) (ie_hash ev) (mo_time (mos k)) ns i (ig_router st) of
        (Inl e, rt) \<Rightarrow> (Inl e, st\<lparr>ig_router := rt\<rparr>)
      | (Inr r, rt) \<Rightarrow>
          (case get_or_create_ctx ev (mos k) ns r (st\<lparr>ig_router := rt\<rparr>) of
             (Inl e, st1) \<Rightarrow> (Inl e, st1)
           | (Inr key, st1) \<Rightarrow>
               (case dict_get (ig_shards st1) key of
                  None \<Rightarrow> (Inl (KeyError key), st1)
                | Some (r1, cx) \<Rightarrow>
                    (case seg_get (ie_codec ev) (cx_segments cx) i of
                       Inl e \<Rightarrow> (Inl e, st1)
                     | Inr x \<Rightarrow>
                         fetch_loop ev mos ns (Suc k) is
                           (out @ (case x of
                              Some rec \<Rightarrow> if i \<notin> set (cx_tombstones cx)
                                then [to_payload (ie_isoformat ev) True rec] else []
                            | None \<Rightarrow> [])) st1))))"

definition fetch ::
    "('h, 'f) ienv \<Rightarrow> (nat \<Rightarrow> moment) \<Rightarrow> string \<Rightarrow> string list \<Rightarrow> ('h, 'f) ingest \<Rightarrow>
     json list res \<times> ('h, 'f) ingest" where
  "fetch ev mos ns ids st = fetch_loop ev mos ns 0 ids [] st"

definition get_one ::
    "('h, 'f) ienv \<Rightarrow> (nat \<Rightarrow> moment) \<Rightarrow> string \<Rightarrow> string \<Rightarrow> ('h, 'f) ingest \<Rightarrow>
     json option res \<times> ('h, 'f) ingest" where
  "get_one ev mos ns i st =
     (case fetch ev mos ns [i] st of
        (Inl e, st1) \<Rightarrow> (Inl e, st1)
      | (Inr r, st1) \<Rightarrow> (Inr (case r of [] \<Rightarrow> None | x # _ \<Rightarrow> Some x), st1))"

fun index_state_value :: "IndexState \<Rightarrow> string" where
  "index_state_value BUILDING = ''BUILDING''"
| "index_state_value READY = ''READY''"
| "index_state_value DEGRADED = ''DEGRADED''"
| "index_state_value COMPACTING = ''COMPACTING''"

text \<open>The attributes a statistics entry reads off the index, with their \<open>getattr\<close> defaults.\<close>

fun index_attributes :: "('h, 'f) vindex \<Rightarrow> string \<times> bool \<times> bool" where
  "index_attributes (FlatIx f) = (''FlatIndex'', True, False)"
| "index_attributes (HnswIx x) = (hn_backend_name x, hn_native x, hn_degraded x)"
| "index_attributes (IvfIx x) = (iv_backend_name x, iv_native x, iv_degraded x)"
| "index_attributes (ScannIx s) = (''FlatIndex'', False, True)"

definition stats_to_dict :: "repl_stats \<Rightarrow> json" where
  "stats_to_dict t = JObj
     [(''attempts'', JInt (rt_attempts t)), (''acks'', JInt (rt_acks t)),
      (''failures'', JInt (rt_failures t)), (''degraded'', JInt (rt_degraded t))]"

definition stats_entry :: "('h, 'f) ingest \<Rightarrow> string \<Rightarrow> sref \<Rightarrow> ('h, 'f) shard_ctx \<Rightarrow> json" where
  "stats_entry st k r cx =
     (let s = heap_shard st r; (name, native, degraded) = index_attributes (cx_index cx) in JObj
       [(''vectors'', JInt (sh_vector_count s)),
        (''state'', JStr (index_state_value (il_state (cx_lifecycle cx)))),
        (''shard_state'', JStr (shard_state_value (sh_state s))),
        (''primary_owner'', JStr (sh_node_id s)),
        (''replicas'', JList (map JStr (sh_replicas s))),
        (''backend_name'', JStr name),
        (''is_native_backend'', JBool native),
        (''degraded'', JBool degraded),
        (''recovered_from_wal'', JInt (rr_recovered_from_wal (cx_recovery cx))),
        (''wal_entries_read'', JInt (rr_wal_entries_read (cx_recovery cx))),
        (''replication'', stats_to_dict (stats_of (ig_stats st) k)),
        (''replication_health'', view_to_dict (replication_health (ig_transport st) (sh_namespace s) s
           (ns_required_acks (cx_namespace cx)) True))])"

definition ingest_stats :: "('h, 'f) ingest \<Rightarrow> json" where
  "ingest_stats st = JObj (map (\<lambda>(k, r, cx). (k, stats_entry st k r cx)) (ig_shards st))"

end
