(* ===== verification/Query.thy ===== *)
theory Query
  imports Ingest
begin

text \<open>
  The read path: \<open>TieredCache\<close> of \<open>infra/cache.py\<close>, the re-rankers of \<open>query/ranking.py\<close> and
  \<open>QueryEngine.query\<close> of \<open>query/engine.py\<close>. The Redis client, the JSON texts and the environment
  variables are parameters. The searches of one query do not wait for anything, so they run one
  after another; whether the timer of \<open>wait_for\<close> wins over their answer is the parameter \<open>timeout\<close>.
\<close>

subsection \<open>Query results\<close>

record hit =
  qh_id :: string
  qh_score :: real
  qh_metadata :: metadata
  qh_vector :: "vec option"
  qh_reranked :: bool

record query_result =
  qr_results :: "hit list"
  qr_took_ms :: int
  qr_shard_count :: nat
  qr_scanned :: nat

subsection \<open>The tiered cache\<close>

record 'r redis_ops =
  ro_get :: "string \<Rightarrow> 'r \<Rightarrow> string option res"
  ro_setex :: "string \<Rightarrow> int \<Rightarrow> string \<Rightarrow> 'r \<Rightarrow> unit res \<times> 'r"
  ro_clear :: "string \<Rightarrow> 'r \<Rightarrow> 'r"

record query_texts =
  qt_sha :: "string \<Rightarrow> string"
  qt_vector :: "vec \<Rightarrow> string"
  qt_filters :: "(string, json) dict \<Rightarrow> string"
  qt_dumps :: "query_result \<Rightarrow> string"
  qt_loads :: "string \<Rightarrow> query_result res"

record 'r cache =
  tc_ttl :: int
  tc_namespace :: string
  tc_l1 :: "(string, time \<times> string) dict"
  tc_redis :: "'r option"

definition cache_name :: "'r cache \<Rightarrow> string \<Rightarrow> string" where
  "cache_name c key = tc_namespace c @ '':'' @ key"

definition hash_query :: "query_texts \<Rightarrow> string \<Rightarrow> vec \<Rightarrow> nat \<Rightarrow> (string, json) dict \<Rightarrow> string" where
  "hash_query qt ns v top_k filters =
     take 16 (qt_sha qt (ns @ nat_str top_k @ qt_vector qt (take 8 v) @ qt_filters qt filters))"

text \<open>The second tier; an exception after the entry was taken over into the first is dropped.\<close>

definition get_l2 :: "'r redis_ops \<Rightarrow> query_texts \<Rightarrow> time \<Rightarrow> string \<Rightarrow> 'r cache \<Rightarrow> query_result option \<times> 'r cache" where
  "get_l2 ro qt now key c =
     (case tc_redis c of
        None \<Rightarrow> (None, c)
      | Some rd \<Rightarrow>
          (case ro_get ro (cache_name c (''q:'' @ key)) rd of
             Inl e \<Rightarrow> (None, c)
           | Inr None \<Rightarrow> (None, c)
           | Inr (Some v) \<Rightarrow>
               if v = [] then (None, c)
               else
                 (let c1 = c\<lparr>tc_l1 := dict_put key (now, v) (tc_l1 c)\<rparr>
                  in case qt_loads qt v of Inl e \<Rightarrow> (None, c1) | Inr r \<Rightarrow> (Some r, c1))))"

definition get_query ::
    "'r redis_ops \<Rightarrow> query_texts \<Rightarrow> time \<Rightarrow> string \<Rightarrow> vec \<Rightarrow> nat \<Rightarrow> (string, json) dict \<Rightarrow> 'r cache \<Rightarrow>
     query_result option res \<times> 'r cache" where
  "get_query ro qt now ns v top_k filters c =
     (let key = hash_query qt ns v top_k filters in
      case dict_get (tc_l1 c) key of
        Some (ts, val) \<Rightarrow>
          if now - ts < of_int (tc_ttl c) then
            (case qt_loads qt val of Inl e \<Rightarrow> (Inl e, c) | Inr r \<Rightarrow> (Inr (Some r), c))
          else (case get_l2 ro qt now key (c\<lparr>tc_l1 := dict_pop key (tc_l1 c)\<rparr>) of (r, c1) \<Rightarrow> (Inr r, c1))
      | None \<Rightarrow> (case get_l2 ro qt now key c of (r, c1) \<Rightarrow> (Inr r, c1)))"

definition set_query ::
    "'r redis_ops \<Rightarrow> query_texts \<Rightarrow> time \<Rightarrow> string \<Rightarrow> vec \<Rightarrow> nat \<Rightarrow> (string, json) dict \<Rightarrow> query_result \<Rightarrow>
     'r cache \<Rightarrow> 'r cache" where
  "set_query ro qt now ns v top_k filters r c =
     (let key = hash_query qt ns v top_k filters; payload = qt_dumps qt r
      in c\<lparr>tc_l1 := dict_put key (now, payload) (tc_l1 c),
           tc_redis := map_option (\<lambda>rd. snd (ro_setex ro (cache_name c (''q:'' @ key)) (tc_ttl c) payload rd))
             (tc_redis c)\<rparr>)"

definition invalidate_namespace :: "'r redis_ops \<Rightarrow> string \<Rightarrow> 'r cache \<Rightarrow> 'r cache" where
  "invalidate_namespace ro ns c =
     c\<lparr>tc_l1 := [], tc_redis := map_option (ro_clear ro (cache_name c ''q:*'')) (tc_redis c)\<rparr>"

subsection \<open>Re-ranking\<close>

definition unit_vec :: "vec \<Rightarrow> vec" where
  "unit_vec v = scale_vec (norm2 v + 1 / 10 ^ 9) v"

text \<open>\<open>np.dot\<close> of two rows; vectors of different lengths are an error.\<close>

definition np_dot :: "vec \<Rightarrow> vec \<Rightarrow> real res" where
  "np_dot a b = (if length a = length b then Inr (dot a b) else Inl (ValueError ''shapes not aligned''))"

definition ce_rescore :: "vec \<Rightarrow> hit \<Rightarrow> hit res" where
  "ce_rescore q c =
     (case qh_vector c of
        None \<Rightarrow> Inr c
      | Some v \<Rightarrow>
          (case np_dot (unit_vec q) (unit_vec v) of
             Inl e \<Rightarrow> Inl e
           | Inr s \<Rightarrow> Inr (c\<lparr>qh_score := 0.7 * qh_score c + 0.3 * s, qh_reranked := True\<rparr>)))"

definition cross_encoder_rerank :: "vec \<Rightarrow> hit list \<Rightarrow> nat \<Rightarrow> hit list res" where
  "cross_encoder_rerank q candidates top_k =
     (if candidates = [] then Inr []
      else (case map_res (ce_rescore q) candidates of
          Inl e \<Rightarrow> Inl e | Inr cs \<Rightarrow> Inr (take top_k (sort_desc qh_score cs))))"

text \<open>The vector of a candidate, its score standing in for a missing one.\<close>

definition mmr_vec :: "hit \<Rightarrow> vec" where
  "mmr_vec c = (case qh_vector c of None \<Rightarrow> [qh_score c] | Some v \<Rightarrow> v)"

fun max_sim :: "hit \<Rightarrow> real \<Rightarrow> hit list \<Rightarrow> real res" where
  "max_sim c m [] = Inr m"
| "max_sim c m (s # ss) =
     (case np_dot (unit_vec (mmr_vec c)) (unit_vec (mmr_vec s)) of
        Inl e \<Rightarrow> Inl e | Inr x \<Rightarrow> max_sim c (max m x) ss)"

fun mmr_best :: "real \<Rightarrow> hit list \<Rightarrow> hit option \<Rightarrow> real \<Rightarrow> hit list \<Rightarrow> hit option res" where
  "mmr_best lam selected best best_mmr [] = Inr best"
| "mmr_best lam selected best best_mmr (c # cs) =
     (case max_sim c 0 selected of
        Inl e \<Rightarrow> Inl e
      | Inr m \<Rightarrow>
          (let v = lam * qh_score c - (1 - lam) * m in
           if v > best_mmr then mmr_best lam selected (Some c) v cs
           else mmr_best lam selected best best_mmr cs))"

text \<open>The selection loop; every turn takes one candidate, so the remaining ones bound it.\<close>

fun mmr_loop :: "real \<Rightarrow> nat \<Rightarrow> nat \<Rightarrow> hit list \<Rightarrow> hit list \<Rightarrow> hit list res" where
  "mmr_loop lam top_k 0 selected remaining = Inr selected"
| "mmr_loop lam top_k (Suc n) selected remaining =
     (if remaining = [] \<or> length selected \<ge> top_k then Inr selected
      else
        (case mmr_best lam selected None (- (10 ^ 9)) remaining of
           Inl e \<Rightarrow> Inl e
         | Inr None \<Rightarrow> Inr selected
         | Inr (Some b) \<Rightarrow> mmr_loop lam top_k n (selected @ [b]) (remove1 b remaining)))"

definition mmr_rerank :: "hit list \<Rightarrow> nat \<Rightarrow> real \<Rightarrow> hit list res" where
  "mmr_rerank candidates top_k lam =
     (if candidates = [] \<or> length candidates \<le> top_k then Inr (take top_k candidates)
      else
        (case sort_desc qh_score candidates of
           [] \<Rightarrow> Inr []
         | c # cs \<Rightarrow> mmr_loop lam top_k (length cs) [c] cs))"

subsection \<open>Searching with a filter that may raise\<close>

fun first_error :: "(metadata \<Rightarrow> bool res) \<Rightarrow> metadata list \<Rightarrow> exn option" where
  "first_error p [] = None"
| "first_error p (m # ms) = (case p m of Inl e \<Rightarrow> Some e | Inr b \<Rightarrow> first_error p ms)"

text \<open>The neighbours a collecting loop looks at before it breaks off.\<close>

fun visited :: "nat \<Rightarrow> ('x \<Rightarrow> 'r option) \<Rightarrow> nat \<Rightarrow> 'x list \<Rightarrow> 'x list" where
  "visited k f n [] = []"
| "visited k f n (x # xs) =
     x # (case f x of
            None \<Rightarrow> visited k f n xs
          | Some r \<Rightarrow> if n + 1 \<ge> k then [] else visited k f (n + 1) xs)"

definition accepts :: "(metadata \<Rightarrow> bool res) \<Rightarrow> metadata \<Rightarrow> bool" where
  "accepts p m = (p m = Inr True)"

definition flat_error :: "(metadata \<Rightarrow> bool res) option \<Rightarrow> flat \<Rightarrow> exn option" where
  "flat_error p f =
     (case (p, fl_vectors f) of
        (Some p, Some vs) \<Rightarrow> if fl_ids f = [] then None else first_error p (fl_metadatas f)
      | _ \<Rightarrow> None)"

definition hnsw_error ::
    "'h hnsw_lib option \<Rightarrow> vec \<Rightarrow> nat \<Rightarrow> (metadata \<Rightarrow> bool res) option \<Rightarrow> 'h hnsw \<Rightarrow> exn option" where
  "hnsw_error lib q top_k p x =
     (case (lib, hn_backend x) of
        (Some l, Inl h) \<Rightarrow>
          (case p of
             None \<Rightarrow> None
           | Some p \<Rightarrow>
               if hn_count x = 0 then None
               else
                 (case hl_knn_query l q (min (top_k * 3) (nat (hn_count x))) h of
                    Inl e \<Rightarrow> None
                  | Inr near \<Rightarrow>
                      first_error p (map (\<lambda>(lab, d). case dict_get (hn_metadatas x) lab of None \<Rightarrow> [] | Some m \<Rightarrow> m)
                        (filter (\<lambda>(lab, d). dict_get (hn_label_to_id x) lab \<noteq> None)
                          (visited top_k (hnsw_result x (Some (accepts p))) 0 near)))))
      | (_, Inr f) \<Rightarrow> flat_error p f
      | _ \<Rightarrow> None)"

text \<open>In the IVF index an exception of the filter in the faiss stage leads to the flat fallback.\<close>

definition ivf_stage_error ::
    "'f faiss_lib option \<Rightarrow> vec \<Rightarrow> nat \<Rightarrow> nat option \<Rightarrow> (metadata \<Rightarrow> bool res) option \<Rightarrow> 'f ivf \<Rightarrow> bool" where
  "ivf_stage_error lib q top_k nprobe p x =
     (case (lib, iv_faiss x, p) of
        (Some l, Some ix, Some p) \<Rightarrow>
          fa_is_trained l ix \<and> iv_ids x \<noteq> [] \<and>
          (let probe = (case nprobe of None \<Rightarrow> iv_nprobe x | Some n \<Rightarrow> if n = 0 then iv_nprobe x else n);
               q1 = (if iv_metric x = ''cosine'' then hd (fa_normalize_L2 l [q]) else q)
           in case fa_search l q1 (top_k * 3) (min probe (iv_nlist x)) ix of
                Inl e \<Rightarrow> False
              | Inr near \<Rightarrow>
                  first_error p (map (\<lambda>(d, idx). iv_metadatas x ! nat idx)
                    (filter (\<lambda>(d, idx). \<not> (idx = -1 \<or> idx \<ge> int (length (iv_ids x))) \<and>
                        \<not> is_deleted (iv_metadatas x ! nat idx))
                      (visited top_k (ivf_result x (Some (accepts p))) 0 near))) \<noteq> None)
      | _ \<Rightarrow> False)"

fun filtered_search ::
    "('h, 'f) libs \<Rightarrow> vec \<Rightarrow> nat \<Rightarrow> nat \<Rightarrow> nat option \<Rightarrow> (metadata \<Rightarrow> bool res) option \<Rightarrow>
     ('h, 'f) vindex \<Rightarrow> index_result list res \<times> ('h, 'f) vindex" where
  "filtered_search lb q top_k ef nprobe p (FlatIx f) =
     (case flat_error p f of
        Some e \<Rightarrow> (Inl e, FlatIx f)
      | None \<Rightarrow> (Inr (flat_search (lib_np lb) q top_k (map_option accepts p) f), FlatIx f))"
| "filtered_search lb q top_k ef nprobe p (ScannIx s) =
     (case (if min (top_k * 3) (scann_count s) = 0 then None else flat_error p (sc_flat s)) of
        Some e \<Rightarrow> (Inl e, ScannIx s)
      | None \<Rightarrow> (Inr (scann_search (lib_np lb) q top_k (map_option accepts p) s), ScannIx s))"
| "filtered_search lb q top_k ef nprobe p (HnswIx x) =
     (case hnsw_search (lib_np lb) (lib_hnsw lb) q top_k (Some ef) (map_option accepts p) x of
        (rs, x1) \<Rightarrow>
          (case hnsw_error (lib_hnsw lb) q top_k p x1 of
             Some e \<Rightarrow> (Inl e, HnswIx x1) | None \<Rightarrow> (Inr rs, HnswIx x1)))"
| "filtered_search lb q top_k ef nprobe p (IvfIx x) =
     (if ivf_stage_error (lib_faiss lb) q top_k nprobe p x then
        (let q1 = (case lib_faiss lb of
                     Some l \<Rightarrow> if iv_metric x = ''cosine'' then hd (fa_normalize_L2 l [q]) else q | None \<Rightarrow> q)
         in case flat_error p (iv_fallback x) of
              Some e \<Rightarrow> (Inl e, IvfIx x)
            | None \<Rightarrow> (Inr (flat_search (lib_np lb) q1 top_k (map_option accepts p) (iv_fallback x)), IvfIx x))
      else
        (let rs = ivf_search (lib_np lb) (lib_faiss lb) q top_k nprobe (map_option accepts p) x
         in case (if rs \<noteq> [] then None else flat_error p (iv_fallback x)) of
              Some e \<Rightarrow> (Inl e, IvfIx x) | None \<Rightarrow> (Inr rs, IvfIx x)))"

subsection \<open>One shard\<close>

record query_args =
  qa_namespace :: string
  qa_vector :: vec
  qa_top_k :: nat
  qa_ef_search :: "nat option"
  qa_nprobe :: "nat option"
  qa_filters :: "(string, json) dict"
  qa_include_metadata :: bool
  qa_include_vector :: bool

definition query_filter :: "('h, 'f) ienv \<Rightarrow> query_args \<Rightarrow> (metadata \<Rightarrow> bool res) option" where
  "query_filter ev qa =
     (if qa_filters qa = [] then None
      else Some (\<lambda>md. parse_filter (cd_str (ie_codec ev)) md (qa_filters qa)))"

definition enrich :: "codec \<Rightarrow> query_args \<Rightarrow> segments \<Rightarrow> index_result \<Rightarrow> hit res" where
  "enrich cd qa sg r =
     (let md = (case ir_metadata r of None \<Rightarrow> [] | Some m \<Rightarrow> m)
      in if qa_include_vector qa then
           (case seg_get cd sg (ir_id r) of
              Inl e \<Rightarrow> Inl e
            | Inr x \<Rightarrow>
                Inr \<lparr>qh_id = ir_id r, qh_score = ir_score r,
                     qh_metadata = (if qa_include_metadata qa then
                       (case x of None \<Rightarrow> md | Some rec \<Rightarrow> vr_metadata rec) else []),
                     qh_vector = map_option vr_vector x, qh_reranked = False\<rparr>)
         else
           Inr \<lparr>qh_id = ir_id r, qh_score = ir_score r,
                qh_metadata = (if qa_include_metadata qa then md else []), qh_vector = None,
                qh_reranked = False\<rparr>)"

definition search_shard ::
    "('h, 'f) ienv \<Rightarrow> query_args \<Rightarrow> sref \<Rightarrow> ('h, 'f) ingest \<Rightarrow> (hit list \<times> nat) res \<times> ('h, 'f) ingest" where
  "search_shard ev qa r st =
     (let key = ctx_key (qa_namespace qa) (sh_id (heap_shard st r)) in
      case dict_get (ig_shards st) key of
        None \<Rightarrow> (Inr ([], 0), st)
      | Some (r1, cx) \<Rightarrow>
          (case filtered_search (ie_libs ev) (qa_vector qa) (qa_top_k qa)
                  (case qa_ef_search qa of None \<Rightarrow> 100 | Some n \<Rightarrow> n) (qa_nprobe qa)
                  (query_filter ev qa) (cx_index cx) of
             (x, ix) \<Rightarrow>
               (let st1 = st\<lparr>ig_shards := dict_put key (r1, cx\<lparr>cx_index := ix\<rparr>) (ig_shards st)\<rparr>
                in case x of
                     Inl e \<Rightarrow> (Inl e, st1)
                   | Inr rs \<Rightarrow>
                       (case map_res (enrich (ie_codec ev) qa (cx_segments cx)) rs of
                          Inl e \<Rightarrow> (Inl e, st1) | Inr hs \<Rightarrow> (Inr (hs, length rs), st1)))))"

text \<open>\<open>gather\<close>: every search runs; the first exception is the one raised.\<close>

fun search_shards ::
    "('h, 'f) ienv \<Rightarrow> query_args \<Rightarrow> sref list \<Rightarrow> ('h, 'f) ingest \<Rightarrow> (hit list \<times> nat) list res \<times> ('h, 'f) ingest"
where
  "search_shards ev qa [] st = (Inr [], st)"
| "search_shards ev qa (r # rs) st =
     (case search_shard ev qa r st of
        (x, st1) \<Rightarrow>
          (case search_shards ev qa rs st1 of
             (y, st2) \<Rightarrow>
               ((case (x, y) of
                   (Inl e, _) \<Rightarrow> Inl e
                 | (_, Inl e) \<Rightarrow> Inl e
                 | (Inr h, Inr hs) \<Rightarrow> Inr (h # hs)), st2)))"

subsection \<open>The query\<close>

datatype rerank = NoRerank | CrossEncoder | MMR real

text \<open>\<open>VSECTOR_RERANK\<close> and \<open>VSECTOR_MMR_LAMBDA\<close>.\<close>

definition rerank_mode :: "string \<Rightarrow> real \<Rightarrow> rerank" where
  "rerank_mode env lam =
     (if lower env \<in> {''cross_encoder'', ''cross-encoder'', ''ce''} then CrossEncoder
      else if lower env = ''mmr'' then MMR lam else NoRerank)"

definition merge_hits :: "rerank \<Rightarrow> vec \<Rightarrow> nat \<Rightarrow> hit list \<Rightarrow> hit list res" where
  "merge_hits mode q top_k cands =
     (let best = take (max (top_k * 3) top_k) (sort_desc qh_score cands)
      in case mode of
           CrossEncoder \<Rightarrow> cross_encoder_rerank q best top_k
         | MMR lam \<Rightarrow> mmr_rerank best top_k lam
         | NoRerank \<Rightarrow> Inr (take top_k best))"

definition query ::
    "('h, 'f) ienv \<Rightarrow> 'r redis_ops \<Rightarrow> query_texts \<Rightarrow> rerank \<Rightarrow> bool \<Rightarrow> time \<Rightarrow> time \<Rightarrow> int \<Rightarrow> query_args \<Rightarrow>
     ('h, 'f) ingest \<times> 'r cache \<Rightarrow> query_result res \<times> ('h, 'f) ingest \<times> 'r cache" where
  "query ev ro qt mode timeout now now2 took qa = (\<lambda>(st, c).
     (let ns = qa_namespace qa in
      case dict_get (ig_namespaces st) ns of
        None \<Rightarrow> (Inl (no_namespace ns), st, c)
      | Some nsr \<Rightarrow>
          if int (length (qa_vector qa)) \<noteq> ns_dimension nsr then
            (Inl (ValueError (''dimension mismatch expected '' @ int_str (ns_dimension nsr) @ '' got ''
                    @ nat_str (length (qa_vector qa)))), st, c)
          else
            (case get_query ro qt now ns (qa_vector qa) (qa_top_k qa) (qa_filters qa) c of
               (cached, c1) \<Rightarrow>
                 (case (cached, qa_include_vector qa) of
                    (Inr (Some r), False) \<Rightarrow> (Inr r, st, c1)
                  | _ \<Rightarrow>
                      (case route_for_query now ns (ig_router st) of
                         (shards, rt) \<Rightarrow>
                           (let st1 = st\<lparr>ig_router := rt\<rparr> in
                            if shards = [] then
                              (Inr \<lparr>qr_results = [], qr_took_ms = 0, qr_shard_count = 0, qr_scanned = 0\<rparr>, st1, c1)
                            else
                              (case search_shards ev qa shards st1 of
                                 (found, st2) \<Rightarrow>
                                   (case (if timeout then Inr [] else found) of
                                      Inl e \<Rightarrow> (Inl e, st2, c1)
                                    | Inr parts \<Rightarrow>
                                        (case merge_hits mode (qa_vector qa) (qa_top_k qa) (concat (map fst parts)) of
                                           Inl e \<Rightarrow> (Inl e, st2, c1)
                                         | Inr best \<Rightarrow>
                                             (let r = \<lparr>qr_results = best, qr_took_ms = took,
                                                       qr_shard_count = length shards,
                                                       qr_scanned = sum_list (map snd parts)\<rparr>
                                              in (Inr r, st2,
                                                  if qa_include_vector qa then c1
                                                  else set_query ro qt now2 ns (qa_vector qa) (qa_top_k qa)
                                                         (qa_filters qa) r c1)))))))))))"

end
