(* ===== verification/Replication_Facts.thy ===== *)
theory Replication_Facts
  imports Replication
begin

text \<open>
  What a delivery reports: every replica is attempted once, acknowledged or failed, never both, a
  faulted one is never reached, and the counters, the health view and the decision follow from the
  outcomes. The locale \<open>replica_endpoints\<close> is the contract between the transport and the endpoints:
  an attempt that returns has its effect at that node, and none elsewhere.
\<close>

subsection \<open>One delivery\<close>

lemma deliver_one_cases:
  assumes "deliver_one attempt clk ns sid j n (res, tp, w) = (res', tp', w')"
  obtains (ack) "\<not> is_faulted tp n" "attempt j n w = (Inr (), w')"
      "res' = res\<lparr>rs_attempted := rs_attempted res @ [n], rs_acknowledged := rs_acknowledged res @ [n]\<rparr>"
      "tp' = record_node (clk j) ns sid n None tp"
    | (fail) e where "if is_faulted tp n then w' = w \<and> e = ReplicaUnavailableError n
        else attempt j n w = (Inl e, w')"
      "res' = res\<lparr>rs_attempted := rs_attempted res @ [n], rs_failed := rs_failed res @ [n],
         rs_failures := dict_put n (stable_error e) (rs_failures res)\<rparr>"
      "tp' = record_node (clk j) ns sid n (Some (stable_error e)) tp"
proof (cases "if is_faulted tp n then (Inl (ReplicaUnavailableError n), w) else attempt j n w")
  case (Pair x w1)
  show ?thesis
  proof (cases x)
    case (Inl e)
    with Pair assms show ?thesis
      by (intro fail [of e]) (auto simp: deliver_one_def split: if_splits)
  next
    case (Inr u)
    with Pair assms show ?thesis
      by (intro ack) (auto simp: deliver_one_def split: if_splits)
  qed
qed

lemma record_node_frame [simp]:
  "tp_faults (record_node t ns sid n out tp) = tp_faults tp"
  "is_faulted (record_node t ns sid n out tp) m = is_faulted tp m"
  "tp_last_success (record_node t ns sid n out tp) = tp_last_success tp"
  "tp_last_failure (record_node t ns sid n out tp) = tp_last_failure tp"
  by (simp_all add: record_node_def is_faulted_def Let_def)

lemma record_node_health:
  "health_of (record_node t ns sid n out tp) ns' sid' m =
     (if (ns', sid', m) = (ns, sid, n) then
        (case out of
           None \<Rightarrow> (health_of tp ns sid n)\<lparr>rh_healthy := True, rh_available := True, rh_last_error := None,
             rh_last_success := Some t, rh_successes := rh_successes (health_of tp ns sid n) + 1\<rparr>
         | Some err \<Rightarrow> (health_of tp ns sid n)\<lparr>rh_healthy := False, rh_available := \<not> is_faulted tp n,
             rh_last_error := Some (if err = [] then ''unknown'' else err), rh_last_failure := Some t,
             rh_failures := rh_failures (health_of tp ns sid n) + 1\<rparr>)
      else health_of tp ns' sid' m)"
  by (auto simp: record_node_def Let_def health_of_def fresh_health_def is_faulted_def store_simps
      split: option.splits)

subsection \<open>The loop\<close>

text \<open>What the loop keeps and adds; \<open>occ\<close> counts the occurrences in a list.\<close>

definition occ :: "string list \<Rightarrow> string \<Rightarrow> int" where
  "occ xs n = int (length (filter (\<lambda>m. m = n) xs))"

lemma occ_simps [simp]: "occ [] n = 0" "occ (x # xs) n = (if x = n then 1 else 0) + occ xs n"
  "occ (xs @ ys) n = occ xs n + occ ys n"
  by (auto simp: occ_def)

lemma occ_pos: "n \<in> set xs \<longleftrightarrow> 0 < occ xs n"
  by (auto simp: occ_def filter_empty_conv)

definition tracks :: "string \<Rightarrow> string \<Rightarrow> transport \<Rightarrow> replication_result \<Rightarrow> transport \<Rightarrow>
    replication_result \<Rightarrow> string list \<Rightarrow> string list \<Rightarrow> string list \<Rightarrow> bool" where
  "tracks ns sid tp res tp' res' nodes as fs \<longleftrightarrow>
     rs_attempted res' = rs_attempted res @ nodes \<and> tp_faults tp' = tp_faults tp \<and>
     rs_primary res' = rs_primary res \<and> rs_required_acks res' = rs_required_acks res \<and>
     rs_acknowledged res' = rs_acknowledged res @ as \<and> rs_failed res' = rs_failed res @ fs \<and>
     (\<forall>n. occ as n + occ fs n = occ nodes n) \<and> length as + length fs = length nodes \<and>
     (\<forall>n \<in> set as. \<not> is_faulted tp n) \<and>
     fst ` set (rs_failures res') = fst ` set (rs_failures res) \<union> set fs \<and>
     (\<forall>n. rh_successes (health_of tp' ns sid n) = rh_successes (health_of tp ns sid n) + occ as n) \<and>
     (\<forall>n. rh_failures (health_of tp' ns sid n) = rh_failures (health_of tp ns sid n) + occ fs n) \<and>
     (\<forall>n. n \<notin> set nodes \<longrightarrow> health_of tp' ns sid n = health_of tp ns sid n) \<and>
     (\<forall>n. occ nodes n = 1 \<longrightarrow> rh_healthy (health_of tp' ns sid n) = (n \<in> set as))"

lemma tracks_one:
  assumes "deliver_one attempt clk ns sid j n (res, tp, w) = (res', tp', w')"
  shows "tracks ns sid tp res tp' res' [n] [n] [] \<or> tracks ns sid tp res tp' res' [n] [] [n]"
  using assms
proof (cases rule: deliver_one_cases)
  case ack
  then have "tracks ns sid tp res tp' res' [n] [n] []"
    by (auto simp: tracks_def record_node_health)
  then show ?thesis ..
next
  case (fail e)
  then have "tracks ns sid tp res tp' res' [n] [] [n]"
    by (auto simp: tracks_def record_node_health dom_update)
  then show ?thesis ..
qed

lemma occ_nonneg [simp]: "0 \<le> occ xs m"
  by (simp add: occ_def)

lemma tracks_trans:
  assumes 1: "tracks ns sid tp res tp1 res1 [n] as fs" and 2: "tracks ns sid tp1 res1 tp' res' nodes bs gs"
  shows "tracks ns sid tp res tp' res' (n # nodes) (as @ bs) (fs @ gs)"
proof -
  have flt: "is_faulted tp1 m = is_faulted tp m" for m using 1 by (simp add: tracks_def is_faulted_def)
  have sums: "occ as m + occ fs m = occ [n] m" "occ bs m + occ gs m = occ nodes m" for m
    using 1 2 by (simp_all add: tracks_def)
  have healthy: "rh_healthy (health_of tp' ns sid m) = (m \<in> set (as @ bs))" if "occ (n # nodes) m = 1" for m
  proof (cases "m = n")
    case True
    then have "occ nodes m = 0" using that by simp
    moreover from this have "occ bs m = 0"
      using sums(2) [of m] occ_nonneg [of gs m] occ_nonneg [of bs m] by linarith
    ultimately have "m \<notin> set nodes" "m \<notin> set bs" by (simp_all add: occ_pos)
    then show ?thesis using 1 2 True by (simp add: tracks_def)
  next
    case False
    then have "occ [n] m = 0" by simp
    then have "occ as m = 0"
      using sums(1) [of m] occ_nonneg [of as m] occ_nonneg [of fs m] by linarith
    then show ?thesis using 2 that False by (simp add: tracks_def occ_pos)
  qed
  have parts: "rs_attempted res' = rs_attempted res @ n # nodes" "tp_faults tp' = tp_faults tp"
    "rs_primary res' = rs_primary res" "rs_required_acks res' = rs_required_acks res"
    "rs_acknowledged res' = rs_acknowledged res @ as @ bs" "rs_failed res' = rs_failed res @ fs @ gs"
    "length (as @ bs) + length (fs @ gs) = length (n # nodes)"
    "\<forall>m \<in> set (as @ bs). \<not> is_faulted tp m"
    "fst ` set (rs_failures res') = fst ` set (rs_failures res) \<union> set (fs @ gs)"
    using 1 2 flt by (auto simp: tracks_def)
  have counts: "\<forall>m. occ (as @ bs) m + occ (fs @ gs) m = occ (n # nodes) m"
    using sums by (simp add: algebra_simps)
  have health: "\<forall>m. rh_successes (health_of tp' ns sid m) = rh_successes (health_of tp ns sid m) + occ (as @ bs) m"
    "\<forall>m. rh_failures (health_of tp' ns sid m) = rh_failures (health_of tp ns sid m) + occ (fs @ gs) m"
    "\<forall>m. m \<notin> set (n # nodes) \<longrightarrow> health_of tp' ns sid m = health_of tp ns sid m"
    using 1 2 by (simp_all add: tracks_def)
  show ?thesis unfolding tracks_def using parts counts health healthy by simp
qed

lemma tracks_loop:
  "deliver_loop attempt clk ns sid j nodes (res, tp, w) = (res', tp', w') \<Longrightarrow>
     \<exists>as fs. tracks ns sid tp res tp' res' nodes as fs"
proof (induction nodes arbitrary: j res tp w)
  case Nil
  then have "tracks ns sid tp res tp' res' [] [] []" by (simp add: tracks_def)
  then show ?case by blast
next
  case (Cons n nodes)
  obtain res1 tp1 w1 where 1: "deliver_one attempt clk ns sid j n (res, tp, w) = (res1, tp1, w1)"
    by (metis prod_cases3)
  with Cons.prems have "deliver_loop attempt clk ns sid (Suc j) nodes (res1, tp1, w1) = (res', tp', w')" by simp
  from Cons.IH [OF this] obtain bs gs where "tracks ns sid tp1 res1 tp' res' nodes bs gs" by blast
  with tracks_one [OF 1] show ?case by (blast intro: tracks_trans)
qed


subsection \<open>The outcome of a delivery\<close>

lemma deliver_tracks:
  assumes "deliver attempt clk ns s required (tp, w) = (res, tp', w')"
  shows "\<exists>tp1. tracks ns (sh_id s) tp (new_result s required) tp1 res (sh_replicas s)
      (rs_acknowledged res) (rs_failed res) \<and>
    rs_success res = (1 + int (length (rs_acknowledged res)) \<ge> required) \<and>
    rs_degraded res = (rs_failed res \<noteq> []) \<and> tp_faults tp' = tp_faults tp1 \<and> tp_health tp' = tp_health tp1"
proof -
  obtain r1 tp1 w1 where 1: "deliver_loop attempt clk ns (sh_id s) 0 (sh_replicas s)
      (new_result s required, tp, w) = (r1, tp1, w1)" by (metis prod_cases3)
  then obtain as fs where "tracks ns (sh_id s) tp (new_result s required) tp1 r1 (sh_replicas s) as fs"
    using tracks_loop [OF 1] by blast
  moreover have "res = r1\<lparr>rs_success := 1 + int (length (rs_acknowledged r1)) \<ge> required,
      rs_degraded := rs_failed r1 \<noteq> []\<rparr>" "tp_faults tp' = tp_faults tp1" "tp_health tp' = tp_health tp1"
    using assms 1 by (auto simp: deliver_def Let_def split: if_splits)
  ultimately show ?thesis
    by (intro exI [of _ tp1]) (simp add: tracks_def new_result_def)
qed

lemma health_of_cong:
  "tp_faults tp = tp_faults tp' \<Longrightarrow> tp_health tp = tp_health tp' \<Longrightarrow> health_of tp = health_of tp'"
  by (intro ext) (simp add: health_of_def fresh_health_def is_faulted_def split: option.splits)

lemma occ_distinct: "distinct xs \<Longrightarrow> occ xs n = (if n \<in> set xs then 1 else 0)"
  by (induction xs) auto

lemma occ_count: "occ xs n = int (count (mset xs) n)"
  by (induction xs) auto

lemma filter_distinct_length:
  assumes "distinct xs" "distinct ys" "set ys \<subseteq> set xs"
  shows "length (filter (\<lambda>x. x \<in> set ys) xs) = length ys"
proof -
  have "set (filter (\<lambda>x. x \<in> set ys) xs) = set ys" using assms(3) by auto
  then show ?thesis using assms(1,2) by (metis distinct_card distinct_filter)
qed

text \<open>
  C14: acknowledgements are never invented. A delivery attempts each replica of the shard once in
  order and reports it either acknowledged or failed; a faulted replica fails and is never reached;
  every failed one comes with its error; success is decided by the acknowledgements with the
  primary's own write counted, and degradation by the failures. The counters move by what was
  reported, and with each replica listed once the health view afterwards shows exactly the
  acknowledged ones as healthy and is ready exactly when the delivery succeeded.
\<close>

theorem delivery_truthful:
  assumes "deliver attempt clk ns s required (tp, w) = (res, tp', w')"
    and "distinct (sh_replicas s)"
  shows "rs_attempted res = sh_replicas s \<and>
    mset (rs_acknowledged res) + mset (rs_failed res) = mset (sh_replicas s) \<and>
    set (rs_acknowledged res) \<inter> set (tp_faults tp) = {} \<and>
    fst ` set (rs_failures res) = set (rs_failed res) \<and>
    rs_success res = (1 + int (length (rs_acknowledged res)) \<ge> required) \<and>
    rs_degraded res = (rs_failed res \<noteq> []) \<and>
    (\<forall>n. rh_successes (health_of tp' ns (sh_id s) n) =
        rh_successes (health_of tp ns (sh_id s) n) + (if n \<in> set (rs_acknowledged res) then 1 else 0) \<and>
      rh_failures (health_of tp' ns (sh_id s) n) =
        rh_failures (health_of tp ns (sh_id s) n) + (if n \<in> set (rs_failed res) then 1 else 0)) \<and>
    rv_healthy (replication_health tp' ns s required True) = length (rs_acknowledged res) \<and>
    rv_ready (replication_health tp' ns s required True) = rs_success res"
proof -
  from deliver_tracks [OF assms(1)] obtain tp1 where
    t: "tracks ns (sh_id s) tp (new_result s required) tp1 res (sh_replicas s)
      (rs_acknowledged res) (rs_failed res)"
    and res: "rs_success res = (1 + int (length (rs_acknowledged res)) \<ge> required)"
      "rs_degraded res = (rs_failed res \<noteq> [])"
    and h: "health_of tp' = health_of tp1"
    using health_of_cong by blast
  let ?as = "rs_acknowledged res" and ?fs = "rs_failed res"
  have part: "mset ?as + mset ?fs = mset (sh_replicas s)"
  proof (rule multiset_eqI)
    fix n
    have "occ ?as n + occ ?fs n = occ (sh_replicas s) n" using t by (simp add: tracks_def)
    then show "count (mset ?as + mset ?fs) n = count (mset (sh_replicas s)) n"
      by (simp add: occ_count flip: of_nat_add)
  qed
  then have "distinct (?as @ ?fs)" "set (?as @ ?fs) = set (sh_replicas s)"
    using assms(2) by (metis mset_append mset_eq_imp_distinct_iff, metis mset_append mset_eq_setD)
  then have d: "distinct ?as" "distinct ?fs" "set ?as \<subseteq> set (sh_replicas s)" by auto
  have healthy: "rh_healthy (health_of tp1 ns (sh_id s) n) = (n \<in> set ?as)" if "n \<in> set (sh_replicas s)" for n
    using t that assms(2) by (simp add: tracks_def occ_distinct)
  have "length (filter (\<lambda>n. rh_healthy (health_of tp1 ns (sh_id s) n)) (sh_replicas s)) = length ?as"
    using filter_distinct_length [OF assms(2) d(1,3)] healthy by (metis (mono_tags, lifting) filter_cong)
  then have count: "rv_healthy (replication_health tp' ns s required True) = length ?as"
    by (simp add: replication_health_def Let_def h filter_map o_def)
  then have ready: "rv_ready (replication_health tp' ns s required True) = rs_success res"
    by (simp add: res(1) replication_health_def Let_def)
  have sets: "set ?as \<inter> set (tp_faults tp) = {}" "rs_attempted res = sh_replicas s"
    "fst ` set (rs_failures res) = set ?fs"
    using t by (auto simp: tracks_def is_faulted_def new_result_def)
  have counters: "rh_successes (health_of tp' ns (sh_id s) n) =
        rh_successes (health_of tp ns (sh_id s) n) + (if n \<in> set ?as then 1 else 0) \<and>
      rh_failures (health_of tp' ns (sh_id s) n) =
        rh_failures (health_of tp ns (sh_id s) n) + (if n \<in> set ?fs then 1 else 0)" for n
    using t d(1,2) by (simp add: tracks_def h occ_distinct)
  show ?thesis
    by (intro conjI allI sets part res count ready conjunct1 [OF counters] conjunct2 [OF counters])
qed

definition demo_shard :: shard where
  "demo_shard = (new_shard ''s1'' 0 ''ns'' ''n1'')\<lparr>sh_replicas := [''n2'', ''n3'']\<rparr>"

lemma delivery_truthful_witness:
  "rv_ready (replication_health (fst (snd (deliver (\<lambda>j n w. (Inr (), Suc w)) (\<lambda>j. 5) ''ns'' demo_shard 2
     (fail_node ''n3'' new_transport, 0)))) ''ns'' demo_shard 2 True) \<and>
   rs_failed (fst (deliver (\<lambda>j n w. (Inr (), Suc w)) (\<lambda>j. 5) ''ns'' demo_shard 2
     (fail_node ''n3'' new_transport, 0))) = [''n3'']"
proof -
  let ?d = "deliver (\<lambda>j n w. (Inr (), Suc w)) (\<lambda>j. 5) ''ns'' demo_shard 2 (fail_node ''n3'' new_transport, 0 :: nat)"
  have d: "distinct (sh_replicas demo_shard)" by (simp add: demo_shard_def)
  have eq: "?d = (fst ?d, fst (snd ?d), snd (snd ?d))" by simp
  have v: "rs_success (fst ?d)" "rs_failed (fst ?d) = [''n3'']"
    by (simp_all add: deliver_def deliver_one_def demo_shard_def new_shard_def fail_node_def new_transport_def
        is_faulted_def new_result_def Let_def)
  from delivery_truthful [OF eq d] v show ?thesis by blast
qed

subsection \<open>The contract of the endpoints\<close>

locale replica_endpoints =
  fixes attempt :: "nat \<Rightarrow> string \<Rightarrow> 'w \<Rightarrow> unit res \<times> 'w"
    and holds :: "string \<Rightarrow> 'w \<Rightarrow> bool"
    and inv :: "'w \<Rightarrow> bool"
  assumes attempt_ok: "inv w \<Longrightarrow> attempt j n w = (Inr u, w') \<Longrightarrow> holds n w'"
    and attempt_other: "inv w \<Longrightarrow> attempt j n w = (x, w') \<Longrightarrow> m \<noteq> n \<Longrightarrow> holds m w' = holds m w"
    and attempt_inv: "inv w \<Longrightarrow> attempt j n w = (x, w') \<Longrightarrow> inv w'"
begin

lemma one_holds:
  assumes "deliver_one attempt clk ns sid j n (res, tp, w) = (res', tp', w')" "inv w"
    and "n \<notin> set (rs_acknowledged res)" "\<forall>m \<in> set (rs_acknowledged res). holds m w"
  shows "inv w' \<and> (\<forall>m \<in> set (rs_acknowledged res'). holds m w') \<and>
    set (rs_acknowledged res') \<subseteq> insert n (set (rs_acknowledged res)) \<and>
    (\<forall>m. m \<noteq> n \<or> is_faulted tp n \<longrightarrow> holds m w' = holds m w) \<and> tp_faults tp' = tp_faults tp"
  using assms(1)
proof (cases rule: deliver_one_cases)
  case ack
  have o: "holds m w' = holds m w" if "m \<noteq> n" for m
    using attempt_other [OF assms(2) ack(2) that] .
  then have "\<forall>m \<in> set (rs_acknowledged res). holds m w'" using assms(3,4) by metis
  then show ?thesis
    using ack attempt_ok [OF assms(2) ack(2)] attempt_inv [OF assms(2) ack(2)] o by auto
next
  case (fail e)
  show ?thesis
  proof (cases "is_faulted tp n")
    case True
    with fail assms show ?thesis by auto
  next
    case False
    then have a: "attempt j n w = (Inl e, w')" using fail(1) by simp
    have o: "holds m w' = holds m w" if "m \<noteq> n" for m
      using attempt_other [OF assms(2) a that] .
    then have "\<forall>m \<in> set (rs_acknowledged res). holds m w'" using assms(3,4) by metis
    with fail attempt_inv [OF assms(2) a] o False show ?thesis by auto
  qed
qed

lemma loop_holds:
  assumes "deliver_loop attempt clk ns sid j nodes (res, tp, w) = (res', tp', w')" "inv w"
    and "distinct nodes" "set nodes \<inter> set (rs_acknowledged res) = {}"
    and "\<forall>m \<in> set (rs_acknowledged res). holds m w"
  shows "inv w' \<and> (\<forall>m \<in> set (rs_acknowledged res'). holds m w') \<and>
    (\<forall>m. m \<notin> set nodes \<or> is_faulted tp m \<longrightarrow> holds m w' = holds m w)"
  using assms
proof (induction nodes arbitrary: j res tp w)
  case (Cons n nodes)
  obtain res1 tp1 w1 where 1: "deliver_one attempt clk ns sid j n (res, tp, w) = (res1, tp1, w1)"
    by (metis prod_cases3)
  with Cons.prems(1) have 2: "deliver_loop attempt clk ns sid (Suc j) nodes (res1, tp1, w1) = (res', tp', w')" by simp
  from one_holds [OF 1 Cons.prems(2) _ Cons.prems(5)] Cons.prems(4)
  have h: "inv w1" "\<forall>m \<in> set (rs_acknowledged res1). holds m w1"
    "set (rs_acknowledged res1) \<subseteq> insert n (set (rs_acknowledged res))"
    "\<forall>m. m \<noteq> n \<or> is_faulted tp n \<longrightarrow> holds m w1 = holds m w" "tp_faults tp1 = tp_faults tp" by auto
  have disj: "set nodes \<inter> set (rs_acknowledged res1) = {}" using h(3) Cons.prems(3,4) by auto
  from Cons.IH [OF 2 h(1) _ disj h(2)] Cons.prems(3) h(4,5) show ?case
    by (auto simp: is_faulted_def)
qed simp

lemma acknowledged_hold:
  assumes "deliver attempt clk ns s required (tp, w) = (res, tp', w')" "inv w" "distinct (sh_replicas s)"
  shows "inv w' \<and> (\<forall>n \<in> set (rs_acknowledged res). holds n w') \<and>
    (\<forall>n. n \<notin> set (sh_replicas s) \<or> is_faulted tp n \<longrightarrow> holds n w' = holds n w)"
proof -
  obtain r1 tp1 w1 where 1: "deliver_loop attempt clk ns (sh_id s) 0 (sh_replicas s)
      (new_result s required, tp, w) = (r1, tp1, w1)" by (metis prod_cases3)
  have "rs_acknowledged res = rs_acknowledged r1" "w' = w1"
    using assms(1) 1 by (auto simp: deliver_def Let_def)
  with loop_holds [OF 1 assms(2,3)] show ?thesis by (simp add: new_result_def)
qed

end

end
