(* ===== verification/Ingest_Facts.thy ===== *)
theory Ingest_Facts
  imports Ingest Replication_Facts
begin

text \<open>
  What requests to the ingest service do. The endpoints the service provides to its transport meet
  the transport's contract (\<open>replica_endpoints\<close>), so an acknowledgement of a replica means that its
  context has taken the operation; an accepted record is stored, logged and replicated, and a
  finished request has flushed every log it touched.
\<close>

subsection \<open>Endpoints of the service\<close>

text \<open>What a replica shows once it has taken an operation.\<close>

definition op_taken :: "codec \<Rightarrow> wal_op \<Rightarrow> ('h, 'f) shard_ctx \<Rightarrow> bool" where
  "op_taken cd p cx =
     (case p of Upsert r \<Rightarrow> already_applied cd r cx | Delete i \<Rightarrow> ctx_view cd cx i = None)"

definition node_holds ::
    "('h, 'f) ienv \<Rightarrow> string \<Rightarrow> string \<Rightarrow> wal_op \<Rightarrow> string \<Rightarrow> ('h, 'f) endpoints \<Rightarrow> bool" where
  "node_holds ev ns sid p n eps =
     (case dict_get eps (endpoint_key ns sid n) of
        None \<Rightarrow> False | Some (s, cx) \<Rightarrow> op_taken (ie_codec ev) p cx)"

text \<open>The directories of replicas not yet opened hold readable files.\<close>

definition opens_well :: "('h, 'f) ienv \<Rightarrow> storage \<Rightarrow> bool" where
  "opens_well ev disk \<longleftrightarrow>
     (\<forall>mo base s nsr cx s'. open_ctx (ie_libs ev) (ie_codec ev) mo base s nsr disk = (Inr cx, s') \<longrightarrow>
        seg_inv (ie_codec ev) (cx_segments cx))"

definition endpoints_ok :: "('h, 'f) ienv \<Rightarrow> ('h, 'f) ingest \<Rightarrow> wal_op \<Rightarrow> ('h, 'f) endpoints \<Rightarrow> bool" where
  "endpoints_ok ev st p eps \<longleftrightarrow> replica_codec (ie_codec ev) p \<and> opens_well ev (ig_disk st) \<and>
     (\<forall>k s cx. dict_get eps k = Some (s, cx) \<longrightarrow> seg_inv (ie_codec ev) (cx_segments cx))"

lemma opens_wellD:
  "opens_well ev disk \<Longrightarrow> open_ctx (ie_libs ev) (ie_codec ev) mo base s nsr disk = (Inr cx, s') \<Longrightarrow>
     seg_inv (ie_codec ev) (cx_segments cx)"
  unfolding opens_well_def by blast

lemma opens_well_empty: "opens_well ev no_files"
  unfolding opens_well_def no_files_def
  by (auto dest: open_ctx_new simp: replica_log_def ctx_log_def)

lemma store_record_keeps:
  assumes "store_record lb cd mo r cx = (x, cx')" "seg_inv cd (cx_segments cx)" "line_codec cd r"
  shows "seg_inv cd (cx_segments cx')" "already_applied cd r cx'"
    and "ctx_view cd cx' (vr_id r) = Some r"
proof -
  let ?sg = "(cx_segments cx)\<lparr>sg_memtable := mem_put r (sg_memtable (cx_segments cx))\<rparr>"
  note m = put_memtable [OF assms(2,3)]
  show inv: "seg_inv cd (cx_segments cx')"
    using m(1) flush_inv [OF m(1)] by (simp add: store_record_fields(1) [OF assms(1)] seg_put_def Let_def)
  have "seg_view cd (snd (seg_flush cd ts pid ?sg)) (vr_id r) = Some r" for ts pid
  proof -
    let ?f = "snd (seg_flush cd ts pid ?sg)" and ?p = "(Hot, sst_name ts pid)"
    have ne: "sg_memtable ?sg \<noteq> []"
      using memtable.get_put_same [of r "sg_memtable (cx_segments cx)"] by (auto simp: mem_get_def)
    have k: "keyed_dict vr_id (sg_memtable ?sg)" using m(1) by (simp add: seg_inv_def)
    have "find (\<lambda>x. vr_id x = vr_id r) (dict_values (sg_memtable ?sg)) = map_of (sg_memtable ?sg) (vr_id r)"
      using find_newest [of "dict_values (sg_memtable ?sg)" "vr_id r"] keyed_dict_pairs [OF k] k
        distinct_ids [OF k] by (simp add: keyed_dict_def map_of_rev_ok)
    also have "\<dots> = Some r" using memtable.get_put_same [of r "sg_memtable (cx_segments cx)"]
      by (simp add: mem_get_def)
    finally have f: "find (\<lambda>x. vr_id x = vr_id r) (dict_values (sg_memtable ?sg)) = Some r" .
    have ps: "sg_sstables ?f = sg_sstables ?sg @ [?p]" "sg_memtable ?f = []"
      using ne by (simp_all add: flush_simps)
    have "seg_get cd ?f (vr_id r) = Inr (Some r)"
      using flush_scan [OF m(1) ne, of ts pid ?p] f
      by (simp add: seg_get_def mem_get_def ps)
    then show ?thesis using seg_get_view [OF flush_inv [OF m(1)], of ts pid "vr_id r"] by simp
  qed
  then have v: "seg_view cd (cx_segments cx') (vr_id r) = Some r"
    using m(2) by (simp add: store_record_fields(1) [OF assms(1)] seg_put_def Let_def)
  then show "already_applied cd r cx'" by (simp add: already_applied_def same_stamp_def)
  show "ctx_view cd cx' (vr_id r) = Some r"
    using v by (simp add: ctx_view_def store_record_fields(2) [OF assms(1)])
qed

lemma replica_apply_keeps:
  assumes "replica_apply lb cd mo p (s, cx) = (x, s', cx')" "seg_inv cd (cx_segments cx)" "replica_codec cd p"
  shows "seg_inv cd (cx_segments cx') \<and> (x = Inr () \<longrightarrow> op_taken cd p cx')"
proof (cases p)
  case (Upsert r)
  show ?thesis
  proof (cases "already_applied cd r cx")
    case True
    with upsert_skipped [OF assms(2) assms(3) [unfolded Upsert] True] assms(1,2) Upsert show ?thesis
      by (simp add: op_taken_def)
  next
    case False
    obtain y cx1 where st: "store_record lb cd mo r cx = (y, cx1)" by fastforce
    have lc: "line_codec cd r" using assms(3) Upsert by simp
    note k = store_record_keeps [OF st assms(2) lc]
    have "(x, s', cx') = (case y of Inl e \<Rightarrow> (Inl e, s, cx1)
        | Inr _ \<Rightarrow> (case flush_ctx cx1 of (x, cx2) \<Rightarrow> (x, count_vector s, cx2)))"
      using assms payload_record_upsert [of cd r] False st Upsert
      by (simp add: apply_replicated_upsert_def seg_get_view already_applied_def del: replica_codec.simps
          split: option.splits)
    then show ?thesis
      using k flush_ctx_frame(1) [of cx1 x cx']
      by (auto simp: op_taken_def Upsert already_applied_def split: sum.splits prod.splits)
  qed
next
  case (Delete i)
  with delete_view [OF assms(2) assms(3) [unfolded Delete] assms(1) [unfolded Delete]] show ?thesis
    by (simp add: op_taken_def)
qed

lemma get_endpoint_cases:
  assumes "get_endpoint ev st mo ns sid n eps = (x, eps1)" "endpoints_ok ev st p eps"
  shows "endpoints_ok ev st p eps1 \<and>
    (\<forall>ep. x = Inr ep \<longrightarrow> dict_get eps1 (endpoint_key ns sid n) = Some ep) \<and>
    (\<forall>k. k \<noteq> endpoint_key ns sid n \<longrightarrow> dict_get eps1 k = dict_get eps k)"
  using assms
  by (auto simp: get_endpoint_def endpoints_ok_def store_simps intro: opens_wellD
      split: option.splits prod.splits sum.splits if_splits)

lemma endpoint_key_inj: "endpoint_key ns sid m = endpoint_key ns sid n \<longleftrightarrow> m = n"
  by (simp add: endpoint_key_def)

lemma endpoint_attempt_effect:
  assumes "endpoint_attempt ev st mos ns sid p j n eps = (x, eps')" "endpoints_ok ev st p eps"
  shows "endpoints_ok ev st p eps' \<and> (x = Inr () \<longrightarrow> node_holds ev ns sid p n eps') \<and>
    (\<forall>k. k \<noteq> endpoint_key ns sid n \<longrightarrow> dict_get eps' k = dict_get eps k)"
proof -
  obtain y eps1 where g: "get_endpoint ev st (mos (Suc j)) ns sid n eps = (y, eps1)" by fastforce
  note e = get_endpoint_cases [OF g assms(2)]
  show ?thesis
  proof (cases y)
    case (Inl er)
    with assms(1) g e show ?thesis by (auto simp: endpoint_attempt_def)
  next
    case (Inr ep)
    obtain s cx where ep: "ep = (s, cx)" by (cases ep)
    obtain z s1 cx1 where a: "replica_apply (ie_libs ev) (ie_codec ev) (mos (Suc j)) p (s, cx) = (z, s1, cx1)"
      by (metis prod_cases3)
    have res: "x = z" "eps' = dict_put (endpoint_key ns sid n) (s1, cx1) eps1"
      using assms(1) g Inr ep a by (simp_all add: endpoint_attempt_def)
    have at: "dict_get eps1 (endpoint_key ns sid n) = Some (s, cx)" using e Inr ep by blast
    then have inv: "seg_inv (ie_codec ev) (cx_segments cx)" "replica_codec (ie_codec ev) p"
      using e by (auto simp: endpoints_ok_def)
    note k = replica_apply_keeps [OF a inv]
    have "endpoints_ok ev st p eps'"
      using e k by (auto simp: endpoints_ok_def res store_simps)
    moreover have "x = Inr () \<longrightarrow> node_holds ev ns sid p n eps'"
      using k by (simp add: node_holds_def res store_simps)
    ultimately show ?thesis using e by (simp add: res store_simps)
  qed
qed

interpretation service: replica_endpoints "endpoint_attempt ev st mos ns sid p"
    "node_holds ev ns sid p" "endpoints_ok ev st p" for ev st mos ns sid p
proof unfold_locales
  fix w w' :: "('a, 'b) endpoints" and j n u m x
  assume inv: "endpoints_ok ev st p w"
  show "endpoint_attempt ev st mos ns sid p j n w = (Inr u, w') \<Longrightarrow> node_holds ev ns sid p n w'"
    using endpoint_attempt_effect [OF _ inv] by auto
  show "endpoint_attempt ev st mos ns sid p j n w = (x, w') \<Longrightarrow> m \<noteq> n \<Longrightarrow>
      node_holds ev ns sid p m w' = node_holds ev ns sid p m w"
    using endpoint_attempt_effect [OF _ inv, of mos ns sid j n x w']
    by (simp add: node_holds_def endpoint_key_inj)
  show "endpoint_attempt ev st mos ns sid p j n w = (x, w') \<Longrightarrow> endpoints_ok ev st p w'"
    using endpoint_attempt_effect [OF _ inv] by blast
qed

lemma replicate_acknowledged:
  assumes "replicate ev mos ns s required p st = (res, st')" "endpoints_ok ev st p (ig_endpoints st)"
    and "distinct (sh_replicas s)"
  shows "endpoints_ok ev st p (ig_endpoints st') \<and>
    (\<forall>n \<in> set (rs_acknowledged res). node_holds ev ns (sh_id s) p n (ig_endpoints st'))"
proof -
  obtain tp eps where d: "deliver (endpoint_attempt ev st mos ns (sh_id s) p) (\<lambda>j. mo_time (mos (Suc j)))
      ns s required (ig_transport st, ig_endpoints st) = (res, tp, eps)" "ig_endpoints st' = eps"
    using assms(1) by (auto simp: replicate_def split: prod.splits)
  from service.acknowledged_hold [OF d(1) assms(2,3)] d(2) show ?thesis by blast
qed

lemma replicate_frame:
  assumes "replicate ev mos ns s required p st = (res, st')"
  shows "ig_router st' = ig_router st" "ig_shards st' = ig_shards st" "ig_namespaces st' = ig_namespaces st"
    "ig_disk st' = ig_disk st" "ig_stats st' = ig_stats st" "ig_idempotency st' = ig_idempotency st"
    "ig_node_id st' = ig_node_id st" "ig_base st' = ig_base st"
  using assms by (auto simp: replicate_def split: prod.splits)

subsection \<open>The primary\<close>

definition counts_only :: "('h, 'f) ingest \<Rightarrow> ('h, 'f) ingest \<Rightarrow> bool" where
  "counts_only st st' \<longleftrightarrow>
     (\<forall>q. heap_shard st' q = (heap_shard st q)\<lparr>sh_vector_count := sh_vector_count (heap_shard st' q)\<rparr>)"

lemma counts_only_refl [simp]: "counts_only st st"
  by (simp add: counts_only_def)

lemma counts_only_trans: "counts_only st st' \<Longrightarrow> counts_only st' st'' \<Longrightarrow> counts_only st st''"
proof -
  assume a: "counts_only st st'" "counts_only st' st''"
  have "heap_shard st'' q = (heap_shard st q)\<lparr>sh_vector_count := sh_vector_count (heap_shard st'' q)\<rparr>" for q
  proof -
    have "heap_shard st'' q = (heap_shard st' q)\<lparr>sh_vector_count := sh_vector_count (heap_shard st'' q)\<rparr>"
      "heap_shard st' q = (heap_shard st q)\<lparr>sh_vector_count := sh_vector_count (heap_shard st' q)\<rparr>"
      using a by (simp_all add: counts_only_def)
    then show ?thesis by (metis shard.surjective shard.update_convs(5))
  qed
  then show ?thesis by (simp add: counts_only_def)
qed

lemma counts_only_fields:
  assumes "counts_only st st'"
  shows "sh_id (heap_shard st' q) = sh_id (heap_shard st q)"
    "sh_replicas (heap_shard st' q) = sh_replicas (heap_shard st q)"
    "sh_state (heap_shard st' q) = sh_state (heap_shard st q)"
    "sh_node_id (heap_shard st' q) = sh_node_id (heap_shard st q)"
proof -
  have "heap_shard st' q = (heap_shard st q)\<lparr>sh_vector_count := sh_vector_count (heap_shard st' q)\<rparr>"
    using assms by (simp add: counts_only_def)
  then show "sh_id (heap_shard st' q) = sh_id (heap_shard st q)"
    "sh_replicas (heap_shard st' q) = sh_replicas (heap_shard st q)"
    "sh_state (heap_shard st' q) = sh_state (heap_shard st q)"
    "sh_node_id (heap_shard st' q) = sh_node_id (heap_shard st q)"
    by (metis shard.select_convs shard.surjective shard.update_convs(5))+
qed

lemma heap_shard_set [simp]: "heap_shard (set_shard r s st) q = (if q = r then s else heap_shard st q)"
  by (simp add: heap_shard_def set_shard_def assign_def)

lemma set_shard_frame [simp]:
  "ig_shards (set_shard r s st) = ig_shards st" "ig_namespaces (set_shard r s st) = ig_namespaces st"
  "ig_disk (set_shard r s st) = ig_disk st" "ig_endpoints (set_shard r s st) = ig_endpoints st"
  "ig_transport (set_shard r s st) = ig_transport st" "ig_stats (set_shard r s st) = ig_stats st"
  "ig_idempotency (set_shard r s st) = ig_idempotency st"
  by (simp_all add: set_shard_def)

lemma heap_shard_frame [simp]:
  "heap_shard (st\<lparr>ig_shards := d\<rparr>) q = heap_shard st q"
  "heap_shard (st\<lparr>ig_stats := t\<rparr>) q = heap_shard st q"
  "heap_shard (st\<lparr>ig_idempotency := u\<rparr>) q = heap_shard st q"
  by (simp_all add: heap_shard_def)

definition service_ok :: "('h, 'f) ienv \<Rightarrow> ('h, 'f) ingest \<Rightarrow> bool" where
  "service_ok ev st \<longleftrightarrow> opens_well ev (ig_disk st) \<and>
     (\<forall>k s cx. dict_get (ig_endpoints st) k = Some (s, cx) \<longrightarrow> seg_inv (ie_codec ev) (cx_segments cx)) \<and>
     (\<forall>k r cx. dict_get (ig_shards st) k = Some (r, cx) \<longrightarrow> seg_inv (ie_codec ev) (cx_segments cx))"

lemma load_records_shard:
  "load_records lb rs (ix, l, s) = (x, ix', l', s') \<Longrightarrow> s' = s\<lparr>sh_vector_count := sh_vector_count s'\<rparr>"
proof (induction rs arbitrary: ix l s)
  case (Cons r rs)
  then show ?case
    by (auto simp: count_vector_def split: prod.splits sum.splits dest!: Cons.IH)
qed simp

lemma open_ctx_shard:
  "open_ctx lb cd mo base s nsr fs = (x, s') \<Longrightarrow> s' = s\<lparr>sh_vector_count := sh_vector_count s'\<rparr>"
  by (auto simp: open_ctx_def split: sum.splits prod.splits dest: load_records_shard)

lemma get_or_create_effect:
  assumes "get_or_create_ctx ev mo ns r st = (x, st1)" "service_ok ev st"
  shows "service_ok ev st1 \<and> counts_only st st1 \<and> ig_endpoints st1 = ig_endpoints st \<and>
    ig_namespaces st1 = ig_namespaces st \<and> ig_disk st1 = ig_disk st \<and>
    (\<forall>k. k \<noteq> ctx_key ns (sh_id (heap_shard st r)) \<or> dict_get (ig_shards st) k \<noteq> None \<longrightarrow>
       dict_get (ig_shards st1) k = dict_get (ig_shards st) k) \<and>
    (\<forall>key. x = Inr key \<longrightarrow> key = ctx_key ns (sh_id (heap_shard st r)) \<and> dict_get (ig_shards st1) key \<noteq> None)"
proof (cases "dict_get (ig_shards st) (ctx_key ns (sh_id (heap_shard st r)))")
  case (Some rc)
  with assms show ?thesis by (auto simp: get_or_create_ctx_def Let_def)
next
  case None
  show ?thesis
  proof (cases "dict_get (ig_namespaces st) ns")
    case None': None
    with None assms show ?thesis by (auto simp: get_or_create_ctx_def Let_def)
  next
    case (Some nsr)
    obtain y s1 where o: "open_ctx (ie_libs ev) (ie_codec ev) mo (ig_base st) (heap_shard st r) nsr (ig_disk st) = (y, s1)"
      by fastforce
    have c: "counts_only st (set_shard r s1 st)"
      using open_ctx_shard [OF o] by (auto simp: counts_only_def)
    show ?thesis
    proof (cases y)
      case (Inl e)
      with None Some assms o c show ?thesis
        by (auto simp: get_or_create_ctx_def Let_def service_ok_def)
    next
      case (Inr cx)
      have "seg_inv (ie_codec ev) (cx_segments cx)"
        using assms(2) o Inr by (auto simp: service_ok_def intro: opens_wellD)
      with None Some assms o c Inr show ?thesis
        by (auto simp: get_or_create_ctx_def Let_def service_ok_def store_simps counts_only_def
            split: if_splits)
    qed
  qed
qed

lemma store_primary_effect:
  assumes "store_primary ev mo rec r key st = (x, st1)" "service_ok ev st" "replica_codec (ie_codec ev) (Upsert rec)"
  shows "service_ok ev st1 \<and> counts_only st st1 \<and> ig_endpoints st1 = ig_endpoints st \<and>
    ig_disk st1 = ig_disk st \<and> (\<forall>k. k \<noteq> key \<longrightarrow> dict_get (ig_shards st1) k = dict_get (ig_shards st) k) \<and>
    (x = Inr () \<longrightarrow> (\<exists>r1 cx cx1. dict_get (ig_shards st) key = Some (r1, cx) \<and>
       store_record (ie_libs ev) (ie_codec ev) mo rec cx = (Inr (), cx1) \<and>
       dict_get (ig_shards st1) key = Some (r1, cx1)))"
proof (cases "dict_get (ig_shards st) key")
  case None
  with assms show ?thesis by (auto simp: store_primary_def)
next
  case (Some rc)
  obtain r1 cx where rc: "rc = (r1, cx)" by (cases rc)
  obtain y cx1 where sr: "store_record (ie_libs ev) (ie_codec ev) mo rec cx = (y, cx1)" by fastforce
  have "seg_inv (ie_codec ev) (cx_segments cx)" using assms(2) Some rc by (auto simp: service_ok_def)
  from store_record_keeps(1) [OF sr this] assms(3)
  have inv: "seg_inv (ie_codec ev) (cx_segments cx1)" by simp
  show ?thesis
  proof (cases y)
    case (Inl e)
    with assms Some rc sr inv show ?thesis
      by (auto simp: store_primary_def service_ok_def store_simps counts_only_def split: if_splits)
  next
    case (Inr u)
    with assms Some rc sr inv show ?thesis
      by (auto simp: store_primary_def service_ok_def store_simps counts_only_def Let_def count_vector_def
          split: if_splits)
  qed
qed

lemma service_ok_endpoints:
  "service_ok ev st \<Longrightarrow> replica_codec (ie_codec ev) p \<Longrightarrow> endpoints_ok ev st p (ig_endpoints st)"
  by (auto simp: service_ok_def endpoints_ok_def)

lemma replicate_keeps:
  assumes "replicate ev mos ns s required p st = (res, st')" "service_ok ev st"
    "replica_codec (ie_codec ev) p" "distinct (sh_replicas s)"
  shows "service_ok ev st' \<and> counts_only st st' \<and>
    (\<forall>n \<in> set (rs_acknowledged res). node_holds ev ns (sh_id s) p n (ig_endpoints st'))"
  using replicate_acknowledged [OF assms(1) service_ok_endpoints [OF assms(2,3)] assms(4)]
    replicate_frame [OF assms(1)] assms(2)
  by (auto simp: service_ok_def endpoints_ok_def counts_only_def heap_shard_def)

lemma service_ok_router [simp]: "service_ok ev (st\<lparr>ig_router := rt\<rparr>) = service_ok ev st"
  "service_ok ev (st\<lparr>ig_stats := t\<rparr>) = service_ok ev st"
  by (simp_all add: service_ok_def)

lemma route_write_heap:
  "route_write sha hash now ns rid l rt = (x, rt') \<Longrightarrow> r_etcd rt' = r_etcd rt"
  by (auto simp: route_write_def Let_def dest!: select_frame split: prod.splits sum.splits option.splits if_splits)

text \<open>The body of the loop on success, step by step.\<close>

lemma upsert_one_steps:
  assumes "upsert_one ev mos fresh kids ns nsr raw a = (Inr i, a')"
  obtains rec r rt st1 st2 st3 res y rt4 where
    "raw_record ev (mo_time (mos 0)) fresh ns nsr raw = Inr rec" "i = vr_id rec"
    "route_write (ie_sha ev) (ie_hash ev) (mo_time (mos 0)) ns i (ig_node_id (ua_service a))
       (ig_router (ua_service a)) = (Inr r, rt)"
    "get_or_create_ctx ev (mos 0) ns r ((ua_service a)\<lparr>ig_router := rt\<rparr>) = (Inr y, st1)"
    "store_primary ev (mos 0) rec r y st1 = (Inr (), st2)"
    "replicate ev mos ns (heap_shard st2 r) (ns_required_acks nsr) (Upsert rec) st2 = (res, st3)"
    "ua_service a' = st3\<lparr>ig_stats := record_replication_stats ns (sh_id (heap_shard st2 r)) res (ig_stats st3),
       ig_router := rt4\<rparr>"
    "ua_touched a' = add_key y (ua_touched a)" "ua_results a' = ua_results a @ [res]"
    "ua_upserted a' = ua_upserted a @ [i]" "ua_errors a' = ua_errors a"
    "\<exists>v. maybe_split (fst kids) (mo_time (mos 0)) (snd kids) (mo_time (mos 0)) r None
       (ig_router st3) = (v, rt4)"
proof -
  obtain rec where rec: "raw_record ev (mo_time (mos 0)) fresh ns nsr raw = Inr rec"
    using assms by (auto simp: upsert_one_def Let_def split: sum.splits)
  obtain x rt where rw: "route_write (ie_sha ev) (ie_hash ev) (mo_time (mos 0)) ns (vr_id rec)
      (ig_node_id (ua_service a)) (ig_router (ua_service a)) = (x, rt)" by fastforce
  then obtain r where r: "x = Inr r" using assms rec by (cases x) (auto simp: upsert_one_def Let_def)
  obtain z st1 where gc: "get_or_create_ctx ev (mos 0) ns r ((ua_service a)\<lparr>ig_router := rt\<rparr>) = (z, st1)" by fastforce
  then obtain y where y: "z = Inr y" using assms rec rw r by (cases z) (auto simp: upsert_one_def Let_def)
  obtain u st2 where sp: "store_primary ev (mos 0) rec r y st1 = (u, st2)" by fastforce
  then have u: "u = Inr ()" using assms rec rw r gc y by (cases u) (auto simp: upsert_one_def Let_def)
  obtain res st3 where rp: "replicate ev mos ns (heap_shard st2 r) (ns_required_acks nsr) (Upsert rec) st2 = (res, st3)"
    by fastforce
  obtain v rt4 where ms: "maybe_split (fst kids) (mo_time (mos 0)) (snd kids) (mo_time (mos 0)) r None
      (ig_router st3) = (v, rt4)" by fastforce
  with assms rec rw r gc y sp u rp obtain v1 where "v = Inr v1"
    by (cases v) (auto simp: upsert_one_def Let_def)
  then show ?thesis
    using assms that [OF rec _ _ gc [unfolded y] sp [unfolded u] rp] rec rw r gc y sp u rp ms
    by (auto simp: upsert_one_def Let_def)
qed


subsection \<open>A whole request\<close>

text \<open>What every turn of the loop keeps, accepted or not.\<close>

definition touched_open :: "('h, 'f) upsert_acc \<Rightarrow> bool" where
  "touched_open a \<longleftrightarrow> (\<forall>key \<in> set (ua_touched a). dict_get (ig_shards (ua_service a)) key \<noteq> None)"

definition decided :: "int \<Rightarrow> replication_result list \<Rightarrow> bool" where
  "decided required results \<longleftrightarrow>
     (\<forall>res \<in> set results. rs_success res = (1 + int (length (rs_acknowledged res)) \<ge> required))"

lemma get_or_create_dom:
  "get_or_create_ctx ev mo ns r st = (x, st1) \<Longrightarrow>
     (dict_get (ig_shards st) k \<noteq> None \<longrightarrow> dict_get (ig_shards st1) k \<noteq> None) \<and>
     (x = Inr k \<longrightarrow> dict_get (ig_shards st1) k \<noteq> None)"
  by (auto simp: get_or_create_ctx_def Let_def store_simps split: option.splits prod.splits sum.splits)

lemma store_primary_dom:
  "store_primary ev mo rec r key st = (x, st1) \<Longrightarrow>
     dict_get (ig_shards st) k \<noteq> None \<Longrightarrow> dict_get (ig_shards st1) k \<noteq> None"
  by (auto simp: store_primary_def Let_def store_simps split: option.splits prod.splits sum.splits)

lemma replicate_decided:
  "replicate ev mos ns s required p st = (res, st') \<Longrightarrow>
     rs_success res = (1 + int (length (rs_acknowledged res)) \<ge> required)"
  by (auto simp: replicate_def split: prod.splits dest: deliver_tracks)

lemma upsert_one_keeps:
  assumes "upsert_one ev mos fresh kids ns nsr raw a = (x, a')"
    and "touched_open a" "decided (ns_required_acks nsr) (ua_results a)"
  shows "touched_open a' \<and> decided (ns_required_acks nsr) (ua_results a') \<and> ua_errors a' = ua_errors a \<and>
    ua_upserted a' = ua_upserted a @ (case x of Inl e \<Rightarrow> [] | Inr i \<Rightarrow> [i])"
proof -
  let ?now = "mo_time (mos 0)"
  obtain x1 where x1: "raw_record ev ?now fresh ns nsr raw = x1" by simp
  show ?thesis
  proof (cases x1)
    case (Inl e)
    with x1 assms show ?thesis by (auto simp: upsert_one_def Let_def)
  next
    case (Inr rec)
    note rec = x1 [unfolded Inr]
    obtain x2 rt where rw: "route_write (ie_sha ev) (ie_hash ev) ?now ns (vr_id rec)
        (ig_node_id (ua_service a)) (ig_router (ua_service a)) = (x2, rt)" by fastforce
    show ?thesis
    proof (cases x2)
      case (Inl e)
      with rec rw assms show ?thesis by (auto simp: upsert_one_def Let_def touched_open_def)
    next
      case (Inr r)
      note rw = rw [unfolded Inr]
      obtain x3 st1 where gc: "get_or_create_ctx ev (mos 0) ns r ((ua_service a)\<lparr>ig_router := rt\<rparr>) = (x3, st1)"
        by fastforce
      note d1 = get_or_create_dom [OF gc, simplified]
      show ?thesis
      proof (cases x3)
        case (Inl e)
        with rec rw gc d1 assms show ?thesis by (auto simp: upsert_one_def Let_def touched_open_def)
      next
        case (Inr key)
        note gc = gc [unfolded Inr]
        obtain x4 st2 where sp: "store_primary ev (mos 0) rec r key st1 = (x4, st2)" by fastforce
        have t2: "\<forall>k \<in> set (add_key key (ua_touched a)). dict_get (ig_shards st2) k \<noteq> None"
          using store_primary_dom [OF sp] d1 Inr assms(2) by (auto simp: touched_open_def add_key_def)
        show ?thesis
        proof (cases x4)
          case (Inl e)
          with rec rw gc sp t2 assms show ?thesis by (auto simp: upsert_one_def Let_def touched_open_def)
        next
          case (Inr u)
          note sp = sp [unfolded Inr]
          obtain res st3 where rp: "replicate ev mos ns (heap_shard st2 r) (ns_required_acks nsr) (Upsert rec) st2 = (res, st3)"
            by fastforce
          obtain x5 rt4 where ms: "maybe_split (fst kids) ?now (snd kids) ?now r None (ig_router st3) = (x5, rt4)"
            by fastforce
          have "\<forall>k \<in> set (add_key key (ua_touched a)). dict_get (ig_shards st3) k \<noteq> None"
            using t2 replicate_frame(2) [OF rp] by simp
          moreover have "decided (ns_required_acks nsr) (ua_results a @ [res])"
            using assms(3) replicate_decided [OF rp] by (simp add: decided_def)
          ultimately show ?thesis
            using rec rw gc sp rp ms assms(1)
            by (cases x5) (auto simp: upsert_one_def Let_def touched_open_def)
        qed
      qed
    qed
  qed
qed

lemma upsert_loop_keeps:
  assumes "touched_open a" "decided (ns_required_acks nsr) (ua_results a)"
    and "a' = upsert_loop ev clk ids ns nsr k raws a"
  shows "touched_open a' \<and> decided (ns_required_acks nsr) (ua_results a') \<and>
    length (ua_upserted a') + length (ua_errors a') = length (ua_upserted a) + length (ua_errors a) + length raws"
  using assms
proof (induction raws arbitrary: a k)
  case (Cons raw raws)
  obtain x a1 where o1: "upsert_one ev (clk k) (fst (ids k)) (snd (ids k)) ns nsr raw a = (x, a1)" by fastforce
  let ?c = "upsert_caught ev (clk k) (fst (ids k)) (snd (ids k)) ns nsr raw a"
  have c: "touched_open ?c" "decided (ns_required_acks nsr) (ua_results ?c)"
    "length (ua_upserted ?c) + length (ua_errors ?c) = Suc (length (ua_upserted a) + length (ua_errors a))"
    using upsert_one_keeps [OF o1 Cons.prems(1,2)] o1
    by (auto simp: upsert_caught_def touched_open_def split: sum.splits)
  from Cons.IH [OF c(1,2)] Cons.prems(3) c(3) show ?case by simp
qed simp

definition flushed :: "('h, 'f) ingest \<Rightarrow> string \<Rightarrow> bool" where
  "flushed st key \<longleftrightarrow> (\<exists>r cx. dict_get (ig_shards st) key = Some (r, cx) \<and> wl_buffer (cx_wal cx) = [])"

lemma flush_touched_flushed:
  assumes "flush_touched keys st = (Inr u, st')"
  shows "(\<forall>key \<in> set keys. dict_get (ig_shards st) key \<noteq> None \<longrightarrow> flushed st' key) \<and>
    (\<forall>key. flushed st key \<longrightarrow> flushed st' key) \<and>
    (\<forall>key. dict_get (ig_shards st) key \<noteq> None \<longrightarrow> dict_get (ig_shards st') key \<noteq> None)"
  using assms
proof (induction keys arbitrary: st)
  case (Cons key keys)
  show ?case
  proof (cases "dict_get (ig_shards st) key")
    case None
    with Cons show ?thesis by (auto simp: flushed_def)
  next
    case (Some rc)
    obtain r cx where rc: "rc = (r, cx)" by (cases rc)
    obtain x cx1 where f: "flush_ctx cx = (x, cx1)" by fastforce
    with Cons.prems Some rc obtain v where x: "x = Inr v" by (cases x) auto
    let ?st = "st\<lparr>ig_shards := dict_put key (r, cx1) (ig_shards st)\<rparr>"
    have run: "flush_touched keys ?st = (Inr u, st')" using Cons.prems Some rc f x by simp
    have b: "wl_buffer (cx_wal cx1) = []" using flush_ctx_fields [OF f] wal_flush_buffer by blast
    have k: "flushed ?st key" using b by (simp add: flushed_def store_simps)
    have m: "flushed st k \<Longrightarrow> flushed ?st k" "dict_get (ig_shards st) k \<noteq> None \<Longrightarrow> dict_get (ig_shards ?st) k \<noteq> None" for k
      using b by (auto simp: flushed_def store_simps)
    from Cons.IH [OF run] k m show ?thesis by (metis set_ConsD)
  qed
qed simp

lemma background_flushed: "flushed (background cd mos keys st) key = flushed st key"
proof -
  have step: "flushed (case dict_get (ig_shards st) k of None \<Rightarrow> st
      | Some (r, cx) \<Rightarrow> st\<lparr>ig_shards := dict_put k (r, background_one cd (mos j) cx) (ig_shards st)\<rparr>) key = flushed st key"
    for st :: "('a, 'b) ingest" and j k
    by (auto simp: flushed_def store_simps background_one_def Let_def split: option.splits)
  have "flushed (fold (\<lambda>(j, key) st. case dict_get (ig_shards st) key of None \<Rightarrow> st
       | Some (r, cx) \<Rightarrow> st\<lparr>ig_shards := dict_put key (r, background_one cd (mos j) cx) (ig_shards st)\<rparr>) jks st) key
     = flushed st key" for jks :: "(nat \<times> string) list"
  proof (induction jks arbitrary: st)
    case (Cons jk jks)
    then show ?case using step by (cases jk) simp
  qed simp
  then show ?thesis by (simp add: background_def)
qed

definition start_acc :: "('h, 'f) ingest \<Rightarrow> ('h, 'f) upsert_acc" where
  "start_acc st = \<lparr>ua_service = st, ua_touched = [], ua_results = [], ua_upserted = [], ua_errors = []\<rparr>"

text \<open>
  C13: the answer to an upsert request is honest. A request that is answered (and was not answered from
  the idempotency table) held at most ten thousand records, each of which is reported either as
  upserted or as an error; it claims replicated success only if there were no errors, there was a
  record, and every record reached the required number of acknowledgements, the primary's included;
  the log of every shard it touched is flushed when it answers; and repeating it with the same
  idempotency key returns the same answer and changes nothing.
\<close>

theorem upsert_answer_honest:
  assumes "upsert ev clk ids took ns raws idem st = (Inr res, st')"
    and "\<And>key. idem = Some key \<Longrightarrow> key \<noteq> [] \<and> dict_get (ig_idempotency st) key = None"
    and "dict_get (ig_namespaces st) ns = Some nsr"
    and "a = upsert_loop ev clk ids ns nsr 0 raws (start_acc st)"
  shows "length raws \<le> 10000 \<and> ur_upserted res = length (ur_ids res) \<and>
    ur_upserted res + length (ur_errors res) = length raws \<and>
    (su_success (ur_replication res) \<longrightarrow> ur_errors res = [] \<and> raws \<noteq> [] \<and>
       (\<forall>r \<in> set (ua_results a). 1 + int (length (rs_acknowledged r)) \<ge> ns_required_acks nsr)) \<and>
    (\<forall>key \<in> set (ua_touched a). flushed st' key) \<and>
    (idem \<noteq> None \<longrightarrow> (\<forall>clk2 ids2 took2 raws2. upsert ev clk2 ids2 took2 ns raws2 idem st' = (Inr res, st')))"
proof -
  have new: "(case idem of None \<Rightarrow> None | Some key \<Rightarrow> if key = [] then None else dict_get (ig_idempotency st) key) = None"
    using assms(2) by (cases idem) auto
  have len: "length raws \<le> 10000"
    using assms(1,3) new by (auto simp: upsert_def split: if_splits)
  have start: "touched_open (start_acc st)" "decided (ns_required_acks nsr) (ua_results (start_acc st))"
    by (simp_all add: touched_open_def decided_def start_acc_def)
  note k = upsert_loop_keeps [OF start assms(4)]
  obtain x st1 where f: "flush_touched (ua_touched a) (ua_service a) = (x, st1)" by fastforce
  have a': "upsert_loop ev clk ids ns nsr 0 raws
      \<lparr>ua_service = st, ua_touched = [], ua_results = [], ua_upserted = [], ua_errors = []\<rparr> = a"
    by (simp add: assms(4) start_acc_def)
  from assms(1,3) new len f obtain u where x: "x = Inr u"
    by (cases x) (auto simp: upsert_def Let_def a')
  let ?bg = "background (ie_codec ev) (clk (length raws)) (ua_touched a) st1"
  let ?su = "aggregate_replication (ua_results a) (ns_required_acks nsr)"
  have res: "ur_upserted res = length (ua_upserted a)" "ur_ids res = ua_upserted a" "ur_errors res = ua_errors a"
    "ur_replication res = (if ua_errors a \<noteq> [] then ?su\<lparr>su_success := False\<rparr> else ?su)"
    and st': "st' = (case idem of None \<Rightarrow> ?bg
        | Some key \<Rightarrow> if key = [] then ?bg else ?bg\<lparr>ig_idempotency := dict_put key res (ig_idempotency ?bg)\<rparr>)"
    using assms(1,3) new len f x by (auto simp: upsert_def Let_def a')
  have fl: "\<forall>key \<in> set (ua_touched a). flushed st1 key"
    using flush_touched_flushed [OF f [unfolded x]] k by (simp add: touched_open_def)
  have "flushed st' key = flushed ?bg key" for key
    by (simp add: st' flushed_def split: option.splits)
  then have flushed: "\<forall>key \<in> set (ua_touched a). flushed st' key"
    using fl by (simp add: background_flushed)
  have count: "ur_upserted res + length (ur_errors res) = length raws" "ur_upserted res = length (ur_ids res)"
    using k by (simp_all add: res start_acc_def)
  have succ: "su_success (ur_replication res) \<longrightarrow> ur_errors res = [] \<and> raws \<noteq> [] \<and>
       (\<forall>r \<in> set (ua_results a). 1 + int (length (rs_acknowledged r)) \<ge> ns_required_acks nsr)"
  proof
    assume s: "su_success (ur_replication res)"
    then have e: "ua_errors a = []" "su_success ?su" by (auto simp: res(4) split: if_splits)
    then have "ua_results a \<noteq> []" "\<forall>r \<in> set (ua_results a). rs_success r"
      by (auto simp: aggregate_replication_def list_all_iff)
    moreover have "raws \<noteq> []" using calculation(1) assms(4) by (auto simp: start_acc_def)
    ultimately show "ur_errors res = [] \<and> raws \<noteq> [] \<and>
       (\<forall>r \<in> set (ua_results a). 1 + int (length (rs_acknowledged r)) \<ge> ns_required_acks nsr)"
      using e k by (auto simp: res decided_def)
  qed
  have again: "idem \<noteq> None \<longrightarrow> upsert ev clk2 ids2 took2 ns raws2 idem st' = (Inr res, st')" for clk2 ids2 took2 raws2
    using assms(2) by (auto simp: upsert_def st' store_simps)
  from len count succ flushed again show ?thesis by blast
qed

subsection \<open>Deletions\<close>

definition hidden :: "('h, 'f) ingest \<Rightarrow> string \<Rightarrow> string \<Rightarrow> bool" where
  "hidden st key i \<longleftrightarrow> (\<exists>r cx. dict_get (ig_shards st) key = Some (r, cx) \<and> i \<in> set (cx_tombstones cx))"

lemma get_or_create_counts:
  assumes "get_or_create_ctx ev mo ns r st = (x, st1)"
  shows "counts_only st st1 \<and> (hidden st k i \<longrightarrow> hidden st1 k i) \<and>
    (\<forall>key. x = Inr key \<longrightarrow> key = ctx_key ns (sh_id (heap_shard st r)) \<and> dict_get (ig_shards st1) key \<noteq> None)"
proof -
  have c: "s1 = s\<lparr>sh_vector_count := sh_vector_count s1\<rparr>"
    if "open_ctx lb cd mo base s nsr fs = (y, s1)" for lb :: "('c, 'd) libs" and cd mo base s nsr fs y s1
    using open_ctx_shard that by blast
  show ?thesis
    using assms
    by (auto simp: get_or_create_ctx_def Let_def counts_only_def hidden_def store_simps
        split: option.splits prod.splits sum.splits if_splits dest: c)
qed

lemma tombstones_log [simp]: "cx_tombstones (tombstone lb cd mo b i cx) = List.insert i (cx_tombstones cx)"
  by (simp add: tombstone_def)

lemma delete_id_effect:
  assumes "dict_get (ig_shards (da_service a)) key \<noteq> None"
  shows "let a' = delete_id ev mos b ns nsr r key i a in
    da_deleted a' = da_deleted a + 1 \<and> key \<in> set (da_touched a') \<and> set (da_touched a) \<subseteq> set (da_touched a') \<and>
    hidden (da_service a') key i \<and> (\<forall>k j. hidden (da_service a) k j \<longrightarrow> hidden (da_service a') k j) \<and>
    (\<forall>k. (dict_get (ig_shards (da_service a')) k \<noteq> None) = (dict_get (ig_shards (da_service a)) k \<noteq> None)) \<and>
    counts_only (da_service a) (da_service a')"
proof -
  from assms obtain r1 cx where s: "dict_get (ig_shards (da_service a)) key = Some (r1, cx)" by auto
  let ?st1 = "(da_service a)\<lparr>ig_shards := dict_put key
      (r1, tombstone (ie_libs ev) (ie_codec ev) (mos 0) b i cx) (ig_shards (da_service a))\<rparr>"
  obtain res st2 where rp: "replicate ev mos ns (heap_shard ?st1 r) (ns_required_acks nsr) (Delete i) ?st1 = (res, st2)"
    by fastforce
  note fr = replicate_frame [OF rp]
  show ?thesis
    using s rp fr(1,2)
    by (auto simp: delete_id_def Let_def hidden_def store_simps add_key_def counts_only_def heap_shard_def)
qed

lemma delete_ids_effect:
  assumes "delete_ids ev clk ns nsr r key k is a = (Inr u, k', a')"
    and "dict_get (ig_shards (da_service a)) key \<noteq> None"
  shows "da_deleted a' = da_deleted a + length is \<and> (is \<noteq> [] \<longrightarrow> key \<in> set (da_touched a')) \<and>
    set (da_touched a) \<subseteq> set (da_touched a') \<and>
    (\<forall>i \<in> set is. hidden (da_service a') key i) \<and>
    (\<forall>k j. hidden (da_service a) k j \<longrightarrow> hidden (da_service a') k j) \<and>
    (\<forall>k. (dict_get (ig_shards (da_service a')) k \<noteq> None) = (dict_get (ig_shards (da_service a)) k \<noteq> None)) \<and>
    counts_only (da_service a) (da_service a')"
  using assms
proof (induction "is" arbitrary: k a)
  case (Cons i "is")
  let ?a = "delete_id ev (clk k) True ns nsr r key i a"
  note e = delete_id_effect [OF Cons.prems(2), of ev "clk k" True ns nsr r i, unfolded Let_def]
  have run: "delete_ids ev clk ns nsr r key (Suc k) is ?a = (Inr u, k', a')"
    using Cons.prems(1) by (simp split: sum.splits)
  have ex: "dict_get (ig_shards (da_service ?a)) key \<noteq> None" using e Cons.prems(2) by blast
  from Cons.IH [OF run ex] have f: "da_deleted a' = da_deleted ?a + length is"
    "set (da_touched ?a) \<subseteq> set (da_touched a')" "\<forall>i \<in> set is. hidden (da_service a') key i"
    "\<forall>k j. hidden (da_service ?a) k j \<longrightarrow> hidden (da_service a') k j"
    "\<forall>k. (dict_get (ig_shards (da_service a')) k \<noteq> None) = (dict_get (ig_shards (da_service ?a)) k \<noteq> None)"
    "counts_only (da_service ?a) (da_service a')" by blast+
  from e f(6) have "counts_only (da_service a) (da_service a')" by (blast intro: counts_only_trans)
  with e f(1-5) show ?case by auto
qed simp

lemma delete_loop_effect:
  assumes "delete_loop ev clk ns nsr del f k rs a = (Inr u, a')" "del \<noteq> []"
    and "\<forall>key \<in> set (da_touched a). dict_get (ig_shards (da_service a)) key \<noteq> None"
  shows "da_deleted a' = da_deleted a + length rs * length del \<and>
    set (da_touched a) \<subseteq> set (da_touched a') \<and>
    (\<forall>key \<in> set (da_touched a'). dict_get (ig_shards (da_service a')) key \<noteq> None) \<and>
    (\<forall>k j. hidden (da_service a) k j \<longrightarrow> hidden (da_service a') k j) \<and>
    (\<forall>r \<in> set rs. let key = ctx_key ns (sh_id (heap_shard (da_service a) r)) in
       key \<in> set (da_touched a') \<and> (\<forall>i \<in> set del. hidden (da_service a') key i))"
  using assms
proof (induction rs arbitrary: k a)
  case (Cons r rs)
  obtain x st where gc: "get_or_create_ctx ev (clk k 0) ns r (da_service a) = (x, st)" by fastforce
  then obtain key where x: "x = Inr key" using Cons.prems(1)
    by (cases x) (auto simp: delete_in_shard_def split: prod.splits)
  note g = get_or_create_counts [OF gc] and gd = get_or_create_dom [OF gc]
  have key: "key = ctx_key ns (sh_id (heap_shard (da_service a) r))" "dict_get (ig_shards st) key \<noteq> None"
    using g x by blast+
  let ?a1 = "a\<lparr>da_service := st\<rparr>"
  obtain y k1 a1 where d: "delete_ids ev clk ns nsr r key (Suc k) del ?a1 = (y, k1, a1)" by (metis prod_cases3)
  with Cons.prems(1,2) gc x obtain v where y: "y = Inr v"
    by (cases y) (auto simp: delete_in_shard_def Let_def)
  have run: "delete_loop ev clk ns nsr del f k1 rs a1 = (Inr u, a')"
    using Cons.prems(1,2) gc x d y by (simp add: delete_in_shard_def Let_def)
  have ex: "dict_get (ig_shards (da_service ?a1)) key \<noteq> None" using key(2) by simp
  note e = delete_ids_effect [OF d [unfolded y] ex]
  have dom: "\<forall>key \<in> set (da_touched a1). dict_get (ig_shards (da_service a1)) key \<noteq> None"
  proof -
    have "\<forall>k. dict_get (ig_shards (da_service a)) k \<noteq> None \<longrightarrow> dict_get (ig_shards (da_service a1)) k \<noteq> None"
      using gd e by simp
    moreover have "set (da_touched a1) \<subseteq> insert key (set (da_touched a))"
    proof -
      have "set (da_touched (delete_id ev mos b ns nsr r key i c)) \<subseteq> insert key (set (da_touched c))" for mos b i
        and c :: "('a, 'b) delete_acc"
        by (auto simp: delete_id_def Let_def add_key_def split: option.splits prod.splits)
      then have "delete_ids ev clk ns nsr r key j is c = (z, j', c') \<Longrightarrow>
          set (da_touched c') \<subseteq> insert key (set (da_touched c))" for j "is" z j' c' and c :: "('a, 'b) delete_acc"
        by (induction "is" arbitrary: j c) (auto split: sum.splits, blast)
      from this [OF d] show ?thesis by simp
    qed
    ultimately show ?thesis using Cons.prems(3) e key(2) by auto
  qed
  note IH = Cons.IH [OF run Cons.prems(2) dom]
  have co: "counts_only (da_service a) (da_service a1)"
  proof (rule counts_only_trans)
    show "counts_only (da_service a) st" using g by blast
    show "counts_only st (da_service a1)" using e by simp
  qed
  have ids: "sh_id (heap_shard (da_service a1) q) = sh_id (heap_shard (da_service a) q)" for q
    by (rule counts_only_fields(1) [OF co])
  have h: "hidden (da_service a) k j \<Longrightarrow> hidden (da_service a1) k j" for k j
    using get_or_create_counts [OF gc, of k j] e by simp
  have "key \<in> set (da_touched a')" "\<forall>i \<in> set del. hidden (da_service a') key i"
    using e IH Cons.prems(2) by blast+
  moreover have "da_deleted a' = da_deleted a + length (r # rs) * length del" using e IH by simp
  moreover have "set (da_touched a) \<subseteq> set (da_touched a')" using e IH by auto
  ultimately show ?case
    using IH h key(1) unfolding ids by (simp add: Let_def)
qed simp

lemma flush_touched_hidden:
  "flush_touched keys st = (x, st') \<Longrightarrow> hidden st k i \<Longrightarrow> hidden st' k i"
proof (induction keys arbitrary: st)
  case (Cons key keys)
  show ?case
  proof (cases "dict_get (ig_shards st) key")
    case None
    with Cons show ?thesis by simp
  next
    case (Some rc)
    obtain r cx where rc: "rc = (r, cx)" by (cases rc)
    obtain y cx1 where f: "flush_ctx cx = (y, cx1)" by fastforce
    have "hidden (st\<lparr>ig_shards := dict_put key (r, cx1) (ig_shards st)\<rparr>) k i"
      using Cons.prems(2) Some rc flush_ctx_frame(2) [OF f] by (auto simp: hidden_def store_simps)
    with Cons Some rc f show ?thesis by (cases y) auto
  qed
qed simp

text \<open>
  C26: what a deletion by ids does and what it reports. When it is answered, in every shard that the
  namespace lists (all of them had to be writable) each of the ids is tombstoned and the log with
  the tombstone is flushed, whether or not the shard ever held the id; so the number it reports as
  deleted is the number of shards times the number of ids, not the number of records removed.
\<close>

theorem delete_broadcasts:
  assumes "ingest_delete ev clk now ns del f st = (Inr res, st')" "del \<noteq> []"
    and "writable now ns (ig_node_id st) (ig_router st) = (Inr shards, rt)"
  shows "dr_deleted res = length shards * length del \<and>
    (\<forall>r \<in> set shards. let key = ctx_key ns (sh_id (heap_shard st r)) in
       flushed st' key \<and> (\<forall>i \<in> set del. hidden st' key i))"
proof -
  let ?a0 = "\<lparr>da_service = st\<lparr>ig_router := rt\<rparr>, da_touched = [], da_results = [], da_deleted = 0\<rparr>"
  from assms(1) obtain nsr where nsr: "dict_get (ig_namespaces st) ns = Some nsr"
    by (auto simp: ingest_delete_def split: option.splits)
  obtain x a where dl: "delete_loop ev clk ns nsr del f 0 shards ?a0 = (x, a)" by fastforce
  with assms nsr obtain u where x: "x = Inr u" by (cases x) (auto simp: ingest_delete_def)
  obtain y st1 where fl: "flush_touched (da_touched a) (da_service a) = (y, st1)" by fastforce
  with assms nsr dl x obtain v where y: "y = Inr v" by (cases y) (auto simp: ingest_delete_def)
  have res: "dr_deleted res = da_deleted a" "st' = st1"
    using assms nsr dl x fl y by (auto simp: ingest_delete_def)
  have t0: "\<forall>key \<in> set (da_touched ?a0). dict_get (ig_shards (da_service ?a0)) key \<noteq> None" by simp
  note e = delete_loop_effect [OF dl [unfolded x] assms(2) t0]
  have hs: "heap_shard (da_service ?a0) r = heap_shard st r" for r
    using assms(3) get_shards_cached_frame [of now ns "ig_router st"]
    by (auto simp: heap_shard_def writable_def Let_def split: prod.splits)
  have "flushed st1 key" if "key \<in> set (da_touched a)" for key
    using flush_touched_flushed [OF fl [unfolded y]] e that by blast
  moreover have "hidden st1 k i" if "hidden (da_service a) k i" for k i
    by (rule flush_touched_hidden [OF fl that])
  ultimately show ?thesis
    using e unfolding hs res by (simp add: Let_def)
qed

text \<open>
  A point read answers with what the routed shard shows: when the id is routed to a shard whose
  context is open, the answer is the record of the context's store under the id, unless the id is
  tombstoned; with the two properties above, an accepted record is readable and a deleted one is not.
\<close>

theorem fetch_serves_view:
  assumes "route (ie_sha ev) (ie_hash ev) (mo_time (mos 0)) ns i (ig_router st) = (Inr r, rt)"
    and "dict_get (ig_shards st) (ctx_key ns (sh_id (heap_shard st r))) = Some (r1, cx)"
    and "seg_inv (ie_codec ev) (cx_segments cx)"
  shows "get_one ev mos ns i st =
    (Inr (map_option (to_payload (ie_isoformat ev) True) (ctx_view (ie_codec ev) cx i)), st\<lparr>ig_router := rt\<rparr>)"
proof -
  have e: "r_etcd rt = r_etcd (ig_router st)"
    using assms(1) by (auto simp: route_def Let_def dest!: select_frame split: prod.splits sum.splits if_splits)
  then have "heap_shard (st\<lparr>ig_router := rt\<rparr>) r = heap_shard st r" by (simp add: heap_shard_def)
  then have "get_or_create_ctx ev (mos 0) ns r (st\<lparr>ig_router := rt\<rparr>) =
      (Inr (ctx_key ns (sh_id (heap_shard st r))), st\<lparr>ig_router := rt\<rparr>)"
    using assms(2) by (simp add: get_or_create_ctx_def Let_def)
  then show ?thesis
    using assms by (auto simp: get_one_def fetch_def seg_get_view ctx_view_def split: option.splits)
qed

subsection \<open>A concrete service\<close>

definition demo_env :: "(unit, unit) ienv" where
  "demo_env = \<lparr>ie_sha = (\<lambda>s. ''c''), ie_hash = demo_hash, ie_str_float = (\<lambda>x. []),
     ie_uuid = (\<lambda>j. case j of JStr s \<Rightarrow> Inr s | _ \<Rightarrow> Inl (type_error [])), ie_float = (\<lambda>s. Inr 0),
     ie_isoformat = (\<lambda>t. []), ie_codec = demo_codec, ie_libs = demo_libs\<rparr>"

definition svc_shard :: shard where
  "svc_shard = (new_shard ''s1'' 0 ''ns'' ''n1'')\<lparr>sh_replicas := [''n2'']\<rparr>"

definition svc_router :: router where
  "svc_router = new_router \<lparr>e_heap = (\<lambda>r. svc_shard), e_next = 1, e_data = [(''s1'', 0)], e_nodes = [],
     e_migrations = [], e_path = [], e_file = None, e_writable = True\<rparr> 5 False"

definition demo_service :: "(unit, unit) ingest" where
  "demo_service = new_ingest svc_router [(''ns'', demo_namespace)] ''d'' None no_files"

definition open_service :: "(unit, unit) ingest" where
  "open_service = demo_service\<lparr>ig_shards := [(''ns:s1'', (0, demo_ctx))]\<rparr>"

definition demo_raw :: "(string, json) dict" where
  "demo_raw = [(''id'', JStr ''b''), (''vector'', JList [JInt 1]), (''source_system'', JStr ''y'')]"

lemmas svc_simps = svc_router_def svc_shard_def new_router_def new_shard_def demo_env_def
  demo_service_def new_ingest_def heap_shard_def

lemma svc_select:
  "\<exists>rt. select_shard (ie_sha demo_env) (ie_hash demo_env) t ''ns'' i svc_router = (Inr 0, rt) \<and>
     r_etcd rt = r_etcd svc_router \<and> \<not> r_membership rt"
  by (simp add: svc_simps demo_simps)

lemma svc_route:
  "\<exists>rt. route_write (ie_sha demo_env) (ie_hash demo_env) t ''ns'' i None svc_router = (Inr 0, rt) \<and>
     r_etcd rt = r_etcd svc_router"
  "\<exists>rt. route (ie_sha demo_env) (ie_hash demo_env) t ''ns'' i svc_router = (Inr 0, rt)"
proof -
  obtain rt where s: "select_shard (ie_sha demo_env) (ie_hash demo_env) t ''ns'' i svc_router = (Inr 0, rt)"
    "r_etcd rt = r_etcd svc_router" "\<not> r_membership rt"
    using svc_select by blast
  have h: "e_heap (r_etcd svc_router) 0 = svc_shard" by (simp add: svc_simps)
  have o: "sh_state svc_shard = ShardState.ACTIVE" "sh_node_id svc_shard = ''n1''" by (simp_all add: svc_simps)
  show "\<exists>rt. route_write (ie_sha demo_env) (ie_hash demo_env) t ''ns'' i None svc_router = (Inr 0, rt) \<and>
     r_etcd rt = r_etcd svc_router"
    using s h o by (simp add: route_write_def validate_owner_def require_owner_def)
  show "\<exists>rt. route (ie_sha demo_env) (ie_hash demo_env) t ''ns'' i svc_router = (Inr 0, rt)"
    using s h o by (simp add: route_def validate_owner_def readable_states_def)
qed

lemma demo_raw_record:
  "raw_record demo_env 0 f ''ns'' demo_namespace demo_raw = Inr (demo_record ''b'' ''y'')"
  by (simp add: raw_record_def demo_raw_def md_get_def py_iter_def demo_env_def demo_namespace_def
      float_of_json_def make_record_def demo_record_def sha256_vector_def)

lemma open_service_ok: "service_ok demo_env open_service"
  using opens_well_empty [of demo_env] demo_ctx_ready(1)
  by (auto simp: service_ok_def open_service_def svc_simps split: if_splits)

lemma open_service_fields:
  "heap_shard open_service r = svc_shard" "ig_router open_service = svc_router"
  "dict_get (ig_shards open_service) ''ns:s1'' = Some (0, demo_ctx)" "sh_id svc_shard = ''s1''"
  "ig_node_id open_service = None" "ig_namespaces open_service = [(''ns'', demo_namespace)]"
  "sh_replicas svc_shard = [''n2'']" "ig_idempotency open_service = []"
  by (simp_all add: open_service_def svc_simps)

lemma demo_context:
  assumes "heap_shard st 0 = svc_shard" "dict_get (ig_shards st) ''ns:s1'' = Some (q, cx)"
  shows "get_or_create_ctx ev mo ''ns'' 0 st = (Inr ''ns:s1'', st)"
  using assms by (simp add: get_or_create_ctx_def Let_def ctx_key_def open_service_fields)

text \<open>The service over any context that takes the record.\<close>

definition demo_over :: "(unit, unit) shard_ctx \<Rightarrow> (unit, unit) ingest" where
  "demo_over cx = open_service\<lparr>ig_shards := [(''ns:s1'', (0, cx))]\<rparr>"

lemma demo_over_fields:
  "heap_shard (demo_over cx) r = svc_shard" "ig_router (demo_over cx) = svc_router"
  "dict_get (ig_shards (demo_over cx)) ''ns:s1'' = Some (0, cx)"
  "ig_node_id (demo_over cx) = None" "ig_namespaces (demo_over cx) = [(''ns'', demo_namespace)]"
  "ig_idempotency (demo_over cx) = []" "ig_disk (demo_over cx) = no_files" "ig_endpoints (demo_over cx) = []"
  by (simp_all add: demo_over_def open_service_def svc_simps)

lemma demo_over_ctx: "demo_over demo_ctx = open_service"
  by (simp add: demo_over_def open_service_def)

lemma over_upsert_one:
  assumes "store_record demo_libs demo_codec (demo_moment 0) (demo_record ''b'' ''y'') cx = (Inr (), cx1)"
  shows "\<exists>a. upsert_one demo_env (\<lambda>j. demo_moment 0) f kids ''ns'' demo_namespace demo_raw (start_acc (demo_over cx)) = (Inr ''b'', a)"
proof -
  let ?ev = demo_env and ?mo = "demo_moment 0"
  have now: "mo_time ?mo = 0" by (simp add: demo_moment_def)
  obtain rt where rt: "route_write (ie_sha ?ev) (ie_hash ?ev) 0 ''ns'' ''b'' None svc_router = (Inr 0, rt)"
    "r_etcd rt = r_etcd svc_router" using svc_route(1) by blast
  let ?st = "demo_over cx\<lparr>ig_router := rt\<rparr>"
  have st: "heap_shard ?st q = svc_shard" "dict_get (ig_shards ?st) ''ns:s1'' = Some (0, cx)" for q
    using rt(2) demo_over_fields by (simp_all add: heap_shard_def)
  have gc: "get_or_create_ctx ?ev ?mo ''ns'' 0 ?st = (Inr ''ns:s1'', ?st)"
    by (rule demo_context [OF st])
  obtain st2 where sp: "store_primary ?ev ?mo (demo_record ''b'' ''y'') 0 ''ns:s1'' ?st = (Inr (), st2)"
    "heap_shard st2 0 = count_vector svc_shard"
    using st assms by (simp add: store_primary_def demo_env_def Let_def)
  obtain res st3 where rp: "replicate ?ev (\<lambda>j. ?mo) ''ns'' (heap_shard st2 0) (ns_required_acks demo_namespace)
      (Upsert (demo_record ''b'' ''y'')) st2 = (res, st3)" by fastforce
  have "e_heap (r_etcd (ig_router st3)) 0 = count_vector svc_shard"
    using replicate_frame(1) [OF rp] sp(2) by (simp add: heap_shard_def)
  then have ms: "maybe_split (fst kids) 0 (snd kids) 0 0 None (ig_router st3) = (Inr None, ig_router st3)"
    by (simp add: maybe_split_def Let_def should_split_def count_vector_def svc_shard_def new_shard_def
        default_max_vectors_def)
  have i: "vr_id (demo_record ''b'' ''y'') = ''b''" by (simp add: demo_record_def)
  show ?thesis
    unfolding upsert_one_def Let_def
    using demo_raw_record rt(1) gc sp rp ms i
    by (simp add: now start_acc_def demo_over_fields)
qed

lemma demo_stores:
  "\<exists>cx1. store_record demo_libs demo_codec (demo_moment 0) (demo_record ''b'' ''y'') demo_ctx = (Inr (), cx1)"
  by (simp add: store_record_def Let_def log_payload_def demo_ctx_def demo_libs_def flat_add_def new_flat_def
      demo_record_def)

lemma demo_upsert_one:
  "\<exists>a. upsert_one demo_env (\<lambda>j. demo_moment 0) f kids ''ns'' demo_namespace demo_raw (start_acc open_service) = (Inr ''b'', a)"
  using demo_stores over_upsert_one unfolding demo_over_ctx [symmetric] by blast


lemma fetch_serves_view_witness:
  "fst (get_one demo_env (\<lambda>j. demo_moment 0) ''ns'' ''a'' open_service) =
     Inr (Some (to_payload (\<lambda>t. []) True (demo_record ''a'' ''old'')))"
proof -
  obtain rt where rt: "route (ie_sha demo_env) (ie_hash demo_env) (mo_time (demo_moment 0)) ''ns'' ''a''
      (ig_router open_service) = (Inr 0, rt)"
    using svc_route(2) open_service_fields(2) by metis
  have c: "dict_get (ig_shards open_service) (ctx_key ''ns'' (sh_id (heap_shard open_service 0))) = Some (0, demo_ctx)"
    using open_service_fields by (simp add: ctx_key_def)
  have i: "seg_inv (ie_codec demo_env) (cx_segments demo_ctx)" "ie_isoformat demo_env = (\<lambda>t. [])"
    "ie_codec demo_env = demo_codec"
    using demo_ctx_ready(1) by (simp_all add: demo_env_def)
  have v: "ctx_view demo_codec demo_ctx ''a'' = Some (demo_record ''a'' ''old'')"
    using demo_ctx_ready(3) demo_segments(2)
    by (simp add: ctx_view_def seg_view_def demo_ctx_def map_add_def)
  from fetch_serves_view [of demo_env "\<lambda>j. demo_moment 0", OF rt c i(1)] show ?thesis by (simp add: i(2,3) v)
qed

lemma upsert_answer_honest_witness:
  "\<exists>res st'. upsert demo_env (\<lambda>k j. demo_moment 0) (\<lambda>k. (''f'', ''x'', ''y'')) 1 ''ns'' [[]] (Some ''key'')
       open_service = (Inr res, st') \<and> length (ur_errors res) = 1 \<and> \<not> su_success (ur_replication res) \<and>
     upsert demo_env (\<lambda>k j. demo_moment 9) (\<lambda>k. (''f'', ''x'', ''y'')) 7 ''ns'' [demo_raw] (Some ''key'') st' = (Inr res, st')"
proof -
  obtain res st' where u: "upsert demo_env (\<lambda>k j. demo_moment 0) (\<lambda>k. (''f'', ''x'', ''y'')) 1 ''ns'' [[]] (Some ''key'')
       open_service = (Inr res, st')" "ur_errors res \<noteq> []"
    using open_service_fields
    by (simp add: upsert_def upsert_caught_def upsert_one_def raw_record_def md_get_def Let_def)
  have idem: "key \<noteq> [] \<and> dict_get (ig_idempotency open_service) key = None" if "Some ''key'' = Some key" for key
    using that open_service_fields(8) by auto
  have ns: "dict_get (ig_namespaces open_service) ''ns'' = Some demo_namespace"
    using open_service_fields(6) by simp
  from upsert_answer_honest [OF u(1) idem ns refl] u(2)
  have "ur_upserted res + length (ur_errors res) = 1" "\<not> su_success (ur_replication res)"
    "upsert demo_env (\<lambda>k j. demo_moment 9) (\<lambda>k. (''f'', ''x'', ''y'')) 7 ''ns'' [demo_raw] (Some ''key'') st' = (Inr res, st')"
    by (simp_all del: upsert_loop.simps)
  moreover from this(1) u(2) have "length (ur_errors res) = 1" by (cases "ur_errors res") auto
  ultimately show ?thesis using u(1) by blast
qed

lemma svc_writable:
  "\<exists>rt. writable t ''ns'' None svc_router = (Inr [0], rt) \<and> r_etcd rt = r_etcd svc_router"
  by (simp add: writable_def svc_simps demo_simps require_owner_def)

lemma demo_delete_flush:
  assumes "cx_wal cx = wal_append (new_entry 2 (cd_dumps demo_codec (delete_envelope i)) 0)
      (wal_append (new_entry 2 (cd_dumps demo_codec (delete_envelope j)) 0) (wal_open 100 10 []))"
    and "length i < 100" "length j < 100"
  shows "\<exists>cx'. flush_ctx cx = (Inr (), cx')"
proof -
  have "encodable (new_entry 2 (cd_dumps demo_codec (delete_envelope k)) 0)" if "length k < 100" for k
    using that by (simp add: encodable_def new_entry_def demo_codec_def delete_envelope_def encode_def)
  then show ?thesis
    using assms by (simp add: flush_ctx_def wal_flush_def wal_append_def wal_open_def open_segment_def)
qed

lemma demo_delete_one:
  assumes "dict_get (ig_shards (da_service a)) ''ns:s1'' = Some (0, cx)"
  shows "dict_get (ig_shards (da_service (delete_id demo_env (\<lambda>j. demo_moment 2) True ''ns'' demo_namespace 0 ''ns:s1'' i a)))
      ''ns:s1'' = Some (0, tombstone demo_libs demo_codec (demo_moment 2) True i cx)"
proof -
  obtain res st2 where rp: "replicate demo_env (\<lambda>j. demo_moment 2) ''ns''
      (heap_shard ((da_service a)\<lparr>ig_shards := dict_put ''ns:s1''
        (0, tombstone demo_libs demo_codec (demo_moment 2) True i cx) (ig_shards (da_service a))\<rparr>) 0)
      (ns_required_acks demo_namespace) (Delete i) ((da_service a)\<lparr>ig_shards := dict_put ''ns:s1''
        (0, tombstone demo_libs demo_codec (demo_moment 2) True i cx) (ig_shards (da_service a))\<rparr>) = (res, st2)"
    by fastforce
  have e: "ie_libs demo_env = demo_libs" "ie_codec demo_env = demo_codec" by (simp_all add: demo_env_def)
  show ?thesis
    unfolding delete_id_def Let_def assms e
    using replicate_frame(2) [OF rp] rp by (simp add: store_simps)
qed

lemma tombstone_fields:
  "cx_wal (tombstone lb cd mo b i cx) = wal_append (new_entry (mo_ns mo) (cd_dumps cd (delete_envelope i)) 0) (cx_wal cx)"
  "cx_segments (tombstone lb cd mo b i cx) =
     (cx_segments cx)\<lparr>sg_memtable := mem_delete i (sg_memtable (cx_segments cx))\<rparr>"
  by (simp_all add: tombstone_def log_payload_def)

lemma delete_broadcasts_witness:
  "\<exists>res st'. ingest_delete demo_env (\<lambda>k j. demo_moment 2) 0 ''ns'' [''a'', ''zz''] [] open_service = (Inr res, st') \<and>
     dr_deleted res = 2 \<and> hidden st' ''ns:s1'' ''a'' \<and> hidden st' ''ns:s1'' ''zz''"
proof -
  let ?ev = demo_env and ?mo = "demo_moment 2" and ?mos = "\<lambda>j :: nat. demo_moment 2"
  obtain rt where rt: "writable 0 ''ns'' None svc_router = (Inr [0], rt)" "r_etcd rt = r_etcd svc_router"
    using svc_writable by blast
  let ?st = "open_service\<lparr>ig_router := rt\<rparr>"
  let ?a0 = "\<lparr>da_service = ?st, da_touched = [], da_results = [], da_deleted = 0\<rparr> :: (unit, unit) delete_acc"
  let ?T = "tombstone demo_libs demo_codec ?mo True"
  let ?D = "delete_id ?ev ?mos True ''ns'' demo_namespace 0 ''ns:s1''"
  have st: "heap_shard ?st q = svc_shard" "dict_get (ig_shards ?st) ''ns:s1'' = Some (0, demo_ctx)" for q
    using rt(2) open_service_fields by (simp_all add: heap_shard_def)
  have gc: "get_or_create_ctx ?ev ?mo ''ns'' 0 ?st = (Inr ''ns:s1'', ?st)"
    by (rule demo_context [OF st])
  have s1: "dict_get (ig_shards (da_service (?D ''a'' ?a0))) ''ns:s1'' = Some (0, ?T ''a'' demo_ctx)"
    by (rule demo_delete_one) (use st in simp)
  have s2: "dict_get (ig_shards (da_service (?D ''zz'' (?D ''a'' ?a0)))) ''ns:s1'' = Some (0, ?T ''zz'' (?T ''a'' demo_ctx))"
    by (rule demo_delete_one [OF s1])
  have inv: "seg_inv demo_codec (cx_segments demo_ctx)" "seg_inv demo_codec (cx_segments (?T ''a'' demo_ctx))"
    using demo_ctx_ready(1) mem_delete_view(1) by (simp_all add: tombstone_fields)
  have cd: "ie_codec ?ev = demo_codec" by (simp add: demo_env_def)
  have ids: "delete_ids ?ev (\<lambda>k j. ?mo) ''ns'' demo_namespace 0 ''ns:s1'' 1 [''a'', ''zz''] ?a0 =
      (Inr (), 3, ?D ''zz'' (?D ''a'' ?a0))"
    using st(2) s1 seg_get_view [OF inv(1), of "''a''"] seg_get_view [OF inv(2), of "''zz''"]
    by (simp add: cd)
  have loop: "delete_loop ?ev (\<lambda>k j. ?mo) ''ns'' demo_namespace [''a'', ''zz''] [] 0 [0] ?a0 =
      (Inr (), ?D ''zz'' (?D ''a'' ?a0))"
    using gc ids by (simp add: delete_in_shard_def Let_def del: delete_ids.simps)
  obtain cx' where fl: "flush_ctx (?T ''zz'' (?T ''a'' demo_ctx)) = (Inr (), cx')"
    using demo_delete_flush [of "?T ''zz'' (?T ''a'' demo_ctx)" "''zz''" "''a''"]
    by (auto simp: tombstone_fields demo_moment_def demo_ctx_def)
  have touched: "da_touched (?D ''zz'' (?D ''a'' ?a0)) = [''ns:s1'']"
  proof -
    have "da_touched (?D i a) = add_key ''ns:s1'' (da_touched a)"
      if "dict_get (ig_shards (da_service a)) ''ns:s1'' \<noteq> None" for i a
      using that by (auto simp: delete_id_def Let_def split: prod.splits)
    then show ?thesis using s1 st(2) by (simp add: add_key_def)
  qed
  obtain res st' where del: "ingest_delete ?ev (\<lambda>k j. ?mo) 0 ''ns'' [''a'', ''zz''] [] open_service = (Inr res, st')"
    using rt(1) loop touched s2 fl open_service_fields(2,5,6)
    by (simp add: ingest_delete_def del: delete_loop.simps)
  have w: "writable 0 ''ns'' (ig_node_id open_service) (ig_router open_service) = (Inr [0], rt)"
    using rt(1) open_service_fields(2,5) by simp
  have key: "ctx_key ''ns'' (sh_id (heap_shard open_service 0)) = ''ns:s1''"
    by (simp add: open_service_fields ctx_key_def)
  from delete_broadcasts [OF del _ w] del show ?thesis
    by (simp add: Let_def key)
qed

end
