(* ===== verification/Query_Facts.thy ===== *)
theory Query_Facts
  imports Query Ingest_Facts
begin

text \<open>
  What a query returns. Over flat indexes it is exact: the merged answer is a best \<open>top_k\<close> of all
  matching entries of all opened shards. The cache, whose key sees the first eight components of the
  query vector only, answers a later query from an earlier one. The re-rankers select from their
  candidates.
\<close>

subsection \<open>Best selections\<close>

text \<open>\<open>ys\<close> is a best selection of \<open>k\<close> elements of \<open>M\<close> in descending order.\<close>

definition top_of :: "('a \<Rightarrow> real) \<Rightarrow> nat \<Rightarrow> 'a multiset \<Rightarrow> 'a list \<Rightarrow> bool" where
  "top_of f k M ys \<longleftrightarrow> mset ys \<subseteq># M \<and> length ys = min k (size M) \<and>
     sorted (map (\<lambda>y. - f y) ys) \<and> (\<forall>x \<in># M - mset ys. \<forall>y \<in> set ys. f x \<le> f y)"

lemma mset_sort_desc [simp]: "mset (sort_desc f xs) = mset xs"
  by (simp add: sort_desc_def)

lemma length_sort_desc [simp]: "length (sort_desc f xs) = length xs"
  by (simp add: sort_desc_def)

lemma set_sort_desc [simp]: "set (sort_desc f xs) = set xs"
  by (simp add: sort_desc_def)

lemma sorted_sort_desc: "sorted (map (\<lambda>y. - f y) (sort_desc f xs))"
  by (simp add: sort_desc_def)

lemma sorted_cut:
  assumes "sorted (map g xs)" "a \<in> set (take k xs)" "b \<in> set (drop k xs)"
  shows "g a \<le> g b"
proof -
  have "map g xs = map g (take k xs) @ map g (drop k xs)" by (simp flip: map_append)
  with assms(1) have "\<forall>x \<in> set (map g (take k xs)). \<forall>y \<in> set (map g (drop k xs)). x \<le> y"
    by (metis sorted_append)
  with assms(2,3) show ?thesis by auto
qed

lemma top_of_take_sort: "top_of f k (mset xs) (take k (sort_desc f xs))"
proof -
  let ?ys = "sort_desc f xs"
  have m: "mset xs = mset (take k ?ys) + mset (drop k ?ys)"
    by (metis append_take_drop_id mset_append mset_sort_desc)
  have "sorted (map (\<lambda>y. - f y) (take k ?ys))"
    using sorted_sort_desc [of f xs] by (metis sorted_wrt_take take_map)
  moreover have "f x \<le> f y" if "x \<in> set (drop k ?ys)" "y \<in> set (take k ?ys)" for x y
    using sorted_cut [OF sorted_sort_desc that(2,1)] by simp
  ultimately show ?thesis unfolding top_of_def by (auto simp: m)
qed

text \<open>Taking the best of best selections loses nothing.\<close>

lemma top_of_filter_less:
  assumes "top_of f k M ys" "y \<in> set ys"
  shows "size (filter_mset (\<lambda>x. f y < f x) M) < k"
proof -
  let ?P = "\<lambda>x. f y < f x"
  obtain R where M: "M = mset ys + R" using assms(1) by (auto simp: top_of_def mset_subset_eq_exists_conv)
  then have "\<forall>x \<in># R. f x \<le> f y" using assms by (simp add: top_of_def)
  then have "filter_mset ?P R = {#}" by (auto simp: not_less)
  then have "filter_mset ?P M = mset (filter ?P ys)" by (simp add: M)
  then have "size (filter_mset ?P M) = length (filter ?P ys)" by (simp only: size_mset)
  also have "\<dots> < length ys" using assms(2) by (rule length_filter_less) simp
  also have "\<dots> \<le> k" using assms(1) by (simp add: top_of_def)
  finally show ?thesis .
qed

lemma top_of_trans:
  assumes in_parts: "top_of f k (\<Sum>\<^sub># (mset (map (\<lambda>p. mset (snd p)) ps))) ys"
    and parts: "\<forall>p \<in> set ps. top_of f k (fst p) (snd p)"
  shows "top_of f k (\<Sum>\<^sub># (mset (map fst ps))) ys"
proof -
  let ?A = "\<Sum>\<^sub># (mset (map (\<lambda>p. mset (snd p)) ps))" and ?M = "\<Sum>\<^sub># (mset (map fst ps))"
  let ?R = "\<Sum>\<^sub># (mset (map (\<lambda>p. fst p - mset (snd p)) ps))"
  have cut: "fst p = mset (snd p) + (fst p - mset (snd p)) \<and> length (snd p) = min k (size (fst p))"
    if "p \<in> set ps" for p
    using parts that by (simp add: top_of_def)
  have sum: "?M = ?A + ?R" using cut
  proof (induction ps)
    case (Cons p ps)
    have "fst p = mset (snd p) + (fst p - mset (snd p))" using Cons.prems by simp
    moreover have "\<Sum>\<^sub># (mset (map fst ps)) = \<Sum>\<^sub># (mset (map (\<lambda>p. mset (snd p)) ps)) +
        \<Sum>\<^sub># (mset (map (\<lambda>p. fst p - mset (snd p)) ps))" using Cons by simp
    ultimately have "fst p + \<Sum>\<^sub># (mset (map fst ps)) =
        (mset (snd p) + \<Sum>\<^sub># (mset (map (\<lambda>p. mset (snd p)) ps))) +
        ((fst p - mset (snd p)) + \<Sum>\<^sub># (mset (map (\<lambda>p. fst p - mset (snd p)) ps)))"
      by (simp add: ac_simps)
    then show ?case by simp
  qed simp
  have sizes: "min k (size ?A) = min k (size ?M)" using cut
  proof (induction ps)
    case (Cons p ps)
    have "length (snd p) = min k (size (fst p))" using Cons.prems by simp
    moreover have "min k (size (\<Sum>\<^sub># (mset (map (\<lambda>p. mset (snd p)) ps)))) = min k (size (\<Sum>\<^sub># (mset (map fst ps))))"
      using Cons by simp
    ultimately have "min k (length (snd p) + size (\<Sum>\<^sub># (mset (map (\<lambda>p. mset (snd p)) ps)))) =
        min k (size (fst p) + size (\<Sum>\<^sub># (mset (map fst ps))))" by linarith
    then show ?case by simp
  qed simp
  have "?A \<subseteq># ?M" unfolding sum by simp
  then have sub: "mset ys \<subseteq># ?M" using in_parts by (auto simp: top_of_def)
  have rest: "f x \<le> f y" if x: "x \<in># ?M - mset ys" and y: "y \<in> set ys" for x y
  proof (rule ccontr)
    assume less: "\<not> f x \<le> f y"
    have "mset ys \<subseteq># ?A" using in_parts by (simp add: top_of_def)
    then have "?M - mset ys = (?A - mset ys) + ?R"
      unfolding sum by (rule subset_mset.diff_add_assoc2)
    with x consider (a) "x \<in># ?A - mset ys" | (r) "x \<in># ?R" by auto
    then show False
    proof cases
      case a
      with in_parts y less show ?thesis by (auto simp: top_of_def)
    next
      case r
      then obtain p where p: "p \<in> set ps" "x \<in># fst p - mset (snd p)" by auto
      have tp: "top_of f k (fst p) (snd p)" using parts p(1) by blast
      have "mset (snd p) \<subseteq># fst p" using tp by (simp add: top_of_def)
      moreover have "fst p - mset (snd p) \<noteq> {#}" using p(2) by auto
      ultimately have "mset (snd p) \<subset># fst p" by (auto simp: subset_mset.less_le)
      from mset_subset_size [OF this] have len: "length (snd p) = k"
        using tp by (simp add: top_of_def)
      have "\<forall>z \<in> set (snd p). f y < f z"
        using tp p(2) less by (fastforce simp: top_of_def)
      then have "filter_mset (\<lambda>z. f y < f z) (mset (snd p)) = mset (snd p)" by (simp add: filter_mset_eq_conv)
      moreover have "mset (snd p) \<subseteq># ?A" using p(1)
        by (metis (mono_tags, lifting) image_eqI in_image_mset set_mset_mset sum_mset.remove mset_map mset_subset_eq_add_left)
      ultimately have "k \<le> size (filter_mset (\<lambda>z. f y < f z) ?A)"
        by (metis len multiset_filter_mono size_mset size_mset_mono)
      with top_of_filter_less [OF in_parts y] show ?thesis by simp
    qed
  qed
  show ?thesis using in_parts sizes sub rest by (simp add: top_of_def)
qed

lemma top_of_map:
  assumes "top_of f k M xs" "\<And>x. x \<in># M \<Longrightarrow> f' (g x) = f x"
  shows "top_of f' k (image_mset g M) (map g xs)"
proof -
  obtain R where M: "M = mset xs + R" using assms(1) by (auto simp: top_of_def mset_subset_eq_exists_conv)
  have "image_mset g M - mset (map g xs) = image_mset g R" by (simp add: M)
  moreover have "map (\<lambda>y. - f' y) (map g xs) = map (\<lambda>y. - f y) xs" using assms(2) by (simp add: M)
  moreover have "\<forall>x \<in># R. \<forall>y \<in> set xs. f x \<le> f y" using assms(1) by (simp add: top_of_def M)
  ultimately show ?thesis
    using assms by (simp add: top_of_def M del: map_map)
qed

lemma best_of_top:
  assumes "best_of sc k {j. j < n \<and> P j} js"
  shows "top_of sc k (mset (filter P [0..<n])) js"
proof -
  let ?H = "filter P [0..<n]"
  have H: "set ?H = {j. j < n \<and> P j}" "distinct ?H" by auto
  have js: "distinct js" "set js \<subseteq> set ?H" "length js = min k (card {j. j < n \<and> P j})"
      "sorted (map (\<lambda>j. - sc j) js)" "\<forall>j \<in> set js. \<forall>h \<in> {j. j < n \<and> P j} - set js. sc h \<le> sc j"
    using assms unfolding best_of_def H(1) by blast+
  have "mset js \<subseteq># mset ?H"
    using js H(2) by (metis List.finite_set mset_set_set subset_imp_msubset_mset_set)
  moreover have "length js = min k (size (mset ?H))"
    using js(3) unfolding size_mset distinct_card [OF H(2), symmetric] H(1) .
  moreover have "sc x \<le> sc y" if "x \<in># mset ?H - mset js" "y \<in> set js" for x y
  proof -
    have "mset ?H - mset js = mset_set (set ?H - set js)"
      using js H(2) by (metis mset_set_Diff [OF finite_set] mset_set_set)
    with that(1) have "x \<in> {j. j < n \<and> P j} - set js" by (simp add: H(1) del: set_filter)
    with js(5) that(2) show ?thesis by blast
  qed
  ultimately show ?thesis using js(4) by (simp add: top_of_def del: mset_filter size_mset)
qed

subsection \<open>One shard\<close>

definition qh_of :: "query_args \<Rightarrow> index_result \<Rightarrow> hit" where
  "qh_of qa r = \<lparr>qh_id = ir_id r, qh_score = ir_score r,
     qh_metadata = (if qa_include_metadata qa then (case ir_metadata r of None \<Rightarrow> [] | Some m \<Rightarrow> m) else []),
     qh_vector = None, qh_reranked = False\<rparr>"

lemma enrich_plain: "\<not> qa_include_vector qa \<Longrightarrow> enrich cd qa sg r = Inr (qh_of qa r)"
  by (simp add: enrich_def qh_of_def)

lemma map_res_inr: "(\<And>x. x \<in> set xs \<Longrightarrow> f x = Inr (g x)) \<Longrightarrow> map_res f xs = Inr (map g xs)"
  by (induction xs) auto

text \<open>All entries of a shard's flat index that match a query, as hits.\<close>

definition matching :: "(metadata \<Rightarrow> bool res) option \<Rightarrow> query_args \<Rightarrow> flat \<Rightarrow> hit multiset" where
  "matching p qa f =
     image_mset (qh_of qa) (image_mset (result_at (qa_vector qa) f)
       (mset (filter (flat_hit (map_option accepts p) (qa_vector qa) f) [0..<length (fl_ids f)])))"

definition shard_matching :: "('h, 'f) ienv \<Rightarrow> query_args \<Rightarrow> ('h, 'f) ingest \<Rightarrow> sref \<Rightarrow> hit multiset" where
  "shard_matching ev qa st r =
     (case dict_get (ig_shards st) (ctx_key (qa_namespace qa) (sh_id (heap_shard st r))) of
        Some (r1, cx) \<Rightarrow> (case cx_index cx of FlatIx f \<Rightarrow> matching (query_filter ev qa) qa f | _ \<Rightarrow> {#})
      | None \<Rightarrow> {#})"

text \<open>The shard's context, if it is open, has a well-formed flat index on whose metadata the filter does not raise.\<close>

definition flat_ready :: "('h, 'f) ienv \<Rightarrow> query_args \<Rightarrow> ('h, 'f) ingest \<Rightarrow> sref \<Rightarrow> bool" where
  "flat_ready ev qa st r =
     (case dict_get (ig_shards st) (ctx_key (qa_namespace qa) (sh_id (heap_shard st r))) of
        Some (r1, cx) \<Rightarrow>
          (case cx_index cx of FlatIx f \<Rightarrow> flat_inv f \<and> flat_error (query_filter ev qa) f = None | _ \<Rightarrow> False)
      | None \<Rightarrow> True)"

lemma flat_search_top:
  assumes "np_contract np" "flat_inv f"
  shows "top_of ir_score k
    (image_mset (result_at q f) (mset (filter (flat_hit p q f) [0..<length (fl_ids f)]))) (flat_search np q k p f)"
proof -
  obtain js where js: "flat_search np q k p f = map (result_at q f) js"
    "best_of (\<lambda>j. score (fl_metric f) q (flat_rows f ! j)) k {j. flat_hit p q f j} js"
    using flat_search_best [OF assms] by blast
  have "{j. flat_hit p q f j} = {j. j < length (fl_ids f) \<and> flat_hit p q f j}" by (auto simp: flat_hit_def)
  with js(2) have "top_of (\<lambda>j. score (fl_metric f) q (flat_rows f ! j)) k
      (mset (filter (flat_hit p q f) [0..<length (fl_ids f)])) js"
    using best_of_top by metis
  then show ?thesis unfolding js(1) by (rule top_of_map) (simp add: result_at_def)
qed

lemma search_shard_flat:
  assumes "np_contract (lib_np (ie_libs ev))" "\<not> qa_include_vector qa" "flat_ready ev qa st r"
  shows "\<exists>hs. search_shard ev qa r st = (Inr (hs, length hs), st) \<and>
    top_of qh_score (qa_top_k qa) (shard_matching ev qa st r) hs"
proof (cases "dict_get (ig_shards st) (ctx_key (qa_namespace qa) (sh_id (heap_shard st r)))")
  case None
  then show ?thesis by (simp add: search_shard_def shard_matching_def top_of_def)
next
  case (Some rc)
  obtain r1 cx where rc: "rc = (r1, cx)" by fastforce
  then obtain f where f: "cx_index cx = FlatIx f" "flat_inv f" "flat_error (query_filter ev qa) f = None"
    using assms(3) Some by (auto simp: flat_ready_def split: vindex.splits)
  let ?q = "qa_vector qa" and ?p = "map_option accepts (query_filter ev qa)"
  let ?rs = "flat_search (lib_np (ie_libs ev)) ?q (qa_top_k qa) ?p f"
  have top: "top_of qh_score (qa_top_k qa) (matching (query_filter ev qa) qa f) (map (qh_of qa) ?rs)"
    unfolding matching_def by (rule top_of_map [OF flat_search_top [OF assms(1) f(2)]]) (simp add: qh_of_def)
  have "map_res (enrich (ie_codec ev) qa (cx_segments cx)) ?rs = Inr (map (qh_of qa) ?rs)"
    by (rule map_res_inr) (rule enrich_plain [OF assms(2)])
  moreover have "cx\<lparr>cx_index := FlatIx f\<rparr> = cx" using f(1) by simp
  ultimately have "search_shard ev qa r st = (Inr (map (qh_of qa) ?rs, length (map (qh_of qa) ?rs)), st)"
    using Some f by (simp add: search_shard_def rc dict_put_same)
  with top show ?thesis using Some by (auto simp: shard_matching_def rc f(1))
qed

lemma search_shards_flat:
  assumes "np_contract (lib_np (ie_libs ev))" "\<not> qa_include_vector qa" "\<forall>r \<in> set rs. flat_ready ev qa st r"
  shows "\<exists>ps. search_shards ev qa rs st = (Inr (map (\<lambda>(M, hs). (hs, length hs)) ps), st) \<and>
    map fst ps = map (shard_matching ev qa st) rs \<and>
    (\<forall>p \<in> set ps. top_of qh_score (qa_top_k qa) (fst p) (snd p))"
  using assms(3)
proof (induction rs)
  case (Cons r rs)
  then obtain ps where ps: "search_shards ev qa rs st = (Inr (map (\<lambda>(M, hs). (hs, length hs)) ps), st)"
    "map fst ps = map (shard_matching ev qa st) rs"
    "\<forall>p \<in> set ps. top_of qh_score (qa_top_k qa) (fst p) (snd p)" by auto
  obtain hs where hs: "search_shard ev qa r st = (Inr (hs, length hs), st)"
    "top_of qh_score (qa_top_k qa) (shard_matching ev qa st r) hs"
    using search_shard_flat [OF assms(1,2), of st r] Cons.prems by auto
  show ?case by (intro exI [of _ "(shard_matching ev qa st r, hs) # ps"]) (simp add: ps hs)
qed simp

lemma merge_plain: "merge_hits NoRerank q k cands = Inr (take k (sort_desc qh_score cands))"
  by (simp add: merge_hits_def min_def)

lemma merge_parts:
  assumes "\<forall>p \<in> set ps. top_of f k (fst p) (snd p)"
  shows "top_of f k (\<Sum>\<^sub># (mset (map fst ps))) (take k (sort_desc f (concat (map snd ps))))"
proof (rule top_of_trans [OF _ assms])
  have "mset (concat (map snd ps)) = \<Sum>\<^sub># (mset (map (\<lambda>p. mset (snd p)) ps))"
    by (induction ps) simp_all
  then show "top_of f k (\<Sum>\<^sub># (mset (map (\<lambda>p. mset (snd p)) ps))) (take k (sort_desc f (concat (map snd ps))))"
    using top_of_take_sort [of f k "concat (map snd ps)"] by simp
qed

subsection \<open>The query\<close>

lemma route_for_query_etcd:
  "route_for_query now ns rt = (shards, rt1) \<Longrightarrow> r_etcd rt1 = r_etcd rt"
  by (auto simp: route_for_query_def get_shards_cached_def Let_def split: prod.splits option.splits if_splits)

lemma query_uncached:
  assumes "dict_get (ig_namespaces st) (qa_namespace qa) = Some nsr" "int (length (qa_vector qa)) = ns_dimension nsr"
    "get_query ro qt now (qa_namespace qa) (qa_vector qa) (qa_top_k qa) (qa_filters qa) c = (x, c1)" "\<forall>r. x \<noteq> Inr (Some r)"
    "route_for_query now (qa_namespace qa) (ig_router st) = (shards, rt)" "shards \<noteq> []"
    "search_shards ev qa shards (st\<lparr>ig_router := rt\<rparr>) = (Inr parts, st2)"
    "merge_hits mode (qa_vector qa) (qa_top_k qa) (concat (map fst parts)) = Inr hs"
    "\<not> qa_include_vector qa"
    "r = \<lparr>qr_results = hs, qr_took_ms = took, qr_shard_count = length shards, qr_scanned = sum_list (map snd parts)\<rparr>"
  shows "query ev ro qt mode False now now2 took qa (st, c) =
    (Inr r, st2, set_query ro qt now2 (qa_namespace qa) (qa_vector qa) (qa_top_k qa) (qa_filters qa) r c1)"
proof -
  have "query ev ro qt mode False now now2 took qa (st, c) =
      (case (x, qa_include_vector qa) of
          (Inr (Some r), False) \<Rightarrow> (Inr r, st, c1)
        | _ \<Rightarrow> (Inr r, st2, set_query ro qt now2 (qa_namespace qa) (qa_vector qa) (qa_top_k qa) (qa_filters qa) r c1))"
    using assms by (simp add: query_def Let_def split: sum.splits option.splits)
  then show ?thesis using assms(4) by (simp split: sum.splits option.splits)
qed

text \<open>
  C15: Over flat indexes a query is exact: when the cache has no answer, the query returns a best
  \<open>top_k\<close> of all entries of all opened shards of the namespace that satisfy the filter (and whose
  score is above the cut-off), in descending order of score, and leaves the service as it was up to
  the routing cache. Shards without an open context contribute nothing.
\<close>

theorem query_exact:
  assumes "np_contract (lib_np (ie_libs ev))"
    and "dict_get (ig_namespaces st) (qa_namespace qa) = Some nsr"
    and "int (length (qa_vector qa)) = ns_dimension nsr" "\<not> qa_include_vector qa"
    and "get_query ro qt now (qa_namespace qa) (qa_vector qa) (qa_top_k qa) (qa_filters qa) c = (x, c1)"
    and "\<forall>r. x \<noteq> Inr (Some r)"
    and "route_for_query now (qa_namespace qa) (ig_router st) = (shards, rt)" "shards \<noteq> []"
    and "\<forall>r \<in> set shards. flat_ready ev qa st r"
  shows "\<exists>res c2. query ev ro qt NoRerank False now now2 took qa (st, c) = (Inr res, st\<lparr>ig_router := rt\<rparr>, c2) \<and>
    top_of qh_score (qa_top_k qa) (\<Sum>\<^sub># (mset (map (shard_matching ev qa st) shards))) (qr_results res) \<and>
    qr_shard_count res = length shards"
proof -
  let ?st = "st\<lparr>ig_router := rt\<rparr>"
  have e: "r_etcd rt = r_etcd (ig_router st)" by (rule route_for_query_etcd [OF assms(7)])
  then have same: "shard_matching ev qa ?st = shard_matching ev qa st" "flat_ready ev qa ?st = flat_ready ev qa st"
    by (simp_all add: fun_eq_iff shard_matching_def flat_ready_def heap_shard_def)
  have "\<forall>r \<in> set shards. flat_ready ev qa ?st r" using assms(9) by (simp add: same)
  from search_shards_flat [OF assms(1,4) this] obtain ps where
    ps: "search_shards ev qa shards ?st = (Inr (map (\<lambda>(M, hs). (hs, length hs)) ps), ?st)"
      "map fst ps = map (shard_matching ev qa st) shards"
      "\<forall>p \<in> set ps. top_of qh_score (qa_top_k qa) (fst p) (snd p)"
    unfolding same by blast
  let ?cands = "concat (map fst (map (\<lambda>(M, hs). (hs, length hs)) ps))"
  have cands: "?cands = concat (map snd ps)" by (simp add: case_prod_beta o_def)
  note q = query_uncached [OF assms(2,3,5,6,7,8) ps(1) merge_plain assms(4) refl, of now2 took, unfolded cands]
  show ?thesis
    by (intro exI conjI, rule q) (use merge_parts [OF ps(3)] ps(2) in simp_all)
qed

text \<open>
  The cache confuses queries. Once a query has been computed, every query of the same namespace,
  \<open>top_k\<close> and filters whose vector agrees with it in the first eight components gets its answer until
  the entry expires, whatever the rest of the vector is and whatever has happened to the data, the
  shards or the re-ranking mode in between.
\<close>

theorem query_cache_confuses:
  assumes "query ev ro qt mode timeout now now2 took qa (st, c) = (Inr r, st1, c1)"
    and "\<forall>r'. fst (get_query ro qt now (qa_namespace qa) (qa_vector qa) (qa_top_k qa) (qa_filters qa) c) \<noteq> Inr (Some r')"
    and "qr_shard_count r \<noteq> 0" "\<not> qa_include_vector qa" "qt_loads qt (qt_dumps qt r) = Inr r"
    and "qa_namespace qa' = qa_namespace qa" "qa_top_k qa' = qa_top_k qa" "qa_filters qa' = qa_filters qa"
    and "take 8 (qa_vector qa') = take 8 (qa_vector qa)" "\<not> qa_include_vector qa'"
    and "dict_get (ig_namespaces st') (qa_namespace qa) = Some nsr" "int (length (qa_vector qa')) = ns_dimension nsr"
    and "now' - now2 < of_int (tc_ttl c)"
  shows "query ev' ro qt mode' timeout' now' now2' took' qa' (st', c1) = (Inr r, st', c1)"
proof -
  obtain x c0 where g: "get_query ro qt now (qa_namespace qa) (qa_vector qa) (qa_top_k qa) (qa_filters qa) c = (x, c0)"
    by fastforce
  have miss: "\<forall>r'. x \<noteq> Inr (Some r')" using assms(2) g by simp
  have ttl: "tc_ttl c0 = tc_ttl c" using g
    by (auto simp: get_query_def get_l2_def Let_def split: option.splits if_splits sum.splits prod.splits)
  have c1: "c1 = set_query ro qt now2 (qa_namespace qa) (qa_vector qa) (qa_top_k qa) (qa_filters qa) r c0"
    using assms(1,3,4) miss
    by (auto simp: query_def Let_def g split: option.splits if_splits sum.splits prod.splits)
  have h: "hash_query qt (qa_namespace qa') (qa_vector qa') (qa_top_k qa') (qa_filters qa') =
      hash_query qt (qa_namespace qa) (qa_vector qa) (qa_top_k qa) (qa_filters qa)"
    by (simp add: hash_query_def assms(6-9))
  have "get_query ro qt now' (qa_namespace qa') (qa_vector qa') (qa_top_k qa') (qa_filters qa') c1 = (Inr (Some r), c1)"
    using assms(5,13) by (simp add: get_query_def Let_def h) (simp add: c1 set_query_def Let_def map_of_dict_put ttl)
  then show ?thesis using assms(6,10-12) by (simp add: query_def Let_def)
qed

subsection \<open>A concrete query\<close>

text \<open>A service with one open shard of dimension 9, and two vectors that differ in the last component.\<close>

definition nine :: "real \<Rightarrow> vec" where
  "nine x = [1, 0, 0, 0, 0, 0, 0, 0, x]"

definition nine_flat :: flat where
  "nine_flat = \<lparr>fl_dimension = 9, fl_metric = ''dot_product'', fl_ids = [''a''], fl_vectors = Some [nine 1],
     fl_metadatas = [[]], fl_id_to_idx = [(''a'', 0)]\<rparr>"

definition nine_service :: "(unit, unit) ingest" where
  "nine_service = open_service\<lparr>ig_namespaces := [(''ns'', demo_namespace\<lparr>ns_dimension := 9\<rparr>)],
     ig_shards := [(''ns:s1'', (0, demo_ctx\<lparr>cx_index := FlatIx nine_flat\<rparr>))]\<rparr>"

definition nine_query :: "real \<Rightarrow> query_args" where
  "nine_query x = \<lparr>qa_namespace = ''ns'', qa_vector = nine x, qa_top_k = 5, qa_ef_search = None,
     qa_nprobe = None, qa_filters = [], qa_include_metadata = True, qa_include_vector = False\<rparr>"

definition nine_hit :: "real \<Rightarrow> hit" where
  "nine_hit x = \<lparr>qh_id = ''a'', qh_score = 1 + x, qh_metadata = [], qh_vector = None, qh_reranked = False\<rparr>"

definition nine_result :: "real \<Rightarrow> query_result" where
  "nine_result x = \<lparr>qr_results = [nine_hit x], qr_took_ms = 0, qr_shard_count = 1, qr_scanned = 1\<rparr>"

definition nine_texts :: query_texts where
  "nine_texts = \<lparr>qt_sha = (\<lambda>s. s), qt_vector = (\<lambda>v. []), qt_filters = (\<lambda>f. []),
     qt_dumps = (\<lambda>r. if r = nine_result 1 then ''y'' else ''n''), qt_loads = (\<lambda>s. Inr (nine_result 1))\<rparr>"

definition no_redis :: "unit redis_ops" where
  "no_redis = \<lparr>ro_get = (\<lambda>k r. Inr None), ro_setex = (\<lambda>k t v r. (Inr (), r)), ro_clear = (\<lambda>k r. r)\<rparr>"

definition no_cache :: "unit cache" where
  "no_cache = \<lparr>tc_ttl = 60, tc_namespace = ''vsector'', tc_l1 = [], tc_redis = None\<rparr>"

lemma nine_miss: "get_query no_redis nine_texts t n v k f no_cache = (Inr None, no_cache)"
  by (simp add: get_query_def get_l2_def no_cache_def Let_def)

lemma nine_route: "\<exists>rt. route_for_query 0 ''ns'' (ig_router nine_service) = ([0], rt)"
  by (simp add: route_for_query_def get_shards_cached_def nine_service_def open_service_def svc_simps
      list_by_namespace_def readable_states_def Let_def)

lemma nine_heap: "heap_shard nine_service r = svc_shard"
  by (simp add: nine_service_def heap_shard_def open_service_def svc_simps)

lemma nine_open: "dict_get (ig_shards nine_service) ''ns:s1'' = Some (0, demo_ctx\<lparr>cx_index := FlatIx nine_flat\<rparr>)"
  by (simp add: nine_service_def)

lemma nine_ready: "flat_ready demo_env (nine_query x) nine_service 0"
  by (simp add: flat_ready_def nine_heap ctx_key_def nine_query_def open_service_fields nine_open query_filter_def
      flat_error_def flat_inv_def nine_flat_def nine_def)

lemma nine_matching:
  assumes "x > 0"
  shows "shard_matching demo_env (nine_query x) nine_service 0 = {# nine_hit x #}"
proof -
  have "score ''dot_product'' (nine x) (nine 1) = 1 + x" by (simp add: score_def dot_def nine_def)
  moreover have "- (10 ^ 8) < 1 + x" using assms by simp
  ultimately show ?thesis
    by (simp add: shard_matching_def nine_heap ctx_key_def nine_query_def open_service_fields nine_open query_filter_def
        matching_def flat_hit_def nine_flat_def flat_rows_def result_at_def qh_of_def nine_hit_def)
qed

lemma nine_dim: "int (length (qa_vector (nine_query x))) = ns_dimension (demo_namespace\<lparr>ns_dimension := 9\<rparr>)"
  by (simp add: nine_query_def nine_def)

lemma nine_ns: "dict_get (ig_namespaces nine_service) (qa_namespace (nine_query x)) = Some (demo_namespace\<lparr>ns_dimension := 9\<rparr>)"
  by (simp add: nine_service_def nine_query_def)

lemma nine_np: "np_contract (lib_np (ie_libs demo_env))"
  by (simp add: demo_env_def demo_libs_def stable_np_contract)

lemma query_exact_witness:
  "\<exists>res st c2. query demo_env no_redis nine_texts NoRerank False 0 0 0 (nine_query 2) (nine_service, no_cache) = (Inr res, st, c2) \<and>
     qr_results res = [nine_hit 2] \<and> qr_shard_count res = 1"
proof -
  obtain rt where rt: "route_for_query 0 ''ns'' (ig_router nine_service) = ([0], rt)" using nine_route by blast
  have ns: "qa_namespace (nine_query 2) = ''ns''" by (simp add: nine_query_def)
  have "\<not> qa_include_vector (nine_query 2)" by (simp add: nine_query_def)
  from query_exact [OF nine_np nine_ns nine_dim this nine_miss [where t = 0],
      where shards = "[0]" and rt = rt and ?now2.0 = 0 and took = 0]
  obtain res c2 where q: "query demo_env no_redis nine_texts NoRerank False 0 0 0 (nine_query 2) (nine_service, no_cache) =
        (Inr res, nine_service\<lparr>ig_router := rt\<rparr>, c2)"
      "top_of qh_score (qa_top_k (nine_query 2)) {# nine_hit 2 #} (qr_results res)" "qr_shard_count res = 1"
    using rt nine_ready by (auto simp: ns nine_matching)
  have "length (qr_results res) = 1" "set (qr_results res) \<subseteq> {nine_hit 2}"
    using q(2) by (auto simp: top_of_def nine_query_def dest: mset_subset_eqD)
  then have "qr_results res = [nine_hit 2]" by (cases "qr_results res") auto
  with q show ?thesis by blast
qed

lemma nine_answer:
  obtains rt c1 where "route_for_query 0 ''ns'' (ig_router nine_service) = ([0], rt)"
    "query demo_env no_redis nine_texts NoRerank False 0 0 0 (nine_query 1) (nine_service, no_cache) =
       (Inr (nine_result 1), nine_service\<lparr>ig_router := rt\<rparr>, c1)"
proof -
  obtain rt where rt: "route_for_query 0 ''ns'' (ig_router nine_service) = ([0], rt)" using nine_route by blast
  let ?st = "nine_service\<lparr>ig_router := rt\<rparr>" and ?qa = "nine_query 1"
  have e: "r_etcd rt = r_etcd (ig_router nine_service)" by (rule route_for_query_etcd [OF rt])
  then have "flat_ready demo_env ?qa ?st = flat_ready demo_env ?qa nine_service"
    "shard_matching demo_env ?qa ?st = shard_matching demo_env ?qa nine_service"
    by (simp_all add: fun_eq_iff flat_ready_def shard_matching_def heap_shard_def)
  with nine_ready have ready: "flat_ready demo_env ?qa ?st 0" "shard_matching demo_env ?qa ?st 0 = {# nine_hit 1 #}"
    by (simp_all add: nine_matching)
  have ni: "\<not> qa_include_vector ?qa" by (simp add: nine_query_def)
  obtain hs where hs: "search_shard demo_env ?qa 0 ?st = (Inr (hs, length hs), ?st)"
      "top_of qh_score (qa_top_k ?qa) {# nine_hit 1 #} hs"
    using search_shard_flat [OF nine_np ni ready(1)] ready(2) by auto
  have "length hs = 1" "set hs \<subseteq> {nine_hit 1}"
    using hs(2) by (auto simp: top_of_def nine_query_def dest: mset_subset_eqD)
  then have hs1: "hs = [nine_hit 1]" by (cases hs) auto
  have m: "merge_hits NoRerank (qa_vector ?qa) (qa_top_k ?qa) (concat (map fst [([nine_hit 1], 1)])) = Inr [nine_hit 1]"
    by (simp add: merge_plain sort_desc_def nine_query_def)
  have ss: "search_shards demo_env ?qa [0] ?st = (Inr [([nine_hit 1], 1)], ?st)" by (simp add: hs hs1)
  have rt': "route_for_query 0 (qa_namespace ?qa) (ig_router nine_service) = ([0], rt)" using rt by (simp add: nine_query_def)
  have res: "nine_result 1 = \<lparr>qr_results = [nine_hit 1], qr_took_ms = 0, qr_shard_count = length [0 :: sref],
      qr_scanned = sum_list (map snd [([nine_hit 1], 1)])\<rparr>" by (simp add: nine_result_def)
  obtain c1 where q: "query demo_env no_redis nine_texts NoRerank False 0 0 0 ?qa (nine_service, no_cache) = (Inr (nine_result 1), ?st, c1)"
    using query_uncached [OF nine_ns nine_dim nine_miss [where t = 0] _ rt' _ ss m ni res, where ?now2.0 = 0] by auto
  with rt that show thesis by blast
qed

lemma query_cache_confuses_witness:
  "\<exists>st1 c1. query demo_env no_redis nine_texts NoRerank False 0 0 0 (nine_query 1) (nine_service, no_cache) =
        (Inr (nine_result 1), st1, c1) \<and>
     query demo_env no_redis nine_texts NoRerank False 1 1 0 (nine_query 2) (nine_service, c1) =
        (Inr (nine_result 1), nine_service, c1)"
proof -
  obtain rt c1 where q: "query demo_env no_redis nine_texts NoRerank False 0 0 0 (nine_query 1) (nine_service, no_cache) =
      (Inr (nine_result 1), nine_service\<lparr>ig_router := rt\<rparr>, c1)" by (rule nine_answer)
  have miss: "\<forall>r'. fst (get_query no_redis nine_texts 0 (qa_namespace (nine_query 1)) (qa_vector (nine_query 1)) (qa_top_k (nine_query 1))
      (qa_filters (nine_query 1)) no_cache) \<noteq> Inr (Some r')" by (simp add: nine_miss)
  have "query demo_env no_redis nine_texts NoRerank False 1 1 0 (nine_query 2) (nine_service, c1) =
      (Inr (nine_result 1), nine_service, c1)"
    by (rule query_cache_confuses [OF q miss, of "nine_query 2" nine_service "demo_namespace\<lparr>ns_dimension := 9\<rparr>" 1])
      (simp_all add: nine_query_def nine_result_def nine_texts_def nine_def no_cache_def nine_service_def)
  with q show ?thesis by blast
qed

end
