(* ===== verification/Service_Types.thy ===== *)
theory Service_Types
  imports Query_Facts
begin

text \<open>
  What every index of a running service satisfies. The interface \<open>index_law\<close> states what the four
  index operations keep; inside it the law is carried through every request to the service, replicas
  included. Its interpretation is the typing of the indexes: the class the namespace asks for, rows of
  the namespace's dimension, and aligned tables.
\<close>

subsection \<open>The interface\<close>

locale index_law =
  fixes ev :: "('h, 'f) ienv" and Q :: "namespace \<Rightarrow> ('h, 'f) vindex \<Rightarrow> bool"
  assumes created: "create_index (lib_hnsw (ie_libs ev)) (lib_faiss (ie_libs ev))
      (index_type_value (ns_index_type nsr)) (nat (ns_dimension nsr)) (metric_value (ns_distance_metric nsr)) = Inr ix \<Longrightarrow>
      Q nsr ix"
    and added: "Q nsr ix \<Longrightarrow> vx_add (lib_hnsw (ie_libs ev)) (lib_faiss (ie_libs ev)) es ix = (x, ix') \<Longrightarrow> Q nsr ix'"
    and deleted: "Q nsr ix \<Longrightarrow> Q nsr (vx_delete (lib_hnsw (ie_libs ev)) del ix)"
    and searched: "Q nsr ix \<Longrightarrow> filtered_search (ie_libs ev) q k ef nprobe p ix = (y, ix') \<Longrightarrow> Q nsr ix'"
begin

definition ctx_good :: "('h, 'f) shard_ctx \<Rightarrow> bool" where
  "ctx_good cx \<longleftrightarrow> Q (cx_namespace cx) (cx_index cx)"

definition all_good :: "(string, 'a \<times> ('h, 'f) shard_ctx) dict \<Rightarrow> bool" where
  "all_good d \<longleftrightarrow> (\<forall>k s cx. dict_get d k = Some (s, cx) \<longrightarrow> ctx_good cx)"

definition good :: "('h, 'f) ingest \<Rightarrow> bool" where
  "good st \<longleftrightarrow> all_good (ig_shards st) \<and> all_good (ig_endpoints st)"

lemma all_good_put [simp]: "all_good d \<Longrightarrow> ctx_good cx \<Longrightarrow> all_good (dict_put k (s, cx) d)"
  by (auto simp: all_good_def map_of_dict_put split: if_splits)

lemma all_goodD: "all_good d \<Longrightarrow> dict_get d k = Some (s, cx) \<Longrightarrow> ctx_good cx"
  unfolding all_good_def by blast

lemma all_good_update:
  "all_good d \<Longrightarrow> dict_get d k = Some (s, cx) \<Longrightarrow> (ctx_good cx \<Longrightarrow> ctx_good cx') \<Longrightarrow> all_good (dict_put k (s', cx') d)"
  by (blast dest: all_goodD intro: all_good_put)

lemma good_frame [simp]:
  "good (st\<lparr>ig_router := rt\<rparr>) = good st" "good (st\<lparr>ig_stats := t\<rparr>) = good st"
  "good (st\<lparr>ig_idempotency := i\<rparr>) = good st" "good (set_shard r s st) = good st"
  "good (st\<lparr>ig_shards := d\<rparr>) = (all_good d \<and> all_good (ig_endpoints st))"
  "good (st\<lparr>ig_router := rt, ig_stats := t\<rparr>) = good st"
  by (simp_all add: good_def)

lemma ctx_good_frame [simp]:
  "ctx_good (cx\<lparr>cx_wal := w\<rparr>) = ctx_good cx" "ctx_good (cx\<lparr>cx_segments := g\<rparr>) = ctx_good cx"
  "ctx_good (cx\<lparr>cx_lifecycle := l\<rparr>) = ctx_good cx" "ctx_good (cx\<lparr>cx_tombstones := t\<rparr>) = ctx_good cx"
  "ctx_good (cx\<lparr>cx_segments := g, cx_lifecycle := l\<rparr>) = ctx_good cx"
  by (simp_all add: ctx_good_def)

subsection \<open>Contexts\<close>

lemma load_records_good:
  "load_records (ie_libs ev) rs (ix, l, s) = (x, ix', l', s') \<Longrightarrow> Q nsr ix \<Longrightarrow> Q nsr ix'"
  by (induction rs arbitrary: ix l s) (auto split: prod.splits sum.splits dest: added)

lemma open_ctx_good:
  "open_ctx (ie_libs ev) (ie_codec ev) mo base s nsr fs = (Inr cx, s') \<Longrightarrow> ctx_good cx"
  by (auto simp: open_ctx_def ctx_good_def split: sum.splits prod.splits dest: created load_records_good)

lemma log_payload_good [simp]: "ctx_good (log_payload mo p cx) = ctx_good cx"
  by (simp add: log_payload_def)

lemma flush_ctx_good: "flush_ctx cx = (x, cx') \<Longrightarrow> ctx_good cx' = ctx_good cx"
  by (auto simp: flush_ctx_def split: prod.splits)

lemma store_record_good:
  "store_record (ie_libs ev) (ie_codec ev) mo rec cx = (x, cx') \<Longrightarrow> ctx_good cx \<Longrightarrow> ctx_good cx'"
  by (auto simp: store_record_def Let_def ctx_good_def log_payload_def split: prod.splits sum.splits dest: added)

lemma tombstone_good: "ctx_good cx \<Longrightarrow> ctx_good (tombstone (ie_libs ev) (ie_codec ev) mo b i cx)"
  by (simp add: tombstone_def log_payload_def ctx_good_def deleted)

lemma replica_apply_good:
  "replica_apply (ie_libs ev) (ie_codec ev) mo p (s, cx) = (x, s', cx') \<Longrightarrow> ctx_good cx \<Longrightarrow> ctx_good cx'"
proof (cases p)
  case (Upsert r)
  then show "replica_apply (ie_libs ev) (ie_codec ev) mo p (s, cx) = (x, s', cx') \<Longrightarrow> ctx_good cx \<Longrightarrow> ctx_good cx'"
    by (auto simp: apply_replicated_upsert_def split: sum.splits prod.splits if_splits option.splits
        dest: store_record_good flush_ctx_good)
next
  case (Delete i)
  then show "replica_apply (ie_libs ev) (ie_codec ev) mo p (s, cx) = (x, s', cx') \<Longrightarrow> ctx_good cx \<Longrightarrow> ctx_good cx'"
    by (auto simp: apply_replicated_delete_def Let_def log_payload_def split: sum.splits prod.splits
        dest!: flush_ctx_good) (simp_all add: ctx_good_def deleted)
qed

subsection \<open>Replication\<close>

lemma get_endpoint_good:
  assumes "get_endpoint ev st mo ns sid n eps = (x, eps')" "all_good eps"
  shows "all_good eps' \<and> (\<forall>s cx. x = Inr (s, cx) \<longrightarrow> ctx_good cx)"
  using assms
  by (auto simp: get_endpoint_def split: option.splits sum.splits prod.splits dest: open_ctx_good all_goodD)

lemma endpoint_attempt_good:
  assumes "endpoint_attempt ev st mos ns sid p j n eps = (x, eps')" "all_good eps"
  shows "all_good eps'"
proof (cases "get_endpoint ev st (mos (Suc j)) ns sid n eps")
  case (Pair y eps1)
  note g = get_endpoint_good [OF Pair assms(2)]
  show ?thesis
  proof (cases y)
    case (Inr ep)
    obtain s cx where ep: "ep = (s, cx)" by (cases ep)
    obtain z s' cx' where r: "replica_apply (ie_libs ev) (ie_codec ev) (mos (Suc j)) p (s, cx) = (z, s', cx')"
      by (metis prod_cases3)
    show ?thesis using assms(1) g r ep Inr Pair replica_apply_good [OF r]
      by (auto simp: endpoint_attempt_def)
  qed (use assms(1) g Pair in \<open>simp add: endpoint_attempt_def\<close>)
qed

lemma deliver_loop_good:
  "deliver_loop (endpoint_attempt ev st mos ns sid p) clk ns sid j nodes (res, tp, eps) = (res', tp', eps') \<Longrightarrow>
     all_good eps \<Longrightarrow> all_good eps'"
proof (induction nodes arbitrary: j res tp eps)
  case (Cons n nodes)
  obtain r1 t1 e1 where d: "deliver_one (endpoint_attempt ev st mos ns sid p) clk ns sid j n (res, tp, eps) = (r1, t1, e1)"
    by (metis prod_cases3)
  then have "all_good e1" using Cons.prems(2)
    by (auto simp: deliver_one_def Let_def split: if_splits prod.splits sum.splits dest: endpoint_attempt_good)
  with Cons.IH [of "Suc j" r1 t1 e1] Cons.prems(1) d show ?case by simp
qed simp

lemma replicate_good:
  assumes "replicate ev mos ns s required p st = (res, st')" "good st"
  shows "good st'"
  using assms deliver_loop_good [of st mos ns "sh_id s" p]
  by (auto simp: replicate_def deliver_def Let_def good_def split: prod.splits)

subsection \<open>Requests\<close>

lemma get_or_create_good:
  "get_or_create_ctx ev mo ns r st = (x, st') \<Longrightarrow> good st \<Longrightarrow> good st'"
  by (auto simp: get_or_create_ctx_def Let_def good_def split: option.splits sum.splits prod.splits dest: open_ctx_good)

lemma store_primary_good:
  "store_primary ev mo rec r key st = (x, st') \<Longrightarrow> good st \<Longrightarrow> good st'"
  by (auto simp: store_primary_def Let_def good_def split: option.splits sum.splits prod.splits
      dest: store_record_good all_goodD)

lemma upsert_one_good:
  assumes "upsert_one ev mos fresh kids ns nsr raw a = (x, a')" "good (ua_service a)"
  shows "good (ua_service a')"
  using assms
  by (auto simp: upsert_one_def Let_def split: sum.splits prod.splits
      dest!: get_or_create_good store_primary_good replicate_good)

lemma upsert_loop_good: "good (ua_service a) \<Longrightarrow> good (ua_service (upsert_loop ev clk ids ns nsr k raws a))"
proof (induction raws arbitrary: k a)
  case (Cons raw raws)
  have "good (ua_service (upsert_caught ev (clk k) (fst (ids k)) (snd (ids k)) ns nsr raw a))"
    using Cons.prems by (auto simp: upsert_caught_def split: prod.splits sum.splits dest: upsert_one_good)
  then show ?case by (simp add: Cons.IH)
qed simp

lemma flush_touched_good: "flush_touched keys st = (x, st') \<Longrightarrow> good st \<Longrightarrow> good st'"
proof (induction keys arbitrary: st)
  case (Cons key keys)
  then show ?case
    by (fastforce split: option.splits prod.splits sum.splits simp: good_def dest: flush_ctx_good all_goodD)
qed simp

lemma background_one_good: "ctx_good cx \<Longrightarrow> ctx_good (background_one (ie_codec ev) mo cx)"
  by (simp add: background_one_def Let_def)

lemma background_good: "good st \<Longrightarrow> good (background (ie_codec ev) mos keys st)"
  unfolding background_def
proof (rule fold_invariant [where Q = "\<lambda>x. True" and P = good], goal_cases)
  case (3 x s)
  then show ?case
    by (cases x) (auto simp: good_def split: option.splits elim: all_good_update [OF _ _ background_one_good])
qed simp_all

lemma upsert_good:
  assumes "upsert ev clk ids took ns raws idem st = (x, st')" "good st"
  shows "good st'"
proof -
  have loop: "good (ua_service (upsert_loop ev clk ids ns nsr 0 raws
      \<lparr>ua_service = st, ua_touched = [], ua_results = [], ua_upserted = [], ua_errors = []\<rparr>))" for nsr
    by (rule upsert_loop_good) (simp add: assms(2))
  show ?thesis
    using assms loop
    by (auto simp: upsert_def Let_def split: option.splits if_splits sum.splits prod.splits
        dest!: flush_touched_good intro: background_good)
qed

lemma delete_id_good: "good (da_service a) \<Longrightarrow> good (da_service (delete_id ev mos b ns nsr r key i a))"
  by (auto simp: delete_id_def Let_def split: option.splits prod.splits dest!: replicate_good)
    (auto simp: good_def intro: all_good_update tombstone_good)

lemma delete_ids_good:
  "delete_ids ev clk ns nsr r key k is a = (x, k', a') \<Longrightarrow> good (da_service a) \<Longrightarrow> good (da_service a')"
  by (induction "is" arbitrary: k a) (auto split: option.splits sum.splits intro: delete_id_good)

lemma delete_matching_good:
  "delete_matching ev clk ns nsr r key f k recs a = (x, k', a') \<Longrightarrow> good (da_service a) \<Longrightarrow> good (da_service a')"
  by (induction recs arbitrary: k a) (auto split: sum.splits if_splits intro: delete_id_good)

lemma delete_in_shard_good:
  assumes "delete_in_shard ev clk ns nsr del f k r a = (x, k', a')" "good (da_service a)"
  shows "good (da_service a')"
proof (cases "get_or_create_ctx ev (clk k 0) ns r (da_service a)")
  case (Pair y st)
  then have "good st" using get_or_create_good assms(2) by blast
  then show ?thesis using assms(1) Pair
    by (auto simp: delete_in_shard_def Let_def split: sum.splits if_splits option.splits
        dest!: delete_ids_good delete_matching_good)
qed

lemma delete_loop_good:
  "delete_loop ev clk ns nsr del f k rs a = (x, a') \<Longrightarrow> good (da_service a) \<Longrightarrow> good (da_service a')"
  by (induction rs arbitrary: k a) (auto split: sum.splits prod.splits dest!: delete_in_shard_good)

lemma ingest_delete_good:
  assumes "ingest_delete ev clk now ns del f st = (x, st')" "good st"
  shows "good st'"
  using assms
  by (auto simp: ingest_delete_def split: option.splits sum.splits prod.splits
      dest!: flush_touched_good delete_loop_good)

lemma fetch_good: "fetch ev mos ns is st = (x, st') \<Longrightarrow> good st \<Longrightarrow> good st'"
proof -
  have "fetch_loop ev mos ns k is out st = (x, st') \<Longrightarrow> good st \<Longrightarrow> good st'" for k out
    by (induction "is" arbitrary: k out st)
      (auto split: sum.splits prod.splits option.splits dest!: get_or_create_good)
  then show "fetch ev mos ns is st = (x, st') \<Longrightarrow> good st \<Longrightarrow> good st'" by (simp add: fetch_def)
qed

lemma search_shard_good:
  assumes "search_shard ev qa r st = (x, st')" "good st"
  shows "good st'"
proof (cases "dict_get (ig_shards st) (ctx_key (qa_namespace qa) (sh_id (heap_shard st r)))")
  case (Some rc)
  obtain r1 cx where rc: "rc = (r1, cx)" by (cases rc)
  obtain y ix where f: "filtered_search (ie_libs ev) (qa_vector qa) (qa_top_k qa)
      (case qa_ef_search qa of None \<Rightarrow> 100 | Some n \<Rightarrow> n) (qa_nprobe qa) (query_filter ev qa) (cx_index cx) = (y, ix)"
    by fastforce
  have "ctx_good (cx\<lparr>cx_index := ix\<rparr>)"
    using searched [OF _ f] assms(2) Some rc by (auto simp: good_def ctx_good_def dest: all_goodD)
  moreover have "st' = st\<lparr>ig_shards := dict_put (ctx_key (qa_namespace qa) (sh_id (heap_shard st r)))
      (r1, cx\<lparr>cx_index := ix\<rparr>) (ig_shards st)\<rparr>"
    using assms(1) Some rc f by (auto simp: search_shard_def Let_def split: sum.splits)
  ultimately show ?thesis using assms(2) by (simp add: good_def)
qed (use assms in \<open>simp add: search_shard_def\<close>)

lemma search_shards_good: "search_shards ev qa rs st = (x, st') \<Longrightarrow> good st \<Longrightarrow> good st'"
  by (induction rs arbitrary: st x) (auto split: prod.splits dest: search_shard_good)

lemma query_good:
  assumes "query ev ro qt mode timeout now now2 took qa (st, c) = (x, st', c')" "good st"
  shows "good st'"
  using assms
  by (auto simp: query_def Let_def split: option.splits if_splits sum.splits prod.splits bool.splits
      dest!: search_shards_good)

end

subsection \<open>The typing of an index\<close>

text \<open>A flat index is aligned and of the dimension; its metadata are aligned in any case.\<close>

definition flat_typed :: "nat \<Rightarrow> flat \<Rightarrow> bool" where
  "flat_typed d f \<longleftrightarrow> flat_inv f \<and> fl_dimension f = d"

text \<open>The tables of HNSW: a label per live entry, known to both label tables, below the next label.\<close>

definition labels_ok ::
    "(nat, string) dict \<Rightarrow> (string, nat) dict \<Rightarrow> (nat, metadata) dict \<Rightarrow> nat \<Rightarrow> int \<Rightarrow> bool" where
  "labels_ok L I M n c \<longleftrightarrow> dom (map_of L) = dom (map_of M) \<and> (\<forall>l \<in> dom (map_of L). l < n) \<and>
     (\<forall>i l. map_of I i = Some l \<longrightarrow> map_of L l = Some i) \<and> c = int (card (dom (map_of L)))"

definition hnsw_typed :: "nat \<Rightarrow> 'h hnsw \<Rightarrow> bool" where
  "hnsw_typed d x \<longleftrightarrow>
     (case hn_backend x of
        Inl h \<Rightarrow> labels_ok (hn_label_to_id x) (hn_id_to_label x) (hn_metadatas x) (hn_next_label x) (hn_count x)
      | Inr f \<Rightarrow> flat_typed d f \<and> hn_count x = int (flat_count f))"

definition ivf_typed :: "nat \<Rightarrow> 'f faiss_lib option \<Rightarrow> 'f ivf \<Rightarrow> bool" where
  "ivf_typed d lib x \<longleftrightarrow> iv_dimension x = d \<and> fl_dimension (iv_fallback x) = d \<and>
     length (fl_metadatas (iv_fallback x)) = length (fl_ids (iv_fallback x)) \<and>
     length (iv_metadatas x) = length (iv_ids x) \<and> (lib = None \<longrightarrow> iv_faiss x = None) \<and>
     (iv_faiss x = None \<longrightarrow> flat_inv (iv_fallback x) \<and> iv_ids x = [])"

fun index_typed :: "('h, 'f) libs \<Rightarrow> namespace \<Rightarrow> ('h, 'f) vindex \<Rightarrow> bool" where
  "index_typed lb nsr (FlatIx f) = (ns_index_type nsr = FLAT \<and> flat_typed (nat (ns_dimension nsr)) f)"
| "index_typed lb nsr (HnswIx x) = (ns_index_type nsr = HNSW \<and> hnsw_typed (nat (ns_dimension nsr)) x)"
| "index_typed lb nsr (IvfIx x) = (ns_index_type nsr = IVF_PQ \<and> ivf_typed (nat (ns_dimension nsr)) (lib_faiss lb) x)"
| "index_typed lb nsr (ScannIx s) = (ns_index_type nsr = SCANN \<and> flat_typed (nat (ns_dimension nsr)) (sc_flat s))"

lemma flat_typed_ops:
  "flat_typed d (new_flat d metric)"
  "flat_typed d f \<Longrightarrow> flat_add es f = (x, f') \<Longrightarrow> flat_typed d f'"
  "flat_typed d f \<Longrightarrow> flat_typed d (flat_delete del f)"
proof -
  show "flat_typed d (new_flat d metric)" using new_flat_inv by (simp add: flat_typed_def) (simp add: new_flat_def)
  show "flat_typed d f \<Longrightarrow> flat_add es f = (x, f') \<Longrightarrow> flat_typed d f'"
    by (cases x) (auto simp: flat_typed_def dest: flat_add_error flat_add_entries)
  show "flat_typed d f \<Longrightarrow> flat_typed d (flat_delete del f)"
    using flat_delete_entries by (auto simp: flat_typed_def flat_delete_def Let_def)
qed

lemma labels_ok_put:
  assumes "labels_ok L I M n c"
  shows "labels_ok (dict_put n i L) (dict_put i n I) (dict_put n m M) (Suc n) (c + 1)"
proof -
  have n: "n \<notin> dom (map_of L)" using assms by (auto simp: labels_ok_def)
  have "finite (dom (map_of L))" by (rule finite_dom_map_of)
  with n assms show ?thesis
    by (auto simp: labels_ok_def map_of_dict_put intro: less_SucI)
qed

lemma labels_ok_puts:
  "labels_ok L I M n c \<Longrightarrow> labels_ok
     (fold (\<lambda>(k, i, v, m) d. dict_put k i d) (zip [n..<n + length es] es) L)
     (fold (\<lambda>(k, i, v, m) d. dict_put i k d) (zip [n..<n + length es] es) I)
     (fold (\<lambda>(k, i, v, m) d. dict_put k m d) (zip [n..<n + length es] es) M) (n + length es) (c + int (length es))"
proof (induction es arbitrary: L I M n c)
  case (Cons e es)
  obtain i v m where e: "e = (i, v, m)" by (cases e)
  have u: "[n..<Suc (n + length es)] = n # [Suc n..<Suc (n + length es)]"
    by (simp add: upt_conv_Cons del: upt_Suc)
  from Cons.IH [OF labels_ok_put [OF Cons.prems, of i m]] show ?case
    by (simp add: e u algebra_simps del: upt_Suc)
qed simp

lemma labels_ok_pop:
  assumes "labels_ok L I M n c" "map_of I i = Some l"
  shows "labels_ok (dict_pop l L) (dict_pop i I) (dict_pop l M) n (max 0 (c - 1))"
proof -
  have l: "map_of L l = Some i" using assms by (simp add: labels_ok_def)
  have "finite (dom (map_of L))" by (rule finite_dom_map_of)
  then have "card (dom (map_of L)) \<noteq> 0" using l by auto
  moreover have "card (dom (map_of L) - {l}) = card (dom (map_of L)) - 1" using l by (simp add: domIff)
  moreover have "map_of L l' = Some j \<and> l' \<noteq> l" if "map_of I j = Some l'" "j \<noteq> i" for j l'
    using assms(1) that l by (auto simp: labels_ok_def)
  ultimately show ?thesis using assms
    by (auto simp: labels_ok_def delete_conv' of_nat_diff split: if_splits)
qed

lemma hnsw_typed_ops:
  "hnsw_typed d (new_hnsw lib d metric m efc ef maxe)"
  "hnsw_typed d x \<Longrightarrow> hnsw_add lib es x = (r, x') \<Longrightarrow> hnsw_typed d x'"
  "hnsw_typed d x \<Longrightarrow> hnsw_typed d (hnsw_delete lib del x)"
  "hnsw_typed d x \<Longrightarrow> hnsw_search np lib q k efo p x = (rs, x') \<Longrightarrow> hnsw_typed d x'"
proof -
  show "hnsw_typed d (new_hnsw lib d metric m efc ef maxe)"
    using flat_typed_ops(1) [of d metric]
    by (auto simp: hnsw_typed_def new_hnsw_def labels_ok_def flat_count_def split: option.splits)
      (simp add: new_flat_def)
  show "hnsw_typed d x \<Longrightarrow> hnsw_add lib es x = (r, x') \<Longrightarrow> hnsw_typed d x'"
    by (auto simp: hnsw_typed_def hnsw_add_def Let_def labels_ok_puts simp del: upt_Suc
        split: option.splits sum.splits prod.splits dest: flat_typed_ops(2) flat_add_error)
  have one: "hnsw_typed d (hnsw_delete_one l i x)" if "hnsw_typed d x" for l i x
    using that by (auto simp: hnsw_typed_def hnsw_delete_one_def labels_ok_pop split: sum.splits option.splits)
  have "hnsw_typed d (fold (hnsw_delete_one l) del x)" if "hnsw_typed d x" for l x
    using that by (induction del arbitrary: x) (simp_all add: one)
  then show "hnsw_typed d x \<Longrightarrow> hnsw_typed d (hnsw_delete lib del x)"
    by (auto simp: hnsw_delete_def split: option.splits sum.splits)
      (auto simp: hnsw_typed_def flat_typed_ops)
  show "hnsw_typed d x \<Longrightarrow> hnsw_search np lib q k efo p x = (rs, x') \<Longrightarrow> hnsw_typed d x'"
    by (auto simp: hnsw_search_def set_ef_def Let_def hnsw_typed_def split: option.splits sum.splits if_splits)
qed

text \<open>A flat index that need not have rows of the dimension, as the fallback of a faiss index.\<close>

lemma flat_add_tables:
  "length (fl_metadatas f) = length (fl_ids f) \<Longrightarrow> flat_add es f = (x, f') \<Longrightarrow>
     length (fl_metadatas f') = length (fl_ids f') \<and> fl_dimension f' = fl_dimension f"
  by (auto simp: flat_add_def Let_def split: if_splits)

lemma flat_delete_tables [simp]:
  "length (fl_metadatas (flat_delete del f)) = length (fl_ids (flat_delete del f))"
  "fl_dimension (flat_delete del f) = fl_dimension f"
  by (simp_all add: flat_delete_def Let_def)

lemma ivf_train_frame:
  "ivf_train lib s x = (s', x') \<Longrightarrow> iv_dimension x' = iv_dimension x \<and> iv_fallback x' = iv_fallback x \<and>
     iv_metadatas x' = iv_metadatas x \<and> iv_ids x' = iv_ids x \<and> (iv_faiss x' = None \<longleftrightarrow> iv_faiss x = None)"
  by (auto simp: ivf_train_def Let_def split: option.splits if_splits prod.splits sum.splits)

lemma ivf_untrained_typed:
  assumes "ivf_typed d (Some l) x" "iv_faiss x = Some ix" "ivf_add_untrained l es x = (r, x')"
  shows "ivf_typed d (Some l) x'"
proof -
  obtain y f where f: "flat_add es (iv_fallback x) = (y, f)" by fastforce
  have t: "length (fl_metadatas f) = length (fl_ids f)" "fl_dimension f = d"
    using flat_add_tables [OF _ f] assms(1) by (simp_all add: ivf_typed_def)
  have n: "fl_dimension (new_flat d m) = d" "fl_metadatas (new_flat d m) = []" "fl_ids (new_flat d m) = []" for m
    by (simp_all add: new_flat_def)
  have keep: "ivf_typed d (Some l) (x\<lparr>iv_fallback := f\<rparr>)" using assms(1,2) t by (simp add: ivf_typed_def)
  show ?thesis
  proof (cases y)
    case (Inl e)
    with assms(3) f keep show ?thesis by (simp add: ivf_add_untrained_def)
  next
    case (Inr u)
    show ?thesis
    proof (cases "fl_vectors f")
      case None
      with Inr assms(3) f keep show ?thesis by (auto simp: ivf_add_untrained_def split: if_splits)
    next
      case (Some vs)
      obtain s x1 where tr: "ivf_train (Some l) (take (min 100000 (length vs)) vs) (x\<lparr>iv_fallback := f\<rparr>) = (s, x1)"
        by fastforce
      note fr = ivf_train_frame [OF tr]
      obtain ix1 where ix1: "iv_faiss x1 = Some ix1" using fr assms(2) by auto
      have x1: "ivf_typed d (Some l) x1" using keep fr by (simp add: ivf_typed_def)
      have u1: "ivf_typed d (Some l) (x1\<lparr>iv_fallback := f\<lparr>fl_vectors := v\<rparr>\<rparr>)"
        "ivf_typed d (Some l) (x1\<lparr>iv_faiss := Some i2, iv_fallback := f\<lparr>fl_vectors := v\<rparr>\<rparr>)"
        "ivf_typed d (Some l) (x1\<lparr>iv_faiss := Some i2, iv_ids := fl_ids f, iv_metadatas := fl_metadatas f,
           iv_id_to_idx := tab, iv_fallback := new_flat (iv_dimension x) mt\<rparr>)" for v i2 tab mt
        using x1 t n ix1 assms(1) by (simp_all add: ivf_typed_def)
      show ?thesis
        using assms(3) Inr Some f tr ix1 keep u1
        by (auto simp: ivf_add_untrained_def Let_def split: if_splits prod.splits sum.splits)
    qed
  qed
qed

lemma ivf_typed_ops:
  "ivf_typed d lib (new_ivf lib d metric nlist nprobe)"
  "ivf_typed d lib x \<Longrightarrow> ivf_add lib es x = (r, x') \<Longrightarrow> ivf_typed d lib x'"
  "ivf_typed d lib x \<Longrightarrow> ivf_typed d lib (ivf_delete del x)"
proof -
  show "ivf_typed d lib (new_ivf lib d metric nlist nprobe)"
    using flat_typed_ops(1) [of d metric]
    by (auto simp: ivf_typed_def new_ivf_def Let_def flat_typed_def flat_inv_def)
  show "ivf_typed d lib x'" if t: "ivf_typed d lib x" and a: "ivf_add lib es x = (r, x')"
  proof (cases "iv_faiss x")
    case None
    then have f: "flat_typed d (iv_fallback x)" using t by (simp add: ivf_typed_def flat_typed_def)
    obtain y f1 where f1: "flat_add es (iv_fallback x) = (y, f1)" by fastforce
    have "flat_typed d f1" by (rule flat_typed_ops(2) [OF f f1])
    then show ?thesis using t a None f1
      by (auto simp: ivf_add_def ivf_typed_def flat_typed_def flat_inv_def split: sum.splits option.splits)
  next
    case (Some ix)
    with t obtain l where l: "lib = Some l" by (auto simp: ivf_typed_def)
    show ?thesis
    proof (cases "fa_is_trained l ix")
      case False
      with a Some l have "ivf_add_untrained l es x = (r, x')" by (simp add: ivf_add_def)
      from ivf_untrained_typed [OF t [unfolded l] Some this] show ?thesis by (simp add: l)
    next
      case True
      with a Some l t show ?thesis
        by (auto simp: ivf_add_def ivf_typed_def Let_def split: sum.splits prod.splits)
    qed
  qed
  have one: "ivf_typed d lib (ivf_delete_one i x)" if "ivf_typed d lib x" for i and x :: "'a ivf"
    using that by (auto simp: ivf_delete_one_def ivf_typed_def split: option.splits)
  have "ivf_typed d lib (fold ivf_delete_one del x)" if "ivf_typed d lib x" for x
    using that by (induction del arbitrary: x) (simp_all add: one)
  moreover have "ivf_typed d lib (x\<lparr>iv_fallback := flat_delete del (iv_fallback x)\<rparr>)" if "ivf_typed d lib x"
    using that flat_delete_entries [of "iv_fallback x" del] by (auto simp: ivf_typed_def)
  ultimately show "ivf_typed d lib x \<Longrightarrow> ivf_typed d lib (ivf_delete del x)"
    by (simp add: ivf_delete_def)
qed

lemma upper_types: "upper ''FLAT'' = ''FLAT''" "upper ''HNSW'' = ''HNSW''" "upper ''IVF_PQ'' = ''IVF_PQ''"
  "upper ''SCANN'' = ''SCANN''"
  by code_simp+

interpretation typed: index_law ev "index_typed (ie_libs ev)" for ev :: "('h, 'f) ienv"
proof unfold_locales
  show "index_typed (ie_libs ev) nsr ix"
    if "create_index (lib_hnsw (ie_libs ev)) (lib_faiss (ie_libs ev)) (index_type_value (ns_index_type nsr))
      (nat (ns_dimension nsr)) (metric_value (ns_distance_metric nsr)) = Inr ix" for nsr ix
    using that
    by (cases "ns_index_type nsr")
      (auto simp: create_index_def Let_def upper_types hnsw_typed_ops(1) ivf_typed_ops(1) flat_typed_ops(1) new_scann_def)
  show "index_typed (ie_libs ev) nsr ix'"
    if "index_typed (ie_libs ev) nsr ix" "vx_add (lib_hnsw (ie_libs ev)) (lib_faiss (ie_libs ev)) es ix = (x, ix')"
    for nsr ix es x ix'
    using that
    by (cases ix) (auto split: prod.splits if_splits sum.splits simp: scann_add_def Let_def
        dest: flat_typed_ops(2) hnsw_typed_ops(2) ivf_typed_ops(2))
  show "index_typed (ie_libs ev) nsr (vx_delete (lib_hnsw (ie_libs ev)) del ix)"
    if "index_typed (ie_libs ev) nsr ix" for nsr ix del
    using that by (cases ix) (auto simp: scann_delete_def intro: flat_typed_ops(3) hnsw_typed_ops(3) ivf_typed_ops(3))
  show "index_typed (ie_libs ev) nsr ix'"
    if "index_typed (ie_libs ev) nsr ix" "filtered_search (ie_libs ev) q k ef nprobe p ix = (y, ix')"
    for nsr ix q k ef nprobe p y ix'
    using that
    by (cases ix) (auto simp: Let_def split: option.splits prod.splits if_splits dest: hnsw_typed_ops(4))
qed

subsection \<open>A running service\<close>

text \<open>The requests a service takes, with what the clocks and the environment give while they run.\<close>

datatype request =
  UpsertRequest clock "nat \<Rightarrow> string \<times> string \<times> string" int string "(string, json) dict list" "string option"
| DeleteRequest clock time string "string list" "(string, json) dict"
| FetchRequest "nat \<Rightarrow> moment" string "string list"
| VectorQuery rerank bool time time int query_args

fun handle ::
    "('h, 'f) ienv \<Rightarrow> 'r redis_ops \<Rightarrow> query_texts \<Rightarrow> request \<Rightarrow> ('h, 'f) ingest \<times> 'r cache \<Rightarrow>
     ('h, 'f) ingest \<times> 'r cache" where
  "handle ev ro qt (UpsertRequest clk ids took ns raws idem) (st, c) = (snd (upsert ev clk ids took ns raws idem st), c)"
| "handle ev ro qt (DeleteRequest clk now ns del f) (st, c) = (snd (ingest_delete ev clk now ns del f st), c)"
| "handle ev ro qt (FetchRequest mos ns ids) (st, c) = (snd (fetch ev mos ns ids st), c)"
| "handle ev ro qt (VectorQuery mode timeout now now2 took qa) (st, c) =
     snd (query ev ro qt mode timeout now now2 took qa (st, c))"

lemma handle_typed:
  assumes "typed.good ev st" "handle ev ro qt rq (st, c) = (st', c')"
  shows "typed.good ev st'"
proof (cases rq)
  case (UpsertRequest clk ids took ns raws idem)
  with assms show ?thesis
    by (cases "upsert ev clk ids took ns raws idem st") (auto dest: typed.upsert_good)
next
  case (DeleteRequest clk now ns del f)
  with assms show ?thesis
    by (cases "ingest_delete ev clk now ns del f st") (auto dest: typed.ingest_delete_good)
next
  case (FetchRequest mos ns ids)
  with assms show ?thesis
    by (cases "fetch ev mos ns ids st") (auto dest: typed.fetch_good)
next
  case (VectorQuery mode timeout now now2 took qa)
  with assms show ?thesis
    by (cases "query ev ro qt mode timeout now now2 took qa (st, c)") (auto dest: typed.query_good)
qed

lemma handle_all_typed:
  "typed.good ev st \<Longrightarrow> fold (handle ev ro qt) rqs (st, c) = (st', c') \<Longrightarrow> typed.good ev st'"
proof (induction rqs arbitrary: st c)
  case (Cons rq rqs)
  then show ?case by (cases "handle ev ro qt rq (st, c)") (auto dest: handle_typed)
qed simp

lemma new_service_typed: "typed.good ev (new_ingest rt nss base node disk)"
  by (simp add: typed.good_def typed.all_good_def new_ingest_def)

text \<open>
  C16: The indexes of a service are well typed, whatever requests it has served. Every context of a
  primary or a replica has the class of index its namespace asks for; the rows of a flat index, and
  of the flat index that stands in for a missing library, are aligned with the ids and the metadata
  and have the namespace's dimension; the label tables of an HNSW index agree with each other and
  with its count; and the tables of an IVF index are aligned.
\<close>

theorem service_well_typed:
  assumes "fold (handle ev ro qt) rqs (new_ingest rt nss base node disk, c0) = (st, c)"
    and "dict_get (ig_shards st) k = Some (r, cx) \<or> dict_get (ig_endpoints st) k = Some (s, cx)"
  shows "index_typed (ie_libs ev) (cx_namespace cx) (cx_index cx)"
proof -
  have "typed.good ev st" by (rule handle_all_typed [OF new_service_typed assms(1)])
  with assms(2) show ?thesis by (auto simp: typed.good_def typed.ctx_good_def dest: typed.all_goodD)
qed

lemma service_well_typed_witness:
  "\<exists>st c r cx. fold (handle demo_env no_redis nine_texts) [FetchRequest (\<lambda>j. demo_moment 0) ''ns'' [''b'']]
       (demo_service, no_cache) = (st, c) \<and>
     dict_get (ig_shards st) ''ns:s1'' = Some (r, cx) \<and> index_typed demo_libs (cx_namespace cx) (cx_index cx)"
proof -
  let ?mos = "\<lambda>j::nat. demo_moment 0"
  have mo: "mo_time (demo_moment 0) = 0" by (simp add: demo_moment_def)
  obtain rt where rt: "select_shard (ie_sha demo_env) (ie_hash demo_env) 0 ''ns'' ''b'' svc_router = (Inr 0, rt)"
    "r_etcd rt = r_etcd svc_router" "\<not> r_membership rt" using svc_select by blast
  have h: "e_heap (r_etcd svc_router) 0 = svc_shard" by (simp add: svc_simps)
  have "sh_state svc_shard = ShardState.ACTIVE" by (simp add: svc_simps)
  with rt h have ro: "route (ie_sha demo_env) (ie_hash demo_env) 0 ''ns'' ''b'' svc_router = (Inr 0, rt)"
    by (simp add: route_def validate_owner_def readable_states_def)
  let ?st = "demo_service\<lparr>ig_router := rt\<rparr>"
  have f: "ig_router demo_service = svc_router" "heap_shard ?st 0 = svc_shard" "ig_shards demo_service = []"
    "ig_namespaces demo_service = [(''ns'', demo_namespace)]" "ig_disk demo_service = no_files" "sh_id svc_shard = ''s1''"
    using rt(2) h by (simp_all add: demo_service_def new_ingest_def heap_shard_def) (simp add: svc_simps)
  obtain cx where cx: "open_ctx demo_libs demo_codec (demo_moment 0) (ig_base demo_service) svc_shard demo_namespace no_files =
      (Inr cx, svc_shard)"
    using open_flat [of demo_namespace no_files "ig_base demo_service" svc_shard demo_libs demo_codec "demo_moment 0"]
    by (auto simp: demo_namespace_def no_files_def)
  have "get_or_create_ctx demo_env (demo_moment 0) ''ns'' 0 ?st =
      (Inr ''ns:s1'', (set_shard 0 svc_shard ?st)\<lparr>ig_shards := [(''ns:s1'', (0, cx))]\<rparr>)"
    using cx f by (simp add: get_or_create_ctx_def ctx_key_def demo_env_def Let_def)
  then have "\<exists>x. fetch demo_env ?mos ''ns'' [''b''] demo_service =
      (x, (set_shard 0 svc_shard ?st)\<lparr>ig_shards := [(''ns:s1'', (0, cx))]\<rparr>)"
    using ro by (auto simp: fetch_def mo f(1) split: sum.splits)
  then have q: "fold (handle demo_env no_redis nine_texts) [FetchRequest ?mos ''ns'' [''b'']] (demo_service, no_cache) =
      ((set_shard 0 svc_shard ?st)\<lparr>ig_shards := [(''ns:s1'', (0, cx))]\<rparr>, no_cache)" by auto
  have t: "index_typed (ie_libs demo_env) (cx_namespace cx) (cx_index cx)"
    by (rule service_well_typed [OF q [unfolded demo_service_def], of "''ns:s1''" 0 cx]) simp
  show ?thesis by (intro exI conjI, rule q) (use t in \<open>simp_all add: demo_env_def\<close>)
qed

end
