(* ===== verification/Gateway.thy ===== *)
theory Gateway
  imports Errors
begin

text \<open>
  The gateway: rate limiting, authentication and the circuit breaker of \<open>gateway/auth.py\<close>, the role
  policies of \<open>gateway/rbac.py\<close> and the certificate manager of \<open>gateway/mtls.py\<close>. A header is an
  optional string; \<open>jwt.decode\<close> (None is its JWTError), \<open>jwt.encode\<close>, the OPA service and the TLS
  library are parameters.
\<close>

record settings =
  st_env :: string
  st_rate_limit_rps :: int
  st_access_token_expire_minutes :: int

type_synonym header = "string option"

text \<open>\<open>x or default\<close> on a header: an empty string is falsy.\<close>

definition header_or :: "header \<Rightarrow> string \<Rightarrow> string" where
  "header_or h d = (case h of None \<Rightarrow> d | Some s \<Rightarrow> if s = [] then d else s)"

subsection \<open>API keys and rate limiting\<close>

record api_key =
  ak_tenant :: string
  ak_quota :: int

definition api_keys :: "(string, api_key) dict" where
  "api_keys =
     [(''vsector_demo_key'', \<lparr>ak_tenant = ''demo'', ak_quota = 10000\<rparr>),
      (''test-key'', \<lparr>ak_tenant = ''test'', ak_quota = 10000\<rparr>)]"

type_synonym buckets = "(string, time list) dict"

definition bucket :: "buckets \<Rightarrow> string \<Rightarrow> time list" where
  "bucket b key = (case dict_get b key of None \<Rightarrow> [] | Some w \<Rightarrow> w)"

definition quota_of :: "settings \<Rightarrow> (string, api_key) dict \<Rightarrow> string \<Rightarrow> int" where
  "quota_of cfg keys key = (case dict_get keys key of None \<Rightarrow> st_rate_limit_rps cfg | Some k \<Rightarrow> ak_quota k)"

text \<open>The body runs under one lock, so requests are decided one after another.\<close>

definition rate_limiter ::
    "settings \<Rightarrow> (string, api_key) dict \<Rightarrow> time \<Rightarrow> header \<Rightarrow> buckets \<Rightarrow> string res \<times> buckets" where
  "rate_limiter cfg keys now x_api_key b =
     (let key = header_or x_api_key ''anonymous'';
          b1 = dict_put key (filter (\<lambda>t. now - t < 1) (bucket b key)) b
      in if int (length (bucket b1 key)) \<ge> quota_of cfg keys key then
           (Inl (HTTPException 429 ''Rate limit exceeded''), b1)
         else (Inr key, dict_put key (bucket b1 key @ [now]) b1))"

subsection \<open>Authentication\<close>

type_synonym claims = "(string, json) dict"

text \<open>\<open>authorization.split(" ", 1)[1]\<close>, what follows the first blank.\<close>

definition bearer_token :: "string \<Rightarrow> string" where
  "bearer_token a = drop 1 (dropWhile (\<lambda>c. c \<noteq> CHR '' '') a)"

definition verify_api_key ::
    "settings \<Rightarrow> (string, api_key) dict \<Rightarrow> (string \<Rightarrow> claims option) \<Rightarrow> header \<Rightarrow> header \<Rightarrow> claims res" where
  "verify_api_key cfg keys jwt_decode x_api_key authorization =
     (if st_env cfg = ''development'' then Inr [(''sub'', JStr ''dev'')]
      else
        (let k = header_or x_api_key []; a = header_or authorization [] in
         case (if k = [] then None else dict_get keys k) of
           Some ak \<Rightarrow> Inr [(''sub'', JStr (ak_tenant ak)), (''api_key'', JStr k)]
         | None \<Rightarrow>
             if starts_with ''Bearer '' a then
               (case jwt_decode (bearer_token a) of
                  Some payload \<Rightarrow> Inr payload
                | None \<Rightarrow> Inl (HTTPException 401 ''Invalid JWT''))
             else Inl (HTTPException 401 ''Missing API key or JWT'')))"

definition create_access_token ::
    "settings \<Rightarrow> (claims \<Rightarrow> string) \<Rightarrow> time \<Rightarrow> claims \<Rightarrow> string" where
  "create_access_token cfg jwt_encode now data =
     jwt_encode (dict_put ''exp'' (JFloat (now + 60 * of_int (st_access_token_expire_minutes cfg))) data)"

text \<open>\<open>_auth.get("sub") or _auth.get("tenant") or "dev"\<close>.\<close>

definition tenant_of :: "claims \<Rightarrow> json" where
  "tenant_of auth =
     (case dict_get auth ''sub'' of
        Some j \<Rightarrow> if json_truthy j then j
          else (case dict_get auth ''tenant'' of
              Some t \<Rightarrow> if json_truthy t then t else JStr ''dev'' | None \<Rightarrow> JStr ''dev'')
      | None \<Rightarrow>
          (case dict_get auth ''tenant'' of
             Some t \<Rightarrow> if json_truthy t then t else JStr ''dev'' | None \<Rightarrow> JStr ''dev''))"

subsection \<open>The circuit breaker\<close>

datatype breaker_state = CLOSED | OPEN | HALF_OPEN

record breaker =
  cb_failure_threshold :: int
  cb_recovery_timeout :: int
  cb_failures :: int
  cb_last_failure :: time
  cb_state :: breaker_state

definition new_breaker :: "int \<Rightarrow> int \<Rightarrow> breaker" where
  "new_breaker threshold timeout =
     \<lparr>cb_failure_threshold = threshold, cb_recovery_timeout = timeout, cb_failures = 0,
      cb_last_failure = 0, cb_state = CLOSED\<rparr>"

definition record_success :: "breaker \<Rightarrow> breaker" where
  "record_success b = b\<lparr>cb_failures := 0, cb_state := CLOSED\<rparr>"

definition record_failure :: "time \<Rightarrow> breaker \<Rightarrow> breaker" where
  "record_failure now b =
     (let b1 = b\<lparr>cb_failures := cb_failures b + 1, cb_last_failure := now\<rparr>
      in if cb_failures b1 \<ge> cb_failure_threshold b1 then b1\<lparr>cb_state := OPEN\<rparr> else b1)"

definition allow :: "time \<Rightarrow> breaker \<Rightarrow> bool \<times> breaker" where
  "allow now b =
     (if cb_state b = CLOSED then (True, b)
      else if cb_state b = OPEN \<and> now - cb_last_failure b > of_int (cb_recovery_timeout b) then
        (True, b\<lparr>cb_state := HALF_OPEN\<rparr>)
      else (cb_state b \<noteq> OPEN, b))"

subsection \<open>Roles\<close>

type_synonym policies = "(string, (string, string list) dict) dict"

definition shipped_policies :: policies where
  "shipped_policies =
     [(''demo'', [(''products'', [''reader'', ''writer'']), (''*'', [''reader''])]),
      (''test'', [(''*'', [''admin''])])]"

definition mtls_certs :: "(string, string) dict" where
  "mtls_certs = [(''demo-cert-fingerprint'', ''demo'')]"

definition role_actions :: "(string, string list) dict" where
  "role_actions =
     [(''reader'', [''query'', ''fetch'', ''stats'']),
      (''writer'', [''upsert'', ''delete'', ''query'', ''fetch'']), (''admin'', [''*''])]"

definition role_allows :: "string \<Rightarrow> string \<Rightarrow> bool" where
  "role_allows role action =
     (let allowed = (case dict_get role_actions role of None \<Rightarrow> [] | Some a \<Rightarrow> a)
      in ''*'' \<in> set allowed \<or> action \<in> set allowed)"

text \<open>\<open>ns_policies.get(namespace) or ns_policies.get("*") or []\<close>.\<close>

definition roles_for :: "policies \<Rightarrow> string \<Rightarrow> string \<Rightarrow> string list" where
  "roles_for policies tenant namespace =
     (let ns_policies = (case dict_get policies tenant of None \<Rightarrow> [] | Some p \<Rightarrow> p)
      in case dict_get ns_policies namespace of
           Some (r # rs) \<Rightarrow> r # rs
         | _ \<Rightarrow> (case dict_get ns_policies ''*'' of None \<Rightarrow> [] | Some rs \<Rightarrow> rs))"

text \<open>
  \<open>check_permission\<close>. The OPA service is asked when its URL is set: it answers with a decision or
  raises, and then the local policies decide.
\<close>

definition check_permission ::
    "(string \<Rightarrow> string \<Rightarrow> string \<Rightarrow> bool res) option \<Rightarrow> policies \<Rightarrow> string \<Rightarrow> string \<Rightarrow> string \<Rightarrow> unit res" where
  "check_permission opa policies tenant namespace action =
     (let local =
            (if list_ex (\<lambda>role. role_allows role action) (roles_for policies tenant namespace) then Inr ()
             else Inl (HTTPException 403
               (''RBAC deny tenant='' @ tenant @ '' ns='' @ namespace @ '' action='' @ action)))
      in case opa of
           None \<Rightarrow> local
         | Some ask \<Rightarrow>
             (case ask tenant namespace action of
                Inr True \<Rightarrow> Inr ()
              | Inr False \<Rightarrow> Inl (HTTPException 403 (''OPA deny '' @ tenant @ ''/'' @ namespace @ '':'' @ action))
              | Inl e \<Rightarrow> local))"

definition extract_tenant_mtls :: "header \<Rightarrow> string option" where
  "extract_tenant_mtls x_client_cert =
     (let c = header_or x_client_cert [] in
      if c = [] then None
      else (case dict_get mtls_certs c of
          Some t \<Rightarrow> if t \<noteq> [] then Some t else Some (take 16 c) | None \<Rightarrow> Some (take 16 c)))"

text \<open>The dependency \<open>require_role(action)\<close>: the tenant and the action, without any check.\<close>

definition require_role ::
    "settings \<Rightarrow> (string, api_key) dict \<Rightarrow> (string \<Rightarrow> claims option) \<Rightarrow> string \<Rightarrow> header \<Rightarrow> header \<Rightarrow> header \<Rightarrow>
     (json \<times> string) res" where
  "require_role cfg keys jwt_decode action x_api_key authorization x_client_cert =
     (case verify_api_key cfg keys jwt_decode x_api_key authorization of
        Inl e \<Rightarrow> Inl e
      | Inr auth \<Rightarrow>
          (case extract_tenant_mtls x_client_cert of
             Some t \<Rightarrow> if t \<noteq> [] then Inr (JStr t, action) else Inr (tenant_of auth, action)
           | None \<Rightarrow> Inr (tenant_of auth, action)))"

subsection \<open>Certificates\<close>

record mtls =
  mt_ca_path :: string
  mt_cert_path :: string
  mt_key_path :: string
  mt_loaded :: bool
  mt_last_reload :: time

text \<open>Each path is the argument, else the environment variable, else the default.\<close>

definition new_mtls :: "(string \<Rightarrow> header) \<Rightarrow> header \<Rightarrow> header \<Rightarrow> header \<Rightarrow> mtls" where
  "new_mtls env ca cert key =
     (let path = (\<lambda>arg var d. header_or arg (header_or (env var) d)) in
      \<lparr>mt_ca_path = path ca ''VSECTOR_MTLS_CA_PATH'' ''certs/ca.pem'',
       mt_cert_path = path cert ''VSECTOR_MTLS_CERT_PATH'' ''certs/tls.crt'',
       mt_key_path = path key ''VSECTOR_MTLS_KEY_PATH'' ''certs/tls.key'',
       mt_loaded = False, mt_last_reload = 0\<rparr>)"

text \<open>\<open>load_context\<close>: the library's outcome is a parameter; a failure leaves the manager as it is.\<close>

definition load_context :: "unit res \<Rightarrow> time \<Rightarrow> mtls \<Rightarrow> bool \<times> mtls" where
  "load_context outcome now m =
     (case outcome of
        Inl e \<Rightarrow> (False, m) | Inr _ \<Rightarrow> (True, m\<lparr>mt_loaded := True, mt_last_reload := now\<rparr>))"

definition should_rotate :: "int \<Rightarrow> time \<Rightarrow> mtls \<Rightarrow> bool" where
  "should_rotate interval now m = (now - mt_last_reload m > of_int interval)"

definition rotate_if_needed :: "unit res \<Rightarrow> time \<Rightarrow> mtls \<Rightarrow> bool \<times> mtls" where
  "rotate_if_needed outcome now m =
     (if should_rotate 3600 now m then (True, snd (load_context outcome now m)) else (False, m))"

definition verify_client :: "(string \<Rightarrow> string) \<Rightarrow> string \<Rightarrow> string option" where
  "verify_client sha pem = (if pem = [] then None else Some (take 16 (sha pem)))"

end
