(* ===== verification/Gateway_Facts.thy ===== *)
theory Gateway_Facts
  imports Gateway
begin

text \<open>
  What the gateway guarantees: the rate limiter admits at most the quota of a key in any second and
  never refuses below it, and the shipped policies give each tenant exactly the listed actions.
\<close>

subsection \<open>Rate limiting\<close>

text \<open>A run of the limiter over requests, each a key header and its time; what was admitted is collected.\<close>

definition limit_step ::
    "settings \<Rightarrow> (string, api_key) dict \<Rightarrow> header \<times> time \<Rightarrow> (string \<times> time) list \<times> buckets \<Rightarrow>
     (string \<times> time) list \<times> buckets" where
  "limit_step cfg keys = (\<lambda>(h, now) (adm, b).
     (case rate_limiter cfg keys now h b of
        (Inr key, b1) \<Rightarrow> (adm @ [(key, now)], b1) | (Inl e, b1) \<Rightarrow> (adm, b1)))"

definition limit_run ::
    "settings \<Rightarrow> (string, api_key) dict \<Rightarrow> (header \<times> time) list \<Rightarrow> (string \<times> time) list \<times> buckets" where
  "limit_run cfg keys reqs = fold (limit_step cfg keys) reqs ([], [])"

text \<open>The admissions of a key in a period of time.\<close>

definition admissions :: "(time \<Rightarrow> bool) \<Rightarrow> string \<Rightarrow> (string \<times> time) list \<Rightarrow> time list" where
  "admissions P key adm = filter P (map snd (filter (\<lambda>(k, t). k = key) adm))"

lemma admissions_append [simp]:
  "admissions P key (adm @ [(k, t)]) = admissions P key adm @ (if k = key \<and> P t then [t] else [])"
  by (simp add: admissions_def)

text \<open>What the buckets hold at time \<open>u0\<close>: as far as the future is concerned, all admissions.\<close>

definition tracked :: "(string \<times> time) list \<Rightarrow> buckets \<Rightarrow> time \<Rightarrow> bool" where
  "tracked adm b u0 \<longleftrightarrow> (\<forall>(k, t) \<in> set adm. t \<le> u0) \<and>
     (\<forall>key now. u0 \<le> now \<longrightarrow>
        filter (\<lambda>t. now - t < 1) (bucket b key) = admissions (\<lambda>t. now - t < 1) key adm)"

lemma bucket_put: "bucket (dict_put k w b) key = (if key = k then w else bucket b key)"
  by (simp add: bucket_def map_of_dict_put)

lemma filter_later:
  assumes "now \<le> (now' :: real)"
  shows "filter (\<lambda>t. now' - t < 1) (filter (\<lambda>t. now - t < 1) w) = filter (\<lambda>t. now' - t < 1) w"
  using assms by (induction w) auto

lemma admissions_later:
  "now \<le> (now' :: real) \<Longrightarrow> filter (\<lambda>t. now' - t < 1) (admissions (\<lambda>t. now - t < 1) k adm) =
     admissions (\<lambda>t. now' - t < 1) k adm"
  unfolding admissions_def by (rule filter_later)

lemma tracked_admit:
  "tracked adm b now \<Longrightarrow> tracked (adm @ [(k, now)]) (dict_put k (bucket b k @ [now]) b) now"
  by (auto simp: tracked_def bucket_put)

lemma limit_step_tracked:
  assumes "tracked adm b u0" "u0 \<le> now" "limit_step cfg keys (h, now) (adm, b) = (adm', b')"
  shows "tracked adm' b' now \<and>
    (let key = header_or h ''anonymous'';
         recent = admissions (\<lambda>t. now - t < 1) key adm
     in adm' = (if int (length recent) < quota_of cfg keys key then adm @ [(key, now)] else adm))"
proof -
  let ?key = "header_or h ''anonymous''"
  let ?purged = "filter (\<lambda>t. now - t < 1) (bucket b ?key)"
  let ?b1 = "dict_put ?key ?purged b"
  have recent: "?purged = admissions (\<lambda>t. now - t < 1) ?key adm"
    using assms(1,2) by (simp add: tracked_def)
  have old: "\<forall>(k, t) \<in> set adm. t \<le> now" using assms(1,2) by (auto simp: tracked_def)
  have t1: "tracked adm ?b1 now"
    using assms(1,2) old by (auto simp: tracked_def bucket_put recent admissions_later simp del: filter_filter)
  have t2: "tracked (adm @ [(?key, now)]) (dict_put ?key (?purged @ [now]) ?b1) now"
    using tracked_admit [OF t1, of ?key] by (simp add: bucket_put)
  have "limit_step cfg keys (h, now) (adm, b) =
      (if int (length ?purged) \<ge> quota_of cfg keys ?key then (adm, ?b1)
       else (adm @ [(?key, now)], dict_put ?key (?purged @ [now]) ?b1))"
    by (simp add: limit_step_def rate_limiter_def Let_def bucket_put)
  with assms(3) t1 t2 show ?thesis
    unfolding Let_def recent by (auto split: if_splits)
qed

text \<open>In no window of one second have more than the quota been admitted.\<close>

definition within_quota :: "settings \<Rightarrow> (string, api_key) dict \<Rightarrow> (string \<times> time) list \<Rightarrow> bool" where
  "within_quota cfg keys adm \<longleftrightarrow>
     (\<forall>key t. int (length (admissions (\<lambda>u. t \<le> u \<and> u < t + 1) key adm)) \<le> max 0 (quota_of cfg keys key))"

lemma admissions_mono:
  "(\<And>t. (key, t) \<in> set adm \<Longrightarrow> P t \<Longrightarrow> Q t) \<Longrightarrow> length (admissions P key adm) \<le> length (admissions Q key adm)"
  by (induction adm) (auto simp: admissions_def)

lemma limit_step_quota:
  assumes "tracked adm b u0" "u0 \<le> now" "limit_step cfg keys (h, now) (adm, b) = (adm', b')"
    "within_quota cfg keys adm"
  shows "within_quota cfg keys adm'"
proof -
  let ?key = "header_or h ''anonymous''"
  note s = limit_step_tracked [OF assms(1-3), unfolded Let_def]
  show ?thesis
  proof (cases "int (length (admissions (\<lambda>t. now - t < 1) ?key adm)) < quota_of cfg keys ?key")
    case False
    then show ?thesis using s assms(4) by simp
  next
    case True
    have "int (length (admissions (\<lambda>u. t \<le> u \<and> u < t + 1) key (adm @ [(?key, now)]))) \<le> max 0 (quota_of cfg keys key)" for key t
    proof (cases "key = ?key \<and> t \<le> now \<and> now < t + 1")
      case in_window: True
      have "length (admissions (\<lambda>u. t \<le> u \<and> u < t + 1) key adm) \<le> length (admissions (\<lambda>u. now - u < 1) key adm)"
        by (rule admissions_mono) (use in_window in auto)
      with True in_window show ?thesis by simp
    next
      case False
      then show ?thesis using assms(4) by (auto simp: within_quota_def)
    qed
    then show ?thesis using s True by (simp add: within_quota_def)
  qed
qed

lemma limit_fold:
  assumes "tracked adm b l0" "within_quota cfg keys adm" "sorted (l0 # map snd reqs)" "\<forall>r \<in> set reqs. snd r \<le> now" "l0 \<le> now"
  shows "\<exists>l. l \<le> now \<and> tracked (fst (fold (limit_step cfg keys) reqs (adm, b))) (snd (fold (limit_step cfg keys) reqs (adm, b))) l \<and>
    within_quota cfg keys (fst (fold (limit_step cfg keys) reqs (adm, b)))"
  using assms
proof (induction reqs arbitrary: adm b l0)
  case (Cons r reqs)
  obtain h t where r: "r = (h, t)" by (cases r)
  obtain adm1 b1 where s: "limit_step cfg keys (h, t) (adm, b) = (adm1, b1)" by fastforce
  have "l0 \<le> t" using Cons.prems(3) r by simp
  then have "tracked adm1 b1 t" "within_quota cfg keys adm1"
    using limit_step_tracked [OF Cons.prems(1) _ s] limit_step_quota [OF Cons.prems(1) _ s Cons.prems(2)] by simp_all
  from Cons.IH [OF this] show ?case using Cons.prems(3-5) r s by simp
qed auto

lemma limit_run_tracked:
  assumes "sorted (map snd reqs @ [now])" "limit_run cfg keys reqs = (adm, b)"
  shows "\<exists>l. l \<le> now \<and> tracked adm b l \<and> within_quota cfg keys adm"
proof -
  define l0 where "l0 = hd (map snd reqs @ [now])"
  have st: "tracked [] [] l0" "within_quota cfg keys []"
    by (simp_all add: tracked_def within_quota_def admissions_def bucket_def)
  have "sorted (l0 # map snd reqs)" "l0 \<le> now" "\<forall>r \<in> set reqs. snd r \<le> now"
    using assms(1) by (cases reqs; auto simp: l0_def sorted_append)+
  from limit_fold [OF st this(1,3,2)] show ?thesis using assms(2) by (simp add: limit_run_def)
qed

text \<open>
  C33: the rate limiter is exact. Over any run of requests in the order of their times no second holds
  more admissions of a key than the key's quota, whatever its window starts; and the next request is
  refused exactly when the second before it already holds that many, otherwise it is admitted.
\<close>

theorem rate_limit_exact:
  assumes "sorted (map snd reqs @ [now])" "limit_run cfg keys reqs = (adm, b)"
  shows "int (length (admissions (\<lambda>u. t \<le> u \<and> u < t + 1) key adm)) \<le> max 0 (quota_of cfg keys key) \<and>
    fst (rate_limiter cfg keys now h b) =
      (let k = header_or h ''anonymous'' in
       if int (length (admissions (\<lambda>u. now - u < 1) k adm)) < quota_of cfg keys k then Inr k
       else Inl (HTTPException 429 ''Rate limit exceeded''))"
proof -
  obtain l where l: "l \<le> now" "tracked adm b l" "within_quota cfg keys adm"
    using limit_run_tracked [OF assms] by blast
  then have "filter (\<lambda>u. now - u < 1) (bucket b (header_or h ''anonymous'')) =
      admissions (\<lambda>u. now - u < 1) (header_or h ''anonymous'') adm"
    by (simp add: tracked_def)
  then have "fst (rate_limiter cfg keys now h b) =
      (let k = header_or h ''anonymous'' in
       if int (length (admissions (\<lambda>u. now - u < 1) k adm)) < quota_of cfg keys k then Inr k
       else Inl (HTTPException 429 ''Rate limit exceeded''))"
    by (auto simp: rate_limiter_def Let_def bucket_put)
  then show ?thesis using l(3) by (simp add: within_quota_def)
qed

definition demo_settings :: settings where
  "demo_settings = \<lparr>st_env = ''production'', st_rate_limit_rps = 1, st_access_token_expire_minutes = 5\<rparr>"

lemma rate_limit_exact_witness:
  "int (length (admissions (\<lambda>u. 0 \<le> u \<and> u < 0 + 1) ''k'' (fst (limit_run demo_settings api_keys [(Some ''k'', 0), (Some ''k'', 1 / 4)])))) \<le> 1 \<and>
   fst (rate_limiter demo_settings api_keys (1 / 2) (Some ''k'')
     (snd (limit_run demo_settings api_keys [(Some ''k'', 0), (Some ''k'', 1 / 4)]))) =
     Inl (HTTPException 429 ''Rate limit exceeded'')"
proof -
  let ?reqs = "[(Some ''k'', 0), (Some ''k'', 1 / 4)] :: (header \<times> time) list"
  have q: "quota_of demo_settings api_keys ''k'' = 1"
    by (simp add: quota_of_def api_keys_def demo_settings_def)
  have k: "header_or (Some ''k'') ''anonymous'' = ''k''" by (simp add: header_or_def)
  obtain b where r: "limit_run demo_settings api_keys ?reqs = ([(''k'', 0)], b)"
    by (simp add: limit_run_def limit_step_def rate_limiter_def Let_def k q bucket_put) (simp add: bucket_def k)
  have "sorted (map snd ?reqs @ [1 / 2])" by simp
  from rate_limit_exact [OF this r, of 0 "''k''" "Some ''k''"] show ?thesis
    by (simp add: r q k admissions_def)
qed

subsection \<open>Roles\<close>

text \<open>
  Without an OPA service the shipped policies allow exactly this: the tenant \<open>test\<close> everything;
  the tenant \<open>demo\<close> reading and statistics everywhere, and writing and deleting in the namespace
  \<open>products\<close>; every other tenant, the development tenant \<open>dev\<close> included, nothing.
\<close>

theorem shipped_permissions:
  "check_permission None shipped_policies tenant namespace action =
     (if tenant = ''test'' \<or>
         tenant = ''demo'' \<and> (action \<in> {''query'', ''fetch'', ''stats''} \<or>
           namespace = ''products'' \<and> action \<in> {''upsert'', ''delete''})
      then Inr ()
      else Inl (HTTPException 403
        (''RBAC deny tenant='' @ tenant @ '' ns='' @ namespace @ '' action='' @ action)))"
  by (auto simp: check_permission_def Let_def roles_for_def shipped_policies_def role_allows_def role_actions_def)

subsection \<open>The circuit breaker\<close>

datatype breaker_event = Succeeded | Failed time | Asked time

fun breaker_step :: "breaker_event \<Rightarrow> breaker \<Rightarrow> breaker" where
  "breaker_step Succeeded b = record_success b"
| "breaker_step (Failed now) b = record_failure now b"
| "breaker_step (Asked now) b = snd (allow now b)"

fun is_failed :: "breaker_event \<Rightarrow> bool" where
  "is_failed (Failed t) = True" | "is_failed e = False"

text \<open>The failures since the last success.\<close>

definition failures_since :: "breaker_event list \<Rightarrow> int" where
  "failures_since es = int (length (filter is_failed (takeWhile (\<lambda>e. e \<noteq> Succeeded) (rev es))))"

lemma failures_since_snoc [simp]:
  "failures_since (es @ [e]) =
     (case e of Succeeded \<Rightarrow> 0 | Failed t \<Rightarrow> failures_since es + 1 | Asked t \<Rightarrow> failures_since es)"
  by (simp add: failures_since_def split: breaker_event.splits)

text \<open>
  After any events the breaker counts the failures since the last success; it is closed exactly
  while these are fewer than the threshold, and otherwise it lets a call through exactly when it is
  half open already or the recovery time has passed since the last failure.
\<close>

theorem breaker_counts:
  assumes "1 \<le> threshold" "b = fold breaker_step es (new_breaker threshold timeout)"
  shows "cb_failures b = failures_since es \<and> (cb_state b = CLOSED \<longleftrightarrow> failures_since es < threshold) \<and>
    (fst (allow now b) \<longleftrightarrow> failures_since es < threshold \<or> cb_state b = HALF_OPEN \<or>
       now - cb_last_failure b > of_int timeout)"
proof -
  have "cb_failure_threshold b = threshold \<and> cb_recovery_timeout b = timeout \<and> cb_failures b = failures_since es \<and>
      (cb_state b = CLOSED \<longleftrightarrow> failures_since es < threshold)"
    using assms(2)
  proof (induction es arbitrary: b rule: rev_induct)
    case Nil
    then show ?case using assms(1) by (simp add: new_breaker_def failures_since_def)
  next
    case (snoc e es)
    then show ?case using assms(1)
      by (cases e) (auto simp: record_success_def record_failure_def allow_def Let_def failures_since_def)
  qed
  then show ?thesis by (cases "cb_state b") (auto simp: allow_def)
qed

lemma breaker_counts_witness:
  "let b = fold breaker_step [Failed 0, Failed 1] (new_breaker 2 30) in
   cb_failures b = 2 \<and> cb_state b \<noteq> CLOSED \<and> \<not> fst (allow 5 b)"
proof -
  have n: "failures_since [Failed 0, Failed 1] = 2" by (simp add: failures_since_def)
  have s: "cb_state (fold breaker_step [Failed 0, Failed 1] (new_breaker 2 30)) = OPEN"
    "cb_last_failure (fold breaker_step [Failed 0, Failed 1] (new_breaker 2 30)) = 1"
    by (simp_all add: record_failure_def new_breaker_def)
  show ?thesis using breaker_counts [of 2 _ "[Failed 0, Failed 1]" 30 5, OF _ refl] n s by simp
qed

end
