(* ===== verification/Metadata_Store.thy ===== *)
theory Metadata_Store
  imports Shard_Context "HOL-Library.Monad_Syntax"
begin

text \<open>
  \<open>storage/metadata.py\<close>: the JSON backend with its file, the Postgres backend over a database that is
  a parameter (its statements are the operations of \<open>pg_ops\<close>), and the facade that chooses between
  them. \<open>namespace_to_json\<close> and \<open>namespace_from_json\<close> are what pydantic documents for \<open>model_dump\<close>
  and \<open>model_validate\<close> of the fields of \<open>Namespace\<close>.
\<close>

subsection \<open>The JSON form of a namespace\<close>

text \<open>An enumeration called with a string: the member with that value.\<close>

definition member_of :: "('a \<Rightarrow> string) \<Rightarrow> 'a list \<Rightarrow> string \<Rightarrow> 'a option" where
  "member_of value members s = find (\<lambda>m. value m = s) members"

definition distance_of :: "string \<Rightarrow> DistanceMetric option" where
  "distance_of = member_of metric_value [COSINE, EUCLIDEAN, DOT_PRODUCT, MANHATTAN]"

definition itype_of :: "string \<Rightarrow> IndexType option" where
  "itype_of = member_of index_type_value [HNSW, IVF_PQ, FLAT, SCANN]"

definition compression_of :: "string \<Rightarrow> CompressionType option" where
  "compression_of = member_of compression_value [NONE, PQ, SQ8, BF16]"

lemma enum_round_trip [simp]:
  "distance_of (metric_value d) = Some d" "itype_of (index_type_value i) = Some i"
  "compression_of (compression_value c) = Some c"
  by (cases d; simp add: distance_of_def member_of_def; fail)
    ((cases i; simp add: itype_of_def member_of_def; fail) | (cases c; simp add: compression_of_def member_of_def; fail))+

definition namespace_to_json :: "namespace \<Rightarrow> json" where
  "namespace_to_json n = JObj
     [(''name'', JStr (ns_name n)),
      (''dimension'', JInt (ns_dimension n)),
      (''distance_metric'', JStr (metric_value (ns_distance_metric n))),
      (''index_type'', JStr (index_type_value (ns_index_type n))),
      (''replication_factor'', JInt (ns_replication_factor n)),
      (''required_acks'', JInt (ns_required_acks n)),
      (''shard_count'', JInt (ns_shard_count n)),
      (''compression'', JStr (compression_value (ns_compression n))),
      (''tenant_id'', JStr (ns_tenant_id n)),
      (''expected_records'', opt_json JInt (ns_expected_records n))]"

definition opt_of :: "(json \<Rightarrow> 'a option) \<Rightarrow> json \<Rightarrow> 'a option option" where
  "opt_of f j = (case j of JNull \<Rightarrow> Some None | _ \<Rightarrow> map_option Some (f j))"

definition enum_of :: "(string \<Rightarrow> 'a option) \<Rightarrow> json \<Rightarrow> 'a option" where
  "enum_of f j = Option.bind (as_str j) f"

text \<open>\<open>uid\<close> is the uuid a missing tenant id gets.\<close>

definition namespace_from_json :: "string \<Rightarrow> json \<Rightarrow> namespace option" where
  "namespace_from_json uid d = (case d of JObj kvs \<Rightarrow> do {
     name \<leftarrow> Option.bind (map_of kvs ''name'') as_str;
     d \<leftarrow> Option.bind (map_of kvs ''dimension'') as_int;
     metric \<leftarrow> field_or (enum_of distance_of) COSINE kvs ''distance_metric'';
     itype \<leftarrow> field_or (enum_of itype_of) HNSW kvs ''index_type'';
     rf \<leftarrow> field_or as_int 3 kvs ''replication_factor'';
     acks \<leftarrow> field_or as_int 1 kvs ''required_acks'';
     shards \<leftarrow> field_or as_int 8 kvs ''shard_count'';
     comp \<leftarrow> field_or (enum_of compression_of) NONE kvs ''compression'';
     tenant \<leftarrow> field_or as_str uid kvs ''tenant_id'';
     expected \<leftarrow> field_or (opt_of as_int) None kvs ''expected_records'';
     (let n = \<lparr>ns_name = name, ns_dimension = d, ns_distance_metric = metric, ns_index_type = itype,
                ns_replication_factor = rf, ns_required_acks = acks, ns_shard_count = shards,
                ns_compression = comp, ns_tenant_id = tenant, ns_expected_records = expected\<rparr>
      in if valid_namespace n then Some n else None) }
   | _ \<Rightarrow> None)"

subsection \<open>The JSON backend\<close>

record json_backend =
  jb_path :: string
  jb_data :: "(string, namespace) dict"
  jb_file :: "json option"
  jb_writable :: bool

definition backend_dump :: "json_backend \<Rightarrow> json" where
  "backend_dump b = JObj (map (\<lambda>(k, n). (k, namespace_to_json n)) (jb_data b))"

text \<open>\<open>_persist\<close>: the write can raise, and nothing catches it.\<close>

definition backend_persist :: "json_backend \<Rightarrow> unit res \<times> json_backend" where
  "backend_persist b =
     (if jb_path b = [] then (Inr (), b)
      else if jb_writable b then (Inr (), b\<lparr>jb_file := Some (backend_dump b)\<rparr>)
      else (Inl (OtherError ''OSError'' (jb_path b)), b))"

fun load_namespaces :: "string \<Rightarrow> (string \<times> json) list \<Rightarrow> (string, namespace) dict \<Rightarrow> (string, namespace) dict" where
  "load_namespaces uid [] d = d"
| "load_namespaces uid ((k, v) # rest) d =
     (case namespace_from_json uid v of None \<Rightarrow> d | Some n \<Rightarrow> load_namespaces uid rest (dict_put k n d))"

definition new_backend :: "string \<Rightarrow> string \<Rightarrow> json option \<Rightarrow> bool \<Rightarrow> json_backend" where
  "new_backend uid path file writable =
     \<lparr>jb_path = path,
      jb_data = (if path = [] then []
                 else (case file of Some (JObj kvs) \<Rightarrow> load_namespaces uid kvs [] | _ \<Rightarrow> [])),
      jb_file = file, jb_writable = writable\<rparr>"

definition backend_create :: "namespace \<Rightarrow> json_backend \<Rightarrow> namespace res \<times> json_backend" where
  "backend_create n b =
     (if dict_get (jb_data b) (ns_name n) \<noteq> None then
        (Inl (ValueError (''namespace '' @ py_repr (ns_name n) @ '' already exists'')), b)
      else
        (case backend_persist (b\<lparr>jb_data := dict_put (ns_name n) n (jb_data b)\<rparr>) of
           (Inl e, b1) \<Rightarrow> (Inl e, b1) | (Inr _, b1) \<Rightarrow> (Inr n, b1)))"

definition backend_get :: "json_backend \<Rightarrow> string \<Rightarrow> namespace option" where
  "backend_get b name = dict_get (jb_data b) name"

definition backend_delete :: "string \<Rightarrow> json_backend \<Rightarrow> unit res \<times> json_backend" where
  "backend_delete name b =
     (if dict_get (jb_data b) name = None then (Inl (KeyError name), b)
      else backend_persist (b\<lparr>jb_data := dict_pop name (jb_data b)\<rparr>))"

definition backend_list :: "json_backend \<Rightarrow> namespace list" where
  "backend_list b = dict_values (jb_data b)"

definition backend_upsert :: "namespace \<Rightarrow> json_backend \<Rightarrow> namespace res \<times> json_backend" where
  "backend_upsert n b =
     (case backend_persist (b\<lparr>jb_data := dict_put (ns_name n) n (jb_data b)\<rparr>) of
        (Inl e, b1) \<Rightarrow> (Inl e, b1) | (Inr _, b1) \<Rightarrow> (Inr n, b1))"

subsection \<open>The Postgres backend\<close>

text \<open>The statements the backend sends: any of them, the connection included, can raise.\<close>

record 'db pg_ops =
  pg_create_table :: "'db \<Rightarrow> unit res \<times> 'db"
  pg_select :: "string \<Rightarrow> 'db \<Rightarrow> json option res"
  pg_select_all :: "'db \<Rightarrow> json list res"
  pg_insert :: "string \<Rightarrow> json \<Rightarrow> 'db \<Rightarrow> unit res \<times> 'db"
  pg_upsert_row :: "string \<Rightarrow> json \<Rightarrow> 'db \<Rightarrow> unit res \<times> 'db"
  pg_delete_row :: "string \<Rightarrow> 'db \<Rightarrow> nat res \<times> 'db"

text \<open>A stored configuration is validated when it is read.\<close>

definition pg_validate :: "string \<Rightarrow> json \<Rightarrow> namespace res" where
  "pg_validate uid j =
     (case namespace_from_json uid j of
        None \<Rightarrow> Inl (OtherError ''ValidationError'' ''Namespace'') | Some n \<Rightarrow> Inr n)"

definition postgres_create :: "'db pg_ops \<Rightarrow> namespace \<Rightarrow> 'db \<Rightarrow> namespace res \<times> 'db" where
  "postgres_create ops n db =
     (case pg_create_table ops db of
        (Inl e, db1) \<Rightarrow> (Inl e, db1)
      | (Inr _, db1) \<Rightarrow>
          (case pg_select ops (ns_name n) db1 of
             Inl e \<Rightarrow> (Inl e, db1)
           | Inr (Some _) \<Rightarrow> (Inl (ValueError (''namespace '' @ py_repr (ns_name n) @ '' already exists'')), db1)
           | Inr None \<Rightarrow>
               (case pg_insert ops (ns_name n) (namespace_to_json n) db1 of
                  (Inl e, db2) \<Rightarrow> (Inl e, db2) | (Inr _, db2) \<Rightarrow> (Inr n, db2))))"

definition postgres_get :: "'db pg_ops \<Rightarrow> string \<Rightarrow> string \<Rightarrow> 'db \<Rightarrow> namespace option res" where
  "postgres_get ops uid name db =
     (case pg_select ops name db of
        Inl e \<Rightarrow> Inl e
      | Inr None \<Rightarrow> Inr None
      | Inr (Some j) \<Rightarrow> (case pg_validate uid j of Inl e \<Rightarrow> Inl e | Inr n \<Rightarrow> Inr (Some n)))"

definition postgres_delete :: "'db pg_ops \<Rightarrow> string \<Rightarrow> 'db \<Rightarrow> unit res \<times> 'db" where
  "postgres_delete ops name db =
     (case pg_delete_row ops name db of
        (Inl e, db1) \<Rightarrow> (Inl e, db1)
      | (Inr k, db1) \<Rightarrow> if k = 0 then (Inl (KeyError name), db) else (Inr (), db1))"

fun validate_rows :: "string \<Rightarrow> json list \<Rightarrow> namespace list res" where
  "validate_rows uid [] = Inr []"
| "validate_rows uid (j # js) =
     (case pg_validate uid j of
        Inl e \<Rightarrow> Inl e
      | Inr n \<Rightarrow> (case validate_rows uid js of Inl e \<Rightarrow> Inl e | Inr ns \<Rightarrow> Inr (n # ns)))"

definition postgres_list :: "'db pg_ops \<Rightarrow> string \<Rightarrow> 'db \<Rightarrow> namespace list res" where
  "postgres_list ops uid db =
     (case pg_select_all ops db of Inl e \<Rightarrow> Inl e | Inr js \<Rightarrow> validate_rows uid js)"

definition postgres_upsert :: "'db pg_ops \<Rightarrow> namespace \<Rightarrow> 'db \<Rightarrow> namespace res \<times> 'db" where
  "postgres_upsert ops n db =
     (case pg_create_table ops db of
        (Inl e, db1) \<Rightarrow> (Inl e, db1)
      | (Inr _, db1) \<Rightarrow>
          (case pg_upsert_row ops (ns_name n) (namespace_to_json n) db1 of
             (Inl e, db2) \<Rightarrow> (Inl e, db2) | (Inr _, db2) \<Rightarrow> (Inr n, db2)))"

subsection \<open>The facade\<close>

datatype 'db metadata_store = Json json_backend | Postgres 'db

text \<open>
  \<open>MetadataStore\<close>: Postgres when a DSN is given, a driver is there and a first listing succeeds
  (\<open>pg\<close> is the database it connects to), otherwise the JSON backend.
\<close>

definition new_metadata_store ::
    "'db pg_ops \<Rightarrow> string \<Rightarrow> string \<Rightarrow> bool \<Rightarrow> 'db \<Rightarrow> string \<Rightarrow> json option \<Rightarrow> bool \<Rightarrow> 'db metadata_store" where
  "new_metadata_store ops uid dsn driver pg path file writable =
     (if dsn \<noteq> [] \<and> driver \<and> (case postgres_list ops uid pg of Inl e \<Rightarrow> False | Inr ns \<Rightarrow> True)
      then Postgres pg else Json (new_backend uid path file writable))"

fun store_create :: "'db pg_ops \<Rightarrow> namespace \<Rightarrow> 'db metadata_store \<Rightarrow> namespace res \<times> 'db metadata_store" where
  "store_create ops n (Json b) = (case backend_create n b of (x, b1) \<Rightarrow> (x, Json b1))"
| "store_create ops n (Postgres db) = (case postgres_create ops n db of (x, db1) \<Rightarrow> (x, Postgres db1))"

fun store_get :: "'db pg_ops \<Rightarrow> string \<Rightarrow> string \<Rightarrow> 'db metadata_store \<Rightarrow> namespace option res" where
  "store_get ops uid name (Json b) = Inr (backend_get b name)"
| "store_get ops uid name (Postgres db) = postgres_get ops uid name db"

fun store_delete :: "'db pg_ops \<Rightarrow> string \<Rightarrow> 'db metadata_store \<Rightarrow> unit res \<times> 'db metadata_store" where
  "store_delete ops name (Json b) = (case backend_delete name b of (x, b1) \<Rightarrow> (x, Json b1))"
| "store_delete ops name (Postgres db) = (case postgres_delete ops name db of (x, db1) \<Rightarrow> (x, Postgres db1))"

fun store_list :: "'db pg_ops \<Rightarrow> string \<Rightarrow> 'db metadata_store \<Rightarrow> namespace list res" where
  "store_list ops uid (Json b) = Inr (backend_list b)"
| "store_list ops uid (Postgres db) = postgres_list ops uid db"

fun store_upsert :: "'db pg_ops \<Rightarrow> namespace \<Rightarrow> 'db metadata_store \<Rightarrow> namespace res \<times> 'db metadata_store" where
  "store_upsert ops n (Json b) = (case backend_upsert n b of (x, b1) \<Rightarrow> (x, Json b1))"
| "store_upsert ops n (Postgres db) = (case postgres_upsert ops n db of (x, db1) \<Rightarrow> (x, Postgres db1))"

fun store_backend :: "'db metadata_store \<Rightarrow> string" where
  "store_backend (Json b) = ''json''"
| "store_backend (Postgres db) = ''postgres''"

end
