(* ===== verification/Api.thy ===== *)
theory Api
  imports Query Gateway Metadata_Store Control_Plane
begin

text \<open>
  \<open>api/rest.py\<close>: the single node that wires the metadata store, the control plane, the ingest service
  and the query engine together, its start and its endpoints. \<open>nd_service\<close> holds the router, whose
  store is the etcd of the lifecycle manager and of the membership; the service sees the table of the
  JSON backend (\<open>with_backend\<close>). An endpoint gets the claims its authentication dependency returned.
\<close>

record ('h, 'f, 'r) api_env =
  ae_settings :: settings
  ae_node_id :: string
  ae_cluster_id :: string
  ae_shard_max_vectors :: int
  ae_ienv :: "('h, 'f) ienv"
  ae_redis :: "'r redis_ops"
  ae_texts :: query_texts
  ae_opa :: "(string \<Rightarrow> string \<Rightarrow> string \<Rightarrow> bool res) option"
  ae_rerank :: rerank

record ('h, 'f, 'r) node =
  nd_backend :: json_backend
  nd_service :: "('h, 'f) ingest"
  nd_cache :: "'r cache"
  nd_recovery :: "(string, string) dict"

abbreviation node_etcd :: "('h, 'f, 'r) node \<Rightarrow> etcd" where
  "node_etcd nd \<equiv> r_etcd (ig_router (nd_service nd))"

definition with_etcd :: "etcd \<Rightarrow> ('h, 'f, 'r) node \<Rightarrow> ('h, 'f, 'r) node" where
  "with_etcd st nd = nd\<lparr>nd_service := (nd_service nd)\<lparr>ig_router := (ig_router (nd_service nd))\<lparr>r_etcd := st\<rparr>\<rparr>\<rparr>"

definition with_backend :: "json_backend \<Rightarrow> ('h, 'f, 'r) node \<Rightarrow> ('h, 'f, 'r) node" where
  "with_backend b nd = nd\<lparr>nd_backend := b, nd_service := (nd_service nd)\<lparr>ig_namespaces := jb_data b\<rparr>\<rparr>"

subsection \<open>Shards of a namespace\<close>

definition node_pool :: "string list" where
  "node_pool = [''node-0'', ''node-1'', ''node-2'']"

definition replica_nodes :: "string \<Rightarrow> string list" where
  "replica_nodes node_id = filter (\<lambda>n. n \<noteq> node_id) node_pool"

definition make_shard :: "string \<Rightarrow> time \<Rightarrow> string \<Rightarrow> nat \<Rightarrow> shard" where
  "make_shard node_id now ns index =
     (new_shard (ns @ ''#shard-'' @ zfill 3 index) now ns node_id)\<lparr>sh_replicas := replica_nodes node_id\<rparr>"

fun create_shards :: "string \<Rightarrow> (nat \<Rightarrow> time) \<Rightarrow> string \<Rightarrow> nat list \<Rightarrow> etcd \<Rightarrow> unit res \<times> etcd" where
  "create_shards node_id clk ns [] st = (Inr (), st)"
| "create_shards node_id clk ns (i # is) st =
     (let (r, st1) = alloc (make_shard node_id (clk i) ns i) st in
      case lc_create mem_ops validate_node r (Some node_id) (Some (replica_nodes node_id)) st1 of
        (Inl e, st2) \<Rightarrow> (Inl e, st2)
      | (Inr _, st2) \<Rightarrow>
          (case lc_activate mem_ops r st2 of
             (Inl e, st3) \<Rightarrow> (Inl e, st3)
           | (Inr _, st3) \<Rightarrow> create_shards node_id clk ns is st3))"

definition ensure_namespace_shards ::
    "string \<Rightarrow> (nat \<Rightarrow> time) \<Rightarrow> string \<Rightarrow> int \<Rightarrow> etcd \<Rightarrow> unit res \<times> etcd" where
  "ensure_namespace_shards node_id clk ns shard_count st =
     (if list_by_namespace st ns \<noteq> [] then (Inr (), st)
      else create_shards node_id clk ns [0..<nat shard_count] st)"

subsection \<open>The start of a node\<close>

text \<open>An exception while the shards are created ends the start.\<close>

fun hydrate :: "string \<Rightarrow> (string \<Rightarrow> nat \<Rightarrow> time) \<Rightarrow> namespace list \<Rightarrow> etcd \<Rightarrow> unit res \<times> etcd" where
  "hydrate node_id clk [] st = (Inr (), st)"
| "hydrate node_id clk (n # ns) st =
     (case ensure_namespace_shards node_id (clk (ns_name n)) (ns_name n) (ns_shard_count n) st of
        (Inl e, st1) \<Rightarrow> (Inl e, st1) | (Inr _, st1) \<Rightarrow> hydrate node_id clk ns st1)"

text \<open>Startup recovery opens every shard; failures are recorded, not raised.\<close>

definition recover_shard ::
    "('h, 'f) ienv \<Rightarrow> (nat \<Rightarrow> moment) \<Rightarrow> string \<times> nat \<times> sref \<Rightarrow> (string, string) dict \<times> ('h, 'f) ingest \<Rightarrow>
     (string, string) dict \<times> ('h, 'f) ingest" where
  "recover_shard ev mos = (\<lambda>(ns, j, r) (status, st).
     (let key = ctx_key ns (sh_id (heap_shard st r)) in
      case get_or_create_ctx ev (mos j) ns r st of
        (Inl e, st1) \<Rightarrow> (dict_put key (''error:'' @ exn_str e) status, st1)
      | (Inr k, st1) \<Rightarrow>
          ((case dict_get (ig_shards st1) k of
              None \<Rightarrow> status
            | Some (r1, cx) \<Rightarrow>
                if rr_recovered_from_wal (cx_recovery cx) = 0 then status
                else dict_put key (''recovered:'' @ int_str (rr_recovered_from_wal (cx_recovery cx))) status), st1)))"

definition startup_recovery ::
    "('h, 'f) ienv \<Rightarrow> (nat \<Rightarrow> moment) \<Rightarrow> namespace list \<Rightarrow> ('h, 'f) ingest \<Rightarrow>
     (string, string) dict \<times> ('h, 'f) ingest" where
  "startup_recovery ev mos nss st =
     (let todo = concat (map (\<lambda>n. map (Pair (ns_name n)) (list_by_namespace (r_etcd (ig_router st)) (ns_name n))) nss)
      in fold (recover_shard ev mos) (map (\<lambda>(j, ns, r). (ns, j, r)) (zip [0..<length todo] todo)) ([], st))"

definition start_node ::
    "('h, 'f, 'r) api_env \<Rightarrow> (string \<Rightarrow> nat \<Rightarrow> time) \<Rightarrow> (nat \<Rightarrow> moment) \<Rightarrow> real \<Rightarrow> string \<Rightarrow> storage \<Rightarrow>
     json_backend \<Rightarrow> etcd \<Rightarrow> 'r cache \<Rightarrow> ('h, 'f, 'r) node res" where
  "start_node ae clk mos ttl data_dir disk b st cache =
     (case bootstrap_local_node (ae_cluster_id ae) (ae_node_id ae) st of
        (Inl e, st1) \<Rightarrow> Inl e
      | (Inr _, st1) \<Rightarrow>
          (case hydrate (ae_node_id ae) clk (backend_list b) st1 of
             (Inl e, st2) \<Rightarrow> Inl e
           | (Inr _, st2) \<Rightarrow>
               (let service = new_ingest (new_router st2 ttl True) (jb_data b) data_dir (Some (ae_node_id ae)) disk;
                    (status, service1) = startup_recovery (ae_ienv ae) mos (backend_list b) service
                in Inr \<lparr>nd_backend = b, nd_service = service1, nd_cache = cache, nd_recovery = status\<rparr>)))"

subsection \<open>Health, membership and placement\<close>

definition node_ready :: "('h, 'f, 'r) node \<Rightarrow> bool" where
  "node_ready nd = (\<not> list_ex (\<lambda>(k, v). starts_with ''error:'' v) (nd_recovery nd))"

definition get_ready :: "('h, 'f, 'r) node \<Rightarrow> json" where
  "get_ready nd = JObj
     [(''ready'', JBool (node_ready nd)),
      (''namespaces'', JInt (int (length (backend_list (nd_backend nd))))),
      (''recovery'', if nd_recovery nd \<noteq> [] then JObj (map (\<lambda>(k, v). (k, JStr v)) (nd_recovery nd)) else JStr ''complete'')]"

definition cluster_status :: "('h, 'f, 'r) api_env \<Rightarrow> string \<Rightarrow> ('h, 'f, 'r) node \<Rightarrow> json" where
  "cluster_status ae local_state nd = JObj
     [(''cluster_id'', JStr (manager_cluster_id (Some (ae_cluster_id ae)))),
      (''node_id'', JStr (ae_node_id ae)),
      (''membership_state'', JStr local_state),
      (''known_nodes'', JList (map node_to_dict (member_list (node_etcd nd))))]"

definition get_cluster_node :: "string \<Rightarrow> ('h, 'f, 'r) node \<Rightarrow> json res" where
  "get_cluster_node nid nd =
     (case member_get (node_etcd nd) nid of
        None \<Rightarrow> Inl (HTTPException 404 (''node not found: '' @ nid)) | Some n \<Rightarrow> Inr (node_to_dict n))"

definition cluster_placement :: "('h, 'f, 'r) api_env \<Rightarrow> ('h, 'f, 'r) node \<Rightarrow> json" where
  "cluster_placement ae nd = JObj
     [(''cluster_id'', JStr (manager_cluster_id (Some (ae_cluster_id ae)))),
      (''local_node_id'', JStr (ae_node_id ae)),
      (''namespaces'', JList (map (\<lambda>n. placement_view (ig_router (nd_service nd)) (ns_name n) (Some (ae_node_id ae)))
         (backend_list (nd_backend nd))))]"

definition namespace_placement :: "('h, 'f, 'r) api_env \<Rightarrow> string \<Rightarrow> ('h, 'f, 'r) node \<Rightarrow> json res" where
  "namespace_placement ae name nd =
     (case backend_get (nd_backend nd) name of
        None \<Rightarrow> Inl (HTTPException 404 ''namespace not found'')
      | Some n \<Rightarrow>
          (case placement_view (ig_router (nd_service nd)) name (Some (ae_node_id ae)) of
             JObj kvs \<Rightarrow> Inr (JObj (kvs @ [(''dimension'', JInt (ns_dimension n)),
               (''shard_count'', JInt (int (length (list_by_namespace (node_etcd nd) name))))]))
           | j \<Rightarrow> Inr j))"

subsection \<open>Namespaces\<close>

record namespace_create =
  nc_name :: string
  nc_dimension :: int
  nc_distance_metric :: string
  nc_index_type :: string
  nc_replication_factor :: int
  nc_shard_count :: int
  nc_compression :: string
  nc_expected_records :: "int option"

text \<open>The construction of the namespace: any exception is answered with 400.\<close>

definition requested_namespace :: "string \<Rightarrow> int \<Rightarrow> namespace_create \<Rightarrow> namespace res" where
  "requested_namespace uid shard_max body =
     (case (distance_of (nc_distance_metric body), itype_of (nc_index_type body), compression_of (nc_compression body)) of
        (Some dm, Some it, Some co) \<Rightarrow>
          (let n = \<lparr>ns_name = nc_name body, ns_dimension = nc_dimension body, ns_distance_metric = dm, ns_index_type = it,
                     ns_replication_factor = nc_replication_factor body, ns_required_acks = 1,
                     ns_shard_count = nc_shard_count body, ns_compression = co, ns_tenant_id = uid,
                     ns_expected_records = nc_expected_records body\<rparr>
           in if \<not> valid_namespace n then Inl (OtherError ''ValidationError'' ''Namespace'')
              else (case auto_tune shard_max n of (Inl e, n1) \<Rightarrow> Inl e | (Inr c, n1) \<Rightarrow> Inr n1))
      | _ \<Rightarrow> Inl (ValueError ''is not a valid value''))"

definition http_of :: "nat \<Rightarrow> 'a res \<Rightarrow> 'a res" where
  "http_of status x =
     (case x of Inl e \<Rightarrow> Inl (if is_ValueError e then HTTPException status (exn_str e) else e) | Inr y \<Rightarrow> Inr y)"

definition create_namespace ::
    "('h, 'f, 'r) api_env \<Rightarrow> string \<Rightarrow> (nat \<Rightarrow> time) \<Rightarrow> namespace_create \<Rightarrow> ('h, 'f, 'r) node \<Rightarrow>
     json res \<times> ('h, 'f, 'r) node" where
  "create_namespace ae uid clk body nd =
     (case requested_namespace uid (ae_shard_max_vectors ae) body of
        Inl e \<Rightarrow> (Inl (HTTPException 400 (exn_str e)), nd)
      | Inr n \<Rightarrow>
          (case backend_create n (nd_backend nd) of
             (Inl e, b) \<Rightarrow> (http_of 409 (Inl e), with_backend b nd)
           | (Inr _, b) \<Rightarrow>
               (let nd1 = with_backend b nd in
                case ensure_namespace_shards (ae_node_id ae) clk (ns_name n) (ns_shard_count n) (node_etcd nd1) of
                  (Inl e, st) \<Rightarrow> (Inl e, with_etcd st nd1)
                | (Inr _, st) \<Rightarrow> (Inr (namespace_to_json n), with_etcd st nd1))))"

definition delete_shards :: "string \<Rightarrow> etcd \<Rightarrow> etcd" where
  "delete_shards ns st = fold (\<lambda>r st. etcd_delete (sh_id (e_heap st r)) st) (list_by_namespace st ns) st"

text \<open>The contexts of the service and the files of the shards are left as they are.\<close>

definition delete_namespace :: "string \<Rightarrow> ('h, 'f, 'r) node \<Rightarrow> string res \<times> ('h, 'f, 'r) node" where
  "delete_namespace name nd =
     (case backend_get (nd_backend nd) name of
        None \<Rightarrow> (Inl (HTTPException 404 ''namespace not found''), nd)
      | Some n \<Rightarrow>
          (let rt = ig_router (nd_service nd);
               rt1 = invalidate name (rt\<lparr>r_etcd := delete_shards name (r_etcd rt)\<rparr>);
               nd1 = nd\<lparr>nd_service := (nd_service nd)\<lparr>ig_router := rt1\<rparr>\<rparr>
           in case backend_delete name (nd_backend nd1) of
                (Inl e, b) \<Rightarrow> (Inl e, with_backend b nd1) | (Inr _, b) \<Rightarrow> (Inr name, with_backend b nd1)))"

record namespace_stats =
  nst_namespace :: string
  nst_dimension :: int
  nst_index_type :: string
  nst_shard_count :: nat
  nst_total_vectors :: int
  nst_replication_factor :: int
  nst_cost :: cost_estimate
  nst_shards :: "json list"

definition get_namespace_stats ::
    "(real \<Rightarrow> real) \<Rightarrow> string \<Rightarrow> ('h, 'f, 'r) node \<Rightarrow> namespace_stats res" where
  "get_namespace_stats round2 name nd =
     (case backend_get (nd_backend nd) name of
        None \<Rightarrow> Inl (HTTPException 404 ''not found'')
      | Some n \<Rightarrow>
          (let h = e_heap (node_etcd nd); shards = list_by_namespace (node_etcd nd) name;
               total = sum_list (map (\<lambda>r. sh_vector_count (h r)) shards);
               expected = (case ns_expected_records n of Some k \<Rightarrow> if k \<noteq> 0 then k else if total \<noteq> 0 then total else 1000000
                           | None \<Rightarrow> if total \<noteq> 0 then total else 1000000)
           in Inr \<lparr>nst_namespace = name, nst_dimension = ns_dimension n,
                   nst_index_type = index_type_value (ns_index_type n), nst_shard_count = length shards,
                   nst_total_vectors = total, nst_replication_factor = ns_replication_factor n,
                   nst_cost = estimate_cost round2 expected (ns_dimension n) (compression_value (ns_compression n))
                     (ns_replication_factor n) 100 20 False,
                   nst_shards = map (\<lambda>r. shard_to_dict (h r)) shards\<rparr>))"

definition list_namespaces :: "('h, 'f, 'r) node \<Rightarrow> json" where
  "list_namespaces nd = JList (map namespace_to_json (backend_list (nd_backend nd)))"

subsection \<open>Vectors\<close>

text \<open>The permission check of an endpoint: outside production a refusal is dropped.\<close>

definition guard :: "('h, 'f, 'r) api_env \<Rightarrow> claims \<Rightarrow> string \<Rightarrow> string \<Rightarrow> unit res" where
  "guard ae auth namespace action =
     (let tenant = (case tenant_of auth of JStr s \<Rightarrow> s | j \<Rightarrow> cd_str (ie_codec (ae_ienv ae)) j)
      in case check_permission (ae_opa ae) shipped_policies tenant namespace action of
           Inr _ \<Rightarrow> Inr ()
         | Inl e \<Rightarrow> if st_env (ae_settings ae) = ''production'' then Inl e else Inr ())"

definition upsert_vectors ::
    "('h, 'f, 'r) api_env \<Rightarrow> clock \<Rightarrow> (nat \<Rightarrow> string \<times> string \<times> string) \<Rightarrow> int \<Rightarrow> claims \<Rightarrow> string \<Rightarrow>
     (string, json) dict list \<Rightarrow> string option \<Rightarrow> ('h, 'f, 'r) node \<Rightarrow> upsert_result res \<times> ('h, 'f, 'r) node" where
  "upsert_vectors ae clk ids took auth ns raws idem nd =
     (case guard ae auth ns ''upsert'' of
        Inl e \<Rightarrow> (Inl e, nd)
      | Inr _ \<Rightarrow>
          (case upsert (ae_ienv ae) clk ids took ns raws idem (nd_service nd) of
             (Inl e, st) \<Rightarrow> (http_of 400 (Inl e), nd\<lparr>nd_service := st\<rparr>)
           | (Inr res, st) \<Rightarrow>
               (Inr res, nd\<lparr>nd_service := st, nd_cache := invalidate_namespace (ae_redis ae) ns (nd_cache nd)\<rparr>)))"

definition query_vectors ::
    "('h, 'f, 'r) api_env \<Rightarrow> bool \<Rightarrow> time \<Rightarrow> time \<Rightarrow> int \<Rightarrow> claims \<Rightarrow> query_args \<Rightarrow> ('h, 'f, 'r) node \<Rightarrow>
     query_result res \<times> ('h, 'f, 'r) node" where
  "query_vectors ae timeout now now2 took auth qa nd =
     (case guard ae auth (qa_namespace qa) ''query'' of
        Inl e \<Rightarrow> (Inl e, nd)
      | Inr _ \<Rightarrow>
          (case query (ae_ienv ae) (ae_redis ae) (ae_texts ae) (ae_rerank ae) timeout now now2 took qa
                  (nd_service nd, nd_cache nd) of
             (x, st, c) \<Rightarrow> (http_of 400 x, nd\<lparr>nd_service := st, nd_cache := c\<rparr>)))"

definition fetch_vectors ::
    "('h, 'f, 'r) api_env \<Rightarrow> (nat \<Rightarrow> moment) \<Rightarrow> claims \<Rightarrow> string \<Rightarrow> string list \<Rightarrow> ('h, 'f, 'r) node \<Rightarrow>
     json list res \<times> ('h, 'f, 'r) node" where
  "fetch_vectors ae mos auth ns ids nd =
     (case guard ae auth ns ''fetch'' of
        Inl e \<Rightarrow> (Inl e, nd)
      | Inr _ \<Rightarrow>
          (case fetch (ae_ienv ae) mos ns ids (nd_service nd) of (x, st) \<Rightarrow> (http_of 400 x, nd\<lparr>nd_service := st\<rparr>)))"

definition delete_vectors ::
    "('h, 'f, 'r) api_env \<Rightarrow> clock \<Rightarrow> time \<Rightarrow> claims \<Rightarrow> string \<Rightarrow> string list \<Rightarrow> (string, json) dict \<Rightarrow>
     ('h, 'f, 'r) node \<Rightarrow> delete_result res \<times> ('h, 'f, 'r) node" where
  "delete_vectors ae clk now auth ns ids f nd =
     (case guard ae auth ns ''delete'' of
        Inl e \<Rightarrow> (Inl e, nd)
      | Inr _ \<Rightarrow>
          (case ingest_delete (ae_ienv ae) clk now ns ids f (nd_service nd) of
             (x, st) \<Rightarrow> (http_of 400 x, nd\<lparr>nd_service := st\<rparr>)))"

definition get_vector ::
    "('h, 'f, 'r) api_env \<Rightarrow> (nat \<Rightarrow> moment) \<Rightarrow> string \<Rightarrow> string \<Rightarrow> ('h, 'f, 'r) node \<Rightarrow>
     json res \<times> ('h, 'f, 'r) node" where
  "get_vector ae mos ns vid nd =
     (case get_one (ae_ienv ae) mos ns vid (nd_service nd) of
        (Inl e, st) \<Rightarrow> (Inl e, nd\<lparr>nd_service := st\<rparr>)
      | (Inr None, st) \<Rightarrow> (Inl (HTTPException 404 ''not found''), nd\<lparr>nd_service := st\<rparr>)
      | (Inr (Some j), st) \<Rightarrow> (Inr j, nd\<lparr>nd_service := st\<rparr>))"

subsection \<open>Patching the metadata of a vector\<close>

text \<open>The record that is written back: the stored vector and the merged metadata, nothing else.\<close>

definition patched_raw :: "string \<Rightarrow> (string, json) dict \<Rightarrow> json \<Rightarrow> (string, json) dict" where
  "patched_raw vid body stored =
     (let kvs = (case stored of JObj kvs \<Rightarrow> kvs | _ \<Rightarrow> []);
          old = (case map_of kvs ''metadata'' of Some (JObj m) \<Rightarrow> m | _ \<Rightarrow> [])
      in [(''id'', JStr vid),
          (''vector'', case map_of kvs ''vector'' of Some v \<Rightarrow> v | None \<Rightarrow> JNull),
          (''metadata'', JObj (fold (\<lambda>(k, v) d. dict_put k v d) body old))])"

definition zero_vector :: "json \<Rightarrow> bool" where
  "zero_vector j = (case j of JList xs \<Rightarrow> list_all (\<lambda>x. num_of x = Some 0) xs | _ \<Rightarrow> False)"

text \<open>
  \<open>patch_metadata\<close>. A stored vector of zeros is looked up in the segments again; the answer of the
  upsert is dropped.
\<close>

definition patch_metadata ::
    "('h, 'f, 'r) api_env \<Rightarrow> (nat \<Rightarrow> moment) \<Rightarrow> time \<Rightarrow> clock \<Rightarrow> (nat \<Rightarrow> string \<times> string \<times> string) \<Rightarrow>
     string \<Rightarrow> string \<Rightarrow> (string, json) dict \<Rightarrow> ('h, 'f, 'r) node \<Rightarrow> string res \<times> ('h, 'f, 'r) node" where
  "patch_metadata ae mos now clk ids ns vid body nd =
     (case get_one (ae_ienv ae) mos ns vid (nd_service nd) of
        (Inl e, st) \<Rightarrow> (Inl e, nd\<lparr>nd_service := st\<rparr>)
      | (Inr None, st) \<Rightarrow> (Inl (HTTPException 404 ''not found''), nd\<lparr>nd_service := st\<rparr>)
      | (Inr (Some stored), st) \<Rightarrow>
          (let raw = patched_raw vid body stored;
               (looked, st1) =
                 (if \<not> zero_vector (md_get raw ''vector'' JNull) then (Inr raw, st)
                  else
                    (case route (ie_sha (ae_ienv ae)) (ie_hash (ae_ienv ae)) now ns vid (ig_router st) of
                       (Inl e, rt) \<Rightarrow> (Inl e, st\<lparr>ig_router := rt\<rparr>)
                     | (Inr r, rt) \<Rightarrow>
                         ((case dict_get (ig_shards st) (ctx_key ns (sh_id (heap_shard st r))) of
                             None \<Rightarrow> Inr raw
                           | Some (r1, cx) \<Rightarrow>
                               (case seg_get (ie_codec (ae_ienv ae)) (cx_segments cx) vid of
                                  Inl e \<Rightarrow> Inl e
                                | Inr None \<Rightarrow> Inr raw
                                | Inr (Some rec) \<Rightarrow> Inr (dict_put ''vector'' (JList (map JFloat (vr_vector rec))) raw))),
                          st\<lparr>ig_router := rt\<rparr>)))
           in case looked of
                Inl e \<Rightarrow> (Inl e, nd\<lparr>nd_service := st1\<rparr>)
              | Inr raw1 \<Rightarrow>
                  (case upsert (ae_ienv ae) clk ids 0 ns [raw1] None st1 of
                     (Inl e, st2) \<Rightarrow> (Inl e, nd\<lparr>nd_service := st2\<rparr>)
                   | (Inr res, st2) \<Rightarrow> (Inr vid, nd\<lparr>nd_service := st2\<rparr>))))"

end
