(* ===== verification/Metadata_Facts.thy ===== *)
theory Metadata_Facts
  imports Metadata_Store
begin

text \<open>
  The namespaces of the JSON backend: what is stored is valid and comes back after a restart, and
  what a write that fails leaves behind.
\<close>

lemma namespace_round_trip: "valid_namespace n \<Longrightarrow> namespace_from_json uid (namespace_to_json n) = Some n"
  by (cases n; cases "ns_expected_records n")
    (auto simp: namespace_from_json_def namespace_to_json_def field_or_def enum_of_def opt_of_def opt_json_def Let_def)

lemma namespace_from_json_valid: "namespace_from_json uid j = Some n \<Longrightarrow> valid_namespace n"
  by (auto simp: namespace_from_json_def Let_def bind_eq_Some_conv split: json.splits if_splits)

datatype store_request = CreateNamespace namespace | DeleteNamespace string | PutNamespace namespace

fun backend_serve :: "store_request \<Rightarrow> json_backend \<Rightarrow> json_backend" where
  "backend_serve (CreateNamespace n) b = snd (backend_create n b)"
| "backend_serve (DeleteNamespace name) b = snd (backend_delete name b)"
| "backend_serve (PutNamespace n) b = snd (backend_upsert n b)"

fun request_valid :: "store_request \<Rightarrow> bool" where
  "request_valid (CreateNamespace n) = valid_namespace n"
| "request_valid (DeleteNamespace name) = True"
| "request_valid (PutNamespace n) = valid_namespace n"

text \<open>The table is keyed by valid names, and the file, once written, is its dump.\<close>

definition backend_ok :: "json_backend \<Rightarrow> bool" where
  "backend_ok b \<longleftrightarrow> keyed_dict ns_name (jb_data b) \<and> (\<forall>n \<in> set (backend_list b). valid_namespace n) \<and>
     (jb_path b \<noteq> [] \<and> jb_writable b \<longrightarrow>
        jb_file b = Some (backend_dump b) \<or> jb_file b = None \<and> jb_data b = [])"

lemma values_put: "set (dict_values (dict_put k v d)) \<subseteq> insert v (set (dict_values d))"
  by (induction d) auto

lemma values_pop: "set (dict_values (dict_pop k d)) \<subseteq> set (dict_values d)"
  by (auto simp: AList.delete_eq)

lemma persist_ok:
  assumes "keyed_dict ns_name d" "\<forall>n \<in> set (dict_values d). valid_namespace n"
  shows "backend_ok (snd (backend_persist (b\<lparr>jb_data := d\<rparr>)))"
  using assms by (auto simp: backend_persist_def backend_ok_def backend_list_def backend_dump_def)

lemma serve_ok:
  assumes "backend_ok b" "request_valid q"
  shows "backend_ok (backend_serve q b)"
proof -
  have k: "keyed_dict ns_name (jb_data b)" "\<forall>n \<in> set (dict_values (jb_data b)). valid_namespace n"
    using assms(1) by (simp_all add: backend_ok_def backend_list_def)
  have put: "backend_ok (snd (backend_persist (b\<lparr>jb_data := dict_put (ns_name n) n (jb_data b)\<rparr>)))"
    if "valid_namespace n" for n
    using k values_put [of "ns_name n" n "jb_data b"] that
    by (intro persist_ok keyed_dict_put) blast+
  have pop: "backend_ok (snd (backend_persist (b\<lparr>jb_data := dict_pop name (jb_data b)\<rparr>)))" for name
    using k values_pop [of name "jb_data b"] by (intro persist_ok keyed_dict_pop) blast+
  show ?thesis
  proof (cases q)
    case (CreateNamespace n)
    with assms put [of n] show ?thesis
      by (auto simp: backend_create_def split: sum.splits prod.splits)
  next
    case (DeleteNamespace name)
    with assms pop show ?thesis by (auto simp: backend_delete_def)
  next
    case (PutNamespace n)
    with assms put [of n] show ?thesis
      by (auto simp: backend_upsert_def split: sum.splits prod.splits)
  qed
qed

lemma run_ok: "backend_ok b \<Longrightarrow> \<forall>q \<in> set qs. request_valid q \<Longrightarrow> backend_ok (fold backend_serve qs b)"
  by (induction qs arbitrary: b) (simp_all add: serve_ok)

lemma backend_serve_frame: "jb_path (backend_serve q b) = jb_path b \<and> jb_writable (backend_serve q b) = jb_writable b"
  by (cases q) (auto simp: backend_create_def backend_delete_def backend_upsert_def backend_persist_def)

lemma run_frame: "jb_path (fold backend_serve qs b) = jb_path b \<and> jb_writable (fold backend_serve qs b) = jb_writable b"
  by (induction qs arbitrary: b) (simp_all add: backend_serve_frame)

lemma load_dump:
  assumes "\<forall>n \<in> set (dict_values d). valid_namespace n" "dict_ok (acc @ d)"
  shows "load_namespaces uid (map (\<lambda>(k, n). (k, namespace_to_json n)) d) acc = acc @ d"
  using assms
proof (induction d arbitrary: acc)
  case (Cons kn d)
  obtain k n where kn: "kn = (k, n)" by (cases kn)
  have "dict_put k n acc = acc @ [(k, n)]" using Cons.prems(2) kn by (intro dict_put_fresh) auto
  then show ?case using Cons kn by (simp add: namespace_round_trip)
qed simp

text \<open>
  C34: the namespaces survive a restart. After any creations, replacements and deletions over a
  writable file, every stored namespace satisfies the constraints of its fields and is stored under
  its own name, and a backend started on the file holds the same table in the same order.
\<close>

theorem namespaces_survive_restart:
  assumes "path \<noteq> []" "b = fold backend_serve qs (new_backend uid path None True)"
    and "\<forall>q \<in> set qs. request_valid q"
  shows "jb_data (new_backend uid' path (jb_file b) w) = jb_data b \<and>
    (\<forall>name n. backend_get b name = Some n \<longrightarrow> valid_namespace n \<and> ns_name n = name)"
proof -
  have "backend_ok (new_backend uid path None True)"
    by (simp add: backend_ok_def new_backend_def backend_list_def keyed_dict_iff)
  then have ok: "backend_ok b" using assms(2,3) by (simp add: run_ok)
  have f: "jb_path b = path" "jb_writable b" using assms(2) by (simp_all add: run_frame) (simp_all add: new_backend_def)
  have k: "dict_ok (jb_data b)" "\<And>name n. dict_get (jb_data b) name = Some n \<Longrightarrow> ns_name n = name"
    using ok by (auto simp: backend_ok_def keyed_dict_iff)
  have v: "\<forall>n \<in> set (dict_values (jb_data b)). valid_namespace n"
    using ok by (simp add: backend_ok_def backend_list_def)
  have "jb_data (new_backend uid' path (jb_file b) w) = jb_data b"
    using ok f assms(1) load_dump [OF v, of "[]"] k(1)
    by (auto simp: backend_ok_def new_backend_def backend_dump_def)
  moreover have "valid_namespace n" if "backend_get b name = Some n" for name n
    using that v by (force simp: backend_get_def dest: map_of_SomeD)
  ultimately show ?thesis using k(2) by (auto simp: backend_get_def)
qed

definition plain_namespace :: "string \<Rightarrow> namespace" where
  "plain_namespace name = \<lparr>ns_name = name, ns_dimension = 2, ns_distance_metric = COSINE, ns_index_type = FLAT,
     ns_replication_factor = 3, ns_required_acks = 1, ns_shard_count = 1, ns_compression = NONE,
     ns_tenant_id = ''t'', ns_expected_records = None\<rparr>"

lemma namespaces_survive_restart_witness:
  "let b = fold backend_serve [CreateNamespace (plain_namespace ''a''), CreateNamespace (plain_namespace ''b''),
       DeleteNamespace ''a''] (new_backend ''u'' ''m.json'' None True) in
   jb_data (new_backend ''v'' ''m.json'' (jb_file b) True) = jb_data b \<and>
   backend_get b ''b'' = Some (plain_namespace ''b'') \<and> valid_namespace (plain_namespace ''b'')"
proof -
  let ?qs = "[CreateNamespace (plain_namespace ''a''), CreateNamespace (plain_namespace ''b''), DeleteNamespace ''a'']"
  define b where "b = fold backend_serve ?qs (new_backend ''u'' ''m.json'' None True)"
  have v: "valid_namespace (plain_namespace ''a'')" "valid_namespace (plain_namespace ''b'')"
    by (simp_all add: valid_namespace_def plain_namespace_def name_char_def)
  have g: "backend_get b ''b'' = Some (plain_namespace ''b'')"
    by (simp add: b_def backend_create_def backend_delete_def backend_persist_def new_backend_def backend_get_def
        plain_namespace_def)
  have "jb_data (new_backend ''v'' ''m.json'' (jb_file b) True) = jb_data b \<and>
    (\<forall>name n. backend_get b name = Some n \<longrightarrow> valid_namespace n \<and> ns_name n = name)"
    by (rule namespaces_survive_restart [OF _ b_def]) (use v in simp_all)
  with g v show ?thesis unfolding Let_def b_def by blast
qed

text \<open>
  A creation that cannot be written is refused but takes effect: the namespace is served from then
  on, and repeating the creation is refused because it exists.
\<close>

theorem failed_creation_takes_effect:
  assumes "jb_path b \<noteq> []" "\<not> jb_writable b" "backend_get b (ns_name n) = None"
  shows "\<exists>e b1. backend_create n b = (Inl e, b1) \<and> backend_get b1 (ns_name n) = Some n \<and>
    jb_file b1 = jb_file b \<and>
    backend_create n b1 = (Inl (ValueError (''namespace '' @ py_repr (ns_name n) @ '' already exists'')), b1)"
  using assms by (simp add: backend_create_def backend_persist_def backend_get_def map_of_dict_put)

lemma failed_creation_takes_effect_witness:
  "\<exists>e b1. backend_create (plain_namespace ''a'') (new_backend ''u'' ''m.json'' None False) = (Inl e, b1) \<and>
     backend_get b1 ''a'' = Some (plain_namespace ''a'')"
proof -
  have "backend_get (new_backend ''u'' ''m.json'' None False) (ns_name (plain_namespace ''a'')) = None"
    by (simp add: new_backend_def backend_get_def)
  from failed_creation_takes_effect [OF _ _ this] show ?thesis
    by (auto simp: new_backend_def plain_namespace_def)
qed

end
