(* ===== verification/Api_Facts.thy ===== *)
theory Api_Facts
  imports Api Query_Facts Metadata_Facts
begin

text \<open>
  What the endpoints of the node do: the shards a new namespace gets, what a deleted namespace leaves
  behind, which requests the role policies stop, what an acknowledged metadata patch may have done,
  and what a start keeps and reports.
\<close>

subsection \<open>Shard ids\<close>

definition shard_name :: "string \<Rightarrow> nat \<Rightarrow> string" where
  "shard_name ns i = ns @ ''#shard-'' @ zfill 3 i"

definition digits_value :: "string \<Rightarrow> nat" where
  "digits_value s = foldl (\<lambda>v c. 10 * v + (of_char c - 48)) 0 s"

lemma of_digit_char: "d < 10 \<Longrightarrow> (of_char (digit_char d) :: nat) = 48 + d"
proof -
  have "\<forall>d \<in> set [0..<10]. (of_char (digit_char d) :: nat) = 48 + d"
    by (simp add: digit_char_def upt_conv_Cons)
  then show "d < 10 \<Longrightarrow> ?thesis" by simp
qed

lemma digits_value_nat_str: "digits_value (nat_str n) = n"
proof (induction n rule: nat_str.induct)
  case (1 n)
  show ?case
  proof (cases "n < 10")
    case True
    then show ?thesis by (simp add: nat_str.simps [of n] digits_value_def of_digit_char)
  next
    case False
    have "n mod 10 < 10" by simp
    with 1 False show ?thesis by (simp add: nat_str.simps [of n] digits_value_def of_digit_char)
  qed
qed

lemma digits_value_zfill: "digits_value (zfill w n) = n"
proof -
  have "foldl (\<lambda>v c. 10 * v + (of_char c - 48)) 0 (List.replicate k CHR ''0'') = (0 :: nat)" for k
    by (induction k) simp_all
  then show ?thesis
    using digits_value_nat_str [of n] by (simp add: digits_value_def zfill_def Let_def)
qed

lemma shard_name_inj: "shard_name ns i = shard_name ns j \<longleftrightarrow> i = j"
proof
  assume "shard_name ns i = shard_name ns j"
  then have "digits_value (zfill 3 i) = digits_value (zfill 3 j)" by (simp add: shard_name_def)
  then show "i = j" by (simp only: digits_value_zfill)
qed simp

text \<open>A valid namespace name has no colon, so its shards are no reserved keys of the store.\<close>

lemma name_no_colon: "list_all name_char ns \<Longrightarrow> CHR '':'' \<notin> set ns"
proof -
  have "\<not> name_char CHR '':''" by code_simp
  then show "list_all name_char ns \<Longrightarrow> ?thesis" by (auto simp: list_all_iff)
qed

lemma not_prefix:
  assumes "CHR ''#'' \<notin> set p" "CHR '':'' \<in> set p" "CHR '':'' \<notin> set ns"
  shows "\<not> starts_with p (ns @ CHR ''#'' # rest)"
proof
  assume "starts_with p (ns @ CHR ''#'' # rest)"
  then obtain t where "ns @ CHR ''#'' # rest = p @ t" unfolding starts_with_iff by blast
  then have "(\<exists>us. ns = p @ us) \<or> CHR ''#'' \<in> set p"
    by (auto simp: append_eq_append_conv2 Cons_eq_append_conv)
  with assms show False by auto
qed

lemma shard_name_free: "list_all name_char ns \<Longrightarrow> \<not> reserved_key (shard_name ns i)"
  using not_prefix [of migration_key_prefix ns] not_prefix [of cluster_key_prefix ns] name_no_colon [of ns]
  by (simp add: reserved_key_def shard_name_def migration_key_prefix_def cluster_key_prefix_def)

subsection \<open>Creating the shards of a namespace\<close>

definition created_shard :: "string \<Rightarrow> time \<Rightarrow> string \<Rightarrow> nat \<Rightarrow> shard" where
  "created_shard node_id now ns i = (make_shard node_id now ns i)\<lparr>sh_version := 2\<rparr>"

lemma created_shard_fields [simp]:
  "sh_id (created_shard nid t ns i) = shard_name ns i" "sh_namespace (created_shard nid t ns i) = ns"
  "sh_node_id (created_shard nid t ns i) = nid" "sh_state (created_shard nid t ns i) = ShardState.ACTIVE"
  "sh_replicas (created_shard nid t ns i) = replica_nodes nid" "sh_vector_count (created_shard nid t ns i) = 0"
  by (simp_all add: created_shard_def make_shard_def new_shard_def shard_name_def)

lemma dict_put_last: "k \<notin> fst ` set d \<Longrightarrow> dict_put k v (d @ [(k, v)]) = d @ [(k, v)]"
  by (induction d) auto

lemma create_one:
  assumes "nid \<noteq> []" "known_member st nid" "wf_etcd st" "etcd_get st (shard_name ns i) = None"
    "\<not> reserved_key (shard_name ns i)"
  obtains st1 where "create_shards nid clk ns (i # ids) st = create_shards nid clk ns ids st1"
    "wf_etcd st1" "get_node st1 = get_node st" "e_data st1 = e_data st @ [(shard_name ns i, e_next st)]"
    "e_next st1 = Suc (e_next st)"
    "e_heap st1 = (e_heap st)(e_next st := created_shard nid (clk i) ns i)"
proof -
  let ?r = "e_next st" and ?s = "created_shard nid (clk i) ns i"
  define st0 where "st0 = snd (alloc (make_shard nid (clk i) ns i) st)"
  let ?st1 = "etcd_put ?r (assign ?r ?s (etcd_put ?r (assign ?r (?s\<lparr>sh_state := ShardState.CREATING, sh_version := 1\<rparr>)
      (assign ?r (make_shard nid (clk i) ns i) st0))))"
  have m: "sh_id (make_shard nid (clk i) ns i) = shard_name ns i" "sh_node_id (make_shard nid (clk i) ns i) = nid"
    "sh_replicas (make_shard nid (clk i) ns i) = replica_nodes nid"
    by (simp_all add: make_shard_def new_shard_def shard_name_def)
  have fresh: "shard_name ns i \<notin> fst ` set (e_data st)"
    using assms(4) by (force simp: etcd_get_def map_of_eq_None_iff)
  have wf: "wf_etcd ?st1"
    unfolding st0_def by (intro wf_put wf_assign wf_alloc assms(3)) (simp_all add: m alloc_def assms(5))
  have cs: "create_shards nid clk ns (i # ids) st = create_shards nid clk ns ids ?st1"
  proof -
    have "known_member (assign ?r (make_shard nid (clk i) ns i) st0) nid"
      using assms(2) by (simp add: known_member_def get_node_def alloc_def st0_def)
    then have v: "validate_node (assign ?r (make_shard nid (clk i) ns i) st0) nid = Inr ()"
      by (simp add: validate_node_ok)
    have o: "validate_ownership (make_shard nid (clk i) ns i) None None = Inr (make_shard nid (clk i) ns i)"
      using assms(1) by (simp add: validate_ownership_ok m replica_nodes_def)
    have same: "(make_shard nid (clk i) ns i)\<lparr>sh_node_id := nid, sh_replicas := replica_nodes nid\<rparr> =
        make_shard nid (clk i) ns i"
      by (simp add: make_shard_def new_shard_def)
    have cr: "?s\<lparr>sh_state := ShardState.CREATING, sh_version := 1\<rparr> =
        (make_shard nid (clk i) ns i)\<lparr>sh_state := ShardState.CREATING\<rparr>"
      by (simp add: created_shard_def make_shard_def new_shard_def)
    have h: "e_heap st0 ?r = make_shard nid (clk i) ns i" by (simp add: alloc_def st0_def)
    have c: "lc_create mem_ops validate_node ?r (Some nid) (Some (replica_nodes nid)) st0 =
        (Inr ?r, etcd_put ?r (assign ?r (?s\<lparr>sh_state := ShardState.CREATING, sh_version := 1\<rparr>)
          (assign ?r (make_shard nid (clk i) ns i) st0)))"
      by (simp add: lc_create_def Let_def h same v o m cr)
    have ac: "?s\<lparr>sh_state := ShardState.ACTIVE, sh_version := 2\<rparr> = ?s"
      by (simp add: created_shard_def make_shard_def new_shard_def)
    have a: "alloc (make_shard nid (clk i) ns i) st = (?r, st0)" by (simp add: alloc_def st0_def)
    show ?thesis
      by (simp add: a ac c lc_activate_def lc_transition_def shard_transition_def)
  qed
  have st0: "e_data st0 = e_data st" "e_next st0 = Suc ?r" "e_heap st0 = (e_heap st)(?r := make_shard nid (clk i) ns i)"
    "get_node st0 = get_node st"
    by (simp_all add: st0_def alloc_def get_node_def fun_eq_iff)
  have n: "get_node ?st1 = get_node st0" by (simp add: get_node_def fun_eq_iff)
  have d: "e_data ?st1 = e_data st @ [(shard_name ns i, ?r)]"
    using fresh by (simp add: st0 dict_put_fresh dict_put_last)
  show thesis
    by (rule that [OF cs wf n [unfolded st0] d]) (simp_all add: st0)
qed


lemma create_shards_ok:
  assumes "nid \<noteq> []" "list_all name_char ns" "known_member st nid" "wf_etcd st" "distinct ids"
    "\<forall>i \<in> set ids. etcd_get st (shard_name ns i) = None"
  obtains st1 where "create_shards nid clk ns ids st = (Inr (), st1)" "wf_etcd st1" "get_node st1 = get_node st"
    "e_data st1 = e_data st @ zip (map (shard_name ns) ids) [e_next st..<e_next st + length ids]"
    "\<forall>r < e_next st. e_heap st1 r = e_heap st r"
    "\<forall>j < length ids. e_heap st1 (e_next st + j) = created_shard nid (clk (ids ! j)) ns (ids ! j)"
  using assms(3-)
proof (induction ids arbitrary: st thesis)
  case Nil
  then show ?case by simp
next
  case (Cons i ids)
  have free: "\<not> reserved_key (shard_name ns i)" by (rule shard_name_free [OF assms(2)])
  obtain st1 where one: "create_shards nid clk ns (i # ids) st = create_shards nid clk ns ids st1"
    "wf_etcd st1" "get_node st1 = get_node st" "e_data st1 = e_data st @ [(shard_name ns i, e_next st)]"
    "e_next st1 = Suc (e_next st)" "e_heap st1 = (e_heap st)(e_next st := created_shard nid (clk i) ns i)"
    using create_one [OF assms(1) Cons.prems(2,3) _ free, of clk ids] Cons.prems(5) by auto
  have "\<forall>j \<in> set ids. etcd_get st1 (shard_name ns j) = None"
    using Cons.prems(4,5) by (auto simp: etcd_get_def one(4) shard_name_inj map_add_def)
  moreover have "known_member st1 nid" using Cons.prems(2) by (simp add: known_member_cong [OF one(3)])
  moreover have "distinct ids" using Cons.prems(4) by simp
  ultimately obtain st2 where two: "create_shards nid clk ns ids st1 = (Inr (), st2)" "wf_etcd st2"
    "get_node st2 = get_node st1"
    "e_data st2 = e_data st1 @ zip (map (shard_name ns) ids) [e_next st1..<e_next st1 + length ids]"
    "\<forall>r < e_next st1. e_heap st2 r = e_heap st1 r"
    "\<forall>j < length ids. e_heap st2 (e_next st1 + j) = created_shard nid (clk (ids ! j)) ns (ids ! j)"
    using Cons.IH [of st1] one(2) by blast
  show ?case
  proof (rule Cons.prems(1) [of st2])
    have "[e_next st..<e_next st + length (i # ids)] = e_next st # [e_next st1..<e_next st1 + length ids]"
      using upt_conv_Cons [of "e_next st" "e_next st + length (i # ids)"] by (simp add: one(5) del: upt_Suc)
    then show "e_data st2 = e_data st @ zip (map (shard_name ns) (i # ids)) [e_next st..<e_next st + length (i # ids)]"
      by (simp add: two(4) one(4))
    show "\<forall>j < length (i # ids). e_heap st2 (e_next st + j) = created_shard nid (clk ((i # ids) ! j)) ns ((i # ids) ! j)"
    proof (intro allI impI)
      fix j assume j: "j < length (i # ids)"
      show "e_heap st2 (e_next st + j) = created_shard nid (clk ((i # ids) ! j)) ns ((i # ids) ! j)"
      proof (cases j)
        case 0
        with two(5) show ?thesis by (simp add: one(5,6))
      next
        case (Suc k)
        with two(6) j show ?thesis by (simp add: one(5))
      qed
    qed
    show "\<forall>r < e_next st. e_heap st2 r = e_heap st r" using two(5) by (simp add: one(5,6))
    show "create_shards nid clk ns (i # ids) st = (Inr (), st2)" by (rule trans [OF one(1) two(1)])
    show "wf_etcd st2" by (rule two(2))
    show "get_node st2 = get_node st" by (simp add: two(3) one(3))
  qed
qed

lemma wf_values: "wf_etcd st \<Longrightarrow> r \<in> set (dict_values (e_data st)) \<Longrightarrow> r < e_next st"
  using dict_values_iff [of "e_data st" r] by (auto simp: wf_etcd_def wf_shards_def)

lemma ensure_ok:
  assumes "nid \<noteq> []" "list_all name_char ns" "known_member st nid" "wf_etcd st" "list_by_namespace st ns = []"
    "\<forall>i < nat k. etcd_get st (shard_name ns i) = None"
  obtains st1 where "ensure_namespace_shards nid clk ns k st = (Inr (), st1)" "wf_etcd st1"
    "get_node st1 = get_node st"
    "map (e_heap st1) (list_by_namespace st1 ns) = map (\<lambda>i. created_shard nid (clk i) ns i) [0..<nat k]"
    "\<forall>m. m \<noteq> ns \<longrightarrow> list_by_namespace st1 m = list_by_namespace st m"
    "\<forall>r < e_next st. e_heap st1 r = e_heap st r"
    "\<forall>sid r. etcd_get st sid = Some r \<longrightarrow> etcd_get st1 sid = Some r"
proof -
  obtain st1 where st1: "create_shards nid clk ns [0..<nat k] st = (Inr (), st1)" "wf_etcd st1"
    "get_node st1 = get_node st"
    "e_data st1 = e_data st @ zip (map (shard_name ns) [0..<nat k]) [e_next st..<e_next st + length [0..<nat k]]"
    "\<forall>r < e_next st. e_heap st1 r = e_heap st r"
    "\<forall>j < length [0..<nat k]. e_heap st1 (e_next st + j) = created_shard nid (clk ([0..<nat k] ! j)) ns ([0..<nat k] ! j)"
    using create_shards_ok [OF assms(1-4), of "[0..<nat k]" clk] assms(6) by auto
  let ?new = "[e_next st..<e_next st + nat k]"
  have vals: "dict_values (e_data st1) = dict_values (e_data st) @ ?new"
    by (simp add: st1(4))
  have new: "e_heap st1 (e_next st + j) = created_shard nid (clk j) ns j" if "j < nat k" for j
    using st1(6) that by simp
  have new': "sh_namespace (e_heap st1 r) = ns" if "r \<in> set ?new" for r
    using new [of "r - e_next st"] that by auto
  have old: "filter (\<lambda>r. sh_namespace (e_heap st1 r) = m) (dict_values (e_data st)) = list_by_namespace st m" for m
    unfolding list_by_namespace_def by (rule filter_cong) (use st1(5) wf_values [OF assms(4)] in auto)
  have lists: "list_by_namespace st1 m = list_by_namespace st m @ (if m = ns then ?new else [])" for m
    unfolding list_by_namespace_def [of st1] vals filter_append old using new' by (auto simp: filter_empty_conv intro: filter_True)
  have "map (e_heap st1) ?new = map (\<lambda>i. created_shard nid (clk i) ns i) [0..<nat k]"
    by (rule nth_equalityI) (simp_all add: new)
  then show thesis
    using that [of st1] st1 assms(5) lists by (simp add: ensure_namespace_shards_def etcd_get_def map_add_def)
qed

subsection \<open>A new namespace\<close>

lemma with_etcd_simps [simp]:
  "node_etcd (with_etcd st nd) = st" "nd_backend (with_etcd st nd) = nd_backend nd"
  "ig_shards (nd_service (with_etcd st nd)) = ig_shards (nd_service nd)"
  "ig_namespaces (nd_service (with_etcd st nd)) = ig_namespaces (nd_service nd)"
  "ig_router (nd_service (with_etcd st nd)) = (ig_router (nd_service nd))\<lparr>r_etcd := st\<rparr>"
  by (simp_all add: with_etcd_def)

lemma with_backend_simps [simp]:
  "node_etcd (with_backend b nd) = node_etcd nd" "nd_backend (with_backend b nd) = b"
  "ig_shards (nd_service (with_backend b nd)) = ig_shards (nd_service nd)"
  "ig_namespaces (nd_service (with_backend b nd)) = jb_data b"
  "ig_router (nd_service (with_backend b nd)) = ig_router (nd_service nd)"
  by (simp_all add: with_backend_def)

lemma requested_valid:
  assumes "requested_namespace uid m body = Inr n"
  shows "valid_namespace n" "ns_name n = nc_name body"
proof -
  obtain n0 :: namespace where n0: "valid_namespace n0" "ns_name n0 = nc_name body"
    "\<exists>c. auto_tune m n0 = (Inr c, n)"
    using assms by (fastforce simp: requested_namespace_def Let_def split: option.splits if_splits sum.splits prod.splits)
  then show "valid_namespace n" using auto_tune_valid by blast
  show "ns_name n = nc_name body"
    using n0(2,3) by (auto simp: auto_tune_def split: option.splits if_splits sum.splits)
qed

lemma created_in_backend:
  "backend_create n b = (Inr x, b1) \<Longrightarrow> x = n \<and> jb_data b1 = dict_put (ns_name n) n (jb_data b)"
  by (auto simp: backend_create_def backend_persist_def split: if_splits)

lemma create_namespace_ok:
  assumes "requested_namespace uid (ae_shard_max_vectors ae) body = Inr n"
    and "backend_create n (nd_backend nd) = (Inr x, b)"
    and "ensure_namespace_shards (ae_node_id ae) clk (ns_name n) (ns_shard_count n) (node_etcd nd) = (Inr (), st1)"
  shows "create_namespace ae uid clk body nd = (Inr (namespace_to_json n), with_etcd st1 (with_backend b nd))"
  using assms by (simp add: create_namespace_def Let_def)

lemma fresh_listing:
  "dict_get (r_cache rt) ns = None \<Longrightarrow> cached_shards now ns rt = list_by_namespace (r_etcd rt) ns"
  by (simp add: get_shards_cached_def Let_def)


subsection \<open>A small node\<close>

definition demo_api :: "(unit, unit, unit) api_env" where
  "demo_api = \<lparr>ae_settings = \<lparr>st_env = ''production'', st_rate_limit_rps = 10, st_access_token_expire_minutes = 60\<rparr>,
     ae_node_id = ''node-0'', ae_cluster_id = ''c'', ae_shard_max_vectors = 1000, ae_ienv = demo_env,
     ae_redis = no_redis, ae_texts = nine_texts, ae_opa = None, ae_rerank = NoRerank\<rparr>"

definition lone_member :: etcd where
  "lone_member = put_node (\<lparr>cn_node_id = ''node-0'', cn_cluster_id = ''c'', cn_state = NodeMembershipState.ACTIVE,
     cn_version = 2\<rparr>) (empty_etcd [] None True)"

definition empty_node :: "(unit, unit, unit) node" where
  "empty_node = \<lparr>nd_backend = new_backend [] [] None True,
     nd_service = new_ingest (new_router lone_member 5 True) [] ''d'' (Some ''node-0'') no_files,
     nd_cache = no_cache, nd_recovery = []\<rparr>"

definition small_request :: namespace_create where
  "small_request = \<lparr>nc_name = ''ns'', nc_dimension = 1, nc_distance_metric = ''DOT_PRODUCT'', nc_index_type = ''FLAT'',
     nc_replication_factor = 3, nc_shard_count = 2, nc_compression = ''NONE'', nc_expected_records = None\<rparr>"

definition small_namespace :: namespace where
  "small_namespace = \<lparr>ns_name = ''ns'', ns_dimension = 1, ns_distance_metric = DOT_PRODUCT, ns_index_type = FLAT,
     ns_replication_factor = 3, ns_required_acks = 1, ns_shard_count = 2, ns_compression = NONE,
     ns_tenant_id = ''u'', ns_expected_records = None\<rparr>"

lemma small_requested: "requested_namespace ''u'' m small_request = Inr small_namespace"
proof -
  have "list_all name_char ''ns''" by code_simp
  then show ?thesis
    by (simp add: requested_namespace_def small_request_def small_namespace_def distance_of_def itype_of_def
        compression_of_def member_of_def valid_namespace_def auto_tune_def Let_def)
qed

lemma lone_member_ok:
  "wf_etcd lone_member" "known_member lone_member ''node-0''" "list_by_namespace lone_member ns = []"
  "etcd_get lone_member k = None" "e_next lone_member = 0" "e_data lone_member = []"
  by (simp_all add: lone_member_def wf_put_node wf_empty known_member_def get_node_put_node list_by_namespace_def
      etcd_get_def) (simp_all add: empty_etcd_def)

lemma empty_node_fields:
  "node_etcd empty_node = lone_member" "nd_backend empty_node = new_backend [] [] None True"
  "r_cache (ig_router (nd_service empty_node)) = []" "ig_shards (nd_service empty_node) = []"
  by (simp_all add: empty_node_def new_ingest_def new_router_def)

lemma small_created:
  "backend_create small_namespace (nd_backend empty_node) =
     (Inr small_namespace, (new_backend [] [] None True)\<lparr>jb_data := [(''ns'', small_namespace)]\<rparr>)"
  by (simp add: empty_node_fields backend_create_def backend_persist_def new_backend_def small_namespace_def)


subsection \<open>A deleted namespace\<close>

lemma delete_all:
  fixes rs :: "sref list"
  defines "del st \<equiv> fold (\<lambda>r st. etcd_delete (sh_id (e_heap st r)) st) rs st"
  shows "e_heap (del st) = e_heap st" "e_next (del st) = e_next st" "get_node (del st) = get_node st"
    "etcd_get (del st) k = (if \<exists>r \<in> set rs. sh_id (e_heap st r) = k then None else etcd_get st k)"
    "wf_etcd st \<Longrightarrow> wf_etcd (del st)"
  unfolding del_def
  by (induction rs arbitrary: st) (auto simp: etcd_get_delete wf_delete get_node_def fun_eq_iff)

lemma delete_shards_ok:
  assumes "wf_etcd st"
  shows "wf_etcd (delete_shards ns st)" "get_node (delete_shards ns st) = get_node st"
    "e_heap (delete_shards ns st) = e_heap st" "list_by_namespace (delete_shards ns st) ns = []"
    "etcd_get (delete_shards ns st) k = Some r \<Longrightarrow> etcd_get st k = Some r \<and> sh_namespace (e_heap st r) \<noteq> ns"
proof -
  note d = delete_all [where rs = "list_by_namespace st ns" and st = st, folded delete_shards_def]
  show wf: "wf_etcd (delete_shards ns st)" using d(5) assms .
  show "get_node (delete_shards ns st) = get_node st" "e_heap (delete_shards ns st) = e_heap st"
    using d(1,3) by simp_all
  show g: "etcd_get (delete_shards ns st) k = Some r \<Longrightarrow> etcd_get st k = Some r \<and> sh_namespace (e_heap st r) \<noteq> ns" for k r
    using d(4) wf_get [OF assms, of k r] list_by_namespace_iff [OF assms, of r ns] by (auto split: if_splits)
  have "r \<notin> set (list_by_namespace (delete_shards ns st) ns)" for r
    using g [of "sh_id (e_heap st r)" r] by (auto simp: list_by_namespace_iff [OF wf] d(1))
  then show "list_by_namespace (delete_shards ns st) ns = []"
    by (metis list.set_intros(1) neq_Nil_conv)
qed

lemma delete_namespace_ok:
  assumes "delete_namespace name nd = (Inr y, nd1)"
  shows "node_etcd nd1 = delete_shards name (node_etcd nd)" "ig_shards (nd_service nd1) = ig_shards (nd_service nd)"
    "dict_get (r_cache (ig_router (nd_service nd1))) name = None"
    "dict_get (r_hrw_cache (ig_router (nd_service nd1))) name = None"
  using assms
  by (auto simp: delete_namespace_def Let_def invalidate_def with_backend_def map_of_dict_pop
      split: option.splits prod.splits sum.splits)

lemma create_namespace_cases:
  assumes "create_namespace ae uid clk body nd = (Inr j, nd')" "requested_namespace uid (ae_shard_max_vectors ae) body = Inr n"
  obtains b st where "backend_create n (nd_backend nd) = (Inr n, b)" "nd' = with_etcd st (with_backend b nd)"
    "ensure_namespace_shards (ae_node_id ae) clk (nc_name body) (ns_shard_count n) (node_etcd nd) = (Inr (), st)"
    "j = namespace_to_json n"
  using assms requested_valid(2) [OF assms(2)]
  by (auto simp: create_namespace_def http_of_def Let_def split: prod.splits sum.splits dest: created_in_backend)

text \<open>Selection over a listing the router has not cached.\<close>

lemma select_uncached:
  assumes "dict_get (r_cache rt) ns = None" "dict_get (r_hrw_cache rt) ns = None"
    and ids: "map (\<lambda>r. sh_id (e_heap (r_etcd rt) r)) (list_by_namespace (r_etcd rt) ns) = ids"
    and "[] \<notin> set ids" "hrw_get_node hash ids (shard_key sha ns rid) = Inr sid"
  obtains r rt1 where "select_shard sha hash now ns rid rt = (Inr r, rt1)" "r_etcd rt1 = r_etcd rt"
    "r \<in> set (list_by_namespace (r_etcd rt) ns)" "sh_id (e_heap (r_etcd rt) r) = sid"
proof -
  let ?L = "list_by_namespace (r_etcd rt) ns" and ?id = "\<lambda>r. sh_id (e_heap (r_etcd rt) r)"
  let ?rt1 = "rt\<lparr>r_cache := dict_put ns (now, ?L) (r_cache rt)\<rparr>"
  have c: "get_shards_cached now ns rt = (?L, ?rt1)"
    using assms(1) by (simp add: get_shards_cached_def Let_def)
  have sid: "sid \<in> set ids" using assms(5) by (rule hrw_get_node_in)
  then have ne: "?L \<noteq> []" using ids by auto
  have act: "filter (\<lambda>r. ?id r \<noteq> []) ?L = ?L"
    using assms(4) unfolding ids [symmetric] by (intro filter_True) force
  have h: "hrw_sync ns ids ?rt1 = (ids, ?rt1\<lparr>r_hrw_cache := dict_put ns ids (r_hrw_cache rt)\<rparr>)"
    using assms(2) by (simp add: hrw_sync_def Let_def)
  obtain r where r: "find (\<lambda>r. ?id r = sid) ?L = Some r"
    using find_id [of sid ?id ?L] sid unfolding ids [symmetric] by auto
  show thesis
    by (rule that [of r "?rt1\<lparr>r_hrw_cache := dict_put ns ids (r_hrw_cache rt)\<rparr>"])
      (use r find_SomeD [OF r] in \<open>simp_all add: select_shard_def Let_def c ne act ids h assms(5)\<close>)
qed

lemma get_one_open:
  assumes "route (ie_sha ev) (ie_hash ev) (mo_time (mos 0)) ns i (ig_router st) = (Inr r, rt)"
    and "r_etcd rt = r_etcd (ig_router st)"
    and "dict_get (ig_shards st) (ctx_key ns (sh_id (heap_shard st r))) = Some (r1, cx)"
    and "seg_get (ie_codec ev) (cx_segments cx) i = Inr (Some rec)" "i \<notin> set (cx_tombstones cx)"
  shows "get_one ev mos ns i st = (Inr (Some (to_payload (ie_isoformat ev) True rec)), st\<lparr>ig_router := rt\<rparr>)"
  using assms by (simp add: get_one_def fetch_def get_or_create_ctx_def heap_shard_def Let_def)

text \<open>
  C37: a namespace that is deleted and created again serves its old records: the deletion removes the
  namespace, its shards from the store and their placements, but neither the open contexts nor their
  files, and the new shards get the ids of the old ones. A record that the old context of the shard it is
  placed on still holds is answered by the very next read of the new namespace, whose shards all claim
  to be empty, whatever dimension or index the new namespace has.
\<close>

theorem recreated_namespace_serves_old_data:
  assumes "delete_namespace name nd = (Inr y, nd1)"
    and "create_namespace ae uid clk body nd1 = (Inr j, nd2)" "nc_name body = name"
    and "requested_namespace uid (ae_shard_max_vectors ae) body = Inr n"
    and "wf_etcd (node_etcd nd)" "known_member (node_etcd nd) (ae_node_id ae)" "ae_node_id ae \<noteq> []"
    and "\<forall>i r. etcd_get (node_etcd nd) (shard_name name i) = Some r \<longrightarrow> sh_namespace (e_heap (node_etcd nd) r) = name"
    and "hrw_get_node (ie_hash (ae_ienv ae)) (map (shard_name name) [0..<nat (ns_shard_count n)])
      (shard_key (ie_sha (ae_ienv ae)) name vid) = Inr sid"
    and "dict_get (ig_shards (nd_service nd)) (ctx_key name sid) = Some (r0, cx)"
    and "seg_get (ie_codec (ae_ienv ae)) (cx_segments cx) vid = Inr (Some rec)" "vid \<notin> set (cx_tombstones cx)"
  shows "fst (get_vector ae mos name vid nd2) = Inr (to_payload (ie_isoformat (ae_ienv ae)) True rec) \<and>
    dict_get (ig_shards (nd_service nd2)) (ctx_key name sid) = Some (r0, cx) \<and>
    (\<forall>r \<in> set (list_by_namespace (node_etcd nd2) name). sh_vector_count (e_heap (node_etcd nd2) r) = 0)"
proof -
  note dl = delete_namespace_ok [OF assms(1)] and ds = delete_shards_ok [OF assms(5), of name]
  have v: "list_all name_char name" using requested_valid [OF assms(4)] assms(3) by (simp add: valid_namespace_def)
  obtain b st where c: "nd2 = with_etcd st (with_backend b nd1)"
    "ensure_namespace_shards (ae_node_id ae) clk name (ns_shard_count n) (node_etcd nd1) = (Inr (), st)"
    by (rule create_namespace_cases [OF assms(2,4), unfolded assms(3)]) (rule that; assumption)
  have free: "list_by_namespace (node_etcd nd1) name = []" "known_member (node_etcd nd1) (ae_node_id ae)"
    "wf_etcd (node_etcd nd1)"
    using ds(1,2,4) assms(6) dl(1) by (simp_all add: known_member_cong [OF ds(2)])
  have "etcd_get (delete_shards name (node_etcd nd)) (shard_name name i) = None" for i
  proof (cases "etcd_get (delete_shards name (node_etcd nd)) (shard_name name i)")
    case (Some r)
    from ds(5) [OF this] assms(8) show ?thesis by blast
  qed
  then have names: "\<forall>i < nat (ns_shard_count n). etcd_get (node_etcd nd1) (shard_name name i) = None"
    by (simp add: dl(1))
  obtain st1 where st1: "ensure_namespace_shards (ae_node_id ae) clk name (ns_shard_count n) (node_etcd nd1) = (Inr (), st1)"
    "wf_etcd st1" "get_node st1 = get_node (node_etcd nd1)"
    "map (e_heap st1) (list_by_namespace st1 name) =
       map (\<lambda>i. created_shard (ae_node_id ae) (clk i) name i) [0..<nat (ns_shard_count n)]"
    by (rule ensure_ok [OF assms(7) v free(2,3,1) names, of clk]) (rule that; assumption)
  have s: "st = st1" using c(2) st1(1) by simp
  let ?rt = "ig_router (nd_service nd2)" and ?ev = "ae_ienv ae"
  have et: "r_etcd ?rt = st1" by (simp add: c(1) s)
  have ids: "map (\<lambda>r. sh_id (e_heap (r_etcd ?rt) r)) (list_by_namespace (r_etcd ?rt) name) =
      map (shard_name name) [0..<nat (ns_shard_count n)]"
    using arg_cong [OF st1(4), of "map sh_id"] by (simp add: et comp_def)
  have each: "e_heap st1 r \<in> (\<lambda>i. created_shard (ae_node_id ae) (clk i) name i) ` {0..<nat (ns_shard_count n)}"
    if "r \<in> set (list_by_namespace st1 name)" for r
    using arg_cong [OF st1(4), of set] that by auto
  have unc: "dict_get (r_cache ?rt) name = None" "dict_get (r_hrw_cache ?rt) name = None"
    using dl(3,4) by (simp_all add: c(1))
  have ne: "[] \<notin> set (map (shard_name name) [0..<nat (ns_shard_count n)])" by (auto simp: shard_name_def)
  obtain r rt1 where sel: "select_shard (ie_sha ?ev) (ie_hash ?ev) (mo_time (mos 0)) name vid ?rt = (Inr r, rt1)"
    "r_etcd rt1 = r_etcd ?rt" "r \<in> set (list_by_namespace (r_etcd ?rt) name)" "sh_id (e_heap (r_etcd ?rt) r) = sid"
    by (rule select_uncached [OF unc ids ne assms(9)])
  have own: "sh_state (e_heap st1 r) = ShardState.ACTIVE" "sh_node_id (e_heap st1 r) = ae_node_id ae"
    using each [of r] sel(3) by (auto simp: et)
  have km: "known_member st1 (ae_node_id ae)" using free(2) by (simp add: known_member_cong [OF st1(3)])
  have rt: "route (ie_sha ?ev) (ie_hash ?ev) (mo_time (mos 0)) name vid ?rt = (Inr r, rt1)"
    using sel(1) own km assms(7) by (simp add: route_ok et readable_states_def)
  have ctx: "dict_get (ig_shards (nd_service nd2)) (ctx_key name sid) = Some (r0, cx)"
    using assms(10) dl(2) by (simp add: c(1))
  have one: "get_one ?ev mos name vid (nd_service nd2) =
      (Inr (Some (to_payload (ie_isoformat ?ev) True rec)), (nd_service nd2)\<lparr>ig_router := rt1\<rparr>)"
  proof (rule get_one_open [where mos = mos, OF rt sel(2)])
    show "dict_get (ig_shards (nd_service nd2)) (ctx_key name (sh_id (heap_shard (nd_service nd2) r))) = Some (r0, cx)"
      by (simp add: heap_shard_def sel(4) ctx)
  qed (rule assms(11,12))+
  have zero: "\<forall>r \<in> set (list_by_namespace (node_etcd nd2) name). sh_vector_count (e_heap (node_etcd nd2) r) = 0"
    using each by (fastforce simp: et)
  from one ctx zero show ?thesis by (simp add: get_vector_def)
qed

definition used_etcd :: etcd where
  "used_etcd = lone_member\<lparr>e_heap := created_shard ''node-0'' 0 ''ns'', e_next := 2,
     e_data := [(shard_name ''ns'' 0, 0), (shard_name ''ns'' 1, 1)]\<rparr>"

definition used_node :: "(unit, unit, unit) node" where
  "used_node = empty_node\<lparr>nd_backend := (new_backend [] [] None True)\<lparr>jb_data := [(''ns'', small_namespace)]\<rparr>,
     nd_service := (new_ingest (new_router used_etcd 5 True) [(''ns'', small_namespace)] ''d'' (Some ''node-0'') no_files)
       \<lparr>ig_shards := [(ctx_key ''ns'' (shard_name ''ns'' 0), (0, demo_ctx)), (ctx_key ''ns'' (shard_name ''ns'' 1), (1, demo_ctx))]\<rparr>\<rparr>"

lemma used_etcd_ok:
  "wf_etcd used_etcd" "known_member used_etcd ''node-0''"
  "etcd_get used_etcd k = Some r \<Longrightarrow> sh_namespace (e_heap used_etcd r) = ''ns''"
proof -
  have "list_all name_char ''ns''" by code_simp
  then have f: "\<not> reserved_key (shard_name ''ns'' i)" for i by (rule shard_name_free)
  show "wf_etcd used_etcd"
    using lone_member_ok(1) f [of 0] f [of 1] by (auto simp: used_etcd_def wf_etcd_def wf_shards_def shard_name_inj split: if_splits)
  show "known_member used_etcd ''node-0''"
    using lone_member_ok(2) by (simp add: used_etcd_def known_member_def get_node_def)
qed (auto simp: used_etcd_def)

lemma demo_ctx_holds:
  "seg_get (ie_codec demo_env) (cx_segments demo_ctx) ''a'' = Inr (Some (demo_record ''a'' ''old''))"
  "cx_tombstones demo_ctx = []"
proof -
  have "seg_view demo_codec (cx_segments demo_ctx) ''a'' = Some (demo_record ''a'' ''old'')"
    using demo_ctx_ready(3) demo_segments(2) by (simp add: seg_view_def demo_ctx_def map_add_def)
  then show "seg_get (ie_codec demo_env) (cx_segments demo_ctx) ''a'' = Inr (Some (demo_record ''a'' ''old''))"
    using seg_get_view [of demo_codec "cx_segments demo_ctx"] demo_ctx_ready(1) by (simp add: demo_env_def)
  show "cx_tombstones demo_ctx = []" by (simp add: demo_ctx_def)
qed

lemma recreated_namespace_serves_old_data_witness:
  "\<exists>nd1 j nd2. delete_namespace ''ns'' used_node = (Inr ''ns'', nd1) \<and>
     create_namespace demo_api ''u'' (\<lambda>i. 0) small_request nd1 = (Inr j, nd2) \<and>
     fst (get_vector demo_api (\<lambda>j. demo_moment 0) ''ns'' ''a'' nd2) =
       Inr (to_payload (\<lambda>t. []) True (demo_record ''a'' ''old''))"
proof -
  let ?ids = "map (shard_name ''ns'') [0..<2]"
  have ns: "nc_name small_request = ''ns''" "nat (ns_shard_count small_namespace) = 2" "ns_name small_namespace = ''ns''"
    by (simp_all add: small_request_def small_namespace_def)
  have ae: "ae_node_id demo_api = ''node-0''" "ae_ienv demo_api = demo_env" by (simp_all add: demo_api_def)
  have et: "node_etcd used_node = used_etcd" by (simp add: used_node_def new_ingest_def new_router_def)
  obtain nd1 where d: "delete_namespace ''ns'' used_node = (Inr ''ns'', nd1)"
    by (simp add: delete_namespace_def used_node_def backend_get_def backend_delete_def backend_persist_def
        new_backend_def Let_def)
  have b: "nd_backend nd1 = new_backend [] [] None True"
    using d by (auto simp: delete_namespace_def used_node_def backend_get_def backend_delete_def backend_persist_def
        new_backend_def Let_def with_backend_def)
  have bc: "backend_create small_namespace (nd_backend nd1) =
      (Inr small_namespace, (new_backend [] [] None True)\<lparr>jb_data := [(''ns'', small_namespace)]\<rparr>)"
    using small_created by (simp add: b empty_node_fields)
  note ds = delete_shards_ok [OF used_etcd_ok(1), of "''ns''"] and dl = delete_namespace_ok [OF d, unfolded et]
  have v: "list_all name_char ''ns''" by code_simp
  have free: "list_by_namespace (node_etcd nd1) ''ns'' = []" "known_member (node_etcd nd1) ''node-0''" "wf_etcd (node_etcd nd1)"
    using ds(1,2,4) used_etcd_ok(2) dl(1) by (simp_all add: known_member_cong [OF ds(2)])
  have names: "\<forall>i < nat (ns_shard_count small_namespace). etcd_get (node_etcd nd1) (shard_name ''ns'' i) = None"
    using ds(5) used_etcd_ok(3) dl(1) by (metis not_None_eq)
  obtain st1 where st1: "ensure_namespace_shards ''node-0'' (\<lambda>i. 0) ''ns'' (ns_shard_count small_namespace) (node_etcd nd1) = (Inr (), st1)"
    by (rule ensure_ok [OF _ v free(2,3,1) names, of "\<lambda>i. 0"]) (simp, rule that)
  have c: "\<exists>j nd2. create_namespace demo_api ''u'' (\<lambda>i. 0) small_request nd1 = (Inr j, nd2)"
    using create_namespace_ok [OF small_requested bc, where clk = "\<lambda>i. 0"] st1 by (auto simp: ns ae)
  then obtain j nd2 where c: "create_namespace demo_api ''u'' (\<lambda>i. 0) small_request nd1 = (Inr j, nd2)" by blast
  have ids: "?ids \<noteq> []" by simp
  obtain sid where sid: "hrw_get_node (ie_hash demo_env) ?ids (shard_key (ie_sha demo_env) ''ns'' ''a'') = Inr sid"
    using hrw_get_node_total [OF demo_hash_nonneg ids] by (fastforce simp: demo_env_def)
  have "sid \<in> set ?ids" using sid by (rule hrw_get_node_in)
  then have "\<exists>r0. dict_get (ig_shards (nd_service used_node)) (ctx_key ''ns'' sid) = Some (r0, demo_ctx)"
    by (auto simp: used_node_def numeral_2_eq_2)
  then obtain r0 where ctx: "dict_get (ig_shards (nd_service used_node)) (ctx_key ''ns'' sid) = Some (r0, demo_ctx)" ..
  have "fst (get_vector demo_api (\<lambda>j. demo_moment 0) ''ns'' ''a'' nd2) =
      Inr (to_payload (ie_isoformat (ae_ienv demo_api)) True (demo_record ''a'' ''old''))"
    using recreated_namespace_serves_old_data [OF d c ns(1) small_requested, where vid = "''a''" and sid = sid and
        ?r0.0 = r0 and cx = demo_ctx and rec = "demo_record ''a'' ''old''" and mos = "\<lambda>j. demo_moment 0"]
      used_etcd_ok demo_ctx_holds sid ctx by (simp add: ae et ns)
  with d c show ?thesis by (intro exI [of _ nd1] exI [of _ j] exI [of _ nd2]) (simp add: ae demo_env_def)
qed

subsection \<open>Authorization of the vector endpoints\<close>

text \<open>
  Without an OPA service a vector request of a tenant is carried out exactly when the node does not
  run in production or the shipped policies allow it (\<open>test\<close> everything, \<open>demo\<close> reading everywhere and
  writing in \<open>products\<close>); any other request is answered with 403 before it reaches the ingest service or
  the query engine: neither a record, nor the routing caches, nor the query cache changes.
\<close>

theorem vector_requests_authorized:
  assumes "ae_opa ae = None" "tenant_of auth = JStr tenant"
  shows "let refused = (\<lambda>action. st_env (ae_settings ae) = ''production'' \<and> tenant \<noteq> ''test'' \<and>
        \<not> (tenant = ''demo'' \<and> (action \<in> {''query'', ''fetch''} \<or> ns = ''products'' \<and> action \<in> {''upsert'', ''delete''})));
      deny = (\<lambda>action. HTTPException 403 (''RBAC deny tenant='' @ tenant @ '' ns='' @ ns @ '' action='' @ action))
    in upsert_vectors ae clk ids took auth ns raws idem nd =
        (if refused ''upsert'' then (Inl (deny ''upsert''), nd)
         else case upsert (ae_ienv ae) clk ids took ns raws idem (nd_service nd) of
             (Inl e, st) \<Rightarrow> (http_of 400 (Inl e), nd\<lparr>nd_service := st\<rparr>)
           | (Inr res, st) \<Rightarrow>
               (Inr res, nd\<lparr>nd_service := st, nd_cache := invalidate_namespace (ae_redis ae) ns (nd_cache nd)\<rparr>)) \<and>
      (qa_namespace qa = ns \<longrightarrow> refused ''query'' \<longrightarrow>
         query_vectors ae timeout now now2 took auth qa nd = (Inl (deny ''query''), nd)) \<and>
      (refused ''fetch'' \<longrightarrow> fetch_vectors ae mos auth ns vids nd = (Inl (deny ''fetch''), nd)) \<and>
      delete_vectors ae clk now auth ns vids f nd =
        (if refused ''delete'' then (Inl (deny ''delete''), nd)
         else case ingest_delete (ae_ienv ae) clk now ns vids f (nd_service nd) of
             (x, st) \<Rightarrow> (http_of 400 x, nd\<lparr>nd_service := st\<rparr>))"
proof -
  have g: "guard ae auth ns action = (if st_env (ae_settings ae) = ''production'' \<and> tenant \<noteq> ''test'' \<and>
        \<not> (tenant = ''demo'' \<and> (action \<in> {''query'', ''fetch''} \<or> ns = ''products'' \<and> action \<in> {''upsert'', ''delete''}))
      then Inl (HTTPException 403 (''RBAC deny tenant='' @ tenant @ '' ns='' @ ns @ '' action='' @ action)) else Inr ())"
    if "action \<in> {''query'', ''fetch'', ''upsert'', ''delete''}" for action
    using that assms
    by (auto simp: guard_def check_permission_def Let_def roles_for_def shipped_policies_def role_allows_def role_actions_def)
  show ?thesis
    unfolding Let_def upsert_vectors_def query_vectors_def fetch_vectors_def delete_vectors_def
    by (auto simp: g split: sum.split)
qed

lemma vector_requests_authorized_witness:
  "upsert_vectors demo_api (\<lambda>k j. demo_moment 0) (\<lambda>k. (''f'', ''x'', ''y'')) 0 [(''sub'', JStr ''demo'')] ''ns''
     [demo_raw] None empty_node = (Inl (HTTPException 403 ''RBAC deny tenant=demo ns=ns action=upsert''), empty_node)"
  using vector_requests_authorized [where ae = demo_api and auth = "[(''sub'', JStr ''demo'')]" and tenant = "''demo''"
      and ns = "''ns''" and clk = "\<lambda>k j. demo_moment 0" and ids = "\<lambda>k. (''f'', ''x'', ''y'')" and took = 0
      and raws = "[demo_raw]" and idem = None and nd = empty_node]
  by (simp add: demo_api_def tenant_of_def Let_def)

subsection \<open>Patching metadata\<close>

lemma raw_record_id:
  "raw_record ev now fresh ns nsr raw = Inr rec \<Longrightarrow> map_of raw ''id'' = Some j \<Longrightarrow> ie_uuid ev j = Inr (vr_id rec)"
  by (auto simp: raw_record_def make_record_def Let_def split: json.splits sum.splits option.splits if_splits)

lemma patched_raw_id: "map_of (patched_raw vid body stored) ''id'' = Some (JStr vid)"
  by (simp add: patched_raw_def Let_def)

text \<open>An upsert of one record whose shard does not take writes reports it as an error and stores nothing.\<close>

lemma upsert_refused:
  assumes "dict_get (ig_namespaces st) ns = Some nsr"
    and "map_of raw ''id'' = Some j" "ie_uuid ev j = Inr vid"
    and "select_shard (ie_sha ev) (ie_hash ev) (mo_time (clk 0 0)) ns vid (ig_router st) = (Inr r, rt)"
    and "sh_state (heap_shard st r) \<noteq> ShardState.ACTIVE"
  obtains e rt' where "upsert ev clk ids took ns [raw] None st =
      (Inr \<lparr>ur_upserted = 0, ur_ids = [], ur_errors = [(Some j, e)], ur_took_ms = took,
            ur_replication = (aggregate_replication [] (ns_required_acks nsr))\<lparr>su_success := False\<rparr>,
            ur_health = []\<rparr>, st\<lparr>ig_router := rt'\<rparr>)"
proof -
  let ?acc = "\<lparr>ua_service = st, ua_touched = [], ua_results = [], ua_upserted = [], ua_errors = []\<rparr>"
  have rt: "r_etcd rt = r_etcd (ig_router st)" using select_frame [OF assms(4)] by simp
  have "\<exists>e rt'. upsert_caught ev (clk 0) (fst (ids 0)) (snd (ids 0)) ns nsr raw ?acc =
      ?acc\<lparr>ua_service := st\<lparr>ig_router := rt'\<rparr>, ua_errors := [(Some j, e)]\<rparr>"
  proof (cases "raw_record ev (mo_time (clk 0 0)) (fst (ids 0)) ns nsr raw")
    case (Inl e)
    then show ?thesis
      by (intro exI [of _ "exn_str e"] exI [of _ "ig_router st"]) (simp add: upsert_caught_def upsert_one_def assms(2))
  next
    case (Inr rec)
    have "vr_id rec = vid" using raw_record_id [OF Inr assms(2)] assms(3) by simp
    then have "route_write (ie_sha ev) (ie_hash ev) (mo_time (clk 0 0)) ns (vr_id rec) (ig_node_id st) (ig_router st) =
        (Inl (state_error (heap_shard st r)), rt)"
      using assms(4,5) rt by (simp add: route_write_def heap_shard_def Let_def)
    with Inr show ?thesis
      by (intro exI [of _ "exn_str (state_error (heap_shard st r))"] exI [of _ rt])
        (simp add: upsert_caught_def upsert_one_def Let_def assms(2))
  qed
  then obtain e rt' where u: "upsert_caught ev (clk 0) (fst (ids 0)) (snd (ids 0)) ns nsr raw ?acc =
      ?acc\<lparr>ua_service := st\<lparr>ig_router := rt'\<rparr>, ua_errors := [(Some j, e)]\<rparr>" by blast
  show thesis
    by (rule that [of e rt']) (simp add: upsert_def assms(1) u Let_def background_def replication_health_map_def)
qed

text \<open>
  C38: a metadata patch is answered with \<open>updated\<close> even when it was refused: reads are admitted on a
  shard that is DRAINING, writes are not, and the endpoint drops the answer of its upsert. The record is
  found, the patch is acknowledged, and no context, log, index, replica or table has changed.
\<close>

theorem patch_acknowledges_refused_update:
  assumes "get_one (ae_ienv ae) mos ns vid (nd_service nd) = (Inr (Some stored), st)"
    and "\<not> zero_vector (md_get (patched_raw vid body stored) ''vector'' JNull)"
    and "dict_get (ig_namespaces st) ns = Some nsr" "ie_uuid (ae_ienv ae) (JStr vid) = Inr vid"
    and "select_shard (ie_sha (ae_ienv ae)) (ie_hash (ae_ienv ae)) (mo_time (clk 0 0)) ns vid (ig_router st) = (Inr r, rt)"
    and "sh_state (heap_shard st r) = ShardState.DRAINING"
  shows "\<exists>nd'. patch_metadata ae mos now clk ids ns vid body nd = (Inr vid, nd') \<and>
    nd_service nd' = st\<lparr>ig_router := ig_router (nd_service nd')\<rparr> \<and> nd_backend nd' = nd_backend nd"
proof -
  have d: "sh_state (heap_shard st r) \<noteq> ShardState.ACTIVE" using assms(6) by simp
  obtain e rt' where u: "upsert (ae_ienv ae) clk ids 0 ns [patched_raw vid body stored] None st =
      (Inr \<lparr>ur_upserted = 0, ur_ids = [], ur_errors = [(Some (JStr vid), e)], ur_took_ms = 0,
            ur_replication = (aggregate_replication [] (ns_required_acks nsr))\<lparr>su_success := False\<rparr>,
            ur_health = []\<rparr>, st\<lparr>ig_router := rt'\<rparr>)"
    by (rule upsert_refused [where clk = clk and ids = ids and took = 0, OF assms(3) patched_raw_id assms(4,5) d])
  show ?thesis
    by (intro exI [of _ "nd\<lparr>nd_service := st\<lparr>ig_router := rt'\<rparr>\<rparr>"])
      (simp add: patch_metadata_def assms(1,2) Let_def u)
qed

definition draining_service :: "(unit, unit) ingest" where
  "draining_service = open_service\<lparr>ig_router := svc_router\<lparr>r_etcd := (r_etcd svc_router)
     \<lparr>e_heap := (\<lambda>r. svc_shard\<lparr>sh_state := ShardState.DRAINING\<rparr>)\<rparr>\<rparr>\<rparr>"

lemma draining_service_reads:
  "\<exists>rt. select_shard (ie_sha demo_env) (ie_hash demo_env) t ''ns'' i (ig_router draining_service) = (Inr 0, rt) \<and>
     select_shard (ie_sha demo_env) (ie_hash demo_env) t ''ns'' i rt = (Inr 0, rt) \<and>
     r_etcd rt = r_etcd (ig_router draining_service) \<and>
     route (ie_sha demo_env) (ie_hash demo_env) t ''ns'' i (ig_router draining_service) = (Inr 0, rt)"
  by (simp add: draining_service_def svc_simps demo_simps route_def readable_states_def validate_owner_def)

lemma patch_acknowledges_refused_update_witness:
  "\<exists>nd'. patch_metadata demo_api (\<lambda>j. demo_moment 0) 0 (\<lambda>k j. demo_moment 0) (\<lambda>k. (''f'', ''x'', ''y''))
       ''ns'' ''a'' [(''k'', JStr ''new'')] (empty_node\<lparr>nd_service := draining_service\<rparr>) = (Inr ''a'', nd') \<and>
     ig_shards (nd_service nd') = ig_shards draining_service"
proof -
  let ?mos = "\<lambda>j :: nat. demo_moment 0" and ?stored = "to_payload (\<lambda>t. []) True (demo_record ''a'' ''old'')"
  have now: "mo_time (demo_moment 0) = 0" by (simp add: demo_moment_def)
  have ae: "ae_ienv demo_api = demo_env" by (simp add: demo_api_def)
  obtain rt where rt: "select_shard (ie_sha demo_env) (ie_hash demo_env) 0 ''ns'' ''a'' rt = (Inr 0, rt)"
    "r_etcd rt = r_etcd (ig_router draining_service)"
    "route (ie_sha demo_env) (ie_hash demo_env) 0 ''ns'' ''a'' (ig_router draining_service) = (Inr 0, rt)"
    using draining_service_reads by blast
  have h: "heap_shard draining_service r = svc_shard\<lparr>sh_state := ShardState.DRAINING\<rparr>" for r
    by (simp add: draining_service_def heap_shard_def)
  have c: "dict_get (ig_shards draining_service) (ctx_key ''ns'' (sh_id (heap_shard draining_service 0))) = Some (0, demo_ctx)"
    using open_service_fields(3,4) by (simp add: h ctx_key_def) (simp add: draining_service_def)
  let ?st = "draining_service\<lparr>ig_router := rt\<rparr>"
  have one: "get_one (ae_ienv demo_api) ?mos ''ns'' ''a'' (nd_service (empty_node\<lparr>nd_service := draining_service\<rparr>)) =
      (Inr (Some ?stored), ?st)"
    using get_one_open [where ev = demo_env and mos = ?mos and st = draining_service, OF _ rt(2) c demo_ctx_holds(1)]
      rt(3) demo_ctx_holds(2) by (simp add: ae now) (simp add: demo_env_def)
  have nz: "\<not> zero_vector (md_get (patched_raw ''a'' [(''k'', JStr ''new'')] ?stored) ''vector'' JNull)"
    by (simp add: zero_vector_def md_get_def patched_raw_def to_payload_def demo_record_def Let_def)
  have ns: "dict_get (ig_namespaces ?st) ''ns'' = Some demo_namespace"
    using open_service_fields(6) by (simp add: draining_service_def)
  have "\<exists>nd'. patch_metadata demo_api ?mos 0 (\<lambda>k j. demo_moment 0) (\<lambda>k. (''f'', ''x'', ''y''))
       ''ns'' ''a'' [(''k'', JStr ''new'')] (empty_node\<lparr>nd_service := draining_service\<rparr>) = (Inr ''a'', nd') \<and>
     nd_service nd' = ?st\<lparr>ig_router := ig_router (nd_service nd')\<rparr> \<and>
     nd_backend nd' = nd_backend (empty_node\<lparr>nd_service := draining_service\<rparr>)"
    by (rule patch_acknowledges_refused_update [OF one nz ns, where r = 0 and rt = rt])
      (use rt h in \<open>simp_all add: ae now heap_shard_def\<close>, simp add: demo_env_def)
  then obtain nd' where p: "patch_metadata demo_api ?mos 0 (\<lambda>k j. demo_moment 0) (\<lambda>k. (''f'', ''x'', ''y''))
       ''ns'' ''a'' [(''k'', JStr ''new'')] (empty_node\<lparr>nd_service := draining_service\<rparr>) = (Inr ''a'', nd')"
    "nd_service nd' = ?st\<lparr>ig_router := ig_router (nd_service nd')\<rparr>" by blast
  have "ig_shards (nd_service nd') = ig_shards (?st\<lparr>ig_router := ig_router (nd_service nd')\<rparr>)"
    using arg_cong [OF p(2), of ig_shards] .
  with p(1) show ?thesis by auto
qed

subsection \<open>The start of a node\<close>

lemma shard_name_names:
  assumes "list_all name_char m" "list_all name_char ns" "shard_name m i = shard_name ns j"
  shows "m = ns"
proof -
  have "\<not> name_char CHR ''#''" by code_simp
  then have h: "takeWhile (\<lambda>c. c \<noteq> CHR ''#'') (shard_name k l) = k" if "list_all name_char k" for k l
    using that by (auto simp: shard_name_def takeWhile_append list_all_iff)
  show ?thesis using h [OF assms(1), of i] h [OF assms(2), of j] assms(3) by simp
qed

text \<open>Keys of the form of a namespace's shards belong to that namespace.\<close>

definition names_apart :: "namespace list \<Rightarrow> etcd \<Rightarrow> bool" where
  "names_apart nss st \<longleftrightarrow> (\<forall>n \<in> set nss. \<forall>i r. etcd_get st (shard_name (ns_name n) i) = Some r \<longrightarrow>
     sh_namespace (e_heap st r) = ns_name n)"

definition keeps_shards :: "etcd \<Rightarrow> etcd \<Rightarrow> bool" where
  "keeps_shards st st' \<longleftrightarrow> (\<forall>k r. etcd_get st k = Some r \<longrightarrow> etcd_get st' k = Some r \<and> e_heap st' r = e_heap st r)"

lemma hydrate_one:
  assumes "nid \<noteq> []" "known_member st nid" "wf_etcd st" "list_all name_char (ns_name n)" "names_apart [n] st"
    "\<forall>m \<in> set nss. list_all name_char (ns_name m)" "names_apart nss st"
  obtains st1 where "ensure_namespace_shards nid clk (ns_name n) (ns_shard_count n) st = (Inr (), st1)" "wf_etcd st1"
    "get_node st1 = get_node st" "keeps_shards st st1" "names_apart nss st1"
    "1 \<le> ns_shard_count n \<longrightarrow> list_by_namespace st1 (ns_name n) \<noteq> []"
proof (cases "list_by_namespace st (ns_name n) = []")
  case False
  then show thesis
    using assms by (intro that [of st]) (simp_all add: ensure_namespace_shards_def keeps_shards_def)
next
  case True
  have "etcd_get st (shard_name (ns_name n) i) = None" for i
  proof (cases "etcd_get st (shard_name (ns_name n) i)")
    case (Some r)
    then have "r \<in> set (list_by_namespace st (ns_name n))"
      using assms(5) wf_get [OF assms(3) Some] by (auto simp: names_apart_def list_by_namespace_iff [OF assms(3)])
    with True show ?thesis by simp
  qed
  then have fresh: "\<forall>i < nat (ns_shard_count n). etcd_get st (shard_name (ns_name n) i) = None" by simp
  obtain st1 where st1: "ensure_namespace_shards nid clk (ns_name n) (ns_shard_count n) st = (Inr (), st1)" "wf_etcd st1"
    "get_node st1 = get_node st"
    "map (e_heap st1) (list_by_namespace st1 (ns_name n)) =
       map (\<lambda>i. created_shard nid (clk i) (ns_name n) i) [0..<nat (ns_shard_count n)]"
    "\<forall>r < e_next st. e_heap st1 r = e_heap st r"
    "\<forall>sid r. etcd_get st sid = Some r \<longrightarrow> etcd_get st1 sid = Some r"
    "\<forall>m. m \<noteq> ns_name n \<longrightarrow> list_by_namespace st1 m = list_by_namespace st m"
    by (rule ensure_ok [OF assms(1,4,2,3) True fresh, of clk]) (rule that; assumption)
  have keep: "keeps_shards st st1"
    using st1(5,6) wf_get [OF assms(3)] by (auto simp: keeps_shards_def)
  have "sh_namespace (e_heap st1 r) = ns_name m" if "m \<in> set nss" "etcd_get st1 (shard_name (ns_name m) i) = Some r" for m i r
  proof (cases "sh_namespace (e_heap st1 r) = ns_name n")
    case True
    then have "r \<in> set (list_by_namespace st1 (ns_name n))"
      using wf_get [OF st1(2) that(2)] that(2) by (simp add: list_by_namespace_iff [OF st1(2)])
    then have "e_heap st1 r \<in> (\<lambda>i. created_shard nid (clk i) (ns_name n) i) ` {0..<nat (ns_shard_count n)}"
      using arg_cong [OF st1(4), of set] by auto
    then obtain j where "sh_id (e_heap st1 r) = shard_name (ns_name n) j" by auto
    then have "shard_name (ns_name m) i = shard_name (ns_name n) j" using wf_get [OF st1(2) that(2)] by simp
    then have "ns_name m = ns_name n"
      using shard_name_names [OF _ assms(4), of "ns_name m" i j] assms(6) that(1) by auto
    then show ?thesis using True by simp
  next
    case False
    then have "r \<in> set (list_by_namespace st (sh_namespace (e_heap st1 r)))"
      using wf_get [OF st1(2) that(2)] that(2) st1(7) list_by_namespace_iff [OF st1(2), of r "sh_namespace (e_heap st1 r)"]
      by auto
    then have old: "etcd_get st (sh_id (e_heap st r)) = Some r" by (simp add: list_by_namespace_iff [OF assms(3)])
    then have "e_heap st1 r = e_heap st r" using keep by (simp add: keeps_shards_def)
    with old wf_get [OF st1(2) that(2)] have "etcd_get st (shard_name (ns_name m) i) = Some r" by simp
    with assms(7) that(1) \<open>e_heap st1 r = e_heap st r\<close> show ?thesis by (simp add: names_apart_def)
  qed
  then have "names_apart nss st1" by (simp add: names_apart_def)
  moreover have "1 \<le> ns_shard_count n \<longrightarrow> list_by_namespace st1 (ns_name n) \<noteq> []"
    using arg_cong [OF st1(4), of length] by auto
  ultimately show thesis using st1 keep by (intro that [of st1])
qed

lemma keeps_listed:
  "wf_etcd st \<Longrightarrow> wf_etcd st' \<Longrightarrow> keeps_shards st st' \<Longrightarrow> r \<in> set (list_by_namespace st m) \<Longrightarrow>
     r \<in> set (list_by_namespace st' m)"
  by (auto simp: list_by_namespace_iff keeps_shards_def)

lemma hydrate_ok:
  assumes "nid \<noteq> []" "known_member st nid" "wf_etcd st" "\<forall>n \<in> set nss. valid_namespace n" "names_apart nss st"
  obtains st1 where "hydrate nid clk nss st = (Inr (), st1)" "wf_etcd st1" "get_node st1 = get_node st"
    "keeps_shards st st1" "\<forall>n \<in> set nss. list_by_namespace st1 (ns_name n) \<noteq> []"
  using assms(2-)
proof (induction nss arbitrary: st thesis)
  case Nil
  then show ?case by (simp add: keeps_shards_def)
next
  case (Cons n nss)
  have v: "list_all name_char (ns_name n)" "1 \<le> ns_shard_count n" "\<forall>m \<in> set nss. list_all name_char (ns_name m)"
    using Cons.prems(4) by (auto simp: valid_namespace_def)
  have ap: "names_apart [n] st" "names_apart nss st" using Cons.prems(5) by (auto simp: names_apart_def)
  obtain st1 where one: "ensure_namespace_shards nid (clk (ns_name n)) (ns_name n) (ns_shard_count n) st = (Inr (), st1)"
    "wf_etcd st1" "get_node st1 = get_node st" "keeps_shards st st1" "names_apart nss st1"
    "1 \<le> ns_shard_count n \<longrightarrow> list_by_namespace st1 (ns_name n) \<noteq> []"
    by (rule hydrate_one [OF assms(1) Cons.prems(2,3) v(1) ap(1) v(3) ap(2), of "clk (ns_name n)"]) (rule that; assumption)
  have km: "known_member st1 nid" using Cons.prems(2) by (simp add: known_member_cong [OF one(3)])
  obtain st2 where two: "hydrate nid clk nss st1 = (Inr (), st2)" "wf_etcd st2" "get_node st2 = get_node st1"
    "keeps_shards st1 st2" "\<forall>n \<in> set nss. list_by_namespace st2 (ns_name n) \<noteq> []"
    using Cons.IH [of st1] km one(2,5) Cons.prems(4) by auto
  obtain r where "r \<in> set (list_by_namespace st1 (ns_name n))"
    using one(6) v(2) by (cases "list_by_namespace st1 (ns_name n)") auto
  from keeps_listed [OF one(2) two(2,4) this] have ne: "list_by_namespace st2 (ns_name n) \<noteq> []" by auto
  have k: "keeps_shards st st2" using one(4) two(4) unfolding keeps_shards_def by metis
  show ?case
    by (rule Cons.prems(1) [of st2]) (use one two ne k in simp_all)
qed

text \<open>Recovery touches counts only, and every shard it visits ends up open or reported.\<close>

definition covered :: "string \<Rightarrow> (string, string) dict \<Rightarrow> ('h, 'f) ingest \<Rightarrow> bool" where
  "covered key status st \<longleftrightarrow> dict_get (ig_shards st) key \<noteq> None \<or> (\<exists>m. dict_get status key = Some (''error:'' @ m))"

lemma get_or_create_tables:
  "get_or_create_ctx ev mo ns r st = (x, st1) \<Longrightarrow> e_data (r_etcd (ig_router st1)) = e_data (r_etcd (ig_router st))"
  by (auto simp: get_or_create_ctx_def Let_def set_shard_def split: option.splits prod.splits sum.splits)

lemma recover_shard_effect:
  assumes "recover_shard ev mos (ns, j, r) (status, st) = (status', st')"
  shows "counts_only st st' \<and> e_data (r_etcd (ig_router st')) = e_data (r_etcd (ig_router st)) \<and>
    covered (ctx_key ns (sh_id (heap_shard st r))) status' st' \<and>
    (\<forall>k. covered k status st \<longrightarrow> covered k status' st')"
proof -
  let ?key = "ctx_key ns (sh_id (heap_shard st r))"
  obtain x st1 where g: "get_or_create_ctx ev (mos j) ns r st = (x, st1)" by fastforce
  have st': "st' = st1"
    using assms g by (auto simp: recover_shard_def Let_def split: sum.splits)
  have other: "dict_get status' k = dict_get status k" if "k \<noteq> ?key" for k
    using assms g that get_or_create_counts [OF g]
    by (auto simp: recover_shard_def Let_def store_simps split: sum.splits option.splits if_splits)
  have key: "covered ?key status' st'"
  proof (cases x)
    case (Inl e)
    then show ?thesis using assms g by (auto simp: recover_shard_def Let_def covered_def store_simps)
  next
    case (Inr k)
    then show ?thesis using get_or_create_counts [OF g] by (auto simp: covered_def st')
  qed
  have mono: "covered k status' st'" if "covered k status st" for k
  proof (cases "k = ?key")
    case False
    then show ?thesis using that other [OF False] get_or_create_dom [OF g, of k] by (auto simp: covered_def st')
  qed (use key in simp)
  show ?thesis using get_or_create_counts [OF g] get_or_create_tables [OF g] key mono by (simp add: st')
qed

lemma recover_all:
  assumes "fold (recover_shard ev mos) todo (status, st) = (status', st')"
  shows "counts_only st st' \<and> e_data (r_etcd (ig_router st')) = e_data (r_etcd (ig_router st)) \<and>
    (\<forall>(ns, j, r) \<in> set todo. covered (ctx_key ns (sh_id (heap_shard st r))) status' st') \<and>
    (\<forall>k. covered k status st \<longrightarrow> covered k status' st')"
  using assms
proof (induction todo arbitrary: status st)
  case (Cons t todo)
  obtain ns j r where t: "t = (ns, j, r)" by (cases t) auto
  obtain status1 st1 where one: "recover_shard ev mos (ns, j, r) (status, st) = (status1, st1)" by fastforce
  note e = recover_shard_effect [OF one]
  note ih = Cons.IH [of status1 st1]
  have rest: "fold (recover_shard ev mos) todo (status1, st1) = (status', st')"
    using Cons.prems one by (simp add: t)
  have ids: "sh_id (heap_shard st1 q) = sh_id (heap_shard st q)" for q
    using e counts_only_fields(1) by blast
  show ?case using ih [OF rest] e counts_only_trans [of st st1 st'] by (auto simp: t ids)
qed simp

lemma counts_listing:
  assumes "counts_only st st'" "e_data (r_etcd (ig_router st')) = e_data (r_etcd (ig_router st))"
  shows "list_by_namespace (r_etcd (ig_router st')) m = list_by_namespace (r_etcd (ig_router st)) m"
proof -
  have "sh_namespace (heap_shard st' q) = sh_namespace (heap_shard st q)" for q
  proof -
    have "heap_shard st' q = (heap_shard st q)\<lparr>sh_vector_count := sh_vector_count (heap_shard st' q)\<rparr>"
      using assms(1) by (simp add: counts_only_def)
    from arg_cong [OF this, of sh_namespace] show ?thesis by simp
  qed
  then show ?thesis using assms(2) by (simp add: list_by_namespace_def heap_shard_def)
qed

lemma bootstrap_ok:
  assumes "bootstrap_local_node cid nid st = (Inr m, st1)" "wf_etcd st" "\<not> removed_member st nid"
  shows "wf_etcd st1 \<and> e_heap st1 = e_heap st \<and> e_data st1 = e_data st \<and> known_member st1 nid"
proof -
  have f: "member_frame st st1" using assms(1) member_serve_frame [of cid "MemBootstrap nid" st] by simp
  have "known_member st1 nid"
  proof (cases "get_node st nid")
    case None
    with assms(1) show ?thesis
      by (auto simp: bootstrap_local_node_def member_get_def register_def member_contains_def validate_cluster_id_for_def
          Let_def member_activate_def member_transition_def get_node_put_node validate_cluster_id_def
          node_transition_def known_member_def split: if_splits sum.splits)
  next
    case (Some n)
    with assms show ?thesis using get_node_key [OF assms(2) Some]
      by (auto simp: bootstrap_local_node_def member_get_def known_member_def removed_member_def member_activate_def
          node_transition_ok get_node_put_node split: if_splits dest!: member_transition_cases)
  qed
  with f assms(2) show ?thesis by (simp add: member_frame_def)
qed

text \<open>
  C36: the start of a node: once its member record is accepted, the start goes through; every shard the
  store held keeps its key, object, state, owner, replicas and version (recovery only counts vectors),
  every persisted namespace has shards afterwards, and the node reports ready only if the context of
  every shard of every namespace, with its log replayed and its index rebuilt, is open.
\<close>

theorem start_keeps_shards_and_recovers:
  assumes "bootstrap_local_node (ae_cluster_id ae) (ae_node_id ae) st = (Inr m, st0)"
    and "wf_etcd st" "ae_node_id ae \<noteq> []" "\<not> removed_member st (ae_node_id ae)"
    and "\<forall>n \<in> set (backend_list b). valid_namespace n" "names_apart (backend_list b) st"
  shows "\<exists>nd. start_node ae clk mos ttl dir disk b st cache = Inr nd \<and>
    (\<forall>k r. etcd_get st k = Some r \<longrightarrow> etcd_get (node_etcd nd) k = Some r \<and>
       e_heap (node_etcd nd) r = (e_heap st r)\<lparr>sh_vector_count := sh_vector_count (e_heap (node_etcd nd) r)\<rparr>) \<and>
    (\<forall>n \<in> set (backend_list b). list_by_namespace (node_etcd nd) (ns_name n) \<noteq> []) \<and>
    (node_ready nd \<longrightarrow> (\<forall>n \<in> set (backend_list b). \<forall>r \<in> set (list_by_namespace (node_etcd nd) (ns_name n)).
       dict_get (ig_shards (nd_service nd)) (ctx_key (ns_name n) (sh_id (e_heap (node_etcd nd) r))) \<noteq> None))"
proof -
  note b0 = bootstrap_ok [OF assms(1,2,4)]
  have ap: "names_apart (backend_list b) st0" using assms(6) b0 by (simp add: names_apart_def etcd_get_def)
  obtain st1 where st1: "hydrate (ae_node_id ae) clk (backend_list b) st0 = (Inr (), st1)" "wf_etcd st1"
    "keeps_shards st0 st1" "\<forall>n \<in> set (backend_list b). list_by_namespace st1 (ns_name n) \<noteq> []"
    using b0 by (elim conjE) (rule hydrate_ok [OF assms(3) _ _ assms(5) ap, of clk]; (rule that)?; assumption)
  define sv where "sv = (new_ingest (new_router st1 ttl True) (jb_data b) dir (Some (ae_node_id ae)) disk :: ('a, 'b) ingest)"
  have et: "r_etcd (ig_router sv) = st1" by (simp add: sv_def new_ingest_def new_router_def)
  define todo where "todo = concat (map (\<lambda>n. map (Pair (ns_name n)) (list_by_namespace st1 (ns_name n))) (backend_list b))"
  define steps where "steps = map (\<lambda>(j, ns, r). (ns, j, r)) (zip [0..<length todo] todo)"
  obtain status sv1 where rec: "fold (recover_shard (ae_ienv ae) mos) steps ([], sv) = (status, sv1)" by fastforce
  note ra = recover_all [OF rec]
  let ?nd = "\<lparr>nd_backend = b, nd_service = sv1, nd_cache = cache, nd_recovery = status\<rparr>"
  have start: "start_node ae clk mos ttl dir disk b st cache = Inr ?nd"
    using rec by (simp add: start_node_def assms(1) st1(1) startup_recovery_def Let_def sv_def [symmetric] et
        todo_def [symmetric] steps_def [symmetric])
  have lst: "list_by_namespace (node_etcd ?nd) m = list_by_namespace st1 m" for m
    using counts_listing [of sv sv1 m] ra et by simp
  have heap: "e_heap (node_etcd ?nd) r = (e_heap st1 r)\<lparr>sh_vector_count := sh_vector_count (e_heap (node_etcd ?nd) r)\<rparr>" for r
    using ra et by (auto simp: counts_only_def heap_shard_def)
  have keep: "etcd_get (node_etcd ?nd) k = Some r \<and>
      e_heap (node_etcd ?nd) r = (e_heap st r)\<lparr>sh_vector_count := sh_vector_count (e_heap (node_etcd ?nd) r)\<rparr>"
    if k: "etcd_get st k = Some r" for k r
  proof -
    have "etcd_get st0 k = Some r" using k b0 by (simp add: etcd_get_def)
    then have "etcd_get st1 k = Some r" "e_heap st1 r = e_heap st r"
      using st1(3) b0 by (simp_all add: keeps_shards_def)
    then show ?thesis using heap [of r] ra et by (simp add: etcd_get_def)
  qed
  have ready: "dict_get (ig_shards sv1) (ctx_key (ns_name n) (sh_id (e_heap (node_etcd ?nd) r))) \<noteq> None"
    if "node_ready ?nd" "n \<in> set (backend_list b)" "r \<in> set (list_by_namespace (node_etcd ?nd) (ns_name n))" for n r
  proof -
    have "(ns_name n, r) \<in> set todo" using that(2,3) unfolding lst by (auto simp: todo_def)
    then obtain j where "j < length todo" "todo ! j = (ns_name n, r)" by (auto simp: in_set_conv_nth)
    then have "(ns_name n, j, r) \<in> set steps" by (force simp: steps_def in_set_conv_nth set_zip image_iff)
    then have c: "covered (ctx_key (ns_name n) (sh_id (heap_shard sv r))) status sv1" using ra by auto
    have id: "sh_id (heap_shard sv r) = sh_id (e_heap (node_etcd ?nd) r)"
      using ra counts_only_fields(1) [of sv sv1 r] by (simp add: heap_shard_def)
    have "\<not> (\<exists>m. dict_get status k = Some (''error:'' @ m))" for k
      using that(1) by (force simp: node_ready_def list_ex_iff starts_with_def dest: map_of_SomeD)
    with c show ?thesis by (auto simp: covered_def id)
  qed
  have shards: "\<forall>n \<in> set (backend_list b). list_by_namespace (node_etcd ?nd) (ns_name n) \<noteq> []"
    using st1(4) by (simp only: lst)
  show ?thesis
    by (rule exI [of _ ?nd]) (use start keep ready shards in auto)
qed


lemma start_keeps_shards_and_recovers_witness:
  "\<exists>nd. start_node demo_api (\<lambda>ns i. 0) (\<lambda>j. demo_moment 0) 5 ''d'' no_files (nd_backend used_node) used_etcd no_cache = Inr nd \<and>
     etcd_get (node_etcd nd) (shard_name ''ns'' 0) = Some 0 \<and> sh_node_id (e_heap (node_etcd nd) 0) = ''node-0''"
proof -
  have ae: "ae_node_id demo_api = ''node-0''" "ae_cluster_id demo_api = ''c''" by (simp_all add: demo_api_def)
  obtain m where m: "get_node used_etcd ''node-0'' = Some m" "cn_state m = NodeMembershipState.ACTIVE"
    by (simp add: used_etcd_def lone_member_def get_node_def put_node_def map_of_dict_put)
  then have boot: "bootstrap_local_node (ae_cluster_id demo_api) (ae_node_id demo_api) used_etcd = (Inr m, used_etcd)"
    "\<not> removed_member used_etcd (ae_node_id demo_api)"
    by (simp_all add: ae bootstrap_local_node_def member_get_def removed_member_def)
  have bl: "backend_list (nd_backend used_node) = [small_namespace]" by (simp add: used_node_def backend_list_def)
  have v: "valid_namespace small_namespace" using requested_valid(1) [OF small_requested] .
  have ap: "names_apart [small_namespace] used_etcd"
    using used_etcd_ok(3) by (auto simp: names_apart_def small_namespace_def)
  have g: "etcd_get used_etcd (shard_name ''ns'' 0) = Some 0" by (simp add: etcd_get_def used_etcd_def)
  from start_keeps_shards_and_recovers [OF boot(1) used_etcd_ok(1) _ boot(2), of "nd_backend used_node"
      "\<lambda>ns i. 0" "\<lambda>j. demo_moment 0" 5 "''d''" no_files no_cache]
  obtain nd where nd: "start_node demo_api (\<lambda>ns i. 0) (\<lambda>j. demo_moment 0) 5 ''d'' no_files (nd_backend used_node) used_etcd no_cache = Inr nd"
    "\<And>k r. etcd_get used_etcd k = Some r \<Longrightarrow> etcd_get (node_etcd nd) k = Some r \<and>
       e_heap (node_etcd nd) r = (e_heap used_etcd r)\<lparr>sh_vector_count := sh_vector_count (e_heap (node_etcd nd) r)\<rparr>"
    using v ap by (auto simp: bl ae)
  have "sh_node_id (e_heap (node_etcd nd) 0) = sh_node_id (e_heap used_etcd 0)"
    using nd(2) [OF g] by (metis shard.select_convs(3) shard.surjective shard.update_convs(5))
  then show ?thesis using nd(1) nd(2) [OF g] by (intro exI [of _ nd]) (simp add: used_etcd_def)
qed

end
