(* ===== verification/Read_Write.thy ===== *)
theory Read_Write
  imports Ingest_Facts
begin

text \<open>
  What a client sees of its own writes: after an upsert request that reports no error, every record of the
  request is served by point reads. The parts are: routing is the same function before and after as long
  as the listing of the namespace stays (\<open>same_routing\<close>); storing, flushing and the background work keep
  what a shard context shows; a point read shows it (\<open>Ingest_Facts\<close>).
\<close>

subsection \<open>Routing is stable\<close>

definition listed_ids :: "router \<Rightarrow> string \<Rightarrow> string list" where
  "listed_ids rt ns =
     map (\<lambda>r. sh_id (e_heap (r_etcd rt) r))
       (filter (\<lambda>r. sh_id (e_heap (r_etcd rt) r) \<noteq> []) (list_by_namespace (r_etcd rt) ns))"

definition only_counts :: "heap \<Rightarrow> heap \<Rightarrow> bool" where
  "only_counts h h' \<longleftrightarrow> (\<forall>q. h' q = (h q)\<lparr>sh_vector_count := sh_vector_count (h' q)\<rparr>)"

lemma only_counts_refl [simp]: "only_counts h h"
  by (simp add: only_counts_def)

lemma only_counts_fields:
  assumes "only_counts h h'"
  shows "sh_id (h' q) = sh_id (h q)" "sh_namespace (h' q) = sh_namespace (h q)"
    "sh_state (h' q) = sh_state (h q)" "sh_node_id (h' q) = sh_node_id (h q)"
    "sh_replicas (h' q) = sh_replicas (h q)"
proof -
  have "h' q = (h q)\<lparr>sh_vector_count := sh_vector_count (h' q)\<rparr>"
    using assms by (simp add: only_counts_def)
  then show "sh_id (h' q) = sh_id (h q)" "sh_namespace (h' q) = sh_namespace (h q)"
    "sh_state (h' q) = sh_state (h q)" "sh_node_id (h' q) = sh_node_id (h q)"
    "sh_replicas (h' q) = sh_replicas (h q)"
    by (metis shard.select_convs shard.surjective shard.update_convs(5))+
qed

lemma only_counts_trans: "only_counts h h' \<Longrightarrow> only_counts h' h'' \<Longrightarrow> only_counts h h''"
  unfolding only_counts_def by (metis shard.surjective shard.update_convs(5))

lemma only_counts_set:
  "only_counts h h' \<Longrightarrow> s = (h' r)\<lparr>sh_vector_count := c\<rparr> \<Longrightarrow> only_counts h (h'(r := s))"
  by (rule only_counts_trans) (auto simp: only_counts_def)

text \<open>The routers of a request differ from the one at its start in vector counts and caches only.\<close>

definition same_routing :: "string \<Rightarrow> router \<Rightarrow> router \<Rightarrow> bool" where
  "same_routing ns rt0 rt \<longleftrightarrow>
     (\<exists>h. r_etcd rt = (r_etcd rt0)\<lparr>e_heap := h\<rparr> \<and> only_counts (e_heap (r_etcd rt0)) h) \<and>
     r_membership rt = r_membership rt0 \<and>
     (\<forall>t. cached_shards t ns rt = list_by_namespace (r_etcd rt0) ns) \<and>
     fst (hrw_sync ns (listed_ids rt0 ns) rt) = fst (hrw_sync ns (listed_ids rt0 ns) rt0)"

lemma list_only_counts:
  "only_counts (e_heap st) h \<Longrightarrow> list_by_namespace (st\<lparr>e_heap := h\<rparr>) ns = list_by_namespace st ns"
  by (simp add: list_by_namespace_def only_counts_fields(2))

lemma select_place:
  assumes "same_routing ns rt0 rt"
  shows "fst (select_shard sha hash t ns i rt) =
    (if list_by_namespace (r_etcd rt0) ns = [] then Inl (KeyError (''no shards for namespace '' @ py_repr ns))
     else let active = filter (\<lambda>r. sh_id (e_heap (r_etcd rt0) r) \<noteq> []) (list_by_namespace (r_etcd rt0) ns) in
       case hrw_get_node hash (fst (hrw_sync ns (listed_ids rt0 ns) rt0)) (shard_key sha ns i) of
         Inl e \<Rightarrow> Inl e
       | Inr sid \<Rightarrow>
           (case find (\<lambda>r. sh_id (e_heap (r_etcd rt0) r) = sid) active of
              Some r \<Rightarrow> Inr r
            | None \<Rightarrow> (case active of [] \<Rightarrow> Inl (OtherError ''IndexError'' ''list index out of range'') | r # _ \<Rightarrow> Inr r)))"
proof -
  obtain h where h: "r_etcd rt = (r_etcd rt0)\<lparr>e_heap := h\<rparr>" "only_counts (e_heap (r_etcd rt0)) h"
    using assms by (auto simp: same_routing_def)
  note f = only_counts_fields [OF h(2)]
  obtain L rt1 where c: "get_shards_cached t ns rt = (L, rt1)" by fastforce
  have L: "L = list_by_namespace (r_etcd rt0) ns" using assms c by (auto simp: same_routing_def dest: spec [of _ t])
  note f1 = get_shards_cached_frame [OF c]
  have y: "fst (hrw_sync ns ids rt1) = fst (hrw_sync ns ids rt)" for ids
    using f1 by (simp add: hrw_sync_def Let_def split: option.split)
  obtain nodes rt2 where z: "hrw_sync ns (listed_ids rt0 ns) rt1 = (nodes, rt2)" by fastforce
  have n: "nodes = fst (hrw_sync ns (listed_ids rt0 ns) rt0)"
    using y [of "listed_ids rt0 ns"] z assms by (simp add: same_routing_def)
  show ?thesis
    using c z f1 h(1) unfolding n [symmetric] L
    by (auto simp: select_shard_def Let_def f listed_ids_def split: sum.splits option.splits list.splits)
qed

lemma select_router:
  "get_shards_cached t ns rt = (L, rt1) \<Longrightarrow> snd (select_shard sha hash t ns i rt) =
     (if L = [] then rt1
      else snd (hrw_sync ns (map (\<lambda>r. sh_id (e_heap (r_etcd rt1) r))
             (filter (\<lambda>r. sh_id (e_heap (r_etcd rt1) r) \<noteq> []) L)) rt1))"
  by (simp add: select_shard_def Let_def split: prod.split sum.split option.split list.split)

lemma hrw_sync_again: "fst (hrw_sync ns ids (snd (hrw_sync ns ids rt))) = fst (hrw_sync ns ids rt)"
  by (auto simp: hrw_sync_def Let_def map_of_dict_put split: option.splits)

lemma cached_keeps_routing:
  assumes "same_routing ns rt0 rt" "get_shards_cached t ns rt = (L, rt1)"
  shows "same_routing ns rt0 rt1" "L = list_by_namespace (r_etcd rt0) ns"
proof -
  obtain h where h: "r_etcd rt = (r_etcd rt0)\<lparr>e_heap := h\<rparr>" "only_counts (e_heap (r_etcd rt0)) h"
    using assms by (auto simp: same_routing_def)
  let ?L = "list_by_namespace (r_etcd rt0) ns"
  have now: "list_by_namespace (r_etcd rt) ns = ?L" using h list_only_counts by simp
  show L: "L = ?L" using assms by (auto simp: same_routing_def dest: spec [of _ t])
  note f1 = get_shards_cached_frame [OF assms(2)]
  have cache: "cached_shards u ns rt1 = ?L" for u
    using assms(2) L now assms(1) by (auto simp: same_routing_def get_shards_cached_def Let_def map_of_dict_put
        split: option.splits if_splits prod.splits)
  have y: "fst (hrw_sync ns ids rt1) = fst (hrw_sync ns ids rt)" for ids
    using f1 by (simp add: hrw_sync_def Let_def split: option.split)
  show "same_routing ns rt0 rt1"
    using assms(1) f1 cache y h by (auto simp: same_routing_def)
qed

lemma select_keeps_routing:
  assumes "same_routing ns rt0 rt" "select_shard sha hash t ns i rt = (x, rt')"
  shows "same_routing ns rt0 rt'"
proof -
  obtain h where h: "r_etcd rt = (r_etcd rt0)\<lparr>e_heap := h\<rparr>" "only_counts (e_heap (r_etcd rt0)) h"
    using assms by (auto simp: same_routing_def)
  note f = only_counts_fields [OF h(2)]
  let ?L = "list_by_namespace (r_etcd rt0) ns" and ?ids = "listed_ids rt0 ns"
  obtain L rt1 where c: "get_shards_cached t ns rt = (L, rt1)" by fastforce
  note L = cached_keeps_routing(2) [OF assms(1) c] and r1 = cached_keeps_routing(1) [OF assms(1) c]
  note f1 = get_shards_cached_frame [OF c]
  have cache: "cached_shards u ns rt1 = ?L" for u using r1 by (simp add: same_routing_def)
  show ?thesis
  proof (cases "L = []")
    case True
    with assms(2) c r1 show ?thesis by (simp add: select_shard_def)
  next
    case False
    obtain nodes rt2 where z: "hrw_sync ns ?ids rt1 = (nodes, rt2)" by fastforce
    note f2 = hrw_sync_frame [OF z]
    have ids: "map (\<lambda>r. sh_id (e_heap (r_etcd rt1) r)) (filter (\<lambda>r. sh_id (e_heap (r_etcd rt1) r) \<noteq> []) L) = ?ids"
      using f1 h(1) L by (simp add: f listed_ids_def)
    have rt': "rt' = rt2" using select_router [OF c, of sha hash i] assms(2) False z by (simp add: ids)
    have again: "fst (hrw_sync ns ?ids rt2) = nodes" using hrw_sync_again [of ns ?ids rt1] z by simp
    have "cached_shards u ns rt2 = ?L" for u
    proof -
      have "fst (get_shards_cached u ns rt2) = fst (get_shards_cached u ns rt1)"
        using f2 by (simp add: get_shards_cached_def Let_def split: option.split)
      then show ?thesis using cache by simp
    qed
    with r1 z f2 again show ?thesis unfolding rt' by (simp add: same_routing_def)
  qed
qed

lemma counts_keep_routing:
  assumes "same_routing ns rt0 rt" "only_counts (e_heap (r_etcd rt)) h"
  shows "same_routing ns rt0 (rt\<lparr>r_etcd := (r_etcd rt)\<lparr>e_heap := h\<rparr>\<rparr>)"
proof -
  let ?st = "(r_etcd rt)\<lparr>e_heap := h\<rparr>"
  have "list_by_namespace ?st ns = list_by_namespace (r_etcd rt) ns" by (rule list_only_counts [OF assms(2)])
  note m = get_shards_cached_metadata [OF this] hrw_sync_metadata
  obtain h0 where h: "r_etcd rt = (r_etcd rt0)\<lparr>e_heap := h0\<rparr>" "only_counts (e_heap (r_etcd rt0)) h0"
    using assms by (auto simp: same_routing_def)
  have "only_counts (e_heap (r_etcd rt0)) h" using only_counts_trans [OF h(2)] assms(2) h(1) by simp
  moreover have "cached_shards t ns (rt\<lparr>r_etcd := ?st\<rparr>) = cached_shards t ns rt" for t
    using m(1) [of t] by (cases "get_shards_cached t ns rt") simp
  moreover have "fst (hrw_sync ns ids (rt\<lparr>r_etcd := ?st\<rparr>)) = fst (hrw_sync ns ids rt)" for ids
    using m(2) [of ns ids ?st rt] by (cases "hrw_sync ns ids rt") simp
  ultimately show ?thesis using assms(1) h(1) by (auto simp: same_routing_def)
qed

subsection \<open>One record\<close>

definition shard_key_of :: "string \<Rightarrow> router \<Rightarrow> sref \<Rightarrow> string" where
  "shard_key_of ns rt0 r = ctx_key ns (sh_id (e_heap (r_etcd rt0) r))"

text \<open>The record is what point reads of the id show, whatever the caches hold.\<close>

definition served ::
    "('h, 'f) ienv \<Rightarrow> string \<Rightarrow> router \<Rightarrow> ('h, 'f) ingest \<Rightarrow> string \<Rightarrow> vector_record \<Rightarrow> bool" where
  "served ev ns rt0 st i rec \<longleftrightarrow>
     (\<exists>r r1 cx. (\<forall>rt t. same_routing ns rt0 rt \<longrightarrow> fst (route (ie_sha ev) (ie_hash ev) t ns i rt) = Inr r) \<and>
        dict_get (ig_shards st) (shard_key_of ns rt0 r) = Some (r1, cx) \<and>
        ctx_view (ie_codec ev) cx i = Some rec)"

definition all_open :: "string \<Rightarrow> router \<Rightarrow> ('h, 'f) ingest \<Rightarrow> bool" where
  "all_open ns rt0 st \<longleftrightarrow>
     (\<forall>r \<in> set (list_by_namespace (r_etcd rt0) ns). dict_get (ig_shards st) (shard_key_of ns rt0 r) \<noteq> None)"

definition named_by :: "moment \<Rightarrow> sst_path" where
  "named_by mo = (Hot, sst_name (mo_ms mo) (mo_pid mo))"

lemma fresh_named: "fresh_file mo cx \<longleftrightarrow> named_by mo \<notin> set (sg_sstables (cx_segments cx))"
  by (simp add: fresh_file_def named_by_def)

text \<open>The contexts of \<open>st'\<close> have the SSTables of \<open>st\<close> and perhaps \<open>p\<close>.\<close>

definition files_within :: "sst_path \<Rightarrow> ('h, 'f) ingest \<Rightarrow> ('h, 'f) ingest \<Rightarrow> bool" where
  "files_within p st st' \<longleftrightarrow>
     (\<forall>k r cx. dict_get (ig_shards st') k = Some (r, cx) \<longrightarrow>
        (\<exists>r0 cx0. dict_get (ig_shards st) k = Some (r0, cx0) \<and>
           set (sg_sstables (cx_segments cx)) \<subseteq> insert p (set (sg_sstables (cx_segments cx0)))))"

lemma select_listed:
  "select_shard sha hash t ns i rt = (Inr r, rt1) \<Longrightarrow> r \<in> set (cached_shards t ns rt)"
  by (auto simp: select_shard_def Let_def filter_eq_Cons_iff dest!: find_SomeD
      split: prod.splits sum.splits option.splits list.splits if_splits)

lemma owner_valid_same:
  assumes "same_routing ns rt0 rt"
  shows "validate_owner rt (e_heap (r_etcd rt) r) = validate_owner rt0 (e_heap (r_etcd rt0) r)"
proof -
  obtain h where h: "r_etcd rt = (r_etcd rt0)\<lparr>e_heap := h\<rparr>" "only_counts (e_heap (r_etcd rt0)) h"
    using assms by (auto simp: same_routing_def)
  have "get_node (r_etcd rt) = get_node (r_etcd rt0)" using h(1) by (simp add: get_node_def [abs_def])
  note v = validate_node_cong [OF this]
  show ?thesis
    using assms h(1) v
    by (simp add: validate_owner_def require_owner_def same_routing_def only_counts_fields [OF h(2)] split: sum.split)
qed

lemma route_after_write:
  assumes "same_routing ns rt0 rt" "route_write sha hash t ns i l rt = (Inr r, rt1)"
  shows "r \<in> set (list_by_namespace (r_etcd rt0) ns)" "same_routing ns rt0 rt1"
    and "same_routing ns rt0 rt2 \<Longrightarrow> fst (route sha hash u ns i rt2) = Inr r"
proof -
  have s: "select_shard sha hash t ns i rt = (Inr r, rt1)" "sh_state (e_heap (r_etcd rt1) r) = ShardState.ACTIVE"
    "validate_owner rt1 (e_heap (r_etcd rt1) r) = Inr ()"
    using assms(2) by (auto simp: route_write_def Let_def split: prod.splits sum.splits option.splits if_splits)
  show "r \<in> set (list_by_namespace (r_etcd rt0) ns)"
    using select_listed [OF s(1)] assms(1) by (simp add: same_routing_def)
  show r1: "same_routing ns rt0 rt1" by (rule select_keeps_routing [OF assms(1) s(1)])
  have st: "sh_state (e_heap (r_etcd rt3) r) = sh_state (e_heap (r_etcd rt0) r)" if "same_routing ns rt0 rt3" for rt3
    using that by (auto simp: same_routing_def dest: only_counts_fields(3))
  assume r2: "same_routing ns rt0 rt2"
  obtain rt3 where s2: "select_shard sha hash u ns i rt2 = (Inr r, rt3)"
    using select_place [OF r2, of sha hash u i] select_place [OF assms(1), of sha hash t i] s(1)
    by (cases "select_shard sha hash u ns i rt2") simp
  have r3: "same_routing ns rt0 rt3" by (rule select_keeps_routing [OF r2 s2])
  have "sh_state (e_heap (r_etcd rt3) r) = ShardState.ACTIVE" using st [OF r1] st [OF r3] s(2) by simp
  moreover have "validate_owner rt3 (e_heap (r_etcd rt3) r) = Inr ()"
    using owner_valid_same [OF r1] owner_valid_same [OF r3] s(3) by simp
  ultimately show "fst (route sha hash u ns i rt2) = Inr r"
    using s2 by (simp add: route_def readable_states_def)
qed

lemma set_shard_router:
  "s = (heap_shard st r)\<lparr>sh_vector_count := c\<rparr> \<Longrightarrow>
   \<exists>h. only_counts (e_heap (r_etcd (ig_router st))) h \<and>
     ig_router (set_shard r s st) = (ig_router st)\<lparr>r_etcd := (r_etcd (ig_router st))\<lparr>e_heap := h\<rparr>\<rparr>"
  by (rule exI [of _ "(e_heap (r_etcd (ig_router st)))(r := s)"])
    (auto simp: set_shard_def assign_def heap_shard_def intro: only_counts_set [OF only_counts_refl])

lemma set_shard_routing:
  assumes "same_routing ns rt0 (ig_router st)" "s = (heap_shard st r)\<lparr>sh_vector_count := c\<rparr>"
  shows "same_routing ns rt0 (ig_router (set_shard r s st))"
  using set_shard_router [OF assms(2)] counts_keep_routing [OF assms(1)] by auto

lemma set_shard_next [simp]: "e_next (r_etcd (ig_router (set_shard r s st))) = e_next (r_etcd (ig_router st))"
  by (simp add: set_shard_def assign_def)

lemma store_primary_next:
  "store_primary ev mo rec r key st = (x, st1) \<Longrightarrow> e_next (r_etcd (ig_router st1)) = e_next (r_etcd (ig_router st))"
  by (auto simp: store_primary_def Let_def split: option.splits prod.splits sum.splits)

lemma get_or_create_next:
  "get_or_create_ctx ev mo ns r st = (x, st1) \<Longrightarrow> e_next (r_etcd (ig_router st1)) = e_next (r_etcd (ig_router st))"
  by (auto simp: get_or_create_ctx_def Let_def split: option.splits prod.splits sum.splits)

lemma store_primary_routing:
  assumes "store_primary ev mo rec r key st = (x, st1)" "same_routing ns rt0 (ig_router st)"
  shows "same_routing ns rt0 (ig_router st1)"
proof -
  show "same_routing ns rt0 (ig_router st1)"
  proof (cases x)
    case (Inl e)
    with assms show ?thesis
      by (auto simp: store_primary_def Let_def split: option.splits prod.splits sum.splits)
  next
    case (Inr u)
    with assms(1) obtain r1 cx cx1 where cx: "dict_get (ig_shards st) key = Some (r1, cx)"
      "store_record (ie_libs ev) (ie_codec ev) mo rec cx = (Inr (), cx1)"
      by (auto simp: store_primary_def split: option.splits prod.splits sum.splits)
    define stA where "stA = st\<lparr>ig_shards := dict_put key (r1, cx1) (ig_shards st)\<rparr>"
    define stB where "stB = set_shard r1 (count_vector (heap_shard stA r1)) stA"
    have "same_routing ns rt0 (ig_router stA)" using assms(2) by (simp add: stA_def)
    then have B: "same_routing ns rt0 (ig_router stB)"
      unfolding stB_def by (rule set_shard_routing) (simp add: count_vector_def)
    have "st1 = set_shard r ((heap_shard stB r)\<lparr>sh_vector_count := sh_vector_count (heap_shard stB r1)\<rparr>) stB"
      using assms(1) cx Inr
      by (simp add: store_primary_def Let_def stA_def stB_def del: heap_shard_set heap_shard_frame)
    then show ?thesis using set_shard_routing [OF B refl] by simp
  qed
qed

lemma maybe_split_next:
  assumes "maybe_split ua ta ub tb r None rt = (x, rt')"
  shows "rt' = rt \<or> e_next (r_etcd rt') = Suc (Suc (e_next (r_etcd rt)))"
  using assms by (auto simp: maybe_split_def Let_def alloc_def invalidate_def split: if_splits)

text \<open>The state of the service between two records of a request.\<close>

definition writing :: "('h, 'f) ienv \<Rightarrow> string \<Rightarrow> router \<Rightarrow> ('h, 'f) ingest \<Rightarrow> bool" where
  "writing ev ns rt0 st \<longleftrightarrow> service_ok ev st \<and> same_routing ns rt0 (ig_router st) \<and> all_open ns rt0 st"

text \<open>An accepted record is stored in the context of the shard that reads of its id are routed to.\<close>

lemma upsert_one_store:
  assumes "upsert_one ev mos fresh kids ns nsr raw a = (Inr i, a')" "writing ev ns rt0 (ua_service a)"
    and "\<And>rec. raw_record ev (mo_time (mos 0)) fresh ns nsr raw = Inr rec \<Longrightarrow> replica_codec (ie_codec ev) (Upsert rec)"
    and "\<And>q. distinct (sh_replicas (e_heap (r_etcd rt0) q))"
    and grown: "e_next (r_etcd (ig_router (ua_service a'))) \<le> e_next (r_etcd (ig_router (ua_service a)))"
  obtains rec r r1 cx cx1 where "raw_record ev (mo_time (mos 0)) fresh ns nsr raw = Inr rec" "vr_id rec = i"
    "writing ev ns rt0 (ua_service a')" "seg_inv (ie_codec ev) (cx_segments cx)" "r \<in> set (list_by_namespace (r_etcd rt0) ns)"
    "\<And>rt t. same_routing ns rt0 rt \<Longrightarrow> fst (route (ie_sha ev) (ie_hash ev) t ns i rt) = Inr r"
    "dict_get (ig_shards (ua_service a)) (shard_key_of ns rt0 r) = Some (r1, cx)"
    "store_record (ie_libs ev) (ie_codec ev) (mos 0) rec cx = (Inr (), cx1)"
    "\<And>k. dict_get (ig_shards (ua_service a')) k =
       (if k = shard_key_of ns rt0 r then Some (r1, cx1) else dict_get (ig_shards (ua_service a)) k)"
    "ua_touched a' = add_key (shard_key_of ns rt0 r) (ua_touched a)"
  using assms(1)
proof (cases rule: upsert_one_steps)
  case (1 rec r rt st1 st2 st3 res y rt4)
  let ?st = "(ua_service a)\<lparr>ig_router := rt\<rparr>"
  have w: "service_ok ev (ua_service a)" "same_routing ns rt0 (ig_router (ua_service a))"
    "all_open ns rt0 (ua_service a)"
    using assms(2) by (simp_all add: writing_def)
  note rw = route_after_write [OF w(2) 1(3)]
  have cd: "replica_codec (ie_codec ev) (Upsert rec)" by (rule assms(3) [OF 1(1)])
  have ids: "heap_shard ?st r = e_heap (r_etcd rt) r" by (simp add: heap_shard_def)
  obtain h where h: "r_etcd rt = (r_etcd rt0)\<lparr>e_heap := h\<rparr>" "only_counts (e_heap (r_etcd rt0)) h"
    using rw(2) by (auto simp: same_routing_def)
  have key: "ctx_key ns (sh_id (heap_shard ?st r)) = shard_key_of ns rt0 r"
    using h by (simp add: ids shard_key_of_def only_counts_fields)
  obtain rc where rc: "dict_get (ig_shards (ua_service a)) (shard_key_of ns rt0 r) = Some rc"
    using w(3) rw(1) by (auto simp: all_open_def)
  have g: "y = shard_key_of ns rt0 r" "st1 = ?st"
    using 1(4) rc unfolding get_or_create_ctx_def Let_def key by simp_all
  have ok1: "service_ok ev st1" using w(1) g(2) by simp
  from store_primary_effect [OF 1(5) ok1 cd] obtain r1 cx cx1 where s: "service_ok ev st2" "counts_only st1 st2"
    "\<And>k. k \<noteq> y \<Longrightarrow> dict_get (ig_shards st2) k = dict_get (ig_shards st1) k"
    "dict_get (ig_shards st1) y = Some (r1, cx)"
    "store_record (ie_libs ev) (ie_codec ev) (mos 0) rec cx = (Inr (), cx1)"
    "dict_get (ig_shards st2) y = Some (r1, cx1)" by blast
  have r1: "same_routing ns rt0 (ig_router st1)" using rw(2) g(2) by simp
  note sp = store_primary_routing [OF 1(5) r1] store_primary_next [OF 1(5)]
  note fr = replicate_frame [OF 1(6)]
  have d: "distinct (sh_replicas (heap_shard st2 r))"
  proof -
    obtain h2 where "r_etcd (ig_router st2) = (r_etcd rt0)\<lparr>e_heap := h2\<rparr>" "only_counts (e_heap (r_etcd rt0)) h2"
      using sp(1) by (auto simp: same_routing_def)
    then show ?thesis using assms(4) by (simp add: heap_shard_def only_counts_fields)
  qed
  have ok3: "service_ok ev st3" using replicate_keeps [OF 1(6) s(1) cd d] by simp
  have n3: "e_next (r_etcd (ig_router st3)) = e_next (r_etcd (ig_router (ua_service a)))"
    using sp(2) fr(1) g(2) route_write_heap [OF 1(3)] by simp
  have rt4: "rt4 = ig_router st3"
    using 1(12) maybe_split_next grown n3 unfolding 1(7) by fastforce
  have inv: "seg_inv (ie_codec ev) (cx_segments cx)" using ok1 s(4) by (auto simp: service_ok_def)
  have shards: "ig_shards (ua_service a') = ig_shards st2" unfolding 1(7) using fr(2) by simp
  have new: "dict_get (ig_shards (ua_service a')) k =
      (if k = shard_key_of ns rt0 r then Some (r1, cx1) else dict_get (ig_shards (ua_service a)) k)" for k
    using s(3) [of k] s(6) g by (simp add: shards)
  have w': "writing ev ns rt0 (ua_service a')"
    unfolding writing_def
  proof (intro conjI)
    show "service_ok ev (ua_service a')" unfolding 1(7) using ok3 by simp
    show "same_routing ns rt0 (ig_router (ua_service a'))" unfolding 1(7) rt4 using sp(1) fr(1) by simp
    show "all_open ns rt0 (ua_service a')" using w(3) by (auto simp: all_open_def new)
  qed
  show ?thesis
    by (rule that [OF 1(1) 1(2) [symmetric] w' inv rw(1) rw(3) _ s(5) new])
      (use s(4) g 1(8) in simp_all)
qed

lemma upsert_one_served:
  assumes "upsert_one ev mos fresh kids ns nsr raw a = (Inr i, a')" "writing ev ns rt0 (ua_service a)"
    and "\<And>rec. raw_record ev (mo_time (mos 0)) fresh ns nsr raw = Inr rec \<Longrightarrow> replica_codec (ie_codec ev) (Upsert rec)"
    and "\<And>q. distinct (sh_replicas (e_heap (r_etcd rt0) q))"
    and fresh: "\<And>k r cx. dict_get (ig_shards (ua_service a)) k = Some (r, cx) \<Longrightarrow> fresh_file (mos 0) cx"
    and grown: "e_next (r_etcd (ig_router (ua_service a'))) \<le> e_next (r_etcd (ig_router (ua_service a)))"
  obtains rec where "raw_record ev (mo_time (mos 0)) fresh ns nsr raw = Inr rec" "vr_id rec = i"
    "writing ev ns rt0 (ua_service a')" "served ev ns rt0 (ua_service a') i rec"
    "\<And>j rec'. j \<noteq> i \<Longrightarrow> served ev ns rt0 (ua_service a) j rec' \<Longrightarrow> served ev ns rt0 (ua_service a') j rec'"
    "files_within (named_by (mos 0)) (ua_service a) (ua_service a')"
proof -
  obtain rec r r1 cx cx1 where s: "raw_record ev (mo_time (mos 0)) fresh ns nsr raw = Inr rec" "vr_id rec = i"
    "writing ev ns rt0 (ua_service a')" "seg_inv (ie_codec ev) (cx_segments cx)" "r \<in> set (list_by_namespace (r_etcd rt0) ns)"
    "\<And>rt t. same_routing ns rt0 rt \<Longrightarrow> fst (route (ie_sha ev) (ie_hash ev) t ns i rt) = Inr r"
    "dict_get (ig_shards (ua_service a)) (shard_key_of ns rt0 r) = Some (r1, cx)"
    "store_record (ie_libs ev) (ie_codec ev) (mos 0) rec cx = (Inr (), cx1)"
    "\<And>k. dict_get (ig_shards (ua_service a')) k =
       (if k = shard_key_of ns rt0 r then Some (r1, cx1) else dict_get (ig_shards (ua_service a)) k)"
    by (rule upsert_one_store [OF assms(1,2) _ assms(4) grown], erule assms(3)) (rule that; assumption)
  have lc: "line_codec (ie_codec ev) rec" using assms(3) [OF s(1)] by simp
  note view = store_record_view [OF s(8,4) lc fresh [OF s(7)]]
  show ?thesis
  proof (rule that [OF s(1-3)])
    show "served ev ns rt0 (ua_service a') i rec"
      unfolding served_def
      using s(2,6,9) view(3) by (intro exI [of _ r] exI [of _ r1] exI [of _ cx1]) simp
    show "served ev ns rt0 (ua_service a') j rec'" if "j \<noteq> i" "served ev ns rt0 (ua_service a) j rec'" for j rec'
    proof -
      from that(2) obtain q q1 cq where q: "\<forall>rt t. same_routing ns rt0 rt \<longrightarrow> fst (route (ie_sha ev) (ie_hash ev) t ns j rt) = Inr q"
        "dict_get (ig_shards (ua_service a)) (shard_key_of ns rt0 q) = Some (q1, cq)"
        "ctx_view (ie_codec ev) cq j = Some rec'" unfolding served_def by blast
      show ?thesis
      proof (cases "shard_key_of ns rt0 q = shard_key_of ns rt0 r")
        case True
        with q(2,3) s(7) that(1) view(3) s(2) have "ctx_view (ie_codec ev) cx1 j = Some rec'" by simp
        with q(1) True s(9) show ?thesis
          unfolding served_def by (intro exI [of _ q] exI [of _ r1] exI [of _ cx1]) simp
      next
        case False
        with q s(9) show ?thesis
          unfolding served_def by (intro exI [of _ q] exI [of _ q1] exI [of _ cq]) simp
      qed
    qed
    have "set (sg_sstables (cx_segments cx1)) \<subseteq> insert (named_by (mos 0)) (set (sg_sstables (cx_segments cx)))"
      by (auto simp: store_record_fields(1) [OF s(8)] seg_put_def Let_def seg_flush_def mem_snapshot_and_clear_def
          sst_flush_def named_by_def split: if_splits)
    then show "files_within (named_by (mos 0)) (ua_service a) (ua_service a')"
      unfolding files_within_def using s(7,9) by (metis option.inject prod.inject subset_insertI)
  qed
qed

lemma upsert_one_next:
  assumes "upsert_one ev mos fresh kids ns nsr raw a = (Inr i, a')"
  shows "e_next (r_etcd (ig_router (ua_service a))) \<le> e_next (r_etcd (ig_router (ua_service a')))"
  using assms
proof (cases rule: upsert_one_steps)
  case (1 rec r rt st1 st2 st3 res y rt4)
  from 1(12) maybe_split_next have "e_next (r_etcd (ig_router st3)) \<le> e_next (r_etcd rt4)" by fastforce
  then show ?thesis
    using route_write_heap [OF 1(3)] get_or_create_next [OF 1(4)] store_primary_next [OF 1(5)]
      replicate_frame(1) [OF 1(6)]
    unfolding 1(7) by simp
qed

subsection \<open>A whole request\<close>

text \<open>No SSTable is named by a clock reading of the request, and no two steps name the same file.\<close>

definition fresh_names :: "clock \<Rightarrow> nat \<Rightarrow> nat \<Rightarrow> ('h, 'f) ingest \<Rightarrow> bool" where
  "fresh_names clk k n st \<longleftrightarrow>
     (\<forall>m m' j. k \<le> m \<longrightarrow> m < m' \<longrightarrow> m' \<le> n \<longrightarrow> named_by (clk m' j) \<noteq> named_by (clk m 0)) \<and>
     (\<forall>m j key r cx. k \<le> m \<longrightarrow> m \<le> n \<longrightarrow> dict_get (ig_shards st) key = Some (r, cx) \<longrightarrow> fresh_file (clk m j) cx)"

lemma fresh_namesD:
  "fresh_names clk k n st \<Longrightarrow> k \<le> m \<Longrightarrow> m \<le> n \<Longrightarrow> dict_get (ig_shards st) key = Some (r, cx) \<Longrightarrow>
   fresh_file (clk m j) cx"
  unfolding fresh_names_def by (elim conjE) blast

lemma fresh_names_step:
  assumes "fresh_names clk k n st" "files_within (named_by (clk k 0)) st st'"
  shows "fresh_names clk (Suc k) n st'"
  unfolding fresh_names_def
proof (intro conjI allI impI)
  show "named_by (clk m' j) \<noteq> named_by (clk m 0)" if "Suc k \<le> m" "m < m'" "m' \<le> n" for m m' j
    using assms(1) that by (simp add: fresh_names_def)
  fix m j key r cx assume m: "Suc k \<le> m" "m \<le> n" "dict_get (ig_shards st') key = Some (r, cx)"
  from m(3) assms(2) obtain r0 cx0 where c: "dict_get (ig_shards st) key = Some (r0, cx0)"
    "set (sg_sstables (cx_segments cx)) \<subseteq> insert (named_by (clk k 0)) (set (sg_sstables (cx_segments cx0)))"
    unfolding files_within_def by blast
  have "named_by (clk m j) \<noteq> named_by (clk k 0)" "fresh_file (clk m j) cx0"
    using assms(1) m(1,2) c(1) unfolding fresh_names_def by (simp, metis Suc_leD)
  with c(2) show "fresh_file (clk m j) cx" by (auto simp: fresh_named)
qed

lemma upsert_loop_errors:
  "length (ua_errors a) \<le> length (ua_errors (upsert_loop ev clk ids ns nsr k raws a))"
proof (induction raws arbitrary: a k)
  case (Cons raw raws)
  have "length (ua_errors a) \<le> length (ua_errors (upsert_caught ev (clk k) (fst (ids k)) (snd (ids k)) ns nsr raw a))"
  proof (cases "upsert_one ev (clk k) (fst (ids k)) (snd (ids k)) ns nsr raw a")
    case (Pair x a1)
    have "ua_errors a1 = ua_errors a"
      using Pair by (auto simp: upsert_one_def Let_def split: sum.splits prod.splits)
    with Pair show ?thesis by (simp add: upsert_caught_def split: sum.split)
  qed
  also have "\<dots> \<le> length (ua_errors (upsert_loop ev clk ids ns nsr k (raw # raws) a))" using Cons by simp
  finally show ?case .
qed simp

text \<open>A request without errors accepts its records one by one.\<close>

lemma upsert_loop_step:
  assumes "ua_errors (upsert_loop ev clk ids ns nsr k (raw # raws) a) = []"
  obtains i a1 where "upsert_one ev (clk k) (fst (ids k)) (snd (ids k)) ns nsr raw a = (Inr i, a1)"
    "upsert_loop ev clk ids ns nsr k (raw # raws) a = upsert_loop ev clk ids ns nsr (Suc k) raws a1"
proof -
  obtain x a1 where o1: "upsert_one ev (clk k) (fst (ids k)) (snd (ids k)) ns nsr raw a = (x, a1)" by fastforce
  show ?thesis
  proof (cases x)
    case (Inl e)
    then have "ua_errors (upsert_caught ev (clk k) (fst (ids k)) (snd (ids k)) ns nsr raw a) \<noteq> []"
      using o1 by (simp add: upsert_caught_def)
    then have "0 < length (ua_errors (upsert_caught ev (clk k) (fst (ids k)) (snd (ids k)) ns nsr raw a))" by simp
    also have "\<dots> \<le> length (ua_errors (upsert_loop ev clk ids ns nsr k (raw # raws) a))"
      using upsert_loop_errors by simp
    finally show ?thesis using assms by simp
  next
    case (Inr i)
    with o1 that show ?thesis by (simp add: upsert_caught_def)
  qed
qed

lemma upsert_loop_next:
  "ua_errors (upsert_loop ev clk ids ns nsr k raws a) = [] \<Longrightarrow>
   e_next (r_etcd (ig_router (ua_service a))) \<le>
   e_next (r_etcd (ig_router (ua_service (upsert_loop ev clk ids ns nsr k raws a))))"
proof (induction raws arbitrary: a k)
  case (Cons raw raws)
  from Cons.prems obtain i a1 where s: "upsert_one ev (clk k) (fst (ids k)) (snd (ids k)) ns nsr raw a = (Inr i, a1)"
    "upsert_loop ev clk ids ns nsr k (raw # raws) a = upsert_loop ev clk ids ns nsr (Suc k) raws a1"
    by (rule upsert_loop_step)
  from upsert_one_next [OF s(1)] Cons.IH [of "Suc k" a1] Cons.prems show ?case unfolding s(2) by simp
qed simp

text \<open>The record that a list of records leaves under an id.\<close>

definition last_of :: "vector_record list \<Rightarrow> string \<Rightarrow> vector_record option" where
  "last_of recs = map_of (rev (map (\<lambda>r. (vr_id r, r)) recs))"

lemma last_of_Cons: "last_of (r # recs) i = (case last_of recs i of None \<Rightarrow> if i = vr_id r then Some r else None | Some x \<Rightarrow> Some x)"
  by (auto simp: last_of_def map_add_def split: option.split)

lemma upsert_loop_served:
  assumes "ua_errors (upsert_loop ev clk ids ns nsr k raws a) = []" "writing ev ns rt0 (ua_service a)"
    and "distinct (ua_touched a)" "fresh_names clk k (k + length raws) (ua_service a)"
    and "\<forall>m rec. m < length raws \<longrightarrow>
      raw_record ev (mo_time (clk (k + m) 0)) (fst (ids (k + m))) ns nsr (raws ! m) = Inr rec \<longrightarrow>
      replica_codec (ie_codec ev) (Upsert rec)"
    and reps: "\<And>q. distinct (sh_replicas (e_heap (r_etcd rt0) q))"
    and "e_next (r_etcd (ig_router (ua_service (upsert_loop ev clk ids ns nsr k raws a)))) \<le>
      e_next (r_etcd (ig_router (ua_service a)))"
  shows "\<exists>recs. length recs = length raws \<and>
    (\<forall>m < length raws. raw_record ev (mo_time (clk (k + m) 0)) (fst (ids (k + m))) ns nsr (raws ! m) = Inr (recs ! m)) \<and>
    (let a' = upsert_loop ev clk ids ns nsr k raws a in
     ua_upserted a' = ua_upserted a @ map vr_id recs \<and> writing ev ns rt0 (ua_service a') \<and> distinct (ua_touched a') \<and>
     fresh_names clk (k + length raws) (k + length raws) (ua_service a') \<and>
     (\<forall>i rec. last_of recs i = Some rec \<or> last_of recs i = None \<and> served ev ns rt0 (ua_service a) i rec \<longrightarrow>
        served ev ns rt0 (ua_service a') i rec))"
  using assms(1-5,7)
proof (induction raws arbitrary: a k)
  case Nil
  then show ?case by (simp add: last_of_def)
next
  case (Cons raw raws)
  from Cons.prems(1) obtain i a1 where s: "upsert_one ev (clk k) (fst (ids k)) (snd (ids k)) ns nsr raw a = (Inr i, a1)"
    "upsert_loop ev clk ids ns nsr k (raw # raws) a = upsert_loop ev clk ids ns nsr (Suc k) raws a1"
    by (rule upsert_loop_step)
  have e1: "ua_errors (upsert_loop ev clk ids ns nsr (Suc k) raws a1) = []" using Cons.prems(1) s(2) by simp
  note mono = upsert_loop_next [OF e1] upsert_one_next [OF s(1)]
  have cd: "replica_codec (ie_codec ev) (Upsert rec)"
    if "raw_record ev (mo_time (clk k 0)) (fst (ids k)) ns nsr raw = Inr rec" for rec
    using spec [OF Cons.prems(5), of 0] that by simp
  have ff: "fresh_file (clk k 0) cx" if "dict_get (ig_shards (ua_service a)) key = Some (r, cx)" for key r cx
    using Cons.prems(4) that unfolding fresh_names_def by auto
  have nx: "e_next (r_etcd (ig_router (ua_service a1))) \<le> e_next (r_etcd (ig_router (ua_service a)))"
    using Cons.prems(6) mono(1) unfolding s(2) by simp
  obtain rec where o1: "raw_record ev (mo_time (clk k 0)) (fst (ids k)) ns nsr raw = Inr rec" "vr_id rec = i"
    "writing ev ns rt0 (ua_service a1)" "served ev ns rt0 (ua_service a1) i rec"
    "\<And>j rec'. j \<noteq> i \<Longrightarrow> served ev ns rt0 (ua_service a) j rec' \<Longrightarrow> served ev ns rt0 (ua_service a1) j rec'"
    "files_within (named_by (clk k 0)) (ua_service a) (ua_service a1)"
    by (rule upsert_one_served [OF s(1) Cons.prems(2) _ reps _ nx], erule cd, erule ff) (rule that; assumption)
  have t: "distinct (ua_touched a1)" "ua_upserted a1 = ua_upserted a @ [i]"
    using s(1) Cons.prems(3) by (auto elim!: upsert_one_steps simp: add_key_def)
  have fn: "fresh_names clk (Suc k) (Suc k + length raws) (ua_service a1)"
    using fresh_names_step [OF Cons.prems(4) o1(6)] by simp
  have n1: "e_next (r_etcd (ig_router (ua_service (upsert_loop ev clk ids ns nsr (Suc k) raws a1)))) \<le>
      e_next (r_etcd (ig_router (ua_service a1)))"
    using Cons.prems(6) mono(2) unfolding s(2) by simp
  have cds: "\<forall>m rec. m < length raws \<longrightarrow>
      raw_record ev (mo_time (clk (Suc k + m) 0)) (fst (ids (Suc k + m))) ns nsr (raws ! m) = Inr rec \<longrightarrow>
      replica_codec (ie_codec ev) (Upsert rec)"
  proof (intro allI)
    show "m < length raws \<longrightarrow>
      raw_record ev (mo_time (clk (Suc k + m) 0)) (fst (ids (Suc k + m))) ns nsr (raws ! m) = Inr rec \<longrightarrow>
      replica_codec (ie_codec ev) (Upsert rec)" for m rec
      using spec [OF Cons.prems(5), of "Suc m"] by simp
  qed
  from Cons.IH [OF e1 o1(3) t(1) fn cds n1] obtain recs where recs: "length recs = length raws"
    "\<forall>m < length raws. raw_record ev (mo_time (clk (Suc k + m) 0)) (fst (ids (Suc k + m))) ns nsr (raws ! m) = Inr (recs ! m)"
    "let a' = upsert_loop ev clk ids ns nsr (Suc k) raws a1 in
     ua_upserted a' = ua_upserted a1 @ map vr_id recs \<and> writing ev ns rt0 (ua_service a') \<and> distinct (ua_touched a') \<and>
     fresh_names clk (Suc k + length raws) (Suc k + length raws) (ua_service a') \<and>
     (\<forall>i rec. last_of recs i = Some rec \<or> last_of recs i = None \<and> served ev ns rt0 (ua_service a1) i rec \<longrightarrow>
        served ev ns rt0 (ua_service a') i rec)" by blast
  have parsed: "\<forall>m < length (raw # raws). raw_record ev (mo_time (clk (k + m) 0)) (fst (ids (k + m))) ns nsr ((raw # raws) ! m) =
      Inr ((rec # recs) ! m)"
    using o1(1) recs(2) by (auto simp: less_Suc_eq_0_disj)
  have carry: "served ev ns rt0 (ua_service a1) j rec'"
    if "last_of (rec # recs) j = Some rec' \<and> last_of recs j = None \<or>
        last_of (rec # recs) j = None \<and> served ev ns rt0 (ua_service a) j rec'" for j rec'
    using that o1(2,4,5) by (auto simp: last_of_Cons split: option.splits if_splits)
  show ?case
    unfolding s(2) Let_def
    by (rule exI [of _ "rec # recs"])
      (use recs(1,3) parsed t(2) o1(2) carry in \<open>auto simp: Let_def last_of_Cons split: option.splits\<close>)
qed

subsection \<open>Flushing and the background work\<close>

text \<open>What the open contexts show.\<close>

definition shows_of :: "codec \<Rightarrow> ('h, 'f) ingest \<Rightarrow> string \<Rightarrow> (string \<Rightarrow> vector_record option) option" where
  "shows_of cd st key = map_option (\<lambda>(r, cx). ctx_view cd cx) (dict_get (ig_shards st) key)"

definition readable :: "codec \<Rightarrow> ('h, 'f) ingest \<Rightarrow> bool" where
  "readable cd st \<longleftrightarrow> (\<forall>key r cx. dict_get (ig_shards st) key = Some (r, cx) \<longrightarrow> seg_inv cd (cx_segments cx))"

lemma served_shows:
  assumes "shows_of (ie_codec ev) st' = shows_of (ie_codec ev) st" "served ev ns rt0 st i rec"
  shows "served ev ns rt0 st' i rec"
proof -
  from assms(2) obtain r r1 cx where r:
    "\<forall>rt t. same_routing ns rt0 rt \<longrightarrow> fst (route (ie_sha ev) (ie_hash ev) t ns i rt) = Inr r"
    "dict_get (ig_shards st) (shard_key_of ns rt0 r) = Some (r1, cx)" "ctx_view (ie_codec ev) cx i = Some rec"
    unfolding served_def by blast
  have "shows_of (ie_codec ev) st' (shard_key_of ns rt0 r) = Some (ctx_view (ie_codec ev) cx)"
    unfolding assms(1) using r(2) by (simp add: shows_of_def)
  then obtain r2 cx2 where "dict_get (ig_shards st') (shard_key_of ns rt0 r) = Some (r2, cx2)"
    "ctx_view (ie_codec ev) cx2 = ctx_view (ie_codec ev) cx" by (auto simp: shows_of_def)
  with r show ?thesis unfolding served_def by (intro exI [of _ r] exI [of _ r2] exI [of _ cx2]) simp
qed

text \<open>Replacing a context by one that shows the same.\<close>

lemma shows_put:
  assumes "dict_get (ig_shards st) key = Some (r, cx)" "ctx_view cd cx1 = ctx_view cd cx"
  shows "shows_of cd (st\<lparr>ig_shards := dict_put key (r, cx1) (ig_shards st)\<rparr>) = shows_of cd st"
  using assms by (auto simp: shows_of_def fun_eq_iff map_of_dict_put)

lemma ctx_view_cong:
  "cx_segments cx1 = cx_segments cx \<Longrightarrow> cx_tombstones cx1 = cx_tombstones cx \<Longrightarrow> ctx_view cd cx1 = ctx_view cd cx"
  by (simp add: ctx_view_def fun_eq_iff)

lemma flush_touched_shows:
  assumes "flush_touched keys st = (x, st')"
  shows "shows_of cd st' = shows_of cd st \<and> ig_router st' = ig_router st \<and> (readable cd st \<longrightarrow> readable cd st') \<and>
    (\<forall>clk k n. fresh_names clk k n st \<longrightarrow> fresh_names clk k n st')"
  using assms
proof (induction keys arbitrary: st)
  case (Cons key keys)
  show ?case
  proof (cases "dict_get (ig_shards st) key")
    case None
    with Cons show ?thesis by simp
  next
    case (Some rc)
    obtain r cx where rc: "rc = (r, cx)" by (cases rc)
    obtain y cx1 where f: "flush_ctx cx = (y, cx1)" by fastforce
    have c: "cx_segments cx1 = cx_segments cx" "cx_tombstones cx1 = cx_tombstones cx"
      using flush_ctx_fields [OF f] by (metis shard_ctx.select_convs(3) shard_ctx.surjective shard_ctx.update_convs(2),
        metis shard_ctx.select_convs(7) shard_ctx.surjective shard_ctx.update_convs(2))
    let ?st = "st\<lparr>ig_shards := dict_put key (r, cx1) (ig_shards st)\<rparr>"
    have s: "shows_of cd ?st = shows_of cd st"
      by (rule shows_put [OF Some [unfolded rc] ctx_view_cong [OF c]])
    have g: "readable cd st \<longrightarrow> readable cd ?st" "\<forall>clk k n. fresh_names clk k n st \<longrightarrow> fresh_names clk k n ?st"
      using Some rc c by (auto simp: readable_def fresh_names_def fresh_file_def map_of_dict_put)
    show ?thesis
    proof (cases y)
      case (Inl e)
      with Cons.prems Some rc f s g show ?thesis by auto
    next
      case (Inr u)
      with Cons.prems Some rc f have "flush_touched keys ?st = (x, st')" by simp
      from Cons.IH [OF this] s g show ?thesis by simp
    qed
  qed
qed simp

lemma background_one_shows:
  assumes "seg_inv cd (cx_segments cx)" "fresh_file mo cx"
  shows "ctx_view cd (background_one cd mo cx) = ctx_view cd cx" "seg_inv cd (cx_segments (background_one cd mo cx))"
  using flush_view [OF assms(1), of "mo_ms mo" "mo_pid mo"] flush_inv [OF assms(1)] assms
  by (auto simp: background_one_def Let_def ctx_view_def fresh_file_def fun_eq_iff)

text \<open>The background work replaces each listed context, once.\<close>

lemma background_shards:
  assumes "distinct keys"
  shows "\<exists>j. dict_get (ig_shards (background cd mos keys st)) key =
    map_option (\<lambda>(r, cx). (r, if key \<in> set keys then background_one cd (mos j) cx else cx)) (dict_get (ig_shards st) key)"
proof -
  let ?f = "\<lambda>(j, key) st. case dict_get (ig_shards st) key of None \<Rightarrow> st
      | Some (r, cx) \<Rightarrow> st\<lparr>ig_shards := dict_put key (r, background_one cd (mos j) cx) (ig_shards st)\<rparr>"
  have run: "\<exists>j. dict_get (ig_shards (fold ?f jks st)) key =
      map_option (\<lambda>(r, cx). (r, if key \<in> snd ` set jks then background_one cd (mos j) cx else cx)) (dict_get (ig_shards st) key)"
    if "distinct (map snd jks)" for jks and st :: "('a, 'b) ingest"
    using that
  proof (induction jks arbitrary: st)
    case Nil
    show ?case by (cases "dict_get (ig_shards st) key") auto
  next
    case (Cons jk jks)
    obtain j k where jk: "jk = (j, k)" by (cases jk)
    have one: "dict_get (ig_shards (?f jk st)) key =
        map_option (\<lambda>(r, cx). (r, if key = k then background_one cd (mos j) cx else cx)) (dict_get (ig_shards st) key)"
      by (cases "dict_get (ig_shards st) key")
        (auto simp: jk map_of_dict_put split: option.split)
    have d: "distinct (map snd jks)" "k \<notin> snd ` set jks" using Cons.prems by (simp_all add: jk)
    from Cons.IH [OF d(1), of "?f jk st"] obtain j' where j': "dict_get (ig_shards (fold ?f (jk # jks) st)) key =
        map_option (\<lambda>(r, cx). (r, if key \<in> snd ` set jks then background_one cd (mos j') cx else cx))
          (dict_get (ig_shards (?f jk st)) key)" by auto
    show ?case
      unfolding j' one using d(2)
      by (cases "dict_get (ig_shards st) key") (auto simp: jk)
  qed
  have "snd ` set (zip [0..<length keys] keys) = set keys" by (simp flip: set_map add: map_snd_zip)
  moreover have "distinct (map snd (zip [0..<length keys] keys))" using assms by (simp add: map_snd_zip)
  ultimately show ?thesis using run [of "zip [0..<length keys] keys" st] by (simp add: background_def)
qed

lemma background_router: "ig_router (background cd mos keys st) = ig_router st"
proof -
  have "ig_router (fold (\<lambda>(j, key) st. case dict_get (ig_shards st) key of None \<Rightarrow> st
       | Some (r, cx) \<Rightarrow> st\<lparr>ig_shards := dict_put key (r, background_one cd (mos j) cx) (ig_shards st)\<rparr>) jks st)
     = ig_router st" for jks
    by (induction jks arbitrary: st) (auto split: option.split)
  then show ?thesis by (simp add: background_def)
qed

lemma background_shows:
  assumes "distinct keys" "readable cd st"
    and "\<And>j key r cx. dict_get (ig_shards st) key = Some (r, cx) \<Longrightarrow> fresh_file (mos j) cx"
  shows "shows_of cd (background cd mos keys st) = shows_of cd st \<and>
    ig_router (background cd mos keys st) = ig_router st \<and> readable cd (background cd mos keys st)"
proof (intro conjI background_router)
  have one: "ctx_view cd (background_one cd (mos j) cx) = ctx_view cd cx"
    "seg_inv cd (cx_segments (background_one cd (mos j) cx))" "seg_inv cd (cx_segments cx)"
    if "dict_get (ig_shards st) key = Some (r, cx)" for key r cx j
    using background_one_shows [OF _ assms(3) [OF that]] assms(2) that by (auto simp: readable_def)
  show "shows_of cd (background cd mos keys st) = shows_of cd st"
  proof
    fix key
    obtain j where "dict_get (ig_shards (background cd mos keys st)) key =
        map_option (\<lambda>(r, cx). (r, if key \<in> set keys then background_one cd (mos j) cx else cx)) (dict_get (ig_shards st) key)"
      using background_shards [OF assms(1)] by blast
    then show "shows_of cd (background cd mos keys st) key = shows_of cd st key"
      using one(1) by (cases "dict_get (ig_shards st) key") (auto simp: shows_of_def)
  qed
  show "readable cd (background cd mos keys st)"
    unfolding readable_def
  proof (intro allI impI)
    fix key r cx' assume "dict_get (ig_shards (background cd mos keys st)) key = Some (r, cx')"
    with background_shards [OF assms(1), of cd mos st key] one(2,3) show "seg_inv cd (cx_segments cx')"
      by (fastforce split: if_splits)
  qed
qed

lemma served_read:
  assumes "served ev ns rt0 st i rec" "same_routing ns rt0 (ig_router st)" "readable (ie_codec ev) st"
  shows "fst (get_one ev mos ns i st) = Inr (Some (to_payload (ie_isoformat ev) True rec))"
proof -
  from assms(1) obtain r r1 cx where r:
    "\<forall>rt t. same_routing ns rt0 rt \<longrightarrow> fst (route (ie_sha ev) (ie_hash ev) t ns i rt) = Inr r"
    "dict_get (ig_shards st) (shard_key_of ns rt0 r) = Some (r1, cx)" "ctx_view (ie_codec ev) cx i = Some rec"
    unfolding served_def by blast
  obtain rt where rt: "route (ie_sha ev) (ie_hash ev) (mo_time (mos 0)) ns i (ig_router st) = (Inr r, rt)"
    using r(1) assms(2) by (metis prod.collapse)
  obtain h where h: "r_etcd (ig_router st) = (r_etcd rt0)\<lparr>e_heap := h\<rparr>" "only_counts (e_heap (r_etcd rt0)) h"
    using assms(2) by (auto simp: same_routing_def)
  have c: "dict_get (ig_shards st) (ctx_key ns (sh_id (heap_shard st r))) = Some (r1, cx)"
    using r(2) by (simp add: heap_shard_def h(1) only_counts_fields [OF h(2)] shard_key_of_def)
  have inv: "seg_inv (ie_codec ev) (cx_segments cx)" using assms(3) c by (auto simp: readable_def)
  show ?thesis unfolding fetch_serves_view [where mos = mos, OF rt c inv] by (simp add: r(3))
qed

text \<open>An answered request that was not answered from the idempotency table, step by step.\<close>

lemma upsert_steps:
  assumes "upsert ev clk ids took ns raws idem st = (Inr res, st')"
    and "\<And>key. idem = Some key \<Longrightarrow> key \<noteq> [] \<and> dict_get (ig_idempotency st) key = None"
    and "dict_get (ig_namespaces st) ns = Some nsr"
    and "a = upsert_loop ev clk ids ns nsr 0 raws (start_acc st)"
  obtains st1 bg where "flush_touched (ua_touched a) (ua_service a) = (Inr (), st1)"
    "bg = background (ie_codec ev) (clk (length raws)) (ua_touched a) st1"
    "ur_ids res = ua_upserted a" "ur_errors res = ua_errors a" "ig_shards st' = ig_shards bg" "ig_router st' = ig_router bg"
proof -
  have new: "(case idem of None \<Rightarrow> None | Some key \<Rightarrow> if key = [] then None else dict_get (ig_idempotency st) key) = None"
    using assms(2) by (cases idem) auto
  have len: "length raws \<le> 10000"
    using assms(1,3) new by (auto simp: upsert_def split: if_splits)
  obtain x st1 where f: "flush_touched (ua_touched a) (ua_service a) = (x, st1)" by fastforce
  have a': "upsert_loop ev clk ids ns nsr 0 raws
      \<lparr>ua_service = st, ua_touched = [], ua_results = [], ua_upserted = [], ua_errors = []\<rparr> = a"
    by (simp add: assms(4) start_acc_def)
  from assms(1,3) new len f obtain u where x: "x = Inr u"
    by (cases x) (auto simp: upsert_def Let_def a')
  define bg where "bg = background (ie_codec ev) (clk (length raws)) (ua_touched a) st1"
  have "ur_ids res = ua_upserted a" "ur_errors res = ua_errors a"
    and "ig_shards st' = ig_shards bg" "ig_router st' = ig_router bg"
    using assms(1,3) new len f x by (auto simp: upsert_def Let_def a' bg_def split: option.splits if_splits)
  with f x that bg_def show ?thesis by simp
qed

lemma served_cong:
  "ig_shards st' = ig_shards st \<Longrightarrow> served ev ns rt0 st' i rec = served ev ns rt0 st i rec"
  "ig_shards st' = ig_shards st \<Longrightarrow> readable cd st' = readable cd st"
  by (simp_all add: served_def readable_def)

text \<open>The parts of an upsert request without errors.\<close>

lemma upsert_parts:
  assumes "upsert ev clk ids took ns raws idem st = (Inr res, st')" "ur_errors res = []"
    and "\<And>key. idem = Some key \<Longrightarrow> key \<noteq> [] \<and> dict_get (ig_idempotency st) key = None"
    and "dict_get (ig_namespaces st) ns = Some nsr" "service_ok ev st"
    and "\<And>t. cached_shards t ns (ig_router st) = list_by_namespace (r_etcd (ig_router st)) ns"
    and "all_open ns (ig_router st) st" "fresh_names clk 0 (length raws) st"
    and "\<And>m rec. m < length raws \<Longrightarrow> raw_record ev (mo_time (clk m 0)) (fst (ids m)) ns nsr (raws ! m) = Inr rec \<Longrightarrow>
      replica_codec (ie_codec ev) (Upsert rec)"
    and "\<And>q. distinct (sh_replicas (heap_shard st q))"
    and "e_next (r_etcd (ig_router st')) = e_next (r_etcd (ig_router st))"
  obtains a recs st1 where "a = upsert_loop ev clk ids ns nsr 0 raws (start_acc st)"
    "ua_errors a = []" "writing ev ns (ig_router st) st"
    "e_next (r_etcd (ig_router (ua_service a))) = e_next (r_etcd (ig_router st))"
    "length recs = length raws" "ur_ids res = map vr_id recs"
    "\<forall>m < length raws. raw_record ev (mo_time (clk m 0)) (fst (ids m)) ns nsr (raws ! m) = Inr (recs ! m)"
    "writing ev ns (ig_router st) (ua_service a)" "distinct (ua_touched a)"
    "\<And>i rec. last_of recs i = Some rec \<Longrightarrow> served ev ns (ig_router st) (ua_service a) i rec"
    "flush_touched (ua_touched a) (ua_service a) = (Inr (), st1)"
    "\<And>j key r cx. dict_get (ig_shards st1) key = Some (r, cx) \<Longrightarrow> fresh_file (clk (length raws) j) cx"
    "ig_shards st' = ig_shards (background (ie_codec ev) (clk (length raws)) (ua_touched a) st1)"
    "ig_router st' = ig_router (ua_service a)"
proof -
  define a where "a = upsert_loop ev clk ids ns nsr 0 raws (start_acc st)"
  obtain st1 bg where u: "flush_touched (ua_touched a) (ua_service a) = (Inr (), st1)"
    "bg = background (ie_codec ev) (clk (length raws)) (ua_touched a) st1"
    "ur_ids res = ua_upserted a" "ur_errors res = ua_errors a" "ig_shards st' = ig_shards bg" "ig_router st' = ig_router bg"
    by (rule upsert_steps [OF assms(1) _ assms(4) a_def], erule assms(3)) (rule that; assumption)
  note fl = flush_touched_shows [OF u(1), of "ie_codec ev"]
  have rt: "ig_router st' = ig_router (ua_service a)" using u(2,6) fl by (simp add: background_router)
  have srv: "ua_service (start_acc st) = st" "ua_touched (start_acc st) = []" "ua_upserted (start_acc st) = []"
    by (simp_all add: start_acc_def)
  have pre: "ua_errors (upsert_loop ev clk ids ns nsr 0 raws (start_acc st)) = []"
    "writing ev ns (ig_router st) (ua_service (start_acc st))" "distinct (ua_touched (start_acc st))"
    "fresh_names clk 0 (0 + length raws) (ua_service (start_acc st))"
    "\<forall>m rec. m < length raws \<longrightarrow>
      raw_record ev (mo_time (clk (0 + m) 0)) (fst (ids (0 + m))) ns nsr (raws ! m) = Inr rec \<longrightarrow>
      replica_codec (ie_codec ev) (Upsert rec)"
    "distinct (sh_replicas (e_heap (r_etcd (ig_router st)) q))"
    "e_next (r_etcd (ig_router (ua_service (upsert_loop ev clk ids ns nsr 0 raws (start_acc st))))) \<le>
      e_next (r_etcd (ig_router (ua_service (start_acc st))))" for q
    using assms(2,5-11) u(4) rt
    by (auto simp: a_def srv writing_def same_routing_def heap_shard_def
        intro!: exI [of _ "e_heap (r_etcd (ig_router st))"])
  obtain recs where recs: "length recs = length raws"
    "\<forall>m < length raws. raw_record ev (mo_time (clk m 0)) (fst (ids m)) ns nsr (raws ! m) = Inr (recs ! m)"
    "ua_upserted a = map vr_id recs" "writing ev ns (ig_router st) (ua_service a)" "distinct (ua_touched a)"
    "fresh_names clk (length raws) (length raws) (ua_service a)"
    "\<And>i rec. last_of recs i = Some rec \<Longrightarrow> served ev ns (ig_router st) (ua_service a) i rec"
    using upsert_loop_served [OF pre] by (simp only: Let_def add_0 a_def [symmetric] srv append_Nil) blast
  have fn: "fresh_names clk (length raws) (length raws) st1" using recs(6) fl by simp
  show thesis
  proof (rule that [OF a_def _ _ _ recs(1) _ recs(2,4,5,7) u(1) _ _ rt])
    show "fresh_file (clk (length raws) j) cx" if "dict_get (ig_shards st1) key = Some (r, cx)" for j key r cx
      by (rule fresh_namesD [OF fn order_refl order_refl that])
  qed (use assms(2,11) u(2-5) rt recs(3) pre(2) in \<open>simp_all add: srv\<close>)
qed

text \<open>
  After an upsert request without errors the contexts serve the last record of each id, and the router
  routes as before.
\<close>

lemma upsert_serves:
  assumes "upsert ev clk ids took ns raws idem st = (Inr res, st')" "ur_errors res = []"
    and "\<And>key. idem = Some key \<Longrightarrow> key \<noteq> [] \<and> dict_get (ig_idempotency st) key = None"
    and "dict_get (ig_namespaces st) ns = Some nsr" "service_ok ev st"
    and "\<And>t. cached_shards t ns (ig_router st) = list_by_namespace (r_etcd (ig_router st)) ns"
    and "all_open ns (ig_router st) st" "fresh_names clk 0 (length raws) st"
    and "\<And>m rec. m < length raws \<Longrightarrow> raw_record ev (mo_time (clk m 0)) (fst (ids m)) ns nsr (raws ! m) = Inr rec \<Longrightarrow>
      replica_codec (ie_codec ev) (Upsert rec)"
    and "\<And>q. distinct (sh_replicas (heap_shard st q))"
    and "e_next (r_etcd (ig_router st')) = e_next (r_etcd (ig_router st))"
  obtains recs where "length recs = length raws" "ur_ids res = map vr_id recs"
    "\<forall>m < length raws. raw_record ev (mo_time (clk m 0)) (fst (ids m)) ns nsr (raws ! m) = Inr (recs ! m)"
    "same_routing ns (ig_router st) (ig_router st')" "readable (ie_codec ev) st'"
    "\<And>i rec. last_of recs i = Some rec \<Longrightarrow> served ev ns (ig_router st) st' i rec"
proof -
  obtain a recs st1 where p: "a = upsert_loop ev clk ids ns nsr 0 raws (start_acc st)"
    "length recs = length raws" "ur_ids res = map vr_id recs"
    "\<forall>m < length raws. raw_record ev (mo_time (clk m 0)) (fst (ids m)) ns nsr (raws ! m) = Inr (recs ! m)"
    "writing ev ns (ig_router st) (ua_service a)" "distinct (ua_touched a)"
    "\<And>i rec. last_of recs i = Some rec \<Longrightarrow> served ev ns (ig_router st) (ua_service a) i rec"
    "flush_touched (ua_touched a) (ua_service a) = (Inr (), st1)"
    "\<And>j key r cx. dict_get (ig_shards st1) key = Some (r, cx) \<Longrightarrow> fresh_file (clk (length raws) j) cx"
    "ig_shards st' = ig_shards (background (ie_codec ev) (clk (length raws)) (ua_touched a) st1)"
    "ig_router st' = ig_router (ua_service a)"
    by (rule upsert_parts [OF assms(1,2) _ assms(4-8) _ assms(10,11)], erule assms(3), erule assms(9), assumption)
      (rule that; assumption)
  let ?bg = "background (ie_codec ev) (clk (length raws)) (ua_touched a) st1"
  note fl = flush_touched_shows [OF p(8), of "ie_codec ev"]
  have r1: "readable (ie_codec ev) st1"
    using p(5) fl by (auto simp: writing_def service_ok_def readable_def)
  have bg: "shows_of (ie_codec ev) ?bg = shows_of (ie_codec ev) st1 \<and> readable (ie_codec ev) ?bg"
    using background_shows [OF p(6) r1, of "clk (length raws)"] p(9) by blast
  have same: "shows_of (ie_codec ev) ?bg = shows_of (ie_codec ev) (ua_service a)" using fl bg by simp
  show thesis
  proof (rule that [OF p(2-4)])
    show "served ev ns (ig_router st) st' i rec" if "last_of recs i = Some rec" for i rec
      using served_shows [OF same p(7) [OF that]] served_cong(1) [OF p(10)] by simp
    show "same_routing ns (ig_router st) (ig_router st')" using p(5,11) by (simp add: writing_def)
    show "readable (ie_codec ev) st'" using bg served_cong(2) [OF p(10)] by simp
  qed
qed

lemma fetch_one_served:
  assumes "served ev ns rt0 st i rec" "same_routing ns rt0 (ig_router st)" "readable (ie_codec ev) st"
  obtains rt where "same_routing ns rt0 rt"
    "fetch_loop ev mos ns k (i # is) out st =
       fetch_loop ev mos ns (Suc k) is (out @ [to_payload (ie_isoformat ev) True rec]) (st\<lparr>ig_router := rt\<rparr>)"
proof -
  from assms(1) obtain r r1 cx where r:
    "\<forall>rt t. same_routing ns rt0 rt \<longrightarrow> fst (route (ie_sha ev) (ie_hash ev) t ns i rt) = Inr r"
    "dict_get (ig_shards st) (shard_key_of ns rt0 r) = Some (r1, cx)" "ctx_view (ie_codec ev) cx i = Some rec"
    unfolding served_def by blast
  obtain rt where rt: "route (ie_sha ev) (ie_hash ev) (mo_time (mos k)) ns i (ig_router st) = (Inr r, rt)"
    using r(1) assms(2) by (metis prod.collapse)
  then obtain x where "select_shard (ie_sha ev) (ie_hash ev) (mo_time (mos k)) ns i (ig_router st) = (x, rt)"
    by (auto simp: route_def Let_def split: prod.splits sum.splits if_splits)
  note same = select_keeps_routing [OF assms(2) this]
  obtain h where h: "r_etcd rt = (r_etcd rt0)\<lparr>e_heap := h\<rparr>" "only_counts (e_heap (r_etcd rt0)) h"
    using same by (auto simp: same_routing_def)
  have c: "dict_get (ig_shards st) (ctx_key ns (sh_id (heap_shard (st\<lparr>ig_router := rt\<rparr>) r))) = Some (r1, cx)"
    using r(2) by (simp add: heap_shard_def h(1) only_counts_fields [OF h(2)] shard_key_of_def)
  then have "get_or_create_ctx ev (mos k) ns r (st\<lparr>ig_router := rt\<rparr>) =
      (Inr (ctx_key ns (sh_id (heap_shard (st\<lparr>ig_router := rt\<rparr>) r))), st\<lparr>ig_router := rt\<rparr>)"
    by (simp add: get_or_create_ctx_def Let_def)
  moreover have "seg_inv (ie_codec ev) (cx_segments cx)" using assms(3) c by (auto simp: readable_def)
  ultimately show thesis
    using rt c r(3) by (intro that [OF same]) (auto simp: seg_get_view ctx_view_def split: if_splits)
qed

lemma fetch_served:
  "\<forall>i \<in> set is. served ev ns rt0 st i (f i) \<Longrightarrow> same_routing ns rt0 (ig_router st) \<Longrightarrow> readable (ie_codec ev) st \<Longrightarrow>
   fst (fetch_loop ev mos ns k is out st) = Inr (out @ map (\<lambda>i. to_payload (ie_isoformat ev) True (f i)) is)"
proof (induction "is" arbitrary: k out st)
  case (Cons i "is")
  have "served ev ns rt0 st i (f i)" using Cons.prems(1) by simp
  then obtain rt where rt: "same_routing ns rt0 rt" "fetch_loop ev mos ns k (i # is) out st =
       fetch_loop ev mos ns (Suc k) is (out @ [to_payload (ie_isoformat ev) True (f i)]) (st\<lparr>ig_router := rt\<rparr>)"
    by (rule fetch_one_served [OF _ Cons.prems(2,3)])
  have "\<forall>i \<in> set is. served ev ns rt0 (st\<lparr>ig_router := rt\<rparr>) i (f i)" "readable (ie_codec ev) (st\<lparr>ig_router := rt\<rparr>)"
    using Cons.prems(1,3) by (simp_all add: served_cong [of "st\<lparr>ig_router := rt\<rparr>" st])
  with Cons.IH [of "st\<lparr>ig_router := rt\<rparr>" "Suc k"] rt show ?case by (simp del: fetch_loop.simps)
qed simp

subsection \<open>Properties\<close>


subsection \<open>A concrete request\<close>

definition write_clock :: clock where
  "write_clock k j = demo_moment k"

lemma write_fresh: "fresh_names write_clock 0 n open_service"
proof -
  have "sst_name k 8 \<noteq> sst_name 1 7" for k
    by (auto simp: sst_name_def nat_str.simps [of 8] nat_str.simps [of 7] digit_char_def dest!: arg_cong [where f = last])
  then show ?thesis
    using demo_ctx_ready(2)
    by (auto simp: fresh_names_def fresh_file_def named_by_def write_clock_def demo_moment_def sst_name_def nat_str_inj
        open_service_def demo_service_def new_ingest_def split: if_splits)
qed

lemma write_open:
  "cached_shards t ''ns'' svc_router = list_by_namespace (r_etcd svc_router) ''ns''"
  "all_open ''ns'' svc_router open_service"
  by (simp_all add: svc_simps get_shards_cached_def Let_def all_open_def shard_key_of_def list_by_namespace_def
      open_service_def ctx_key_def)

lemma demo_stored:
  assumes "store_record demo_libs demo_codec (demo_moment 0) (demo_record ''b'' ''y'') demo_ctx = (x, cx)"
  shows "\<exists>cx'. flush_ctx cx = (Inr (), cx')"
proof -
  have "encodable (new_entry 0 (encode (cd_dump_json demo_codec (demo_record ''b'' ''y''))) 0)"
    by (simp add: encodable_def new_entry_def demo_codec_def demo_record_def encode_def)
  then show ?thesis
    using store_record_fields(3) [OF assms]
    by (simp add: flush_ctx_def wal_flush_def wal_append_def wal_open_def open_segment_def demo_ctx_def demo_moment_def)
qed

lemma over_write_one:
  assumes sr: "store_record demo_libs demo_codec (demo_moment 0) (demo_record ''b'' ''y'') cx0 = (Inr (), cx1)"
    and fl: "flush_ctx cx1 = (Inr (), cx2)"
  obtains a q where
    "upsert_one demo_env (write_clock 0) ''f'' (''x'', ''y'') ''ns'' demo_namespace demo_raw (start_acc (demo_over cx0)) = (Inr ''b'', a)"
    "ua_errors a = []" "ua_upserted a = [''b'']" "ua_touched a = [''ns:s1'']"
    "e_next (r_etcd (ig_router (ua_service a))) = 1"
    "dict_get (ig_shards (ua_service a)) ''ns:s1'' = Some (q, cx1)"
proof -
  have mo: "write_clock 0 = (\<lambda>j. demo_moment 0)" and now: "mo_time (demo_moment 0) = 0"
    by (simp_all add: write_clock_def fun_eq_iff demo_moment_def)
  obtain a where a: "upsert_one demo_env (write_clock 0) ''f'' (''x'', ''y'') ''ns'' demo_namespace demo_raw
      (start_acc (demo_over cx0)) = (Inr ''b'', a)" using over_upsert_one [OF sr] unfolding mo by blast
  have srv: "ua_service (start_acc (demo_over cx0)) = (demo_over cx0)" "ua_touched (start_acc (demo_over cx0)) = []"
    "ua_upserted (start_acc (demo_over cx0)) = []" "ua_errors (start_acc (demo_over cx0)) = []"
    by (simp_all add: start_acc_def)
  from a show thesis
  proof (cases rule: upsert_one_steps)
    case (1 rec r rt st1 st2 st3 res y rt4)
    note 1 = 1 [unfolded mo srv now demo_over_fields]
    have rec: "rec = demo_record ''b'' ''y''" using 1(1) demo_raw_record by simp
    obtain rt' where "route_write (ie_sha demo_env) (ie_hash demo_env) 0 ''ns'' ''b'' None svc_router = (Inr 0, rt')"
      "r_etcd rt' = r_etcd svc_router" using svc_route(1) by blast
    with 1(3) have r: "r = 0" "r_etcd rt = r_etcd svc_router" by simp_all
    have st: "heap_shard (demo_over cx0\<lparr>ig_router := rt\<rparr>) q = svc_shard"
      "dict_get (ig_shards (demo_over cx0\<lparr>ig_router := rt\<rparr>)) ''ns:s1'' = Some (0, cx0)" for q
      using r(2) demo_over_fields by (simp_all add: heap_shard_def)
    have st1: "y = ''ns:s1''" "st1 = (demo_over cx0)\<lparr>ig_router := rt\<rparr>"
      using 1(4) demo_context [OF st] unfolding r(1) by simp_all
    have st2: "dict_get (ig_shards st2) ''ns:s1'' = Some (0, cx1)" "heap_shard st2 0 = count_vector svc_shard"
      using 1(5) st sr unfolding st1 rec r(1)
      by (auto simp: store_primary_def demo_env_def Let_def map_of_dict_put split: sum.splits)
    note fr = replicate_frame [OF 1(6)]
    have "e_heap (r_etcd (ig_router st3)) 0 = count_vector svc_shard"
      using fr(1) st2(2) by (simp add: heap_shard_def)
    then have rt4: "rt4 = ig_router st3"
      using 1(12) unfolding r(1)
      by (auto simp: maybe_split_def Let_def should_split_def count_vector_def svc_shard_def new_shard_def
          default_max_vectors_def)
    have "e_next (r_etcd (ig_router st3)) = 1"
      using fr(1) store_primary_next [OF 1(5)] r(2) by (simp add: st1 svc_router_def new_router_def)
    then show thesis
      using a 1(7-11) fr(2) st2(1) rt4 st1(1) by (intro that [of a 0]) (simp_all add: add_key_def)
  qed
qed

lemma over_write:
  assumes sr: "store_record demo_libs demo_codec (demo_moment 0) (demo_record ''b'' ''y'') cx0 = (Inr (), cx1)"
    and fl: "flush_ctx cx1 = (Inr (), cx2)"
  obtains res st' where
    "upsert demo_env write_clock (\<lambda>k. (''f'', ''x'', ''y'')) 1 ''ns'' [demo_raw] None (demo_over cx0) = (Inr res, st')"
    "ur_errors res = []" "ur_ids res = [''b'']" "e_next (r_etcd (ig_router st')) = 1"
proof -
  obtain a q where a:
    "upsert_one demo_env (write_clock 0) ''f'' (''x'', ''y'') ''ns'' demo_namespace demo_raw (start_acc (demo_over cx0)) = (Inr ''b'', a)"
    "ua_errors a = []" "ua_upserted a = [''b'']" "ua_touched a = [''ns:s1'']"
    "e_next (r_etcd (ig_router (ua_service a))) = 1"
    "dict_get (ig_shards (ua_service a)) ''ns:s1'' = Some (q, cx1)"
    by (rule over_write_one [OF assms])
  have "upsert_caught demo_env (write_clock 0) ''f'' (''x'', ''y'') ''ns'' demo_namespace demo_raw
     \<lparr>ua_service = (demo_over cx0), ua_touched = [], ua_results = [], ua_upserted = [], ua_errors = []\<rparr> = a"
    using a(1) by (simp add: upsert_caught_def start_acc_def)
  note one = this
  obtain x st' where u: "upsert demo_env write_clock (\<lambda>k. (''f'', ''x'', ''y'')) 1 ''ns'' [demo_raw] None (demo_over cx0) = (x, st')"
    by fastforce
  with a fl one obtain res where "x = Inr res" "ur_errors res = []" "ur_ids res = [''b'']" "e_next (r_etcd (ig_router st')) = 1"
    by (auto simp: upsert_def Let_def demo_over_fields background_router)
  with u that show thesis by simp
qed

lemma demo_write:
  obtains res st' where
    "upsert demo_env write_clock (\<lambda>k. (''f'', ''x'', ''y'')) 1 ''ns'' [demo_raw] None open_service = (Inr res, st')"
    "ur_errors res = []" "ur_ids res = [''b'']" "e_next (r_etcd (ig_router st')) = 1"
proof -
  obtain cx1 where sr: "store_record demo_libs demo_codec (demo_moment 0) (demo_record ''b'' ''y'') demo_ctx = (Inr (), cx1)"
    using demo_stores by blast
  then obtain cx2 where "flush_ctx cx1 = (Inr (), cx2)" using demo_stored by blast
  from over_write [OF sr this] that show thesis unfolding demo_over_ctx by blast
qed


subsection \<open>Reading after a deletion\<close>

text \<open>What the requests keep that reads of the namespace rely on.\<close>

definition reading :: "('h, 'f) ienv \<Rightarrow> string \<Rightarrow> router \<Rightarrow> ('h, 'f) ingest \<Rightarrow> bool" where
  "reading ev ns rt0 st \<longleftrightarrow>
     same_routing ns rt0 (ig_router st) \<and> readable (ie_codec ev) st \<and> opens_well ev (ig_disk st)"

lemma get_or_create_reading:
  assumes "get_or_create_ctx ev mo n r st = (x, st1)" "reading ev ns rt0 st"
  shows "reading ev ns rt0 st1"
proof (cases "dict_get (ig_shards st) (ctx_key n (sh_id (heap_shard st r)))")
  case (Some rc)
  with assms show ?thesis by (auto simp: get_or_create_ctx_def Let_def)
next
  case None
  show ?thesis
  proof (cases "dict_get (ig_namespaces st) n")
    case None': None
    with None assms show ?thesis by (auto simp: get_or_create_ctx_def Let_def)
  next
    case (Some nsr)
    obtain y s1 where o: "open_ctx (ie_libs ev) (ie_codec ev) mo (ig_base st) (heap_shard st r) nsr (ig_disk st) = (y, s1)"
      by fastforce
    have c: "same_routing ns rt0 (ig_router (set_shard r s1 st))"
      using assms(2) by (auto simp: reading_def intro: set_shard_routing [OF _ open_ctx_shard [OF o]])
    have "seg_inv (ie_codec ev) (cx_segments cx)" if "y = Inr cx" for cx
      using assms(2) o that by (auto simp: reading_def intro: opens_wellD)
    with None Some assms o c show ?thesis
      by (auto simp: get_or_create_ctx_def Let_def reading_def readable_def store_simps split: sum.splits if_splits)
  qed
qed

lemma delete_id_reading:
  assumes "reading ev ns rt0 (da_service a)"
  shows "reading ev ns rt0 (da_service (delete_id ev mos b n nsr r key i a))"
proof (cases "dict_get (ig_shards (da_service a)) key")
  case None
  with assms show ?thesis by (simp add: delete_id_def)
next
  case (Some rc)
  obtain r1 cx where rc: "rc = (r1, cx)" by (cases rc)
  let ?st1 = "(da_service a)\<lparr>ig_shards := dict_put key
      (r1, tombstone (ie_libs ev) (ie_codec ev) (mos 0) b i cx) (ig_shards (da_service a))\<rparr>"
  obtain res st2 where rp: "replicate ev mos n (heap_shard ?st1 r) (ns_required_acks nsr) (Delete i) ?st1 = (res, st2)"
    by fastforce
  note fr = replicate_frame [OF rp]
  have "seg_inv (ie_codec ev) (cx_segments cx)" using assms Some rc by (auto simp: reading_def readable_def)
  then have "seg_inv (ie_codec ev) (cx_segments (tombstone (ie_libs ev) (ie_codec ev) (mos 0) b i cx))"
    using mem_delete_view(1) by (simp add: tombstone_fields)
  with assms Some rc rp fr(1,2,4) show ?thesis
    by (auto simp: delete_id_def Let_def reading_def readable_def store_simps split: if_splits)
qed

lemma delete_ids_reading:
  "delete_ids ev clk n nsr r key k is a = (x, k', a') \<Longrightarrow> reading ev ns rt0 (da_service a) \<Longrightarrow>
   reading ev ns rt0 (da_service a')"
proof (induction "is" arbitrary: k a)
  case (Cons i "is")
  show ?case
  proof (cases "case dict_get (ig_shards (da_service a)) key of None \<Rightarrow> Inr None
      | Some (r1, cx) \<Rightarrow> seg_get (ie_codec ev) (cx_segments cx) i")
    case (Inl e)
    with Cons.prems show ?thesis by simp
  next
    case (Inr y)
    with Cons.prems(1) have run: "delete_ids ev clk n nsr r key (Suc k) is (delete_id ev (clk k) True n nsr r key i a) = (x, k', a')"
      by simp
    show ?thesis by (rule Cons.IH [OF run delete_id_reading [OF Cons.prems(2)]])
  qed
qed simp

lemma delete_loop_reading:
  assumes "delete_loop ev clk n nsr del f k rs a = (x, a')" "reading ev ns rt0 (da_service a)" "del \<noteq> []"
  shows "reading ev ns rt0 (da_service a')"
  using assms
proof (induction rs arbitrary: k a)
  case (Cons r rs)
  obtain y k1 a1 where d: "delete_in_shard ev clk n nsr del f k r a = (y, k1, a1)" by (metis prod_cases3)
  obtain z st where gc: "get_or_create_ctx ev (clk k 0) n r (da_service a) = (z, st)" by fastforce
  have r1: "reading ev ns rt0 st" by (rule get_or_create_reading [OF gc Cons.prems(2)])
  have ra: "reading ev ns rt0 (da_service a1)"
  proof (cases z)
    case (Inl e)
    with d gc r1 show ?thesis by (auto simp: delete_in_shard_def)
  next
    case (Inr key)
    with d gc Cons.prems(3) have "delete_ids ev clk n nsr r key (Suc k) del (a\<lparr>da_service := st\<rparr>) = (y, k1, a1)"
      by (simp add: delete_in_shard_def Let_def)
    from delete_ids_reading [OF this] r1 show ?thesis by simp
  qed
  show ?case
  proof (cases y)
    case (Inl e)
    with Cons.prems(1) d ra show ?thesis by simp
  next
    case (Inr u)
    with Cons.prems(1) d have "delete_loop ev clk n nsr del f k1 rs a1 = (x, a')" by simp
    from Cons.IH [OF this ra Cons.prems(3)] show ?thesis .
  qed
qed simp

lemma writable_loop_all: "writable_loop h n l rs out = Inr xs \<Longrightarrow> xs = out @ rs"
  by (induction rs arbitrary: out) (fastforce split: if_splits sum.splits option.splits)+

lemma route_listed:
  assumes "same_routing ns rt0 rt" "route sha hash t ns i rt = (Inr r, rt1)"
  shows "r \<in> set (list_by_namespace (r_etcd rt0) ns)"
proof -
  have "select_shard sha hash t ns i rt = (Inr r, rt1)"
    using assms(2) by (auto simp: route_def Let_def split: prod.splits sum.splits if_splits)
  from select_listed [OF this] assms(1) show ?thesis by (simp add: same_routing_def)
qed

lemma flush_touched_disk: "flush_touched keys st = (x, st') \<Longrightarrow> ig_disk st' = ig_disk st"
  by (induction keys arbitrary: st) (auto split: option.splits prod.splits sum.splits)

lemma route_same:
  assumes "same_routing ns rt0 rt" "same_routing ns rt0 rt'"
  shows "fst (route sha hash t ns i rt') = fst (route sha hash t ns i rt)"
proof -
  have r: "fst (route sha hash t ns i rt2) =
      (case fst (select_shard sha hash t ns i rt2) of
         Inl e \<Rightarrow> Inl e
       | Inr r \<Rightarrow> if sh_state (e_heap (r_etcd rt0) r) \<notin> readable_states then Inl (state_error (e_heap (r_etcd rt0) r))
           else (case validate_owner rt0 (e_heap (r_etcd rt0) r) of Inl e \<Rightarrow> Inl e | Inr _ \<Rightarrow> Inr r))"
    if "same_routing ns rt0 rt2" for rt2
  proof -
    obtain x rt3 where s: "select_shard sha hash t ns i rt2 = (x, rt3)" by fastforce
    have r3: "same_routing ns rt0 rt3" by (rule select_keeps_routing [OF that s])
    then obtain h where h: "r_etcd rt3 = (r_etcd rt0)\<lparr>e_heap := h\<rparr>" "only_counts (e_heap (r_etcd rt0)) h"
      by (auto simp: same_routing_def)
    have f: "state_error (h r) = state_error (e_heap (r_etcd rt0) r)" "sh_state (h r) = sh_state (e_heap (r_etcd rt0) r)"
      "validate_owner rt3 (h r) = validate_owner rt0 (e_heap (r_etcd rt0) r)" for r
      using owner_valid_same [OF r3, of r] h(1) by (simp_all add: state_error_def only_counts_fields [OF h(2)])
    show ?thesis using s h(1) f by (simp add: route_def Let_def split: sum.split)
  qed
  have "fst (select_shard sha hash t ns i rt') = fst (select_shard sha hash t ns i rt)"
    unfolding select_place [OF assms(1)] select_place [OF assms(2)] ..
  then show ?thesis unfolding r [OF assms(1)] r [OF assms(2)] by simp
qed

text \<open>An answered deletion by ids, step by step.\<close>

lemma delete_steps:
  assumes "ingest_delete ev clk now ns del f st = (Inr res, st')"
  obtains nsr shards rt a where "writable now ns (ig_node_id st) (ig_router st) = (Inr shards, rt)"
    "delete_loop ev clk ns nsr del f 0 shards
       \<lparr>da_service = st\<lparr>ig_router := rt\<rparr>, da_touched = [], da_results = [], da_deleted = 0\<rparr> = (Inr (), a)"
    "flush_touched (da_touched a) (da_service a) = (Inr (), st')"
  using assms that
  by (auto simp: ingest_delete_def split: option.splits prod.splits sum.splits)

text \<open>
  C9: what is deleted is not read. On a service whose listing of the namespace is not stale, after an answered
  deletion by ids a point read of any of them, at any time, finds nothing; it fails exactly where the
  routing of the id fails, and the routing is the one before the deletion.
\<close>

theorem deleted_ids_unreadable:
  assumes "ingest_delete ev clk now ns del f st = (Inr res, st')" "i \<in> set del" "service_ok ev st"
    and "\<And>t. cached_shards t ns (ig_router st) = list_by_namespace (r_etcd (ig_router st)) ns"
  shows "fst (get_one ev mos ns i st') =
    (case fst (route (ie_sha ev) (ie_hash ev) (mo_time (mos 0)) ns i (ig_router st)) of
       Inl e \<Rightarrow> Inl e | Inr r \<Rightarrow> Inr None)"
proof -
  let ?rt0 = "ig_router st"
  obtain nsr shards rt a where d: "writable now ns (ig_node_id st) ?rt0 = (Inr shards, rt)"
    "delete_loop ev clk ns nsr del f 0 shards
       \<lparr>da_service = st\<lparr>ig_router := rt\<rparr>, da_touched = [], da_results = [], da_deleted = 0\<rparr> = (Inr (), a)"
    "flush_touched (da_touched a) (da_service a) = (Inr (), st')"
    by (rule delete_steps [OF assms(1)])
  let ?a0 = "\<lparr>da_service = st\<lparr>ig_router := rt\<rparr>, da_touched = [], da_results = [], da_deleted = 0\<rparr>"
  have r0: "same_routing ns ?rt0 ?rt0"
    using assms(4) by (auto simp: same_routing_def intro!: exI [of _ "e_heap (r_etcd ?rt0)"])
  obtain L rt1 where c: "get_shards_cached now ns ?rt0 = (L, rt1)" by fastforce
  note cr = cached_keeps_routing [OF r0 c]
  have w: "shards = L" "rt = rt1" using d(1) c by (auto simp: writable_def Let_def dest: writable_loop_all)
  have ne: "del \<noteq> []" using assms(2) by auto
  have "reading ev ns ?rt0 (da_service ?a0)"
    using assms(3) cr(1) w(2) by (auto simp: reading_def service_ok_def readable_def)
  from delete_loop_reading [OF d(2) this ne] have ra: "reading ev ns ?rt0 (da_service a)" .
  note fl = flush_touched_shows [OF d(3), of "ie_codec ev"] and disk = flush_touched_disk [OF d(3)]
  have rs: "reading ev ns ?rt0 st'" using ra fl disk by (simp add: reading_def)
  have rst: "same_routing ns ?rt0 (ig_router st')" using rs by (simp add: reading_def)
  note same = route_same [OF r0 rst, of "ie_sha ev" "ie_hash ev" "mo_time (mos 0)" i]
  have t0: "\<forall>key \<in> set (da_touched ?a0). dict_get (ig_shards (da_service ?a0)) key \<noteq> None" by simp
  note e = delete_loop_effect [OF d(2) ne t0]
  obtain x rt2 where x: "route (ie_sha ev) (ie_hash ev) (mo_time (mos 0)) ns i (ig_router st') = (x, rt2)" by fastforce
  show ?thesis
  proof (cases x)
    case (Inl e)
    then have "fst (route (ie_sha ev) (ie_hash ev) (mo_time (mos 0)) ns i (ig_router st)) = Inl e" using x same by simp
    with x Inl show ?thesis by (simp add: get_one_def fetch_def)
  next
    case (Inr r)
    note x = x [unfolded Inr]
    have r: "r \<in> set shards" using route_listed [OF rst x] cr(2) w(1) by simp
    have ids: "sh_id (heap_shard st' q) = sh_id (e_heap (r_etcd ?rt0) q)"
      "sh_id (heap_shard (da_service ?a0) q) = sh_id (e_heap (r_etcd ?rt0) q)" for q
      using rst cr(1) w(2) by (auto simp: heap_shard_def same_routing_def only_counts_fields)
    have "hidden (da_service a) (ctx_key ns (sh_id (heap_shard (da_service ?a0) r))) i"
      using e r assms(2) by (auto simp: Let_def)
    then have "hidden st' (ctx_key ns (sh_id (heap_shard st' r))) i"
      using flush_touched_hidden [OF d(3)] unfolding ids by blast
    then obtain r1 cx where cx: "dict_get (ig_shards st') (ctx_key ns (sh_id (heap_shard st' r))) = Some (r1, cx)"
      "i \<in> set (cx_tombstones cx)" unfolding hidden_def by blast
    have inv: "seg_inv (ie_codec ev) (cx_segments cx)" using rs cx(1) by (auto simp: reading_def readable_def)
    have "ctx_view (ie_codec ev) cx i = None" using cx(2) by (simp add: ctx_view_def)
    moreover have "fst (route (ie_sha ev) (ie_hash ev) (mo_time (mos 0)) ns i (ig_router st)) = Inr r"
      using x same by simp
    ultimately show ?thesis
      unfolding fetch_serves_view [where mos = mos, OF x cx(1) inv] by simp
  qed
qed

lemma deleted_ids_unreadable_witness:
  "\<exists>res st'. ingest_delete demo_env (\<lambda>k j. demo_moment 2) 0 ''ns'' [''a''] [] open_service = (Inr res, st') \<and>
     (\<forall>mos. fst (get_one demo_env mos ''ns'' ''a'' st') = Inr None)"
proof -
  let ?ev = demo_env and ?mo = "demo_moment 2" and ?mos = "\<lambda>j :: nat. demo_moment 2"
  obtain rt where rt: "writable 0 ''ns'' None svc_router = (Inr [0], rt)" "r_etcd rt = r_etcd svc_router"
    using svc_writable by blast
  let ?st = "open_service\<lparr>ig_router := rt\<rparr>"
  let ?a0 = "\<lparr>da_service = ?st, da_touched = [], da_results = [], da_deleted = 0\<rparr> :: (unit, unit) delete_acc"
  let ?T = "tombstone demo_libs demo_codec ?mo True ''a'' demo_ctx"
  let ?D = "delete_id ?ev ?mos True ''ns'' demo_namespace 0 ''ns:s1'' ''a'' ?a0"
  have st: "heap_shard ?st q = svc_shard" "dict_get (ig_shards ?st) ''ns:s1'' = Some (0, demo_ctx)" for q
    using rt(2) open_service_fields by (simp_all add: heap_shard_def)
  have gc: "get_or_create_ctx ?ev ?mo ''ns'' 0 ?st = (Inr ''ns:s1'', ?st)"
    by (rule demo_context [OF st])
  have s1: "dict_get (ig_shards (da_service ?D)) ''ns:s1'' = Some (0, ?T)"
    by (rule demo_delete_one) (use st in simp)
  have cd: "ie_codec ?ev = demo_codec" by (simp add: demo_env_def)
  have ids: "delete_ids ?ev (\<lambda>k j. ?mo) ''ns'' demo_namespace 0 ''ns:s1'' 1 [''a''] ?a0 = (Inr (), 2, ?D)"
    using st(2) seg_get_view [OF demo_ctx_ready(1), of "''a''"] by (simp add: cd)
  have loop: "delete_loop ?ev (\<lambda>k j. ?mo) ''ns'' demo_namespace [''a''] [] 0 [0] ?a0 = (Inr (), ?D)"
    using gc ids by (simp add: delete_in_shard_def Let_def del: delete_ids.simps)
  have touched: "da_touched ?D = [''ns:s1'']"
    using st(2) by (auto simp: delete_id_def Let_def add_key_def split: prod.splits)
  have "encodable (new_entry 2 (cd_dumps demo_codec (delete_envelope ''a'')) 0)"
    by (simp add: encodable_def new_entry_def demo_codec_def delete_envelope_def encode_def)
  then obtain cx' where fl: "flush_ctx ?T = (Inr (), cx')"
    by (auto simp: flush_ctx_def wal_flush_def wal_append_def wal_open_def open_segment_def tombstone_fields
        demo_moment_def demo_ctx_def)
  obtain res st' where del: "ingest_delete ?ev (\<lambda>k j. ?mo) 0 ''ns'' [''a''] [] open_service = (Inr res, st')"
    using rt(1) loop touched s1 fl open_service_fields(2,5,6)
    by (simp add: ingest_delete_def del: delete_loop.simps)
  have cur: "cached_shards t ''ns'' (ig_router open_service) = list_by_namespace (r_etcd (ig_router open_service)) ''ns''" for t
    using write_open(1) by (simp add: open_service_fields)
  have "fst (route (ie_sha ?ev) (ie_hash ?ev) t ''ns'' ''a'' (ig_router open_service)) = Inr 0" for t
    using svc_route(2) [of t "''a''"] by (auto simp: open_service_fields)
  with deleted_ids_unreadable [OF del _ open_service_ok cur, of "''a''"] del show ?thesis by auto
qed

end
