(* ===== verification/Frontends.thy ===== *)
theory Frontends
  imports Api Read_Write
begin

text \<open>
  The other ways into a node beside \<open>api/rest.py\<close>: the gRPC service (\<open>api/grpc_server.py\<close>), the websocket
  (\<open>api/websocket.py\<close>), the event bus that feeds the ingest service from Kafka (\<open>api/events.py\<close>), the bulk
  loader (\<open>ingest/bulk.py\<close>), the compaction timer (\<open>sharding/coordinator.py\<close>), and the remaining views of
  \<open>api/rest.py\<close>. Most hand their input to the ingest service or the query engine. The generated protobuf
  classes are a parameter (\<open>pb2\<close>: building a message may raise, and without the classes nothing can be
  built), the Kafka client is the list of messages it delivers.
\<close>

subsection \<open>Views of the REST node\<close>

definition health :: "string \<Rightarrow> json" where
  "health version = JObj [(''status'', JStr ''ok''), (''version'', JStr version)]"

definition cluster_nodes :: "('h, 'f, 'r) node \<Rightarrow> json" where
  "cluster_nodes nd = JList (map node_to_dict (member_list (node_etcd nd)))"

definition namespace_shards :: "('h, 'f, 'r) api_env \<Rightarrow> string \<Rightarrow> ('h, 'f, 'r) node \<Rightarrow> json res" where
  "namespace_shards ae name nd =
     (case backend_get (nd_backend nd) name of
        None \<Rightarrow> Inl (HTTPException 404 ''namespace not found'')
      | Some n \<Rightarrow>
          (let view = placement_view (ig_router (nd_service nd)) name (Some (ae_node_id ae))
           in case obj_get view ''shards'' of
                Some (Some shards) \<Rightarrow>
                  Inr (JObj [(''namespace'', JStr name), (''local_node_id'', JStr (ae_node_id ae)), (''shards'', shards)])
              | _ \<Rightarrow> Inl (KeyError ''shards'')))"

subsection \<open>The gRPC service\<close>

record 'm pb2 =
  pb_upsert :: "nat \<Rightarrow> string list \<Rightarrow> 'm option"
  pb_query :: "(string \<times> real \<times> (string \<times> string) list) list \<Rightarrow> int \<Rightarrow> nat \<Rightarrow> 'm option"
  pb_delete :: "nat \<Rightarrow> 'm option"
  pb_fetch :: "(json \<times> json \<times> json \<times> (string \<times> string) list) list \<Rightarrow> 'm option"
  pb_event :: "string \<Rightarrow> string \<Rightarrow> string \<Rightarrow> 'm option"

text \<open>A message, or the plain dictionary when the message cannot be built.\<close>

datatype ('m, 'r) reply = InvalidArgument string | Message 'm | Plain 'r

definition reply_with :: "'m option \<Rightarrow> 'r \<Rightarrow> ('m, 'r) reply" where
  "reply_with m r = (case m of None \<Rightarrow> Plain r | Some x \<Rightarrow> Message x)"

record grpc_vector =
  gv_id :: string
  gv_values :: vec
  gv_metadata :: "(string \<times> string) list"

record grpc_upsert_request =
  gu_namespace :: string
  gu_idempotency_key :: string
  gu_vectors :: "grpc_vector list"

definition grpc_raw :: "grpc_vector \<Rightarrow> (string, json) dict" where
  "grpc_raw v = [(''id'', JStr (gv_id v)), (''vector'', JList (map JFloat (gv_values v))),
     (''metadata'', JObj (map (\<lambda>(k, x). (k, JStr x)) (gv_metadata v)))]"

text \<open>The loop over the stream: the last name and the last key that were given, and all vectors.\<close>

definition or_given :: "string \<Rightarrow> string option \<Rightarrow> string option" where
  "or_given s x = (if s = [] then x else Some s)"

fun grpc_gather ::
    "grpc_upsert_request list \<Rightarrow> string option \<Rightarrow> string option \<Rightarrow> (string, json) dict list \<Rightarrow>
     string option \<times> string option \<times> (string, json) dict list" where
  "grpc_gather [] ns idem raws = (ns, idem, raws)"
| "grpc_gather (q # qs) ns idem raws =
     grpc_gather qs (or_given (gu_namespace q) ns) (or_given (gu_idempotency_key q) idem)
       (raws @ map grpc_raw (gu_vectors q))"

definition grpc_upsert ::
    "('h, 'f) ienv \<Rightarrow> 'm pb2 \<Rightarrow> clock \<Rightarrow> (nat \<Rightarrow> string \<times> string \<times> string) \<Rightarrow> int \<Rightarrow> grpc_upsert_request list \<Rightarrow>
     ('h, 'f) ingest \<Rightarrow> ('m, upsert_result) reply res \<times> ('h, 'f) ingest" where
  "grpc_upsert ev pb clk ids took qs st =
     (case grpc_gather qs None None [] of
        (None, idem, raws) \<Rightarrow> (Inr (InvalidArgument ''namespace required''), st)
      | (Some ns, idem, raws) \<Rightarrow>
          (case upsert ev clk ids took ns raws idem st of
             (Inl e, st1) \<Rightarrow> (Inl e, st1)
           | (Inr r, st1) \<Rightarrow> (Inr (reply_with (pb_upsert pb (ur_upserted r) (ur_ids r)) r), st1)))"

text \<open>
  \<open>Query\<close> passes on the namespace, the vector and \<open>top_k\<close> (ten for zero); the other fields of the message
  (\<open>ef_search\<close>, \<open>filters\<close>, \<open>include_metadata\<close>) are not read. The remaining deadline becomes the engine's
  timeout: \<open>timeout\<close> says whether the search runs out of it.
\<close>

record grpc_query_request =
  gq_namespace :: string
  gq_vector :: vec
  gq_top_k :: nat
  gq_ef_search :: nat
  gq_filters :: "(string \<times> string) list"
  gq_include_metadata :: bool

definition grpc_query_args :: "grpc_query_request \<Rightarrow> query_args" where
  "grpc_query_args q = \<lparr>qa_namespace = gq_namespace q, qa_vector = gq_vector q,
     qa_top_k = (if gq_top_k q = 0 then 10 else gq_top_k q), qa_ef_search = None, qa_nprobe = None,
     qa_filters = [], qa_include_metadata = True, qa_include_vector = False\<rparr>"

record query_times =
  qt_timeout :: bool
  qt_start :: time
  qt_end :: time
  qt_took :: int

definition str_metadata :: "codec \<Rightarrow> (string, json) dict \<Rightarrow> (string \<times> string) list" where
  "str_metadata cd md = map (\<lambda>(k, v). (k, cd_str cd v)) md"

definition grpc_query ::
    "('h, 'f) ienv \<Rightarrow> 'r redis_ops \<Rightarrow> query_texts \<Rightarrow> rerank \<Rightarrow> 'm pb2 \<Rightarrow> query_times \<Rightarrow> grpc_query_request \<Rightarrow>
     ('h, 'f) ingest \<times> 'r cache \<Rightarrow> ('m, query_result) reply res \<times> ('h, 'f) ingest \<times> 'r cache" where
  "grpc_query ev ro qt mode pb tm q s =
     (case query ev ro qt mode (qt_timeout tm) (qt_start tm) (qt_end tm) (qt_took tm) (grpc_query_args q) s of
        (Inl e, s1) \<Rightarrow> (Inl e, s1)
      | (Inr r, s1) \<Rightarrow>
          (Inr (reply_with
             (pb_query pb (map (\<lambda>h. (qh_id h, qh_score h, str_metadata (ie_codec ev) (qh_metadata h))) (qr_results r))
                (qr_took_ms r) (qr_shard_count r)) r), s1))"

text \<open>The bidirectional stream: the replies sent, and the exception that ended it, if one did.\<close>

fun grpc_batch_query ::
    "('h, 'f) ienv \<Rightarrow> 'r redis_ops \<Rightarrow> query_texts \<Rightarrow> rerank \<Rightarrow> 'm pb2 \<Rightarrow> (query_times \<times> grpc_query_request) list \<Rightarrow>
     ('h, 'f) ingest \<times> 'r cache \<Rightarrow> ('m, query_result) reply list \<times> exn option \<times> ('h, 'f) ingest \<times> 'r cache" where
  "grpc_batch_query ev ro qt mode pb [] s = ([], None, s)"
| "grpc_batch_query ev ro qt mode pb ((tm, q) # qs) s =
     (case grpc_query ev ro qt mode pb tm q s of
        (Inl e, s1) \<Rightarrow> ([], Some e, s1)
      | (Inr r, s1) \<Rightarrow>
          (let (rs, e, s2) = grpc_batch_query ev ro qt mode pb qs s1 in (r # rs, e, s2)))"

definition grpc_delete ::
    "('h, 'f) ienv \<Rightarrow> 'm pb2 \<Rightarrow> clock \<Rightarrow> time \<Rightarrow> string \<Rightarrow> string list \<Rightarrow> ('h, 'f) ingest \<Rightarrow>
     ('m, delete_result) reply res \<times> ('h, 'f) ingest" where
  "grpc_delete ev pb clk now ns ids st =
     (case ingest_delete ev clk now ns ids [] st of
        (Inl e, st1) \<Rightarrow> (Inl e, st1)
      | (Inr r, st1) \<Rightarrow> (Inr (reply_with (pb_delete pb (dr_deleted r)) r), st1))"

text \<open>A fetched payload as the fields of a message: a missing id or namespace raises.\<close>

definition fetched_vector :: "codec \<Rightarrow> json \<Rightarrow> (json \<times> json \<times> json \<times> (string \<times> string) list) option" where
  "fetched_vector cd j =
     (case (obj_get j ''id'', obj_get j ''namespace'', obj_get j ''vector'', obj_get j ''metadata'') of
        (Some (Some i), Some (Some ns), Some v, Some md) \<Rightarrow>
          (case md of
             None \<Rightarrow> Some (i, ns, (case v of Some x \<Rightarrow> if json_truthy x then x else JList [] | None \<Rightarrow> JList []), [])
           | Some (JObj m) \<Rightarrow>
               Some (i, ns, (case v of Some x \<Rightarrow> if json_truthy x then x else JList [] | None \<Rightarrow> JList []), str_metadata cd m)
           | _ \<Rightarrow> None)
      | _ \<Rightarrow> None)"

fun all_some :: "'a option list \<Rightarrow> 'a list option" where
  "all_some [] = Some []"
| "all_some (x # xs) = (case (x, all_some xs) of (Some y, Some ys) \<Rightarrow> Some (y # ys) | _ \<Rightarrow> None)"

definition grpc_fetch ::
    "('h, 'f) ienv \<Rightarrow> 'm pb2 \<Rightarrow> (nat \<Rightarrow> moment) \<Rightarrow> string \<Rightarrow> string list \<Rightarrow> ('h, 'f) ingest \<Rightarrow>
     ('m, json list) reply res \<times> ('h, 'f) ingest" where
  "grpc_fetch ev pb mos ns ids st =
     (case fetch ev mos ns ids st of
        (Inl e, st1) \<Rightarrow> (Inl e, st1)
      | (Inr r, st1) \<Rightarrow>
          (Inr (reply_with
             (case all_some (map (fetched_vector (ie_codec ev)) r) of None \<Rightarrow> None | Some vs \<Rightarrow> pb_fetch pb vs) r), st1))"

text \<open>
  \<open>WatchNamespace\<close> polls the metadata store until the client is gone; \<open>polls\<close> are the stores it sees. An
  event is due when the total differs from the one before, which is zero at first.
\<close>

definition watch_payload :: "int \<Rightarrow> nat \<Rightarrow> string" where
  "watch_payload n shards =
     ''{'' @ [char_of (34::nat)] @ ''total_vectors'' @ [char_of (34::nat)] @ '': '' @ int_str n @ '', '' @
     [char_of (34::nat)] @ ''shard_count'' @ [char_of (34::nat)] @ '': '' @ nat_str shards @ ''}''"

definition total_vectors :: "string \<Rightarrow> etcd \<Rightarrow> int" where
  "total_vectors ns st = sum_list (map (\<lambda>r. sh_vector_count (e_heap st r)) (list_by_namespace st ns))"

record watch_event =
  wv_total :: int
  wv_shards :: nat

fun watch_namespace :: "string \<Rightarrow> int \<Rightarrow> etcd list \<Rightarrow> watch_event list" where
  "watch_namespace ns last_count [] = []"
| "watch_namespace ns last_count (st # polls) =
     (let found = total_vectors ns st in
      if found \<noteq> last_count then
        \<lparr>wv_total = found, wv_shards = length (list_by_namespace st ns)\<rparr> # watch_namespace ns found polls
      else watch_namespace ns last_count polls)"

definition watch_reply :: "'m pb2 option \<Rightarrow> string \<Rightarrow> watch_event \<Rightarrow> ('m, json) reply res" where
  "watch_reply pb ns w =
     (let payload = watch_payload (wv_total w) (wv_shards w) in
      case pb of
        None \<Rightarrow> Inr (Plain (JObj [(''type'', JStr ''UPSERT''), (''namespace'', JStr ns), (''payload'', JStr payload)]))
      | Some p \<Rightarrow> (case pb_event p ''UPSERT'' ns payload of
          None \<Rightarrow> Inl (type_error ''bad event'') | Some m \<Rightarrow> Inr (Message m)))"

subsection \<open>The websocket\<close>

text \<open>The answer to a text: it echoes the request and searches nothing. \<open>loads\<close> is \<open>json.loads\<close>.\<close>

definition websocket_reply :: "(string \<Rightarrow> json res) \<Rightarrow> string \<Rightarrow> json" where
  "websocket_reply loads data =
     (case loads data of
        Inl e \<Rightarrow> JObj [(''error'', JStr (exn_str e))]
      | Inr req \<Rightarrow> JObj [(''echo'', req), (''results'', JList [])])"

subsection \<open>The event bus\<close>

text \<open>The Kafka client: starting a producer and sending may raise.\<close>

record 'k kafka =
  kf_start :: "string \<Rightarrow> 'k \<Rightarrow> unit res \<times> 'k"
  kf_stop :: "'k \<Rightarrow> unit res \<times> 'k"
  kf_send :: "string \<Rightarrow> json \<Rightarrow> 'k \<Rightarrow> unit res \<times> 'k"

record event_bus =
  eb_bootstrap :: string
  eb_prefix :: string
  eb_producer :: bool

definition new_event_bus :: "string \<Rightarrow> string \<Rightarrow> event_bus" where
  "new_event_bus servers prefix = \<lparr>eb_bootstrap = servers, eb_prefix = prefix, eb_producer = False\<rparr>"

definition topic_for :: "event_bus \<Rightarrow> string \<Rightarrow> string \<Rightarrow> string" where
  "topic_for eb ns event = eb_prefix eb @ ns @ ''.'' @ event"

text \<open>\<open>HAS_KAFKA\<close> is the presence of the client library.\<close>

definition bus_start :: "'k kafka option \<Rightarrow> event_bus \<times> 'k \<Rightarrow> unit res \<times> event_bus \<times> 'k" where
  "bus_start kf = (\<lambda>(eb, w). case kf of
       None \<Rightarrow> (Inr (), eb, w)
     | Some c \<Rightarrow> (let (x, w1) = kf_start c (eb_bootstrap eb) w in (x, eb\<lparr>eb_producer := True\<rparr>, w1)))"

definition bus_stop :: "'k kafka option \<Rightarrow> event_bus \<times> 'k \<Rightarrow> unit res \<times> event_bus \<times> 'k" where
  "bus_stop kf = (\<lambda>(eb, w). case kf of
       Some c \<Rightarrow> if eb_producer eb then (let (x, w1) = kf_stop c w in (x, eb, w1)) else (Inr (), eb, w)
     | None \<Rightarrow> (Inr (), eb, w))"

definition publish :: "'k kafka option \<Rightarrow> string \<Rightarrow> string \<Rightarrow> json \<Rightarrow> event_bus \<times> 'k \<Rightarrow> unit res \<times> event_bus \<times> 'k" where
  "publish kf ns event payload = (\<lambda>(eb, w). case kf of
       Some c \<Rightarrow>
         if eb_producer eb then (let (x, w1) = kf_send c (topic_for eb ns event) payload w in (x, eb, w1))
         else (Inr (), eb, w)
     | None \<Rightarrow> (Inr (), eb, w))"

text \<open>
  A delivered message is an object with vectors or ids, empty if absent. The consumer of an event hands each
  to the ingest service, logs what that raises and goes on.
\<close>

record kafka_message =
  km_vectors :: "(string, json) dict list"
  km_ids :: "string list"

record request_times =
  rq_clock :: clock
  rq_ids :: "nat \<Rightarrow> string \<times> string \<times> string"
  rq_now :: time
  rq_took :: int

definition consume_one ::
    "('h, 'f) ienv \<Rightarrow> string \<Rightarrow> string \<Rightarrow> request_times \<times> kafka_message \<Rightarrow> ('h, 'f) ingest \<Rightarrow> ('h, 'f) ingest" where
  "consume_one ev ns event = (\<lambda>(tm, msg) st.
     if event = ''upsert'' then snd (upsert ev (rq_clock tm) (rq_ids tm) (rq_took tm) ns (km_vectors msg) None st)
     else if event = ''delete'' then snd (ingest_delete ev (rq_clock tm) (rq_now tm) ns (km_ids msg) [] st)
     else st)"

definition consume ::
    "('h, 'f) ienv \<Rightarrow> bool \<Rightarrow> string \<Rightarrow> string \<Rightarrow> (request_times \<times> kafka_message) list \<Rightarrow> ('h, 'f) ingest \<Rightarrow> ('h, 'f) ingest" where
  "consume ev has_kafka ns event msgs st = (if has_kafka then fold (consume_one ev ns event) msgs st else st)"

subsection \<open>The bulk loader\<close>

text \<open>\<open>range(0, total, batch_size)\<close> and the slices; a step of zero raises.\<close>

function bulk_chunks :: "nat \<Rightarrow> nat \<Rightarrow> vec list \<Rightarrow> (nat \<times> vec list) list" where
  "bulk_chunks b start vs =
     (if b = 0 \<or> vs = [] then [] else (start, take b vs) # bulk_chunks b (start + b) (drop b vs))"
  by pat_completeness auto
termination by (relation "measure (\<lambda>(b, start, vs). length vs)") auto

declare bulk_chunks.simps [simp del]

definition bulk_payload :: "(nat \<Rightarrow> json) option \<Rightarrow> nat \<times> vec list \<Rightarrow> (string, json) dict list" where
  "bulk_payload mdf = (\<lambda>(start, chunk).
     map (\<lambda>(i, v). [(''vector'', JList (map JFloat v)),
                     (''metadata'', case mdf of None \<Rightarrow> JObj [] | Some f \<Rightarrow> f (start + i))])
       (zip [0..<length chunk] chunk))"

text \<open>
  The tasks of the loader: an upsert never waits, so each task runs to its end when it gets its turn and the
  turns are in the order of creation, whatever the concurrency.
\<close>

fun bulk_tasks ::
    "('h, 'f) ienv \<Rightarrow> (nat \<Rightarrow> request_times) \<Rightarrow> nat \<Rightarrow> string \<Rightarrow> (string, json) dict list list \<Rightarrow> ('h, 'f) ingest \<Rightarrow>
     upsert_result res list \<times> ('h, 'f) ingest" where
  "bulk_tasks ev tm k ns [] st = ([], st)"
| "bulk_tasks ev tm k ns (payload # payloads) st =
     (let (x, st1) = upsert ev (rq_clock (tm k)) (rq_ids (tm k)) (rq_took (tm k)) ns payload None st;
          (xs, st2) = bulk_tasks ev tm (Suc k) ns payloads st1
      in (x # xs, st2))"

text \<open>Awaiting the tasks in the order of their completion; the first exception leaves the loader.\<close>

fun await_all :: "'a res list \<Rightarrow> 'a list res" where
  "await_all [] = Inr []"
| "await_all (Inl e # xs) = Inl e"
| "await_all (Inr y # xs) = (case await_all xs of Inl e \<Rightarrow> Inl e | Inr ys \<Rightarrow> Inr (y # ys))"

record bulk_result =
  bk_total :: nat
  bk_batches :: nat

definition bulk_upsert_direct ::
    "('h, 'f) ienv \<Rightarrow> (nat \<Rightarrow> request_times) \<Rightarrow> string \<Rightarrow> vec list \<Rightarrow> nat \<Rightarrow> (nat \<Rightarrow> json) option \<Rightarrow> ('h, 'f) ingest \<Rightarrow>
     bulk_result res \<times> ('h, 'f) ingest" where
  "bulk_upsert_direct ev tm ns vs batch_size mdf st =
     (if batch_size = 0 then (Inl (ValueError ''range() arg 3 must not be zero''), st)
      else
        (let (xs, st1) = bulk_tasks ev tm 0 ns (map (bulk_payload mdf) (bulk_chunks batch_size 0 vs)) st
         in case await_all xs of
              Inl e \<Rightarrow> (Inl e, st1)
            | Inr results \<Rightarrow> (Inr \<lparr>bk_total = length vs, bk_batches = length results\<rparr>, st1)))"

text \<open>Over HTTP the batches are posted one by one; \<open>post\<close> is the client's call with \<open>raise_for_status\<close>.\<close>

definition http_body :: "string \<Rightarrow> vec list \<Rightarrow> json" where
  "http_body ns chunk = JObj [(''namespace'', JStr ns),
     (''vectors'', JList (map (\<lambda>v. JObj [(''vector'', JList (map JFloat v))]) chunk))]"

fun http_loop :: "(json \<Rightarrow> 'w \<Rightarrow> unit res \<times> 'w) \<Rightarrow> string \<Rightarrow> vec list list \<Rightarrow> 'w \<Rightarrow> unit res \<times> 'w" where
  "http_loop post ns [] w = (Inr (), w)"
| "http_loop post ns (chunk # chunks) w =
     (case post (http_body ns chunk) w of (Inl e, w1) \<Rightarrow> (Inl e, w1) | (Inr _, w1) \<Rightarrow> http_loop post ns chunks w1)"

definition bulk_upsert_http ::
    "(string \<Rightarrow> string \<Rightarrow> json \<Rightarrow> 'w \<Rightarrow> unit res \<times> 'w) \<Rightarrow> string \<Rightarrow> string \<Rightarrow> string \<Rightarrow> vec list \<Rightarrow> nat \<Rightarrow> 'w \<Rightarrow> nat res \<times> 'w" where
  "bulk_upsert_http post base_url api_key ns vs batch_size w =
     (if batch_size = 0 then (Inl (ValueError ''range() arg 3 must not be zero''), w)
      else case http_loop (post (base_url @ ''/v1/vectors/upsert'') api_key) ns (map snd (bulk_chunks batch_size 0 vs)) w of
             (Inl e, w1) \<Rightarrow> (Inl e, w1) | (Inr _, w1) \<Rightarrow> (Inr (length vs), w1))"

subsection \<open>Maintenance\<close>

text \<open>
  \<open>CompactionService\<close>: the thread calls back after every interval until it is stopped, and what the callback
  raises is logged; \<open>ticks\<close> intervals have passed.
\<close>

fun compaction_loop :: "('w \<Rightarrow> unit res \<times> 'w) \<Rightarrow> nat \<Rightarrow> 'w \<Rightarrow> 'w" where
  "compaction_loop callback 0 w = w"
| "compaction_loop callback (Suc ticks) w = compaction_loop callback ticks (snd (callback w))"

subsection \<open>Facts\<close>

lemma bulk_chunks_cover:
  assumes "0 < b"
  shows "concat (map snd (bulk_chunks b start vs)) = vs \<and> (\<forall>(s, c) \<in> set (bulk_chunks b start vs). length c \<le> b) \<and>
    length (bulk_chunks b start vs) = (length vs + b - 1) div b"
  using assms
proof (induction b start vs rule: bulk_chunks.induct)
  case (1 b start vs)
  show ?case
  proof (cases "vs = []")
    case True
    moreover have "(b - 1) div b = 0" using 1(2) by simp
    ultimately show ?thesis by (simp add: bulk_chunks.simps)
  next
    case False
    then have c: "bulk_chunks b start vs = (start, take b vs) # bulk_chunks b (start + b) (drop b vs)"
      using 1(2) by (simp add: bulk_chunks.simps)
    have ih: "concat (map snd (bulk_chunks b (start + b) (drop b vs))) = drop b vs"
      "\<forall>(s, c) \<in> set (bulk_chunks b (start + b) (drop b vs)). length c \<le> b"
      "length (bulk_chunks b (start + b) (drop b vs)) = (length vs - b + b - 1) div b"
      using 1(1) [OF _ 1(2)] False 1(2) by simp_all
    have len: "Suc ((length vs - b + b - 1) div b) = (length vs + b - 1) div b"
    proof (cases "length vs \<le> b")
      case True
      with False 1(2) have "(b - 1) div b = 0" "(length vs + b - 1) div b = 1"
        by (simp, cases vs) (auto intro!: div_nat_eqI)
      with True show ?thesis by simp
    next
      case False
      then have eq: "length vs + b - 1 = (length vs - b + b - 1) + b" using 1(2) by simp
      show ?thesis unfolding eq using 1(2) div_add_self2 [of b "length vs - b + b - 1"] by simp
    qed
    show ?thesis unfolding c
    proof (intro conjI)
      show "concat (map snd ((start, take b vs) # bulk_chunks b (start + b) (drop b vs))) = vs"
        by (simp add: ih(1))
      show "\<forall>(s, c) \<in> set ((start, take b vs) # bulk_chunks b (start + b) (drop b vs)). length c \<le> b"
        using ih(2) by simp
      show "length ((start, take b vs) # bulk_chunks b (start + b) (drop b vs)) = (length vs + b - 1) div b"
        unfolding list.size(4) ih(3) using len by simp
    qed
  qed
qed

lemma upsert_counts:
  assumes "upsert ev clk ids took ns raws None st = (Inr res, st')"
  shows "ur_upserted res + length (ur_errors res) = length raws \<and> length raws \<le> 10000"
proof -
  obtain nsr where n: "dict_get (ig_namespaces st) ns = Some nsr" "length raws \<le> 10000"
    using assms by (auto simp: upsert_def split: option.splits if_splits)
  obtain st1 bg where u: "ur_ids res = ua_upserted (upsert_loop ev clk ids ns nsr 0 raws (start_acc st))"
    "ur_errors res = ua_errors (upsert_loop ev clk ids ns nsr 0 raws (start_acc st))"
    by (rule upsert_steps [OF assms _ n(1) refl]) auto
  have "touched_open (start_acc st)" "decided (ns_required_acks nsr) (ua_results (start_acc st))"
    by (simp_all add: touched_open_def decided_def start_acc_def)
  from upsert_loop_keeps [OF this refl] u have "length (ur_ids res) + length (ur_errors res) = length raws"
    by (simp add: start_acc_def)
  moreover have "ur_upserted res = length (ur_ids res)"
    using assms n by (auto simp: upsert_def Let_def split: sum.splits prod.splits)
  ultimately show ?thesis using n(2) by simp
qed

lemma await_all_ok: "await_all xs = Inr ys \<Longrightarrow> xs = map Inr ys"
  by (induction xs arbitrary: ys rule: await_all.induct) (auto split: sum.splits)

lemma bulk_tasks_counts:
  assumes "bulk_tasks ev tm k ns payloads st = (map Inr rs, st')"
  shows "sum_list (map (\<lambda>r. ur_upserted r + length (ur_errors r)) rs) = sum_list (map length payloads) \<and>
    length rs = length payloads \<and> (\<forall>p \<in> set payloads. length p \<le> 10000)"
  using assms
proof (induction payloads arbitrary: rs k st)
  case (Cons p ps)
  obtain x st1 where u: "upsert ev (rq_clock (tm k)) (rq_ids (tm k)) (rq_took (tm k)) ns p None st = (x, st1)" by fastforce
  obtain xs st2 where b: "bulk_tasks ev tm (Suc k) ns ps st1 = (xs, st2)" by fastforce
  from Cons.prems u b obtain r rs1 where r: "x = Inr r" "rs = r # rs1" "xs = map Inr rs1" "st2 = st'"
    by (cases rs) auto
  from Cons.IH [OF b [unfolded r(3,4)]] upsert_counts [OF u [unfolded r(1)]] r(2) show ?case by simp
qed simp

text \<open>
  A bulk load that returns has covered its input: the batches in order are the vectors, none larger than
  the batch size, so there are as many as it reports, and every vector was in the answer of some batch either
  upserted or an error. The total it reports is the number of vectors given, whatever became of them.
\<close>

theorem bulk_load_accounts:
  assumes "bulk_upsert_direct ev tm ns vs b mdf st = (Inr r, st')"
  shows "0 < b \<and> bk_total r = length vs \<and> bk_batches r = (length vs + b - 1) div b \<and>
    concat (map snd (bulk_chunks b 0 vs)) = vs \<and>
    (\<exists>answers. bulk_tasks ev tm 0 ns (map (bulk_payload mdf) (bulk_chunks b 0 vs)) st = (map Inr answers, st') \<and>
       sum_list (map (\<lambda>x. ur_upserted x + length (ur_errors x)) answers) = length vs)"
proof -
  have b: "0 < b" using assms by (auto simp: bulk_upsert_direct_def split: if_splits)
  obtain xs st1 where t: "bulk_tasks ev tm 0 ns (map (bulk_payload mdf) (bulk_chunks b 0 vs)) st = (xs, st1)" by fastforce
  with assms b obtain rs where rs: "await_all xs = Inr rs" "r = \<lparr>bk_total = length vs, bk_batches = length rs\<rparr>" "st1 = st'"
    by (auto simp: bulk_upsert_direct_def split: sum.splits)
  note c = bulk_chunks_cover [OF b, of 0 vs] and n = bulk_tasks_counts [OF t [unfolded await_all_ok [OF rs(1)] rs(3)]]
  have "length \<circ> (bulk_payload mdf) = length \<circ> snd" by (auto simp: bulk_payload_def fun_eq_iff)
  then have "sum_list (map length (map (bulk_payload mdf) (bulk_chunks b 0 vs))) = length (concat (map snd (bulk_chunks b 0 vs)))"
    by (simp add: length_concat)
  with b c n t rs await_all_ok [OF rs(1)] show ?thesis by auto
qed

lemma grpc_gather_all:
  "grpc_gather qs ns idem raws =
     (fold (\<lambda>q. or_given (gu_namespace q)) qs ns, fold (\<lambda>q. or_given (gu_idempotency_key q)) qs idem,
      raws @ concat (map (\<lambda>q. map grpc_raw (gu_vectors q)) qs))"
  by (induction qs arbitrary: ns idem raws) simp_all

text \<open>
  A stream of requests is one request: all its vectors go to the namespace named last, under the key named
  last, so the vectors of a stream that names two namespaces end up in one of them.
\<close>

theorem grpc_stream_is_one_request:
  "grpc_upsert ev pb clk ids took qs st =
     grpc_upsert ev pb clk ids took
       [\<lparr>gu_namespace = (case fold (\<lambda>q. or_given (gu_namespace q)) qs None of None \<Rightarrow> [] | Some ns \<Rightarrow> ns),
         gu_idempotency_key = (case fold (\<lambda>q. or_given (gu_idempotency_key q)) qs None of None \<Rightarrow> [] | Some k \<Rightarrow> k),
         gu_vectors = concat (map gu_vectors qs)\<rparr>] st"
proof -
  have g: "or_given (case fold (\<lambda>q. or_given (f q)) qs x of None \<Rightarrow> [] | Some s \<Rightarrow> s) None = fold (\<lambda>q. or_given (f q)) qs x"
    if "x \<noteq> Some []" for x and f :: "grpc_upsert_request \<Rightarrow> string"
    using that by (induction qs arbitrary: x) (auto simp: or_given_def split: option.split)
  show ?thesis
    by (simp add: grpc_upsert_def grpc_gather_all g map_concat comp_def)
qed

text \<open>A watcher is told the totals of the polls without repetitions, starting from an unannounced zero.\<close>

theorem watch_reports_changes:
  "map wv_total (watch_namespace ns last_count polls) = tl (remdups_adj (last_count # map (total_vectors ns) polls))"
  by (induction polls arbitrary: last_count) (simp_all add: Let_def)

end
