(* ===== verification/Rest_Routes.thy ===== *)
theory Rest_Routes
  imports Frontends
begin

text \<open>
  The HTTP face of the node: the settings of \<open>infra/config.py\<close>, the request schemas of \<open>api/schemas.py\<close>
  and the table of routes \<open>api/rest.py\<close> registers, each with the dependencies (rate limiter, API key), the
  body and the endpoint of its decorated function. What FastAPI and pydantic do is that of their
  documentation: the first route whose method and path agree answers; the dependencies run in the order
  they are declared and an exception of theirs is the answer; a body that does not fit its schema is a 422;
  an HTTPException is its status and any other exception a 500. The lax conversions of single JSON values
  (\<open>scalars\<close>) and the answers of the framework itself (\<open>fw_other\<close>: its documentation pages, unknown paths)
  are parameters. Paths are the decoded ones.
\<close>

subsection \<open>Settings\<close>

record app_settings =
  cf_app_name :: string
  cf_version :: string
  cf_env :: string
  cf_host :: string
  cf_port :: int
  cf_api_prefix :: string
  cf_secret_key :: string
  cf_jwt_algorithm :: string
  cf_access_token_expire_minutes :: int
  cf_rate_limit_rps :: int
  cf_rate_limit_burst :: int
  cf_node_id :: string
  cf_virtual_nodes :: int
  cf_shard_max_vectors :: int
  cf_shard_default_count :: int
  cf_routing_cache_ttl_s :: int
  cf_cluster_id :: string
  cf_hnsw_m :: int
  cf_hnsw_ef_construction :: int
  cf_hnsw_ef_search :: int
  cf_ivf_nlist :: int
  cf_ivf_nprobe :: int
  cf_ivf_pq_subspace :: int
  cf_wal_segment_bytes :: int
  cf_wal_group_commit_batch :: int
  cf_wal_group_commit_ms :: int
  cf_wal_retention_days :: int
  cf_data_dir :: string
  cf_s3_bucket :: string
  cf_s3_prefix :: string
  cf_compaction_delete_ratio :: real
  cf_compaction_fragmentation :: real
  cf_compaction_interval_hours :: int
  cf_kafka_bootstrap_servers :: string
  cf_kafka_topic_prefix :: string
  cf_etcd_endpoints :: string
  cf_database_url :: string
  cf_s3_endpoint_url :: string
  cf_rerank :: string
  cf_mmr_lambda :: real
  cf_redis_url :: string
  cf_cache_ttl_s :: int
  cf_cdn_url :: string
  cf_otel_endpoint :: string
  cf_log_level :: string
  cf_log_json :: bool

text \<open>The values with no environment variable set.\<close>

definition default_settings :: app_settings where
  "default_settings =
     \<lparr>cf_app_name = ''Vsector'', cf_version = ''0.1.0'', cf_env = ''development'',
      cf_host = ''0.0.0.0'', cf_port = 8080, cf_api_prefix = ''/v1'',
      cf_secret_key = ''change-me-in-production'', cf_jwt_algorithm = ''HS256'',
      cf_access_token_expire_minutes = 60 * 24, cf_rate_limit_rps = 10000, cf_rate_limit_burst = 20000,
      cf_node_id = ''node-0'', cf_virtual_nodes = 256, cf_shard_max_vectors = 50000000000,
      cf_shard_default_count = 8, cf_routing_cache_ttl_s = 5, cf_cluster_id = ''vsector-cluster-default'',
      cf_hnsw_m = 16, cf_hnsw_ef_construction = 200, cf_hnsw_ef_search = 100,
      cf_ivf_nlist = 4096, cf_ivf_nprobe = 64, cf_ivf_pq_subspace = 8,
      cf_wal_segment_bytes = 256 * 1024 * 1024, cf_wal_group_commit_batch = 1000,
      cf_wal_group_commit_ms = 5, cf_wal_retention_days = 7, cf_data_dir = ''./data'',
      cf_s3_bucket = [], cf_s3_prefix = ''vsector/'', cf_compaction_delete_ratio = 1 / 10,
      cf_compaction_fragmentation = 3 / 10, cf_compaction_interval_hours = 6,
      cf_kafka_bootstrap_servers = ''localhost:9092'', cf_kafka_topic_prefix = ''vsector.'',
      cf_etcd_endpoints = ''localhost:2379'', cf_database_url = [], cf_s3_endpoint_url = [],
      cf_rerank = [], cf_mmr_lambda = 1 / 2, cf_redis_url = [], cf_cache_ttl_s = 60, cf_cdn_url = [],
      cf_otel_endpoint = [], cf_log_level = ''INFO'', cf_log_json = False\<rparr>"

text \<open>What the gateway and the node read from the settings.\<close>

definition gateway_settings :: "app_settings \<Rightarrow> settings" where
  "gateway_settings cf =
     \<lparr>st_env = cf_env cf, st_rate_limit_rps = cf_rate_limit_rps cf,
      st_access_token_expire_minutes = cf_access_token_expire_minutes cf\<rparr>"

definition configured :: "app_settings \<Rightarrow> ('h, 'f, 'r) api_env \<Rightarrow> ('h, 'f, 'r) api_env" where
  "configured cf ae = ae\<lparr>ae_settings := gateway_settings cf, ae_node_id := cf_node_id cf,
     ae_cluster_id := cf_cluster_id cf, ae_shard_max_vectors := cf_shard_max_vectors cf\<rparr>"

subsection \<open>Requests and answers\<close>

datatype verb = GET | POST | DELETE | PATCH

record http_request =
  hr_verb :: verb
  hr_path :: string
  hr_params :: "(string, string) dict"
  hr_api_key :: header
  hr_authorization :: header
  hr_body :: "json option"

text \<open>The body of an answer is what the endpoint returned; \<open>r.json()\<close> reads it back.\<close>

datatype answer =
    JsonAnswer json
  | TextAnswer string
  | DeletedAnswer string
  | UpdatedAnswer string
  | StatsAnswer namespace_stats
  | UpsertAnswer upsert_result
  | QueryAnswer query_result
  | VectorsAnswer "json list"
  | DeleteAnswer delete_result

datatype http_response = Answered answer | Refused nat string

definition respond :: "('a \<Rightarrow> answer) \<Rightarrow> 'a res \<Rightarrow> http_response" where
  "respond f x =
     (case x of
        Inr y \<Rightarrow> Answered (f y)
      | Inl (HTTPException status detail) \<Rightarrow> Refused status detail
      | Inl e \<Rightarrow> Refused 500 ''Internal Server Error'')"

subsection \<open>Schemas\<close>

record scalars =
  sc_int :: "json \<Rightarrow> int option"
  sc_float :: "json \<Rightarrow> real option"
  sc_str :: "json \<Rightarrow> string option"
  sc_bool :: "json \<Rightarrow> bool option"

text \<open>A JSON value of the field's own type is taken as it is; that is all the clients need.\<close>

definition plain_scalars :: "scalars \<Rightarrow> bool" where
  "plain_scalars sc \<longleftrightarrow> (\<forall>i. sc_int sc (JInt i) = Some i) \<and> (\<forall>x. sc_float sc (JFloat x) = Some x) \<and>
     (\<forall>s. sc_str sc (JStr s) = Some s) \<and> (\<forall>b. sc_bool sc (JBool b) = Some b)"

definition required :: "(json \<Rightarrow> 'a option) \<Rightarrow> (string, json) dict \<Rightarrow> string \<Rightarrow> 'a option" where
  "required dec kvs k = (case map_of kvs k of None \<Rightarrow> None | Some j \<Rightarrow> dec j)"

definition nullable :: "(json \<Rightarrow> 'a option) \<Rightarrow> json \<Rightarrow> 'a option option" where
  "nullable dec j = (if j = JNull then Some None else map_option Some (dec j))"

fun list_field :: "(json \<Rightarrow> 'a option) \<Rightarrow> json \<Rightarrow> 'a list option" where
  "list_field dec (JList xs) = all_some (map dec xs)"
| "list_field dec _ = None"

fun object_field :: "json \<Rightarrow> (string, json) dict option" where
  "object_field (JObj kvs) = Some kvs"
| "object_field _ = None"

definition decode_namespace_create :: "scalars \<Rightarrow> (string, json) dict \<Rightarrow> namespace_create option" where
  "decode_namespace_create sc kvs =
     (case (required (sc_str sc) kvs ''name'', required (sc_int sc) kvs ''dimension'',
            field_or (sc_str sc) ''COSINE'' kvs ''distance_metric'', field_or (sc_str sc) ''HNSW'' kvs ''index_type'') of
        (Some name, Some dimension, Some metric, Some index_type) \<Rightarrow>
          (case (field_or (sc_int sc) 3 kvs ''replication_factor'', field_or (sc_int sc) 8 kvs ''shard_count'',
                 field_or (sc_str sc) ''NONE'' kvs ''compression'',
                 field_or (nullable (sc_int sc)) None kvs ''expected_records'') of
             (Some rf, Some shards, Some compression, Some expected) \<Rightarrow>
               Some \<lparr>nc_name = name, nc_dimension = dimension, nc_distance_metric = metric,
                     nc_index_type = index_type, nc_replication_factor = rf, nc_shard_count = shards,
                     nc_compression = compression, nc_expected_records = expected\<rparr>
           | _ \<Rightarrow> None)
      | _ \<Rightarrow> None)"

record upsert_body =
  ub_namespace :: string
  ub_vectors :: "(string, json) dict list"
  ub_idempotency_key :: "string option"

definition decode_upsert :: "scalars \<Rightarrow> (string, json) dict \<Rightarrow> upsert_body option" where
  "decode_upsert sc kvs =
     (case (required (sc_str sc) kvs ''namespace'', required (list_field object_field) kvs ''vectors'',
            field_or (nullable (sc_str sc)) None kvs ''idempotency_key'') of
        (Some ns, Some vectors, Some idem) \<Rightarrow>
          Some \<lparr>ub_namespace = ns, ub_vectors = vectors, ub_idempotency_key = idem\<rparr>
      | _ \<Rightarrow> None)"

record query_body =
  qb_namespace :: string
  qb_vector :: vec
  qb_top_k :: int
  qb_ef_search :: "int option"
  qb_nprobe :: "int option"
  qb_filters :: "(string, json) dict option"
  qb_include_metadata :: bool
  qb_include_vector :: bool
  qb_consistency :: string
  qb_timeout_ms :: int

definition decode_query :: "scalars \<Rightarrow> (string, json) dict \<Rightarrow> query_body option" where
  "decode_query sc kvs =
     (case (required (sc_str sc) kvs ''namespace'', required (list_field (sc_float sc)) kvs ''vector'',
            field_or (sc_int sc) 10 kvs ''top_k'', field_or (nullable (sc_int sc)) None kvs ''ef_search'',
            field_or (nullable (sc_int sc)) None kvs ''nprobe'') of
        (Some ns, Some v, Some k, Some ef, Some np) \<Rightarrow>
          (case (field_or (nullable object_field) None kvs ''filters'', field_or (sc_bool sc) True kvs ''include_metadata'',
                 field_or (sc_bool sc) False kvs ''include_vector'', field_or (sc_str sc) ''EVENTUAL'' kvs ''consistency'',
                 field_or (sc_int sc) 200 kvs ''timeout_ms'') of
             (Some fs, Some md, Some vs, Some cons, Some tmo) \<Rightarrow>
               Some \<lparr>qb_namespace = ns, qb_vector = v, qb_top_k = k, qb_ef_search = ef, qb_nprobe = np,
                     qb_filters = fs, qb_include_metadata = md, qb_include_vector = vs,
                     qb_consistency = cons, qb_timeout_ms = tmo\<rparr>
           | _ \<Rightarrow> None)
      | _ \<Rightarrow> None)"

record fetch_body =
  fb_namespace :: string
  fb_ids :: "string list"

definition decode_fetch :: "scalars \<Rightarrow> (string, json) dict \<Rightarrow> fetch_body option" where
  "decode_fetch sc kvs =
     (case (required (sc_str sc) kvs ''namespace'', required (list_field (sc_str sc)) kvs ''ids'') of
        (Some ns, Some ids) \<Rightarrow> Some \<lparr>fb_namespace = ns, fb_ids = ids\<rparr> | _ \<Rightarrow> None)"

record delete_body =
  db_namespace :: string
  db_ids :: "string list option"
  db_filter :: "(string, json) dict option"

definition decode_delete :: "scalars \<Rightarrow> (string, json) dict \<Rightarrow> delete_body option" where
  "decode_delete sc kvs =
     (case (required (sc_str sc) kvs ''namespace'', field_or (nullable (list_field (sc_str sc))) None kvs ''ids'',
            field_or (nullable object_field) None kvs ''filter'') of
        (Some ns, Some ids, Some f) \<Rightarrow> Some \<lparr>db_namespace = ns, db_ids = ids, db_filter = f\<rparr> | _ \<Rightarrow> None)"

subsection \<open>Routes\<close>

datatype route_name =
    RHealth | RReady | RCluster | RClusterNodes | RClusterNode | RClusterPlacement
  | RNamespacePlacement | RNamespaceShards | RMetrics | RCreateNamespace | RDeleteNamespace
  | RNamespaceStats | RListNamespaces | RUpsert | RQuery | RFetch | RDelete | RPatchMetadata | RGetVector

text \<open>The decorators of \<open>rest.py\<close> in their order.\<close>

definition routes :: "string \<Rightarrow> (verb \<times> string \<times> route_name) list" where
  "routes prefix =
     [(GET, ''/health'', RHealth),
      (GET, ''/ready'', RReady),
      (GET, ''/cluster'', RCluster),
      (GET, ''/cluster/nodes'', RClusterNodes),
      (GET, ''/cluster/nodes/{node_id}'', RClusterNode),
      (GET, ''/cluster/placement'', RClusterPlacement),
      (GET, prefix @ ''/namespaces/{namespace}/placement'', RNamespacePlacement),
      (GET, prefix @ ''/namespaces/{namespace}/shards'', RNamespaceShards),
      (GET, ''/metrics'', RMetrics),
      (POST, prefix @ ''/namespaces'', RCreateNamespace),
      (DELETE, prefix @ ''/namespaces/{name}'', RDeleteNamespace),
      (GET, prefix @ ''/namespaces/{name}/stats'', RNamespaceStats),
      (GET, prefix @ ''/namespaces'', RListNamespaces),
      (POST, prefix @ ''/vectors/upsert'', RUpsert),
      (POST, prefix @ ''/vectors/query'', RQuery),
      (POST, prefix @ ''/vectors/fetch'', RFetch),
      (POST, prefix @ ''/vectors/delete'', RDelete),
      (PATCH, prefix @ ''/vectors/{vid}/metadata'', RPatchMetadata),
      (GET, prefix @ ''/vectors/{vid}'', RGetVector)]"

fun split_path :: "string \<Rightarrow> string \<Rightarrow> string list" where
  "split_path seg [] = [seg]"
| "split_path seg (c # cs) = (if c = CHR ''/'' then seg # split_path [] cs else split_path (seg @ [c]) cs)"

text \<open>A segment in braces matches any segment that is not empty; a route has at most one.\<close>

fun match_path :: "string list \<Rightarrow> string list \<Rightarrow> string list option" where
  "match_path [] [] = Some []"
| "match_path (p # ps) (x # xs) =
     (if starts_with ''{'' p then (if x = [] then None else map_option (Cons x) (match_path ps xs))
      else if p = x then match_path ps xs else None)"
| "match_path _ _ = None"

fun find_route :: "(verb \<times> string \<times> route_name) list \<Rightarrow> verb \<Rightarrow> string list \<Rightarrow> (route_name \<times> string) option" where
  "find_route [] v segs = None"
| "find_route ((w, pattern, r) # rs) v segs =
     (case (if w = v then match_path (split_path [] pattern) segs else None) of
        None \<Rightarrow> find_route rs v segs
      | Some xs \<Rightarrow> Some (r, case xs of [] \<Rightarrow> [] | x # _ \<Rightarrow> x))"

subsection \<open>The server\<close>

text \<open>
  The node with the buckets of its rate limiter. \<open>call_env\<close> is what the clocks and the random sources give
  while one request runs; \<open>fw_negative\<close> answers a search with a negative \<open>top_k\<close>, \<open>ef_search\<close> or \<open>nprobe\<close>,
  which the model of the query engine leaves out.
\<close>

record ('h, 'f, 'r) server =
  sv_node :: "('h, 'f, 'r) node"
  sv_buckets :: buckets

record call_env =
  ce_now :: time
  ce_uid :: string
  ce_created :: "nat \<Rightarrow> time"
  ce_clock :: clock
  ce_ids :: "nat \<Rightarrow> string \<times> string \<times> string"
  ce_took :: int
  ce_moments :: "nat \<Rightarrow> moment"
  ce_timeout :: bool
  ce_end :: time

record ('h, 'f, 'r) framework =
  fw_settings :: app_settings
  fw_local_state :: string
  fw_jwt :: "string \<Rightarrow> claims option"
  fw_scalars :: scalars
  fw_round2 :: "real \<Rightarrow> real"
  fw_metrics :: string
  fw_other :: "http_request \<Rightarrow> http_response"
  fw_negative :: "query_body \<Rightarrow> ('h, 'f, 'r) server \<Rightarrow> http_response \<times> ('h, 'f, 'r) server"

definition on_node ::
    "('a \<Rightarrow> answer) \<Rightarrow> 'a res \<times> ('h, 'f, 'r) node \<Rightarrow> ('h, 'f, 'r) server \<Rightarrow> http_response \<times> ('h, 'f, 'r) server" where
  "on_node f out sv = (respond f (fst out), sv\<lparr>sv_node := snd out\<rparr>)"

text \<open>\<open>Depends(rate_limiter)\<close>, where it is declared, and then \<open>Depends(verify_api_key)\<close>.\<close>

definition admit ::
    "settings \<Rightarrow> (string \<Rightarrow> claims option) \<Rightarrow> time \<Rightarrow> bool \<Rightarrow> http_request \<Rightarrow> ('h, 'f, 'r) server \<Rightarrow>
     claims res \<times> ('h, 'f, 'r) server" where
  "admit cfg jwt now limited rq sv =
     (if limited then
        (case rate_limiter cfg api_keys now (hr_api_key rq) (sv_buckets sv) of
           (Inl e, b) \<Rightarrow> (Inl e, sv\<lparr>sv_buckets := b\<rparr>)
         | (Inr k, b) \<Rightarrow>
             (verify_api_key cfg api_keys jwt (hr_api_key rq) (hr_authorization rq), sv\<lparr>sv_buckets := b\<rparr>))
      else (verify_api_key cfg api_keys jwt (hr_api_key rq) (hr_authorization rq), sv))"

text \<open>An endpoint behind its dependencies, with its decoded body.\<close>

definition guarded ::
    "('h, 'f, 'r) framework \<Rightarrow> call_env \<Rightarrow> bool \<Rightarrow> ((string, json) dict \<Rightarrow> 'b option) \<Rightarrow>
     (claims \<Rightarrow> 'b \<Rightarrow> ('h, 'f, 'r) server \<Rightarrow> http_response \<times> ('h, 'f, 'r) server) \<Rightarrow>
     http_request \<Rightarrow> ('h, 'f, 'r) server \<Rightarrow> http_response \<times> ('h, 'f, 'r) server" where
  "guarded fw ce limited decode run rq sv =
     (case admit (gateway_settings (fw_settings fw)) (fw_jwt fw) (ce_now ce) limited rq sv of
        (Inl e, sv1) \<Rightarrow> (respond JsonAnswer (Inl e), sv1)
      | (Inr auth, sv1) \<Rightarrow>
          (case Option.bind (Option.bind (hr_body rq) object_field) decode of
             None \<Rightarrow> (Refused 422 ''Unprocessable Entity'', sv1) | Some b \<Rightarrow> run auth b sv1))"

text \<open>An endpoint behind \<open>verify_api_key\<close> that has no body.\<close>

definition authorised ::
    "('h, 'f, 'r) framework \<Rightarrow> call_env \<Rightarrow> (('h, 'f, 'r) server \<Rightarrow> http_response \<times> ('h, 'f, 'r) server) \<Rightarrow>
     http_request \<Rightarrow> ('h, 'f, 'r) server \<Rightarrow> http_response \<times> ('h, 'f, 'r) server" where
  "authorised fw ce run rq sv =
     (case admit (gateway_settings (fw_settings fw)) (fw_jwt fw) (ce_now ce) False rq sv of
        (Inl e, sv1) \<Rightarrow> (respond JsonAnswer (Inl e), sv1) | (Inr auth, sv1) \<Rightarrow> run sv1)"

definition natural :: "int option \<Rightarrow> bool" where
  "natural i = (case i of None \<Rightarrow> True | Some k \<Rightarrow> 0 \<le> k)"

definition args_of_body :: "query_body \<Rightarrow> query_args" where
  "args_of_body b = \<lparr>qa_namespace = qb_namespace b, qa_vector = qb_vector b, qa_top_k = nat (qb_top_k b),
     qa_ef_search = map_option nat (qb_ef_search b), qa_nprobe = map_option nat (qb_nprobe b),
     qa_filters = (case qb_filters b of None \<Rightarrow> [] | Some f \<Rightarrow> f),
     qa_include_metadata = qb_include_metadata b, qa_include_vector = qb_include_vector b\<rparr>"

definition serve_query ::
    "('h, 'f, 'r) framework \<Rightarrow> ('h, 'f, 'r) api_env \<Rightarrow> call_env \<Rightarrow> claims \<Rightarrow> query_body \<Rightarrow> ('h, 'f, 'r) server \<Rightarrow>
     http_response \<times> ('h, 'f, 'r) server" where
  "serve_query fw ae ce auth b sv =
     (if natural (Some (qb_top_k b)) \<and> natural (qb_ef_search b) \<and> natural (qb_nprobe b) then
        on_node QueryAnswer
          (query_vectors ae (ce_timeout ce) (ce_now ce) (ce_end ce) (ce_took ce) auth (args_of_body b) (sv_node sv)) sv
      else fw_negative fw b sv)"

definition namespace_param :: "http_request \<Rightarrow> string" where
  "namespace_param rq = (case dict_get (hr_params rq) ''namespace'' of None \<Rightarrow> ''default'' | Some ns \<Rightarrow> ns)"

fun serve_route ::
    "('h, 'f, 'r) framework \<Rightarrow> ('h, 'f, 'r) api_env \<Rightarrow> call_env \<Rightarrow> route_name \<Rightarrow> string \<Rightarrow> http_request \<Rightarrow>
     ('h, 'f, 'r) server \<Rightarrow> http_response \<times> ('h, 'f, 'r) server" where
  "serve_route fw ae ce RHealth x rq sv = (Answered (JsonAnswer (health (cf_version (fw_settings fw)))), sv)"
| "serve_route fw ae ce RReady x rq sv = (Answered (JsonAnswer (get_ready (sv_node sv))), sv)"
| "serve_route fw ae ce RCluster x rq sv =
     (Answered (JsonAnswer (cluster_status ae (fw_local_state fw) (sv_node sv))), sv)"
| "serve_route fw ae ce RClusterNodes x rq sv = (Answered (JsonAnswer (cluster_nodes (sv_node sv))), sv)"
| "serve_route fw ae ce RClusterNode x rq sv = (respond JsonAnswer (get_cluster_node x (sv_node sv)), sv)"
| "serve_route fw ae ce RClusterPlacement x rq sv = (Answered (JsonAnswer (cluster_placement ae (sv_node sv))), sv)"
| "serve_route fw ae ce RNamespacePlacement x rq sv = (respond JsonAnswer (namespace_placement ae x (sv_node sv)), sv)"
| "serve_route fw ae ce RNamespaceShards x rq sv = (respond JsonAnswer (namespace_shards ae x (sv_node sv)), sv)"
| "serve_route fw ae ce RMetrics x rq sv = (Answered (TextAnswer (fw_metrics fw)), sv)"
| "serve_route fw ae ce RCreateNamespace x rq sv =
     guarded fw ce True (decode_namespace_create (fw_scalars fw))
       (\<lambda>auth b sv. on_node JsonAnswer (create_namespace ae (ce_uid ce) (ce_created ce) b (sv_node sv)) sv) rq sv"
| "serve_route fw ae ce RDeleteNamespace x rq sv =
     authorised fw ce (\<lambda>sv. on_node DeletedAnswer (delete_namespace x (sv_node sv)) sv) rq sv"
| "serve_route fw ae ce RNamespaceStats x rq sv =
     (respond StatsAnswer (get_namespace_stats (fw_round2 fw) x (sv_node sv)), sv)"
| "serve_route fw ae ce RListNamespaces x rq sv = (Answered (JsonAnswer (list_namespaces (sv_node sv))), sv)"
| "serve_route fw ae ce RUpsert x rq sv =
     guarded fw ce True (decode_upsert (fw_scalars fw))
       (\<lambda>auth b sv. on_node UpsertAnswer
          (upsert_vectors ae (ce_clock ce) (ce_ids ce) (ce_took ce) auth (ub_namespace b) (ub_vectors b)
             (ub_idempotency_key b) (sv_node sv)) sv) rq sv"
| "serve_route fw ae ce RQuery x rq sv = guarded fw ce True (decode_query (fw_scalars fw)) (serve_query fw ae ce) rq sv"
| "serve_route fw ae ce RFetch x rq sv =
     guarded fw ce False (decode_fetch (fw_scalars fw))
       (\<lambda>auth b sv. on_node VectorsAnswer
          (fetch_vectors ae (ce_moments ce) auth (fb_namespace b) (fb_ids b) (sv_node sv)) sv) rq sv"
| "serve_route fw ae ce RDelete x rq sv =
     guarded fw ce False (decode_delete (fw_scalars fw))
       (\<lambda>auth b sv. on_node DeleteAnswer
          (delete_vectors ae (ce_clock ce) (ce_now ce) auth (db_namespace b)
             (case db_ids b of None \<Rightarrow> [] | Some ids \<Rightarrow> ids) (case db_filter b of None \<Rightarrow> [] | Some f \<Rightarrow> f) (sv_node sv)) sv)
       rq sv"
| "serve_route fw ae ce RPatchMetadata x rq sv =
     guarded fw ce False Some
       (\<lambda>auth b sv. on_node UpdatedAnswer
          (patch_metadata ae (ce_moments ce) (ce_now ce) (ce_clock ce) (ce_ids ce) (namespace_param rq) x b (sv_node sv)) sv)
       rq sv"
| "serve_route fw ae ce RGetVector x rq sv =
     authorised fw ce (\<lambda>sv. on_node JsonAnswer (get_vector ae (ce_moments ce) (namespace_param rq) x (sv_node sv)) sv) rq sv"

definition serve ::
    "('h, 'f, 'r) framework \<Rightarrow> ('h, 'f, 'r) api_env \<Rightarrow> call_env \<Rightarrow> http_request \<Rightarrow> ('h, 'f, 'r) server \<Rightarrow>
     http_response \<times> ('h, 'f, 'r) server" where
  "serve fw ae ce rq sv =
     (case find_route (routes (cf_api_prefix (fw_settings fw))) (hr_verb rq) (split_path [] (hr_path rq)) of
        None \<Rightarrow> (fw_other fw rq, sv)
      | Some (r, x) \<Rightarrow> serve_route fw (configured (fw_settings fw) ae) ce r x rq sv)"

end
