(* ===== verification/Client.thy ===== *)
theory Client
  imports Rest_Routes
begin

text \<open>
  What talks to a node from outside: the Python client (\<open>api/sdk.py\<close>), the LangChain and LlamaIndex vector
  stores built on it (\<open>integrations/\<close>), the command line (\<open>cli.py\<close>) and the log output (\<open>infra/logging.py\<close>).
  The client is a function of the HTTP library: \<open>http\<close> takes a call over the state of the world and gives
  the response or the library's exception. \<open>over_http\<close> is the library in front of a node at an origin.
\<close>

subsection \<open>The client\<close>

record http_call =
  hc_verb :: verb
  hc_url :: string
  hc_api_key :: header
  hc_body :: "json option"

type_synonym 's http = "http_call \<Rightarrow> 's \<Rightarrow> http_response res \<times> 's"

record vsector_client =
  vc_base_url :: string
  vc_api_key :: header
  vc_closed :: bool

definition rstrip_slash :: "string \<Rightarrow> string" where
  "rstrip_slash s = rev (dropWhile (\<lambda>c. c = CHR ''/'') (rev s))"

text \<open>The header is sent for a key that is not empty.\<close>

definition new_client :: "string \<Rightarrow> string option \<Rightarrow> vsector_client" where
  "new_client base_url key = \<lparr>vc_base_url = rstrip_slash base_url,
     vc_api_key = (case key of None \<Rightarrow> None | Some k \<Rightarrow> if k = [] then None else Some k), vc_closed = False\<rparr>"

definition close_client :: "vsector_client \<Rightarrow> vsector_client" where
  "close_client c = c\<lparr>vc_closed := True\<rparr>"

text \<open>A call, \<open>raise_for_status\<close> and \<open>json\<close>; the HTTP library refuses calls of a closed client.\<close>

definition status_error :: "nat \<Rightarrow> exn" where
  "status_error status = OtherError ''HTTPStatusError'' (nat_str status)"

definition call_server ::
    "vsector_client \<Rightarrow> 's http \<Rightarrow> verb \<Rightarrow> string \<Rightarrow> json option \<Rightarrow> 's \<Rightarrow> answer res \<times> 's" where
  "call_server c send v url body s =
     (if vc_closed c then (Inl (RuntimeError ''Cannot send a request, as the client has been closed.''), s)
      else
        (case send \<lparr>hc_verb = v, hc_url = url, hc_api_key = vc_api_key c, hc_body = body\<rparr> s of
           (Inl e, s1) \<Rightarrow> (Inl e, s1)
         | (Inr (Refused status detail), s1) \<Rightarrow> (Inl (status_error status), s1)
         | (Inr (Answered a), s1) \<Rightarrow> (Inr a, s1)))"

definition sdk_create_namespace ::
    "vsector_client \<Rightarrow> 's http \<Rightarrow> string \<Rightarrow> int \<Rightarrow> string \<Rightarrow> string \<Rightarrow> (string, json) dict \<Rightarrow> 's \<Rightarrow> answer res \<times> 's" where
  "sdk_create_namespace c send name dimension distance_metric index_type kwargs s =
     call_server c send POST (vc_base_url c @ ''/namespaces'')
       (Some (JObj ([(''name'', JStr name), (''dimension'', JInt dimension),
          (''distance_metric'', JStr distance_metric), (''index_type'', JStr index_type)] @ kwargs))) s"

definition sdk_delete_namespace :: "vsector_client \<Rightarrow> 's http \<Rightarrow> string \<Rightarrow> 's \<Rightarrow> answer res \<times> 's" where
  "sdk_delete_namespace c send name s = call_server c send DELETE (vc_base_url c @ ''/namespaces/'' @ name) None s"

definition sdk_stats :: "vsector_client \<Rightarrow> 's http \<Rightarrow> string \<Rightarrow> 's \<Rightarrow> answer res \<times> 's" where
  "sdk_stats c send name s = call_server c send GET (vc_base_url c @ ''/namespaces/'' @ name @ ''/stats'') None s"

definition upsert_json :: "string \<Rightarrow> (string, json) dict list \<Rightarrow> string option \<Rightarrow> (string, json) dict" where
  "upsert_json ns vectors idem =
     [(''namespace'', JStr ns), (''vectors'', JList (map JObj vectors))] @
     (case idem of None \<Rightarrow> [] | Some k \<Rightarrow> if k = [] then [] else [(''idempotency_key'', JStr k)])"

definition sdk_upsert ::
    "vsector_client \<Rightarrow> 's http \<Rightarrow> string \<Rightarrow> (string, json) dict list \<Rightarrow> string option \<Rightarrow> 's \<Rightarrow> answer res \<times> 's" where
  "sdk_upsert c send ns vectors idem s =
     call_server c send POST (vc_base_url c @ ''/vectors/upsert'') (Some (JObj (upsert_json ns vectors idem))) s"

text \<open>Keyword arguments cannot repeat the named ones.\<close>

definition query_json :: "string \<Rightarrow> vec \<Rightarrow> int \<Rightarrow> (string, json) dict option \<Rightarrow> (string, json) dict \<Rightarrow> (string, json) dict" where
  "query_json ns v top_k filters kwargs =
     [(''namespace'', JStr ns), (''vector'', JList (map JFloat v)), (''top_k'', JInt top_k),
      (''filters'', JObj (case filters of None \<Rightarrow> [] | Some f \<Rightarrow> f))] @ kwargs"

definition sdk_query ::
    "vsector_client \<Rightarrow> 's http \<Rightarrow> string \<Rightarrow> vec \<Rightarrow> int \<Rightarrow> (string, json) dict option \<Rightarrow> (string, json) dict \<Rightarrow> 's \<Rightarrow>
     answer res \<times> 's" where
  "sdk_query c send ns v top_k filters kwargs s =
     call_server c send POST (vc_base_url c @ ''/vectors/query'') (Some (JObj (query_json ns v top_k filters kwargs))) s"

definition sdk_fetch :: "vsector_client \<Rightarrow> 's http \<Rightarrow> string \<Rightarrow> string list \<Rightarrow> 's \<Rightarrow> answer res \<times> 's" where
  "sdk_fetch c send ns ids s =
     call_server c send POST (vc_base_url c @ ''/vectors/fetch'')
       (Some (JObj [(''namespace'', JStr ns), (''ids'', JList (map JStr ids))])) s"

definition sdk_delete ::
    "vsector_client \<Rightarrow> 's http \<Rightarrow> string \<Rightarrow> string list option \<Rightarrow> (string, json) dict option \<Rightarrow> 's \<Rightarrow> answer res \<times> 's" where
  "sdk_delete c send ns ids f s =
     call_server c send POST (vc_base_url c @ ''/vectors/delete'')
       (Some (JObj [(''namespace'', JStr ns), (''ids'', opt_json (\<lambda>xs. JList (map JStr xs)) ids),
          (''filter'', opt_json JObj f)])) s"

definition sdk_health :: "vsector_client \<Rightarrow> 's http \<Rightarrow> 's \<Rightarrow> answer res \<times> 's" where
  "sdk_health c send s = call_server c send GET ''http://localhost:8080/health'' None s"

subsection \<open>The wire\<close>

text \<open>A node listening at an origin: a URL of another origin reaches nothing.\<close>

definition path_at :: "string \<Rightarrow> string \<Rightarrow> string option" where
  "path_at origin url =
     (let path = drop (length origin) url in
      if starts_with origin url \<and> starts_with ''/'' path then Some path else None)"

definition over_http ::
    "string \<Rightarrow> ('h, 'f, 'r) framework \<Rightarrow> ('h, 'f, 'r) api_env \<Rightarrow> call_env \<Rightarrow> ('h, 'f, 'r) server http" where
  "over_http origin fw ae ce hc sv =
     (case path_at origin (hc_url hc) of
        None \<Rightarrow> (Inl (OtherError ''ConnectError'' ''Connection refused''), sv)
      | Some path \<Rightarrow>
          (let (r, sv1) = serve fw ae ce
             \<lparr>hr_verb = hc_verb hc, hr_path = path, hr_params = [], hr_api_key = hc_api_key hc,
              hr_authorization = None, hr_body = hc_body hc\<rparr> sv
           in (Inr r, sv1)))"

subsection \<open>The LangChain vector store\<close>

record embedder =
  em_documents :: "string list \<Rightarrow> vec list res"
  em_query :: "string \<Rightarrow> vec res"

record lang_store =
  ls_client :: vsector_client
  ls_namespace :: string
  ls_embedding :: "embedder option"

definition embedding_required :: exn where
  "embedding_required = ValueError ''embedding required''"

definition index_error :: exn where
  "index_error = OtherError ''IndexError'' ''list index out of range''"

text \<open>
  The payload. The conditional expression covers the whole of \<open>{} | {"text": texts[i]}\<close>: a text goes into
  the metadata only when no metadatas were given.
\<close>

definition lang_metadata :: "string list \<Rightarrow> (string, json) dict list option \<Rightarrow> nat \<Rightarrow> (string, json) dict res" where
  "lang_metadata texts metadatas i =
     (case metadatas of
        Some (m # ms) \<Rightarrow> if i < length (m # ms) then Inr ((m # ms) ! i) else Inl index_error
      | _ \<Rightarrow> if i < length texts then Inr [(''text'', JStr (texts ! i))] else Inl index_error)"

fun lang_payload ::
    "string list \<Rightarrow> (string, json) dict list option \<Rightarrow> nat \<Rightarrow> vec list \<Rightarrow> (string, json) dict list res" where
  "lang_payload texts metadatas i [] = Inr []"
| "lang_payload texts metadatas i (v # vs) =
     (case lang_metadata texts metadatas i of
        Inl e \<Rightarrow> Inl e
      | Inr md \<Rightarrow>
          (case lang_payload texts metadatas (Suc i) vs of
             Inl e \<Rightarrow> Inl e
           | Inr ps \<Rightarrow> Inr ([(''vector'', JList (map JFloat v)), (''metadata'', JObj md)] # ps)))"

definition add_texts ::
    "lang_store \<Rightarrow> 's http \<Rightarrow> string list \<Rightarrow> (string, json) dict list option \<Rightarrow> 's \<Rightarrow> string list res \<times> 's" where
  "add_texts ls send texts metadatas s =
     (case ls_embedding ls of
        None \<Rightarrow> (Inl embedding_required, s)
      | Some em \<Rightarrow>
          (case em_documents em texts of
             Inl e \<Rightarrow> (Inl e, s)
           | Inr vectors \<Rightarrow>
               (case lang_payload texts metadatas 0 vectors of
                  Inl e \<Rightarrow> (Inl e, s)
                | Inr payload \<Rightarrow>
                    (case sdk_upsert (ls_client ls) send (ls_namespace ls) payload None s of
                       (Inl e, s1) \<Rightarrow> (Inl e, s1)
                     | (Inr (UpsertAnswer r), s1) \<Rightarrow> (Inr (ur_ids r), s1)
                     | (Inr _, s1) \<Rightarrow> (Inr [], s1)))))"

definition lang_text :: "hit \<Rightarrow> json" where
  "lang_text h = (case dict_get (qh_metadata h) ''text'' of None \<Rightarrow> JStr (qh_id h) | Some t \<Rightarrow> t)"

definition similarity_search_with_score ::
    "lang_store \<Rightarrow> 's http \<Rightarrow> string \<Rightarrow> int \<Rightarrow> 's \<Rightarrow> (json \<times> real) list res \<times> 's" where
  "similarity_search_with_score ls send q k s =
     (case ls_embedding ls of
        None \<Rightarrow> (Inl embedding_required, s)
      | Some em \<Rightarrow>
          (case em_query em q of
             Inl e \<Rightarrow> (Inl e, s)
           | Inr v \<Rightarrow>
               (case sdk_query (ls_client ls) send (ls_namespace ls) v k None [] s of
                  (Inl e, s1) \<Rightarrow> (Inl e, s1)
                | (Inr (QueryAnswer r), s1) \<Rightarrow> (Inr (map (\<lambda>h. (lang_text h, qh_score h)) (qr_results r)), s1)
                | (Inr _, s1) \<Rightarrow> (Inr [], s1))))"

definition from_texts ::
    "string list \<Rightarrow> embedder option \<Rightarrow> (string, json) dict list option \<Rightarrow> vsector_client \<Rightarrow> string \<Rightarrow> 's http \<Rightarrow> 's \<Rightarrow>
     lang_store res \<times> 's" where
  "from_texts texts embedding metadatas c ns send s =
     (let ls = \<lparr>ls_client = c, ls_namespace = ns, ls_embedding = embedding\<rparr> in
      case add_texts ls send texts metadatas s of (Inl e, s1) \<Rightarrow> (Inl e, s1) | (Inr ids, s1) \<Rightarrow> (Inr ls, s1))"

subsection \<open>The LlamaIndex vector store\<close>

record llama_node =
  ln_node_id :: string
  ln_embedding :: "vec option"
  ln_metadata :: "(string, json) dict"
  ln_text :: string

record llama_store =
  lm_client :: vsector_client
  lm_namespace :: string

definition llama_raw :: "llama_node \<Rightarrow> (string, json) dict" where
  "llama_raw n = [(''id'', JStr (ln_node_id n)),
     (''vector'', opt_json (\<lambda>v. JList (map JFloat v)) (ln_embedding n)),
     (''metadata'', JObj (dict_put ''text'' (JStr (ln_text n)) (ln_metadata n)))]"

text \<open>The answer of the upsert is dropped.\<close>

definition llama_add :: "llama_store \<Rightarrow> 's http \<Rightarrow> llama_node list \<Rightarrow> 's \<Rightarrow> string list res \<times> 's" where
  "llama_add lm send nodes s =
     (case sdk_upsert (lm_client lm) send (lm_namespace lm) (map llama_raw nodes) None s of
        (Inl e, s1) \<Rightarrow> (Inl e, s1) | (Inr _, s1) \<Rightarrow> (Inr (map ln_node_id nodes), s1))"

text \<open>The result is the ids and the similarities; its class is imported after the request.\<close>

definition llama_query ::
    "bool \<Rightarrow> llama_store \<Rightarrow> 's http \<Rightarrow> vec \<Rightarrow> int \<Rightarrow> 's \<Rightarrow> (string list \<times> real list) res \<times> 's" where
  "llama_query has_llama lm send v k s =
     (case sdk_query (lm_client lm) send (lm_namespace lm) v k None [] s of
        (Inl e, s1) \<Rightarrow> (Inl e, s1)
      | (Inr a, s1) \<Rightarrow>
          (let hits = (case a of QueryAnswer r \<Rightarrow> qr_results r | _ \<Rightarrow> []) in
           if has_llama then (Inr (map qh_id hits, map qh_score hits), s1)
           else (Inl (OtherError ''ModuleNotFoundError'' ''No module named llama_index''), s1)))"

subsection \<open>The command line\<close>

datatype cli_command =
    CliServe "string option" "int option" int bool
  | CliHealth
  | CliVersion
  | CliNone

datatype cli_action =
    SetupLogging string
  | PrintLine string
  | RunRest string int bool string
  | PrintHealth string
  | PrintHelp

text \<open>What \<open>main\<close> does for a parsed command line: \<open>host or settings.host\<close>, and zero is no port.\<close>

definition cli_main :: "app_settings \<Rightarrow> cli_command \<Rightarrow> cli_action list" where
  "cli_main cf cmd = SetupLogging (cf_log_level cf) #
     (case cmd of
        CliServe host port grpc_port reload \<Rightarrow>
          (let h = (case host of None \<Rightarrow> cf_host cf | Some x \<Rightarrow> if x = [] then cf_host cf else x);
               p = (case port of None \<Rightarrow> cf_port cf | Some n \<Rightarrow> if n = 0 then cf_port cf else n)
           in [PrintLine (''Starting Vsector REST http://'' @ h @ '':'' @ int_str p @ cf_api_prefix cf @ ''  gRPC :'' @
                 int_str grpc_port),
               RunRest h p reload (lower (cf_log_level cf))])
      | CliHealth \<Rightarrow> [PrintHealth (''http://'' @ cf_host cf @ '':'' @ int_str (cf_port cf) @ ''/health'')]
      | CliVersion \<Rightarrow> [PrintLine (cf_version cf)]
      | CliNone \<Rightarrow> [PrintHelp])"

subsection \<open>The log output\<close>

record log_record =
  lr_asctime :: string
  lr_levelname :: string
  lr_name :: string
  lr_message :: string
  lr_module :: string
  lr_exc_info :: "string option"

definition json_log_line :: "log_record \<Rightarrow> json" where
  "json_log_line r = JObj
     ([(''timestamp'', JStr (lr_asctime r)), (''level'', JStr (lr_levelname r)), (''logger'', JStr (lr_name r)),
       (''message'', JStr (lr_message r)), (''module'', JStr (lr_module r))] @
      (case lr_exc_info r of None \<Rightarrow> [] | Some x \<Rightarrow> [(''exc_info'', JStr x)]))"

text \<open>\<open>getattr(logging, level.upper(), logging.INFO)\<close> over the names of the levels.\<close>

definition level_number :: "string \<Rightarrow> int" where
  "level_number level =
     (case dict_get [(''CRITICAL'', 50), (''FATAL'', 50), (''ERROR'', 40), (''WARNING'', 30), (''WARN'', 30),
        (''INFO'', 20), (''DEBUG'', 10), (''NOTSET'', 0)] (upper level) of
        None \<Rightarrow> 20 | Some n \<Rightarrow> n)"

text \<open>The level and, unless \<open>VSECTOR_LOG_JSON\<close> is 1, the text format of the one handler.\<close>

definition setup_logging :: "header \<Rightarrow> string \<Rightarrow> int \<times> string option" where
  "setup_logging log_json level =
     (level_number level,
      if log_json = Some ''1'' then None else Some ''%(asctime)s | %(levelname)-7s | %(name)s | %(message)s'')"

end
