(* ===== verification/Client_Facts.thy ===== *)
theory Client_Facts
  imports Client Api_Facts
begin

text \<open>
  The Python client and the node, composed: a call of the client over HTTP is the call of the endpoint its
  name says, with the arguments it was given, behind the dependencies of that endpoint.
\<close>

subsection \<open>From the URL to the route\<close>

text \<open>The client of a node at an origin, with the default prefix.\<close>

definition client_of :: "string \<Rightarrow> ('h, 'f, 'r) framework \<Rightarrow> vsector_client \<Rightarrow> bool" where
  "client_of origin fw c \<longleftrightarrow> vc_base_url c = origin @ ''/v1'' \<and> \<not> vc_closed c \<and>
     cf_api_prefix (fw_settings fw) = ''/v1'' \<and> plain_scalars (fw_scalars fw)"

lemma path_at_origin: "path_at origin (origin @ CHR ''/'' # path) = Some (CHR ''/'' # path)"
  by (simp add: path_at_def starts_with_def)

lemma split_path_name: "CHR ''/'' \<notin> set name \<Longrightarrow> split_path seg name = [seg @ name]"
  by (induction name arbitrary: seg) auto

lemma split_path_segment: "CHR ''/'' \<notin> set name \<Longrightarrow> split_path seg (name @ CHR ''/'' # rest) = (seg @ name) # split_path [] rest"
  by (induction name arbitrary: seg) auto

lemma name_no_slash: "list_all name_char ns \<Longrightarrow> CHR ''/'' \<notin> set ns"
proof -
  have "\<not> name_char CHR ''/''" by code_simp
  then show "list_all name_char ns \<Longrightarrow> ?thesis" by (auto simp: list_all_iff)
qed

lemma fixed_routes:
  "find_route (routes ''/v1'') POST (split_path [] (''/v1'' @ ''/namespaces'')) = Some (RCreateNamespace, [])"
  "find_route (routes ''/v1'') POST (split_path [] (''/v1'' @ ''/vectors/upsert'')) = Some (RUpsert, [])"
  "find_route (routes ''/v1'') POST (split_path [] (''/v1'' @ ''/vectors/query'')) = Some (RQuery, [])"
  "find_route (routes ''/v1'') POST (split_path [] (''/v1'' @ ''/vectors/fetch'')) = Some (RFetch, [])"
  "find_route (routes ''/v1'') POST (split_path [] (''/v1'' @ ''/vectors/delete'')) = Some (RDelete, [])"
  by code_simp+

lemma name_routes:
  assumes "list_all name_char name" "name \<noteq> []"
  shows "find_route (routes ''/v1'') DELETE (split_path [] (''/v1'' @ ''/namespaces/'' @ name)) =
      Some (RDeleteNamespace, name)"
    and "find_route (routes ''/v1'') GET (split_path [] (''/v1'' @ ''/namespaces/'' @ name @ ''/stats'')) =
      Some (RNamespaceStats, name)"
  using assms split_path_name [OF name_no_slash [OF assms(1)]] split_path_segment [OF name_no_slash [OF assms(1)]]
  by (simp_all add: routes_def starts_with_def)

subsection \<open>One call\<close>

text \<open>What a client sees of a response, and of an endpoint behind its dependencies.\<close>

definition seen :: "http_response \<times> 's \<Rightarrow> answer res \<times> 's" where
  "seen out = ((case fst out of Answered a \<Rightarrow> Inr a | Refused status detail \<Rightarrow> Inl (status_error status)), snd out)"

definition dependencies ::
    "('h, 'f, 'r) framework \<Rightarrow> call_env \<Rightarrow> vsector_client \<Rightarrow> bool \<Rightarrow> ('h, 'f, 'r) server \<Rightarrow> claims res \<times> ('h, 'f, 'r) server" where
  "dependencies fw ce c limited sv =
     (let cfg = gateway_settings (fw_settings fw); key = vc_api_key c;
          checked = verify_api_key cfg api_keys (fw_jwt fw) key None in
      if limited then
        (case rate_limiter cfg api_keys (ce_now ce) key (sv_buckets sv) of
           (Inl e, b) \<Rightarrow> (Inl e, sv\<lparr>sv_buckets := b\<rparr>) | (Inr k, b) \<Rightarrow> (checked, sv\<lparr>sv_buckets := b\<rparr>))
      else (checked, sv))"

definition endpoint_call ::
    "('h, 'f, 'r) framework \<Rightarrow> call_env \<Rightarrow> vsector_client \<Rightarrow> bool \<Rightarrow> ('a \<Rightarrow> answer) \<Rightarrow>
     (claims \<Rightarrow> ('h, 'f, 'r) node \<Rightarrow> 'a res \<times> ('h, 'f, 'r) node) \<Rightarrow> ('h, 'f, 'r) server \<Rightarrow>
     answer res \<times> ('h, 'f, 'r) server" where
  "endpoint_call fw ce c limited wrap run sv =
     (case dependencies fw ce c limited sv of
        (Inl e, sv1) \<Rightarrow> seen (respond JsonAnswer (Inl e), sv1)
      | (Inr auth, sv1) \<Rightarrow> seen (on_node wrap (run auth (sv_node sv1)) sv1))"

lemma call_route:
  assumes "client_of origin fw c"
    and "find_route (routes ''/v1'') v (split_path [] (''/v1'' @ path)) = Some (r, x)"
  shows "call_server c (over_http origin fw ae ce) v (vc_base_url c @ path) body sv =
    seen (serve_route fw (configured (fw_settings fw) ae) ce r x
      \<lparr>hr_verb = v, hr_path = ''/v1'' @ path, hr_params = [], hr_api_key = vc_api_key c,
       hr_authorization = None, hr_body = body\<rparr> sv)"
  using assms path_at_origin [of origin "''v1'' @ path"]
  by (auto simp: call_server_def over_http_def serve_def client_of_def seen_def split: http_response.split prod.split)

lemma admit_dependencies:
  "hr_api_key rq = vc_api_key c \<Longrightarrow> hr_authorization rq = None \<Longrightarrow>
   admit (gateway_settings (fw_settings fw)) (fw_jwt fw) (ce_now ce) limited rq sv = dependencies fw ce c limited sv"
  by (simp add: admit_def dependencies_def Let_def split: sum.split prod.split)

lemma guarded_call:
  assumes "hr_api_key rq = vc_api_key c" "hr_authorization rq = None" "hr_body rq = Some (JObj kvs)"
  shows "seen (guarded fw ce limited decode run rq sv) =
    (case dependencies fw ce c limited sv of
       (Inl e, sv1) \<Rightarrow> seen (respond JsonAnswer (Inl e), sv1)
     | (Inr auth, sv1) \<Rightarrow>
         (case decode kvs of None \<Rightarrow> seen (Refused 422 ''Unprocessable Entity'', sv1) | Some b \<Rightarrow> seen (run auth b sv1)))"
  using assms(3) by (simp add: guarded_def admit_dependencies [OF assms(1,2)] split: sum.split prod.split option.split)

lemma authorised_call:
  assumes "hr_api_key rq = vc_api_key c" "hr_authorization rq = None"
  shows "seen (authorised fw ce run rq sv) =
    (case dependencies fw ce c False sv of
       (Inl e, sv1) \<Rightarrow> seen (respond JsonAnswer (Inl e), sv1) | (Inr auth, sv1) \<Rightarrow> seen (run sv1))"
  by (simp add: authorised_def admit_dependencies [OF assms] split: sum.split prod.split)

subsection \<open>The bodies\<close>

lemma all_some_map: "(\<And>x. dec (f x) = Some (g x)) \<Longrightarrow> all_some (map dec (map f xs)) = Some (map g xs)"
  by (induction xs) simp_all

lemma decoded_lists:
  "list_field object_field (JList (map JObj xs)) = Some xs"
  "plain_scalars sc \<Longrightarrow> list_field (sc_str sc) (JList (map JStr ss)) = Some ss"
  "plain_scalars sc \<Longrightarrow> list_field (sc_float sc) (JList (map JFloat v)) = Some v"
  using all_some_map [of object_field JObj "\<lambda>x. x"] all_some_map [of "sc_str sc" JStr "\<lambda>x. x"]
    all_some_map [of "sc_float sc" JFloat "\<lambda>x. x"]
  by (simp_all add: plain_scalars_def)

declare list_field.simps [simp del]

lemma decoded_scalars:
  assumes "plain_scalars sc"
  shows "sc_int sc (JInt i) = Some i" "sc_str sc (JStr s) = Some s" "sc_bool sc (JBool b) = Some b"
  using assms by (simp_all add: plain_scalars_def)

lemmas decode_simps = required_def nullable_def field_or_def decoded_lists decoded_scalars

lemma decode_upsert_json:
  "plain_scalars sc \<Longrightarrow> decode_upsert sc (upsert_json ns vectors idem) =
     Some \<lparr>ub_namespace = ns, ub_vectors = vectors, ub_idempotency_key = (if idem = Some [] then None else idem)\<rparr>"
  by (auto simp: decode_upsert_def upsert_json_def decode_simps split: option.split)

definition some_int :: "nat option \<Rightarrow> json" where
  "some_int n = opt_json (\<lambda>k. JInt (int k)) n"

definition query_options :: "nat option \<Rightarrow> nat option \<Rightarrow> bool \<Rightarrow> bool \<Rightarrow> (string, json) dict" where
  "query_options ef np md vs = [(''ef_search'', some_int ef), (''nprobe'', some_int np),
     (''include_metadata'', JBool md), (''include_vector'', JBool vs)]"

lemma decode_query_json:
  "plain_scalars sc \<Longrightarrow> decode_query sc (query_json ns v k fs (query_options ef np md vs)) =
     Some \<lparr>qb_namespace = ns, qb_vector = v, qb_top_k = k, qb_ef_search = map_option int ef,
       qb_nprobe = map_option int np, qb_filters = Some (case fs of None \<Rightarrow> [] | Some f \<Rightarrow> f),
       qb_include_metadata = md, qb_include_vector = vs, qb_consistency = ''EVENTUAL'', qb_timeout_ms = 200\<rparr>"
  by (cases ef; cases np)
    (simp_all add: decode_query_def query_json_def query_options_def some_int_def opt_json_def decode_simps)

lemma decode_delete_json:
  "plain_scalars sc \<Longrightarrow> decode_delete sc [(''namespace'', JStr ns), (''ids'', opt_json (\<lambda>xs. JList (map JStr xs)) ids),
       (''filter'', opt_json JObj f)] = Some \<lparr>db_namespace = ns, db_ids = ids, db_filter = f\<rparr>"
  by (cases ids; cases f) (simp_all add: decode_delete_def opt_json_def decode_simps)


lemma decode_others:
  assumes "plain_scalars sc"
  shows "decode_fetch sc [(''namespace'', JStr ns), (''ids'', JList (map JStr ids))] =
      Some \<lparr>fb_namespace = ns, fb_ids = ids\<rparr>"
    and "decode_namespace_create sc [(''name'', JStr name), (''dimension'', JInt d), (''distance_metric'', JStr dm),
        (''index_type'', JStr it)] =
      Some \<lparr>nc_name = name, nc_dimension = d, nc_distance_metric = dm, nc_index_type = it,
        nc_replication_factor = 3, nc_shard_count = 8, nc_compression = ''NONE'', nc_expected_records = None\<rparr>"
  using assms by (simp_all add: decode_fetch_def decode_namespace_create_def decode_simps)

lemma args_of_query:
  "args_of_body \<lparr>qb_namespace = ns, qb_vector = v, qb_top_k = int k, qb_ef_search = map_option int ef,
     qb_nprobe = map_option int np, qb_filters = Some f, qb_include_metadata = md, qb_include_vector = vs,
     qb_consistency = cons, qb_timeout_ms = tmo\<rparr> =
   \<lparr>qa_namespace = ns, qa_vector = v, qa_top_k = k, qa_ef_search = ef, qa_nprobe = np, qa_filters = f,
     qa_include_metadata = md, qa_include_vector = vs\<rparr>"
  by (cases ef; cases np) (simp_all add: args_of_body_def)

lemma natural_int [simp]: "natural (map_option int n)" "natural (Some (int k))"
  by (simp_all add: natural_def split: option.split)

lemma client_ofD:
  assumes "client_of origin fw c"
  shows "cf_api_prefix (fw_settings fw) = ''/v1''" "plain_scalars (fw_scalars fw)"
  using assms by (simp_all add: client_of_def)

subsection \<open>The calls\<close>

lemma sdk_upsert_call:
  assumes "client_of origin fw c"
  shows "sdk_upsert c (over_http origin fw ae ce) ns vectors idem sv =
    endpoint_call fw ce c True UpsertAnswer (\<lambda>auth. upsert_vectors (configured (fw_settings fw) ae) (ce_clock ce)
      (ce_ids ce) (ce_took ce) auth ns vectors (if idem = Some [] then None else idem)) sv"
  unfolding sdk_upsert_def call_route [OF assms fixed_routes(2)]
  by (simp add: client_ofD [OF assms] guarded_call decode_upsert_json endpoint_call_def split: sum.split prod.split)

lemma sdk_fetch_call:
  assumes "client_of origin fw c"
  shows "sdk_fetch c (over_http origin fw ae ce) ns ids sv =
    endpoint_call fw ce c False VectorsAnswer (\<lambda>auth. fetch_vectors (configured (fw_settings fw) ae) (ce_moments ce)
      auth ns ids) sv"
  unfolding sdk_fetch_def call_route [OF assms fixed_routes(4)]
  by (simp add: client_ofD [OF assms] guarded_call decode_others(1) endpoint_call_def split: sum.split prod.split)

lemma sdk_delete_call:
  assumes "client_of origin fw c"
  shows "sdk_delete c (over_http origin fw ae ce) ns ids f sv =
    endpoint_call fw ce c False DeleteAnswer (\<lambda>auth. delete_vectors (configured (fw_settings fw) ae) (ce_clock ce)
      (ce_now ce) auth ns (case ids of None \<Rightarrow> [] | Some xs \<Rightarrow> xs) (case f of None \<Rightarrow> [] | Some g \<Rightarrow> g)) sv"
  unfolding sdk_delete_def call_route [OF assms fixed_routes(5)]
  by (simp add: client_ofD [OF assms] guarded_call decode_delete_json endpoint_call_def split: sum.split prod.split)

lemma sdk_query_call:
  assumes "client_of origin fw c"
  shows "sdk_query c (over_http origin fw ae ce) ns v (int k) f (query_options ef np md vs) sv =
    endpoint_call fw ce c True QueryAnswer (\<lambda>auth. query_vectors (configured (fw_settings fw) ae) (ce_timeout ce)
      (ce_now ce) (ce_end ce) (ce_took ce) auth
      \<lparr>qa_namespace = ns, qa_vector = v, qa_top_k = k, qa_ef_search = ef, qa_nprobe = np,
       qa_filters = (case f of None \<Rightarrow> [] | Some g \<Rightarrow> g), qa_include_metadata = md, qa_include_vector = vs\<rparr>) sv"
  unfolding sdk_query_def call_route [OF assms fixed_routes(3)]
  by (simp add: client_ofD [OF assms] guarded_call decode_query_json endpoint_call_def
      serve_query_def args_of_query split: sum.split prod.split)

lemma sdk_create_call:
  assumes "client_of origin fw c"
  shows "sdk_create_namespace c (over_http origin fw ae ce) name d dm it [] sv =
    endpoint_call fw ce c True JsonAnswer (\<lambda>auth. create_namespace (configured (fw_settings fw) ae) (ce_uid ce)
      (ce_created ce) \<lparr>nc_name = name, nc_dimension = d, nc_distance_metric = dm, nc_index_type = it,
        nc_replication_factor = 3, nc_shard_count = 8, nc_compression = ''NONE'', nc_expected_records = None\<rparr>) sv"
  unfolding sdk_create_namespace_def call_route [OF assms fixed_routes(1)]
  by (simp add: client_ofD [OF assms] guarded_call decode_others(2) endpoint_call_def split: sum.split prod.split)

lemma sdk_name_calls:
  assumes "client_of origin fw c" "list_all name_char name" "name \<noteq> []"
  shows "sdk_delete_namespace c (over_http origin fw ae ce) name sv =
      endpoint_call fw ce c False DeletedAnswer (\<lambda>auth. delete_namespace name) sv"
    and "sdk_stats c (over_http origin fw ae ce) name sv =
      seen (respond StatsAnswer (get_namespace_stats (fw_round2 fw) name (sv_node sv)), sv)"
  unfolding sdk_delete_namespace_def sdk_stats_def
    call_route [OF assms(1) name_routes(1) [OF assms(2,3)]] call_route [OF assms(1) name_routes(2) [OF assms(2,3)]]
  by (simp_all add: authorised_call endpoint_call_def split: sum.split prod.split)

subsection \<open>Reading one's writes through the client\<close>

lemma dependencies_Inr:
  assumes "dependencies fw ce c limited sv = (Inr auth, sv1)"
  shows "sv_node sv1 = sv_node sv"
    and "verify_api_key (gateway_settings (fw_settings fw)) api_keys (fw_jwt fw) (vc_api_key c) None = Inr auth"
  using assms by (auto simp: dependencies_def Let_def split: if_splits sum.splits prod.splits)

lemma endpoint_call_Inr:
  assumes "endpoint_call fw ce c limited wrap run sv = (Inr a, sv1)"
  obtains auth x where "run auth (sv_node sv) = (Inr x, sv_node sv1)" "a = wrap x"
    "verify_api_key (gateway_settings (fw_settings fw)) api_keys (fw_jwt fw) (vc_api_key c) None = Inr auth"
proof -
  have refused: "seen (respond f (Inl e), s) \<noteq> (Inr a, sv1)" for f :: "'x \<Rightarrow> answer" and e s
    by (cases e) (simp_all add: seen_def respond_def)
  obtain y sv2 where d: "dependencies fw ce c limited sv = (y, sv2)" by fastforce
  with assms refused obtain auth where y: "y = Inr auth" by (cases y) (auto simp: endpoint_call_def)
  obtain z nd where r: "run auth (sv_node sv2) = (z, nd)" by fastforce
  with assms d y refused obtain x where z: "z = Inr x" by (cases z) (auto simp: endpoint_call_def on_node_def)
  show thesis
    using assms d y r z dependencies_Inr [OF d [unfolded y]]
    by (intro that) (auto simp: endpoint_call_def on_node_def seen_def respond_def)
qed

lemma upsert_vectors_Inr:
  "upsert_vectors ae clk ids took auth ns raws idem nd = (Inr res, nd1) \<Longrightarrow>
   guard ae auth ns ''upsert'' = Inr () \<and>
   upsert (ae_ienv ae) clk ids took ns raws idem (nd_service nd) = (Inr res, nd_service nd1)"
  by (auto simp: upsert_vectors_def http_of_def split: sum.splits prod.splits if_splits)

text \<open>Without an external policy service, whoever may write a namespace may fetch from it.\<close>

lemma writer_fetches: "role_allows role ''upsert'' \<Longrightarrow> role_allows role ''fetch''"
  by (auto simp: role_allows_def role_actions_def Let_def split: if_splits option.splits)

lemma guard_fetch:
  assumes "ae_opa ae = None" "guard ae auth ns ''upsert'' = Inr ()"
  shows "guard ae auth ns ''fetch'' = Inr ()"
  using assms writer_fetches
  by (auto simp: guard_def check_permission_def list_ex_iff Let_def split: sum.splits if_splits)

lemma configured_fields [simp]:
  "ae_ienv (configured cf ae) = ae_ienv ae" "ae_opa (configured cf ae) = ae_opa ae"
  "ae_redis (configured cf ae) = ae_redis ae" "ae_texts (configured cf ae) = ae_texts ae"
  "ae_rerank (configured cf ae) = ae_rerank ae"
  by (simp_all add: configured_def)

lemma sdk_fetch_answered:
  assumes "client_of origin fw c"
    and "verify_api_key (gateway_settings (fw_settings fw)) api_keys (fw_jwt fw) (vc_api_key c) None = Inr auth"
    and "guard (configured (fw_settings fw) ae) auth ns ''fetch'' = Inr ()"
    and "fst (fetch (ae_ienv ae) (ce_moments ce) ns ids (nd_service (sv_node sv))) = Inr vs"
  shows "\<exists>sv'. sdk_fetch c (over_http origin fw ae ce) ns ids sv = (Inr (VectorsAnswer vs), sv')"
proof -
  obtain st where "fetch (ae_ienv ae) (ce_moments ce) ns ids (nd_service (sv_node sv)) = (Inr vs, st)"
    using assms(4) by (metis prod.collapse)
  with assms(2,3) show ?thesis
    by (simp add: sdk_fetch_call [OF assms(1)] endpoint_call_def dependencies_def fetch_vectors_def http_of_def
        on_node_def seen_def respond_def)
qed

lemma last_of_listed: "i \<in> vr_id ` set recs \<Longrightarrow> last_of recs i = Some (the (last_of recs i))"
  by (induction recs) (auto simp: last_of_Cons split: option.splits)



subsection \<open>A concrete client\<close>

definition strict_scalars :: scalars where
  "strict_scalars = \<lparr>sc_int = as_int, sc_float = as_float, sc_str = as_str,
     sc_bool = (\<lambda>j. case j of JBool b \<Rightarrow> Some b | _ \<Rightarrow> None)\<rparr>"

definition demo_framework :: "(unit, unit, unit) framework" where
  "demo_framework = \<lparr>fw_settings = default_settings, fw_local_state = ''ACTIVE'', fw_jwt = (\<lambda>t. None),
     fw_scalars = strict_scalars, fw_round2 = (\<lambda>x. x), fw_metrics = [], fw_other = (\<lambda>rq. Refused 404 ''Not Found''),
     fw_negative = (\<lambda>b sv. (Refused 500 [], sv))\<rparr>"

definition demo_client :: vsector_client where
  "demo_client = new_client ''http://db:8080/v1/'' None"

definition demo_call :: "nat \<Rightarrow> call_env" where
  "demo_call t = \<lparr>ce_now = of_nat t, ce_uid = ''u'', ce_created = (\<lambda>i. 0), ce_clock = write_clock,
     ce_ids = (\<lambda>k. (''f'', ''x'', ''y'')), ce_took = 1, ce_moments = (\<lambda>j. demo_moment t), ce_timeout = False, ce_end = of_nat t\<rparr>"

definition demo_server :: "(unit, unit, unit) server" where
  "demo_server = \<lparr>sv_node = empty_node\<lparr>nd_service := open_service\<rparr>, sv_buckets = []\<rparr>"

abbreviation demo_http :: "nat \<Rightarrow> (unit, unit, unit) server http" where
  "demo_http t \<equiv> over_http ''http://db:8080'' demo_framework demo_api (demo_call t)"

lemma demo_client_of: "client_of ''http://db:8080'' demo_framework demo_client"
  by (simp add: client_of_def demo_client_def new_client_def rstrip_slash_def demo_framework_def default_settings_def
      plain_scalars_def strict_scalars_def)

lemma demo_dependencies:
  "dependencies demo_framework (demo_call t) demo_client limited demo_server =
     (Inr [(''sub'', JStr ''dev'')],
      if limited then demo_server\<lparr>sv_buckets := [(''anonymous'', [of_nat t])]\<rparr> else demo_server)"
  by (simp add: dependencies_def Let_def rate_limiter_def verify_api_key_def gateway_settings_def demo_framework_def
      default_settings_def demo_client_def new_client_def demo_server_def header_or_def bucket_def quota_of_def api_keys_def
      demo_call_def)


lemma demo_guard: "guard (configured default_settings ae) auth ns a = Inr ()"
  by (simp add: guard_def configured_def gateway_settings_def default_settings_def split: sum.split)


end
