(* ===== verification/Client_Errors.thy ===== *)
theory Client_Errors
  imports Client_Facts
begin

text \<open>
  What clients are told that is not so: searches that still find what a client has deleted, and the vector
  stores of the integrations, which report nodes as added that were refused and drop texts.
\<close>

subsection \<open>The table of namespaces\<close>

text \<open>Searches and deletions leave the namespaces of the service alone.\<close>

lemma delete_id_namespaces: "ig_namespaces (da_service (delete_id ev mos b ns nsr r key i a)) = ig_namespaces (da_service a)"
  by (auto simp: delete_id_def Let_def split: option.splits prod.splits dest!: replicate_frame(3))

lemma delete_ids_namespaces:
  "delete_ids ev clk ns nsr r key k is a = (x, k', a') \<Longrightarrow> ig_namespaces (da_service a') = ig_namespaces (da_service a)"
  by (induction "is" arbitrary: k a) (auto simp: delete_id_namespaces split: option.splits sum.splits)

lemma delete_matching_namespaces:
  "delete_matching ev clk ns nsr r key f k recs a = (x, k', a') \<Longrightarrow>
   ig_namespaces (da_service a') = ig_namespaces (da_service a)"
  by (induction recs arbitrary: k a) (auto simp: delete_id_namespaces split: sum.splits if_splits)

lemma get_or_create_namespaces:
  "get_or_create_ctx ev mo ns r st = (x, st1) \<Longrightarrow> ig_namespaces st1 = ig_namespaces st"
  by (auto simp: get_or_create_ctx_def Let_def set_shard_def split: option.splits prod.splits sum.splits)

lemma delete_in_shard_namespaces:
  assumes "delete_in_shard ev clk ns nsr del f k r a = (x, k', a')"
  shows "ig_namespaces (da_service a') = ig_namespaces (da_service a)"
  using assms
  by (cases "get_or_create_ctx ev (clk k 0) ns r (da_service a)")
    (auto simp: delete_in_shard_def Let_def split: sum.splits if_splits option.splits
      dest!: get_or_create_namespaces delete_ids_namespaces delete_matching_namespaces)

lemma delete_loop_namespaces:
  "delete_loop ev clk ns nsr del f k rs a = (x, a') \<Longrightarrow> ig_namespaces (da_service a') = ig_namespaces (da_service a)"
  by (induction rs arbitrary: k a) (auto split: sum.splits prod.splits dest!: delete_in_shard_namespaces)

lemma flush_touched_namespaces: "flush_touched keys st = (x, st') \<Longrightarrow> ig_namespaces st' = ig_namespaces st"
  by (induction keys arbitrary: st) (auto split: option.splits prod.splits sum.splits)

lemma ingest_delete_namespaces:
  assumes "ingest_delete ev clk now ns del f st = (x, st')"
  shows "ig_namespaces st' = ig_namespaces st"
  using assms
  by (auto simp: ingest_delete_def split: option.splits sum.splits prod.splits
      dest!: flush_touched_namespaces delete_loop_namespaces)

lemma search_shards_namespaces:
  "search_shards ev qa rs st = (x, st') \<Longrightarrow> ig_namespaces st' = ig_namespaces st"
proof (induction rs arbitrary: x st)
  case (Cons r rs)
  obtain y st1 where one: "search_shard ev qa r st = (y, st1)" by fastforce
  then have "ig_namespaces st1 = ig_namespaces st"
    by (auto simp: search_shard_def Let_def split: option.splits prod.splits sum.splits)
  with Cons one show ?case by (auto split: prod.splits)
qed simp

lemma query_answered:
  assumes "query ev ro qt mode timeout now now2 took qa (st, c) = (Inr r, st1, c1)"
  shows "ig_namespaces st1 = ig_namespaces st"
    and "\<exists>nsr. dict_get (ig_namespaces st) (qa_namespace qa) = Some nsr \<and> int (length (qa_vector qa)) = ns_dimension nsr"
  using assms
  by (auto simp: query_def Let_def split: option.splits bool.splits if_splits sum.splits prod.splits
      dest!: search_shards_namespaces)

subsection \<open>A deleted vector is still found\<close>

lemma query_vectors_Inr:
  assumes "query_vectors ae timeout now now2 took auth qa nd = (Inr r, nd1)"
  shows "guard ae auth (qa_namespace qa) ''query'' = Inr ()"
    and "query (ae_ienv ae) (ae_redis ae) (ae_texts ae) (ae_rerank ae) timeout now now2 took qa
      (nd_service nd, nd_cache nd) = (Inr r, nd_service nd1, nd_cache nd1)"
  using assms by (auto simp: query_vectors_def http_of_def split: sum.splits prod.splits if_splits)

lemma delete_vectors_frame:
  assumes "delete_vectors ae clk now auth ns ids f nd = (x, nd1)"
  shows "nd_cache nd1 = nd_cache nd" "ig_namespaces (nd_service nd1) = ig_namespaces (nd_service nd)"
  using assms by (auto simp: delete_vectors_def split: sum.splits prod.splits dest: ingest_delete_namespaces)

text \<open>
  C40: A search finds what was deleted. A deletion over HTTP leaves the query cache as it is (only an upsert
  clears it), so for a client the order query, delete, query ends with the answer of the first query, deleted
  vectors included: until its entry expires, that answer is given to every query of the same namespace,
  \<open>top_k\<close> and filters whose vector agrees in its first eight components, whatever its other options are.
\<close>

theorem deleted_vectors_are_found:
  assumes "client_of origin fw c"
    and "sdk_query c (over_http origin fw ae ce) ns v (int k) f (query_options ef np md False) sv = (Inr (QueryAnswer r), sv1)"
    and "\<forall>r'. fst (get_query (ae_redis ae) (ae_texts ae) (ce_now ce) ns v k (case f of None \<Rightarrow> [] | Some g \<Rightarrow> g)
      (nd_cache (sv_node sv))) \<noteq> Inr (Some r')"
    and "qr_shard_count r \<noteq> 0" "qt_loads (ae_texts ae) (qt_dumps (ae_texts ae) r) = Inr r"
    and "sdk_delete c (over_http origin fw ae ce1) ns del g sv1 = (Inr (DeleteAnswer d), sv2)"
    and "\<exists>auth. fst (dependencies fw ce2 c True sv2) = Inr auth"
    and "length v' = length v" "take 8 v' = take 8 v"
    and "ce_now ce2 - ce_end ce < of_int (tc_ttl (nd_cache (sv_node sv)))"
  shows "\<exists>sv3. sdk_query c (over_http origin fw ae ce2) ns v' (int k) f (query_options ef' np' md' False) sv2 =
    (Inr (QueryAnswer r), sv3)"
proof -
  let ?F = "case f of None \<Rightarrow> [] | Some g \<Rightarrow> g" and ?ae = "configured (fw_settings fw) ae"
  let ?qa = "\<lambda>v ef np md. \<lparr>qa_namespace = ns, qa_vector = v, qa_top_k = k, qa_ef_search = ef, qa_nprobe = np,
      qa_filters = ?F, qa_include_metadata = md, qa_include_vector = False\<rparr>"
  obtain auth where q: "query_vectors ?ae (ce_timeout ce) (ce_now ce) (ce_end ce) (ce_took ce) auth (?qa v ef np md) (sv_node sv) =
      (Inr r, sv_node sv1)"
    "verify_api_key (gateway_settings (fw_settings fw)) api_keys (fw_jwt fw) (vc_api_key c) None = Inr auth"
    using assms(2) unfolding sdk_query_call [OF assms(1)] by (rule endpoint_call_Inr) simp
  note qv = query_vectors_Inr [OF q(1), simplified]
  obtain nsr where nsr: "dict_get (ig_namespaces (nd_service (sv_node sv1))) ns = Some nsr" "int (length v) = ns_dimension nsr"
    using query_answered [OF qv(2)] by auto
  obtain auth1 where "delete_vectors ?ae (ce_clock ce1) (ce_now ce1) auth1 ns (case del of None \<Rightarrow> [] | Some xs \<Rightarrow> xs)
      (case g of None \<Rightarrow> [] | Some g \<Rightarrow> g) (sv_node sv1) = (Inr d, sv_node sv2)"
    using assms(6) unfolding sdk_delete_call [OF assms(1)] by (rule endpoint_call_Inr) simp
  note fr = delete_vectors_frame [OF this]
  have later: "query (ae_ienv ae) (ae_redis ae) (ae_texts ae) (ae_rerank ae) (ce_timeout ce2) (ce_now ce2) (ce_end ce2)
      (ce_took ce2) (?qa v' ef' np' md') (nd_service (sv_node sv2), nd_cache (sv_node sv1)) =
      (Inr r, nd_service (sv_node sv2), nd_cache (sv_node sv1))"
    by (rule query_cache_confuses [OF qv(2), of "?qa v' ef' np' md'" "nd_service (sv_node sv2)" nsr])
      (use assms(3-5,8-10) nsr fr(2) in simp_all)
  obtain auth2 sv3 where dep: "dependencies fw ce2 c True sv2 = (Inr auth2, sv3)" using assms(7) by (metis prod.collapse)
  then have "auth2 = auth" "sv_node sv3 = sv_node sv2" using dependencies_Inr [OF dep] q(2) by simp_all
  with dep later qv(1) fr(1) show ?thesis
    by (simp add: sdk_query_call [OF assms(1)] endpoint_call_def query_vectors_def http_of_def on_node_def seen_def respond_def)
qed

text \<open>A client, a shard with one vector, and three calls.\<close>

lemma demo_open: "dependencies demo_framework ce demo_client False sv = (Inr [(''sub'', JStr ''dev'')], sv)"
  by (simp add: dependencies_def verify_api_key_def gateway_settings_def demo_framework_def default_settings_def)

lemma demo_limited:
  assumes "length (bucket (sv_buckets sv) ''anonymous'') < 10000"
  obtains b where "dependencies demo_framework ce demo_client True sv = (Inr [(''sub'', JStr ''dev'')], sv\<lparr>sv_buckets := b\<rparr>)"
    "length (bucket b ''anonymous'') \<le> Suc (length (bucket (sv_buckets sv) ''anonymous''))"
proof -
  let ?w = "filter (\<lambda>t. ce_now ce - t < 1) (bucket (sv_buckets sv) ''anonymous'')"
  have "length ?w < 10000" using assms length_filter_le [of "\<lambda>t. ce_now ce - t < 1"] order.strict_trans1 by blast
  then show thesis
    by (intro that [of "dict_put ''anonymous'' (?w @ [ce_now ce]) (dict_put ''anonymous'' ?w (sv_buckets sv))"])
      (simp_all add: dependencies_def Let_def rate_limiter_def verify_api_key_def gateway_settings_def demo_framework_def
        default_settings_def demo_client_def new_client_def header_or_def bucket_def quota_of_def api_keys_def map_of_dict_put)
qed

definition nine_server :: "(unit, unit, unit) server" where
  "nine_server = \<lparr>sv_node = empty_node\<lparr>nd_service := nine_service\<rparr>, sv_buckets = []\<rparr>"

definition quick_call :: "nat \<Rightarrow> call_env" where
  "quick_call t = (demo_call t)\<lparr>ce_clock := (\<lambda>k j. demo_moment 2), ce_took := 0\<rparr>"

abbreviation quick_http :: "nat \<Rightarrow> (unit, unit, unit) server http" where
  "quick_http t \<equiv> over_http ''http://db:8080'' demo_framework demo_api (quick_call t)"

lemma nine_delete:
  assumes "route_for_query 0 ''ns'' (ig_router nine_service) = ([0], rt)"
  shows "\<exists>d st'. ingest_delete demo_env (\<lambda>k j. demo_moment 2) 0 ''ns'' [''a''] [] (nine_service\<lparr>ig_router := rt\<rparr>) = (Inr d, st')"
proof -
  let ?ev = demo_env and ?mo = "demo_moment 2" and ?cx = "demo_ctx\<lparr>cx_index := FlatIx nine_flat\<rparr>"
    and ?ns = "demo_namespace\<lparr>ns_dimension := 9\<rparr>"
  obtain rt2 where rt2: "writable 0 ''ns'' None rt = (Inr [0], rt2)" "r_etcd rt2 = r_etcd svc_router"
    using assms
    by (auto simp: writable_def route_for_query_def get_shards_cached_def nine_service_def open_service_def svc_simps
        demo_simps require_owner_def list_by_namespace_def readable_states_def Let_def)
  let ?st = "nine_service\<lparr>ig_router := rt2\<rparr>"
  let ?a0 = "\<lparr>da_service = ?st, da_touched = [], da_results = [], da_deleted = 0\<rparr> :: (unit, unit) delete_acc"
  let ?T = "tombstone demo_libs demo_codec ?mo True ''a'' ?cx"
  let ?D = "delete_id ?ev (\<lambda>j. ?mo) True ''ns'' ?ns 0 ''ns:s1'' ''a'' ?a0"
  have st: "heap_shard ?st q = svc_shard" "dict_get (ig_shards ?st) ''ns:s1'' = Some (0, ?cx)" for q
    using rt2(2) nine_heap nine_open by (simp_all add: heap_shard_def nine_service_def open_service_fields)
  have gc: "get_or_create_ctx ?ev ?mo ''ns'' 0 ?st = (Inr ''ns:s1'', ?st)" by (rule demo_context [OF st])
  have acks: "ns_required_acks ?ns = ns_required_acks demo_namespace" by simp
  have "?D = delete_id ?ev (\<lambda>j. ?mo) True ''ns'' demo_namespace 0 ''ns:s1'' ''a'' ?a0"
    unfolding delete_id_def acks ..
  then have s1: "dict_get (ig_shards (da_service ?D)) ''ns:s1'' = Some (0, ?T)"
    using demo_delete_one [of ?a0 ?cx "''a''"] st by simp
  have ids: "delete_ids ?ev (\<lambda>k j. ?mo) ''ns'' ?ns 0 ''ns:s1'' 1 [''a''] ?a0 = (Inr (), 2, ?D)"
    using st(2) seg_get_view [OF demo_ctx_ready(1), of "''a''"] by (simp add: demo_env_def)
  have loop: "delete_loop ?ev (\<lambda>k j. ?mo) ''ns'' ?ns [''a''] [] 0 [0] ?a0 = (Inr (), ?D)"
    using gc ids by (simp add: delete_in_shard_def Let_def del: delete_ids.simps)
  have touched: "da_touched ?D = [''ns:s1'']"
    using st(2) by (auto simp: delete_id_def Let_def add_key_def split: prod.splits)
  have "encodable (new_entry 2 (cd_dumps demo_codec (delete_envelope ''a'')) 0)"
    by (simp add: encodable_def new_entry_def demo_codec_def delete_envelope_def encode_def)
  then obtain cx' where fl: "flush_ctx ?T = (Inr (), cx')"
    by (auto simp: flush_ctx_def wal_flush_def wal_append_def wal_open_def open_segment_def tombstone_fields
        demo_moment_def demo_ctx_def)
  have "ig_node_id nine_service = None" "dict_get (ig_namespaces nine_service) ''ns'' = Some ?ns"
    by (simp_all add: nine_service_def open_service_fields)
  with rt2(1) loop touched s1 fl show ?thesis by (simp add: ingest_delete_def del: delete_loop.simps)
qed

lemma deleted_vectors_are_found_witness:
  "\<exists>sv1 d sv2 sv3.
     sdk_query demo_client (quick_http 0) ''ns'' (nine 1) 5 None (query_options None None True False) nine_server =
       (Inr (QueryAnswer (nine_result 1)), sv1) \<and>
     sdk_delete demo_client (quick_http 0) ''ns'' (Some [''a'']) None sv1 = (Inr (DeleteAnswer d), sv2) \<and>
     sdk_query demo_client (quick_http 1) ''ns'' (nine 2) 5 None (query_options None None True False) sv2 =
       (Inr (QueryAnswer (nine_result 1)), sv3)"
proof -
  have f: "fw_settings demo_framework = default_settings" "ae_ienv demo_api = demo_env" "ae_redis demo_api = no_redis"
    "ae_texts demo_api = nine_texts" "ae_rerank demo_api = NoRerank" "nd_service (sv_node nine_server) = nine_service"
    "nd_cache (sv_node nine_server) = no_cache" "sv_buckets nine_server = []"
    by (simp_all add: demo_framework_def demo_api_def nine_server_def empty_node_def)
  have ce: "ce_timeout (quick_call t) = False" "ce_now (quick_call t) = of_nat t" "ce_end (quick_call t) = of_nat t"
    "ce_took (quick_call t) = 0" "ce_clock (quick_call t) = (\<lambda>k j. demo_moment 2)" for t
    by (simp_all add: quick_call_def demo_call_def)
  obtain rt c1 where q: "route_for_query 0 ''ns'' (ig_router nine_service) = ([0], rt)"
    "query demo_env no_redis nine_texts NoRerank False 0 0 0 (nine_query 1) (nine_service, no_cache) =
       (Inr (nine_result 1), nine_service\<lparr>ig_router := rt\<rparr>, c1)" by (rule nine_answer)
  obtain d st' where del: "ingest_delete demo_env (\<lambda>k j. demo_moment 2) 0 ''ns'' [''a''] [] (nine_service\<lparr>ig_router := rt\<rparr>) = (Inr d, st')"
    using nine_delete [OF q(1)] by blast
  obtain b where b: "dependencies demo_framework (quick_call 0) demo_client True nine_server =
      (Inr [(''sub'', JStr ''dev'')], nine_server\<lparr>sv_buckets := b\<rparr>)" "length (bucket b ''anonymous'') \<le> 1"
    using demo_limited [of nine_server "quick_call 0"] by (auto simp: f bucket_def)
  obtain sv1 where s1: "sdk_query demo_client (quick_http 0) ''ns'' (nine 1) (int 5) None (query_options None None True False) nine_server =
      (Inr (QueryAnswer (nine_result 1)), sv1)" "nd_service (sv_node sv1) = nine_service\<lparr>ig_router := rt\<rparr>" "sv_buckets sv1 = b"
    using q(2) unfolding sdk_query_call [OF demo_client_of]
    by (simp add: endpoint_call_def b query_vectors_def f ce demo_guard on_node_def seen_def
        respond_def http_of_def nine_query_def)
  obtain sv2 where s2: "sdk_delete demo_client (quick_http 0) ''ns'' (Some [''a'']) None sv1 = (Inr (DeleteAnswer d), sv2)" "sv_buckets sv2 = b"
    using del s1(2,3) unfolding sdk_delete_call [OF demo_client_of]
    by (simp add: endpoint_call_def demo_open delete_vectors_def f ce demo_guard on_node_def
        seen_def respond_def http_of_def)
  have "length (bucket (sv_buckets sv2) ''anonymous'') < 10000" using b(2) s2(2) by simp
  then have ok: "\<exists>auth. fst (dependencies demo_framework (quick_call 1) demo_client True sv2) = Inr auth"
    by (rule demo_limited [where ce = "quick_call 1"]) auto
  have "\<exists>sv3. sdk_query demo_client (quick_http 1) ''ns'' (nine 2) (int 5) None (query_options None None True False) sv2 =
      (Inr (QueryAnswer (nine_result 1)), sv3)"
    by (rule deleted_vectors_are_found [OF demo_client_of s1(1) _ _ _ s2(1) ok])
      (simp add: f ce nine_miss, simp_all add: f ce nine_result_def nine_texts_def nine_def no_cache_def)
  with s1(1) s2(1) show ?thesis by simp
qed

subsection \<open>Nodes that were not added\<close>

text \<open>A request whose records are all refused changes nothing but its list of errors.\<close>

lemma refused_loop:
  assumes "\<forall>raw \<in> set raws. \<forall>now fresh. \<exists>e. raw_record ev now fresh ns nsr raw = Inl e"
  shows "ua_service (upsert_loop ev clk ids ns nsr k raws a) = ua_service a \<and>
    ua_touched (upsert_loop ev clk ids ns nsr k raws a) = ua_touched a \<and>
    ua_upserted (upsert_loop ev clk ids ns nsr k raws a) = ua_upserted a"
  using assms
proof (induction raws arbitrary: k a)
  case (Cons raw raws)
  obtain e where "raw_record ev (mo_time (clk k 0)) (fst (ids k)) ns nsr raw = Inl e" using Cons.prems by fastforce
  then have "upsert_caught ev (clk k) (fst (ids k)) (snd (ids k)) ns nsr raw a =
      a\<lparr>ua_errors := ua_errors a @ [(map_of raw ''id'', exn_str e)]\<rparr>"
    by (simp add: upsert_caught_def upsert_one_def Let_def)
  with Cons show ?case by simp
qed simp

lemma refused_upsert:
  assumes "\<forall>raw \<in> set raws. \<forall>now fresh. \<exists>e. raw_record ev now fresh ns nsr raw = Inl e"
    and "dict_get (ig_namespaces st) ns = Some nsr" "length raws \<le> 10000"
  shows "\<exists>res. upsert ev clk ids took ns raws None st = (Inr res, st) \<and> ur_ids res = []"
  using assms(2,3) refused_loop [OF assms(1)] by (simp add: upsert_def Let_def background_def)

definition wrong_embedding :: "namespace \<Rightarrow> llama_node \<Rightarrow> bool" where
  "wrong_embedding nsr n =
     (case ln_embedding n of None \<Rightarrow> True | Some v \<Rightarrow> int (length v) \<noteq> ns_dimension nsr)"

lemma wrong_embedding_refused:
  "wrong_embedding nsr n \<Longrightarrow> \<exists>e. raw_record ev now fresh ns nsr (llama_raw n) = Inl e"
  by (auto simp: wrong_embedding_def raw_record_def llama_raw_def md_get_def opt_json_def py_iter_def split: option.splits)

text \<open>
  The LlamaIndex store reports nodes as added that were refused. When the embeddings of all nodes are missing
  or of another dimension than the namespace, an admitted call answers with the ids of all nodes, while the
  server refused each of them and its contexts, logs and counts are as they were.
\<close>

theorem llama_reports_refused_nodes:
  assumes "client_of origin fw (lm_client lm)"
    and "dependencies fw ce (lm_client lm) True sv = (Inr auth, sv1)"
    and "guard (configured (fw_settings fw) ae) auth (lm_namespace lm) ''upsert'' = Inr ()"
    and "dict_get (ig_namespaces (nd_service (sv_node sv))) (lm_namespace lm) = Some nsr"
    and "\<forall>n \<in> set nodes. wrong_embedding nsr n" "length nodes \<le> 10000"
  shows "\<exists>sv2. llama_add lm (over_http origin fw ae ce) nodes sv = (Inr (map ln_node_id nodes), sv2) \<and>
    nd_service (sv_node sv2) = nd_service (sv_node sv)"
proof -
  have "\<forall>raw \<in> set (map llama_raw nodes). \<forall>now fresh.
      \<exists>e. raw_record (ae_ienv ae) now fresh (lm_namespace lm) nsr raw = Inl e"
    using assms(5) by (auto intro!: wrong_embedding_refused)
  from refused_upsert [OF this assms(4), of "ce_clock ce" "ce_ids ce" "ce_took ce"] assms(6)
  obtain res where "upsert (ae_ienv ae) (ce_clock ce) (ce_ids ce) (ce_took ce) (lm_namespace lm) (map llama_raw nodes) None
      (nd_service (sv_node sv)) = (Inr res, nd_service (sv_node sv))" by auto
  with assms(2,3) dependencies_Inr(1) [OF assms(2)] show ?thesis
    by (simp add: llama_add_def sdk_upsert_call [OF assms(1)] endpoint_call_def upsert_vectors_def on_node_def seen_def
        respond_def)
qed

lemma llama_reports_refused_nodes_witness:
  "\<exists>sv. llama_add \<lparr>lm_client = demo_client, lm_namespace = ''ns''\<rparr> (demo_http 0)
      [\<lparr>ln_node_id = ''b'', ln_embedding = None, ln_metadata = [], ln_text = ''t''\<rparr>] demo_server = (Inr [''b''], sv) \<and>
    nd_service (sv_node sv) = open_service"
proof -
  have f: "fw_settings demo_framework = default_settings" "nd_service (sv_node demo_server) = open_service"
    by (simp_all add: demo_framework_def demo_server_def)
  let ?lm = "\<lparr>lm_client = demo_client, lm_namespace = ''ns''\<rparr>"
    and ?n = "\<lparr>ln_node_id = ''b'', ln_embedding = None, ln_metadata = [], ln_text = ''t''\<rparr>"
  have "\<exists>sv. llama_add ?lm (demo_http 0) [?n] demo_server = (Inr (map ln_node_id [?n]), sv) \<and>
      nd_service (sv_node sv) = nd_service (sv_node demo_server)"
    by (rule llama_reports_refused_nodes [where nsr = demo_namespace])
      (simp_all add: f demo_client_of demo_dependencies demo_guard open_service_fields wrong_embedding_def)
  then show ?thesis by (simp add: f)
qed

subsection \<open>Texts that are dropped\<close>

text \<open>With metadatas the LangChain store sends the vectors and the metadatas, and nothing of the texts.\<close>

lemma lang_payload_metadatas: "lang_payload texts (Some (m # ms)) i vs = lang_payload [] (Some (m # ms)) i vs"
  by (induction vs arbitrary: i) (simp_all add: lang_metadata_def)

lemma texts_dropped:
  assumes "ls_embedding ls = Some em" "em_documents em texts = em_documents em texts'"
  shows "add_texts ls send texts (Some (m # ms)) s = add_texts ls send texts' (Some (m # ms)) s"
  unfolding add_texts_def lang_payload_metadatas [of texts] lang_payload_metadatas [of texts']
  using assms by simp

text \<open>Without metadatas each text is sent as the metadata of its vector.\<close>

lemma texts_kept:
  assumes "length vs = length texts"
  shows "lang_payload texts None 0 vs =
    Inr (map (\<lambda>(v, t). [(''vector'', JList (map JFloat v)), (''metadata'', JObj [(''text'', JStr t)])]) (zip vs texts))"
proof -
  have "lang_payload texts None i vs =
      Inr (map (\<lambda>(v, t). [(''vector'', JList (map JFloat v)), (''metadata'', JObj [(''text'', JStr t)])]) (zip vs (drop i texts)))"
    if "length vs + i = length texts" for i
    using that
  proof (induction vs arbitrary: i)
    case (Cons v vs)
    then have "drop i texts = texts ! i # drop (Suc i) texts" by (simp add: Cons_nth_drop_Suc)
    with Cons show ?case by (simp add: lang_metadata_def)
  qed simp
  from this [of 0] assms show ?thesis by simp
qed

end
