(* ===== verification/Durability.thy ===== *)
theory Durability
  imports Read_Write
begin

text \<open>
  Acknowledged writes and the restart of the service. Between requests the log of every open shard
  context holds, flushed, exactly the operations whose outcome the context shows (\<open>journaled\<close>): a request
  appends its records, flushes the logs it touched before it answers, and the background flush of a
  memtable leaves the log as it is. A service that starts over the files a crash leaves opens its contexts
  by recovery, so its point reads answer from the same operations.
\<close>

subsection \<open>The logs of a service\<close>

text \<open>
  Every listed shard of the namespace has an open context with a log of at most \<open>n\<close> operations; logs
  outside \<open>touched\<close> have nothing buffered.
\<close>

definition journaled ::
    "('h, 'f) ienv \<Rightarrow> string \<Rightarrow> namespace \<Rightarrow> router \<Rightarrow> nat \<Rightarrow> string list \<Rightarrow> ('h, 'f) ingest \<Rightarrow> bool" where
  "journaled ev ns nsr rt0 n touched st \<longleftrightarrow>
     (\<forall>q \<in> set (list_by_namespace (r_etcd rt0) ns). \<exists>r cx ops.
        dict_get (ig_shards st) (shard_key_of ns rt0 q) = Some (r, cx) \<and> ctx_log (ie_codec ev) ops cx \<and>
        length ops \<le> n \<and> (\<forall>p \<in> set ops. fits_namespace nsr p) \<and>
        (shard_key_of ns rt0 q \<in> set touched \<or> wl_buffer (cx_wal cx) = []))"

lemma journaledD:
  assumes "journaled ev ns nsr rt0 n touched st" "q \<in> set (list_by_namespace (r_etcd rt0) ns)"
  obtains r cx ops where "dict_get (ig_shards st) (shard_key_of ns rt0 q) = Some (r, cx)"
    "ctx_log (ie_codec ev) ops cx" "length ops \<le> n" "\<forall>p \<in> set ops. fits_namespace nsr p"
    "shard_key_of ns rt0 q \<in> set touched \<or> wl_buffer (cx_wal cx) = []"
  using bspec [OF assms(1) [unfolded journaled_def] assms(2)] that by blast

text \<open>Replacing one context.\<close>

lemma journaled_put:
  assumes "journaled ev ns nsr rt0 n touched st"
    and "\<And>k. k \<noteq> key \<Longrightarrow> dict_get (ig_shards st') k = dict_get (ig_shards st) k"
    and "dict_get (ig_shards st') key = Some (r, cx)" "ctx_log (ie_codec ev) ops cx" "length ops \<le> n'"
    and "\<forall>p \<in> set ops. fits_namespace nsr p" "key \<in> set touched' \<or> wl_buffer (cx_wal cx) = []"
    and "n \<le> n'" "set touched - {key} \<subseteq> set touched'"
  shows "journaled ev ns nsr rt0 n' touched' st'"
  unfolding journaled_def
proof
  fix q assume "q \<in> set (list_by_namespace (r_etcd rt0) ns)"
  with assms(1) obtain r0 cx0 ops0 where q: "dict_get (ig_shards st) (shard_key_of ns rt0 q) = Some (r0, cx0)"
    "ctx_log (ie_codec ev) ops0 cx0" "length ops0 \<le> n" "\<forall>p \<in> set ops0. fits_namespace nsr p"
    "shard_key_of ns rt0 q \<in> set touched \<or> wl_buffer (cx_wal cx0) = []" by (rule journaledD)
  show "\<exists>r cx ops. dict_get (ig_shards st') (shard_key_of ns rt0 q) = Some (r, cx) \<and> ctx_log (ie_codec ev) ops cx \<and>
      length ops \<le> n' \<and> (\<forall>p \<in> set ops. fits_namespace nsr p) \<and>
      (shard_key_of ns rt0 q \<in> set touched' \<or> wl_buffer (cx_wal cx) = [])"
  proof (cases "shard_key_of ns rt0 q = key")
    case True
    show ?thesis unfolding True by (intro exI conjI) (rule assms(3-7))+
  next
    case False
    have "dict_get (ig_shards st') (shard_key_of ns rt0 q) = Some (r0, cx0)" "length ops0 \<le> n'"
      "shard_key_of ns rt0 q \<in> set touched' \<or> wl_buffer (cx_wal cx0) = []"
      using assms(2) [OF False] q(1,3,5) assms(8,9) False by auto
    with q(2,4) show ?thesis by blast
  qed
qed

subsection \<open>A request\<close>

lemma raw_record_fits: "raw_record ev now fresh ns nsr raw = Inr rec \<Longrightarrow> fits_namespace nsr (Upsert rec)"
  by (auto simp: raw_record_def make_record_def fits_namespace_def Let_def split: json.splits sum.splits option.splits if_splits)

lemma upsert_one_journaled:
  assumes "upsert_one ev mos fresh kids ns nsr raw a = (Inr i, a')" "writing ev ns rt0 (ua_service a)"
    and "\<And>rec. raw_record ev (mo_time (mos 0)) fresh ns nsr raw = Inr rec \<Longrightarrow>
      replica_codec (ie_codec ev) (Upsert rec) \<and>
      encodable (new_entry (mo_ns (mos 0)) (op_payload (ie_codec ev) (Upsert rec)) 0)"
    and "\<And>q. distinct (sh_replicas (e_heap (r_etcd rt0) q))"
    and fresh: "\<And>k r cx. dict_get (ig_shards (ua_service a)) k = Some (r, cx) \<Longrightarrow> fresh_file (mos 0) cx"
    and grown: "e_next (r_etcd (ig_router (ua_service a'))) \<le> e_next (r_etcd (ig_router (ua_service a)))"
    and j: "journaled ev ns nsr rt0 n (ua_touched a) (ua_service a)"
  shows "journaled ev ns nsr rt0 (Suc n) (ua_touched a') (ua_service a')"
proof -
  obtain rec r r1 cx cx1 where s: "raw_record ev (mo_time (mos 0)) fresh ns nsr raw = Inr rec"
    "dict_get (ig_shards (ua_service a)) (shard_key_of ns rt0 r) = Some (r1, cx)"
    "store_record (ie_libs ev) (ie_codec ev) (mos 0) rec cx = (Inr (), cx1)"
    "\<And>k. dict_get (ig_shards (ua_service a')) k =
       (if k = shard_key_of ns rt0 r then Some (r1, cx1) else dict_get (ig_shards (ua_service a)) k)"
    "ua_touched a' = add_key (shard_key_of ns rt0 r) (ua_touched a)"
    "r \<in> set (list_by_namespace (r_etcd rt0) ns)"
    by (rule upsert_one_store [OF assms(1,2) _ assms(4) grown], use assms(3) in blast) (rule that; assumption)
  from j s(6) s(2) obtain ops where ops: "ctx_log (ie_codec ev) ops cx" "length ops \<le> n"
    "\<forall>p \<in> set ops. fits_namespace nsr p" by (auto elim: journaledD)
  from assms(3) [OF s(1)] store_logged [OF ops(1) _ fresh [OF s(2)] _ s(3)]
  have l: "ctx_log (ie_codec ev) (ops @ [Upsert rec]) cx1" by blast
  show ?thesis
    by (rule journaled_put [OF j _ _ l])
      (use s(4,5) ops(2,3) raw_record_fits [OF s(1)] in \<open>auto simp: add_key_def\<close>)
qed

text \<open>What the payloads of a request have to satisfy: the codec reads them back and they fit the log's header.\<close>

definition logs_well ::
    "('h, 'f) ienv \<Rightarrow> clock \<Rightarrow> (nat \<Rightarrow> string \<times> string \<times> string) \<Rightarrow> string \<Rightarrow> namespace \<Rightarrow>
     nat \<Rightarrow> (string, json) dict list \<Rightarrow> bool" where
  "logs_well ev clk ids ns nsr k raws \<longleftrightarrow>
     (\<forall>m < length raws. \<forall>rec.
        raw_record ev (mo_time (clk (k + m) 0)) (fst (ids (k + m))) ns nsr (raws ! m) = Inr rec \<longrightarrow>
        replica_codec (ie_codec ev) (Upsert rec) \<and>
        encodable (new_entry (mo_ns (clk (k + m) 0)) (op_payload (ie_codec ev) (Upsert rec)) 0))"

lemma logs_well_Cons:
  assumes "logs_well ev clk ids ns nsr k (raw # raws)"
  shows "raw_record ev (mo_time (clk k 0)) (fst (ids k)) ns nsr raw = Inr rec \<Longrightarrow>
      replica_codec (ie_codec ev) (Upsert rec) \<and>
      encodable (new_entry (mo_ns (clk k 0)) (op_payload (ie_codec ev) (Upsert rec)) 0)"
    and "logs_well ev clk ids ns nsr (Suc k) raws"
proof -
  show "raw_record ev (mo_time (clk k 0)) (fst (ids k)) ns nsr raw = Inr rec \<Longrightarrow>
      replica_codec (ie_codec ev) (Upsert rec) \<and>
      encodable (new_entry (mo_ns (clk k 0)) (op_payload (ie_codec ev) (Upsert rec)) 0)"
    using spec [OF assms [unfolded logs_well_def], of 0] by (simp del: replica_codec.simps op_payload.simps)
  show "logs_well ev clk ids ns nsr (Suc k) raws"
    unfolding logs_well_def
  proof (intro allI impI)
    show "replica_codec (ie_codec ev) (Upsert rec) \<and>
        encodable (new_entry (mo_ns (clk (Suc k + m) 0)) (op_payload (ie_codec ev) (Upsert rec)) 0)"
      if "m < length raws" "raw_record ev (mo_time (clk (Suc k + m) 0)) (fst (ids (Suc k + m))) ns nsr (raws ! m) = Inr rec" for m rec
      using spec [OF assms [unfolded logs_well_def], of "Suc m"] that by (simp del: replica_codec.simps op_payload.simps)
  qed
qed

lemma upsert_loop_journaled:
  assumes "ua_errors (upsert_loop ev clk ids ns nsr k raws a) = []" "writing ev ns rt0 (ua_service a)"
    and "fresh_names clk k (k + length raws) (ua_service a)" "logs_well ev clk ids ns nsr k raws"
    and reps: "\<And>q. distinct (sh_replicas (e_heap (r_etcd rt0) q))"
    and "e_next (r_etcd (ig_router (ua_service (upsert_loop ev clk ids ns nsr k raws a)))) \<le>
      e_next (r_etcd (ig_router (ua_service a)))"
    and "journaled ev ns nsr rt0 n (ua_touched a) (ua_service a)"
  shows "let a' = upsert_loop ev clk ids ns nsr k raws a in
    journaled ev ns nsr rt0 (n + length raws) (ua_touched a') (ua_service a')"
  using assms(1-4,6,7)
proof (induction raws arbitrary: a k n)
  case Nil
  then show ?case by simp
next
  case (Cons raw raws)
  from Cons.prems(1) obtain i a1 where s: "upsert_one ev (clk k) (fst (ids k)) (snd (ids k)) ns nsr raw a = (Inr i, a1)"
    "upsert_loop ev clk ids ns nsr k (raw # raws) a = upsert_loop ev clk ids ns nsr (Suc k) raws a1"
    by (rule upsert_loop_step)
  have e1: "ua_errors (upsert_loop ev clk ids ns nsr (Suc k) raws a1) = []" using Cons.prems(1) s(2) by simp
  note mono = upsert_loop_next [OF e1] upsert_one_next [OF s(1)]
  have nx: "e_next (r_etcd (ig_router (ua_service a1))) \<le> e_next (r_etcd (ig_router (ua_service a)))"
    using Cons.prems(5) mono(1) unfolding s(2) by simp
  have n1: "e_next (r_etcd (ig_router (ua_service (upsert_loop ev clk ids ns nsr (Suc k) raws a1)))) \<le>
      e_next (r_etcd (ig_router (ua_service a1)))"
    using Cons.prems(5) mono(2) unfolding s(2) by simp
  note lw = logs_well_Cons [OF Cons.prems(4)]
  have ff: "fresh_file (clk k 0) cx" if "dict_get (ig_shards (ua_service a)) key = Some (r, cx)" for key r cx
    using fresh_namesD [OF Cons.prems(3) _ _ that] by simp
  have w1: "writing ev ns rt0 (ua_service a1) \<and> files_within (named_by (clk k 0)) (ua_service a) (ua_service a1)"
    by (rule upsert_one_served [OF s(1) Cons.prems(2) _ reps _ nx], drule lw(1), erule conjunct1, erule ff) blast
  have fn: "fresh_names clk (Suc k) (Suc k + length raws) (ua_service a1)"
    using fresh_names_step [OF Cons.prems(3)] w1 by simp
  have j1: "journaled ev ns nsr rt0 (Suc n) (ua_touched a1) (ua_service a1)"
    by (rule upsert_one_journaled [OF s(1) Cons.prems(2) _ reps _ nx Cons.prems(6)], erule lw(1), erule ff)
  from Cons.IH [OF e1 _ fn lw(2) n1 j1] w1 show ?case unfolding s(2) by (simp add: Let_def)
qed

subsection \<open>Flushing and the background work\<close>

lemma flush_touched_journaled:
  assumes "flush_touched keys st = (Inr (), st')" "journaled ev ns nsr rt0 n keys st" "n < 10 ^ 6"
  shows "journaled ev ns nsr rt0 n [] st'"
  using assms
proof (induction keys arbitrary: st)
  case Nil
  then show ?case by simp
next
  case (Cons key keys)
  show ?case
  proof (cases "dict_get (ig_shards st) key")
    case None
    then have "journaled ev ns nsr rt0 n keys st"
      using Cons.prems(2) by (fastforce simp: journaled_def)
    with Cons.IH Cons.prems None show ?thesis by simp
  next
    case (Some rc)
    obtain r cx where rc: "rc = (r, cx)" by (cases rc)
    obtain y cx1 where f: "flush_ctx cx = (y, cx1)" by fastforce
    let ?st = "st\<lparr>ig_shards := dict_put key (r, cx1) (ig_shards st)\<rparr>"
    have run: "flush_touched keys ?st = (Inr (), st')" using Cons.prems(1) Some rc f by (auto split: sum.splits)
    have "journaled ev ns nsr rt0 n keys ?st"
      unfolding journaled_def
    proof
      fix q assume "q \<in> set (list_by_namespace (r_etcd rt0) ns)"
      with Cons.prems(2) obtain r2 cx2 ops where q: "dict_get (ig_shards st) (shard_key_of ns rt0 q) = Some (r2, cx2)"
        "ctx_log (ie_codec ev) ops cx2" "length ops \<le> n" "\<forall>p \<in> set ops. fits_namespace nsr p"
        "shard_key_of ns rt0 q \<in> set (key # keys) \<or> wl_buffer (cx_wal cx2) = []" by (rule journaledD)
      have "\<exists>r3 cx3. dict_get (ig_shards ?st) (shard_key_of ns rt0 q) = Some (r3, cx3) \<and> ctx_log (ie_codec ev) ops cx3 \<and>
          (shard_key_of ns rt0 q \<in> set keys \<or> wl_buffer (cx_wal cx3) = [])"
      proof (cases "shard_key_of ns rt0 q = key")
        case True
        with q(1) Some rc have "cx2 = cx" by simp
        with flush_logged [of "ie_codec ev" ops cx y cx1] q(2,3) f Cons.prems(3) True show ?thesis
          by (auto simp: replica_log_def map_of_dict_put)
      qed (use q(1,2,5) in \<open>auto simp: map_of_dict_put\<close>)
      with q(3,4) show "\<exists>r cx ops. dict_get (ig_shards ?st) (shard_key_of ns rt0 q) = Some (r, cx) \<and>
          ctx_log (ie_codec ev) ops cx \<and> length ops \<le> n \<and> (\<forall>p \<in> set ops. fits_namespace nsr p) \<and>
          (shard_key_of ns rt0 q \<in> set keys \<or> wl_buffer (cx_wal cx) = [])" by blast
    qed
    from Cons.IH [OF run this Cons.prems(3)] show ?thesis .
  qed
qed

lemma background_one_logged:
  assumes "ctx_log cd ops cx" "fresh_file mo cx"
  shows "ctx_log cd ops (background_one cd mo cx)" "cx_wal (background_one cd mo cx) = cx_wal cx"
proof -
  have l: "seg_inv cd (cx_segments cx)" "files_listed cd (op_id ` set ops) (cx_segments cx)"
    using assms(1) by (simp_all add: ctx_log_def)
  have "files_listed cd (op_id ` set ops) (cx_segments (background_one cd mo cx))"
    using flush_listed [OF l(2,1)] l(2) by (simp add: background_one_def Let_def)
  moreover show w: "cx_wal (background_one cd mo cx) = cx_wal cx" by (simp add: background_one_def Let_def)
  ultimately show "ctx_log cd ops (background_one cd mo cx)"
    using assms(1) background_one_shows [OF l(1) assms(2)] by (simp add: ctx_log_def)
qed

lemma background_journaled:
  assumes "journaled ev ns nsr rt0 n [] st" "distinct keys"
    and "\<And>j key r cx. dict_get (ig_shards st) key = Some (r, cx) \<Longrightarrow> fresh_file (mos j) cx"
  shows "journaled ev ns nsr rt0 n [] (background (ie_codec ev) mos keys st)"
  unfolding journaled_def
proof
  fix q assume "q \<in> set (list_by_namespace (r_etcd rt0) ns)"
  with assms(1) obtain r cx ops where q: "dict_get (ig_shards st) (shard_key_of ns rt0 q) = Some (r, cx)"
    "ctx_log (ie_codec ev) ops cx" "length ops \<le> n" "\<forall>p \<in> set ops. fits_namespace nsr p"
    "wl_buffer (cx_wal cx) = []" by (rule journaledD) simp
  obtain j where "dict_get (ig_shards (background (ie_codec ev) mos keys st)) (shard_key_of ns rt0 q) =
      Some (r, if shard_key_of ns rt0 q \<in> set keys then background_one (ie_codec ev) (mos j) cx else cx)"
    using background_shards [OF assms(2), of "ie_codec ev" mos st "shard_key_of ns rt0 q"] q(1) by auto
  with q(2-5) background_one_logged [OF q(2) assms(3) [OF q(1)]]
  show "\<exists>r cx ops. dict_get (ig_shards (background (ie_codec ev) mos keys st)) (shard_key_of ns rt0 q) = Some (r, cx) \<and>
      ctx_log (ie_codec ev) ops cx \<and> length ops \<le> n \<and> (\<forall>p \<in> set ops. fits_namespace nsr p) \<and>
      (shard_key_of ns rt0 q \<in> set [] \<or> wl_buffer (cx_wal cx) = [])"
    by (intro exI conjI) (assumption, auto)
qed

subsection \<open>The restart\<close>

text \<open>The disk holds the files of the open contexts of the namespace, as a crash after \<open>st\<close> leaves them.\<close>

definition left_behind :: "string \<Rightarrow> router \<Rightarrow> ('h, 'f) ingest \<Rightarrow> storage \<Rightarrow> bool" where
  "left_behind ns rt0 st disk \<longleftrightarrow>
     (\<forall>q \<in> set (list_by_namespace (r_etcd rt0) ns). \<forall>r cx.
        dict_get (ig_shards st) (shard_key_of ns rt0 q) = Some (r, cx) \<longrightarrow>
        dict_get (fs_wal disk) (ig_base st @ ''/wal/'' @ sh_id (e_heap (r_etcd rt0) q)) = Some (wl_files (cx_wal cx)) \<and>
        dict_get (fs_seg disk) (ig_base st @ ''/segments/'' @ sh_id (e_heap (r_etcd rt0) q)) =
          Some (sg_hot (cx_segments cx), sg_cold (cx_segments cx)))"

lemma load_flat:
  "\<forall>r \<in> set rs. length (vr_vector r) = fl_dimension f \<Longrightarrow>
   \<exists>f' l' s'. load_records lb rs (FlatIx f, l, s) = (Inr (), FlatIx f', l', s')"
proof (induction rs arbitrary: f l s)
  case (Cons r rs)
  then obtain f1 where "flat_add [(vr_id r, vr_vector r, vr_metadata r)] f = (Inr (), f1)" "fl_dimension f1 = fl_dimension f"
    using flat_add_fits by fastforce
  with Cons.IH [of f1] Cons.prems show ?case by simp
qed simp

text \<open>A flat context opened over the files of another shows the same records, up to records of equal stamp.\<close>

lemma reopened_context:
  assumes "replica_log cd ops cx" "\<forall>p \<in> set ops. fits_namespace nsr p" "ns_index_type nsr = FLAT"
    and "dict_get (fs_wal disk) (base @ ''/wal/'' @ sh_id s) = Some (wl_files (cx_wal cx))"
    and "dict_get (fs_seg disk) (base @ ''/segments/'' @ sh_id s) = Some (sg_hot (cx_segments cx), sg_cold (cx_segments cx))"
  obtains cx' s' where "open_ctx lb cd mo base s nsr disk = (Inr cx', s')"
    "\<And>i. \<exists>x. seg_get cd (cx_segments cx') i = Inr x \<and> (\<forall>w. x = Some w \<longrightarrow> vr_id w = i) \<and>
      rel_option same_stamp (ctx_view cd cx i) (if i \<in> set (cx_tombstones cx') then None else x)"
proof -
  obtain res w sg where r: "recover cd (mo_ns mo) (wal_open default_segment_bytes 1000 (wl_files (cx_wal cx)),
      seg_open 10000 (sg_hot (cx_segments cx)) (sg_cold (cx_segments cx))) = (Inr res, w, sg)"
    "\<And>r. r \<in> set (rr_records res) \<Longrightarrow> ctx_view cd cx (vr_id r) = Some r"
    "\<And>i. \<exists>x. seg_get cd sg i = Inr x \<and> (\<forall>w. x = Some w \<longrightarrow> vr_id w = i) \<and>
      rel_option same_stamp (ctx_view cd cx i) (if i \<in> set (rr_deleted_ids res) then None else x)"
    by (rule log_survives_restart [OF assms(1)]) (rule that; assumption)
  have "Upsert r \<in> set ops" if "r \<in> set (rr_records res)" for r
  proof -
    have "logical Map.empty ops (vr_id r) = Some r"
      using r(2) [OF that] assms(1) by (simp add: replica_log_def ctx_log_def)
    then show ?thesis by (auto simp: logical_def last_op_def split: option.splits wal_op.splits dest!: find_SomeD)
  qed
  then have "\<forall>r \<in> set (rr_records res). length (vr_vector r) = nat (ns_dimension nsr)"
    using assms(2) by (fastforce simp: fits_namespace_def)
  then have "\<forall>r \<in> set (rr_records res). length (vr_vector r) =
      fl_dimension (new_flat (nat (ns_dimension nsr)) (metric_value (ns_distance_metric nsr)))"
    by (simp add: new_flat_def)
  from load_flat [OF this, of lb "new_index_lifecycle (mo_time mo)" s]
  obtain f l s' where "load_records lb (rr_records res) (FlatIx (new_flat (nat (ns_dimension nsr))
      (metric_value (ns_distance_metric nsr))), new_index_lifecycle (mo_time mo), s) = (Inr (), FlatIx f, l, s')"
    by blast
  with r(1) assms(4,5) have "open_ctx lb cd mo base s nsr disk = (Inr \<lparr>cx_namespace = nsr, cx_wal = w, cx_segments = sg,
      cx_index = FlatIx f, cx_lifecycle = mark_ready l, cx_recovery = res, cx_tombstones = rr_deleted_ids res\<rparr>, s')"
    by (simp add: open_ctx_def open_wal_def open_seg_def create_flat [OF assms(3)])
  from that [OF this] r(3) show thesis by simp
qed

text \<open>A point read of the restarted service answers from the context that the service had before.\<close>

lemma restarted_read:
  assumes "journaled ev ns nsr rt0 n [] st" "left_behind ns rt0 st disk" "same_routing ns rt0 rt2"
    and "dict_get nss ns = Some nsr" "ns_index_type nsr = FLAT" "served ev ns rt0 st i rec"
  shows "\<exists>rec'. same_stamp rec rec' \<and> vr_id rec' = i \<and>
    fst (get_one ev mos ns i (new_ingest rt2 nss (ig_base st) node disk)) =
      Inr (Some (to_payload (ie_isoformat ev) True rec'))"
proof -
  let ?cd = "ie_codec ev" and ?lb = "ie_libs ev" and ?new = "new_ingest rt2 nss (ig_base st) node disk :: ('a, 'b) ingest"
  from assms(6) obtain r r1 cx where r:
    "\<forall>rt t. same_routing ns rt0 rt \<longrightarrow> fst (route (ie_sha ev) (ie_hash ev) t ns i rt) = Inr r"
    "dict_get (ig_shards st) (shard_key_of ns rt0 r) = Some (r1, cx)" "ctx_view ?cd cx i = Some rec"
    unfolding served_def by blast
  obtain rt where rt: "route (ie_sha ev) (ie_hash ev) (mo_time (mos 0)) ns i rt2 = (Inr r, rt)"
    using r(1) assms(3) by (metis prod.collapse)
  have listed: "r \<in> set (list_by_namespace (r_etcd rt0) ns)" by (rule route_listed [OF assms(3) rt])
  with assms(1) obtain r2 cx2 ops where "dict_get (ig_shards st) (shard_key_of ns rt0 r) = Some (r2, cx2)"
    "ctx_log ?cd ops cx2" "length ops \<le> n" "\<forall>p \<in> set ops. fits_namespace nsr p"
    "wl_buffer (cx_wal cx2) = []" by (rule journaledD) simp
  with r(2) have l: "replica_log ?cd ops cx" "\<forall>p \<in> set ops. fits_namespace nsr p" by (simp_all add: replica_log_def)
  obtain x where "select_shard (ie_sha ev) (ie_hash ev) (mo_time (mos 0)) ns i rt2 = (x, rt)"
    using rt by (auto simp: route_def Let_def split: prod.splits sum.splits if_splits)
  note same = select_keeps_routing [OF assms(3) this]
  then obtain h where h: "r_etcd rt = (r_etcd rt0)\<lparr>e_heap := h\<rparr>" "only_counts (e_heap (r_etcd rt0)) h"
    by (auto simp: same_routing_def)
  define s where "s = heap_shard (?new\<lparr>ig_router := rt\<rparr>) r"
  have s: "sh_id s = sh_id (e_heap (r_etcd rt0) r)"
    by (simp add: s_def heap_shard_def h(1) only_counts_fields [OF h(2)])
  have files: "dict_get (fs_wal disk) (ig_base st @ ''/wal/'' @ sh_id s) = Some (wl_files (cx_wal cx))"
    "dict_get (fs_seg disk) (ig_base st @ ''/segments/'' @ sh_id s) = Some (sg_hot (cx_segments cx), sg_cold (cx_segments cx))"
    using assms(2) listed r(2) unfolding left_behind_def s by blast+
  obtain cx' s' where o1: "open_ctx ?lb ?cd (mos 0) (ig_base st) s nsr disk = (Inr cx', s')"
    "\<And>i. \<exists>x. seg_get ?cd (cx_segments cx') i = Inr x \<and> (\<forall>w. x = Some w \<longrightarrow> vr_id w = i) \<and>
      rel_option same_stamp (ctx_view ?cd cx i) (if i \<in> set (cx_tombstones cx') then None else x)"
    by (rule reopened_context [OF l assms(5) files]) (rule that; assumption)
  from o1(2) [of i] r(3) obtain rec' where x: "seg_get ?cd (cx_segments cx') i = Inr (Some rec')" "vr_id rec' = i"
    "same_stamp rec rec'" "i \<notin> set (cx_tombstones cx')" by (auto split: if_splits elim: option.rel_cases)
  have new: "ig_shards ?new = []" "ig_namespaces ?new = nss" "ig_base ?new = ig_base st" "ig_disk ?new = disk"
    "ig_router ?new = rt2"
    by (simp_all add: new_ingest_def)
  obtain st1 where gc: "get_or_create_ctx ev (mos 0) ns r (?new\<lparr>ig_router := rt\<rparr>) = (Inr (ctx_key ns (sh_id s)), st1)"
    "dict_get (ig_shards st1) (ctx_key ns (sh_id s)) = Some (r, cx')"
    using o1(1) assms(4) unfolding get_or_create_ctx_def Let_def s_def [symmetric] by (simp add: new)
  have "fst (get_one ev mos ns i ?new) = Inr (Some (to_payload (ie_isoformat ev) True rec'))"
    using rt gc x by (simp add: get_one_def fetch_def new)
  with x show ?thesis by blast
qed

subsection \<open>Properties\<close>


subsection \<open>A concrete request\<close>

lemma new_ctx:
  obtains cx :: "(unit, unit) shard_ctx" and cx1 cx2 where
    "replica_log demo_codec [] cx" "sg_sstables (cx_segments cx) = []"
    "store_record demo_libs demo_codec (demo_moment 0) (demo_record ''b'' ''y'') cx = (Inr (), cx1)"
    "flush_ctx cx1 = (Inr (), cx2)"
proof -
  from open_flat [OF demo_replica_files, of demo_libs demo_codec "demo_moment 0"] obtain cx where
    cx: "open_ctx demo_libs demo_codec (demo_moment 0) ''r'' demo_replica demo_namespace no_files = (Inr cx, demo_replica)"
    "cx_index cx = FlatIx (new_flat 1 ''DOT_PRODUCT'')" by (auto simp: demo_namespace_def)
  from open_ctx_new [OF cx(1) demo_replica_files(2,3)]
  have l: "replica_log demo_codec [] cx" "sg_sstables (cx_segments cx) = []" by simp_all
  obtain cx1 where sr: "store_record demo_libs demo_codec (demo_moment 0) (demo_record ''b'' ''y'') cx = (Inr (), cx1)"
    using cx(2) by (simp add: store_record_def Let_def log_payload_def demo_libs_def flat_add_def new_flat_def demo_record_def)
  obtain x cx2 where fl: "flush_ctx cx1 = (x, cx2)" by fastforce
  have "ctx_log demo_codec ([] @ [Upsert (demo_record ''b'' ''y'')]) cx1"
    by (rule store_logged [OF _ demo_replica_codec(2) _ _ sr])
      (use l in \<open>simp_all add: replica_log_def fresh_file_def encodable_def new_entry_def demo_codec_def
          demo_record_def encode_def demo_moment_def\<close>)
  from flush_logged [OF this _ fl] have "x = Inr ()" by simp
  with that l sr fl show thesis by blast
qed


end
