(* ===== verification/Regions.thy ===== *)
theory Regions
  imports Py_Text Errors Metadata_Filter
begin

text \<open>
  The object storage tier (\<open>storage/s3.py\<close>), the edge cache (\<open>infra/cdn.py\<close>) and the multi-region coordinator
  (\<open>sharding/multiregion.py\<close>). The S3 and HTTP clients are parameters whose calls may raise; the hash is a
  parameter.
\<close>

subsection \<open>The cold tier\<close>

record 'w s3_client =
  sc_probe :: "string \<Rightarrow> 'w \<Rightarrow> bool"
  sc_upload :: "string \<Rightarrow> string \<Rightarrow> string \<Rightarrow> 'w \<Rightarrow> unit res \<times> 'w"
  sc_download :: "string \<Rightarrow> string \<Rightarrow> string \<Rightarrow> 'w \<Rightarrow> unit res \<times> 'w"
  sc_list :: "string \<Rightarrow> string \<Rightarrow> 'w \<Rightarrow> string list res"

text \<open>The first nonempty value, as \<open>a or b or c\<close>.\<close>

definition first_given :: "string \<Rightarrow> string \<Rightarrow> string \<Rightarrow> string" where
  "first_given a b c = (if a \<noteq> [] then a else if b \<noteq> [] then b else c)"

record s3_tier =
  s3_bucket :: string
  s3_prefix :: string
  s3_connected :: bool

definition new_s3_tier :: "'w s3_client \<Rightarrow> string \<Rightarrow> string \<Rightarrow> string \<Rightarrow> string \<Rightarrow> 'w \<Rightarrow> s3_tier" where
  "new_s3_tier c bucket env_bucket prefix env_prefix w =
     (let b = first_given bucket env_bucket []
      in \<lparr>s3_bucket = b, s3_prefix = first_given prefix env_prefix ''vsector/'',
          s3_connected = (b \<noteq> [] \<and> sc_probe c b w)\<rparr>)"

definition s3_enabled :: "s3_tier \<Rightarrow> bool" where
  "s3_enabled t \<longleftrightarrow> s3_connected t \<and> s3_bucket t \<noteq> []"

fun rstrip :: "char \<Rightarrow> string \<Rightarrow> string" where
  "rstrip c s = rev (dropWhile (\<lambda>x. x = c) (rev s))"

text \<open>\<open>upload\<close> of the file at a path with a name; the answer is its address.\<close>

definition s3_upload ::
    "'w s3_client \<Rightarrow> s3_tier \<Rightarrow> string \<Rightarrow> string \<Rightarrow> string option \<Rightarrow> 'w \<Rightarrow> string option \<times> 'w" where
  "s3_upload c t path file_name key w =
     (if \<not> s3_enabled t then (None, w)
      else
        (let k = (case key of Some x \<Rightarrow> first_given x [] (rstrip (CHR ''/'') (s3_prefix t) @ ''/'' @ file_name)
                  | None \<Rightarrow> rstrip (CHR ''/'') (s3_prefix t) @ ''/'' @ file_name)
         in case sc_upload c path (s3_bucket t) k w of
              (Inl e, w1) \<Rightarrow> (None, w1)
            | (Inr _, w1) \<Rightarrow> (Some (''s3://'' @ s3_bucket t @ ''/'' @ k), w1)))"

definition s3_download :: "'w s3_client \<Rightarrow> s3_tier \<Rightarrow> string \<Rightarrow> string \<Rightarrow> 'w \<Rightarrow> bool \<times> 'w" where
  "s3_download c t key dest w =
     (if \<not> s3_enabled t then (False, w)
      else case sc_download c (s3_bucket t) key dest w of (Inl e, w1) \<Rightarrow> (False, w1) | (Inr _, w1) \<Rightarrow> (True, w1))"

definition s3_list_cold :: "'w s3_client \<Rightarrow> s3_tier \<Rightarrow> string \<Rightarrow> 'w \<Rightarrow> string list" where
  "s3_list_cold c t prefix w =
     (if \<not> s3_enabled t then []
      else case sc_list c (s3_bucket t) (first_given prefix [] (s3_prefix t)) w of Inl e \<Rightarrow> [] | Inr ks \<Rightarrow> ks)"

subsection \<open>The edge cache\<close>

definition cdn_enabled :: "string \<Rightarrow> bool" where
  "cdn_enabled url \<longleftrightarrow> url \<noteq> []"

text \<open>\<open>post\<close> answers the status code.\<close>

definition purge_namespace :: "(string \<Rightarrow> json \<Rightarrow> 'w \<Rightarrow> int res \<times> 'w) \<Rightarrow> string \<Rightarrow> string \<Rightarrow> 'w \<Rightarrow> bool \<times> 'w" where
  "purge_namespace post url ns w =
     (if \<not> cdn_enabled url then (False, w)
      else case post (rstrip (CHR ''/'') url @ ''/purge'') (JObj [(''namespace'', JStr ns)]) w of
             (Inl e, w1) \<Rightarrow> (False, w1) | (Inr code, w1) \<Rightarrow> (code < 300, w1))"

definition cache_headers :: "string \<Rightarrow> int \<Rightarrow> (string \<times> string) list" where
  "cache_headers url ttl =
     (if \<not> cdn_enabled url then []
      else [(''Cache-Control'', ''public, max-age='' @ int_str ttl), (''CDN-Cache-Control'', ''max-age='' @ int_str ttl),
            (''Vary'', ''X-API-Key'')])"

subsection \<open>The coordinator\<close>

record multiregion =
  mr_regions :: "string list"
  mr_replication_factor :: int
  mr_mapping :: "(string, string) dict"

fun split_on :: "char \<Rightarrow> string \<Rightarrow> string list" where
  "split_on c [] = [[]]"
| "split_on c (x # xs) =
     (if x = c then [] # split_on c xs
      else case split_on c xs of [] \<Rightarrow> [[x]] | p # ps \<Rightarrow> (x # p) # ps)"

definition blank :: "char \<Rightarrow> bool" where
  "blank c \<longleftrightarrow> c = CHR '' '' \<or> (9 \<le> (of_char c :: nat) \<and> (of_char c :: nat) \<le> 13) \<or> (28 \<le> (of_char c :: nat) \<and> (of_char c :: nat) \<le> 31)"

definition py_strip :: "string \<Rightarrow> string" where
  "py_strip s = rev (dropWhile blank (rev (dropWhile blank s)))"

text \<open>\<open>env\<close> is \<open>VSECTOR_REGIONS\<close>, if set.\<close>

definition new_multiregion :: "string list \<Rightarrow> string option \<Rightarrow> int \<Rightarrow> multiregion" where
  "new_multiregion regions env rf =
     (let rs = (if regions \<noteq> [] then regions
                else split_on (CHR '','') (case env of None \<Rightarrow> ''us-east-1,eu-west-1'' | Some s \<Rightarrow> s))
      in \<lparr>mr_regions = filter (\<lambda>r. r \<noteq> []) (map py_strip rs), mr_replication_factor = rf, mr_mapping = []\<rparr>)"

text \<open>\<open>hash\<close> is the SHA-256 of the name as a number; without regions the remainder raises.\<close>

definition primary_region :: "(string \<Rightarrow> nat) \<Rightarrow> string \<Rightarrow> multiregion \<Rightarrow> string res \<times> multiregion" where
  "primary_region hash ns m =
     (case dict_get (mr_mapping m) ns of
        Some r \<Rightarrow> (Inr r, m)
      | None \<Rightarrow>
          if mr_regions m = [] then (Inl (OtherError ''ZeroDivisionError'' ''integer modulo by zero''), m)
          else (let r = mr_regions m ! (hash ns mod length (mr_regions m))
                in (Inr r, m\<lparr>mr_mapping := dict_put ns r (mr_mapping m)\<rparr>)))"

text \<open>\<open>xs[:n]\<close>, where a negative bound counts from the end.\<close>

definition py_take :: "int \<Rightarrow> 'a list \<Rightarrow> 'a list" where
  "py_take n xs = (if 0 \<le> n then take (nat n) xs else take (length xs - nat (- n)) xs)"

definition replica_regions :: "(string \<Rightarrow> nat) \<Rightarrow> string \<Rightarrow> multiregion \<Rightarrow> string list res \<times> multiregion" where
  "replica_regions hash ns m =
     (case primary_region hash ns m of
        (Inl e, m1) \<Rightarrow> (Inl e, m1)
      | (Inr p, m1) \<Rightarrow>
          (Inr (py_take (mr_replication_factor m1 - 1) (filter (\<lambda>r. r \<noteq> p) (mr_regions m1))), m1))"

text \<open>\<open>replicate_wal\<close> builds the tier and the keys and ships nothing; what that raises is logged.\<close>

definition replicate_wal :: "(string \<Rightarrow> nat) \<Rightarrow> string \<Rightarrow> nat list \<Rightarrow> multiregion \<Rightarrow> bool res \<times> multiregion" where
  "replicate_wal hash ns payload m =
     (case replica_regions hash ns m of (Inl e, m1) \<Rightarrow> (Inl e, m1) | (Inr rs, m1) \<Rightarrow> (Inr True, m1))"

definition describe :: "multiregion \<Rightarrow> json" where
  "describe m = JObj [(''regions'', JList (map JStr (mr_regions m))), (''replication_factor'', JInt (mr_replication_factor m)),
     (''mapping'', JObj (map (\<lambda>(k, v). (k, JStr v)) (mr_mapping m)))]"

subsection \<open>Facts\<close>

text \<open>The mapping only ever caches the hash.\<close>

definition mapping_ok :: "(string \<Rightarrow> nat) \<Rightarrow> multiregion \<Rightarrow> bool" where
  "mapping_ok hash m \<longleftrightarrow>
     (\<forall>ns r. dict_get (mr_mapping m) ns = Some r \<longrightarrow>
        mr_regions m \<noteq> [] \<and> r = mr_regions m ! (hash ns mod length (mr_regions m)))"

lemma new_mapping_ok: "mapping_ok hash (new_multiregion rs env rf)"
  by (simp add: mapping_ok_def new_multiregion_def Let_def)

lemma primary_region_ok:
  assumes "mapping_ok hash m" "primary_region hash ns m = (x, m1)"
  shows "mapping_ok hash m1 \<and> mr_regions m1 = mr_regions m \<and> mr_replication_factor m1 = mr_replication_factor m \<and>
    x = (if mr_regions m = [] then Inl (OtherError ''ZeroDivisionError'' ''integer modulo by zero'')
         else Inr (mr_regions m ! (hash ns mod length (mr_regions m))))"
  using assms by (auto simp: primary_region_def mapping_ok_def Let_def map_of_dict_put split: option.splits if_splits)

text \<open>
  Regions are assigned by the hash alone, whatever was asked before: the primary is one of the regions,
  the replicas are other regions and at most one fewer than the replication factor, and
  \<open>replicate_wal\<close> acknowledges every payload of a configured coordinator.
\<close>

theorem regions_assigned:
  assumes "mapping_ok hash m" "mr_regions m \<noteq> []" "1 \<le> mr_replication_factor m"
  shows "\<exists>p rs m1 m2 m3. primary_region hash ns m = (Inr p, m1) \<and> p \<in> set (mr_regions m) \<and>
    replica_regions hash ns m = (Inr rs, m2) \<and> set rs \<subseteq> set (mr_regions m) - {p} \<and>
    int (length rs) \<le> mr_replication_factor m - 1 \<and> replicate_wal hash ns payload m = (Inr True, m3) \<and>
    mapping_ok hash m1 \<and> mapping_ok hash m2 \<and> mapping_ok hash m3"
proof -
  obtain x m1 where p: "primary_region hash ns m = (x, m1)" by fastforce
  note k = primary_region_ok [OF assms(1) p]
  define q where "q = mr_regions m ! (hash ns mod length (mr_regions m))"
  have x: "x = Inr q" using k assms(2) by (simp add: q_def)
  have q: "q \<in> set (mr_regions m)" using assms(2) by (simp add: q_def)
  define rs where "rs = py_take (mr_replication_factor m - 1) (filter (\<lambda>r. r \<noteq> q) (mr_regions m))"
  have r: "replica_regions hash ns m = (Inr rs, m1)" using p x k by (simp add: replica_regions_def rs_def)
  have "set rs \<subseteq> set (mr_regions m) - {q}" "int (length rs) \<le> mr_replication_factor m - 1"
    using assms(3) by (auto simp: rs_def py_take_def dest!: in_set_takeD)
  with p x q r k show ?thesis by (auto simp: replicate_wal_def)
qed

end
