(* ===== verification/Spec2Isabelle.thy ===== *)
theory Spec2Isabelle
  imports Control_Plane Gossip Transfer_Facts Service_Types Gateway_Facts Api_Facts Client_Errors Durability Regions
begin

text \<open>
  Vsector is a vector database written in Python. One node holds a control plane (who owns which
  shard), a data plane (the records of each shard and its replicas) and a REST front. This library
  models the code under \<open>src/vsector\<close> that carries its behaviour, one theory per component, and proves
  what each component promises to the others. Definitions keep the names of the code; every one of
  them computes.

  \<^bold>\<open>Conventions.\<close> A Python dictionary is an association list in insertion order (\<open>Prelude\<close>), an
  exception is a value of \<open>exn\<close> and a fallible operation returns \<open>exn + 'a\<close> with the state it leaves
  behind, so that an effect that happened before a raise is visible (\<open>Errors\<close>). Shards are mutable
  objects shared by the store, the router and the contexts: they live in a heap and are passed as
  references (\<open>Shard_Core\<close>, \<open>Etcd\<close>). Clocks, fresh ids, hash functions, JSON and float rendering, Redis,
  FAISS, hnswlib, the JWT and TLS libraries, the OPA service, Postgres and the etcd service are
  parameters; what a theorem needs of them is a named hypothesis, and its witness instantiates it.
  Vectors are lists of reals: rounding of float32 is not modelled. Bytes of the log are 8-bit words.

  \<^bold>\<open>Control plane.\<close> \<open>Shard_Core\<close> (\<open>sharding/shard.py\<close>) has the shard and its lifecycle table, \<open>Cluster_Node\<close>
  (\<open>cluster/node.py\<close>) the member and its table; both tables and that of migrations interpret the locale
  \<open>versioned_machine\<close>. \<open>Etcd\<close> and \<open>Etcd_Facts\<close> (\<open>sharding/etcd.py\<close>) are the metadata store with its JSON file, \<open>Etcd_Remote\<close> the store
  kept in an etcd service, which is proved to be two tables,
  \<open>Membership\<close> (\<open>cluster/membership.py\<close>) the member manager, \<open>Lifecycle\<close> (\<open>sharding/lifecycle.py\<close>) the shard
  manager, stated over the locale \<open>shard_store\<close> and interpreted both on the in-memory store and on a
  store whose put can raise. \<open>Hash_Ring\<close> and \<open>Router\<close> (\<open>sharding/hash_ring.py\<close>, \<open>router.py\<close>, \<open>placement.py\<close>) place
  records and admit reads and writes; \<open>Migration_Record\<close> and \<open>Migration\<close> (\<open>sharding/migration.py\<close>) move a shard
  to another owner over an abstract transfer provider. \<open>Control_Plane\<close> composes them into one step relation
  and proves what every reachable state satisfies.

  \<^bold>\<open>Data plane.\<close> \<open>Records\<close> (\<open>models\<close>) has records and namespaces, \<open>Wal\<close> and \<open>Wal_Facts\<close> the write-ahead log with
  its framing, rotation and group commit thread, \<open>Segment\<close> and \<open>Segment_Facts\<close> the memtable and SSTables,
  \<open>Recovery\<close> the replay at startup; \<open>Shard_Transfer\<close> and \<open>Transfer_Facts\<close> are the provider migrations use.
  \<open>Index\<close>, \<open>Index_Ann\<close> and \<open>Index_Facts\<close> have the four indexes, quantization and the index lifecycle.
  \<open>Shard_Context\<close> joins log, segments and index into the context of one shard and applies replicated
  operations; \<open>Replica_Facts\<close> relates it to the logical table of operations. \<open>Replication\<close> and
  \<open>Replication_Facts\<close> are the transport with its acknowledgement policy. \<open>Ingest\<close>, \<open>Metadata_Filter\<close> and
  \<open>Ingest_Facts\<close> are the write path and the point reads (\<open>ingest/service.py\<close>), \<open>Query\<close> and \<open>Query_Facts\<close> the search
  path with its cache and reranking (\<open>query\<close>, \<open>infra/cache.py\<close>); \<open>Service_Types\<close> shows by a locale of index laws
  that any sequence of requests keeps every index of the kind and dimension its namespace asks for.

  \<^bold>\<open>Front.\<close> \<open>Gateway\<close> and \<open>Gateway_Facts\<close> are rate limiting, authentication, the circuit breaker and the role
  policies (\<open>gateway\<close>), \<open>Metadata_Store\<close> and \<open>Metadata_Facts\<close> the namespace table with its two backends
  (\<open>storage/metadata.py\<close>), and \<open>Api\<close> the node of \<open>api/rest.py\<close>: its start, its health and placement views and its
  endpoints, each the composition of the operations above that the code calls; \<open>Api_Facts\<close> shows what a
  start keeps and reports, what a created, a deleted and a recreated namespace is, which requests the
  role policies stop, and what an acknowledged metadata patch may have done.

  \<^bold>\<open>Around the node.\<close> \<open>Read_Write\<close> joins the write path and the point reads: after a request without errors a client
  reads what it wrote. \<open>Durability\<close> takes the same request to the disk: the log of every open context holds what the
  context shows, so a service that starts over the files left after the answer serves the same records,
  up to records of the same version and checksum. \<open>Frontends\<close> has the gRPC service, the websocket, the event bus, the bulk loader and the
  compaction timer (\<open>api/grpc_server.py\<close>, \<open>api/websocket.py\<close>, \<open>api/events.py\<close>, \<open>ingest/bulk.py\<close>,
  \<open>sharding/coordinator.py\<close>) over the same services, \<open>Gossip\<close> the watch that drops routing caches
  (\<open>sharding/gossip.py\<close>), \<open>Regions\<close> the multi-region coordinator, the object storage tier and the edge cache
  (\<open>sharding/multiregion.py\<close>, \<open>storage/s3.py\<close>, \<open>infra/cdn.py\<close>).

  \<^bold>\<open>Clients.\<close> \<open>Rest_Routes\<close> has the settings (\<open>infra/config.py\<close>), the request schemas (\<open>api/schemas.py\<close>) and the routes of
  \<open>api/rest.py\<close> with their dependencies, as one function \<open>serve\<close> from an HTTP request and a server to the
  response and the server after it. \<open>Client\<close> has the Python client (\<open>api/sdk.py\<close>), the LangChain and
  LlamaIndex stores (\<open>integrations\<close>), the command line and the log output. \<open>Client_Facts\<close> composes the two:
  each call of the client is the call of its endpoint, and a client reads its own writes. \<open>Client_Errors\<close>
  shows where a client is misled: deleted vectors that a search still finds, refused nodes reported as
  added, texts that are dropped.

  \<^bold>\<open>Termination and bounds.\<close> All recursion is structural or has a measure; no model uses fuel. Lengths and
  counts are naturals or integers as in Python; an entry whose length or time does not fit its field of
  the log's header raises, as \<open>struct.pack\<close> does.

  \<^bold>\<open>Assumptions in the models.\<close> The body of an async endpoint runs without interleaving with another request
  except where a theory has an explicit step relation (\<open>Wal_Facts\<close>, \<open>Control_Plane\<close>). A file write either
  happens or raises and leaves the file; a torn tail of the log is covered by \<open>Wal_Facts\<close>.

  \<^bold>\<open>Not modelled.\<close> The counters of \<open>infra/metrics.py\<close>, the gRPC server object and the GraphQL schema text, and the
  background upload of closed log segments to S3 are left out: they only build objects of a library or
  send what nothing reads back. A search with a negative \<open>top_k\<close> is left to a parameter.
\<close>

end
